(* ===== verification/Nvme_Prelude.thy ===== *)
theory Nvme_Prelude
  imports Main "HOL-Library.Word" "HOL-Library.Signed_Division"
begin

text \<open>
  Shared vocabulary of the development: the machine integer types of the driver, the C library
  values it uses (errno numbers, decimal output), and the generic lemmas on lists, words and
  fallible computations that several components share.

  The kernel's library primitives (\<open>ktime_t\<close> arithmetic, \<open>test_and_clear_bit\<close>, \<open>kref\<close>,
  list iteration, \<open>min_t\<close>, \<open>sprintf\<close>) are the standard library of this C program and are
  written out here and in the components. Subsystems the driver calls (RDMA core, block layer,
  sysfs, workqueues, the remote controller) are parameters of the definitions that use them.
\<close>

unbundle bit_operations_syntax

type_synonym u8 = "8 word"
type_synonym u16 = "16 word"
type_synonym u32 = "32 word"
type_synonym u64 = "64 word"

section \<open>errno values (C library)\<close>

abbreviation (input) EINTR :: int where "EINTR \<equiv> 4"
abbreviation (input) EIO :: int where "EIO \<equiv> 5"
abbreviation (input) EAGAIN :: int where "EAGAIN \<equiv> 11"
abbreviation (input) ENOMEM :: int where "ENOMEM \<equiv> 12"
abbreviation (input) EBUSY :: int where "EBUSY \<equiv> 16"
abbreviation (input) EEXIST :: int where "EEXIST \<equiv> 17"
abbreviation (input) ENODEV :: int where "ENODEV \<equiv> 19"
abbreviation (input) EINVAL :: int where "EINVAL \<equiv> 22"
abbreviation (input) ENOSPC :: int where "ENOSPC \<equiv> 28"
abbreviation (input) EADDRINUSE :: int where "EADDRINUSE \<equiv> 98"
abbreviation (input) ENETRESET :: int where "ENETRESET \<equiv> 102"
abbreviation (input) ECONNRESET :: int where "ECONNRESET \<equiv> 104"
abbreviation (input) ETIMEDOUT :: int where "ETIMEDOUT \<equiv> 110"
abbreviation (input) ECONNREFUSED :: int where "ECONNREFUSED \<equiv> 111"
abbreviation (input) EALREADY :: int where "EALREADY \<equiv> 114"
abbreviation (input) EREMOTEIO :: int where "EREMOTEIO \<equiv> 121"

section \<open>Decimal output of \<open>sprintf\<close>\<close>

definition digit_char :: "nat \<Rightarrow> char" where
  "digit_char d = char_of (48 + d)"

fun dec_string :: "nat \<Rightarrow> string" where
  "dec_string n = (if n < 10 then [digit_char n] else dec_string (n div 10) @ [digit_char (n mod 10)])"

declare dec_string.simps [simp del]

text \<open>Reading a decimal numeral back, digit by digit.\<close>

definition dec_value :: "string \<Rightarrow> nat" where
  "dec_value s = foldl (\<lambda>n c. 10 * n + (of_char c - 48)) 0 s"

lemma of_char_digit_char [simp]: "d < 10 \<Longrightarrow> of_char (digit_char d) = (48 + d :: nat)"
  by (simp add: digit_char_def)

lemma dec_value_snoc: "dec_value (s @ [c]) = 10 * dec_value s + (of_char c - 48)"
  by (simp add: dec_value_def)

lemma dec_value_dec_string [simp]: "dec_value (dec_string n) = n"
proof (induction n rule: dec_string.induct)
  case (1 n)
  show ?case
  proof (cases "n < 10")
    case True
    then show ?thesis by (simp add: dec_string.simps [of n] dec_value_def)
  next
    case False
    with "1.IH" show ?thesis by (simp add: dec_string.simps [of n] dec_value_snoc)
  qed
qed

lemma length_dec_string: "0 < k \<Longrightarrow> n < 10 ^ k \<Longrightarrow> length (dec_string n) \<le> k"
proof (induction k arbitrary: n)
  case 0
  then show ?case by simp
next
  case (Suc k)
  show ?case
  proof (cases "n < 10")
    case True
    then show ?thesis by (simp add: dec_string.simps [of n])
  next
    case False
    from Suc.prems(2) have small: "n div 10 < 10 ^ k"
      by (simp add: less_mult_imp_div_less mult.commute)
    with False have "0 < k" by (cases k) auto
    with Suc.IH small have "length (dec_string (n div 10)) \<le> k" by blast
    with False show ?thesis by (simp add: dec_string.simps [of n])
  qed
qed

section \<open>Words read as numbers\<close>

lemma unat_add_bounded:
  "unat a + unat b < 2 ^ LENGTH('a) \<Longrightarrow> unat (a + b) = unat a + unat (b :: 'a::len word)"
  by (simp add: unat_word_ariths)

lemma unat_sub_le: "b \<le> a \<Longrightarrow> unat (a - b) = unat a - unat (b :: 'a::len word)"
  by (rule unat_sub)

lemma int_less_pow: "n < 2 ^ k \<Longrightarrow> int n < 2 ^ k"
  by (metis of_nat_less_iff of_nat_numeral of_nat_power)

lemma sint_small: "unat w < 2 ^ 63 \<Longrightarrow> sint (w :: u64) = int (unat w)"
proof -
  assume a: "unat w < 2 ^ 63"
  have e: "uint w = int (unat w)" by simp
  from a have "int (unat w) < 2 ^ 63"
    by (rule int_less_pow)
  then have "uint w < 2 ^ 63" unfolding e .
  moreover have "- (2 ^ 63) \<le> uint w" by (rule order_trans [of _ 0]) simp_all
  ultimately have "signed_take_bit 63 (uint w) = uint w"
    by (rule signed_take_bit_int_eq_self [rotated])
  then show ?thesis
    by (simp add: sint_uint)
qed

lemma sint_diff_small:
  assumes "unat a < 2 ^ 63" and "unat b < 2 ^ 63"
  shows "sint (a - b :: u64) = int (unat a) - int (unat b)"
proof -
  have "sint (a - b) = signed_take_bit 63 (sint a - sint b)"
    by (simp add: sint_word_ariths)
  also have "\<dots> = signed_take_bit 63 (int (unat a) - int (unat b))"
    by (simp only: sint_small [OF assms(1)] sint_small [OF assms(2)])
  also have "\<dots> = int (unat a) - int (unat b)"
  proof (rule signed_take_bit_int_eq_self)
    have "int (unat a) < 2 ^ 63" "int (unat b) < 2 ^ 63"
      using assms by (simp_all only: int_less_pow)
    then show "- (2 ^ 63) \<le> int (unat a) - int (unat b)" "int (unat a) - int (unat b) < 2 ^ 63"
      by linarith+
  qed
  finally show ?thesis .
qed
text \<open>C division of non-negative values is the division of the logic.\<close>

lemma sdiv_nonneg: "0 \<le> a \<Longrightarrow> 0 < b \<Longrightarrow> a sdiv b = a div (b :: int)"
  by (cases "a = 0") (simp_all add: signed_divide_int_def)

section \<open>Lists updated by index\<close>

lemma nth_list_update_if:
  "i < length xs \<Longrightarrow> xs[i := x] ! j = (if i = j then x else xs ! j)"
  by (simp add: nth_list_update)

lemma sum_list_map_snoc: "sum_list (map f (xs @ [x])) = sum_list (map f xs) + f x"
  for f :: "'a \<Rightarrow> nat"
  by simp

section \<open>Runs of a step function and forward simulation\<close>

text \<open>
  A component that reacts to a sequence of events is a step function that returns the new state
  and possibly an output; a run threads the state and collects the outputs.
\<close>

fun run_steps :: "('e \<Rightarrow> 's \<Rightarrow> 's \<times> 'o option) \<Rightarrow> 'e list \<Rightarrow> 's \<Rightarrow> 's \<times> 'o list" where
  "run_steps f [] s = (s, [])"
| "run_steps f (e # es) s =
     (let (s, out) = f e s;
          (s, outs) = run_steps f es s
      in (s, (case out of None \<Rightarrow> [] | Some x \<Rightarrow> [x]) @ outs))"

fun run_guarded :: "('e \<Rightarrow> 's \<Rightarrow> 's \<times> 'o option) \<Rightarrow> ('s \<Rightarrow> 'e \<Rightarrow> bool) \<Rightarrow> 'e list \<Rightarrow> 's \<Rightarrow> bool" where
  "run_guarded f ok [] s = True"
| "run_guarded f ok (e # es) s = (ok s e \<and> run_guarded f ok es (fst (f e s)))"

text \<open>
  The contract between an implementation and its abstract machine: the same event takes related
  states to related states, with outputs that mean the same, whenever the abstract machine's
  guard allows the event.
\<close>

locale simulation =
  fixes cstep :: "'e \<Rightarrow> 'c \<Rightarrow> 'c \<times> 'x option"
    and astep :: "'e \<Rightarrow> 'a \<Rightarrow> 'a \<times> 'y option"
    and rel :: "'c \<Rightarrow> 'a \<Rightarrow> bool"
    and ok :: "'a \<Rightarrow> 'e \<Rightarrow> bool"
    and cout :: "'x \<Rightarrow> 'o"
    and aout :: "'y \<Rightarrow> 'o"
  assumes step_rel: "rel c a \<Longrightarrow> ok a e \<Longrightarrow> rel (fst (cstep e c)) (fst (astep e a))"
    and step_out: "rel c a \<Longrightarrow> ok a e \<Longrightarrow>
      map_option cout (snd (cstep e c)) = map_option aout (snd (astep e a))"
begin

lemma run_simulates:
  assumes "rel c a" and "run_guarded astep ok es a"
  shows "rel (fst (run_steps cstep es c)) (fst (run_steps astep es a)) \<and>
    map cout (snd (run_steps cstep es c)) = map aout (snd (run_steps astep es a))"
  using assms
proof (induction es arbitrary: c a)
  case Nil
  then show ?case by simp
next
  case (Cons e es)
  obtain c' x where c': "cstep e c = (c', x)" by fastforce
  obtain a' y where a': "astep e a = (a', y)" by fastforce
  from Cons.prems c' a' have "rel c' a'" and out: "map_option cout x = map_option aout y"
    using step_rel [of c a e] step_out [of c a e] by auto
  with Cons a' have "rel (fst (run_steps cstep es c')) (fst (run_steps astep es a')) \<and>
      map cout (snd (run_steps cstep es c')) = map aout (snd (run_steps astep es a'))"
    by simp
  with out show ?case
    by (cases x; cases y) (auto simp: c' a' split: prod.splits)
qed

end

section \<open>Replaying calls that take and release resources\<close>

text \<open>
  A trace of calls is replayed over the set of resources held; the contract of each call is a partial
  step, \<open>None\<close> being a call the contract forbids. A call that takes a resource must not hold it yet, one
  that drops it must hold it, and either may have a side condition.
\<close>

definition take_res :: "bool \<Rightarrow> 'r \<Rightarrow> bool \<Rightarrow> 'r set \<Rightarrow> 'r set option" where
  "take_res ok x allowed S =
     (if \<not> allowed then None else if \<not> ok then Some S
      else if x \<in> S then None else Some (insert x S))"

definition drop_res :: "'r \<Rightarrow> bool \<Rightarrow> 'r set \<Rightarrow> 'r set option" where
  "drop_res x allowed S = (if allowed \<and> x \<in> S then Some (S - {x}) else None)"

definition use_res :: "bool \<Rightarrow> 'r set \<Rightarrow> 'r set option" where
  "use_res allowed S = (if allowed then Some S else None)"

fun replay_by :: "('k \<Rightarrow> 's \<Rightarrow> 's option) \<Rightarrow> 'k list \<Rightarrow> 's \<Rightarrow> 's option" where
  "replay_by step [] S = Some S"
| "replay_by step (k # ks) S = Option.bind (step k S) (replay_by step ks)"

lemma replay_by_append:
  "replay_by step (xs @ ys) S = Option.bind (replay_by step xs S) (replay_by step ys)"
  by (induction xs arbitrary: S) (auto split: Option.bind_splits)

section \<open>A driver and the block layer\<close>

text \<open>
  The contract between the block layer and a driver, per request: issuing an idle request either puts it
  in flight or leaves it idle, and finishing one in flight makes it idle again. The block layer may then
  issue it, or another request with the same tag, as often as it likes.
\<close>

fun mq_cycles :: "('e \<Rightarrow> 's \<Rightarrow> bool \<times> 's) \<Rightarrow> ('e \<Rightarrow> 's \<Rightarrow> 's) \<Rightarrow> 'e list \<Rightarrow> 's \<Rightarrow> 's" where
  "mq_cycles issue finish [] s = s"
| "mq_cycles issue finish (e # es) s =
     (let (started, s) = issue e s
      in mq_cycles issue finish es (if started then finish e s else s))"

locale mq_driver =
  fixes issue :: "'e \<Rightarrow> 's \<Rightarrow> bool \<times> 's"
    and finish :: "'e \<Rightarrow> 's \<Rightarrow> 's"
    and legal :: "'e \<Rightarrow> bool"
    and idle :: "'s \<Rightarrow> bool"
    and flying :: "'s \<Rightarrow> bool"
  assumes issue_started: "legal e \<Longrightarrow> idle s \<Longrightarrow> fst (issue e s) \<Longrightarrow> flying (snd (issue e s))"
    and issue_refused: "legal e \<Longrightarrow> idle s \<Longrightarrow> \<not> fst (issue e s) \<Longrightarrow> idle (snd (issue e s))"
    and finish_idle: "legal e \<Longrightarrow> flying s \<Longrightarrow> idle (finish e s)"
begin

lemma cycles_idle: "\<forall>e \<in> set es. legal e \<Longrightarrow> idle s \<Longrightarrow> idle (mq_cycles issue finish es s)"
proof (induction es arbitrary: s)
  case Nil
  then show ?case by simp
next
  case (Cons e es)
  obtain started s' where i: "issue e s = (started, s')" by fastforce
  have "idle (if started then finish e s' else s')"
    using Cons.prems issue_started [of e s] issue_refused [of e s] finish_idle [of e s'] i by auto
  with Cons i show ?case by simp
qed

end

end
