(* ===== verification/Nvme_Spec.thy ===== *)
theory Nvme_Spec
  imports Nvme_Prelude
begin

text \<open>
  Constants of the NVM Express base and NVMe over Fabrics specifications that the driver uses by
  name (the kernel keeps them in its \<open>include/linux/nvme.h\<close> and \<open>nvme-rdma.h\<close>, which are not part
  of this repository): register offsets and fields, status codes, opcodes, features. They are
  numbers fixed by those documents; nothing here models driver code.
\<close>

section \<open>Registers\<close>

abbreviation (input) NVME_REG_CAP :: u32 where "NVME_REG_CAP \<equiv> 0"
abbreviation (input) NVME_REG_VS :: u32 where "NVME_REG_VS \<equiv> 0x8"
abbreviation (input) NVME_REG_CC :: u32 where "NVME_REG_CC \<equiv> 0x14"
abbreviation (input) NVME_REG_CSTS :: u32 where "NVME_REG_CSTS \<equiv> 0x1c"

abbreviation (input) NVME_CAP_MQES :: "u64 \<Rightarrow> u64" where "NVME_CAP_MQES cap \<equiv> cap AND 0xffff"
abbreviation (input) NVME_CAP_NSSRC :: "u64 \<Rightarrow> u64" where "NVME_CAP_NSSRC cap \<equiv> drop_bit 36 cap AND 1"
abbreviation (input) NVME_CAP_TIMEOUT :: "u64 \<Rightarrow> u64" where "NVME_CAP_TIMEOUT cap \<equiv> drop_bit 24 cap AND 0xff"
abbreviation (input) NVME_CAP_MPSMIN :: "u64 \<Rightarrow> u64" where "NVME_CAP_MPSMIN cap \<equiv> drop_bit 48 cap AND 0xf"

abbreviation (input) NVME_CC_ENABLE :: u32 where "NVME_CC_ENABLE \<equiv> 1"
abbreviation (input) NVME_CC_CSS_NVM :: u32 where "NVME_CC_CSS_NVM \<equiv> 0"
abbreviation (input) NVME_CC_MPS_SHIFT :: nat where "NVME_CC_MPS_SHIFT \<equiv> 7"
abbreviation (input) NVME_CC_AMS_RR :: u32 where "NVME_CC_AMS_RR \<equiv> 0"
abbreviation (input) NVME_CC_SHN_NONE :: u32 where "NVME_CC_SHN_NONE \<equiv> 0"
abbreviation (input) NVME_CC_SHN_NORMAL :: u32 where "NVME_CC_SHN_NORMAL \<equiv> 0x4000"
abbreviation (input) NVME_CC_SHN_MASK :: u32 where "NVME_CC_SHN_MASK \<equiv> 0xc000"
abbreviation (input) NVME_CC_IOSQES :: u32 where "NVME_CC_IOSQES \<equiv> 0x60000"
abbreviation (input) NVME_CC_IOCQES :: u32 where "NVME_CC_IOCQES \<equiv> 0x400000"

abbreviation (input) NVME_CSTS_RDY :: u32 where "NVME_CSTS_RDY \<equiv> 1"
abbreviation (input) NVME_CSTS_SHST_CMPLT :: u32 where "NVME_CSTS_SHST_CMPLT \<equiv> 0x8"
abbreviation (input) NVME_CSTS_SHST_MASK :: u32 where "NVME_CSTS_SHST_MASK \<equiv> 0xc"

section \<open>Features and asynchronous events\<close>

abbreviation (input) NVME_FEAT_NUM_QUEUES :: u32 where "NVME_FEAT_NUM_QUEUES \<equiv> 0x07"
abbreviation (input) NVME_FEAT_AUTO_PST :: u32 where "NVME_FEAT_AUTO_PST \<equiv> 0x0c"
abbreviation (input) NVME_FEAT_TIMESTAMP :: u32 where "NVME_FEAT_TIMESTAMP \<equiv> 0x0e"
abbreviation (input) NVME_FEAT_HOST_BEHAVIOR :: u32 where "NVME_FEAT_HOST_BEHAVIOR \<equiv> 0x16"
abbreviation (input) NVME_FEAT_ASYNC_EVENT :: u32 where "NVME_FEAT_ASYNC_EVENT \<equiv> 0x0b"

abbreviation (input) NVME_AEN_CFG_NS_ATTR :: u32 where "NVME_AEN_CFG_NS_ATTR \<equiv> 0x100"
abbreviation (input) NVME_AEN_CFG_FW_ACT :: u32 where "NVME_AEN_CFG_FW_ACT \<equiv> 0x200"
abbreviation (input) NVME_AEN_CFG_ANA_CHANGE :: u32 where "NVME_AEN_CFG_ANA_CHANGE \<equiv> 0x800"
abbreviation (input) NVME_AEN_CFG_DISC_CHANGE :: u32 where "NVME_AEN_CFG_DISC_CHANGE \<equiv> 0x80000000"

abbreviation (input) NVME_CSTS_PP :: u32 where "NVME_CSTS_PP \<equiv> 0x20"

abbreviation (input) NVME_AER_ERROR :: u32 where "NVME_AER_ERROR \<equiv> 0"
abbreviation (input) NVME_AER_SMART :: u32 where "NVME_AER_SMART \<equiv> 1"
abbreviation (input) NVME_AER_NOTICE :: u32 where "NVME_AER_NOTICE \<equiv> 2"
abbreviation (input) NVME_AER_CSS :: u32 where "NVME_AER_CSS \<equiv> 6"
abbreviation (input) NVME_AER_VS :: u32 where "NVME_AER_VS \<equiv> 7"
abbreviation (input) NVME_AER_NOTICE_NS_CHANGED :: u32 where "NVME_AER_NOTICE_NS_CHANGED \<equiv> 0x00"
abbreviation (input) NVME_AER_NOTICE_FW_ACT_STARTING :: u32 where "NVME_AER_NOTICE_FW_ACT_STARTING \<equiv> 0x01"
abbreviation (input) NVME_AER_NOTICE_ANA :: u32 where "NVME_AER_NOTICE_ANA \<equiv> 0x03"
abbreviation (input) NVME_AER_NOTICE_DISC_CHANGED :: u32 where "NVME_AER_NOTICE_DISC_CHANGED \<equiv> 0xf0"

abbreviation (input) NVME_CTRL_ATTR_TBKAS :: u32 where "NVME_CTRL_ATTR_TBKAS \<equiv> 0x40"

section \<open>Identify data\<close>

abbreviation (input) NVME_CTRL_LPA_CMD_EFFECTS_LOG :: u8 where "NVME_CTRL_LPA_CMD_EFFECTS_LOG \<equiv> 0x2"
abbreviation (input) NVME_CTRL_OACS_DIRECTIVES :: u16 where "NVME_CTRL_OACS_DIRECTIVES \<equiv> 0x20"
abbreviation (input) NVME_CTRL_ONCS_TIMESTAMP :: u16 where "NVME_CTRL_ONCS_TIMESTAMP \<equiv> 0x40"
abbreviation (input) NVME_CTRL_VWC_PRESENT :: u8 where "NVME_CTRL_VWC_PRESENT \<equiv> 0x1"
abbreviation (input) NVME_PS_FLAGS_NON_OP_STATE :: u8 where "NVME_PS_FLAGS_NON_OP_STATE \<equiv> 0x2"
abbreviation (input) NVME_VS_1_1_0 :: u32 where "NVME_VS_1_1_0 \<equiv> 0x10100"
abbreviation (input) BLK_MAX_WRITE_HINTS :: nat where "BLK_MAX_WRITE_HINTS \<equiv> 5"

section \<open>Status codes\<close>

abbreviation (input) NVME_SC_SUCCESS :: u16 where "NVME_SC_SUCCESS \<equiv> 0x0"
abbreviation (input) NVME_SC_INVALID_OPCODE :: u16 where "NVME_SC_INVALID_OPCODE \<equiv> 0x1"
abbreviation (input) NVME_SC_INVALID_FIELD :: u16 where "NVME_SC_INVALID_FIELD \<equiv> 0x2"
abbreviation (input) NVME_SC_INTERNAL :: u16 where "NVME_SC_INTERNAL \<equiv> 0x6"
abbreviation (input) NVME_SC_INVALID_NS :: u16 where "NVME_SC_INVALID_NS \<equiv> 0xb"
abbreviation (input) NVME_SC_CMD_SEQ_ERROR :: u16 where "NVME_SC_CMD_SEQ_ERROR \<equiv> 0xc"
abbreviation (input) NVME_SC_LBA_RANGE :: u16 where "NVME_SC_LBA_RANGE \<equiv> 0x80"
abbreviation (input) NVME_SC_CAP_EXCEEDED :: u16 where "NVME_SC_CAP_EXCEEDED \<equiv> 0x81"
abbreviation (input) NVME_SC_RESERVATION_CONFLICT :: u16 where "NVME_SC_RESERVATION_CONFLICT \<equiv> 0x83"
abbreviation (input) NVME_SC_BAD_ATTRIBUTES :: u16 where "NVME_SC_BAD_ATTRIBUTES \<equiv> 0x180"
abbreviation (input) NVME_SC_INVALID_PI :: u16 where "NVME_SC_INVALID_PI \<equiv> 0x181"
abbreviation (input) NVME_SC_READ_ONLY :: u16 where "NVME_SC_READ_ONLY \<equiv> 0x182"
abbreviation (input) NVME_SC_ONCS_NOT_SUPPORTED :: u16 where "NVME_SC_ONCS_NOT_SUPPORTED \<equiv> 0x183"
abbreviation (input) NVME_SC_CONNECT_FORMAT :: u16 where "NVME_SC_CONNECT_FORMAT \<equiv> 0x180"
abbreviation (input) NVME_SC_CONNECT_CTRL_BUSY :: u16 where "NVME_SC_CONNECT_CTRL_BUSY \<equiv> 0x181"
abbreviation (input) NVME_SC_CONNECT_INVALID_PARAM :: u16 where "NVME_SC_CONNECT_INVALID_PARAM \<equiv> 0x182"
abbreviation (input) NVME_SC_CONNECT_INVALID_HOST :: u16 where "NVME_SC_CONNECT_INVALID_HOST \<equiv> 0x184"
abbreviation (input) NVME_SC_WRITE_FAULT :: u16 where "NVME_SC_WRITE_FAULT \<equiv> 0x280"
abbreviation (input) NVME_SC_READ_ERROR :: u16 where "NVME_SC_READ_ERROR \<equiv> 0x281"
abbreviation (input) NVME_SC_GUARD_CHECK :: u16 where "NVME_SC_GUARD_CHECK \<equiv> 0x282"
abbreviation (input) NVME_SC_APPTAG_CHECK :: u16 where "NVME_SC_APPTAG_CHECK \<equiv> 0x283"
abbreviation (input) NVME_SC_REFTAG_CHECK :: u16 where "NVME_SC_REFTAG_CHECK \<equiv> 0x284"
abbreviation (input) NVME_SC_COMPARE_FAILED :: u16 where "NVME_SC_COMPARE_FAILED \<equiv> 0x285"
abbreviation (input) NVME_SC_ACCESS_DENIED :: u16 where "NVME_SC_ACCESS_DENIED \<equiv> 0x286"
abbreviation (input) NVME_SC_UNWRITTEN_BLOCK :: u16 where "NVME_SC_UNWRITTEN_BLOCK \<equiv> 0x287"
abbreviation (input) NVME_SC_ANA_PERSISTENT_LOSS :: u16 where "NVME_SC_ANA_PERSISTENT_LOSS \<equiv> 0x301"
abbreviation (input) NVME_SC_ANA_INACCESSIBLE :: u16 where "NVME_SC_ANA_INACCESSIBLE \<equiv> 0x302"
abbreviation (input) NVME_SC_ANA_TRANSITION :: u16 where "NVME_SC_ANA_TRANSITION \<equiv> 0x303"
abbreviation (input) NVME_SC_HOST_PATH_ERROR :: u16 where "NVME_SC_HOST_PATH_ERROR \<equiv> 0x370"
abbreviation (input) NVME_SC_HOST_ABORTED_CMD :: u16 where "NVME_SC_HOST_ABORTED_CMD \<equiv> 0x371"
abbreviation (input) NVME_SC_CRD :: u16 where "NVME_SC_CRD \<equiv> 0x1800"
abbreviation (input) NVME_SC_DNR :: u16 where "NVME_SC_DNR \<equiv> 0x4000"

section \<open>Commands\<close>

abbreviation (input) nvme_cmd_flush :: u8 where "nvme_cmd_flush \<equiv> 0x00"
abbreviation (input) nvme_cmd_write :: u8 where "nvme_cmd_write \<equiv> 0x01"
abbreviation (input) nvme_cmd_read :: u8 where "nvme_cmd_read \<equiv> 0x02"
abbreviation (input) nvme_cmd_write_zeroes :: u8 where "nvme_cmd_write_zeroes \<equiv> 0x08"
abbreviation (input) nvme_cmd_dsm :: u8 where "nvme_cmd_dsm \<equiv> 0x09"
abbreviation (input) nvme_admin_async_event :: u8 where "nvme_admin_async_event \<equiv> 0x0c"
abbreviation (input) nvme_fabrics_command :: u8 where "nvme_fabrics_command \<equiv> 0x7f"
abbreviation (input) nvme_fabrics_type_property_set :: u8 where "nvme_fabrics_type_property_set \<equiv> 0x00"
abbreviation (input) nvme_fabrics_type_connect :: u8 where "nvme_fabrics_type_connect \<equiv> 0x01"
abbreviation (input) nvme_fabrics_type_property_get :: u8 where "nvme_fabrics_type_property_get \<equiv> 0x04"

abbreviation (input) NVME_CMD_SGL_METABUF :: u8 where "NVME_CMD_SGL_METABUF \<equiv> 0x40"
abbreviation (input) NVME_SGL_FMT_DATA_DESC :: u8 where "NVME_SGL_FMT_DATA_DESC \<equiv> 0x00"
abbreviation (input) NVME_KEY_SGL_FMT_DATA_DESC :: u8 where "NVME_KEY_SGL_FMT_DATA_DESC \<equiv> 0x04"
abbreviation (input) NVME_SGL_FMT_OFFSET :: u8 where "NVME_SGL_FMT_OFFSET \<equiv> 0x01"
abbreviation (input) NVME_SGL_FMT_INVALIDATE :: u8 where "NVME_SGL_FMT_INVALIDATE \<equiv> 0x0f"

abbreviation (input) NVME_DSMGMT_AD :: u32 where "NVME_DSMGMT_AD \<equiv> 0x4"
abbreviation (input) NVME_RW_LR :: u16 where "NVME_RW_LR \<equiv> 0x8000"
abbreviation (input) NVME_RW_FUA :: u16 where "NVME_RW_FUA \<equiv> 0x4000"
abbreviation (input) NVME_RW_PRINFO_PRACT :: u16 where "NVME_RW_PRINFO_PRACT \<equiv> 0x2000"
abbreviation (input) NVME_RW_PRINFO_PRCHK_GUARD :: u16 where "NVME_RW_PRINFO_PRCHK_GUARD \<equiv> 0x1000"
abbreviation (input) NVME_RW_PRINFO_PRCHK_REF :: u16 where "NVME_RW_PRINFO_PRCHK_REF \<equiv> 0x0400"
abbreviation (input) NVME_RW_DTYPE_STREAMS :: u16 where "NVME_RW_DTYPE_STREAMS \<equiv> 0x0010"
abbreviation (input) NVME_RW_DSM_FREQ_PREFETCH :: u32 where "NVME_RW_DSM_FREQ_PREFETCH \<equiv> 0x4"
abbreviation (input) NVME_NS_DPS_PI_TYPE1 :: u8 where "NVME_NS_DPS_PI_TYPE1 \<equiv> 1"
abbreviation (input) NVME_NS_DPS_PI_TYPE2 :: u8 where "NVME_NS_DPS_PI_TYPE2 \<equiv> 2"
abbreviation (input) NVME_NS_DPS_PI_TYPE3 :: u8 where "NVME_NS_DPS_PI_TYPE3 \<equiv> 3"
abbreviation (input) SIZEOF_T10_PI_TUPLE :: u16 where "SIZEOF_T10_PI_TUPLE \<equiv> 8"

section \<open>Fabrics constants\<close>

abbreviation (input) NVME_CONNECT_DISABLE_SQFLOW :: u8 where "NVME_CONNECT_DISABLE_SQFLOW \<equiv> 0x04"

text \<open>Byte offsets in the connect command and its data that a rejected connect reports.\<close>

abbreviation (input) CONNECT_DATA_CNTLID :: nat where "CONNECT_DATA_CNTLID \<equiv> 16"
abbreviation (input) CONNECT_DATA_SUBSYSNQN :: nat where "CONNECT_DATA_SUBSYSNQN \<equiv> 256"
abbreviation (input) CONNECT_DATA_HOSTNQN :: nat where "CONNECT_DATA_HOSTNQN \<equiv> 512"
abbreviation (input) CONNECT_CMD_QID :: nat where "CONNECT_CMD_QID \<equiv> 42"

abbreviation (input) NVME_DISC_SUBSYS_NAME :: string where
  "NVME_DISC_SUBSYS_NAME \<equiv> ''nqn.2014-08.org.nvmexpress.discovery''"

abbreviation (input) NVME_AQ_DEPTH :: nat where "NVME_AQ_DEPTH \<equiv> 32"
abbreviation (input) NVME_NR_AEN_COMMANDS :: nat where "NVME_NR_AEN_COMMANDS \<equiv> 1"
abbreviation (input) NVME_AQ_BLK_MQ_DEPTH :: nat where "NVME_AQ_BLK_MQ_DEPTH \<equiv> NVME_AQ_DEPTH - NVME_NR_AEN_COMMANDS"
abbreviation (input) NVMF_NQN_SIZE :: nat where "NVMF_NQN_SIZE \<equiv> 223"
abbreviation (input) SIZEOF_NVME_COMMAND :: nat where "SIZEOF_NVME_COMMAND \<equiv> 64"
abbreviation (input) SIZEOF_NVME_COMPLETION :: nat where "SIZEOF_NVME_COMPLETION \<equiv> 16"

section \<open>What the target adds\<close>

text \<open>Fields of CC and CSTS, log pages, admin commands and features the target answers.\<close>

abbreviation (input) NVME_CC_EN_SHIFT :: nat where "NVME_CC_EN_SHIFT \<equiv> 0"
abbreviation (input) NVME_CC_CSS_SHIFT :: nat where "NVME_CC_CSS_SHIFT \<equiv> 4"
abbreviation (input) NVME_CC_AMS_SHIFT :: nat where "NVME_CC_AMS_SHIFT \<equiv> 11"
abbreviation (input) NVME_CC_SHN_SHIFT :: nat where "NVME_CC_SHN_SHIFT \<equiv> 14"
abbreviation (input) NVME_CC_IOSQES_SHIFT :: nat where "NVME_CC_IOSQES_SHIFT \<equiv> 16"
abbreviation (input) NVME_CC_IOCQES_SHIFT :: nat where "NVME_CC_IOCQES_SHIFT \<equiv> 20"
abbreviation (input) NVME_CSTS_CFS :: u32 where "NVME_CSTS_CFS \<equiv> 2"
abbreviation (input) NVME_NVM_IOSQES :: u8 where "NVME_NVM_IOSQES \<equiv> 6"
abbreviation (input) NVME_NVM_IOCQES :: u8 where "NVME_NVM_IOCQES \<equiv> 4"

abbreviation (input) NVME_SC_SGL_INVALID_DATA :: u16 where "NVME_SC_SGL_INVALID_DATA \<equiv> 0xf"
abbreviation (input) NVME_SC_NS_WRITE_PROTECTED :: u16 where "NVME_SC_NS_WRITE_PROTECTED \<equiv> 0x20"
abbreviation (input) NVME_SC_ASYNC_LIMIT :: u16 where "NVME_SC_ASYNC_LIMIT \<equiv> 0x105"
abbreviation (input) NVME_SC_FEATURE_NOT_CHANGEABLE :: u16 where "NVME_SC_FEATURE_NOT_CHANGEABLE \<equiv> 0x10e"

abbreviation (input) NVME_AEN_BIT_NS_ATTR :: nat where "NVME_AEN_BIT_NS_ATTR \<equiv> 8"
abbreviation (input) NVME_AEN_BIT_ANA_CHANGE :: nat where "NVME_AEN_BIT_ANA_CHANGE \<equiv> 11"
abbreviation (input) NVME_AEN_BIT_DISC_CHANGE :: nat where "NVME_AEN_BIT_DISC_CHANGE \<equiv> 31"
abbreviation (input) NVME_LOG_ERROR :: u8 where "NVME_LOG_ERROR \<equiv> 1"
abbreviation (input) NVME_LOG_SMART :: u8 where "NVME_LOG_SMART \<equiv> 2"
abbreviation (input) NVME_LOG_FW_SLOT :: u8 where "NVME_LOG_FW_SLOT \<equiv> 3"
abbreviation (input) NVME_LOG_CHANGED_NS :: u8 where "NVME_LOG_CHANGED_NS \<equiv> 4"
abbreviation (input) NVME_LOG_CMD_EFFECTS :: u8 where "NVME_LOG_CMD_EFFECTS \<equiv> 5"
abbreviation (input) NVME_LOG_ANA :: u8 where "NVME_LOG_ANA \<equiv> 0xc"
abbreviation (input) NVME_LOG_DISC :: u8 where "NVME_LOG_DISC \<equiv> 0x70"
abbreviation (input) NVME_ANA_LOG_RGO :: u8 where "NVME_ANA_LOG_RGO \<equiv> 1"
abbreviation (input) NVME_MAX_CHANGED_NAMESPACES :: nat where "NVME_MAX_CHANGED_NAMESPACES \<equiv> 1024"
abbreviation (input) NVME_IDENTIFY_DATA_SIZE :: nat where "NVME_IDENTIFY_DATA_SIZE \<equiv> 4096"
abbreviation (input) NVME_NSID_ALL :: u32 where "NVME_NSID_ALL \<equiv> 0xffffffff"
abbreviation (input) nvme_admin_get_log_page :: u8 where "nvme_admin_get_log_page \<equiv> 0x02"
abbreviation (input) nvme_admin_identify :: u8 where "nvme_admin_identify \<equiv> 0x06"
abbreviation (input) nvme_admin_abort_cmd :: u8 where "nvme_admin_abort_cmd \<equiv> 0x08"
abbreviation (input) nvme_admin_set_features :: u8 where "nvme_admin_set_features \<equiv> 0x09"
abbreviation (input) nvme_admin_get_features :: u8 where "nvme_admin_get_features \<equiv> 0x0a"
abbreviation (input) nvme_admin_keep_alive :: u8 where "nvme_admin_keep_alive \<equiv> 0x18"
abbreviation (input) NVME_ID_CNS_NS :: u8 where "NVME_ID_CNS_NS \<equiv> 0"
abbreviation (input) NVME_ID_CNS_CTRL :: u8 where "NVME_ID_CNS_CTRL \<equiv> 1"
abbreviation (input) NVME_ID_CNS_NS_ACTIVE_LIST :: u8 where "NVME_ID_CNS_NS_ACTIVE_LIST \<equiv> 2"
abbreviation (input) NVME_ID_CNS_NS_DESC_LIST :: u8 where "NVME_ID_CNS_NS_DESC_LIST \<equiv> 3"
abbreviation (input) NVME_FEAT_VOLATILE_WC :: u32 where "NVME_FEAT_VOLATILE_WC \<equiv> 0x06"
abbreviation (input) NVME_FEAT_KATO :: u32 where "NVME_FEAT_KATO \<equiv> 0x0f"
abbreviation (input) NVME_FEAT_HOST_ID :: u32 where "NVME_FEAT_HOST_ID \<equiv> 0x81"
abbreviation (input) NVME_FEAT_WRITE_PROTECT :: u32 where "NVME_FEAT_WRITE_PROTECT \<equiv> 0x84"
abbreviation (input) NVME_NS_NO_WRITE_PROTECT :: u32 where "NVME_NS_NO_WRITE_PROTECT \<equiv> 0"
abbreviation (input) NVME_NS_WRITE_PROTECT :: u32 where "NVME_NS_WRITE_PROTECT \<equiv> 1"
abbreviation (input) NVME_CNTLID_MIN :: nat where "NVME_CNTLID_MIN \<equiv> 1"
abbreviation (input) NVME_CNTLID_MAX :: nat where "NVME_CNTLID_MAX \<equiv> 0xffef"
abbreviation (input) NVME_CMD_FUSE_FIRST :: u8 where "NVME_CMD_FUSE_FIRST \<equiv> 1"
abbreviation (input) NVME_CMD_FUSE_SECOND :: u8 where "NVME_CMD_FUSE_SECOND \<equiv> 2"
abbreviation (input) NVME_CMD_SGL_ALL :: u8 where "NVME_CMD_SGL_ALL \<equiv> 0xc0"

text \<open>Byte offsets of the fields an error is blamed on, in the command and in the connect data.\<close>

abbreviation (input) OFF_OPCODE :: u16 where "OFF_OPCODE \<equiv> 0"
abbreviation (input) OFF_FLAGS :: u16 where "OFF_FLAGS \<equiv> 1"
abbreviation (input) OFF_NSID :: u16 where "OFF_NSID \<equiv> 4"
abbreviation (input) OFF_FCTYPE :: u16 where "OFF_FCTYPE \<equiv> 4"
abbreviation (input) OFF_DPTR :: u16 where "OFF_DPTR \<equiv> 24"
abbreviation (input) OFF_CDW10 :: u16 where "OFF_CDW10 \<equiv> 40"
abbreviation (input) OFF_CDW11 :: u16 where "OFF_CDW11 \<equiv> 44"
abbreviation (input) OFF_SLBA :: u16 where "OFF_SLBA \<equiv> 40"
abbreviation (input) OFF_RW_LENGTH :: u16 where "OFF_RW_LENGTH \<equiv> 48"
abbreviation (input) OFF_CONNECT_RECFMT :: u16 where "OFF_CONNECT_RECFMT \<equiv> 40"
abbreviation (input) OFF_CONNECT_SQSIZE :: u16 where "OFF_CONNECT_SQSIZE \<equiv> 44"
abbreviation (input) OFF_PROP_ATTRIB :: u16 where "OFF_PROP_ATTRIB \<equiv> 40"
abbreviation (input) OFF_PROP_OFFSET :: u16 where "OFF_PROP_OFFSET \<equiv> 44"
abbreviation (input) OFF_LID :: u16 where "OFF_LID \<equiv> 40"
abbreviation (input) OFF_CNS :: u16 where "OFF_CNS \<equiv> 40"

end
