(* ===== verification/Target_Ctrl.thy ===== *)
theory Target_Ctrl
  imports Nvme_Spec
begin

text \<open>
  The controller on the target's side (\<open>target/nvmet.h\<close>, \<open>target/core.c\<close>): requests and their buffers,
  completions, submission queue heads, the error log, the configuration and status registers, the
  keep-alive timer. A handler works on the state a queue sees: the queue, the controller it is connected
  to, and the responses handed to the transport.
\<close>

section \<open>Requests\<close>

text \<open>A command as the target reads it; each kind of command uses its own fields of the C union.\<close>

record nvme_cmd =
  tc_opcode :: u8
  tc_flags :: u8
  tc_command_id :: u16
  tc_nsid :: u32
  tc_cdw10 :: u32
  tc_cdw11 :: u32
  tc_cdw12 :: u32
  tc_lpo :: u64        \<comment> \<open>log page offset\<close>
  tc_fctype :: u8
  tc_attrib :: u8      \<comment> \<open>property commands\<close>
  tc_offset :: u32
  tc_value :: u64
  tc_recfmt :: u16     \<comment> \<open>connect\<close>
  tc_qid :: u16
  tc_sqsize :: u16
  tc_cattr :: u8
  tc_kato :: u32

text \<open>
  A request: \<open>r_sg\<close> is the memory its scatter list describes, \<open>r_ns\<close> the address of the namespace it holds a
  reference to, the last three fields the completion entry.
\<close>

record nvmet_req =
  r_cmd :: nvme_cmd
  r_sg :: "u8 list"
  r_data_len :: u64
  r_transfer_len :: u64
  r_ns :: "nat option"
  r_error_loc :: u16
  r_error_slba :: u64
  r_result :: u64
  r_status :: u16
  r_sq_head :: u16

abbreviation (input) NVMET_NO_ERROR_LOC :: u16 where "NVMET_NO_ERROR_LOC \<equiv> 0xffff"
abbreviation (input) NVMET_ASYNC_EVENTS :: nat where "NVMET_ASYNC_EVENTS \<equiv> 4"
abbreviation (input) NVMET_ERROR_LOG_SLOTS :: nat where "NVMET_ERROR_LOG_SLOTS \<equiv> 128"
abbreviation (input) NVMET_QUEUE_SIZE :: nat where "NVMET_QUEUE_SIZE \<equiv> 1024"

text \<open>Copying to and from the scatter list; a short copy is an error, what fits is copied all the same.\<close>

definition sg_write :: "nat \<Rightarrow> u8 list \<Rightarrow> u8 list \<Rightarrow> nat \<times> u8 list" where
  "sg_write off data buf =
     (let n = min (length data) (length buf - off)
      in (n, take off buf @ take n data @ drop (off + n) buf))"

definition nvmet_copy_to_sgl :: "nat \<Rightarrow> u8 list \<Rightarrow> nvmet_req \<Rightarrow> u16 \<times> nvmet_req" where
  "nvmet_copy_to_sgl off data r =
     (let (n, buf) = sg_write off data (r_sg r);
          r = r\<lparr>r_sg := buf\<rparr>
      in if n \<noteq> length data then (NVME_SC_SGL_INVALID_DATA OR NVME_SC_DNR, r\<lparr>r_error_loc := OFF_DPTR\<rparr>)
         else (0, r))"

definition nvmet_copy_from_sgl :: "nat \<Rightarrow> nat \<Rightarrow> nvmet_req \<Rightarrow> u16 \<times> u8 list \<times> nvmet_req" where
  "nvmet_copy_from_sgl off len r =
     (let data = take len (drop off (r_sg r))
      in if length data \<noteq> len
         then (NVME_SC_SGL_INVALID_DATA OR NVME_SC_DNR, data, r\<lparr>r_error_loc := OFF_DPTR\<rparr>)
         else (0, data, r))"

definition nvmet_zero_sgl :: "nat \<Rightarrow> nat \<Rightarrow> nvmet_req \<Rightarrow> u16 \<times> nvmet_req" where
  "nvmet_zero_sgl off len r = nvmet_copy_to_sgl off (replicate len 0) r"

text \<open>The result field is a union: a 32-bit result leaves its upper half alone.\<close>

definition nvmet_set_result :: "u32 \<Rightarrow> nvmet_req \<Rightarrow> nvmet_req" where
  "nvmet_set_result v r = r\<lparr>r_result := (r_result r AND NOT 0xffffffff) OR ucast v\<rparr>"

text \<open>Little-endian fields, and reading them back.\<close>

fun le_bytes :: "nat \<Rightarrow> 'a::len word \<Rightarrow> u8 list" where
  "le_bytes 0 w = []"
| "le_bytes (Suc n) w = ucast w # le_bytes n (drop_bit 8 w)"

fun le_nat :: "u8 list \<Rightarrow> nat" where
  "le_nat [] = 0"
| "le_nat (b # bs) = unat b + 256 * le_nat bs"

section \<open>The controller\<close>

record nvmet_sq =
  sq_qid :: u16
  sq_size :: u16
  sq_sqhd :: u32
  sq_sqhd_disabled :: bool

record nvme_error_slot =
  es_error_count :: u64
  es_sqid :: u16
  es_cmdid :: u16
  es_status_field :: u16
  es_param_error_location :: u16
  es_lba :: u64
  es_nsid :: u32

record nvmet_async_event =
  ae_event_type :: u8
  ae_event_info :: u8
  ae_log_page :: u8

text \<open>
  \<open>n_ka_due\<close> is the time in jiffies at which the keep-alive work is due, if it is pending; the two flags
  after it say whether the event work and the fatal error work are scheduled. \<open>n_sqs\<close> maps queue numbers
  to the addresses of queues, \<open>n_cqs\<close> to the sizes of completion queues.
\<close>

record nvmet_ctrl =
  n_cntlid :: u16
  n_subsysnqn :: string
  n_hostnqn :: string
  n_hostid :: "u8 list"
  n_cap :: u64
  n_cc :: u32
  n_csts :: u32
  n_kato :: u32
  n_cmd_seen :: bool
  n_ka_due :: "nat option"
  n_async_work :: bool
  n_fatal_work :: bool
  n_aen_enabled :: u32
  n_aen_masked :: "nat set"
  n_async_event_cmds :: "nvmet_req list"
  n_async_events :: "nvmet_async_event list"
  n_changed_ns_list :: "u32 list"
  n_nr_changed_ns :: u32
  n_err_counter :: u64
  n_slots :: "nvme_error_slot list"
  n_ref :: nat
  n_sqs :: "nat \<rightharpoonup> nat"
  n_cqs :: "nat \<rightharpoonup> u16"

text \<open>What one completion tells the host.\<close>

record nvmet_cqe =
  q_command_id :: u16
  q_sq_id :: u16
  q_sq_head :: u16
  q_status :: u16
  q_result :: u64
  q_data :: "u8 list"

text \<open>
  What a queue's handlers work on. \<open>q_ctrl\<close> is the controller \<open>sq->ctrl\<close> points to, \<open>q_ns_refs\<close> the
  namespaces the requests in execution hold references to.
\<close>

record nvmet_queue =
  q_sq :: nvmet_sq
  q_ctrl :: "nvmet_ctrl option"
  q_out :: "nvmet_cqe list"
  q_ns_refs :: "nat list"

definition upd_ctrl :: "(nvmet_ctrl \<Rightarrow> nvmet_ctrl) \<Rightarrow> nvmet_queue \<Rightarrow> nvmet_queue" where
  "upd_ctrl f q = q\<lparr>q_ctrl := map_option f (q_ctrl q)\<rparr>"

section \<open>Completing a request\<close>

definition nvmet_update_sq_head :: "nvmet_sq \<Rightarrow> nvmet_sq \<times> u16" where
  "nvmet_update_sq_head sq =
     (let sq = (if sq_size sq \<noteq> 0
                then sq\<lparr>sq_sqhd := (sq_sqhd sq + 1) mod ucast (sq_size sq)\<rparr> else sq)
      in (sq, ucast (sq_sqhd sq AND 0xffff)))"

definition nvmet_set_error :: "nvmet_sq \<Rightarrow> u16 \<Rightarrow> nvmet_req \<Rightarrow> nvmet_ctrl option \<Rightarrow> nvmet_req \<times> nvmet_ctrl option" where
  "nvmet_set_error sq status r ctrl =
     (let r = r\<lparr>r_status := push_bit 1 status\<rparr>
      in case ctrl of
           None \<Rightarrow> (r, None)
         | Some c \<Rightarrow>
             if r_error_loc r = NVMET_NO_ERROR_LOC then (r, Some c)
             else
               let c = c\<lparr>n_err_counter := n_err_counter c + 1\<rparr>;
                   slot = \<lparr>es_error_count = n_err_counter c, es_sqid = sq_qid sq,
                           es_cmdid = tc_command_id (r_cmd r), es_status_field = push_bit 1 status,
                           es_param_error_location = r_error_loc r, es_lba = r_error_slba r,
                           es_nsid = tc_nsid (r_cmd r)\<rparr>;
                   c = c\<lparr>n_slots := (n_slots c)
                          [unat (n_err_counter c mod of_nat NVMET_ERROR_LOG_SLOTS) := slot]\<rparr>
               in (r\<lparr>r_status := r_status r OR push_bit 14 1\<rparr>, Some c))"

definition nvmet_req_complete :: "u16 \<Rightarrow> nvmet_req \<Rightarrow> nvmet_queue \<Rightarrow> nvmet_queue" where
  "nvmet_req_complete status r q =
     (let (sq, r) = (if \<not> sq_sqhd_disabled (q_sq q)
                     then let (sq, hd) = nvmet_update_sq_head (q_sq q) in (sq, r\<lparr>r_sq_head := hd\<rparr>)
                     else (q_sq q, r));
          (r, ctrl) = (if status \<noteq> 0 then nvmet_set_error sq status r (q_ctrl q) else (r, q_ctrl q));
          refs = (case r_ns r of None \<Rightarrow> q_ns_refs q | Some ns \<Rightarrow> remove1 ns (q_ns_refs q));
          cqe = \<lparr>q_command_id = tc_command_id (r_cmd r), q_sq_id = sq_qid sq,
                 q_sq_head = r_sq_head r, q_status = r_status r, q_result = r_result r,
                 q_data = r_sg r\<rparr>
      in q\<lparr>q_sq := sq, q_ctrl := ctrl, q_ns_refs := refs, q_out := q_out q @ [cqe]\<rparr>)"

section \<open>The keep-alive timer\<close>

text \<open>\<open>kato * HZ\<close> is computed in 32 bits.\<close>

definition ka_delay :: "nat \<Rightarrow> nvmet_ctrl \<Rightarrow> nat" where
  "ka_delay hz c = unat (n_kato c * of_nat hz)"

definition nvmet_ctrl_fatal_error :: "nvmet_ctrl \<Rightarrow> nvmet_ctrl" where
  "nvmet_ctrl_fatal_error c =
     (if n_csts c AND NVME_CSTS_CFS = 0
      then c\<lparr>n_csts := n_csts c OR NVME_CSTS_CFS, n_fatal_work := True\<rparr> else c)"

definition ka_mod_work :: "nat \<Rightarrow> nat \<Rightarrow> nvmet_ctrl \<Rightarrow> nvmet_ctrl" where
  "ka_mod_work hz now c = c\<lparr>n_ka_due := Some (now + ka_delay hz c)\<rparr>"

definition nvmet_keep_alive_timer :: "nat \<Rightarrow> nat \<Rightarrow> nvmet_ctrl \<Rightarrow> nvmet_ctrl" where
  "nvmet_keep_alive_timer hz now c =
     (let c = c\<lparr>n_ka_due := None\<rparr>;
          cmd_seen = n_cmd_seen c;
          c = c\<lparr>n_cmd_seen := False\<rparr>
      in if cmd_seen then ka_mod_work hz now c else nvmet_ctrl_fatal_error c)"

definition nvmet_start_keep_alive_timer :: "nat \<Rightarrow> nat \<Rightarrow> nvmet_ctrl \<Rightarrow> nvmet_ctrl" where
  "nvmet_start_keep_alive_timer hz now c = ka_mod_work hz now c"

definition nvmet_stop_keep_alive_timer :: "nvmet_ctrl \<Rightarrow> nvmet_ctrl" where
  "nvmet_stop_keep_alive_timer c = c\<lparr>n_ka_due := None\<rparr>"

definition nvmet_execute_keep_alive :: "nat \<Rightarrow> nat \<Rightarrow> nvmet_req \<Rightarrow> nvmet_queue \<Rightarrow> nvmet_queue" where
  "nvmet_execute_keep_alive hz now r q = nvmet_req_complete 0 r (upd_ctrl (ka_mod_work hz now) q)"

section \<open>The registers\<close>

definition nvmet_cc_en :: "u32 \<Rightarrow> bool" where
  "nvmet_cc_en cc \<longleftrightarrow> drop_bit NVME_CC_EN_SHIFT cc AND 1 \<noteq> 0"

definition nvmet_cc_css :: "u32 \<Rightarrow> u8" where "nvmet_cc_css cc = ucast (drop_bit NVME_CC_CSS_SHIFT cc AND 0x7)"
definition nvmet_cc_mps :: "u32 \<Rightarrow> u8" where "nvmet_cc_mps cc = ucast (drop_bit NVME_CC_MPS_SHIFT cc AND 0xf)"
definition nvmet_cc_ams :: "u32 \<Rightarrow> u8" where "nvmet_cc_ams cc = ucast (drop_bit NVME_CC_AMS_SHIFT cc AND 0x7)"
definition nvmet_cc_shn :: "u32 \<Rightarrow> u8" where "nvmet_cc_shn cc = ucast (drop_bit NVME_CC_SHN_SHIFT cc AND 0x3)"
definition nvmet_cc_iosqes :: "u32 \<Rightarrow> u8" where "nvmet_cc_iosqes cc = ucast (drop_bit NVME_CC_IOSQES_SHIFT cc AND 0xf)"
definition nvmet_cc_iocqes :: "u32 \<Rightarrow> u8" where "nvmet_cc_iocqes cc = ucast (drop_bit NVME_CC_IOCQES_SHIFT cc AND 0xf)"

definition nvmet_start_ctrl :: "nat \<Rightarrow> nat \<Rightarrow> nvmet_ctrl \<Rightarrow> nvmet_ctrl" where
  "nvmet_start_ctrl hz now c =
     (if nvmet_cc_iosqes (n_cc c) \<noteq> NVME_NVM_IOSQES \<or> nvmet_cc_iocqes (n_cc c) \<noteq> NVME_NVM_IOCQES \<or>
         nvmet_cc_mps (n_cc c) \<noteq> 0 \<or> nvmet_cc_ams (n_cc c) \<noteq> 0 \<or> nvmet_cc_css (n_cc c) \<noteq> 0
      then c\<lparr>n_csts := NVME_CSTS_CFS\<rparr>
      else ka_mod_work hz now (c\<lparr>n_csts := NVME_CSTS_RDY\<rparr>))"

definition nvmet_clear_ctrl :: "nvmet_ctrl \<Rightarrow> nvmet_ctrl" where
  "nvmet_clear_ctrl c = c\<lparr>n_csts := n_csts c AND NOT NVME_CSTS_RDY, n_cc := 0\<rparr>"

definition nvmet_update_cc :: "nat \<Rightarrow> nat \<Rightarrow> u32 \<Rightarrow> nvmet_ctrl \<Rightarrow> nvmet_ctrl" where
  "nvmet_update_cc hz now new c =
     (let old = n_cc c;
          c = c\<lparr>n_cc := new\<rparr>;
          c = (if nvmet_cc_en new \<and> \<not> nvmet_cc_en old then nvmet_start_ctrl hz now c else c);
          c = (if \<not> nvmet_cc_en new \<and> nvmet_cc_en old then nvmet_clear_ctrl c else c);
          c = (if nvmet_cc_shn new \<noteq> 0 \<and> nvmet_cc_shn old = 0
               then let c = nvmet_clear_ctrl c in c\<lparr>n_csts := n_csts c OR NVME_CSTS_SHST_CMPLT\<rparr> else c);
          c = (if nvmet_cc_shn new = 0 \<and> nvmet_cc_shn old \<noteq> 0
               then c\<lparr>n_csts := n_csts c AND NOT NVME_CSTS_SHST_CMPLT\<rparr> else c)
      in c)"

definition nvmet_init_cap :: "nvmet_ctrl \<Rightarrow> nvmet_ctrl" where
  "nvmet_init_cap c =
     (let c = c\<lparr>n_cap := push_bit 37 1\<rparr>;
          c = c\<lparr>n_cap := n_cap c OR push_bit 24 15\<rparr>
      in c\<lparr>n_cap := n_cap c OR of_nat (NVMET_QUEUE_SIZE - 1)\<rparr>)"

definition nvmet_check_ctrl_status :: "nvmet_ctrl \<Rightarrow> u16" where
  "nvmet_check_ctrl_status c =
     (if n_cc c AND NVME_CC_ENABLE = 0 then NVME_SC_CMD_SEQ_ERROR OR NVME_SC_DNR
      else if n_csts c AND NVME_CSTS_RDY = 0 then NVME_SC_CMD_SEQ_ERROR OR NVME_SC_DNR
      else 0)"

definition nvmet_execute_prop_set :: "nat \<Rightarrow> nat \<Rightarrow> nvmet_req \<Rightarrow> nvmet_queue \<Rightarrow> nvmet_queue" where
  "nvmet_execute_prop_set hz now r q =
     (if tc_attrib (r_cmd r) AND 1 \<noteq> 0
      then nvmet_req_complete (NVME_SC_INVALID_FIELD OR NVME_SC_DNR) (r\<lparr>r_error_loc := OFF_PROP_ATTRIB\<rparr>) q
      else if tc_offset (r_cmd r) = NVME_REG_CC
      then nvmet_req_complete 0 r (upd_ctrl (nvmet_update_cc hz now (ucast (tc_value (r_cmd r)))) q)
      else nvmet_req_complete (NVME_SC_INVALID_FIELD OR NVME_SC_DNR) (r\<lparr>r_error_loc := OFF_PROP_OFFSET\<rparr>) q)"

text \<open>The version is the subsystem's; the statuses and values of a property read.\<close>

definition prop_value :: "u64 \<Rightarrow> u8 \<Rightarrow> u32 \<Rightarrow> nvmet_ctrl \<Rightarrow> u16 \<times> u64" where
  "prop_value ver attrib off c =
     (if attrib AND 1 \<noteq> 0 then
        (if off = NVME_REG_CAP then (0, n_cap c) else (NVME_SC_INVALID_FIELD OR NVME_SC_DNR, 0))
      else if off = NVME_REG_VS then (0, ver)
      else if off = NVME_REG_CC then (0, ucast (n_cc c))
      else if off = NVME_REG_CSTS then (0, ucast (n_csts c))
      else (NVME_SC_INVALID_FIELD OR NVME_SC_DNR, 0))"

definition nvmet_execute_prop_get :: "u64 \<Rightarrow> nvmet_req \<Rightarrow> nvmet_queue \<Rightarrow> nvmet_queue" where
  "nvmet_execute_prop_get ver r q =
     (case q_ctrl q of
        None \<Rightarrow> q
      | Some c \<Rightarrow>
          let (status, val) = prop_value ver (tc_attrib (r_cmd r)) (tc_offset (r_cmd r)) c;
              r = (if status \<noteq> 0 \<and> tc_attrib (r_cmd r) AND 1 \<noteq> 0 then r\<lparr>r_error_loc := OFF_PROP_OFFSET\<rparr>
                   else r\<lparr>r_error_loc := OFF_PROP_ATTRIB\<rparr>);
              r = r\<lparr>r_result := val\<rparr>
          in nvmet_req_complete status r q)"

section \<open>The registers follow the specification\<close>

definition ctrl_ready :: "nvmet_ctrl \<Rightarrow> bool" where "ctrl_ready c \<longleftrightarrow> bit (n_csts c) 0"
definition ctrl_failed :: "nvmet_ctrl \<Rightarrow> bool" where "ctrl_failed c \<longleftrightarrow> bit (n_csts c) 1"

lemma and_bit0: "(w AND 1 = 0) = (\<not> bit (w :: 'a::len word) 0)"
  using bit_iff_and_push_bit_not_eq_0 [of w 0] by simp

lemma and_bit1: "(w AND 2 = 0) = (\<not> bit (w :: 'a::len word) 1)"
  using bit_iff_and_push_bit_not_eq_0 [of w 1] by simp

lemma check_ctrl_status_iff:
  "nvmet_check_ctrl_status c = 0 \<longleftrightarrow> nvmet_cc_en (n_cc c) \<and> ctrl_ready c"
  by (simp add: nvmet_check_ctrl_status_def nvmet_cc_en_def ctrl_ready_def and_bit0)

lemma fatal_regs:
  "n_cc (nvmet_ctrl_fatal_error c) = n_cc c"
  "ctrl_ready (nvmet_ctrl_fatal_error c) = ctrl_ready c"
  "ctrl_failed (nvmet_ctrl_fatal_error c)"
  by (auto simp: nvmet_ctrl_fatal_error_def ctrl_ready_def ctrl_failed_def and_bit1 bit_or_iff)

lemma csts_bits:
  "\<not> bit (w AND - 2 :: u32) 0" "bit (w AND - 2 :: u32) (Suc 0) = bit w (Suc 0)"
  "bit (w AND - 2 :: u32) 3 = bit w 3"
  "bit (w OR 8 :: u32) 0 = bit w 0" "bit (w OR 8 :: u32) (Suc 0) = bit w (Suc 0)" "bit (w OR 8 :: u32) 3"
  "bit (w OR 2 :: u32) 0 = bit w 0" "bit (w OR 2 :: u32) (Suc 0)" "bit (w OR 2 :: u32) 3 = bit w 3"
  by (simp_all add: bit_simps)

text \<open>The registers as the specification has them, and what may happen to them.\<close>

record spec_regs =
  sr_enabled :: bool
  sr_ready :: bool
  sr_fatal :: bool
  sr_shutdown :: bool

datatype reg_event =
    Rg_write nat u32   \<comment> \<open>a write of CC, at a time in jiffies\<close>
  | Rg_fatal
  | Rg_command         \<comment> \<open>a command that needs a ready controller\<close>

definition cc_acceptable :: "u32 \<Rightarrow> bool" where
  "cc_acceptable cc \<longleftrightarrow> nvmet_cc_iosqes cc = NVME_NVM_IOSQES \<and> nvmet_cc_iocqes cc = NVME_NVM_IOCQES \<and>
     nvmet_cc_mps cc = 0 \<and> nvmet_cc_ams cc = 0 \<and> nvmet_cc_css cc = 0"

fun spec_regs_step :: "reg_event \<Rightarrow> spec_regs \<Rightarrow> spec_regs \<times> bool option" where
  "spec_regs_step (Rg_write now v) s =
     (let s = (if nvmet_cc_en v \<and> \<not> sr_enabled s
               then \<lparr>sr_enabled = True, sr_ready = cc_acceptable v, sr_fatal = \<not> cc_acceptable v, sr_shutdown = False\<rparr>
               else if \<not> nvmet_cc_en v \<and> sr_enabled s then s\<lparr>sr_enabled := False, sr_ready := False\<rparr>
               else s)
      in (if nvmet_cc_shn v \<noteq> 0 then s\<lparr>sr_enabled := False, sr_ready := False, sr_shutdown := True\<rparr> else s, None))"
| "spec_regs_step Rg_fatal s = (s\<lparr>sr_fatal := True\<rparr>, None)"
| "spec_regs_step Rg_command s = (s, Some (sr_ready s))"

fun regs_step :: "nat \<Rightarrow> reg_event \<Rightarrow> nvmet_ctrl \<Rightarrow> nvmet_ctrl \<times> u16 option" where
  "regs_step hz (Rg_write now v) c = (nvmet_update_cc hz now v c, None)"
| "regs_step hz Rg_fatal c = (nvmet_ctrl_fatal_error c, None)"
| "regs_step hz Rg_command c = (c, Some (nvmet_check_ctrl_status c))"

definition regs_rel :: "nvmet_ctrl \<Rightarrow> spec_regs \<Rightarrow> bool" where
  "regs_rel c s \<longleftrightarrow> nvmet_cc_shn (n_cc c) = 0 \<and> sr_enabled s = nvmet_cc_en (n_cc c) \<and>
     sr_ready s = bit (n_csts c) 0 \<and> sr_fatal s = bit (n_csts c) 1 \<and> sr_shutdown s = bit (n_csts c) 3 \<and>
     (sr_ready s \<longrightarrow> sr_enabled s) \<and> (sr_enabled s \<longrightarrow> sr_ready s \<or> sr_fatal s)"

lemma ka_mod_regs [simp]:
  "n_csts (ka_mod_work hz now c) = n_csts c" "n_cc (ka_mod_work hz now c) = n_cc c"
  by (simp_all add: ka_mod_work_def)

lemma cc_zero [simp]: "nvmet_cc_en 0 = False" "nvmet_cc_shn 0 = 0"
  by (simp_all add: nvmet_cc_en_def nvmet_cc_shn_def)

lemma start_regs:
  "n_csts (nvmet_start_ctrl hz now c) = (if cc_acceptable (n_cc c) then 1 else 2)"
  "n_cc (nvmet_start_ctrl hz now c) = n_cc c"
  by (auto simp: nvmet_start_ctrl_def cc_acceptable_def)

lemma clear_regs:
  "n_csts (nvmet_clear_ctrl c) = n_csts c AND NOT 1" "n_cc (nvmet_clear_ctrl c) = 0"
  by (simp_all add: nvmet_clear_ctrl_def)

lemma csts_start_bits:
  "bit (1 :: u32) 0" "\<not> bit (1 :: u32) 1" "\<not> bit (1 :: u32) 3"
  "\<not> bit (2 :: u32) 0" "bit (2 :: u32) 1" "\<not> bit (2 :: u32) 3"
  by simp_all

lemma update_cc_rel:
  assumes r: "regs_rel c s"
  shows "regs_rel (nvmet_update_cc hz now v c) (fst (spec_regs_step (Rg_write now v) s))"
proof -
  have shn: "nvmet_cc_shn (n_cc c) = 0" and en: "sr_enabled s = nvmet_cc_en (n_cc c)"
    using r by (simp_all add: regs_rel_def)
  show ?thesis
    using r shn en
    by (cases "nvmet_cc_en v"; cases "nvmet_cc_en (n_cc c)"; cases "nvmet_cc_shn v = 0")
      (simp_all add: nvmet_update_cc_def Let_def regs_rel_def start_regs clear_regs csts_bits
        csts_start_bits)
qed

interpretation regs: simulation "regs_step hz" spec_regs_step regs_rel "\<lambda>s e. True"
    "\<lambda>status. status = 0" "\<lambda>ready. ready"
proof (unfold_locales, goal_cases)
  case (1 c s e)
  then show ?case
  proof (cases e)
    case (Rg_write now v)
    with 1 show ?thesis using update_cc_rel [of c s hz now v] by simp
  next
    case Rg_fatal
    with 1 show ?thesis
      by (auto simp: regs_rel_def nvmet_ctrl_fatal_error_def and_bit1 csts_bits)
  next
    case Rg_command
    with 1 show ?thesis by simp
  qed
next
  case (2 c s e)
  then show ?case
    by (cases e) (auto simp: check_ctrl_status_iff ctrl_ready_def regs_rel_def Let_def)
qed

text \<open>C23. The target's controller accepts a command exactly when the specification says it is ready. Over any
  sequence of writes to the configuration register, fatal errors and commands, starting from a new
  controller, the answers are those of the abstract register machine: enabling with supported values makes
  it ready and with others failed, disabling or shutting down ends that, a fatal error does not.
\<close>

theorem target_accepts_when_ready:
  "map (\<lambda>status. status = 0) (snd (run_steps (regs_step hz) es (c\<lparr>n_cc := 0, n_csts := 0\<rparr>))) =
   snd (run_steps spec_regs_step es
     \<lparr>sr_enabled = False, sr_ready = False, sr_fatal = False, sr_shutdown = False\<rparr>)"
proof -
  have "regs_rel (c\<lparr>n_cc := 0, n_csts := 0\<rparr>)
      \<lparr>sr_enabled = False, sr_ready = False, sr_fatal = False, sr_shutdown = False\<rparr>"
    by (simp add: regs_rel_def)
  moreover have "run_guarded spec_regs_step (\<lambda>s e. True) es s" for s
    by (induction es arbitrary: s) simp_all
  ultimately show ?thesis
    using regs.run_simulates by fastforce
qed

section \<open>The keep-alive timer\<close>

text \<open>
  What happens to a connected controller: commands, of which some are keep-alive commands, and the
  timer. A legal run has ordered times, and the timer runs at or after the time it is due, by at most
  \<open>lag\<close> jiffies; \<open>T\<close> is the time at which we look.
\<close>

datatype ka_event = Ka_command | Ka_keep_alive | Ka_fire

fun ka_step :: "nat \<Rightarrow> nat \<times> ka_event \<Rightarrow> nvmet_ctrl \<Rightarrow> nvmet_ctrl" where
  "ka_step hz (t, Ka_command) c = c\<lparr>n_cmd_seen := True\<rparr>"
| "ka_step hz (t, Ka_keep_alive) c = ka_mod_work hz t (c\<lparr>n_cmd_seen := True\<rparr>)"
| "ka_step hz (t, Ka_fire) c = nvmet_keep_alive_timer hz t c"

definition ka_in_time :: "nat \<Rightarrow> nat \<Rightarrow> nvmet_ctrl \<Rightarrow> bool" where
  "ka_in_time lag t c = (case n_ka_due c of None \<Rightarrow> True | Some d \<Rightarrow> t \<le> d + lag)"

definition ka_may_fire :: "nat \<Rightarrow> nvmet_ctrl \<Rightarrow> bool" where
  "ka_may_fire t c = (case n_ka_due c of None \<Rightarrow> False | Some d \<Rightarrow> d \<le> t)"

fun ka_legal :: "nat \<Rightarrow> nat \<Rightarrow> nat \<Rightarrow> (nat \<times> ka_event) list \<Rightarrow> nat \<Rightarrow> nvmet_ctrl \<Rightarrow> bool" where
  "ka_legal hz lag now [] T c \<longleftrightarrow> now \<le> T \<and> ka_in_time lag T c"
| "ka_legal hz lag now (e # es) T c \<longleftrightarrow>
     now \<le> fst e \<and> ka_in_time lag (fst e) c \<and> (snd e \<noteq> Ka_fire \<or> ka_may_fire (fst e) c) \<and>
     ka_legal hz lag (fst e) es T (ka_step hz e c)"

abbreviation ka_run :: "nat \<Rightarrow> (nat \<times> ka_event) list \<Rightarrow> nvmet_ctrl \<Rightarrow> nvmet_ctrl" where
  "ka_run hz es c \<equiv> fold (ka_step hz) es c"

lemma ka_step_delay [simp]: "ka_delay hz (ka_step hz' e c) = ka_delay hz c"
  by (cases e; cases "snd e")
    (auto simp: ka_delay_def ka_mod_work_def nvmet_keep_alive_timer_def nvmet_ctrl_fatal_error_def Let_def)

lemma ka_step_failed_mono: "ctrl_failed c \<Longrightarrow> ctrl_failed (ka_step hz e c)"
  by (cases e; cases "snd e")
    (auto simp: ctrl_failed_def ka_mod_work_def nvmet_keep_alive_timer_def nvmet_ctrl_fatal_error_def
      Let_def csts_bits)

lemma ka_run_failed_mono: "ctrl_failed c \<Longrightarrow> ctrl_failed (ka_run hz es c)"
  by (induction es arbitrary: c) (auto intro: ka_step_failed_mono)

lemma ka_step_fields:
  "ctrl_failed (ka_step hz (t, Ka_command) c) = ctrl_failed c"
  "n_ka_due (ka_step hz (t, Ka_command) c) = n_ka_due c"
  "n_cmd_seen (ka_step hz (t, Ka_command) c)"
  "ctrl_failed (ka_step hz (t, Ka_keep_alive) c) = ctrl_failed c"
  "n_ka_due (ka_step hz (t, Ka_keep_alive) c) = Some (t + ka_delay hz c)"
  "n_cmd_seen (ka_step hz (t, Ka_keep_alive) c)"
  by (simp_all add: ctrl_failed_def ka_mod_work_def ka_delay_def)

lemma ka_fire_fields:
  "ctrl_failed (ka_step hz (t, Ka_fire) c) \<longleftrightarrow> ctrl_failed c \<or> \<not> n_cmd_seen c"
  "n_cmd_seen c \<Longrightarrow> n_ka_due (ka_step hz (t, Ka_fire) c) = Some (t + ka_delay hz c)"
  "\<not> n_cmd_seen (ka_step hz (t, Ka_fire) c)"
  by (auto simp: ctrl_failed_def ka_mod_work_def ka_delay_def nvmet_keep_alive_timer_def Let_def
      nvmet_ctrl_fatal_error_def and_bit1 csts_bits)

declare ka_step.simps [simp del]

lemma ka_silence_before_failure:
  assumes "ka_legal hz lag now es T c" and "\<not> ctrl_failed c" and "ctrl_failed (ka_run hz es c)"
    and "b \<le> now" and "n_cmd_seen c \<or> (\<exists>d. n_ka_due c = Some d \<and> b + ka_delay hz c \<le> d)"
  shows "\<exists>pre t post. es = pre @ (t, Ka_fire) # post \<and> b + ka_delay hz c \<le> t \<and>
    (\<forall>(u, e) \<in> set pre. e \<noteq> Ka_fire \<longrightarrow> u + ka_delay hz c \<le> t)"
  using assms
proof (induction es arbitrary: c b now)
  case Nil
  then show ?case by simp
next
  case (Cons e es)
  obtain t k where e: "e = (t, k)" by fastforce
  have leg: "ka_legal hz lag t es T (ka_step hz e c)" and bt: "b \<le> t"
    using Cons.prems e by auto
  show ?case
  proof (cases "k = Ka_fire \<and> \<not> n_cmd_seen c")
    case True
    with Cons.prems e have "b + ka_delay hz c \<le> t"
      by (auto simp: ka_may_fire_def)
    with True e show ?thesis by (intro exI [of _ "[]"]) auto
  next
    case False
    then have nf: "\<not> ctrl_failed (ka_step hz e c)"
      using Cons.prems(2) e by (cases k) (simp_all add: ka_step_fields ka_fire_fields)
    have next_ok: "n_cmd_seen (ka_step hz e c) \<or>
        (\<exists>d. n_ka_due (ka_step hz e c) = Some d \<and> t + ka_delay hz (ka_step hz e c) \<le> d)"
      using False e by (cases k) (simp_all add: ka_step_fields ka_fire_fields)
    have fl: "ctrl_failed (ka_run hz es (ka_step hz e c))" using Cons.prems(3) by simp
    obtain pre t' post where *: "es = pre @ (t', Ka_fire) # post" "t + ka_delay hz c \<le> t'"
        "\<forall>(u, e) \<in> set pre. e \<noteq> Ka_fire \<longrightarrow> u + ka_delay hz c \<le> t'"
      using Cons.IH [OF leg nf fl order_refl next_ok] by auto
    with e bt show ?thesis
      by (intro exI [of _ "e # pre"] exI [of _ t'] exI [of _ post]) auto
  qed
qed

lemma ka_failure_after_silence:
  assumes "ka_legal hz lag now es T c" and "b \<le> now"
    and "ctrl_failed c \<or> (\<exists>d. n_ka_due c = Some d \<and> d \<le> now + ka_delay hz c \<and>
        (if n_cmd_seen c then d \<le> b + ka_delay hz c else d \<le> b + 2 * ka_delay hz c + lag))"
    and "\<forall>(u, e) \<in> set es. e \<noteq> Ka_fire \<longrightarrow> u \<le> a" and "b \<le> a" and "a + 2 * (ka_delay hz c + lag) < T"
  shows "ctrl_failed (ka_run hz es c)"
  using assms
proof (induction es arbitrary: c b now)
  case Nil
  then show ?case by (auto simp: ka_in_time_def split: if_splits)
next
  case (Cons e es)
  obtain t k where e: "e = (t, k)" by fastforce
  show ?case
  proof (cases "ctrl_failed c")
    case True
    then show ?thesis using ka_run_failed_mono [of c hz "e # es"] by blast
  next
    case False
    then obtain d where d: "n_ka_due c = Some d" "d \<le> now + ka_delay hz c"
        "if n_cmd_seen c then d \<le> b + ka_delay hz c else d \<le> b + 2 * ka_delay hz c + lag"
      using Cons.prems(3) by auto
    define b' where "b' = (if k = Ka_fire then b else t)"
    have leg: "ka_legal hz lag t es T (ka_step hz e c)" and now: "now \<le> t"
      and dl: "t \<le> d + lag" and fire: "k = Ka_fire \<Longrightarrow> d \<le> t"
      using Cons.prems(1) e d(1) by (auto simp: ka_in_time_def ka_may_fire_def)
    have "ctrl_failed (ka_step hz e c) \<or> (\<exists>d. n_ka_due (ka_step hz e c) = Some d \<and>
        d \<le> t + ka_delay hz (ka_step hz e c) \<and>
        (if n_cmd_seen (ka_step hz e c) then d \<le> b' + ka_delay hz (ka_step hz e c)
         else d \<le> b' + 2 * ka_delay hz (ka_step hz e c) + lag))"
      using d now dl fire e
      by (cases k; cases "n_cmd_seen c") (auto simp: ka_step_fields ka_fire_fields b'_def)
    moreover have "b' \<le> t" "b' \<le> a"
      using Cons.prems now e by (auto simp: b'_def)
    ultimately show ?thesis
      using Cons.IH [OF leg, of b'] Cons.prems(4,6) by simp
  qed
qed

text \<open>C28. The keep-alive timer never gives up on a host that is alive: when it has declared the controller failed,
  the timer ran at a time before which no command had arrived for a whole keep-alive period, the period
  since the timer was started included.
\<close>

theorem keep_alive_spares_live_host:
  assumes "ka_legal hz lag t0 es T (nvmet_start_keep_alive_timer hz t0 c)"
    and "\<not> ctrl_failed c" and "ctrl_failed (ka_run hz es (nvmet_start_keep_alive_timer hz t0 c))"
  shows "\<exists>pre t post. es = pre @ (t, Ka_fire) # post \<and> t0 + ka_delay hz c \<le> t \<and>
    (\<forall>(u, e) \<in> set pre. e \<noteq> Ka_fire \<longrightarrow> u + ka_delay hz c \<le> t)"
proof -
  let ?c = "nvmet_start_keep_alive_timer hz t0 c"
  have s: "ka_delay hz ?c = ka_delay hz c" "n_ka_due ?c = Some (t0 + ka_delay hz c)"
      "ctrl_failed ?c = ctrl_failed c"
    by (simp_all add: nvmet_start_keep_alive_timer_def ka_mod_work_def ka_delay_def ctrl_failed_def)
  show ?thesis
    using ka_silence_before_failure [OF assms(1) _ assms(3) order_refl] assms(2) s by auto
qed

text \<open>And it always notices a host that has gone: if the last command arrived by time \<open>a\<close> and the timer runs at
  most \<open>lag\<close> late, the controller has failed two keep-alive periods and two lags after \<open>a\<close>. A host that
  says nothing is detected although the timer only samples whether commands came.
\<close>

theorem keep_alive_detects_silence:
  assumes "ka_legal hz lag t0 es T (nvmet_start_keep_alive_timer hz t0 c)"
    and "\<forall>(u, e) \<in> set es. e \<noteq> Ka_fire \<longrightarrow> u \<le> a" and "t0 \<le> a"
    and "a + 2 * (ka_delay hz c + lag) < T" and "\<not> n_cmd_seen c"
  shows "ctrl_failed (ka_run hz es (nvmet_start_keep_alive_timer hz t0 c))"
proof -
  let ?c = "nvmet_start_keep_alive_timer hz t0 c"
  have s: "ka_delay hz ?c = ka_delay hz c" "n_ka_due ?c = Some (t0 + ka_delay hz c)"
      "n_cmd_seen ?c = n_cmd_seen c"
    by (simp_all add: nvmet_start_keep_alive_timer_def ka_mod_work_def ka_delay_def)
  show ?thesis
    using ka_failure_after_silence [OF assms(1) order_refl _ assms(2,3)] assms(4,5) s by auto
qed

text \<open>A controller as \<open>kzalloc\<close> leaves it, with a keep-alive timeout.\<close>

definition blank_ctrl :: "u32 \<Rightarrow> nvmet_ctrl" where
  "blank_ctrl kato =
     \<lparr>n_cntlid = 1, n_subsysnqn = [], n_hostnqn = [], n_hostid = [], n_cap = 0, n_cc = 0, n_csts = 0,
      n_kato = kato, n_cmd_seen = False, n_ka_due = None, n_async_work = False, n_fatal_work = False,
      n_aen_enabled = 0, n_aen_masked = {}, n_async_event_cmds = [], n_async_events = [],
      n_changed_ns_list = replicate NVME_MAX_CHANGED_NAMESPACES 0, n_nr_changed_ns = 0,
      n_err_counter = 0,
      n_slots = replicate NVMET_ERROR_LOG_SLOTS
        \<lparr>es_error_count = 0, es_sqid = 0, es_cmdid = 0, es_status_field = 0,
         es_param_error_location = 0, es_lba = 0, es_nsid = 0\<rparr>,
      n_ref = 1, n_sqs = Map.empty, n_cqs = Map.empty\<rparr>"

lemma blank_ctrl_simps [simp]:
  "n_kato (blank_ctrl k) = k" "n_cmd_seen (blank_ctrl k) = False" "n_ka_due (blank_ctrl k) = None"
  "n_csts (blank_ctrl k) = 0" "n_cc (blank_ctrl k) = 0" "n_err_counter (blank_ctrl k) = 0"
  "n_slots (blank_ctrl k) = replicate NVMET_ERROR_LOG_SLOTS
     \<lparr>es_error_count = 0, es_sqid = 0, es_cmdid = 0, es_status_field = 0,
      es_param_error_location = 0, es_lba = 0, es_nsid = 0\<rparr>"
  "n_async_events (blank_ctrl k) = []" "n_async_event_cmds (blank_ctrl k) = []"
  "n_aen_enabled (blank_ctrl k) = 0" "n_aen_masked (blank_ctrl k) = {}" "n_nr_changed_ns (blank_ctrl k) = 0"
  "n_changed_ns_list (blank_ctrl k) = replicate NVME_MAX_CHANGED_NAMESPACES 0"
  by (simp_all add: blank_ctrl_def)

definition ka_example :: "(nat \<times> ka_event) list" where
  "ka_example = [(100, Ka_command), (2500, Ka_fire), (5000, Ka_fire)]"

lemma ka_example_run:
  "ka_legal 250 10 0 ka_example 6000 (nvmet_start_keep_alive_timer 250 0 (blank_ctrl 10))"
  "ctrl_failed (ka_run 250 ka_example (nvmet_start_keep_alive_timer 250 0 (blank_ctrl 10)))"
  by (simp_all add: ka_example_def ka_step.simps ka_mod_work_def nvmet_start_keep_alive_timer_def
      ka_delay_def nvmet_keep_alive_timer_def nvmet_ctrl_fatal_error_def ctrl_failed_def
      ka_in_time_def ka_may_fire_def Let_def)

theorem keep_alive_spares_live_host_witness:
  "\<exists>pre t post. ka_example = pre @ (t, Ka_fire) # post \<and> 0 + ka_delay 250 (blank_ctrl 10) \<le> t"
  using keep_alive_spares_live_host [OF ka_example_run(1) _ ka_example_run(2)]
  by (auto simp: ctrl_failed_def)

theorem keep_alive_detects_silence_witness:
  "ctrl_failed (ka_run 250 ka_example (nvmet_start_keep_alive_timer 250 0 (blank_ctrl 10)))"
  by (rule keep_alive_detects_silence [OF ka_example_run(1), of 100])
    (auto simp: ka_example_def ka_delay_def)

end
