(* ===== verification/Target_Log.thy ===== *)
theory Target_Log
  imports Target_Ctrl "HOL-Library.Multiset"
begin

text \<open>
  What a target controller tells its host unasked: the error log, the log of changed namespaces and the
  asynchronous events that announce it (\<open>target/core.c\<close>, \<open>target/admin-cmd.c\<close>, \<open>target/nvmet.h\<close>).
\<close>

section \<open>Reading log pages\<close>

text \<open>The fields of a get log page command, and its length in bytes, computed in 32 bits.\<close>

definition log_lid :: "nvme_cmd \<Rightarrow> u8" where "log_lid cmd = ucast (tc_cdw10 cmd)"
definition log_lsp :: "nvme_cmd \<Rightarrow> u8" where "log_lsp cmd = ucast (drop_bit 8 (tc_cdw10 cmd))"
definition log_numdl :: "nvme_cmd \<Rightarrow> u16" where "log_numdl cmd = ucast (drop_bit 16 (tc_cdw10 cmd))"
definition log_numdu :: "nvme_cmd \<Rightarrow> u16" where "log_numdu cmd = ucast (tc_cdw11 cmd)"

definition nvmet_get_log_page_len :: "nvme_cmd \<Rightarrow> u32" where
  "nvmet_get_log_page_len cmd =
     (let len = ucast (log_numdu cmd);
          len = push_bit 16 len;
          len = len + ucast (log_numdl cmd);
          len = len + 1
      in len * 4)"

definition nvmet_get_log_page_offset :: "nvme_cmd \<Rightarrow> u64" where
  "nvmet_get_log_page_offset cmd = tc_lpo cmd"

definition nvmet_execute_get_log_page_noop :: "nvmet_req \<Rightarrow> nvmet_queue \<Rightarrow> nvmet_queue" where
  "nvmet_execute_get_log_page_noop r q =
     (let (status, r) = nvmet_zero_sgl 0 (unat (r_data_len r)) r in nvmet_req_complete status r q)"

text \<open>A slot of the error log as \<open>struct nvme_error_slot\<close> lays it out; what the target does not set is zero.\<close>

definition slot_bytes :: "nvme_error_slot \<Rightarrow> u8 list" where
  "slot_bytes s =
     le_bytes 8 (es_error_count s) @ le_bytes 2 (es_sqid s) @ le_bytes 2 (es_cmdid s) @
     le_bytes 2 (es_status_field s) @ le_bytes 2 (es_param_error_location s) @ le_bytes 8 (es_lba s) @
     le_bytes 4 (es_nsid s) @ replicate 36 0"

fun error_log_loop :: "nat \<Rightarrow> nat \<Rightarrow> nat \<Rightarrow> nvme_error_slot list \<Rightarrow> nvmet_req \<Rightarrow> nvmet_req" where
  "error_log_loop 0 slot off slots r = r"
| "error_log_loop (Suc i) slot off slots r =
     (let (status, r) = nvmet_copy_to_sgl off (slot_bytes (slots ! slot)) r
      in if status \<noteq> 0 then r
         else error_log_loop i (if slot = 0 then NVMET_ERROR_LOG_SLOTS - 1 else slot - 1) (off + 64) slots r)"

definition nvmet_execute_get_log_page_error :: "nvmet_req \<Rightarrow> nvmet_queue \<Rightarrow> nvmet_queue" where
  "nvmet_execute_get_log_page_error r q =
     (case q_ctrl q of
        None \<Rightarrow> q
      | Some c \<Rightarrow>
          let slot = unat (n_err_counter c mod of_nat NVMET_ERROR_LOG_SLOTS);
              r = error_log_loop NVMET_ERROR_LOG_SLOTS slot 0 (n_slots c) r
          in nvmet_req_complete 0 r q)"

section \<open>Asynchronous events\<close>

definition nvmet_clear_aen_bit :: "nvmet_req \<Rightarrow> nat \<Rightarrow> nvmet_ctrl \<Rightarrow> nvmet_ctrl" where
  "nvmet_clear_aen_bit r bn c =
     (let rae = tc_cdw10 (r_cmd r) AND push_bit 15 1 \<noteq> 0
      in if \<not> rae then c\<lparr>n_aen_masked := n_aen_masked c - {bn}\<rparr> else c)"

definition nvmet_aen_bit_disabled :: "nat \<Rightarrow> nvmet_ctrl \<Rightarrow> bool \<times> nvmet_ctrl" where
  "nvmet_aen_bit_disabled bn c =
     (if n_aen_enabled c AND push_bit bn 1 = 0 then (True, c)
      else (bn \<in> n_aen_masked c, c\<lparr>n_aen_masked := insert bn (n_aen_masked c)\<rparr>))"

definition nvmet_async_event_result :: "nvmet_async_event \<Rightarrow> u32" where
  "nvmet_async_event_result aen =
     ucast (ae_event_type aen) OR push_bit 8 (ucast (ae_event_info aen)) OR push_bit 16 (ucast (ae_log_page aen))"

text \<open>\<open>alloc\<close> is whether the allocation of the event succeeds.\<close>

definition nvmet_add_async_event :: "bool \<Rightarrow> u8 \<Rightarrow> u8 \<Rightarrow> u8 \<Rightarrow> nvmet_ctrl \<Rightarrow> nvmet_ctrl" where
  "nvmet_add_async_event alloc event_type event_info log_page c =
     (if \<not> alloc then c
      else c\<lparr>n_async_events := n_async_events c @
                [\<lparr>ae_event_type = event_type, ae_event_info = event_info, ae_log_page = log_page\<rparr>],
             n_async_work := True\<rparr>)"

text \<open>The event work: the oldest event goes to the newest waiting command.\<close>

fun async_work_loop :: "nvmet_async_event list \<Rightarrow> nvmet_queue \<Rightarrow> nvmet_queue" where
  "async_work_loop [] q = q"
| "async_work_loop (aen # aens) q =
     (case q_ctrl q of
        None \<Rightarrow> q
      | Some c \<Rightarrow>
          if n_async_event_cmds c = [] then q
          else
            let r = nvmet_set_result (nvmet_async_event_result aen) (last (n_async_event_cmds c));
                q = upd_ctrl (\<lambda>c. c\<lparr>n_async_event_cmds := butlast (n_async_event_cmds c), n_async_events := aens\<rparr>) q
            in async_work_loop aens (nvmet_req_complete 0 r q))"

definition nvmet_async_event_work :: "nvmet_queue \<Rightarrow> nvmet_queue" where
  "nvmet_async_event_work q =
     (case q_ctrl q of
        None \<Rightarrow> q
      | Some c \<Rightarrow> async_work_loop (n_async_events c) (upd_ctrl (\<lambda>c. c\<lparr>n_async_work := False\<rparr>) q))"

fun async_free_loop :: "nat \<Rightarrow> nvmet_queue \<Rightarrow> nvmet_queue" where
  "async_free_loop 0 q = q"
| "async_free_loop (Suc n) q =
     (case q_ctrl q of
        None \<Rightarrow> q
      | Some c \<Rightarrow>
          if n_async_event_cmds c = [] then q
          else
            let r = last (n_async_event_cmds c);
                q = upd_ctrl (\<lambda>c. c\<lparr>n_async_event_cmds := butlast (n_async_event_cmds c)\<rparr>) q
            in async_free_loop n (nvmet_req_complete (NVME_SC_INTERNAL OR NVME_SC_DNR) r q))"

definition nvmet_async_events_free :: "nvmet_queue \<Rightarrow> nvmet_queue" where
  "nvmet_async_events_free q =
     (case q_ctrl q of None \<Rightarrow> q | Some c \<Rightarrow> async_free_loop (length (n_async_event_cmds c)) q)"

definition nvmet_execute_async_event :: "nvmet_req \<Rightarrow> nvmet_queue \<Rightarrow> nvmet_queue" where
  "nvmet_execute_async_event r q =
     (case q_ctrl q of
        None \<Rightarrow> q
      | Some c \<Rightarrow>
          if NVMET_ASYNC_EVENTS \<le> length (n_async_event_cmds c)
          then nvmet_req_complete (NVME_SC_ASYNC_LIMIT OR NVME_SC_DNR) r q
          else upd_ctrl (\<lambda>c. c\<lparr>n_async_event_cmds := n_async_event_cmds c @ [r], n_async_work := True\<rparr>) q)"

section \<open>Changed namespaces\<close>

abbreviation (input) U32_MAX :: u32 where "U32_MAX \<equiv> 0xffffffff"

definition nvmet_add_to_changed_ns_log :: "u32 \<Rightarrow> nvmet_ctrl \<Rightarrow> nvmet_ctrl" where
  "nvmet_add_to_changed_ns_log nsid c =
     (if of_nat NVME_MAX_CHANGED_NAMESPACES < n_nr_changed_ns c then c
      else if nsid \<in> set (take (unat (n_nr_changed_ns c)) (n_changed_ns_list c)) then c
      else if n_nr_changed_ns c = of_nat NVME_MAX_CHANGED_NAMESPACES
      then c\<lparr>n_changed_ns_list := (n_changed_ns_list c)[0 := 0xffffffff], n_nr_changed_ns := U32_MAX\<rparr>
      else c\<lparr>n_changed_ns_list := (n_changed_ns_list c)[unat (n_nr_changed_ns c) := nsid],
             n_nr_changed_ns := n_nr_changed_ns c + 1\<rparr>)"

text \<open>What \<open>nvmet_ns_changed\<close> and \<open>nvmet_send_ana_event\<close> do for each controller of the subsystem.\<close>

definition ns_changed_ctrl :: "bool \<Rightarrow> u32 \<Rightarrow> nvmet_ctrl \<Rightarrow> nvmet_ctrl" where
  "ns_changed_ctrl alloc nsid c =
     (let c = nvmet_add_to_changed_ns_log nsid c;
          (disabled, c) = nvmet_aen_bit_disabled NVME_AEN_BIT_NS_ATTR c
      in if disabled then c
         else nvmet_add_async_event alloc (ucast NVME_AER_NOTICE) (ucast NVME_AER_NOTICE_NS_CHANGED)
                NVME_LOG_CHANGED_NS c)"

definition ana_event_ctrl :: "bool \<Rightarrow> nvmet_ctrl \<Rightarrow> nvmet_ctrl" where
  "ana_event_ctrl alloc c =
     (let (disabled, c) = nvmet_aen_bit_disabled NVME_AEN_BIT_ANA_CHANGE c
      in if disabled then c
         else nvmet_add_async_event alloc (ucast NVME_AER_NOTICE) (ucast NVME_AER_NOTICE_ANA) NVME_LOG_ANA c)"

definition nvmet_execute_get_log_changed_ns :: "nvmet_req \<Rightarrow> nvmet_queue \<Rightarrow> nvmet_queue" where
  "nvmet_execute_get_log_changed_ns r q =
     (case q_ctrl q of
        None \<Rightarrow> q
      | Some c \<Rightarrow>
          if r_data_len r \<noteq> of_nat (NVME_MAX_CHANGED_NAMESPACES * 4) then nvmet_req_complete NVME_SC_INTERNAL r q
          else
            let n = (if n_nr_changed_ns c = U32_MAX then 1 else unat (n_nr_changed_ns c));
                data = concat (map (le_bytes 4) (take n (n_changed_ns_list c)));
                (status, r) = nvmet_copy_to_sgl 0 data r;
                (status, r) = (if status = 0 then nvmet_zero_sgl (4 * n) (unat (r_data_len r) - 4 * n) r
                               else (status, r));
                q = upd_ctrl (\<lambda>c. nvmet_clear_aen_bit r NVME_AEN_BIT_NS_ATTR (c\<lparr>n_nr_changed_ns := 0\<rparr>)) q
            in nvmet_req_complete status r q)"

section \<open>Event features\<close>

definition nvmet_set_feat_kato :: "nvmet_req \<Rightarrow> nvmet_ctrl \<Rightarrow> u16 \<times> nvmet_req \<times> nvmet_ctrl" where
  "nvmet_set_feat_kato r c =
     (let val32 = tc_cdw11 (r_cmd r);
          c = c\<lparr>n_kato := (val32 + 999) div 1000\<rparr>
      in (0, nvmet_set_result (n_kato c) r, c))"

definition nvmet_set_feat_async_event :: "u32 \<Rightarrow> nvmet_req \<Rightarrow> nvmet_ctrl \<Rightarrow> u16 \<times> nvmet_req \<times> nvmet_ctrl" where
  "nvmet_set_feat_async_event allowed r c =
     (let val32 = tc_cdw11 (r_cmd r)
      in if val32 AND NOT allowed \<noteq> 0 then (NVME_SC_INVALID_FIELD OR NVME_SC_DNR, r\<lparr>r_error_loc := OFF_CDW11\<rparr>, c)
         else (0, nvmet_set_result val32 r, c\<lparr>n_aen_enabled := val32\<rparr>))"

definition nvmet_get_feat_kato :: "nvmet_req \<Rightarrow> nvmet_ctrl \<Rightarrow> nvmet_req" where
  "nvmet_get_feat_kato r c = nvmet_set_result (n_kato c * 1000) r"

definition nvmet_get_feat_async_event :: "nvmet_req \<Rightarrow> nvmet_ctrl \<Rightarrow> nvmet_req" where
  "nvmet_get_feat_async_event r c = nvmet_set_result (n_aen_enabled c) r"

section \<open>Little-endian data\<close>

lemma length_le_bytes [simp]: "length (le_bytes n w) = n"
  by (induction n arbitrary: w) simp_all

lemma le_nat_le_bytes: "le_nat (le_bytes n w) = unat w mod 256 ^ n"
proof (induction n arbitrary: w)
  case 0
  then show ?case by simp
next
  case (Suc n)
  have b: "unat (ucast w :: u8) = unat w mod 256"
    by (simp add: unsigned_ucast_eq take_bit_eq_mod)
  have "unat (drop_bit 8 w) = drop_bit 8 (take_bit LENGTH('a) (unat w))"
    by (rule unsigned_drop_bit_eq)
  then have d: "unat (drop_bit 8 w) = unat w div 256"
    by (simp only: unsigned_take_bit_eq [symmetric] take_bit_length_eq) (simp add: drop_bit_eq_div)
  show ?case
    using mod_mult2_eq [of "unat w" 256 "256 ^ n"] by (simp add: Suc b d)
qed

lemma length_slot_bytes [simp]: "length (slot_bytes s) = 64"
  by (simp add: slot_bytes_def)

section \<open>The error log shows the newest errors first\<close>

lemma sg_write_snd:
  "snd (sg_write off data buf) = take off buf @ take (length buf - off) data @ drop (off + length data) buf"
  by (cases "length data \<le> length buf - off") (simp_all add: sg_write_def Let_def min_def)

lemma sg_write_fst: "fst (sg_write off data buf) = min (length data) (length buf - off)"
  by (simp add: sg_write_def Let_def)

lemma copy_to_sgl_full:
  "off + length data \<le> length (r_sg r) \<Longrightarrow> nvmet_copy_to_sgl off data r =
     (0, r\<lparr>r_sg := take off (r_sg r) @ data @ drop (off + length data) (r_sg r)\<rparr>)"
  by (simp add: nvmet_copy_to_sgl_def split_beta sg_write_snd sg_write_fst Let_def)

lemma copy_to_sgl_sg:
  "r_sg (snd (nvmet_copy_to_sgl off data r)) =
     take off (r_sg r) @ take (length (r_sg r) - off) data @ drop (off + length data) (r_sg r)"
  by (simp add: nvmet_copy_to_sgl_def split_beta sg_write_snd Let_def)

lemma copy_to_sgl_status:
  "fst (nvmet_copy_to_sgl off data r) = 0 \<longleftrightarrow> length data \<le> length (r_sg r) - off"
  by (auto simp: nvmet_copy_to_sgl_def split_beta sg_write_fst Let_def min_def)

fun log_order :: "nat \<Rightarrow> nat \<Rightarrow> nat list" where
  "log_order 0 slot = []"
| "log_order (Suc n) slot = slot # log_order n (if slot = 0 then NVMET_ERROR_LOG_SLOTS - 1 else slot - 1)"

lemma length_log_order [simp]: "length (log_order n slot) = n"
  by (induction n arbitrary: slot) simp_all

lemma log_order_nth:
  "slot < 128 \<Longrightarrow> i < n \<Longrightarrow> n \<le> 128 \<Longrightarrow> log_order n slot ! i = (slot + 128 - i) mod 128"
proof (induction n arbitrary: slot i)
  case 0
  then show ?case by simp
next
  case (Suc n)
  show ?case
  proof (cases i)
    case 0
    with Suc.prems show ?thesis by simp
  next
    case (Suc j)
    have "log_order n (if slot = 0 then 127 else slot - 1) ! j =
        ((if slot = 0 then 127 else slot - 1) + 128 - j) mod 128"
      by (rule Suc.IH) (use Suc Suc.prems in auto)
    also have "\<dots> = (slot + 128 - Suc j) mod 128"
      using Suc Suc.prems by (auto simp: mod_if)
    finally show ?thesis by (simp only: Suc log_order.simps nth_Cons_Suc diff_Suc_1') (simp split: if_splits)
  qed
qed

lemma concat_slot_length: "length (concat (map (\<lambda>i. slot_bytes (f i)) xs)) = 64 * length xs"
  by (induction xs) simp_all

lemma error_log_loop_sg:
  "off \<le> length (r_sg r) \<Longrightarrow>
   r_sg (error_log_loop n slot off slots r) =
     take off (r_sg r) @
     take (length (r_sg r) - off) (concat (map (\<lambda>i. slot_bytes (slots ! i)) (log_order n slot))) @
     drop (off + 64 * n) (r_sg r)"
proof (induction n arbitrary: slot off r)
  case 0
  then show ?case by simp
next
  case (Suc n)
  show ?case
  proof (cases "off + 64 \<le> length (r_sg r)")
    case True
    then show ?thesis
      using copy_to_sgl_full [of off "slot_bytes (slots ! slot)" r]
      by (simp add: Suc.IH add.assoc add.commute [of "64 * n"])
  next
    case False
    then have "fst (nvmet_copy_to_sgl off (slot_bytes (slots ! slot)) r) \<noteq> 0"
      using Suc.prems by (subst copy_to_sgl_status) simp
    with False show ?thesis
      by (simp add: split_beta copy_to_sgl_sg)
  qed
qed

lemma error_log_loop_fields [simp]:
  "r_cmd (error_log_loop n slot off slots r) = r_cmd r"
  by (induction n arbitrary: slot off r)
    (auto simp: nvmet_copy_to_sgl_def split_beta Let_def split: if_splits)

text \<open>The errors a controller is told of, and the log it should keep.\<close>

type_synonym error_report = "nvmet_sq \<times> u16 \<times> nvmet_req"

definition report_error :: "error_report \<Rightarrow> nvmet_ctrl \<Rightarrow> nvmet_ctrl" where
  "report_error e c = (case e of (sq, status, r) \<Rightarrow> the (snd (nvmet_set_error sq status r (Some c))))"

definition located :: "error_report \<Rightarrow> bool" where
  "located e = (case e of (sq, status, r) \<Rightarrow> r_error_loc r \<noteq> NVMET_NO_ERROR_LOC)"

definition error_entry :: "nat \<Rightarrow> error_report \<Rightarrow> nvme_error_slot" where
  "error_entry k e = (case e of (sq, status, r) \<Rightarrow>
     \<lparr>es_error_count = of_nat k, es_sqid = sq_qid sq, es_cmdid = tc_command_id (r_cmd r),
      es_status_field = push_bit 1 status, es_param_error_location = r_error_loc r,
      es_lba = r_error_slba r, es_nsid = tc_nsid (r_cmd r)\<rparr>)"

fun numbered_entries :: "nat \<Rightarrow> error_report list \<Rightarrow> nvme_error_slot list" where
  "numbered_entries k [] = []"
| "numbered_entries k (e # es) = error_entry k e # numbered_entries (Suc k) es"

definition error_history :: "error_report list \<Rightarrow> nvme_error_slot list" where
  "error_history es = numbered_entries 1 (filter located es)"

abbreviation empty_slot :: nvme_error_slot where
  "empty_slot \<equiv> \<lparr>es_error_count = 0, es_sqid = 0, es_cmdid = 0, es_status_field = 0,
     es_param_error_location = 0, es_lba = 0, es_nsid = 0\<rparr>"

definition newest :: "nvme_error_slot list \<Rightarrow> nat \<Rightarrow> nvme_error_slot" where
  "newest H j = (if j < length H then H ! (length H - 1 - j) else empty_slot)"

definition log_inv :: "nvme_error_slot list \<Rightarrow> nvmet_ctrl \<Rightarrow> bool" where
  "log_inv H c \<longleftrightarrow> n_err_counter c = of_nat (length H) \<and> length (n_slots c) = 128 \<and>
     (\<forall>j < 128. n_slots c ! ((length H + 128 - j) mod 128) = newest H j)"

lemma numbered_entries_snoc:
  "numbered_entries k (es @ [e]) = numbered_entries k es @ [error_entry (k + length es) e]"
  by (induction es arbitrary: k) simp_all

lemma length_numbered_entries [simp]: "length (numbered_entries k es) = length es"
  by (induction es arbitrary: k) simp_all

lemma u64_mod_128: "unat (of_nat m mod 128 :: u64) = m mod 128"
proof -
  have "unat (of_nat m mod 128 :: u64) = (m mod 2 ^ 64) mod 128"
    by (simp add: unat_mod unat_of_nat)
  also have "\<dots> = m mod 128" by (rule mod_mod_cancel) simp
  finally show ?thesis .
qed

lemma report_error_unlocated: "\<not> located e \<Longrightarrow> report_error e c = c"
  by (cases e) (simp add: report_error_def located_def nvmet_set_error_def Let_def)

lemma ring_other_slot: "0 < j \<Longrightarrow> j < 128 \<Longrightarrow> m mod 128 \<noteq> (m + 128 - j) mod (128 :: nat)"
proof
  assume j: "0 < j" "j < 128" and eq: "m mod 128 = (m + 128 - j) mod 128"
  define k where "k = m + 128 - j"
  have "(k + j) mod 128 = k mod 128"
    using j eq by (simp add: k_def)
  then have "128 dvd j"
    by (subst (asm) mod_eq_dvd_iff_nat) simp_all
  with j show False by (auto dest: dvd_imp_le)
qed

lemma report_error_located:
  assumes "located e" and "log_inv H c"
  shows "log_inv (H @ [error_entry (length H + 1) e]) (report_error e c)"
proof -
  obtain sq status r where e: "e = (sq, status, r)" by (cases e)
  have cnt: "n_err_counter c + 1 = of_nat (length H + 1)"
    using assms(2) by (simp add: log_inv_def)
  have rep: "report_error e c = c\<lparr>n_err_counter := of_nat (length H + 1),
      n_slots := (n_slots c)[(length H + 1) mod 128 := error_entry (length H + 1) e]\<rparr>"
    using assms(1) e
    using u64_mod_128 [of "Suc (length H)"]
    by (simp add: report_error_def located_def nvmet_set_error_def Let_def cnt [simplified]
        error_entry_def add.commute)
  have slots: "length (n_slots c) = 128" "\<And>j. j < 128 \<Longrightarrow> n_slots c ! ((length H + 128 - j) mod 128) = newest H j"
    using assms(2) by (simp_all add: log_inv_def)
  have "(n_slots c)[(length H + 1) mod 128 := error_entry (length H + 1) e] !
      ((length H + 1 + 128 - j) mod 128) = newest (H @ [error_entry (length H + 1) e]) j" if "j < 128" for j
  proof (cases j)
    case 0
    have "(length H + 1 + 128 - 0) mod 128 = (length H + 1) mod 128"
      using mod_add_self2 [of "length H + 1" 128] by (simp only: diff_zero)
    with 0 show ?thesis using slots(1) by (simp only: newest_def) simp
  next
    case (Suc i)
    have "(length H + 1) mod 128 \<noteq> (length H + 1 + 128 - j) mod 128"
      using that Suc ring_other_slot [of j "length H + 1"] by simp
    moreover have "length H + 1 + 128 - j = length H + 128 - i" using Suc by simp
    ultimately show ?thesis
      using slots(2) [of i] that Suc by (auto simp: newest_def nth_append)
  qed
  then show ?thesis
    using slots(1) by (simp add: rep log_inv_def)
qed

lemma log_inv_run:
  "log_inv (error_history es) (fold report_error es (blank_ctrl kato))"
proof (induction es rule: rev_induct)
  case Nil
  then show ?case
    by (auto simp: error_history_def log_inv_def newest_def)
next
  case (snoc e es)
  show ?case
  proof (cases "located e")
    case True
    with report_error_located [OF True snoc] show ?thesis
      by (simp add: error_history_def numbered_entries_snoc)
  next
    case False
    with snoc show ?thesis by (simp add: error_history_def report_error_unlocated)
  qed
qed

lemma req_complete_out [simp]:
  "q_out (nvmet_req_complete 0 r q) = q_out q @
     [\<lparr>q_command_id = tc_command_id (r_cmd r), q_sq_id = sq_qid (q_sq q),
       q_sq_head = (if sq_sqhd_disabled (q_sq q) then r_sq_head r else snd (nvmet_update_sq_head (q_sq q))),
       q_status = r_status r, q_result = r_result r, q_data = r_sg r\<rparr>]"
  by (auto simp: nvmet_req_complete_def nvmet_update_sq_head_def Let_def split: option.splits)

lemma log_inv_page:
  assumes "log_inv H c"
  shows "map ((!) (n_slots c)) (log_order 128 (unat (n_err_counter c mod of_nat NVMET_ERROR_LOG_SLOTS))) =
    take 128 (rev H @ replicate 128 empty_slot)"
proof (rule nth_equalityI)
  have cnt: "unat (n_err_counter c mod of_nat NVMET_ERROR_LOG_SLOTS) = length H mod 128"
    using assms u64_mod_128 [of "length H"] by (simp add: log_inv_def)
  fix i
  assume "i < length (map ((!) (n_slots c)) (log_order 128 (unat (n_err_counter c mod of_nat NVMET_ERROR_LOG_SLOTS))))"
  then have i: "i < 128" by simp
  have "(length H mod 128 + 128 - i) mod 128 = (length H + 128 - i) mod 128"
    using i by (metis add_diff_assoc less_imp_le_nat mod_add_left_eq)
  then have "n_slots c ! (log_order 128 (length H mod 128) ! i) = newest H i"
    using assms i by (simp add: log_order_nth log_inv_def)
  also have "\<dots> = take 128 (rev H @ replicate 128 empty_slot) ! i"
    using i by (auto simp: newest_def nth_append rev_nth)
  finally show "map ((!) (n_slots c)) (log_order 128 (unat (n_err_counter c mod of_nat NVMET_ERROR_LOG_SLOTS))) ! i =
      take 128 (rev H @ replicate 128 empty_slot) ! i"
    using i by (simp only: cnt nth_map length_log_order)
qed simp

text \<open>The error log page is the history of the controller's errors, newest first. After any sequence of
  failed requests the page a host reads is, as far as its buffer goes, the bytes of the errors that named
  a location, numbered from 1 in the order they happened, the newest 128 of them, padded with empty slots.
\<close>

theorem error_log_newest_first:
  "q_data (last (q_out (nvmet_execute_get_log_page_error r
       (q\<lparr>q_ctrl := Some (fold report_error es (blank_ctrl kato))\<rparr>)))) =
   (let page = concat (map slot_bytes (take 128 (rev (error_history es) @ replicate 128 empty_slot)))
    in take (length (r_sg r)) page @ drop (length page) (r_sg r))"
proof -
  let ?c = "fold report_error es (blank_ctrl kato)"
  have len: "length (concat (map slot_bytes (take 128 (rev (error_history es) @ replicate 128 empty_slot)))) = 8192"
    using concat_slot_length [of "\<lambda>s. s" "take 128 (rev (error_history es) @ replicate 128 empty_slot)"]
    by simp
  have "map (\<lambda>i. slot_bytes (n_slots ?c ! i))
          (log_order 128 (unat (n_err_counter ?c mod of_nat NVMET_ERROR_LOG_SLOTS))) =
        map slot_bytes (take 128 (rev (error_history es) @ replicate 128 empty_slot))"
    using log_inv_page [OF log_inv_run [of es kato], THEN arg_cong, of "map slot_bytes"]
    by (simp only: map_map comp_def)
  then show ?thesis
    using len by (simp add: nvmet_execute_get_log_page_error_def error_log_loop_sg Let_def)
qed

section \<open>Events are delivered once, in order\<close>

text \<open>What happens to a controller's events: commands of the host, events, the event work, and the end of the admin queue.\<close>

datatype aer_op =
    Aer_cmd nvmet_req
  | Aer_event bool u8 u8 u8
  | Aer_work
  | Aer_free

fun aer_step :: "aer_op \<Rightarrow> nvmet_queue \<Rightarrow> nvmet_queue" where
  "aer_step (Aer_cmd r) q = nvmet_execute_async_event r q"
| "aer_step (Aer_event alloc ty info lp) q = upd_ctrl (nvmet_add_async_event alloc ty info lp) q"
| "aer_step Aer_work q = nvmet_async_event_work q"
| "aer_step Aer_free q = nvmet_async_events_free q"

abbreviation aer_run :: "aer_op list \<Rightarrow> nvmet_queue \<Rightarrow> nvmet_queue" where
  "aer_run ops q \<equiv> fold aer_step ops q"

definition pending_results :: "nvmet_queue \<Rightarrow> u32 list" where
  "pending_results q = (case q_ctrl q of None \<Rightarrow> [] | Some c \<Rightarrow> map nvmet_async_event_result (n_async_events c))"

definition waiting_cmds :: "nvmet_queue \<Rightarrow> nvmet_req list" where
  "waiting_cmds q = (case q_ctrl q of None \<Rightarrow> [] | Some c \<Rightarrow> n_async_event_cmds c)"

definition delivered :: "nvmet_queue \<Rightarrow> u32 list" where
  "delivered q = map (\<lambda>e. ucast (q_result e)) (filter (\<lambda>e. q_status e = 0) (q_out q))"

fun event_results :: "aer_op list \<Rightarrow> u32 list" where
  "event_results [] = []"
| "event_results (Aer_event alloc ty info lp # ops) =
     (if alloc then nvmet_async_event_result \<lparr>ae_event_type = ty, ae_event_info = info, ae_log_page = lp\<rparr> # event_results ops
      else event_results ops)"
| "event_results (_ # ops) = event_results ops"

fun event_cmds :: "aer_op list \<Rightarrow> nvmet_req list" where
  "event_cmds [] = []"
| "event_cmds (Aer_cmd r # ops) = r # event_cmds ops"
| "event_cmds (_ # ops) = event_cmds ops"

text \<open>
  The invariant: the queue is connected, no more than four commands wait, all of them unanswered;
  \<open>evs\<close> and \<open>cmds\<close> are the events and commands so far.
\<close>

definition aer_inv :: "u32 list \<Rightarrow> u16 multiset \<Rightarrow> nvmet_queue \<Rightarrow> bool" where
  "aer_inv evs cmds q \<longleftrightarrow> q_ctrl q \<noteq> None \<and> length (waiting_cmds q) \<le> NVMET_ASYNC_EVENTS \<and>
     (\<forall>r \<in> set (waiting_cmds q). r_status r = 0) \<and>
     delivered q @ pending_results q = evs \<and>
     mset (map q_command_id (q_out q)) + mset (map (\<lambda>r. tc_command_id (r_cmd r)) (waiting_cmds q)) = cmds"

lemma set_error_ctrl:
  "snd (nvmet_set_error sq status r (Some c)) \<noteq> None"
  "n_async_event_cmds (the (snd (nvmet_set_error sq status r (Some c)))) = n_async_event_cmds c"
  "n_async_events (the (snd (nvmet_set_error sq status r (Some c)))) = n_async_events c"
  "n_async_work (the (snd (nvmet_set_error sq status r (Some c)))) = n_async_work c"
  "r_cmd (fst (nvmet_set_error sq status r ctrl)) = r_cmd r"
  by (auto simp: nvmet_set_error_def Let_def split: option.splits)

lemma or_eq_0D: "a OR b = 0 \<Longrightarrow> a = (0 :: 'a::len word)"
  by (simp add: or_eq_0_iff)

lemma set_error_status:
  "push_bit 1 status \<noteq> 0 \<Longrightarrow> r_status (fst (nvmet_set_error sq status r ctrl)) \<noteq> 0"
  by (auto simp: nvmet_set_error_def Let_def dest: or_eq_0D split: option.splits)

lemma req_complete_events:
  assumes "q_ctrl q = Some c"
  shows "\<exists>c'. q_ctrl (nvmet_req_complete status r q) = Some c' \<and>
    n_async_event_cmds c' = n_async_event_cmds c \<and> n_async_events c' = n_async_events c \<and>
    n_async_work c' = n_async_work c"
proof -
  have "\<exists>c' :: nvmet_ctrl. snd (nvmet_set_error sq status r' (Some c)) = Some c' \<and>
    n_async_event_cmds c' = n_async_event_cmds c \<and> n_async_events c' = n_async_events c \<and>
    n_async_work c' = n_async_work c" for sq r'
    using set_error_ctrl(1-4) [of sq status r' c] by auto
  with assms show ?thesis
    by (auto simp: nvmet_req_complete_def Let_def split_beta)
qed

lemma req_complete_entry:
  "\<exists>e. q_out (nvmet_req_complete status r q) = q_out q @ [e] \<and> q_command_id e = tc_command_id (r_cmd r) \<and>
    (status = 0 \<longrightarrow> q_status e = r_status r \<and> q_result e = r_result r) \<and>
    (push_bit 1 status \<noteq> 0 \<longrightarrow> q_status e \<noteq> 0)"
proof (cases "status = 0")
  case True
  then show ?thesis by simp
next
  case False
  then show ?thesis
    by (auto simp: nvmet_req_complete_def nvmet_update_sq_head_def Let_def split_beta set_error_ctrl set_error_status)
qed

lemma ucast_result [simp]: "ucast (r_result (nvmet_set_result v r)) = v"
proof -
  have m: "(0xffffffff :: u64) = mask 32" by (simp add: mask_eq_exp_minus_1)
  show ?thesis
    by (intro bit_eqI) (auto simp: nvmet_set_result_def m bit_simps
        dest: bit_imp_le_length)
qed

lemma set_result_fields [simp]:
  "r_cmd (nvmet_set_result v r) = r_cmd r" "r_status (nvmet_set_result v r) = r_status r"
  "r_sg (nvmet_set_result v r) = r_sg r" "r_error_loc (nvmet_set_result v r) = r_error_loc r"
  by (simp_all add: nvmet_set_result_def)

text \<open>Completing the newest waiting command, with the next event or with an error.\<close>

lemma aer_inv_deliver:
  assumes inv: "aer_inv evs cmds q" and c: "q_ctrl q = Some c" and "n_async_event_cmds c \<noteq> []"
    and ev: "n_async_events c = aen # aens"
  shows "aer_inv evs cmds (nvmet_req_complete 0
      (nvmet_set_result (nvmet_async_event_result aen) (last (n_async_event_cmds c)))
      (upd_ctrl (\<lambda>c. c\<lparr>n_async_event_cmds := butlast (n_async_event_cmds c), n_async_events := aens\<rparr>) q))"
proof -
  obtain rs r where rs: "n_async_event_cmds c = rs @ [r]"
    using assms(3) by (metis append_butlast_last_id)
  let ?q = "upd_ctrl (\<lambda>c. c\<lparr>n_async_event_cmds := butlast (n_async_event_cmds c), n_async_events := aens\<rparr>) q"
  obtain c' where c': "q_ctrl (nvmet_req_complete 0 (nvmet_set_result (nvmet_async_event_result aen) r) ?q) = Some c'"
      "n_async_event_cmds c' = rs" "n_async_events c' = aens"
    using req_complete_events [of ?q "c\<lparr>n_async_event_cmds := rs, n_async_events := aens\<rparr>"] c rs
    by (fastforce simp: upd_ctrl_def)
  show ?thesis
    using inv c rs ev c'
    by (auto simp: aer_inv_def waiting_cmds_def pending_results_def delivered_def upd_ctrl_def)
qed

lemma aer_inv_drop:
  assumes inv: "aer_inv evs cmds q" and c: "q_ctrl q = Some c" and "n_async_event_cmds c \<noteq> []"
    and st: "push_bit 1 status \<noteq> 0"
  shows "aer_inv evs cmds (nvmet_req_complete status (last (n_async_event_cmds c))
      (upd_ctrl (\<lambda>c. c\<lparr>n_async_event_cmds := butlast (n_async_event_cmds c)\<rparr>) q))"
proof -
  obtain rs r where rs: "n_async_event_cmds c = rs @ [r]"
    using assms(3) by (metis append_butlast_last_id)
  let ?q = "upd_ctrl (\<lambda>c. c\<lparr>n_async_event_cmds := butlast (n_async_event_cmds c)\<rparr>) q"
  obtain c' where c': "q_ctrl (nvmet_req_complete status r ?q) = Some c'"
      "n_async_event_cmds c' = rs" "n_async_events c' = n_async_events c"
    using req_complete_events [of ?q "c\<lparr>n_async_event_cmds := rs\<rparr>"] c rs
    by (fastforce simp: upd_ctrl_def)
  obtain e where e: "q_out (nvmet_req_complete status r ?q) = q_out q @ [e]"
      "q_command_id e = tc_command_id (r_cmd r)" "q_status e \<noteq> 0"
    using req_complete_entry [of status r ?q] st by (auto simp: upd_ctrl_def)
  show ?thesis
    using inv c rs c' e
    by (auto simp: aer_inv_def waiting_cmds_def pending_results_def delivered_def)
qed

lemma aer_inv_work_loop:
  "aer_inv evs cmds q \<Longrightarrow> q_ctrl q = Some c \<Longrightarrow> n_async_events c = aens \<Longrightarrow>
   aer_inv evs cmds (async_work_loop aens q) \<and>
   (pending_results (async_work_loop aens q) = [] \<or> waiting_cmds (async_work_loop aens q) = [])"
proof (induction aens arbitrary: q c)
  case Nil
  then show ?case by (simp add: pending_results_def)
next
  case (Cons aen aens)
  show ?case
  proof (cases "n_async_event_cmds c = []")
    case True
    with Cons.prems show ?thesis by (simp add: waiting_cmds_def)
  next
    case False
    let ?q = "nvmet_req_complete 0
      (nvmet_set_result (nvmet_async_event_result aen) (last (n_async_event_cmds c)))
      (upd_ctrl (\<lambda>c. c\<lparr>n_async_event_cmds := butlast (n_async_event_cmds c), n_async_events := aens\<rparr>) q)"
    have inv: "aer_inv evs cmds ?q"
      by (rule aer_inv_deliver [OF Cons.prems(1,2) False Cons.prems(3)])
    obtain c' where c': "q_ctrl ?q = Some c'" "n_async_events c' = aens"
      using req_complete_events [of "upd_ctrl (\<lambda>c. c\<lparr>n_async_event_cmds := butlast (n_async_event_cmds c),
          n_async_events := aens\<rparr>) q"] Cons.prems(2) by (fastforce simp: upd_ctrl_def)
    from Cons.IH [OF inv c'] show ?thesis
      using Cons.prems(2) False by simp
  qed
qed

lemma aer_inv_free_loop:
  "aer_inv evs cmds q \<Longrightarrow> aer_inv evs cmds (async_free_loop n q) \<and>
   length (waiting_cmds (async_free_loop n q)) = length (waiting_cmds q) - n"
proof (induction n arbitrary: q)
  case 0
  then show ?case by simp
next
  case (Suc n)
  then obtain c where c: "q_ctrl q = Some c" by (auto simp: aer_inv_def)
  show ?case
  proof (cases "n_async_event_cmds c = []")
    case True
    with Suc.prems c show ?thesis by (simp add: waiting_cmds_def)
  next
    case False
    let ?q = "nvmet_req_complete (NVME_SC_INTERNAL OR NVME_SC_DNR) (last (n_async_event_cmds c))
      (upd_ctrl (\<lambda>c. c\<lparr>n_async_event_cmds := butlast (n_async_event_cmds c)\<rparr>) q)"
    have inv: "aer_inv evs cmds ?q"
      by (rule aer_inv_drop [OF Suc.prems c False]) simp
    have "waiting_cmds ?q = butlast (waiting_cmds q)"
      using req_complete_events [of "upd_ctrl (\<lambda>c. c\<lparr>n_async_event_cmds := butlast (n_async_event_cmds c)\<rparr>) q"
          "c\<lparr>n_async_event_cmds := butlast (n_async_event_cmds c)\<rparr>"
          "NVME_SC_INTERNAL OR NVME_SC_DNR" "last (n_async_event_cmds c)"] c
      by (auto simp: waiting_cmds_def upd_ctrl_def)
    with Suc.IH [OF inv] show ?thesis
      using c False by simp
  qed
qed

lemma aer_inv_cmd:
  assumes "aer_inv evs cmds q" and "r_status r = 0"
  shows "aer_inv evs (cmds + {#tc_command_id (r_cmd r)#}) (nvmet_execute_async_event r q)"
proof -
  obtain c where c: "q_ctrl q = Some c" using assms(1) by (auto simp: aer_inv_def)
  show ?thesis
  proof (cases "NVMET_ASYNC_EVENTS \<le> length (n_async_event_cmds c)")
    case True
    let ?q = "nvmet_req_complete (NVME_SC_ASYNC_LIMIT OR NVME_SC_DNR) r q"
    obtain e where e: "q_out ?q = q_out q @ [e]" "q_command_id e = tc_command_id (r_cmd r)" "q_status e \<noteq> 0"
      using req_complete_entry [of "NVME_SC_ASYNC_LIMIT OR NVME_SC_DNR" r q] by auto
    obtain c' where "q_ctrl ?q = Some c'" "n_async_event_cmds c' = n_async_event_cmds c"
        "n_async_events c' = n_async_events c"
      using req_complete_events [OF c] by blast
    with assms c e True show ?thesis
      by (auto simp: nvmet_execute_async_event_def aer_inv_def waiting_cmds_def pending_results_def delivered_def)
  next
    case False
    with assms c show ?thesis
      by (auto simp: nvmet_execute_async_event_def aer_inv_def waiting_cmds_def pending_results_def
          delivered_def upd_ctrl_def)
  qed
qed

lemma aer_inv_event:
  assumes "aer_inv evs cmds q"
  shows "aer_inv (evs @ event_results [Aer_event alloc ty info lp]) cmds (upd_ctrl (nvmet_add_async_event alloc ty info lp) q)"
  using assms
  by (auto simp: nvmet_add_async_event_def aer_inv_def waiting_cmds_def pending_results_def
      delivered_def upd_ctrl_def split: option.splits)

lemma aer_inv_work:
  assumes "aer_inv evs cmds q"
  shows "aer_inv evs cmds (nvmet_async_event_work q)"
    and "pending_results (nvmet_async_event_work q) = [] \<or> waiting_cmds (nvmet_async_event_work q) = []"
proof -
  obtain c where c: "q_ctrl q = Some c" using assms by (auto simp: aer_inv_def)
  let ?q = "upd_ctrl (\<lambda>c. c\<lparr>n_async_work := False\<rparr>) q"
  have "aer_inv evs cmds ?q"
    using assms c by (auto simp: aer_inv_def waiting_cmds_def pending_results_def delivered_def upd_ctrl_def)
  then show "aer_inv evs cmds (nvmet_async_event_work q)"
    and "pending_results (nvmet_async_event_work q) = [] \<or> waiting_cmds (nvmet_async_event_work q) = []"
    using aer_inv_work_loop [of evs cmds ?q "c\<lparr>n_async_work := False\<rparr>" "n_async_events c"] c
    by (simp_all add: nvmet_async_event_work_def upd_ctrl_def)
qed

lemma aer_inv_free:
  assumes "aer_inv evs cmds q"
  shows "aer_inv evs cmds (nvmet_async_events_free q)" and "waiting_cmds (nvmet_async_events_free q) = []"
proof -
  obtain c where c: "q_ctrl q = Some c" using assms by (auto simp: aer_inv_def)
  then show "aer_inv evs cmds (nvmet_async_events_free q)" and "waiting_cmds (nvmet_async_events_free q) = []"
    using aer_inv_free_loop [OF assms, of "length (n_async_event_cmds c)"]
    by (simp_all add: nvmet_async_events_free_def waiting_cmds_def)
qed

lemma aer_inv_run:
  "aer_inv evs cmds q \<Longrightarrow> \<forall>r \<in> set (event_cmds ops). r_status r = 0 \<Longrightarrow>
   aer_inv (evs @ event_results ops) (cmds + mset (map (\<lambda>r. tc_command_id (r_cmd r)) (event_cmds ops))) (aer_run ops q)"
proof (induction ops arbitrary: evs cmds q)
  case Nil
  then show ?case by simp
next
  case (Cons oper ops)
  show ?case
  proof (cases oper)
    case (Aer_cmd r)
    with Cons.prems Cons.IH [OF aer_inv_cmd [OF Cons.prems(1), of r]] show ?thesis by simp
  next
    case (Aer_event alloc ty info lp)
    with Cons.prems Cons.IH [OF aer_inv_event [OF Cons.prems(1), of alloc ty info lp]]
    show ?thesis by (auto split: if_splits)
  next
    case Aer_work
    with Cons.prems Cons.IH [OF aer_inv_work(1) [OF Cons.prems(1)]] show ?thesis by simp
  next
    case Aer_free
    with Cons.prems Cons.IH [OF aer_inv_free(1) [OF Cons.prems(1)]] show ?thesis by simp
  qed
qed

text \<open>C26. Asynchronous events are delivered exactly once and in order, and every event command is answered exactly
  once. Over any sequence of event commands, events, runs of the event work and ends of the admin queue:
  the events delivered followed by those still queued are the events raised; the commands answered and
  those still waiting are the commands received; at most four wait; after the work has run there is no
  event or no command left, and after the queue has ended no command.
\<close>

theorem events_delivered_in_order:
  assumes "q_ctrl q = Some c" and "n_async_events c = []" and "n_async_event_cmds c = []" and "q_out q = []"
    and "\<forall>r \<in> set (event_cmds ops). r_status r = 0"
  shows "let q' = aer_run ops q in
    delivered q' @ pending_results q' = event_results ops \<and>
    mset (map q_command_id (q_out q')) + mset (map (\<lambda>r. tc_command_id (r_cmd r)) (waiting_cmds q')) =
      mset (map (\<lambda>r. tc_command_id (r_cmd r)) (event_cmds ops)) \<and>
    length (waiting_cmds q') \<le> NVMET_ASYNC_EVENTS \<and>
    (pending_results (nvmet_async_event_work q') = [] \<or> waiting_cmds (nvmet_async_event_work q') = []) \<and>
    waiting_cmds (nvmet_async_events_free q') = []"
proof -
  have "aer_inv [] {#} q"
    using assms by (simp add: aer_inv_def waiting_cmds_def pending_results_def delivered_def)
  then have inv: "aer_inv (event_results ops) (mset (map (\<lambda>r. tc_command_id (r_cmd r)) (event_cmds ops))) (aer_run ops q)"
    using aer_inv_run assms(5) by fastforce
  with aer_inv_work(2) [OF inv] aer_inv_free(2) [OF inv] show ?thesis
    by (simp only: aer_inv_def Let_def)
qed

definition example_req :: nvmet_req where
  "example_req =
     \<lparr>r_cmd = \<lparr>tc_opcode = nvme_admin_async_event, tc_flags = NVME_CMD_SGL_METABUF, tc_command_id = 7, tc_nsid = 0,
        tc_cdw10 = 0, tc_cdw11 = 0, tc_cdw12 = 0, tc_lpo = 0, tc_fctype = 0, tc_attrib = 0, tc_offset = 0, tc_value = 0,
        tc_recfmt = 0, tc_qid = 0, tc_sqsize = 0, tc_cattr = 0, tc_kato = 0\<rparr>,
      r_sg = [], r_data_len = 0, r_transfer_len = 0, r_ns = None, r_error_loc = NVMET_NO_ERROR_LOC,
      r_error_slba = 0, r_result = 0, r_status = 0, r_sq_head = 0\<rparr>"

definition example_queue :: nvmet_queue where
  "example_queue =
     \<lparr>q_sq = \<lparr>sq_qid = 0, sq_size = 32, sq_sqhd = 0, sq_sqhd_disabled = False\<rparr>,
      q_ctrl = Some (blank_ctrl 10), q_out = [], q_ns_refs = []\<rparr>"

theorem events_delivered_in_order_witness:
  "delivered (aer_run [Aer_cmd example_req, Aer_event True 2 0 4, Aer_work] example_queue) @
   pending_results (aer_run [Aer_cmd example_req, Aer_event True 2 0 4, Aer_work] example_queue) = [0x40002]"
  using events_delivered_in_order [of example_queue "blank_ctrl 10" "[Aer_cmd example_req, Aer_event True 2 0 4, Aer_work]"]
  by (simp add: example_queue_def example_req_def nvmet_async_event_result_def Let_def del: fold_simps)

section \<open>The log of changed namespaces\<close>

text \<open>The namespaces that changed since the log was last read, in the order of their first change.\<close>

definition changed_since :: "u32 list \<Rightarrow> u32 list" where
  "changed_since nsids = rev (remdups (rev nsids))"

definition changed_page :: "u32 list \<Rightarrow> u32 list" where
  "changed_page nsids =
     (if length (changed_since nsids) \<le> NVME_MAX_CHANGED_NAMESPACES then changed_since nsids else [0xffffffff])"

lemma changed_since_snoc:
  "changed_since (ns @ [x]) = (if x \<in> set ns then changed_since ns else changed_since ns @ [x])"
  by (simp add: changed_since_def)

lemma set_changed_since [simp]: "set (changed_since ns) = set ns"
  by (simp add: changed_since_def)

definition changed_inv :: "u32 list \<Rightarrow> nvmet_ctrl \<Rightarrow> bool" where
  "changed_inv ns c \<longleftrightarrow> length (n_changed_ns_list c) = 1024 \<and>
     (if length (changed_since ns) \<le> 1024
      then n_nr_changed_ns c = of_nat (length (changed_since ns)) \<and>
           take (length (changed_since ns)) (n_changed_ns_list c) = changed_since ns
      else n_nr_changed_ns c = U32_MAX \<and> n_changed_ns_list c ! 0 = 0xffffffff)"

lemma unat_of_nat_u32: "n < 2 ^ 32 \<Longrightarrow> unat (of_nat n :: u32) = n"
  by (simp add: unat_of_nat)

lemma changed_inv_add:
  assumes "changed_inv ns c"
  shows "changed_inv (ns @ [x]) (nvmet_add_to_changed_ns_log x c)"
proof (cases "length (changed_since ns) \<le> 1024")
  case False
  then have "n_nr_changed_ns c = U32_MAX" using assms by (simp add: changed_inv_def)
  then have "nvmet_add_to_changed_ns_log x c = c"
    by (simp add: nvmet_add_to_changed_ns_log_def)
  with False assms show ?thesis
    by (auto simp: changed_inv_def changed_since_snoc)
next
  case True
  let ?n = "length (changed_since ns)"
  have nr: "n_nr_changed_ns c = of_nat ?n" and tk: "take ?n (n_changed_ns_list c) = changed_since ns"
    and len: "length (n_changed_ns_list c) = 1024"
    using True assms by (simp_all add: changed_inv_def)
  have un: "unat (n_nr_changed_ns c) = ?n" using True nr by (simp add: unat_of_nat_u32)
  have big: "(of_nat 1024 < n_nr_changed_ns c) = (1024 < ?n)" "(n_nr_changed_ns c = of_nat 1024) = (?n = 1024)"
    using un by (simp_all add: word_less_nat_alt word_unat_eq_iff)
  show ?thesis
  proof (cases "x \<in> set ns")
    case mem: True
    then have "nvmet_add_to_changed_ns_log x c = c"
      using un tk by (simp add: nvmet_add_to_changed_ns_log_def)
    with mem assms show ?thesis by (simp add: changed_inv_def changed_since_snoc)
  next
    case new: False
    show ?thesis
    proof (cases "?n = 1024")
      case full: True
      then have "nvmet_add_to_changed_ns_log x c =
          c\<lparr>n_changed_ns_list := (n_changed_ns_list c)[0 := 0xffffffff], n_nr_changed_ns := U32_MAX\<rparr>"
        using new un tk big by (simp add: nvmet_add_to_changed_ns_log_def)
      then show ?thesis
        using new full len by (simp add: changed_inv_def changed_since_snoc)
    next
      case room: False
      then have "nvmet_add_to_changed_ns_log x c =
          c\<lparr>n_changed_ns_list := (n_changed_ns_list c)[?n := x], n_nr_changed_ns := n_nr_changed_ns c + 1\<rparr>"
        using new un tk big True by (simp add: nvmet_add_to_changed_ns_log_def)
      moreover have "take (Suc ?n) ((n_changed_ns_list c)[?n := x]) = changed_since ns @ [x]"
        using room True len tk by (simp add: take_Suc_conv_app_nth)
      ultimately show ?thesis
        using new room True len nr by (simp add: changed_inv_def changed_since_snoc add.commute)
    qed
  qed
qed

lemma changed_inv_run:
  "changed_inv ns c \<Longrightarrow> changed_inv (ns @ xs) (fold nvmet_add_to_changed_ns_log xs c)"
proof (induction xs arbitrary: ns c)
  case Nil
  then show ?case by simp
next
  case (Cons x xs)
  from Cons.IH [OF changed_inv_add [OF Cons.prems, of x]] show ?case by simp
qed

abbreviation ns_changed_event :: nvmet_async_event where
  "ns_changed_event \<equiv> \<lparr>ae_event_type = 2, ae_event_info = 0, ae_log_page = NVME_LOG_CHANGED_NS\<rparr>"

lemma add_changed_fields [simp]:
  "n_aen_enabled (nvmet_add_to_changed_ns_log x c) = n_aen_enabled c"
  "n_aen_masked (nvmet_add_to_changed_ns_log x c) = n_aen_masked c"
  "n_async_events (nvmet_add_to_changed_ns_log x c) = n_async_events c"
  by (simp_all add: nvmet_add_to_changed_ns_log_def)

lemma ns_changed_ctrl_eq:
  assumes "n_aen_enabled c AND push_bit NVME_AEN_BIT_NS_ATTR 1 \<noteq> 0"
  shows "ns_changed_ctrl alloc x c =
    (let c' = nvmet_add_to_changed_ns_log x c
     in if NVME_AEN_BIT_NS_ATTR \<in> n_aen_masked c then c'
        else c'\<lparr>n_aen_masked := insert NVME_AEN_BIT_NS_ATTR (n_aen_masked c),
                n_async_events := n_async_events c @ (if alloc then [ns_changed_event] else []),
                n_async_work := n_async_work c' \<or> alloc\<rparr>)"
proof -
  let ?d = "nvmet_add_to_changed_ns_log x c"
  have same: "?d\<lparr>n_aen_masked := n_aen_masked c\<rparr> = ?d"
    using add_changed_fields(2) [of x c] by (cases ?d) simp
  have "nvmet_aen_bit_disabled NVME_AEN_BIT_NS_ATTR ?d =
      (NVME_AEN_BIT_NS_ATTR \<in> n_aen_masked c,
       ?d\<lparr>n_aen_masked := insert NVME_AEN_BIT_NS_ATTR (n_aen_masked c)\<rparr>)"
    using assms by (simp add: nvmet_aen_bit_disabled_def)
  with same show ?thesis
    by (auto simp: ns_changed_ctrl_def nvmet_add_async_event_def Let_def insert_absorb)
qed

lemma changed_inv_more:
  "changed_inv ns (c\<lparr>n_aen_masked := m, n_async_events := e, n_async_work := w\<rparr>) = changed_inv ns c"
  by (simp add: changed_inv_def)

text \<open>Changes of namespaces, each with whether an event could be allocated for it.\<close>

abbreviation ns_changes :: "(bool \<times> u32) list \<Rightarrow> nvmet_ctrl \<Rightarrow> nvmet_ctrl" where
  "ns_changes \<equiv> fold (\<lambda>(alloc, nsid). ns_changed_ctrl alloc nsid)"

lemma ns_changed_run:
  assumes "n_aen_enabled c AND push_bit NVME_AEN_BIT_NS_ATTR 1 \<noteq> 0" and "changed_inv ns c"
  shows "let c' = ns_changes xs c in changed_inv (ns @ map snd xs) c' \<and>
    n_async_events c' = n_async_events c @
      (if xs \<noteq> [] \<and> NVME_AEN_BIT_NS_ATTR \<notin> n_aen_masked c \<and> fst (hd xs) then [ns_changed_event] else [])"
  using assms
proof (induction xs arbitrary: ns c)
  case Nil
  then show ?case by simp
next
  case (Cons ax xs)
  obtain alloc x where ax: "ax = (alloc, x)" by (cases ax)
  let ?c = "ns_changed_ctrl alloc x c"
  have inv: "changed_inv (ns @ [x]) ?c"
    using changed_inv_add [OF Cons.prems(2), of x]
    by (simp add: ns_changed_ctrl_eq [OF Cons.prems(1)] Let_def changed_inv_more)
  have en: "n_aen_enabled ?c AND push_bit NVME_AEN_BIT_NS_ATTR 1 \<noteq> 0"
    using Cons.prems(1) by (simp add: ns_changed_ctrl_eq [OF Cons.prems(1)] Let_def)
  have ev: "n_async_events ?c = n_async_events c @
      (if NVME_AEN_BIT_NS_ATTR \<notin> n_aen_masked c \<and> alloc then [ns_changed_event] else [])"
    "NVME_AEN_BIT_NS_ATTR \<in> n_aen_masked ?c"
    by (simp_all add: ns_changed_ctrl_eq [OF Cons.prems(1)] Let_def)
  from Cons.IH [OF en inv] ev show ?case by (simp add: Let_def ax)
qed

lemma concat_le4_length: "length (concat (map (le_bytes 4) xs)) = 4 * length xs"
  by (induction xs) simp_all

lemma changed_inv_page:
  assumes "changed_inv ns c"
  shows "let n = (if n_nr_changed_ns c = U32_MAX then 1 else unat (n_nr_changed_ns c))
    in take n (n_changed_ns_list c) = changed_page ns \<and> n = length (changed_page ns) \<and> n \<le> 1024"
proof (cases "length (changed_since ns) \<le> 1024")
  case True
  let ?n = "length (changed_since ns)"
  have nr: "n_nr_changed_ns c = of_nat ?n" "take ?n (n_changed_ns_list c) = changed_since ns"
    using True assms by (simp_all add: changed_inv_def)
  have un: "unat (n_nr_changed_ns c) = ?n" using True nr(1) by (simp add: unat_of_nat_u32)
  have "n_nr_changed_ns c \<noteq> U32_MAX"
  proof
    assume "n_nr_changed_ns c = U32_MAX"
    then have "unat (n_nr_changed_ns c) = 4294967295" by simp
    with un True show False by simp
  qed
  with un nr True show ?thesis by (simp add: changed_page_def)
next
  case False
  have "length (n_changed_ns_list c) = 1024" using assms by (simp add: changed_inv_def)
  then obtain y ys where "n_changed_ns_list c = y # ys" by (cases "n_changed_ns_list c") auto
  with False assms show ?thesis by (simp add: changed_inv_def changed_page_def)
qed

lemma zero_fill:
  assumes "length (r_sg r) = 4096" and "length data = 4 * n" and "n \<le> 1024"
  shows "nvmet_copy_to_sgl 0 data r = (0, r\<lparr>r_sg := data @ drop (4 * n) (r_sg r)\<rparr>)"
    and "nvmet_zero_sgl (4 * n) (4096 - 4 * n) (r\<lparr>r_sg := data @ drop (4 * n) (r_sg r)\<rparr>) =
      (0, r\<lparr>r_sg := data @ replicate (4096 - 4 * n) 0\<rparr>)"
  using assms by (simp_all add: copy_to_sgl_full nvmet_zero_sgl_def)

text \<open>C27. A host that reads the log of changed namespaces when it is told to misses no change. Between two reads,
  with the event enabled, however many changes are announced with one event; the page then read holds
  the namespaces that changed, each once, in the order of their first change and padded with zeros, or
  the overflow marker if more than 1024 did; and reading it starts over. The exception is an event that
  cannot be allocated: when that happens at the first change, the host is not told, neither of that change
  nor, until it reads the log on its own, of any later one. The read asks for the whole page, and does not
  ask to retain the event.
\<close>

theorem changed_namespaces_reported:
  assumes "n_nr_changed_ns c = 0" and "length (n_changed_ns_list c) = NVME_MAX_CHANGED_NAMESPACES"
    and "n_aen_enabled c AND push_bit NVME_AEN_BIT_NS_ATTR 1 \<noteq> 0" and "NVME_AEN_BIT_NS_ATTR \<notin> n_aen_masked c"
    and "r_data_len r = 4096" and "length (r_sg r) = 4096" and "tc_cdw10 (r_cmd r) AND push_bit 15 1 = 0"
    and "c' = ns_changes changes c" and "nsids = map snd changes"
    and "q' = nvmet_execute_get_log_changed_ns r (q\<lparr>q_ctrl := Some c'\<rparr>)"
  shows "n_async_events c' = n_async_events c @ (if changes \<noteq> [] \<and> fst (hd changes) then [ns_changed_event] else []) \<and>
    q_data (last (q_out q')) = concat (map (le_bytes 4) (changed_page nsids)) @
      replicate (4096 - 4 * length (changed_page nsids)) 0 \<and>
    q_status (last (q_out q')) = r_status r \<and>
    (\<exists>c''. q_ctrl q' = Some c'' \<and> n_nr_changed_ns c'' = 0 \<and>
       length (n_changed_ns_list c'') = NVME_MAX_CHANGED_NAMESPACES \<and> NVME_AEN_BIT_NS_ATTR \<notin> n_aen_masked c'')"
proof -
  have "changed_inv [] c"
    using assms(1,2) by (simp add: changed_inv_def changed_since_def)
  from ns_changed_run [OF assms(3) this, of changes] have inv: "changed_inv nsids c'"
    and ev: "n_async_events c' = n_async_events c @ (if changes \<noteq> [] \<and> fst (hd changes) then [ns_changed_event] else [])"
    using assms(4,8,9) by (simp_all add: Let_def)
  let ?n = "length (changed_page nsids)"
  define m where "m = (if n_nr_changed_ns c' = U32_MAX then 1 else unat (n_nr_changed_ns c'))"
  have "take m (n_changed_ns_list c') = changed_page nsids" and m: "m = ?n" and "m \<le> 1024"
    using changed_inv_page [OF inv] unfolding Let_def m_def by blast+
  then have n: "(if n_nr_changed_ns c' = U32_MAX then 1 else unat (n_nr_changed_ns c')) = ?n"
    "take ?n (n_changed_ns_list c') = changed_page nsids" "?n \<le> 1024"
    by (simp_all only: m_def [symmetric])
  let ?data = "concat (map (le_bytes 4) (changed_page nsids))"
  have len: "length ?data = 4 * ?n" by (rule concat_le4_length)
  have q': "q' = nvmet_req_complete 0 (r\<lparr>r_sg := ?data @ replicate (4096 - 4 * ?n) 0\<rparr>)
      (upd_ctrl (\<lambda>c. nvmet_clear_aen_bit r NVME_AEN_BIT_NS_ATTR (c\<lparr>n_nr_changed_ns := 0\<rparr>)) (q\<lparr>q_ctrl := Some c'\<rparr>))"
    using assms(5) zero_fill [OF assms(6) len n(3)]
    by (simp only: assms(10) nvmet_execute_get_log_changed_ns_def n Let_def)
      (simp add: nvmet_clear_aen_bit_def Let_def n)
  then show ?thesis
    using inv ev assms(7)
    by (simp add: nvmet_req_complete_def Let_def split_beta upd_ctrl_def nvmet_clear_aen_bit_def changed_inv_def)
qed

lemma le_bytes_numeral: "le_bytes (numeral k) w = ucast w # le_bytes (pred_numeral k) (drop_bit 8 w)"
  by (simp add: numeral_eq_Suc)

definition log_req :: nvmet_req where
  "log_req = example_req\<lparr>r_data_len := 4096, r_sg := replicate 4096 0\<rparr>"

lemma log_req_simps [simp]:
  "r_data_len log_req = 4096" "length (r_sg log_req) = 4096" "tc_cdw10 (r_cmd log_req) = 0" "r_status log_req = 0"
  by (simp_all add: log_req_def example_req_def)

theorem changed_namespaces_reported_witness:
  "n_async_events (ns_changes [(True, 3), (False, 5), (True, 3)] (blank_ctrl 10\<lparr>n_aen_enabled := NVME_AEN_CFG_NS_ATTR\<rparr>)) = [ns_changed_event] \<and>
   take 12 (q_data (last (q_out (nvmet_execute_get_log_changed_ns log_req (example_queue
     \<lparr>q_ctrl := Some (ns_changes [(True, 3), (False, 5), (True, 3)] (blank_ctrl 10\<lparr>n_aen_enabled := NVME_AEN_CFG_NS_ATTR\<rparr>))\<rparr>)))))
   = [3, 0, 0, 0, 5, 0, 0, 0, 0, 0, 0, 0]"
proof -
  have p: "changed_page [3, 5, 3] = [3, 5]"
    by (simp add: changed_page_def changed_since_def)
  have r: "take 12 ([3, 0, 0, 0, 5, 0, 0, 0] @ replicate (4096 - 4 * length [3 :: u32, 5]) 0) =
      [3, 0, 0, 0, 5, 0, 0, 0, 0, 0, 0, 0 :: u8]"
    by (simp add: eval_nat_numeral)
  show ?thesis
    using changed_namespaces_reported [OF _ _ _ _ _ _ _ HOL.refl HOL.refl HOL.refl,
        of "blank_ctrl 10\<lparr>n_aen_enabled := NVME_AEN_CFG_NS_ATTR\<rparr>" log_req "[(True, 3), (False, 5), (True, 3)]" example_queue] r
    by (simp only: list.map snd_conv p) (simp add: le_bytes_numeral del: fold_simps)
qed

end
