(* ===== verification/Target_Ns.thy ===== *)
theory Target_Ns
  imports Target_Log
begin

text \<open>
  The namespaces of a subsystem (\<open>target/core.c\<close>, with the opening of their devices in
  \<open>target/io-cmd-bdev.c\<close> and \<open>target/io-cmd-file.c\<close> and their configuration in \<open>target/configfs.c\<close>):
  enabling and disabling them, the sorted list the target keeps of the enabled ones, and the list of
  identifiers a host reads.
\<close>

section \<open>State\<close>

text \<open>A file pointer may also hold an error code, which is not a null pointer.\<close>

datatype file_ptr = File_null | File_open | File_err

record nvmet_ns =
  ns_nsid :: u32
  ns_enabled :: bool
  ns_readonly :: bool
  ns_size :: u64
  ns_blksize_shift :: u32
  ns_anagrpid :: u32
  ns_bdev :: bool              \<comment> \<open>the block device pointer is set\<close>
  ns_file :: file_ptr
  ns_buffered_io :: bool
  ns_use_p2pmem :: bool
  ns_uuid :: "u8 list"
  ns_nguid :: "u8 list"

datatype nqn_type = Nqn_disc | Nqn_nvme

text \<open>Calls into the block layer, the file system, peer-to-peer memory and reference counting.\<close>

datatype ns_call =
    Blkdev_get nat | Blkdev_put nat
  | Filp_open nat | Fput nat file_ptr
  | P2p_add u16 u32 | P2p_del u16 u32
  | Ns_ref_init nat | Ns_ref_drain nat
  | Delete_ctrl u16

text \<open>
  A subsystem. Namespaces are objects with an address: \<open>y_objs\<close> are all of them, \<open>y_namespaces\<close> is the
  list \<open>subsys->namespaces\<close> of enabled ones.
\<close>

record nvmet_subsys =
  y_subsysnqn :: string
  y_type :: nqn_type
  y_ref :: nat
  y_objs :: "nat \<rightharpoonup> nvmet_ns"
  y_namespaces :: "nat list"
  y_nr_namespaces :: u32
  y_max_nsid :: u32
  y_ctrls :: "nvmet_ctrl list"
  y_hosts :: "string list"
  y_allow_any_host :: bool
  y_max_qid :: u16
  y_ver :: u64
  y_serial :: u64
  y_calls :: "ns_call list"

text \<open>The counters of namespaces per ANA group, shared by all subsystems.\<close>

record nvmet_ana =
  a_group_enabled :: "u32 \<Rightarrow> u32"
  a_chgcnt :: u64

abbreviation (input) NVMET_MAX_NAMESPACES :: nat where "NVMET_MAX_NAMESPACES \<equiv> 1024"
abbreviation (input) NVMET_DEFAULT_ANA_GRPID :: u32 where "NVMET_DEFAULT_ANA_GRPID \<equiv> 1"
abbreviation (input) EMFILE :: int where "EMFILE \<equiv> 24"
abbreviation (input) ENOTBLK :: int where "ENOTBLK \<equiv> 15"

text \<open>What the block layer, the file system and the allocators answer when a namespace is enabled.\<close>

record ns_env =
  ne_bdev :: int                \<comment> \<open>\<open>blkdev_get_by_path\<close>\<close>
  ne_bdev_size :: u64
  ne_bdev_bits :: u32
  ne_filp :: int                \<comment> \<open>\<open>filp_open\<close>\<close>
  ne_getattr :: int
  ne_file_size :: u64
  ne_file_bits :: u8
  ne_cache :: bool
  ne_pool :: bool
  ne_p2p :: int                 \<comment> \<open>peer-to-peer memory for the device, if asked for\<close>
  ne_ref :: int                 \<comment> \<open>\<open>percpu_ref_init\<close>\<close>
  ne_event :: "nat \<Rightarrow> bool"     \<comment> \<open>allocation of the event for the \<open>i\<close>-th controller\<close>

definition ycall :: "ns_call list \<Rightarrow> nvmet_subsys \<Rightarrow> nvmet_subsys" where
  "ycall ks y = y\<lparr>y_calls := y_calls y @ ks\<rparr>"

definition ns_at :: "nvmet_subsys \<Rightarrow> nat \<Rightarrow> nvmet_ns" where
  "ns_at y a = the (y_objs y a)"

definition set_ns :: "nat \<Rightarrow> nvmet_ns \<Rightarrow> nvmet_subsys \<Rightarrow> nvmet_subsys" where
  "set_ns a ns y = y\<lparr>y_objs := (y_objs y)(a \<mapsto> ns)\<rparr>"

definition nsid_at :: "nvmet_subsys \<Rightarrow> nat \<Rightarrow> u32" where
  "nsid_at y a = ns_nsid (ns_at y a)"

section \<open>Devices\<close>

definition nvmet_bdev_ns_enable :: "ns_env \<Rightarrow> nvmet_ns \<Rightarrow> int \<times> nvmet_ns" where
  "nvmet_bdev_ns_enable e ns =
     (if ne_bdev e \<noteq> 0 then (ne_bdev e, ns\<lparr>ns_bdev := False\<rparr>)
      else (0, ns\<lparr>ns_bdev := True, ns_size := ne_bdev_size e, ns_blksize_shift := ne_bdev_bits e\<rparr>))"

definition nvmet_bdev_ns_disable :: "nat \<Rightarrow> nvmet_subsys \<Rightarrow> nvmet_subsys" where
  "nvmet_bdev_ns_disable a y =
     (if ns_bdev (ns_at y a) then set_ns a ((ns_at y a)\<lparr>ns_bdev := False\<rparr>) (ycall [Blkdev_put a] y) else y)"

definition nvmet_file_ns_disable :: "nat \<Rightarrow> nvmet_subsys \<Rightarrow> nvmet_subsys" where
  "nvmet_file_ns_disable a y =
     (if ns_file (ns_at y a) \<noteq> File_null
      then set_ns a ((ns_at y a)\<lparr>ns_file := File_null\<rparr>) (ycall [Fput a (ns_file (ns_at y a))] y) else y)"

definition nvmet_file_ns_enable :: "ns_env \<Rightarrow> nat \<Rightarrow> nvmet_subsys \<Rightarrow> int \<times> nvmet_subsys" where
  "nvmet_file_ns_enable e a y =
     (let err = (\<lambda>y. nvmet_file_ns_disable a (set_ns a ((ns_at y a)\<lparr>ns_size := 0, ns_blksize_shift := 0\<rparr>) y))
      in if ne_filp e \<noteq> 0 then (ne_filp e, set_ns a ((ns_at y a)\<lparr>ns_file := File_err\<rparr>) y)
      else
        let y = set_ns a ((ns_at y a)\<lparr>ns_file := File_open\<rparr>) (ycall [Filp_open a] y)
        in if ne_getattr e \<noteq> 0 then (ne_getattr e, err y)
           else
             let y = set_ns a ((ns_at y a)\<lparr>ns_size := ne_file_size e,
                       ns_blksize_shift := ucast (min (ne_file_bits e) 12)\<rparr>) y
             in if \<not> ne_cache e then (- ENOMEM, err y)
                else if \<not> ne_pool e then (- ENOMEM, err y)
                else (0, y))"

definition nvmet_ns_dev_disable :: "nat \<Rightarrow> nvmet_subsys \<Rightarrow> nvmet_subsys" where
  "nvmet_ns_dev_disable a y = nvmet_file_ns_disable a (nvmet_bdev_ns_disable a y)"

section \<open>Announcing changes\<close>

definition nvmet_ns_changed :: "(nat \<Rightarrow> bool) \<Rightarrow> u32 \<Rightarrow> nvmet_subsys \<Rightarrow> nvmet_subsys" where
  "nvmet_ns_changed alloc nsid y =
     y\<lparr>y_ctrls := map (\<lambda>(i, c). ns_changed_ctrl (alloc i) nsid c) (enumerate 0 (y_ctrls y))\<rparr>"

text \<open>\<open>on_port\<close> is the test against the port, if one is given.\<close>

definition nvmet_send_ana_event :: "(nat \<Rightarrow> bool) \<Rightarrow> (nvmet_ctrl \<Rightarrow> bool) \<Rightarrow> nvmet_subsys \<Rightarrow> nvmet_subsys" where
  "nvmet_send_ana_event alloc on_port y =
     y\<lparr>y_ctrls := map (\<lambda>(i, c). if on_port c then ana_event_ctrl (alloc i) c else c) (enumerate 0 (y_ctrls y))\<rparr>"

section \<open>Namespaces\<close>

definition nvmet_max_nsid :: "nvmet_subsys \<Rightarrow> u32" where
  "nvmet_max_nsid y = (if y_namespaces y = [] then 0 else nsid_at y (last (y_namespaces y)))"

definition find_ns :: "nvmet_subsys \<Rightarrow> u32 \<Rightarrow> nat option" where
  "find_ns y nsid = find (\<lambda>a. nsid_at y a = nsid) (y_namespaces y)"

text \<open>The place in the sorted list; \<open>None\<close> is the kernel's \<open>BUG_ON\<close>.\<close>

fun ns_insert :: "(nat \<Rightarrow> u32) \<Rightarrow> nat \<Rightarrow> nat list \<Rightarrow> nat list option" where
  "ns_insert f a [] = Some [a]"
| "ns_insert f a (b # bs) =
     (if f a = f b then None
      else if f a < f b then Some (a # b # bs)
      else map_option (Cons b) (ns_insert f a bs))"

definition p2p_calls :: "(u16 \<Rightarrow> u32 \<Rightarrow> ns_call) \<Rightarrow> u32 \<Rightarrow> nvmet_subsys \<Rightarrow> ns_call list" where
  "p2p_calls f nsid y = map (\<lambda>c. f (n_cntlid c) nsid) (y_ctrls y)"

text \<open>Opening the device: as a block device, or else as a file.\<close>

definition ns_open_device :: "ns_env \<Rightarrow> nat \<Rightarrow> nvmet_subsys \<Rightarrow> int \<times> nvmet_subsys" where
  "ns_open_device e a y =
     (let (ret, ns) = nvmet_bdev_ns_enable e (ns_at y a);
          y = set_ns a ns (if ret = 0 then ycall [Blkdev_get a] y else y)
      in if ret = - ENOTBLK then nvmet_file_ns_enable e a y else (ret, y))"

definition nvmet_ns_enable :: "ns_env \<Rightarrow> nat \<Rightarrow> nvmet_subsys \<Rightarrow> (int \<times> nvmet_subsys) option" where
  "nvmet_ns_enable e a y =
     (if ns_enabled (ns_at y a) then Some (0, y)
      else if y_nr_namespaces y = of_nat NVMET_MAX_NAMESPACES then Some (- EMFILE, y)
      else
        let (ret, y) = ns_open_device e a y
        in if ret \<noteq> 0 then Some (ret, y)
        else if ns_use_p2pmem (ns_at y a) \<and> ne_p2p e \<noteq> 0 then Some (ne_p2p e, nvmet_ns_dev_disable a y)
        else
          let nsid = nsid_at y a;
              y = ycall (p2p_calls P2p_add nsid y) y
          in if ne_ref e \<noteq> 0
             then Some (ne_ref e, nvmet_ns_dev_disable a (ycall (p2p_calls P2p_del nsid y) y))
             else
               let y = ycall [Ns_ref_init a] y;
                   y = (if y_max_nsid y < nsid then y\<lparr>y_max_nsid := nsid\<rparr> else y)
               in case ns_insert (nsid_at y) a (y_namespaces y) of
                    None \<Rightarrow> None
                  | Some l \<Rightarrow>
                      let y = y\<lparr>y_namespaces := l, y_nr_namespaces := y_nr_namespaces y + 1\<rparr>;
                          y = nvmet_ns_changed (ne_event e) nsid y
                      in Some (0, set_ns a ((ns_at y a)\<lparr>ns_enabled := True\<rparr>) y))"

text \<open>
  Disabling releases the subsystem's lock while it waits for the namespace's users: the two halves are
  separate steps, \<open>False\<close> of the first means there was nothing to do.
\<close>

definition ns_disable_begin :: "nat \<Rightarrow> nvmet_subsys \<Rightarrow> bool \<times> nvmet_subsys" where
  "ns_disable_begin a y =
     (if \<not> ns_enabled (ns_at y a) then (False, y)
      else
        let y = set_ns a ((ns_at y a)\<lparr>ns_enabled := False\<rparr>) y;
            y = y\<lparr>y_namespaces := removeAll a (y_namespaces y)\<rparr>;
            y = (if nsid_at y a = y_max_nsid y then y\<lparr>y_max_nsid := nvmet_max_nsid y\<rparr> else y)
        in (True, ycall (p2p_calls P2p_del (nsid_at y a) y) y))"

definition ns_disable_end :: "(nat \<Rightarrow> bool) \<Rightarrow> nat \<Rightarrow> nvmet_subsys \<Rightarrow> nvmet_subsys" where
  "ns_disable_end alloc a y =
     (let y = ycall [Ns_ref_drain a] y;
          y = y\<lparr>y_nr_namespaces := y_nr_namespaces y - 1\<rparr>;
          y = nvmet_ns_changed alloc (nsid_at y a) y
      in nvmet_ns_dev_disable a y)"

definition nvmet_ns_disable :: "(nat \<Rightarrow> bool) \<Rightarrow> nat \<Rightarrow> nvmet_subsys \<Rightarrow> nvmet_subsys" where
  "nvmet_ns_disable alloc a y =
     (let (more, y) = ns_disable_begin a y in if more then ns_disable_end alloc a y else y)"

definition nvmet_ns_alloc :: "nat \<Rightarrow> u8 list \<Rightarrow> u32 \<Rightarrow> nvmet_ana \<times> nvmet_subsys \<Rightarrow> nvmet_ana \<times> nvmet_subsys" where
  "nvmet_ns_alloc a uuid nsid gy =
     (let (g, y) = gy;
          ns = \<lparr>ns_nsid = nsid, ns_enabled = False, ns_readonly = False, ns_size = 0, ns_blksize_shift = 0,
                ns_anagrpid = NVMET_DEFAULT_ANA_GRPID, ns_bdev = False, ns_file = File_null,
                ns_buffered_io = False, ns_use_p2pmem = False, ns_uuid = uuid, ns_nguid = replicate 16 0\<rparr>;
          grp = ns_anagrpid ns
      in (g\<lparr>a_group_enabled := (a_group_enabled g)(grp := a_group_enabled g grp + 1)\<rparr>, set_ns a ns y))"

definition nvmet_ns_free :: "(nat \<Rightarrow> bool) \<Rightarrow> nat \<Rightarrow> nvmet_ana \<times> nvmet_subsys \<Rightarrow> nvmet_ana \<times> nvmet_subsys" where
  "nvmet_ns_free alloc a gy =
     (let (g, y) = gy;
          y = nvmet_ns_disable alloc a y;
          grp = ns_anagrpid (ns_at y a)
      in (g\<lparr>a_group_enabled := (a_group_enabled g)(grp := a_group_enabled g grp - 1)\<rparr>,
          y\<lparr>y_objs := (y_objs y)(a := None)\<rparr>))"

text \<open>The configuration directories: a number for a new namespace, a group for an existing one.\<close>

definition nvmet_ns_make :: "bool \<Rightarrow> nat \<Rightarrow> u8 list \<Rightarrow> int \<times> u32 \<Rightarrow> nvmet_ana \<times> nvmet_subsys \<Rightarrow>
    int \<times> nvmet_ana \<times> nvmet_subsys" where
  "nvmet_ns_make alloc a uuid parsed gy =
     (if fst parsed \<noteq> 0 then (fst parsed, gy)
      else if snd parsed = 0 \<or> snd parsed = NVME_NSID_ALL then (- EINVAL, gy)
      else if \<not> alloc then (- ENOMEM, gy)
      else (0, nvmet_ns_alloc a uuid (snd parsed) gy))"

abbreviation (input) NVMET_MAX_ANAGRPS :: u32 where "NVMET_MAX_ANAGRPS \<equiv> 128"

definition nvmet_ns_ana_grpid_store :: "(nat \<Rightarrow> bool) \<Rightarrow> nat \<Rightarrow> int \<times> u32 \<Rightarrow> nvmet_ana \<times> nvmet_subsys \<Rightarrow>
    int \<times> nvmet_ana \<times> nvmet_subsys" where
  "nvmet_ns_ana_grpid_store alloc a parsed gy =
     (let (g, y) = gy;
          newgrpid = snd parsed
      in if fst parsed \<noteq> 0 then (fst parsed, gy)
      else if newgrpid < 1 \<or> NVMET_MAX_ANAGRPS < newgrpid then (- EINVAL, gy)
      else
        let oldgrpid = ns_anagrpid (ns_at y a);
            g = g\<lparr>a_group_enabled := (a_group_enabled g)(newgrpid := a_group_enabled g newgrpid + 1)\<rparr>;
            y = set_ns a ((ns_at y a)\<lparr>ns_anagrpid := newgrpid\<rparr>) y;
            g = g\<lparr>a_group_enabled := (a_group_enabled g)(oldgrpid := a_group_enabled g oldgrpid - 1)\<rparr>;
            g = g\<lparr>a_chgcnt := a_chgcnt g + 1\<rparr>
        in (0, g, nvmet_send_ana_event alloc (\<lambda>c. True) y))"

section \<open>The list of active namespaces\<close>

text \<open>The identifiers above \<open>min_nsid\<close> in list order, at most as many as the page holds.\<close>

fun nslist_loop :: "nvmet_subsys \<Rightarrow> u32 \<Rightarrow> nat list \<Rightarrow> nat \<Rightarrow> u32 list \<Rightarrow> u32 list" where
  "nslist_loop y min_nsid [] i l = l"
| "nslist_loop y min_nsid (a # as) i l =
     (if nsid_at y a \<le> min_nsid then nslist_loop y min_nsid as i l
      else
        let l = l[i := nsid_at y a]; i = i + 1
        in if i = NVME_IDENTIFY_DATA_SIZE div 4 then l else nslist_loop y min_nsid as i l)"

definition nslist_page :: "nvmet_subsys \<Rightarrow> u32 \<Rightarrow> u32 list" where
  "nslist_page y min_nsid =
     nslist_loop y min_nsid (y_namespaces y) 0 (replicate (NVME_IDENTIFY_DATA_SIZE div 4) 0)"

definition nvmet_execute_identify_nslist :: "bool \<Rightarrow> nvmet_subsys \<Rightarrow> nvmet_req \<Rightarrow> nvmet_queue \<Rightarrow> nvmet_queue" where
  "nvmet_execute_identify_nslist alloc y r q =
     (if \<not> alloc then nvmet_req_complete NVME_SC_INTERNAL r q
      else
        let list = nslist_page y (tc_nsid (r_cmd r));
            (status, r) = nvmet_copy_to_sgl 0 (concat (map (le_bytes 4) list)) r
        in nvmet_req_complete status r q)"

section \<open>What the steps leave alone\<close>

text \<open>\<open>only_device a y y'\<close>: the two differ at most in the device of the namespace at \<open>a\<close>, the calls made and the controllers.\<close>

definition only_device :: "nat \<Rightarrow> nvmet_subsys \<Rightarrow> nvmet_subsys \<Rightarrow> bool" where
  "only_device a y y' \<longleftrightarrow> y_namespaces y' = y_namespaces y \<and> y_nr_namespaces y' = y_nr_namespaces y \<and>
     y_max_nsid y' = y_max_nsid y \<and> (\<forall>b. b \<noteq> a \<longrightarrow> y_objs y' b = y_objs y b) \<and>
     y_objs y a \<noteq> None \<and> y_objs y' a \<noteq> None \<and> nsid_at y' a = nsid_at y a \<and> ns_enabled (ns_at y' a) = ns_enabled (ns_at y a)"

lemma only_device_refl: "y_objs y a \<noteq> None \<Longrightarrow> only_device a y y"
  by (simp add: only_device_def)

lemma only_device_trans: "only_device a y y' \<Longrightarrow> only_device a y' y'' \<Longrightarrow> only_device a y y''"
  by (simp add: only_device_def)

lemma only_device_nsid: "only_device a y y' \<Longrightarrow> nsid_at y' b = nsid_at y b"
  by (cases "b = a") (simp_all add: only_device_def nsid_at_def ns_at_def)

lemma ns_at_set_ns [simp]: "ns_at (set_ns a ns y) b = (if a = b then ns else ns_at y b)"
  by (simp add: ns_at_def set_ns_def)

lemma set_ns_fields [simp]:
  "y_namespaces (set_ns a ns y) = y_namespaces y" "y_nr_namespaces (set_ns a ns y) = y_nr_namespaces y"
  "y_max_nsid (set_ns a ns y) = y_max_nsid y" "y_ctrls (set_ns a ns y) = y_ctrls y"
  "y_objs (set_ns a ns y) = (y_objs y)(a \<mapsto> ns)" "y_subsysnqn (set_ns a ns y) = y_subsysnqn y"
  by (simp_all add: set_ns_def)

lemma ycall_fields [simp]:
  "y_namespaces (ycall ks y) = y_namespaces y" "y_nr_namespaces (ycall ks y) = y_nr_namespaces y"
  "y_max_nsid (ycall ks y) = y_max_nsid y" "y_ctrls (ycall ks y) = y_ctrls y" "y_objs (ycall ks y) = y_objs y"
  "ns_at (ycall ks y) a = ns_at y a" "nsid_at (ycall ks y) a = nsid_at y a"
  by (simp_all add: ycall_def ns_at_def nsid_at_def)

lemma ns_changed_fields [simp]:
  "y_namespaces (nvmet_ns_changed f n y) = y_namespaces y" "y_nr_namespaces (nvmet_ns_changed f n y) = y_nr_namespaces y"
  "y_max_nsid (nvmet_ns_changed f n y) = y_max_nsid y" "y_objs (nvmet_ns_changed f n y) = y_objs y"
  "ns_at (nvmet_ns_changed f n y) a = ns_at y a" "nsid_at (nvmet_ns_changed f n y) a = nsid_at y a"
  by (simp_all add: nvmet_ns_changed_def ns_at_def nsid_at_def)

lemma only_device_set:
  "y_objs y a \<noteq> None \<Longrightarrow> ns_nsid ns = nsid_at y a \<Longrightarrow> ns_enabled ns = ns_enabled (ns_at y a) \<Longrightarrow>
   only_device a y (set_ns a ns y)"
  by (simp add: only_device_def nsid_at_def)

lemma only_device_call [simp]: "only_device a y (ycall ks y') = only_device a y y'"
  by (simp add: only_device_def)

lemma only_device_set_back:
  "only_device a y y' \<Longrightarrow> ns_nsid ns = ns_nsid (ns_at y' a) \<Longrightarrow> ns_enabled ns = ns_enabled (ns_at y' a) \<Longrightarrow>
   only_device a y (set_ns a ns y')"
  by (auto simp: only_device_def nsid_at_def)

lemma file_disable_device: "only_device a y y' \<Longrightarrow> only_device a y (nvmet_file_ns_disable a y')"
  by (simp add: nvmet_file_ns_disable_def only_device_set_back)

lemma bdev_disable_device: "only_device a y y' \<Longrightarrow> only_device a y (nvmet_bdev_ns_disable a y')"
  by (simp add: nvmet_bdev_ns_disable_def only_device_set_back)

lemma dev_disable_device: "only_device a y y' \<Longrightarrow> only_device a y (nvmet_ns_dev_disable a y')"
  by (simp add: nvmet_ns_dev_disable_def file_disable_device bdev_disable_device)

lemma file_enable_device: "only_device a y y' \<Longrightarrow> only_device a y (snd (nvmet_file_ns_enable e a y'))"
  by (auto simp: nvmet_file_ns_enable_def Let_def intro!: only_device_set_back file_disable_device)

text \<open>Which devices are open afterwards.\<close>

lemma dev_disable_closed:
  "\<not> ns_bdev (ns_at (nvmet_ns_dev_disable a y) a)" "ns_file (ns_at (nvmet_ns_dev_disable a y) a) = File_null"
  by (simp_all add: nvmet_ns_dev_disable_def nvmet_bdev_ns_disable_def nvmet_file_ns_disable_def)

lemma file_enable_open:
  "ns_bdev (ns_at (snd (nvmet_file_ns_enable e a y)) a) = ns_bdev (ns_at y a)"
  "fst (nvmet_file_ns_enable e a y) = 0 \<longleftrightarrow> ns_file (ns_at (snd (nvmet_file_ns_enable e a y)) a) = File_open"
  by (auto simp: nvmet_file_ns_enable_def nvmet_file_ns_disable_def Let_def)

section \<open>The sorted list\<close>

lemma ns_insert_none:
  "sorted_wrt (<) (map f l) \<Longrightarrow> ns_insert f a l = None \<longleftrightarrow> f a \<in> f ` set l"
  by (induction l) (auto split: if_splits)

lemma ns_insert_some:
  "ns_insert f a l = Some l' \<Longrightarrow> sorted_wrt (<) (map f l) \<Longrightarrow>
   set l' = insert a (set l) \<and> sorted_wrt (<) (map f l') \<and> length l' = Suc (length l) \<and>
   f (last l') = (if l = [] \<or> f (last l) < f a then f a else f (last l))"
proof (induction l arbitrary: l')
  case Nil
  then show ?case by auto
next
  case (Cons b bs)
  show ?case
  proof (cases "f a < f b")
    case True
    have "f b \<le> f (last (b # bs))" using Cons.prems(2) by (cases bs rule: rev_cases) (auto simp: less_imp_le)
    moreover have "\<forall>x \<in> set bs. f a < f x"
    proof
      fix x assume "x \<in> set bs"
      with Cons.prems(2) have "f b < f x" by simp
      with True show "f a < f x" by simp
    qed
    ultimately show ?thesis using True Cons.prems by (auto split: if_splits)
  next
    case False
    with Cons.prems obtain bs' where bs': "ns_insert f a bs = Some bs'" "l' = b # bs'" and ne: "f a \<noteq> f b"
      by (auto split: if_splits)
    with Cons.IH [OF bs'(1)] Cons.prems have ih: "set bs' = insert a (set bs)" "sorted_wrt (<) (map f bs')"
        "length bs' = Suc (length bs)" "f (last bs') = (if bs = [] \<or> f (last bs) < f a then f a else f (last bs))"
      by auto
    have "bs' \<noteq> []" using ih(3) by auto
    with ih bs' False ne Cons.prems show ?thesis by auto
  qed
qed

section \<open>A subsystem's namespaces\<close>

definition ns_device_ok :: "nvmet_ns \<Rightarrow> bool" where
  "ns_device_ok ns \<longleftrightarrow> (if ns_enabled ns then ns_bdev ns \<or> ns_file ns = File_open
                      else \<not> ns_bdev ns \<and> ns_file ns \<noteq> File_open)"

definition subsys_ok :: "nvmet_subsys \<Rightarrow> bool" where
  "subsys_ok y \<longleftrightarrow> sorted_wrt (<) (map (nsid_at y) (y_namespaces y)) \<and>
     (\<forall>a. a \<in> set (y_namespaces y) \<longleftrightarrow> y_objs y a \<noteq> None \<and> ns_enabled (ns_at y a)) \<and>
     y_nr_namespaces y = of_nat (length (y_namespaces y)) \<and> length (y_namespaces y) \<le> NVMET_MAX_NAMESPACES \<and>
     y_max_nsid y = nvmet_max_nsid y \<and>
     (\<forall>a. y_objs y a \<noteq> None \<longrightarrow> ns_device_ok (ns_at y a))"

text \<open>As long as no device is opened under an enabled namespace, only the device and the controllers change.\<close>

lemma only_device_ok:
  assumes "subsys_ok y" and "only_device a y y'" and "ns_device_ok (ns_at y' a)"
  shows "subsys_ok y'"
proof -
  have same: "y_namespaces y' = y_namespaces y" "y_nr_namespaces y' = y_nr_namespaces y" "y_max_nsid y' = y_max_nsid y"
    using assms(2) by (simp_all add: only_device_def)
  have nsid: "nsid_at y' = nsid_at y"
    using only_device_nsid [OF assms(2)] by auto
  have objs: "ns_at y' b = ns_at y b \<and> (y_objs y' b \<noteq> None \<longleftrightarrow> y_objs y b \<noteq> None)" if "b \<noteq> a" for b
    using assms(2) that by (simp add: only_device_def ns_at_def)
  have ya: "y_objs y a \<noteq> None" "y_objs y' a \<noteq> None" "ns_enabled (ns_at y' a) = ns_enabled (ns_at y a)"
    using assms(2) by (auto simp: only_device_def)
  have max: "nvmet_max_nsid y' = nvmet_max_nsid y"
    by (simp add: nvmet_max_nsid_def same nsid)
  show ?thesis
    unfolding subsys_ok_def same nsid max
  proof (intro conjI allI impI)
    fix b
    show "b \<in> set (y_namespaces y) \<longleftrightarrow> y_objs y' b \<noteq> None \<and> ns_enabled (ns_at y' b)"
      using assms(1) objs [of b] ya by (cases "b = a") (auto simp: subsys_ok_def)
    assume "y_objs y' b \<noteq> None"
    then show "ns_device_ok (ns_at y' b)"
      using assms(1,3) objs [of b] by (cases "b = a") (auto simp: subsys_ok_def)
  qed (use assms(1) in \<open>simp_all add: subsys_ok_def\<close>)
qed

lemma unat_u32_of_nat_1024: "n \<le> 1024 \<Longrightarrow> (of_nat n = (1024 :: u32)) = (n = 1024)"
proof
  assume n: "n \<le> 1024" and "of_nat n = (1024 :: u32)"
  then have "unat (of_nat n :: u32) = unat (1024 :: u32)" by simp
  with n show "n = 1024" by (simp add: unat_of_nat_u32)
qed simp

lemma last_in_sorted:
  "sorted_wrt (<) (map f l) \<Longrightarrow> b \<in> set l \<Longrightarrow> f b \<le> (f (last l) :: u32)"
  by (induction l) (auto simp: less_imp_le)

text \<open>The end of a successful enabling.\<close>

lemma enable_insert_ok:
  assumes ok: "subsys_ok y" and a: "y_objs y a \<noteq> None" "\<not> ns_enabled (ns_at y a)"
    and room: "length (y_namespaces y) < NVMET_MAX_NAMESPACES" and dev: "only_device a y y1"
    and open1: "ns_bdev (ns_at y1 a) \<or> ns_file (ns_at y1 a) = File_open"
    and l: "ns_insert (nsid_at y) a (y_namespaces y) = Some l"
    and y2: "y_namespaces y2 = l" "y_nr_namespaces y2 = y_nr_namespaces y + 1" "y_objs y2 = y_objs y1"
      "y_max_nsid y2 = (if y_max_nsid y < nsid_at y a then nsid_at y a else y_max_nsid y)"
  shows "subsys_ok (set_ns a ((ns_at y1 a)\<lparr>ns_enabled := True\<rparr>) y2)"
proof -
  let ?y = "set_ns a ((ns_at y1 a)\<lparr>ns_enabled := True\<rparr>) y2"
  have srt: "sorted_wrt (<) (map (nsid_at y) (y_namespaces y))" and len: "y_nr_namespaces y = of_nat (length (y_namespaces y))"
    and mx: "y_max_nsid y = nvmet_max_nsid y"
    and mem: "\<And>b. b \<in> set (y_namespaces y) \<longleftrightarrow> y_objs y b \<noteq> None \<and> ns_enabled (ns_at y b)"
    and devs: "\<And>b. y_objs y b \<noteq> None \<Longrightarrow> ns_device_ok (ns_at y b)"
    using ok by (simp_all add: subsys_ok_def)
  note ins = ns_insert_some [OF l srt]
  have nsid: "nsid_at ?y = nsid_at y"
  proof
    fix b
    show "nsid_at ?y b = nsid_at y b"
      using only_device_nsid [OF dev, of b] y2(3) by (cases "b = a") (simp_all add: nsid_at_def ns_at_def)
  qed
  have other: "ns_at ?y b = ns_at y b \<and> (y_objs ?y b \<noteq> None \<longleftrightarrow> y_objs y b \<noteq> None)" if "b \<noteq> a" for b
    using dev y2(3) that by (simp add: only_device_def ns_at_def)
  have self: "y_objs ?y a \<noteq> None" "ns_enabled (ns_at ?y a)" "ns_device_ok (ns_at ?y a)"
    using open1 by (simp_all add: ns_device_ok_def)
  have lne: "l \<noteq> []" using ins by auto
  have max: "nvmet_max_nsid ?y = y_max_nsid ?y"
  proof (cases "y_namespaces y = []")
    case True
    with ins lne mx y2 show ?thesis
      by (auto simp: nvmet_max_nsid_def nsid [simplified] word_gt_0)
  next
    case False
    with ins lne mx y2 show ?thesis
      by (simp add: nvmet_max_nsid_def nsid [simplified])
  qed
  show ?thesis
    unfolding subsys_ok_def nsid
  proof (intro conjI allI impI)
    show "sorted_wrt (<) (map (nsid_at y) (y_namespaces ?y))" using ins y2 by simp
    show "y_nr_namespaces ?y = of_nat (length (y_namespaces ?y))" using ins y2 len by simp
    show "length (y_namespaces ?y) \<le> NVMET_MAX_NAMESPACES" using ins y2 room by simp
    show "y_max_nsid ?y = nvmet_max_nsid ?y" using max by simp
    fix b
    show "b \<in> set (y_namespaces ?y) \<longleftrightarrow> y_objs ?y b \<noteq> None \<and> ns_enabled (ns_at ?y b)"
      using mem [of b] other [of b] self ins y2(1) by (cases "b = a") auto
    assume "y_objs ?y b \<noteq> None"
    then show "ns_device_ok (ns_at ?y b)"
      using devs [of b] other [of b] self by (cases "b = a") auto
  qed
qed

lemma ns_at_updates [simp]:
  "ns_at (y\<lparr>y_max_nsid := m\<rparr>) = ns_at y" "ns_at (y\<lparr>y_namespaces := l\<rparr>) = ns_at y"
  "ns_at (y\<lparr>y_nr_namespaces := n\<rparr>) = ns_at y" "ns_at (ycall ks y) = ns_at y"
  "ns_at (nvmet_ns_changed f nsid y) = ns_at y"
  "nsid_at (y\<lparr>y_max_nsid := m\<rparr>) = nsid_at y" "nsid_at (y\<lparr>y_namespaces := l\<rparr>) = nsid_at y"
  "nsid_at (y\<lparr>y_nr_namespaces := n\<rparr>) = nsid_at y" "nsid_at (ycall ks y) = nsid_at y"
  "nsid_at (nvmet_ns_changed f nsid y) = nsid_at y"
  by (auto simp: ns_at_def nsid_at_def)

lemma open_device_frame:
  assumes "y_objs y a \<noteq> None"
  shows "only_device a y (snd (ns_open_device e a y))"
proof -
  let ?ns = "snd (nvmet_bdev_ns_enable e (ns_at y a))"
  have "only_device a y (set_ns a ?ns (if fst (nvmet_bdev_ns_enable e (ns_at y a)) = 0 then ycall [Blkdev_get a] y else y))"
    using only_device_refl [OF assms]
    by (auto simp: nvmet_bdev_ns_enable_def intro!: only_device_set_back)
  then show ?thesis
    by (auto simp: ns_open_device_def split_beta Let_def intro: file_enable_device)
qed

lemma open_device_result:
  assumes "\<not> ns_bdev (ns_at y a)" and "ns_file (ns_at y a) \<noteq> File_open"
  shows "fst (ns_open_device e a y) = 0 \<Longrightarrow>
      ns_bdev (ns_at (snd (ns_open_device e a y)) a) \<or> ns_file (ns_at (snd (ns_open_device e a y)) a) = File_open"
    and "fst (ns_open_device e a y) \<noteq> 0 \<Longrightarrow>
      \<not> ns_bdev (ns_at (snd (ns_open_device e a y)) a) \<and> ns_file (ns_at (snd (ns_open_device e a y)) a) \<noteq> File_open"
  using assms file_enable_open
  by (auto simp: ns_open_device_def nvmet_bdev_ns_enable_def split_beta Let_def split: if_splits)

lemma closed_device_ok:
  assumes "subsys_ok y" and "only_device a y y'" and "\<not> ns_enabled (ns_at y a)"
    and "\<not> ns_bdev (ns_at y' a)" and "ns_file (ns_at y' a) \<noteq> File_open"
  shows "subsys_ok y'"
  using assms by (auto intro!: only_device_ok [OF assms(1,2)] simp: ns_device_ok_def only_device_def)

lemma ycall_ycall: "ycall ks (ycall js y) = ycall (js @ ks) y"
  by (simp add: ycall_def)

lemma ycall_nil [simp]: "ycall [] y = y"
  by (simp add: ycall_def)

definition same_ids :: "nvmet_subsys \<Rightarrow> nvmet_subsys \<Rightarrow> bool" where
  "same_ids y y' \<longleftrightarrow> (\<forall>b. (y_objs y' b \<noteq> None \<longleftrightarrow> y_objs y b \<noteq> None) \<and> nsid_at y' b = nsid_at y b)"

lemma only_device_ids: "only_device a y y' \<Longrightarrow> same_ids y y'"
  using only_device_nsid [of a y y'] by (auto simp: same_ids_def only_device_def) metis+

text \<open>Enabling: without a second enabled namespace of the same number it always succeeds or changes nothing that counts.\<close>

lemma ns_enable_none:
  assumes ok: "subsys_ok y" and a: "y_objs y a \<noteq> None" and none: "nvmet_ns_enable e a y = None"
  shows "\<exists>b \<in> set (y_namespaces y). b \<noteq> a \<and> nsid_at y b = nsid_at y a"
proof -
  obtain ret y1 where op: "ns_open_device e a y = (ret, y1)" by fastforce
  have fr: "only_device a y y1" using open_device_frame [OF a, of e] op by simp
  have y1: "nsid_at y1 = nsid_at y" "y_namespaces y1 = y_namespaces y"
    using only_device_nsid [OF fr] fr by (auto simp: only_device_def)
  have "ns_insert (nsid_at y) a (y_namespaces y) = None" "\<not> ns_enabled (ns_at y a)"
    using none op by (auto simp: nvmet_ns_enable_def y1 Let_def split: if_splits option.splits)
  moreover have "sorted_wrt (<) (map (nsid_at y) (y_namespaces y))"
    "\<forall>b. b \<in> set (y_namespaces y) \<longleftrightarrow> y_objs y b \<noteq> None \<and> ns_enabled (ns_at y b)"
    using ok by (simp_all add: subsys_ok_def)
  ultimately show ?thesis using ns_insert_none [of "nsid_at y" "y_namespaces y" a] by (metis imageE)
qed

lemma ns_enable_ok:
  assumes ok: "subsys_ok y" and a: "y_objs y a \<noteq> None"
    and runs: "nvmet_ns_enable e a y \<noteq> None"
  shows "\<exists>ret y'. nvmet_ns_enable e a y = Some (ret, y') \<and> subsys_ok y' \<and> same_ids y y' \<and>
    (ret = 0 \<longleftrightarrow> ns_enabled (ns_at y' a)) \<and>
    (\<forall>b. b \<noteq> a \<longrightarrow> y_objs y' b = y_objs y b)"
proof (cases "ns_enabled (ns_at y a) \<or> y_nr_namespaces y = of_nat NVMET_MAX_NAMESPACES")
  case True
  with ok show ?thesis by (auto simp: nvmet_ns_enable_def same_ids_def)
next
  case False
  then have dis: "\<not> ns_enabled (ns_at y a)" and room: "length (y_namespaces y) < NVMET_MAX_NAMESPACES"
    using ok unat_u32_of_nat_1024 [of "length (y_namespaces y)"] by (auto simp: subsys_ok_def)
  have closed: "\<not> ns_bdev (ns_at y a)" "ns_file (ns_at y a) \<noteq> File_open"
    using ok a dis by (auto simp: subsys_ok_def ns_device_ok_def)
  obtain ret y1 where op: "ns_open_device e a y = (ret, y1)" by fastforce
  have fr: "only_device a y y1" using open_device_frame [OF a, of e] op by simp
  have obj: "\<forall>b. b \<noteq> a \<longrightarrow> y_objs y1 b = y_objs y b" using fr by (simp add: only_device_def)
  have dis1: "\<not> ns_enabled (ns_at y1 a)" using fr dis by (simp add: only_device_def)
  have close: "subsys_ok (nvmet_ns_dev_disable a (ycall ks y1)) \<and> same_ids y (nvmet_ns_dev_disable a (ycall ks y1)) \<and>
      \<not> ns_enabled (ns_at (nvmet_ns_dev_disable a (ycall ks y1)) a) \<and>
      (\<forall>b. b \<noteq> a \<longrightarrow> y_objs (nvmet_ns_dev_disable a (ycall ks y1)) b = y_objs y b)" for ks
  proof -
    have f: "only_device a y (nvmet_ns_dev_disable a (ycall ks y1))"
      using fr by (simp add: dev_disable_device)
    then show ?thesis
      using closed_device_ok [OF ok f dis] only_device_ids [OF f] dis
      by (simp add: dev_disable_closed only_device_def)
  qed
  show ?thesis
  proof (cases "ret = 0")
    case failed: False
    with op closed have "\<not> ns_bdev (ns_at y1 a)" "ns_file (ns_at y1 a) \<noteq> File_open"
      using open_device_result(2) [of y a e] by auto
    then have "subsys_ok y1" by (rule closed_device_ok [OF ok fr dis])
    with failed op False obj dis1 only_device_ids [OF fr] show ?thesis
      by (auto simp: nvmet_ns_enable_def)
  next
    case opened: True
    with op closed have open1: "ns_bdev (ns_at y1 a) \<or> ns_file (ns_at y1 a) = File_open"
      using open_device_result(1) [of y a e] by auto
    have nsid1: "nsid_at y1 = nsid_at y" using only_device_nsid [OF fr] by auto
    show ?thesis
    proof (cases "ns_use_p2pmem (ns_at y1 a) \<and> ne_p2p e \<noteq> 0 \<or> ne_ref e \<noteq> 0")
      case True
      then show ?thesis
        using close [of "[]"] close opened op False
        by (auto simp: nvmet_ns_enable_def ycall_ycall Let_def)
    next
      case go: False
      have flds: "y_namespaces y1 = y_namespaces y" "y_nr_namespaces y1 = y_nr_namespaces y" "y_max_nsid y1 = y_max_nsid y"
        using fr by (simp_all add: only_device_def)
      have "nvmet_ns_enable e a y = None" if "ns_insert (nsid_at y) a (y_namespaces y) = None"
        using False opened op go that by (auto simp: nvmet_ns_enable_def nsid1 flds Let_def)
      with runs obtain l where l: "ns_insert (nsid_at y) a (y_namespaces y) = Some l"
        by (cases "ns_insert (nsid_at y) a (y_namespaces y)") auto
      define y3 where "y3 = (let nsid = nsid_at y a;
          y2 = ycall [Ns_ref_init a] (ycall (p2p_calls P2p_add nsid y1) y1);
          y2 = (if y_max_nsid y2 < nsid then y2\<lparr>y_max_nsid := nsid\<rparr> else y2)
        in nvmet_ns_changed (ne_event e) nsid (y2\<lparr>y_namespaces := l, y_nr_namespaces := y_nr_namespaces y2 + 1\<rparr>))"
      have y3: "y_namespaces y3 = l" "y_nr_namespaces y3 = y_nr_namespaces y + 1" "y_objs y3 = y_objs y1"
          "y_max_nsid y3 = (if y_max_nsid y < nsid_at y a then nsid_at y a else y_max_nsid y)"
        by (simp_all add: y3_def Let_def flds)
      have at3: "ns_at y3 a = ns_at y1 a" using y3(3) by (simp add: ns_at_def)
      have en: "nvmet_ns_enable e a y = Some (0, set_ns a ((ns_at y1 a)\<lparr>ns_enabled := True\<rparr>) y3)"
        using False opened op go l
        by (auto simp: nvmet_ns_enable_def nsid1 flds y3_def Let_def)
      have ok3: "subsys_ok (set_ns a ((ns_at y1 a)\<lparr>ns_enabled := True\<rparr>) y3)"
        by (rule enable_insert_ok [OF ok a dis room fr open1 l y3])
      have "same_ids y (set_ns a ((ns_at y1 a)\<lparr>ns_enabled := True\<rparr>) y3)"
        using only_device_ids [OF fr] y3(3) a by (auto simp: same_ids_def nsid_at_def ns_at_def)
      with en ok3 obj y3(3) show ?thesis by auto
    qed
  qed
qed

lemma sorted_removeAll: "sorted_wrt (<) (map f l) \<Longrightarrow> sorted_wrt (<) (map f (removeAll a l))"
  by (induction l) auto

lemma sorted_distinct_map: "sorted_wrt (<) (map f l) \<Longrightarrow> distinct (l :: 'b list)" for f :: "'b \<Rightarrow> 'c::linorder"
  by (induction l) auto

lemma last_removeAll:
  "sorted_wrt (<) (map f l) \<Longrightarrow> l \<noteq> [] \<Longrightarrow> f a \<noteq> f (last l) \<Longrightarrow> a \<in> set l \<Longrightarrow> removeAll a l \<noteq> [] \<and> last (removeAll a l) = last l"
  by (induction l rule: rev_induct) auto

text \<open>Disabling never fails.\<close>

lemma ns_disable_ok:
  assumes ok: "subsys_ok y" and a: "y_objs y a \<noteq> None"
  shows "subsys_ok (nvmet_ns_disable alloc a y) \<and> same_ids y (nvmet_ns_disable alloc a y) \<and>
    \<not> ns_enabled (ns_at (nvmet_ns_disable alloc a y) a) \<and>
    (\<forall>b. b \<noteq> a \<longrightarrow> y_objs (nvmet_ns_disable alloc a y) b = y_objs y b)"
proof (cases "ns_enabled (ns_at y a)")
  case False
  with ok show ?thesis by (simp add: nvmet_ns_disable_def ns_disable_begin_def same_ids_def)
next
  case True
  let ?l = "removeAll a (y_namespaces y)"
  define y1 where "y1 = snd (ns_disable_begin a y)"
  define y2 where "y2 = nvmet_ns_changed alloc (nsid_at y1 a) ((ycall [Ns_ref_drain a] y1)\<lparr>y_nr_namespaces := y_nr_namespaces y1 - 1\<rparr>)"
  have srt: "sorted_wrt (<) (map (nsid_at y) (y_namespaces y))" and len: "y_nr_namespaces y = of_nat (length (y_namespaces y))"
    and mx: "y_max_nsid y = nvmet_max_nsid y" and le: "length (y_namespaces y) \<le> NVMET_MAX_NAMESPACES"
    and mem: "\<And>b. b \<in> set (y_namespaces y) \<longleftrightarrow> y_objs y b \<noteq> None \<and> ns_enabled (ns_at y b)"
    and devs: "\<And>b. y_objs y b \<noteq> None \<Longrightarrow> ns_device_ok (ns_at y b)"
    using ok by (simp_all add: subsys_ok_def)
  have ina: "a \<in> set (y_namespaces y)" using mem True a by simp
  have dl: "length (y_namespaces y) = Suc (length ?l)"
    using ina sorted_distinct_map [OF srt] length_pos_if_in_set [OF ina]
    by (simp add: distinct_remove1_removeAll [symmetric] length_remove1)
  have objs2: "y_objs y2 = (y_objs y)(a \<mapsto> (ns_at y a)\<lparr>ns_enabled := False\<rparr>)"
    using True by (simp add: y2_def y1_def ns_disable_begin_def Let_def)
  have ns2: "y_namespaces y2 = ?l" "y_nr_namespaces y2 = y_nr_namespaces y - 1"
    using True by (simp_all add: y2_def y1_def ns_disable_begin_def Let_def)
  have nsid2: "nsid_at y2 = nsid_at y"
  proof
    show "nsid_at y2 b = nsid_at y b" for b
      by (simp add: nsid_at_def ns_at_def objs2)
  qed
  have dis: "nvmet_ns_disable alloc a y = nvmet_ns_dev_disable a y2"
    using True by (simp add: nvmet_ns_disable_def ns_disable_end_def split_beta y2_def y1_def ns_disable_begin_def Let_def)
  have "only_device a y2 y2" by (rule only_device_refl) (simp add: objs2)
  then have fr: "only_device a y2 (nvmet_ns_disable alloc a y)"
    unfolding dis by (rule dev_disable_device)
  have max2: "y_max_nsid y2 = (if ?l = [] then 0 else nsid_at y (last ?l))"
  proof (cases "nsid_at y a = y_max_nsid y")
    case True
    then show ?thesis
      using \<open>ns_enabled (ns_at y a)\<close>
      by (simp add: y2_def y1_def ns_disable_begin_def Let_def nvmet_max_nsid_def nsid_at_def ns_at_def)
  next
    case False
    then have "nsid_at y a \<noteq> nsid_at y (last (y_namespaces y))"
      using mx ina by (auto simp: nvmet_max_nsid_def split: if_splits)
    moreover have "y_namespaces y \<noteq> []" using ina by auto
    ultimately have "?l \<noteq> []" "last ?l = last (y_namespaces y)"
      using last_removeAll [OF srt _ _ ina] by auto
    with False mx ina \<open>ns_enabled (ns_at y a)\<close> show ?thesis
      by (auto simp: y2_def y1_def ns_disable_begin_def Let_def nvmet_max_nsid_def nsid_at_def)
  qed
  have dev: "\<not> ns_enabled (ns_at (nvmet_ns_disable alloc a y) a)"
    using fr by (simp add: only_device_def objs2 ns_at_def)
  have other: "y_objs (nvmet_ns_disable alloc a y) b = y_objs y b" if "b \<noteq> a" for b
    using fr that by (simp add: only_device_def objs2)
  have "subsys_ok (nvmet_ns_disable alloc a y)"
    unfolding subsys_ok_def
  proof (intro conjI allI impI)
    have n: "nsid_at (nvmet_ns_disable alloc a y) = nsid_at y"
      using only_device_nsid [OF fr] nsid2 by auto
    have l: "y_namespaces (nvmet_ns_disable alloc a y) = ?l" using fr ns2 by (simp add: only_device_def)
    show "sorted_wrt (<) (map (nsid_at (nvmet_ns_disable alloc a y)) (y_namespaces (nvmet_ns_disable alloc a y)))"
      unfolding n l by (rule sorted_removeAll [OF srt])
    show "y_nr_namespaces (nvmet_ns_disable alloc a y) = of_nat (length (y_namespaces (nvmet_ns_disable alloc a y)))"
      unfolding l using fr ns2 len dl by (simp add: only_device_def)
    show "length (y_namespaces (nvmet_ns_disable alloc a y)) \<le> NVMET_MAX_NAMESPACES"
      unfolding l using le dl by simp
    show "y_max_nsid (nvmet_ns_disable alloc a y) = nvmet_max_nsid (nvmet_ns_disable alloc a y)"
      unfolding nvmet_max_nsid_def l n using fr max2 by (simp add: only_device_def)
    fix b
    show "b \<in> set (y_namespaces (nvmet_ns_disable alloc a y)) \<longleftrightarrow>
        y_objs (nvmet_ns_disable alloc a y) b \<noteq> None \<and> ns_enabled (ns_at (nvmet_ns_disable alloc a y) b)"
      unfolding l using mem [of b] dev other [of b] by (cases "b = a") (auto simp: ns_at_def)
    assume "y_objs (nvmet_ns_disable alloc a y) b \<noteq> None"
    then show "ns_device_ok (ns_at (nvmet_ns_disable alloc a y) b)"
      using devs [of b] dev other [of b] dev_disable_closed [of a y2, folded dis]
      by (cases "b = a") (auto simp: ns_at_def ns_device_ok_def)
  qed
  moreover have "same_ids y (nvmet_ns_disable alloc a y)"
    using only_device_ids [OF fr] nsid2 a objs2 by (auto simp: same_ids_def)
  ultimately show ?thesis using dev other by blast
qed

text \<open>What an administrator does to a subsystem's namespaces, one after the other.\<close>

datatype ns_op =
    Ns_make nat "u8 list" u32
  | Ns_enable ns_env nat
  | Ns_disable "nat \<Rightarrow> bool" nat
  | Ns_free "nat \<Rightarrow> bool" nat

fun ns_step :: "ns_op \<Rightarrow> nvmet_ana \<times> nvmet_subsys \<Rightarrow> (nvmet_ana \<times> nvmet_subsys) option" where
  "ns_step (Ns_make a uuid nsid) gy = Some (snd (nvmet_ns_make True a uuid (0, nsid) gy))"
| "ns_step (Ns_enable e a) (g, y) = map_option (\<lambda>(ret, y). (g, y)) (nvmet_ns_enable e a y)"
| "ns_step (Ns_disable alloc a) (g, y) = Some (g, nvmet_ns_disable alloc a y)"
| "ns_step (Ns_free alloc a) gy = Some (nvmet_ns_free alloc a gy)"

text \<open>
  A namespace is made at a free address; everything else is done to a namespace that exists. Its number is any:
  the code does not check that no other directory has it.
\<close>

fun ns_legal :: "ns_op \<Rightarrow> nvmet_subsys \<Rightarrow> bool" where
  "ns_legal (Ns_make a uuid nsid) y \<longleftrightarrow> y_objs y a = None"
| "ns_legal (Ns_enable e a) y \<longleftrightarrow> y_objs y a \<noteq> None"
| "ns_legal (Ns_disable alloc a) y \<longleftrightarrow> y_objs y a \<noteq> None"
| "ns_legal (Ns_free alloc a) y \<longleftrightarrow> y_objs y a \<noteq> None"

fun ns_run :: "ns_op list \<Rightarrow> nvmet_ana \<times> nvmet_subsys \<Rightarrow> (nvmet_ana \<times> nvmet_subsys) option" where
  "ns_run [] gy = Some gy"
| "ns_run (oper # ops) gy = Option.bind (ns_step oper gy) (ns_run ops)"

fun ns_legal_run :: "ns_op list \<Rightarrow> nvmet_ana \<times> nvmet_subsys \<Rightarrow> bool" where
  "ns_legal_run [] gy = True"
| "ns_legal_run (oper # ops) gy \<longleftrightarrow> ns_legal oper (snd gy) \<and>
     (case ns_step oper gy of None \<Rightarrow> True | Some gy \<Rightarrow> ns_legal_run ops gy)"

lemma set_new_ns_ok:
  assumes "subsys_ok y" and "y_objs y a = None" and "\<not> ns_enabled ns" and "ns_device_ok ns"
  shows "subsys_ok (set_ns a ns y)"
proof -
  have mem: "\<And>b. b \<in> set (y_namespaces y) \<longleftrightarrow> y_objs y b \<noteq> None \<and> ns_enabled (ns_at y b)"
    and devs: "\<And>b. y_objs y b \<noteq> None \<Longrightarrow> ns_device_ok (ns_at y b)"
    using assms(1) by (simp_all add: subsys_ok_def)
  have out: "a \<notin> set (y_namespaces y)" using mem [of a] assms(2) by simp
  then have ids: "map (nsid_at (set_ns a ns y)) (y_namespaces y) = map (nsid_at y) (y_namespaces y)"
    by (auto simp: nsid_at_def)
  have max: "nvmet_max_nsid (set_ns a ns y) = nvmet_max_nsid y"
  proof (cases "y_namespaces y = []")
    case True
    then show ?thesis by (simp add: nvmet_max_nsid_def)
  next
    case False
    then have "last (y_namespaces y) \<noteq> a" using out last_in_set by metis
    then show ?thesis by (simp add: nvmet_max_nsid_def nsid_at_def)
  qed
  show ?thesis
    unfolding subsys_ok_def max set_ns_fields(1) ids
  proof (intro conjI allI impI)
    fix b
    show "b \<in> set (y_namespaces y) \<longleftrightarrow> y_objs (set_ns a ns y) b \<noteq> None \<and> ns_enabled (ns_at (set_ns a ns y) b)"
      using mem [of b] assms(2,3) by auto
    assume "y_objs (set_ns a ns y) b \<noteq> None"
    then show "ns_device_ok (ns_at (set_ns a ns y) b)"
      using devs [of b] assms(4) by (auto split: if_splits)
  qed (use assms(1) in \<open>simp_all add: subsys_ok_def\<close>)
qed

lemma ns_gone_ok:
  assumes "subsys_ok y" and "\<not> ns_enabled (ns_at y a)"
  shows "subsys_ok (y\<lparr>y_objs := (y_objs y)(a := None)\<rparr>)"
proof -
  let ?y = "y\<lparr>y_objs := (y_objs y)(a := None)\<rparr>"
  have mem: "\<And>b. b \<in> set (y_namespaces y) \<longleftrightarrow> y_objs y b \<noteq> None \<and> ns_enabled (ns_at y b)"
    and devs: "\<And>b. y_objs y b \<noteq> None \<Longrightarrow> ns_device_ok (ns_at y b)"
    using assms(1) by (simp_all add: subsys_ok_def)
  have out: "a \<notin> set (y_namespaces y)" using mem [of a] assms(2) by simp
  have at: "ns_at ?y b = ns_at y b" if "b \<noteq> a" for b using that by (simp add: ns_at_def)
  have ids: "map (nsid_at ?y) (y_namespaces y) = map (nsid_at y) (y_namespaces y)"
  proof (rule map_cong [OF HOL.refl])
    fix x assume "x \<in> set (y_namespaces y)"
    then have "x \<noteq> a" using out by auto
    from at [OF this] show "nsid_at ?y x = nsid_at y x" by (simp only: nsid_at_def)
  qed
  have max: "nvmet_max_nsid ?y = nvmet_max_nsid y"
  proof (cases "y_namespaces y = []")
    case True
    then show ?thesis by (simp add: nvmet_max_nsid_def)
  next
    case False
    then have "last (y_namespaces y) \<noteq> a" using out last_in_set by metis
    then show ?thesis using at by (simp add: nvmet_max_nsid_def nsid_at_def)
  qed
  have l: "y_namespaces ?y = y_namespaces y" by simp
  show ?thesis
    unfolding subsys_ok_def max l ids
  proof (intro conjI allI impI)
    fix b
    show "b \<in> set (y_namespaces y) \<longleftrightarrow> y_objs ?y b \<noteq> None \<and> ns_enabled (ns_at ?y b)"
      using mem [of b] out at [of b] by auto
    assume "y_objs ?y b \<noteq> None"
    then show "ns_device_ok (ns_at ?y b)"
      using devs [of b] at [of b] by (auto split: if_splits)
  qed (use assms(1) in \<open>simp_all add: subsys_ok_def\<close>)
qed

text \<open>The one operation that stops the kernel: enabling a namespace under the number of an enabled one.\<close>

definition enables_twice :: "ns_op \<Rightarrow> nvmet_subsys \<Rightarrow> bool" where
  "enables_twice oper y \<longleftrightarrow>
     (\<exists>e a b. oper = Ns_enable e a \<and> b \<in> set (y_namespaces y) \<and> b \<noteq> a \<and> nsid_at y b = nsid_at y a)"

lemma ns_step_ok:
  assumes "subsys_ok y" and "ns_legal oper y"
  shows "case ns_step oper (g, y) of Some (g', y') \<Rightarrow> subsys_ok y' | None \<Rightarrow> enables_twice oper y"
proof (cases oper)
  case (Ns_make a uuid nsid)
  show ?thesis
  proof (cases "nsid = 0 \<or> nsid = NVME_NSID_ALL")
    case True
    with assms Ns_make show ?thesis by (auto simp: nvmet_ns_make_def)
  next
    case False
    define ns where "ns = \<lparr>ns_nsid = nsid, ns_enabled = False, ns_readonly = False, ns_size = 0, ns_blksize_shift = 0,
                ns_anagrpid = NVMET_DEFAULT_ANA_GRPID, ns_bdev = False, ns_file = File_null,
                ns_buffered_io = False, ns_use_p2pmem = False, ns_uuid = uuid, ns_nguid = replicate 16 0\<rparr>"
    have ns: "\<not> ns_enabled ns" "ns_device_ok ns" by (simp_all add: ns_def ns_device_ok_def)
    have "\<exists>g'. ns_step oper (g, y) = Some (g', set_ns a ns y)"
      using False Ns_make by (auto simp: nvmet_ns_make_def nvmet_ns_alloc_def ns_def Let_def)
    then obtain g' where st: "ns_step oper (g, y) = Some (g', set_ns a ns y)" by blast
    have "subsys_ok (set_ns a ns y)"
      using set_new_ns_ok [OF assms(1) _ ns] assms(2) Ns_make by simp
    then show ?thesis by (simp add: st)
  qed
next
  case (Ns_enable e a)
  then have a: "y_objs y a \<noteq> None" using assms(2) by simp
  show ?thesis
  proof (cases "nvmet_ns_enable e a y")
    case None
    from ns_enable_none [OF assms(1) a None] have "enables_twice oper y"
      unfolding enables_twice_def Ns_enable by blast
    then show ?thesis by (simp add: Ns_enable None)
  next
    case (Some ry)
    then obtain ret y' where "nvmet_ns_enable e a y = Some (ret, y')" by (cases ry) simp
    with ns_enable_ok [OF assms(1) a, of e] show ?thesis by (auto simp: Ns_enable)
  qed
next
  case (Ns_disable alloc a)
  with ns_disable_ok [OF assms(1), of a alloc] assms(2) show ?thesis by auto
next
  case (Ns_free alloc a)
  let ?y = "nvmet_ns_disable alloc a y"
  have ok: "subsys_ok ?y" "\<not> ns_enabled (ns_at ?y a)"
    using ns_disable_ok [OF assms(1), of a alloc] assms(2) Ns_free by auto
  with ns_gone_ok [OF ok(1,2)] Ns_free show ?thesis
    by (auto simp: nvmet_ns_free_def Let_def)
qed

lemma ns_run_ok:
  "subsys_ok y \<Longrightarrow> ns_legal_run ops (g, y) \<Longrightarrow>
   case ns_run ops (g, y) of Some (g', y') \<Rightarrow> subsys_ok y'
   | None \<Rightarrow> \<exists>pre oper post g1 y1. ops = pre @ oper # post \<and> ns_run pre (g, y) = Some (g1, y1) \<and>
       subsys_ok y1 \<and> enables_twice oper y1"
proof (induction ops arbitrary: g y)
  case Nil
  then show ?case by simp
next
  case (Cons oper ops)
  have step: "case ns_step oper (g, y) of Some (g', y') \<Rightarrow> subsys_ok y' | None \<Rightarrow> enables_twice oper y"
    using ns_step_ok [OF Cons.prems(1)] Cons.prems(2) by simp
  show ?case
  proof (cases "ns_step oper (g, y)")
    case None
    then have none: "ns_run (oper # ops) (g, y) = None" and twice: "enables_twice oper y" using step by simp_all
    show ?thesis unfolding none option.case
      by (rule exI [of _ "[]"], rule exI [of _ oper], rule exI [of _ ops], rule exI [of _ g], rule exI [of _ y])
        (use twice Cons.prems(1) in simp)
  next
    case (Some gy)
    then obtain g' y' where st: "ns_step oper (g, y) = Some (g', y')" by (cases gy) simp
    then have "subsys_ok y'" "ns_legal_run ops (g', y')" using step Cons.prems(2) by simp_all
    note IH = Cons.IH [OF this]
    show ?thesis
    proof (cases "ns_run ops (g', y')")
      case None
      then obtain pre oper' post g1 y1 where p: "ops = pre @ oper' # post" "ns_run pre (g', y') = Some (g1, y1)"
        "subsys_ok y1" "enables_twice oper' y1" using IH by auto
      have none: "ns_run (oper # ops) (g, y) = None" by (simp add: st None)
      show ?thesis unfolding none option.case
        by (rule exI [of _ "oper # pre"], rule exI [of _ oper'], rule exI [of _ post], rule exI [of _ g1], rule exI [of _ y1])
          (use p st in simp)
    next
      case Some
      then show ?thesis using IH by (auto simp: st)
    qed
  qed
qed

section \<open>Properties\<close>

definition new_subsys :: "string \<Rightarrow> nqn_type \<Rightarrow> u64 \<Rightarrow> nvmet_subsys" where
  "new_subsys nqn ty serial =
     \<lparr>y_subsysnqn = take NVMF_NQN_SIZE nqn, y_type = ty, y_ref = 1, y_objs = Map.empty, y_namespaces = [],
      y_nr_namespaces = 0, y_max_nsid = 0, y_ctrls = [], y_hosts = [], y_allow_any_host = False,
      y_max_qid = (case ty of Nqn_nvme \<Rightarrow> 128 | Nqn_disc \<Rightarrow> 0), y_ver = 0x10300, y_serial = serial, y_calls = []\<rparr>"

lemma new_subsys_ok: "subsys_ok (new_subsys nqn ty serial)"
  by (simp add: new_subsys_def subsys_ok_def nvmet_max_nsid_def)

text \<open>C24. A subsystem's books are right as long as the kernel runs, and one thing stops it. Whatever an
  administrator does to the subsystem's namespaces, one operation after the other and with every answer of the
  block layer, the file system and the allocators: the list of enabled namespaces is sorted and complete, the
  count and the largest number match it, at most 1024 are enabled, and exactly the enabled ones have an open
  device; and the only operation that can stop the kernel is the enabling of a namespace under the number of
  one that is enabled (\<open>duplicate_number_stops_kernel\<close>). Operations that overlap are another matter: see
  \<open>enable_during_disable\<close>.
\<close>

theorem namespaces_stay_consistent:
  assumes "ns_legal_run ops (g, new_subsys nqn ty serial)"
  shows "case ns_run ops (g, new_subsys nqn ty serial) of
      Some (g', y') \<Rightarrow> subsys_ok y'
    | None \<Rightarrow> \<exists>pre oper post g1 y1. ops = pre @ oper # post \<and>
        ns_run pre (g, new_subsys nqn ty serial) = Some (g1, y1) \<and> subsys_ok y1 \<and>
        (\<exists>e a b. oper = Ns_enable e a \<and> b \<in> set (y_namespaces y1) \<and> b \<noteq> a \<and> nsid_at y1 b = nsid_at y1 a)"
  using ns_run_ok [OF new_subsys_ok assms] unfolding enables_twice_def .

definition bdev_env :: ns_env where
  "bdev_env = \<lparr>ne_bdev = 0, ne_bdev_size = 4096, ne_bdev_bits = 9, ne_filp = 0, ne_getattr = 0, ne_file_size = 0,
     ne_file_bits = 12, ne_cache = True, ne_pool = True, ne_p2p = 0, ne_ref = 0, ne_event = (\<lambda>i. True)\<rparr>"

theorem namespaces_stay_consistent_witness:
  "\<exists>g' y'. ns_run [Ns_make 0 [] 7, Ns_enable bdev_env 0]
     (\<lparr>a_group_enabled = (\<lambda>g. 0), a_chgcnt = 0\<rparr>, new_subsys ''nqn'' Nqn_nvme 0) = Some (g', y') \<and> subsys_ok y'"
proof -
  let ?ops = "[Ns_make 0 [] 7, Ns_enable bdev_env 0]"
  let ?g = "\<lparr>a_group_enabled = (\<lambda>g. 0), a_chgcnt = 0\<rparr>"
  have "ns_legal_run ?ops (?g, new_subsys ''nqn'' Nqn_nvme 0)"
    "ns_run ?ops (?g, new_subsys ''nqn'' Nqn_nvme 0) \<noteq> None"
    by (simp_all add: nvmet_ns_make_def nvmet_ns_alloc_def new_subsys_def Let_def nvmet_ns_enable_def ns_open_device_def
        nvmet_bdev_ns_enable_def bdev_env_def nsid_at_def set_ns_def ycall_def ns_at_def nvmet_ns_changed_def p2p_calls_def)
  with namespaces_stay_consistent [OF this(1)] show ?thesis by auto
qed

text \<open>The numbers of the enabled namespaces.\<close>

definition active_nsids :: "nvmet_subsys \<Rightarrow> u32 set" where
  "active_nsids y = {nsid_at y a |a. y_objs y a \<noteq> None \<and> ns_enabled (ns_at y a)}"

definition nslist_reference :: "nvmet_subsys \<Rightarrow> u32 \<Rightarrow> u32 list" where
  "nslist_reference y min_nsid =
     (let l = take 1024 (sorted_list_of_set {n \<in> active_nsids y. min_nsid < n})
      in l @ replicate (1024 - length l) 0)"

lemma nslist_loop_eq:
  assumes "i + length l2 = 1024" and "length l1 = i" and "l2 = replicate (1024 - i) 0" and "i < 1024"
  shows "nslist_loop y m as i (l1 @ l2) =
    (let l = l1 @ take (1024 - i) (filter (\<lambda>n. m < n) (map (nsid_at y) as)) in l @ replicate (1024 - length l) 0)"
  using assms
proof (induction as arbitrary: i l1 l2)
  case Nil
  then show ?case by simp
next
  case (Cons a as)
  show ?case
  proof (cases "nsid_at y a \<le> m")
    case True
    with Cons show ?thesis by (simp add: leD)
  next
    case False
    have l: "(l1 @ l2)[i := nsid_at y a] = (l1 @ [nsid_at y a]) @ replicate (1024 - Suc i) 0"
    proof -
      have "1024 - i = Suc (1024 - Suc i)" using Cons.prems by simp
      then show ?thesis using Cons.prems by (simp add: list_update_append)
    qed
    show ?thesis
    proof (cases "Suc i = 1024")
      case True
      have "take (1024 - i) (nsid_at y a # xs) = [nsid_at y a]" for xs
        using True by simp
      moreover have "m < nsid_at y a" using False by simp
      ultimately show ?thesis using False l True Cons.prems by (simp add: Let_def)
    next
      case go: False
      have t: "take (1024 - i) (nsid_at y a # xs) = nsid_at y a # take (1024 - Suc i) xs" for xs
        using Cons.prems by (metis Suc_diff_Suc take_Suc_Cons)
      have "m < nsid_at y a" using False by simp
      with go False l Cons.IH [of "Suc i" "replicate (1024 - Suc i) 0" "l1 @ [nsid_at y a]"] Cons.prems
      show ?thesis by (simp add: t)
    qed
  qed
qed

lemma nslist_page_eq:
  "nslist_page y m = (let l = take 1024 (filter (\<lambda>n. m < n) (map (nsid_at y) (y_namespaces y)))
     in l @ replicate (1024 - length l) 0)"
proof -
  have sz: "NVME_IDENTIFY_DATA_SIZE div 4 = (1024 :: nat)" by simp
  have "nslist_loop y m (y_namespaces y) 0 ([] @ replicate 1024 0) =
      (let l = [] @ take (1024 - 0) (filter (\<lambda>n. m < n) (map (nsid_at y) (y_namespaces y)))
       in l @ replicate (1024 - length l) 0)"
    by (rule nslist_loop_eq) (simp_all only: length_replicate list.size add_0 diff_zero zero_less_numeral)
  then show ?thesis
    unfolding nslist_page_def sz append_Nil diff_zero .
qed

text \<open>C25. The namespace list a host reads is what the specification asks for: the numbers of all enabled namespaces
  above the given one, in increasing order, as many as fit, padded with zeros.
\<close>

theorem nslist_is_sorted_set:
  assumes "subsys_ok y"
  shows "nslist_page y min_nsid = nslist_reference y min_nsid"
proof -
  let ?l = "filter (\<lambda>n. min_nsid < n) (map (nsid_at y) (y_namespaces y))"
  have srt: "sorted_wrt (<) (map (nsid_at y) (y_namespaces y))" using assms by (simp add: subsys_ok_def)
  then have "sorted_wrt (<) ?l" by (rule sorted_wrt_filter)
  then have "sorted ?l" "distinct ?l" by (simp_all only: strict_sorted_iff)
  moreover have "set ?l = {n \<in> active_nsids y. min_nsid < n}"
    using assms by (auto simp: active_nsids_def subsys_ok_def)
  ultimately have "sorted_list_of_set {n \<in> active_nsids y. min_nsid < n} = ?l"
    by (metis sorted_list_of_set.idem_if_sorted_distinct)
  then show ?thesis by (simp only: nslist_page_eq nslist_reference_def)
qed

definition example_ns :: "u32 \<Rightarrow> nvmet_ns" where
  "example_ns nsid =
     \<lparr>ns_nsid = nsid, ns_enabled = True, ns_readonly = False, ns_size = 4096, ns_blksize_shift = 9, ns_anagrpid = 1,
      ns_bdev = True, ns_file = File_null, ns_buffered_io = False, ns_use_p2pmem = False, ns_uuid = [], ns_nguid = []\<rparr>"

definition two_ns :: nvmet_subsys where
  "two_ns = (new_subsys ''nqn'' Nqn_nvme 0)\<lparr>y_objs := [0 \<mapsto> example_ns 7, 1 \<mapsto> example_ns 3],
     y_namespaces := [1, 0], y_nr_namespaces := 2, y_max_nsid := 7\<rparr>"

lemma two_ns_fields:
  "y_namespaces two_ns = [1, 0]" "nsid_at two_ns (Suc 0) = 3" "nsid_at two_ns 0 = 7"
  "y_objs two_ns = [0 \<mapsto> example_ns 7, 1 \<mapsto> example_ns 3]" "y_nr_namespaces two_ns = 2" "y_max_nsid two_ns = 7"
  by (simp_all add: two_ns_def nsid_at_def ns_at_def example_ns_def)

lemma two_ns_ok: "subsys_ok two_ns"
  by (auto simp: subsys_ok_def two_ns_fields nvmet_max_nsid_def ns_at_def ns_device_ok_def example_ns_def
      split: if_splits)

theorem nslist_is_sorted_set_witness:
  "nslist_page two_ns 0 = nslist_reference two_ns 0 \<and> take 3 (nslist_page two_ns 0) = [3, 7, 0]"
proof
  show "nslist_page two_ns 0 = nslist_reference two_ns 0"
    by (rule nslist_is_sorted_set [OF two_ns_ok])
  show "take 3 (nslist_page two_ns 0) = [3, 7, 0]"
    by (simp add: nslist_page_eq two_ns_fields Let_def take_replicate)
qed

section \<open>What the code does not rule out\<close>

lemma ns_enable_success:
  assumes "nvmet_ns_enable e a y = Some (0, y')" and "\<not> ns_enabled (ns_at y a)" and "y_objs y a \<noteq> None"
  shows "ns_enabled (ns_at y' a) \<and> a \<in> set (y_namespaces y')"
proof -
  obtain ret y1 where op: "ns_open_device e a y = (ret, y1)" by fastforce
  have ins: "ns_insert f a l = Some l' \<Longrightarrow> a \<in> set l'" for f l l'
    by (induction l arbitrary: l') (auto split: if_splits)
  show ?thesis
    using assms op ins
    by (auto simp: nvmet_ns_enable_def Let_def split: if_splits option.splits)
qed

text \<open>Enabling a namespace while it is being disabled leaves it enabled without a device. Disabling marks the
  namespace disabled and releases the lock before it waits for its users; an enabling that runs in
  between succeeds and reopens the device, which the second half of the disabling then closes: the
  namespace is enabled, in the list hosts see, and its device pointers are null.
\<close>

theorem enable_during_disable:
  assumes "y_objs y a \<noteq> None" and "ns_disable_begin a y = (True, y1)"
    and "nvmet_ns_enable e a y1 = Some (0, y2)"
  shows "let y3 = ns_disable_end alloc a y2 in
    ns_enabled (ns_at y3 a) \<and> a \<in> set (y_namespaces y3) \<and> \<not> ns_bdev (ns_at y3 a) \<and> ns_file (ns_at y3 a) = File_null"
proof -
  have y1: "\<not> ns_enabled (ns_at y1 a)" "y_objs y1 a \<noteq> None"
    using assms(2) by (auto simp: ns_disable_begin_def Let_def split: if_splits)
  have y2: "ns_enabled (ns_at y2 a)" "a \<in> set (y_namespaces y2)"
    using ns_enable_success [OF assms(3) y1] by auto
  then show ?thesis
    using dev_disable_closed
    by (auto simp: ns_disable_end_def Let_def nvmet_ns_dev_disable_def nvmet_bdev_ns_disable_def nvmet_file_ns_disable_def)
qed

theorem enable_during_disable_witness:
  "let y3 = ns_disable_end (\<lambda>i. True) 0 (snd (the (nvmet_ns_enable bdev_env 0 (snd (ns_disable_begin 0 two_ns))))) in
    ns_enabled (ns_at y3 0) \<and> 0 \<in> set (y_namespaces y3) \<and> \<not> ns_bdev (ns_at y3 0) \<and> ns_file (ns_at y3 0) = File_null"
proof -
  have b: "ns_disable_begin 0 two_ns = (True, snd (ns_disable_begin 0 two_ns))"
    by (simp add: ns_disable_begin_def ns_at_def two_ns_fields example_ns_def Let_def)
  have e: "nvmet_ns_enable bdev_env 0 (snd (ns_disable_begin 0 two_ns)) =
      Some (0, snd (the (nvmet_ns_enable bdev_env 0 (snd (ns_disable_begin 0 two_ns)))))"
    by (simp add: ns_disable_begin_def ns_at_def two_ns_fields example_ns_def Let_def nvmet_ns_enable_def
        ns_open_device_def nvmet_bdev_ns_enable_def bdev_env_def nsid_at_def set_ns_def ycall_def)
  show ?thesis
    by (rule enable_during_disable [OF _ b e]) (simp add: two_ns_fields)
qed

text \<open>Two namespace directories for one number stop the kernel. The configuration accepts any spelling of a
  number (1, 01, 0x1) as a new directory; when the second namespace with the number of an enabled one is
  enabled and its device opens, the insertion runs into \<open>BUG_ON\<close>.
\<close>

theorem duplicate_number_stops_kernel:
  assumes "subsys_ok y" and "y_objs y a \<noteq> None" and "\<not> ns_enabled (ns_at y a)"
    and "b \<in> set (y_namespaces y)" and "nsid_at y b = nsid_at y a"
    and "length (y_namespaces y) < NVMET_MAX_NAMESPACES"
    and "fst (ns_open_device e a y) = 0" and "ne_p2p e = 0" and "ne_ref e = 0"
  shows "nvmet_ns_enable e a y = None"
proof -
  obtain y1 where op: "ns_open_device e a y = (0, y1)" using assms(7) by (cases "ns_open_device e a y") auto
  have fr: "only_device a y y1" using open_device_frame [OF assms(2), of e] op by simp
  have room: "y_nr_namespaces y \<noteq> 1024"
    using assms(1,6) unat_u32_of_nat_1024 [of "length (y_namespaces y)"] by (simp add: subsys_ok_def)
  have "sorted_wrt (<) (map (nsid_at y) (y_namespaces y))" using assms(1) by (simp add: subsys_ok_def)
  then have "ns_insert (nsid_at y) a (y_namespaces y) = None"
    using assms(4,5) by (subst ns_insert_none) (auto intro: rev_image_eqI)
  moreover have "nsid_at y1 = nsid_at y" using only_device_nsid [OF fr] by auto
  moreover have "y_namespaces y1 = y_namespaces y" using fr by (simp add: only_device_def)
  ultimately show ?thesis
    using op assms(3,8,9) room by (simp add: nvmet_ns_enable_def Let_def)
qed

theorem duplicate_number_stops_kernel_witness:
  "nvmet_ns_enable bdev_env 2 (two_ns\<lparr>y_objs := (y_objs two_ns)(2 \<mapsto> (example_ns 3)\<lparr>ns_enabled := False, ns_bdev := False\<rparr>)\<rparr>) = None"
proof -
  let ?y = "two_ns\<lparr>y_objs := (y_objs two_ns)(2 \<mapsto> (example_ns 3)\<lparr>ns_enabled := False, ns_bdev := False\<rparr>)\<rparr>"
  have ok: "subsys_ok ?y"
    by (auto simp: subsys_ok_def two_ns_fields nvmet_max_nsid_def ns_at_def nsid_at_def ns_device_ok_def example_ns_def
        split: if_splits)
  show ?thesis
    by (rule duplicate_number_stops_kernel [OF ok, of _ 1])
      (simp_all add: two_ns_fields ns_at_def nsid_at_def example_ns_def ns_open_device_def nvmet_bdev_ns_enable_def
        bdev_env_def)
qed

text \<open>A file that cannot be opened leaves an error code in the namespace's file pointer.\<close>

lemma failed_open_leaves_error_pointer:
  "ne_bdev e = - ENOTBLK \<Longrightarrow> ne_filp e \<noteq> 0 \<Longrightarrow> y_objs y a \<noteq> None \<Longrightarrow>
   ns_open_device e a y = (ne_filp e, snd (ns_open_device e a y)) \<and>
   ns_file (ns_at (snd (ns_open_device e a y)) a) = File_err"
  by (simp add: ns_open_device_def nvmet_bdev_ns_enable_def nvmet_file_ns_enable_def)

end
