(* ===== verification/Target_Subsys.thy ===== *)
theory Target_Subsys
  imports Target_Ns
begin

text \<open>
  Controllers and their queues on the target (\<open>target/core.c\<close>, \<open>target/fabrics-cmd.c\<close>): finding a
  subsystem and a controller, admitting a host, creating and releasing controllers, connecting admin
  and I/O queues.
\<close>

section \<open>The target\<close>

text \<open>A port: the subsystems it offers and what it lets a host send in a capsule.\<close>

record nvmet_port =
  p_subsystems :: "nat list"
  p_inline_data_size :: int
  p_ana_state :: "u32 \<Rightarrow> u8"

text \<open>A queue with the controller \<open>sq->ctrl\<close> points to, named by its subsystem and number.\<close>

record target_queue =
  tq_sq :: nvmet_sq
  tq_ctrl :: "(nat \<times> u16) option"
  tq_out :: "nvmet_cqe list"
  tq_ns_refs :: "nat list"

text \<open>
  The target: subsystems and queues by address, the discovery subsystem, the controller numbers in use.
  A freed subsystem is gone from \<open>t_subsys\<close>.
\<close>

record target =
  t_subsys :: "nat \<rightharpoonup> nvmet_subsys"
  t_disc :: nat
  t_cntlids :: "nat set"
  t_queues :: "nat \<Rightarrow> target_queue"

definition upd_subsys :: "nat \<Rightarrow> (nvmet_subsys \<Rightarrow> nvmet_subsys) \<Rightarrow> target \<Rightarrow> target" where
  "upd_subsys ya f t = t\<lparr>t_subsys := (t_subsys t)(ya := map_option f (t_subsys t ya))\<rparr>"

definition upd_tq :: "nat \<Rightarrow> (target_queue \<Rightarrow> target_queue) \<Rightarrow> target \<Rightarrow> target" where
  "upd_tq qa f t = t\<lparr>t_queues := (t_queues t)(qa := f (t_queues t qa))\<rparr>"

definition ctrl_at :: "target \<Rightarrow> nat \<times> u16 \<Rightarrow> nvmet_ctrl option" where
  "ctrl_at t p = (case t_subsys t (fst p) of None \<Rightarrow> None
     | Some y \<Rightarrow> find (\<lambda>c. n_cntlid c = snd p) (y_ctrls y))"

fun upd_first :: "('a \<Rightarrow> bool) \<Rightarrow> ('a \<Rightarrow> 'a) \<Rightarrow> 'a list \<Rightarrow> 'a list" where
  "upd_first P f [] = []"
| "upd_first P f (x # xs) = (if P x then f x # xs else x # upd_first P f xs)"

definition upd_ctrl_at :: "nat \<times> u16 \<Rightarrow> (nvmet_ctrl \<Rightarrow> nvmet_ctrl) \<Rightarrow> target \<Rightarrow> target" where
  "upd_ctrl_at p f t =
     upd_subsys (fst p) (\<lambda>y. y\<lparr>y_ctrls := upd_first (\<lambda>c. n_cntlid c = snd p) f (y_ctrls y)\<rparr>) t"

text \<open>Running a handler of one queue on the target's state.\<close>

definition on_queue :: "nat \<Rightarrow> (nvmet_queue \<Rightarrow> nvmet_queue) \<Rightarrow> target \<Rightarrow> target" where
  "on_queue qa h t =
     (let tq = t_queues t qa;
          q = h \<lparr>q_sq = tq_sq tq, q_ctrl = Option.bind (tq_ctrl tq) (ctrl_at t), q_out = tq_out tq,
                 q_ns_refs = tq_ns_refs tq\<rparr>;
          t = upd_tq qa (\<lambda>tq. tq\<lparr>tq_sq := q_sq q, tq_out := q_out q, tq_ns_refs := q_ns_refs q\<rparr>) t
      in case (tq_ctrl tq, q_ctrl q) of
           (Some p, Some c) \<Rightarrow> upd_ctrl_at p (\<lambda>_. c) t
         | _ \<Rightarrow> t)"

section \<open>Subsystems\<close>

definition nvmet_subsys_alloc :: "bool \<Rightarrow> bool \<Rightarrow> u64 \<Rightarrow> string \<Rightarrow> nqn_type \<Rightarrow> int + nvmet_subsys" where
  "nvmet_subsys_alloc alloc dup serial nqn ty =
     (if \<not> alloc then Inl (- ENOMEM) else if \<not> dup then Inl (- ENOMEM) else Inr (new_subsys nqn ty serial))"

definition nvmet_subsys_put :: "nat \<Rightarrow> target \<Rightarrow> target" where
  "nvmet_subsys_put ya t =
     (case t_subsys t ya of
        None \<Rightarrow> t
      | Some y \<Rightarrow>
          if y_ref y \<le> 1 then t\<lparr>t_subsys := (t_subsys t)(ya := None)\<rparr>
          else upd_subsys ya (\<lambda>y. y\<lparr>y_ref := y_ref y - 1\<rparr>) t)"

text \<open>The \<open>delete_ctrl\<close> operation of the transport is called for every controller.\<close>

definition nvmet_subsys_del_ctrls :: "nat \<Rightarrow> target \<Rightarrow> target" where
  "nvmet_subsys_del_ctrls ya t =
     upd_subsys ya (\<lambda>y. ycall (map (\<lambda>c. Delete_ctrl (n_cntlid c)) (y_ctrls y)) y) t"

definition nvmet_host_allowed :: "nvmet_subsys \<Rightarrow> string \<Rightarrow> bool" where
  "nvmet_host_allowed y hostnqn =
     (if y_allow_any_host y then True
      else if y_type y = Nqn_disc then True
      else list_ex (\<lambda>h. h = hostnqn) (y_hosts y))"

text \<open>\<open>kref_get_unless_zero\<close> takes a reference to an object that is still alive.\<close>

definition kref_get_subsys :: "nat \<Rightarrow> target \<Rightarrow> (nat option \<times> target)" where
  "kref_get_subsys ya t =
     (case t_subsys t ya of
        None \<Rightarrow> (None, t)
      | Some y \<Rightarrow> if y_ref y = 0 then (None, t)
                  else (Some ya, upd_subsys ya (\<lambda>y. y\<lparr>y_ref := y_ref y + 1\<rparr>) t))"

definition nvmet_find_get_subsys :: "nvmet_port option \<Rightarrow> string \<Rightarrow> target \<Rightarrow> nat option \<times> target" where
  "nvmet_find_get_subsys port subsysnqn t =
     (case port of
        None \<Rightarrow> (None, t)
      | Some p \<Rightarrow>
          if NVME_DISC_SUBSYS_NAME = subsysnqn then kref_get_subsys (t_disc t) t
          else case find (\<lambda>ya. case t_subsys t ya of None \<Rightarrow> False
                     | Some y \<Rightarrow> take NVMF_NQN_SIZE (y_subsysnqn y) = take NVMF_NQN_SIZE subsysnqn)
                     (p_subsystems p) of
                 None \<Rightarrow> (None, t)
               | Some ya \<Rightarrow> kref_get_subsys ya t)"

section \<open>Controllers\<close>

text \<open>The result a rejected connect carries: an offset in the data, or in the command.\<close>

definition connect_data_at :: "nat \<Rightarrow> u32" where "connect_data_at off = push_bit 16 1 OR of_nat off"
definition connect_sqe_at :: "nat \<Rightarrow> u32" where "connect_sqe_at off = of_nat off"

definition nvmet_ctrl_free :: "nat \<times> u16 \<Rightarrow> target \<Rightarrow> target" where
  "nvmet_ctrl_free p t =
     (let t = upd_subsys (fst p) (\<lambda>y. y\<lparr>y_ctrls := filter (\<lambda>c. n_cntlid c \<noteq> snd p) (y_ctrls y)\<rparr>) t;
          t = t\<lparr>t_cntlids := t_cntlids t - {unat (snd p)}\<rparr>
      in nvmet_subsys_put (fst p) t)"

definition nvmet_ctrl_put :: "nat \<times> u16 \<Rightarrow> target \<Rightarrow> target" where
  "nvmet_ctrl_put p t =
     (case ctrl_at t p of
        None \<Rightarrow> t
      | Some c \<Rightarrow>
          let t = upd_ctrl_at p (\<lambda>c. c\<lparr>n_ref := n_ref c - 1\<rparr>) t
          in if n_ref c \<le> 1 then nvmet_ctrl_free p t else t)"

definition nvmet_ctrl_find_get ::
  "string \<Rightarrow> string \<Rightarrow> u16 \<Rightarrow> nvmet_port option \<Rightarrow> nvmet_req \<Rightarrow> target \<Rightarrow>
   u16 \<times> (nat \<times> u16) option \<times> nvmet_req \<times> target" where
  "nvmet_ctrl_find_get subsysnqn hostnqn cntlid port r t =
     (let (found, t) = nvmet_find_get_subsys port subsysnqn t
      in case found of
           None \<Rightarrow> (NVME_SC_CONNECT_INVALID_PARAM OR NVME_SC_DNR, None,
                    nvmet_set_result (connect_data_at CONNECT_DATA_SUBSYSNQN) r, t)
         | Some ya \<Rightarrow>
             let ctrls = (case t_subsys t ya of None \<Rightarrow> [] | Some y \<Rightarrow> y_ctrls y)
             in case find (\<lambda>c. n_cntlid c = cntlid \<and> take NVMF_NQN_SIZE hostnqn = take NVMF_NQN_SIZE (n_hostnqn c) \<and>
                               n_ref c \<noteq> 0) ctrls of
                  Some c \<Rightarrow> (0, Some (ya, cntlid), r,
                             nvmet_subsys_put ya (upd_ctrl_at (ya, cntlid) (\<lambda>c. c\<lparr>n_ref := n_ref c + 1\<rparr>) t))
                | None \<Rightarrow> (NVME_SC_CONNECT_INVALID_PARAM OR NVME_SC_DNR, None,
                           nvmet_set_result (connect_data_at CONNECT_DATA_CNTLID) r, nvmet_subsys_put ya t))"

text \<open>
  What the allocators, the clock and \<open>ida_simple_get\<close> answer; the latter returns the smallest free number
  in the range, unless memory fails.
\<close>

record alloc_env =
  ae_ctrl :: bool
  ae_changed :: bool
  ae_cqs :: bool
  ae_sqs :: bool
  ae_ida :: bool
  ae_hz :: nat
  ae_now :: nat

definition ida_simple_get :: "bool \<Rightarrow> nat set \<Rightarrow> int" where
  "ida_simple_get alloc used =
     (if \<not> alloc then - ENOMEM
      else case find (\<lambda>i. i \<notin> used) [NVME_CNTLID_MIN..<NVME_CNTLID_MAX] of
             None \<Rightarrow> - ENOSPC | Some i \<Rightarrow> int i)"

abbreviation (input) NVMET_DISC_KATO_MS :: u32 where "NVMET_DISC_KATO_MS \<equiv> 120000"
abbreviation (input) NVMET_AEN_CFG_OPTIONAL :: u32 where
  "NVMET_AEN_CFG_OPTIONAL \<equiv> NVME_AEN_CFG_NS_ATTR OR NVME_AEN_CFG_ANA_CHANGE"

text \<open>The controller as \<open>nvmet_alloc_ctrl\<close> fills it in.\<close>

definition make_ctrl :: "alloc_env \<Rightarrow> nqn_type \<Rightarrow> string \<Rightarrow> string \<Rightarrow> u32 \<Rightarrow> u16 \<Rightarrow> nvmet_ctrl" where
  "make_ctrl e ty subsysnqn hostnqn kato cntlid =
     (let c = nvmet_init_cap (blank_ctrl 0);
          c = c\<lparr>n_subsysnqn := take NVMF_NQN_SIZE subsysnqn, n_hostnqn := take NVMF_NQN_SIZE hostnqn,
                n_ref := 1, n_aen_enabled := NVMET_AEN_CFG_OPTIONAL, n_cntlid := cntlid\<rparr>;
          kato = (if ty = Nqn_disc \<and> kato = 0 then NVMET_DISC_KATO_MS else kato);
          c = c\<lparr>n_kato := (kato + 999) div 1000, n_err_counter := 0\<rparr>
      in nvmet_start_keep_alive_timer (ae_hz e) (ae_now e) c)"

definition nvmet_alloc_ctrl ::
  "alloc_env \<Rightarrow> string \<Rightarrow> string \<Rightarrow> nvmet_port option \<Rightarrow> u32 \<Rightarrow> nvmet_req \<Rightarrow> target \<Rightarrow>
   u16 \<times> (nat \<times> u16) option \<times> nvmet_req \<times> target" where
  "nvmet_alloc_ctrl e subsysnqn hostnqn port kato r t =
     (let (found, t) = nvmet_find_get_subsys port subsysnqn t
      in case found of
           None \<Rightarrow> (NVME_SC_CONNECT_INVALID_PARAM OR NVME_SC_DNR, None,
                    nvmet_set_result (connect_data_at CONNECT_DATA_SUBSYSNQN) r, t)
         | Some ya \<Rightarrow>
             let y = the (t_subsys t ya)
             in if \<not> nvmet_host_allowed y hostnqn
                then (NVME_SC_CONNECT_INVALID_HOST OR NVME_SC_DNR, None,
                      nvmet_set_result (connect_data_at CONNECT_DATA_HOSTNQN) r, nvmet_subsys_put ya t)
                else if \<not> ae_ctrl e \<or> \<not> ae_changed e \<or> \<not> ae_cqs e \<or> \<not> ae_sqs e
                then (NVME_SC_INTERNAL, None, r, nvmet_subsys_put ya t)
                else
                  let ret = ida_simple_get (ae_ida e) (t_cntlids t)
                  in if ret < 0
                     then (NVME_SC_CONNECT_CTRL_BUSY OR NVME_SC_DNR, None, r, nvmet_subsys_put ya t)
                     else
                       let cntlid = of_int ret;
                           c = make_ctrl e (y_type y) subsysnqn hostnqn kato cntlid;
                           t = t\<lparr>t_cntlids := insert (nat ret) (t_cntlids t)\<rparr>;
                           t = upd_subsys ya (\<lambda>y. y\<lparr>y_ctrls := y_ctrls y @ [c]\<rparr>) t
                       in (0, Some (ya, cntlid), r, t))"

section \<open>Connecting queues\<close>

text \<open>\<open>instq\<close> is the status of the transport's \<open>install_queue\<close>, if it has one.\<close>

definition nvmet_install_queue ::
  "u16 option \<Rightarrow> nat \<times> u16 \<Rightarrow> nat \<Rightarrow> nvmet_req \<Rightarrow> target \<Rightarrow> u16 \<times> nvmet_req \<times> target" where
  "nvmet_install_queue instq p qa r t =
     (let qid = tc_qid (r_cmd r);
          sqsize = tc_sqsize (r_cmd r);
          err = (\<lambda>ret r t. (ret, r, upd_tq qa (\<lambda>tq. tq\<lparr>tq_ctrl := None\<rparr>) t))
      in if tq_ctrl (t_queues t qa) \<noteq> None
         then (NVME_SC_CONNECT_CTRL_BUSY OR NVME_SC_DNR, r\<lparr>r_error_loc := OFF_OPCODE\<rparr>, t)
         else
           let t = upd_tq qa (\<lambda>tq. tq\<lparr>tq_ctrl := Some p\<rparr>) t
           in if sqsize = 0
              then err (NVME_SC_CONNECT_INVALID_PARAM OR NVME_SC_DNR) (r\<lparr>r_error_loc := OFF_CONNECT_SQSIZE\<rparr>) t
              else
                let t = upd_ctrl_at p (\<lambda>c. c\<lparr>n_cqs := (n_cqs c)(unat qid \<mapsto> sqsize + 1)\<rparr>) t;
                    t = upd_tq qa (\<lambda>tq. tq\<lparr>tq_sq := (tq_sq tq)
                          \<lparr>sq_sqhd := 0, sq_qid := qid, sq_size := sqsize + 1\<rparr>\<rparr>) t;
                    t = upd_ctrl_at p (\<lambda>c. c\<lparr>n_sqs := (n_sqs c)(unat qid \<mapsto> qa)\<rparr>) t;
                    (r, t) = (if tc_cattr (r_cmd r) AND NVME_CONNECT_DISABLE_SQFLOW \<noteq> 0
                              then (r\<lparr>r_sq_head := 0xffff\<rparr>,
                                    upd_tq qa (\<lambda>tq. tq\<lparr>tq_sq := (tq_sq tq)\<lparr>sq_sqhd_disabled := True\<rparr>\<rparr>) t)
                              else (r, t))
                in case instq of
                     None \<Rightarrow> (0, r, t)
                   | Some ret \<Rightarrow> if ret \<noteq> 0 then err ret r t else (0, r, t))"

text \<open>The data of a connect command (\<open>struct nvmf_connect_data\<close>), and a C string in it.\<close>

definition cstr_at :: "nat \<Rightarrow> u8 list \<Rightarrow> string" where
  "cstr_at off d = map (\<lambda>b. char_of (unat b)) (takeWhile (\<lambda>b. b \<noteq> 0) (drop off d))"

definition d_hostid :: "u8 list \<Rightarrow> u8 list" where "d_hostid d = take 16 d"
definition d_cntlid :: "u8 list \<Rightarrow> u16" where "d_cntlid d = of_nat (le_nat (take 2 (drop CONNECT_DATA_CNTLID d)))"
definition d_subsysnqn :: "u8 list \<Rightarrow> string" where "d_subsysnqn d = cstr_at CONNECT_DATA_SUBSYSNQN d"
definition d_hostnqn :: "u8 list \<Rightarrow> string" where "d_hostnqn d = cstr_at CONNECT_DATA_HOSTNQN d"

abbreviation (input) SIZEOF_CONNECT_DATA :: nat where "SIZEOF_CONNECT_DATA \<equiv> 1024"

definition set_result_u16 :: "u16 \<Rightarrow> nvmet_req \<Rightarrow> nvmet_req" where
  "set_result_u16 v r = r\<lparr>r_result := (r_result r AND NOT 0xffff) OR ucast v\<rparr>"

definition nvmet_execute_admin_connect ::
  "bool \<Rightarrow> alloc_env \<Rightarrow> u16 option \<Rightarrow> nvmet_port option \<Rightarrow> nat \<Rightarrow> nvmet_req \<Rightarrow> target \<Rightarrow> target" where
  "nvmet_execute_admin_connect alloc e instq port qa r t =
     (let complete = (\<lambda>status r t. on_queue qa (nvmet_req_complete status r) t)
      in if \<not> alloc then complete NVME_SC_INTERNAL r t
      else
        let (status, d, r) = nvmet_copy_from_sgl 0 SIZEOF_CONNECT_DATA r
        in if status \<noteq> 0 then complete status r t
        else
          let r = nvmet_set_result 0 r
          in if tc_recfmt (r_cmd r) \<noteq> 0
             then complete (NVME_SC_CONNECT_FORMAT OR NVME_SC_DNR) (r\<lparr>r_error_loc := OFF_CONNECT_RECFMT\<rparr>) t
             else if d_cntlid d \<noteq> 0xffff
             then complete (NVME_SC_CONNECT_INVALID_PARAM OR NVME_SC_DNR)
                    (nvmet_set_result (connect_data_at CONNECT_DATA_CNTLID) r) t
             else
               let (status, ctrl, r, t) = nvmet_alloc_ctrl e (d_subsysnqn d) (d_hostnqn d) port (tc_kato (r_cmd r)) r t
               in case ctrl of
                    None \<Rightarrow> complete status
                      (if status = NVME_SC_INVALID_FIELD OR NVME_SC_DNR then r\<lparr>r_error_loc := OFF_OPCODE\<rparr> else r) t
                  | Some p \<Rightarrow>
                      let t = upd_ctrl_at p (\<lambda>c. c\<lparr>n_hostid := d_hostid d\<rparr>) t;
                          (status, r, t) = nvmet_install_queue instq p qa r t
                      in if status \<noteq> 0 then complete status r (nvmet_ctrl_put p t)
                         else complete 0 (set_result_u16 (snd p) r) t)"

definition nvmet_execute_io_connect ::
  "bool \<Rightarrow> u16 option \<Rightarrow> nvmet_port option \<Rightarrow> nat \<Rightarrow> nvmet_req \<Rightarrow> target \<Rightarrow> target" where
  "nvmet_execute_io_connect alloc instq port qa r t =
     (let complete = (\<lambda>status r t. on_queue qa (nvmet_req_complete status r) t);
          qid = tc_qid (r_cmd r)
      in if \<not> alloc then complete NVME_SC_INTERNAL r t
      else
        let (status, d, r) = nvmet_copy_from_sgl 0 SIZEOF_CONNECT_DATA r
        in if status \<noteq> 0 then complete status r t
        else
          let r = nvmet_set_result 0 r
          in if tc_recfmt (r_cmd r) \<noteq> 0
             then complete (NVME_SC_CONNECT_FORMAT OR NVME_SC_DNR) r t
             else
               let (status, ctrl, r, t) = nvmet_ctrl_find_get (d_subsysnqn d) (d_hostnqn d) (d_cntlid d) port r t
               in case ctrl of
                    None \<Rightarrow> complete status r t
                  | Some p \<Rightarrow>
                      (case t_subsys t (fst p) of
                         None \<Rightarrow> t
                       | Some y \<Rightarrow>
                           if y_max_qid y < qid
                           then complete (NVME_SC_CONNECT_INVALID_PARAM OR NVME_SC_DNR)
                                  (nvmet_set_result (connect_sqe_at CONNECT_CMD_QID) r) (nvmet_ctrl_put p t)
                           else
                             let (status, r, t) = nvmet_install_queue instq p qa r t
                             in if status \<noteq> 0
                                then complete status (set_result_u16 (snd p) r) (nvmet_ctrl_put p t)
                                else complete 0 r t))"

text \<open>
  Destroying a queue. The wait for the requests in execution is left out: their completions come first.
\<close>

definition nvmet_sq_destroy :: "nat \<Rightarrow> target \<Rightarrow> target" where
  "nvmet_sq_destroy qa t =
     (let t = (case Option.bind (tq_ctrl (t_queues t qa)) (ctrl_at t) of
                 None \<Rightarrow> t
               | Some c \<Rightarrow> if n_sqs c 0 = Some qa then on_queue qa nvmet_async_events_free t else t)
      in case tq_ctrl (t_queues t qa) of
           None \<Rightarrow> t
         | Some p \<Rightarrow> upd_tq qa (\<lambda>tq. tq\<lparr>tq_ctrl := None\<rparr>) (nvmet_ctrl_put p t))"

section \<open>Looking things up after a change\<close>

lemma upd_subsys_at [simp]:
  "t_subsys (upd_subsys ya f t) yb = (if yb = ya then map_option f (t_subsys t ya) else t_subsys t yb)"
  "t_queues (upd_subsys ya f t) = t_queues t" "t_cntlids (upd_subsys ya f t) = t_cntlids t"
  "t_disc (upd_subsys ya f t) = t_disc t"
  by (simp_all add: upd_subsys_def)

lemma upd_tq_at [simp]:
  "t_queues (upd_tq qa f t) qb = (if qb = qa then f (t_queues t qa) else t_queues t qb)"
  "t_subsys (upd_tq qa f t) = t_subsys t" "t_cntlids (upd_tq qa f t) = t_cntlids t"
  "t_disc (upd_tq qa f t) = t_disc t"
  by (simp_all add: upd_tq_def)

lemma upd_ctrl_queues [simp]:
  "t_queues (upd_ctrl_at p f t) = t_queues t" "t_cntlids (upd_ctrl_at p f t) = t_cntlids t"
  "t_disc (upd_ctrl_at p f t) = t_disc t"
  by (simp_all add: upd_ctrl_at_def)

lemma ctrl_at_upd_tq [simp]: "ctrl_at (upd_tq qa f t) = ctrl_at t"
  by (rule ext) (simp add: ctrl_at_def)

lemma find_upd_first:
  "(\<And>x. n_cntlid (f x) = n_cntlid x) \<Longrightarrow>
   find (\<lambda>c. n_cntlid c = i) (upd_first (\<lambda>c. n_cntlid c = j) f l) =
     (if i = j then map_option f (find (\<lambda>c. n_cntlid c = j) l) else find (\<lambda>c. n_cntlid c = i) l)"
  by (induction l) auto

lemma map_upd_first:
  "(\<And>x. n_cntlid (f x) = n_cntlid x) \<Longrightarrow> map n_cntlid (upd_first P f l) = map n_cntlid l"
  by (induction l) auto

lemma upd_first_same: "upd_first (\<lambda>c. n_cntlid c = j) f l = upd_first (\<lambda>c. n_cntlid c = j) g l"
  if "\<And>x. find (\<lambda>c. n_cntlid c = j) l = Some x \<Longrightarrow> f x = g x"
  using that by (induction l) auto

lemma ctrl_at_upd_ctrl:
  assumes "\<And>x. n_cntlid (f x) = n_cntlid x"
  shows "ctrl_at (upd_ctrl_at p f t) p' = (if p = p' then map_option f (ctrl_at t p) else ctrl_at t p')"
  by (cases p; cases p')
    (auto simp: ctrl_at_def upd_ctrl_at_def find_upd_first [OF assms] split: option.splits)

lemma ctrl_at_upd_subsys [simp]:
  "(\<And>y. y_ctrls (f y) = y_ctrls y) \<Longrightarrow> ctrl_at (upd_subsys ya f t) = ctrl_at t"
  by (rule ext) (auto simp: ctrl_at_def split: option.splits)

lemma ctrl_at_cntlid: "ctrl_at t p = Some c \<Longrightarrow> n_cntlid c = snd p"
  by (auto simp: ctrl_at_def find_Some_iff split: option.splits)

section \<open>References\<close>

text \<open>The queues connected to a controller.\<close>

definition conns :: "target \<Rightarrow> nat \<times> u16 \<Rightarrow> nat set" where
  "conns t p = {qa. tq_ctrl (t_queues t qa) = Some p}"

text \<open>
  The invariant of the target. \<open>xs\<close> are the references to controllers, \<open>ys\<close> those to subsystems, that a
  handler in execution holds; every subsystem has one more from its configuration.
\<close>

definition ctrls_inv ::
  "(nat \<times> u16 \<Rightarrow> nvmet_ctrl option) \<Rightarrow> (nat \<times> u16 \<Rightarrow> nat set) \<Rightarrow> (nat \<times> u16 \<Rightarrow> nat) \<Rightarrow> nat set \<Rightarrow> bool" where
  "ctrls_inv ca cn xs used \<longleftrightarrow>
     (\<forall>p. case ca p of
            None \<Rightarrow> cn p = {} \<and> xs p = 0
          | Some c \<Rightarrow> finite (cn p) \<and> n_ref c = card (cn p) + xs p \<and> n_ref c \<noteq> 0 \<and> unat (snd p) \<in> used) \<and>
     (\<forall>n \<in> used. n < 65536 \<and> (\<exists>ya. ca (ya, of_nat n) \<noteq> None)) \<and>
     (\<forall>ya yb i. ca (ya, i) \<noteq> None \<longrightarrow> ca (yb, i) \<noteq> None \<longrightarrow> ya = yb)"

definition subs_inv :: "(nat \<Rightarrow> nat) \<Rightarrow> (nat \<rightharpoonup> nvmet_subsys) \<Rightarrow> bool" where
  "subs_inv ys ss \<longleftrightarrow>
     (\<forall>ya. case ss ya of
             None \<Rightarrow> ys ya = 0
           | Some y \<Rightarrow> distinct (map n_cntlid (y_ctrls y)) \<and> y_ref y = Suc (length (y_ctrls y) + ys ya))"

definition target_inv :: "(nat \<times> u16 \<Rightarrow> nat) \<Rightarrow> (nat \<Rightarrow> nat) \<Rightarrow> target \<Rightarrow> bool" where
  "target_inv xs ys t \<longleftrightarrow> ctrls_inv (ctrl_at t) (conns t) xs (t_cntlids t) \<and> subs_inv ys (t_subsys t)"

lemma conns_same [simp]:
  "conns (upd_subsys ya f t) = conns t" "conns (upd_ctrl_at p g t) = conns t"
  by (rule ext, simp add: conns_def)+

text \<open>Updates of a subsystem's count and of a controller's count that fit the handler's books.\<close>

lemma inv_subsys_get:
  assumes "target_inv xs ys t" and "t_subsys t ya = Some y"
  shows "target_inv xs (ys(ya := ys ya + 1)) (upd_subsys ya (\<lambda>y. y\<lparr>y_ref := y_ref y + 1\<rparr>) t)"
proof -
  have "subs_inv (ys(ya := ys ya + 1)) (t_subsys (upd_subsys ya (\<lambda>y. y\<lparr>y_ref := y_ref y + 1\<rparr>) t))"
    unfolding subs_inv_def
  proof
    fix yb
    have "case t_subsys t yb of None \<Rightarrow> ys yb = 0
      | Some y \<Rightarrow> distinct (map n_cntlid (y_ctrls y)) \<and> y_ref y = Suc (length (y_ctrls y) + ys yb)"
      using assms(1) unfolding target_inv_def subs_inv_def by blast
    then show "case t_subsys (upd_subsys ya (\<lambda>y. y\<lparr>y_ref := y_ref y + 1\<rparr>) t) yb of
        None \<Rightarrow> (ys(ya := ys ya + 1)) yb = 0
      | Some y \<Rightarrow> distinct (map n_cntlid (y_ctrls y)) \<and> y_ref y = Suc (length (y_ctrls y) + (ys(ya := ys ya + 1)) yb)"
      using assms(2) by (auto split: option.splits)
  qed
  with assms(1) show ?thesis by (simp add: target_inv_def)
qed

lemma inv_subsys_put:
  assumes "target_inv xs (ys(ya := ys ya + 1)) t"
  shows "target_inv xs ys (nvmet_subsys_put ya t)"
proof -
  have s: "case t_subsys t yb of None \<Rightarrow> (ys(ya := ys ya + 1)) yb = 0
      | Some y \<Rightarrow> distinct (map n_cntlid (y_ctrls y)) \<and> y_ref y = Suc (length (y_ctrls y) + (ys(ya := ys ya + 1)) yb)" for yb
    using assms unfolding target_inv_def subs_inv_def by blast
  obtain y where y: "t_subsys t ya = Some y"
    using s [of ya] by (cases "t_subsys t ya") auto
  then have ref: "y_ref y = Suc (length (y_ctrls y) + ys ya + 1)"
    using s [of ya] by simp
  have eq: "nvmet_subsys_put ya t = upd_subsys ya (\<lambda>y. y\<lparr>y_ref := y_ref y - 1\<rparr>) t"
    using y ref by (simp add: nvmet_subsys_put_def)
  have "subs_inv ys (t_subsys (nvmet_subsys_put ya t))"
    unfolding subs_inv_def eq
  proof
    show "case t_subsys (upd_subsys ya (\<lambda>y. y\<lparr>y_ref := y_ref y - 1\<rparr>) t) yb of None \<Rightarrow> ys yb = 0
      | Some y \<Rightarrow> distinct (map n_cntlid (y_ctrls y)) \<and> y_ref y = Suc (length (y_ctrls y) + ys yb)" for yb
      using s [of yb] y by (auto split: option.splits if_splits)
  qed
  with assms show ?thesis by (simp add: target_inv_def eq)
qed

lemma subs_inv_ctrls:
  assumes "subs_inv ys (t_subsys t)" and "\<And>c. n_cntlid (f c) = n_cntlid c"
  shows "subs_inv ys (t_subsys (upd_ctrl_at p f t))"
  unfolding subs_inv_def
proof
  fix yb
  have len: "length (upd_first P f l) = length l" for P l
    by (induction l) simp_all
  have "case t_subsys t yb of None \<Rightarrow> ys yb = 0
      | Some y \<Rightarrow> distinct (map n_cntlid (y_ctrls y)) \<and> y_ref y = Suc (length (y_ctrls y) + ys yb)"
    using assms(1) unfolding subs_inv_def by blast
  then show "case t_subsys (upd_ctrl_at p f t) yb of None \<Rightarrow> ys yb = 0
      | Some y \<Rightarrow> distinct (map n_cntlid (y_ctrls y)) \<and> y_ref y = Suc (length (y_ctrls y) + ys yb)"
    by (auto simp: upd_ctrl_at_def map_upd_first [OF assms(2)] len split: option.splits)
qed

lemma inv_ctrl_upd:
  assumes inv: "target_inv xs ys t" and f: "\<And>c. n_cntlid (f c) = n_cntlid c"
    and c0: "ctrl_at t p = Some c" and r: "n_ref (f c) = card (conns t p) + xs'" "n_ref (f c) \<noteq> 0"
  shows "target_inv (xs(p := xs')) ys (upd_ctrl_at p f t)"
proof -
  have ca: "ctrl_at (upd_ctrl_at p f t) = (ctrl_at t)(p := Some (f c))"
    by (rule ext) (simp add: ctrl_at_upd_ctrl [OF f] c0)
  have ci: "ctrls_inv (ctrl_at t) (conns t) xs (t_cntlids t)" using inv by (simp add: target_inv_def)
  have "ctrls_inv ((ctrl_at t)(p := Some (f c))) (conns t) (xs(p := xs')) (t_cntlids t)"
    unfolding ctrls_inv_def
  proof (intro conjI allI impI ballI)
    fix q
    have "case ctrl_at t q of None \<Rightarrow> conns t q = {} \<and> xs q = 0
        | Some c \<Rightarrow> finite (conns t q) \<and> n_ref c = card (conns t q) + xs q \<and> n_ref c \<noteq> 0 \<and> unat (snd q) \<in> t_cntlids t"
      using ci unfolding ctrls_inv_def by blast
    then show "case ((ctrl_at t)(p := Some (f c))) q of None \<Rightarrow> conns t q = {} \<and> (xs(p := xs')) q = 0
        | Some c \<Rightarrow> finite (conns t q) \<and> n_ref c = card (conns t q) + (xs(p := xs')) q \<and> n_ref c \<noteq> 0 \<and>
            unat (snd q) \<in> t_cntlids t"
      using c0 r by (cases "q = p") (auto split: option.splits)
  next
    have some: "((ctrl_at t)(p := Some (f c))) q \<noteq> None \<longleftrightarrow> ctrl_at t q \<noteq> None" for q using c0 by simp
    fix n assume "n \<in> t_cntlids t"
    then show "n < 65536" "\<exists>ya. ((ctrl_at t)(p := Some (f c))) (ya, of_nat n) \<noteq> None"
      using ci unfolding ctrls_inv_def some by blast+
  next
    fix ya yb i
    assume "((ctrl_at t)(p := Some (f c))) (ya, i) \<noteq> None" "((ctrl_at t)(p := Some (f c))) (yb, i) \<noteq> None"
    then have "ctrl_at t (ya, i) \<noteq> None" "ctrl_at t (yb, i) \<noteq> None" using c0 by (auto split: if_splits)
    then show "ya = yb" using ci unfolding ctrls_inv_def by blast
  qed
  with subs_inv_ctrls [OF _ f, of ys t p] inv ca show ?thesis by (simp add: target_inv_def)
qed

lemma ctrls_invD:
  assumes "ctrls_inv ca cn xs used"
  shows "ca p = None \<Longrightarrow> cn p = {}" and "ca p = None \<Longrightarrow> xs p = 0"
    and "ca p = Some c \<Longrightarrow> finite (cn p)" and "ca p = Some c \<Longrightarrow> n_ref c = card (cn p) + xs p"
    and "ca p = Some c \<Longrightarrow> n_ref c \<noteq> 0" and "ca p = Some c \<Longrightarrow> unat (snd p) \<in> used"
    and "n \<in> used \<Longrightarrow> n < 65536" and "n \<in> used \<Longrightarrow> \<exists>ya. ca (ya, of_nat n) \<noteq> None"
    and "ca (ya, i) \<noteq> None \<Longrightarrow> ca (yb, i) \<noteq> None \<Longrightarrow> ya = yb"
proof -
  have *: "case ca p of None \<Rightarrow> cn p = {} \<and> xs p = 0
          | Some c \<Rightarrow> finite (cn p) \<and> n_ref c = card (cn p) + xs p \<and> n_ref c \<noteq> 0 \<and> unat (snd p) \<in> used"
    using assms unfolding ctrls_inv_def by blast
  show "ca p = None \<Longrightarrow> cn p = {}" and "ca p = None \<Longrightarrow> xs p = 0"
    and "ca p = Some c \<Longrightarrow> finite (cn p)" and "ca p = Some c \<Longrightarrow> n_ref c = card (cn p) + xs p"
    and "ca p = Some c \<Longrightarrow> n_ref c \<noteq> 0" and "ca p = Some c \<Longrightarrow> unat (snd p) \<in> used"
    using * by auto
  show "n \<in> used \<Longrightarrow> n < 65536" and "n \<in> used \<Longrightarrow> \<exists>ya. ca (ya, of_nat n) \<noteq> None"
    and "ca (ya, i) \<noteq> None \<Longrightarrow> ca (yb, i) \<noteq> None \<Longrightarrow> ya = yb"
    using assms unfolding ctrls_inv_def by blast+
qed

lemma ctrls_invI:
  assumes "\<And>p. ca p = None \<Longrightarrow> cn p = {} \<and> xs p = 0"
    and "\<And>p c. ca p = Some c \<Longrightarrow> finite (cn p) \<and> n_ref c = card (cn p) + xs p \<and> n_ref c \<noteq> 0 \<and> unat (snd p) \<in> used"
    and "\<And>n. n \<in> used \<Longrightarrow> n < 65536 \<and> (\<exists>ya. ca (ya, of_nat n) \<noteq> None)"
    and "\<And>ya yb i. ca (ya, i) \<noteq> None \<Longrightarrow> ca (yb, i) \<noteq> None \<Longrightarrow> ya = yb"
  shows "ctrls_inv ca cn xs used"
  unfolding ctrls_inv_def
proof (intro conjI allI impI ballI)
  show "case ca p of None \<Rightarrow> cn p = {} \<and> xs p = 0
      | Some c \<Rightarrow> finite (cn p) \<and> n_ref c = card (cn p) + xs p \<and> n_ref c \<noteq> 0 \<and> unat (snd p) \<in> used" for p
    using assms(1) [of p] assms(2) [of p] by (cases "ca p") auto
qed (use assms(3,4) in blast)+

lemma subs_invD:
  assumes "subs_inv ys ss"
  shows "ss ya = Some y \<Longrightarrow> distinct (map n_cntlid (y_ctrls y))"
    and "ss ya = Some y \<Longrightarrow> y_ref y = Suc (length (y_ctrls y) + ys ya)" and "ss ya = None \<Longrightarrow> ys ya = 0"
proof -
  have "case ss ya of None \<Rightarrow> ys ya = 0
      | Some y \<Rightarrow> distinct (map n_cntlid (y_ctrls y)) \<and> y_ref y = Suc (length (y_ctrls y) + ys ya)"
    using assms unfolding subs_inv_def by blast
  then show "ss ya = Some y \<Longrightarrow> distinct (map n_cntlid (y_ctrls y))"
    and "ss ya = Some y \<Longrightarrow> y_ref y = Suc (length (y_ctrls y) + ys ya)" and "ss ya = None \<Longrightarrow> ys ya = 0"
    by simp_all
qed

lemma subs_invI:
  assumes "\<And>ya. ss ya = None \<Longrightarrow> ys ya = 0"
    and "\<And>ya y. ss ya = Some y \<Longrightarrow> distinct (map n_cntlid (y_ctrls y)) \<and> y_ref y = Suc (length (y_ctrls y) + ys ya)"
  shows "subs_inv ys ss"
  unfolding subs_inv_def using assms by (auto split: option.splits)

lemma find_filter_ne:
  "find (\<lambda>c. n_cntlid c = i) (filter (\<lambda>c. n_cntlid c \<noteq> j) l) =
   (if i = j then None else find (\<lambda>c. n_cntlid c = i) l)"
  by (induction l) auto

lemma length_filter_ne:
  "distinct (map n_cntlid l) \<Longrightarrow> find (\<lambda>c. n_cntlid c = j) l = Some c \<Longrightarrow>
   Suc (length (filter (\<lambda>c. n_cntlid c \<noteq> j) l)) = length l"
proof (induction l)
  case Nil
  then show ?case by simp
next
  case (Cons x xs)
  show ?case
  proof (cases "n_cntlid x = j")
    case True
    have "n_cntlid x \<notin> n_cntlid ` set xs" using Cons.prems(1) by simp
    with True have "\<forall>c \<in> set xs. n_cntlid c \<noteq> j" by (metis imageI)
    then have "filter (\<lambda>c. n_cntlid c \<noteq> j) xs = xs" by simp
    with True show ?thesis by simp
  next
    case False
    with Cons show ?thesis by simp
  qed
qed

lemma u16_of_nat_eq: "n < 65536 \<Longrightarrow> (of_nat n = (i :: u16)) = (n = unat i)"
  by (auto simp: unat_of_nat)

lemma inv_drop_ctrl:
  assumes inv: "target_inv xs ys t" and c: "ctrl_at t p = Some c" and no: "conns t p = {}"
  shows "target_inv (xs(p := 0)) (ys(fst p := ys (fst p) + 1))
    ((upd_subsys (fst p) (\<lambda>y. y\<lparr>y_ctrls := filter (\<lambda>c. n_cntlid c \<noteq> snd p) (y_ctrls y)\<rparr>) t)
      \<lparr>t_cntlids := t_cntlids t - {unat (snd p)}\<rparr>)"
    (is "target_inv _ _ ?t")
proof -
  have ci: "ctrls_inv (ctrl_at t) (conns t) xs (t_cntlids t)" and si: "subs_inv ys (t_subsys t)"
    using inv by (simp_all add: target_inv_def)
  obtain y where y: "t_subsys t (fst p) = Some y" "find (\<lambda>c. n_cntlid c = snd p) (y_ctrls y) = Some c"
    using c by (auto simp: ctrl_at_def split: option.splits)
  have ca: "ctrl_at ?t = (ctrl_at t)(p := None)"
  proof
    show "ctrl_at ?t q = ((ctrl_at t)(p := None)) q" for q
      by (cases p; cases q) (auto simp: ctrl_at_def find_filter_ne split: option.splits)
  qed
  have cn: "conns ?t = conns t" by (rule ext) (simp add: conns_def)
  have "ctrls_inv (ctrl_at ?t) (conns ?t) (xs(p := 0)) (t_cntlids ?t)"
    unfolding ca cn
  proof (rule ctrls_invI)
    show "conns t q = {} \<and> (xs(p := 0)) q = 0" if "((ctrl_at t)(p := None)) q = None" for q
      using that no ctrls_invD(1,2) [OF ci, of q] by (auto split: if_splits)
  next
    fix q c' assume "((ctrl_at t)(p := None)) q = Some c'"
    then have q: "q \<noteq> p" "ctrl_at t q = Some c'" by (auto split: if_splits)
    have "unat (snd q) \<noteq> unat (snd p)"
    proof
      assume "unat (snd q) = unat (snd p)"
      then have "snd q = snd p" by (simp only: word_unat_eq_iff)
      moreover from this have "fst q = fst p"
        using ctrls_invD(9) [OF ci, of "fst q" "snd p" "fst p"] q(2) c by (metis option.simps(3) prod.collapse)
      ultimately show False using q(1) by (simp add: prod_eq_iff)
    qed
    then show "finite (conns t q) \<and> n_ref c' = card (conns t q) + (xs(p := 0)) q \<and> n_ref c' \<noteq> 0 \<and>
        unat (snd q) \<in> t_cntlids ?t"
      using q ctrls_invD(3-6) [OF ci q(2)] by simp
  next
    fix n assume n: "n \<in> t_cntlids ?t"
    then obtain ya where "n < 65536" "ctrl_at t (ya, of_nat n) \<noteq> None"
      using ctrls_invD(7,8) [OF ci, of n] by auto
    moreover have "(ya, of_nat n) \<noteq> p"
      using n u16_of_nat_eq [OF \<open>n < 65536\<close>, of "snd p"] by (cases p) auto
    ultimately show "n < 65536 \<and> (\<exists>ya. ((ctrl_at t)(p := None)) (ya, of_nat n) \<noteq> None)" by auto
  next
    show "ya = yb" if "((ctrl_at t)(p := None)) (ya, i) \<noteq> None" "((ctrl_at t)(p := None)) (yb, i) \<noteq> None" for ya yb i
      using that ctrls_invD(9) [OF ci, of ya i yb] by (auto split: if_splits)
  qed
  moreover have "subs_inv (ys(fst p := ys (fst p) + 1)) (t_subsys ?t)"
  proof (rule subs_invI)
    show "(ys(fst p := ys (fst p) + 1)) ya = 0" if "t_subsys ?t ya = None" for ya
      using that y subs_invD(3) [OF si, of ya] by (auto split: if_splits)
  next
    fix ya y' assume y': "t_subsys ?t ya = Some y'"
    show "distinct (map n_cntlid (y_ctrls y')) \<and> y_ref y' = Suc (length (y_ctrls y') + (ys(fst p := ys (fst p) + 1)) ya)"
    proof (cases "ya = fst p")
      case True
      have d: "distinct (map n_cntlid (y_ctrls y))" and r: "y_ref y = Suc (length (y_ctrls y) + ys (fst p))"
        using subs_invD(1,2) [OF si y(1)] by simp_all
      have "distinct (map n_cntlid (filter P (y_ctrls y)))" for P
        using d by (rule distinct_map_filter)
      with True y y' r length_filter_ne [OF d y(2)] show ?thesis by auto
    next
      case False
      with y' subs_invD(1,2) [OF si, of ya y'] show ?thesis by auto
    qed
  qed
  ultimately show ?thesis by (simp add: target_inv_def)
qed

lemma upd_subsys_twice: "upd_subsys ya f (upd_subsys ya g t) = upd_subsys ya (\<lambda>y. f (g y)) t"
  by (simp add: upd_subsys_def map_option.compositionality comp_def)

lemma inv_ctrl_put:
  assumes inv: "target_inv (xs(p := xs p + 1)) ys t"
  shows "target_inv xs ys (nvmet_ctrl_put p t)"
proof -
  have ci: "ctrls_inv (ctrl_at t) (conns t) (xs(p := xs p + 1)) (t_cntlids t)"
    using inv by (simp add: target_inv_def)
  obtain c where c: "ctrl_at t p = Some c"
    using ctrls_invD(2) [OF ci, of p] by (cases "ctrl_at t p") auto
  have r: "n_ref c = card (conns t p) + xs p + 1" "finite (conns t p)"
    using ctrls_invD(3,4) [OF ci c] by simp_all
  show ?thesis
  proof (cases "n_ref c \<le> 1")
    case False
    have "target_inv ((xs(p := xs p + 1))(p := xs p)) ys (upd_ctrl_at p (\<lambda>c. c\<lparr>n_ref := n_ref c - 1\<rparr>) t)"
      by (rule inv_ctrl_upd [OF inv _ c]) (use False r in simp_all)
    with False c show ?thesis by (simp add: nvmet_ctrl_put_def)
  next
    case True
    with r have no: "conns t p = {}" "xs p = 0" by simp_all
    let ?t = "upd_ctrl_at p (\<lambda>c. c\<lparr>n_ref := n_ref c - 1\<rparr>) t"
    have "(upd_subsys (fst p) (\<lambda>y. y\<lparr>y_ctrls := filter (\<lambda>c. n_cntlid c \<noteq> snd p) (y_ctrls y)\<rparr>) ?t) =
        upd_subsys (fst p) (\<lambda>y. y\<lparr>y_ctrls := filter (\<lambda>c. n_cntlid c \<noteq> snd p) (y_ctrls y)\<rparr>) t"
    proof -
      have "filter (\<lambda>c. n_cntlid c \<noteq> i) (upd_first (\<lambda>c. n_cntlid c = i) (\<lambda>c. c\<lparr>n_ref := n_ref c - 1\<rparr>) l) =
          filter (\<lambda>c. n_cntlid c \<noteq> i) l" for i and l :: "nvmet_ctrl list"
        by (induction l) auto
      then show ?thesis
        by (simp add: upd_ctrl_at_def upd_subsys_twice)
    qed
    moreover have "target_inv ((xs(p := xs p + 1))(p := 0)) (ys(fst p := ys (fst p) + 1))
      ((upd_subsys (fst p) (\<lambda>y. y\<lparr>y_ctrls := filter (\<lambda>c. n_cntlid c \<noteq> snd p) (y_ctrls y)\<rparr>) t)
        \<lparr>t_cntlids := t_cntlids t - {unat (snd p)}\<rparr>)"
      by (rule inv_drop_ctrl [OF inv c no(1)])
    ultimately have "target_inv xs ys (nvmet_ctrl_free p ?t)"
      using no(2) by (auto simp: nvmet_ctrl_free_def Let_def fun_upd_idem intro!: inv_subsys_put)
    with True c show ?thesis by (simp add: nvmet_ctrl_put_def)
  qed
qed

lemma inv_add_ctrl:
  assumes inv: "target_inv xs (ys(ya := ys ya + 1)) t" and y: "t_subsys t ya = Some y"
    and new: "i \<notin> t_cntlids t" "i < 65536" "n_cntlid c = of_nat i" "n_ref c = 1"
  shows "target_inv (xs((ya, of_nat i) := 1)) ys
    (upd_subsys ya (\<lambda>y. y\<lparr>y_ctrls := y_ctrls y @ [c]\<rparr>) (t\<lparr>t_cntlids := insert i (t_cntlids t)\<rparr>))"
    (is "target_inv _ _ ?t")
proof -
  have ci: "ctrls_inv (ctrl_at t) (conns t) xs (t_cntlids t)" and si: "subs_inv (ys(ya := ys ya + 1)) (t_subsys t)"
    using inv by (simp_all add: target_inv_def)
  have u: "unat (of_nat i :: u16) = i" using new(2) by (simp add: unat_of_nat)
  have none: "ctrl_at t (yb, of_nat i) = None" for yb
    using ctrls_invD(6) [OF ci, of "(yb, of_nat i)"] new(1) u by (cases "ctrl_at t (yb, of_nat i)") auto
  have nc: "find (\<lambda>c. n_cntlid c = of_nat i) (y_ctrls y) = None"
    using none [of ya] y by (simp add: ctrl_at_def)
  have fa: "find P (l @ [x]) = (case find P l of None \<Rightarrow> if P x then Some x else None | Some z \<Rightarrow> Some z)"
    for P and l :: "nvmet_ctrl list" and x
    by (induction l) auto
  have ca: "ctrl_at ?t = (ctrl_at t)((ya, of_nat i) := Some c)"
  proof
    fix q
    show "ctrl_at ?t q = ((ctrl_at t)((ya, of_nat i) := Some c)) q"
      using nc new(3) y by (cases q) (auto simp: ctrl_at_def fa split: option.splits)
  qed
  have cn: "conns ?t = conns t" by (rule ext) (simp add: conns_def)
  have "ctrls_inv (ctrl_at ?t) (conns ?t) (xs((ya, of_nat i) := 1)) (t_cntlids ?t)"
    unfolding ca cn
  proof (rule ctrls_invI)
    show "conns t q = {} \<and> (xs((ya, of_nat i) := 1)) q = 0" if "((ctrl_at t)((ya, of_nat i) := Some c)) q = None" for q
      using that ctrls_invD(1,2) [OF ci, of q] by (auto split: if_splits)
  next
    fix q c' assume *: "((ctrl_at t)((ya, of_nat i) := Some c)) q = Some c'"
    show "finite (conns t q) \<and> n_ref c' = card (conns t q) + (xs((ya, of_nat i) := 1)) q \<and> n_ref c' \<noteq> 0 \<and>
        unat (snd q) \<in> t_cntlids ?t"
    proof (cases "q = (ya, of_nat i)")
      case True
      with * new(4) u ctrls_invD(1) [OF ci none] show ?thesis by simp
    next
      case False
      with * have "ctrl_at t q = Some c'" by simp
      from ctrls_invD(3-6) [OF ci this] False show ?thesis by simp
    qed
  next
    fix n assume "n \<in> t_cntlids ?t"
    then show "n < 65536 \<and> (\<exists>yb. ((ctrl_at t)((ya, of_nat i) := Some c)) (yb, of_nat n) \<noteq> None)"
      using new(2) ctrls_invD(7,8) [OF ci, of n] by (cases "n = i") auto
  next
    fix yb yc j
    assume "((ctrl_at t)((ya, of_nat i) := Some c)) (yb, j) \<noteq> None" "((ctrl_at t)((ya, of_nat i) := Some c)) (yc, j) \<noteq> None"
    then show "yb = yc"
      using none ctrls_invD(9) [OF ci, of yb j yc] by (cases "j = of_nat i") (auto split: if_splits)
  qed
  moreover have "subs_inv ys (t_subsys ?t)"
  proof (rule subs_invI)
    show "ys yb = 0" if "t_subsys ?t yb = None" for yb
      using that y subs_invD(3) [OF si, of yb] by (auto split: if_splits)
  next
    fix yb y' assume y': "t_subsys ?t yb = Some y'"
    show "distinct (map n_cntlid (y_ctrls y')) \<and> y_ref y' = Suc (length (y_ctrls y') + ys yb)"
    proof (cases "yb = ya")
      case True
      have "of_nat i \<notin> n_cntlid ` set (y_ctrls y)"
        using nc by (auto simp: find_None_iff)
      with True y y' new(3) subs_invD(1,2) [OF si y] show ?thesis by auto
    next
      case False
      with y' subs_invD(1,2) [OF si, of yb y'] show ?thesis by auto
    qed
  qed
  ultimately show ?thesis by (simp add: target_inv_def)
qed

lemma inv_connect:
  assumes inv: "target_inv (xs(p := xs p + 1)) ys t" and q: "tq_ctrl (t_queues t qa) = None"
    and f: "tq_ctrl (f (t_queues t qa)) = Some p"
  shows "target_inv xs ys (upd_tq qa f t)"
proof -
  have ci: "ctrls_inv (ctrl_at t) (conns t) (xs(p := xs p + 1)) (t_cntlids t)"
    using inv by (simp add: target_inv_def)
  have cn: "conns (upd_tq qa f t) r = (if r = p then insert qa (conns t p) else conns t r)" for r
    using q f by (auto simp: conns_def)
  have out: "qa \<notin> conns t p" using q by (simp add: conns_def)
  have cp: "ctrl_at t p \<noteq> None" using ctrls_invD(2) [OF ci, of p] by auto
  have "ctrls_inv (ctrl_at t) (conns (upd_tq qa f t)) xs (t_cntlids t)"
  proof (rule ctrls_invI)
    show "conns (upd_tq qa f t) r = {} \<and> xs r = 0" if "ctrl_at t r = None" for r
      using that cp cn [of r] ctrls_invD(1,2) [OF ci, of r] by (auto split: if_splits)
    show "finite (conns (upd_tq qa f t) r) \<and> n_ref c = card (conns (upd_tq qa f t) r) + xs r \<and> n_ref c \<noteq> 0 \<and>
        unat (snd r) \<in> t_cntlids t" if "ctrl_at t r = Some c" for r c
      using cn [of r] out ctrls_invD(3-6) [OF ci that] by (auto split: if_splits)
  qed (use ctrls_invD(7-9) [OF ci] in blast)+
  with inv show ?thesis by (simp add: target_inv_def)
qed

lemma inv_disconnect:
  assumes inv: "target_inv xs ys t" and q: "tq_ctrl (t_queues t qa) = Some p"
    and f: "tq_ctrl (f (t_queues t qa)) = None"
  shows "target_inv (xs(p := xs p + 1)) ys (upd_tq qa f t)"
proof -
  have ci: "ctrls_inv (ctrl_at t) (conns t) xs (t_cntlids t)"
    using inv by (simp add: target_inv_def)
  have cn: "conns (upd_tq qa f t) r = (if r = p then conns t p - {qa} else conns t r)" for r
    using q f by (auto simp: conns_def)
  have ina: "qa \<in> conns t p" using q by (simp add: conns_def)
  have "ctrls_inv (ctrl_at t) (conns (upd_tq qa f t)) (xs(p := xs p + 1)) (t_cntlids t)"
  proof (rule ctrls_invI)
    show "conns (upd_tq qa f t) r = {} \<and> (xs(p := xs p + 1)) r = 0" if "ctrl_at t r = None" for r
      using that ina cn [of r] ctrls_invD(1,2) [OF ci, of r] by (auto split: if_splits)
    show "finite (conns (upd_tq qa f t) r) \<and> n_ref c = card (conns (upd_tq qa f t) r) + (xs(p := xs p + 1)) r \<and>
        n_ref c \<noteq> 0 \<and> unat (snd r) \<in> t_cntlids t" if "ctrl_at t r = Some c" for r c
    proof (cases "r = p")
      case True
      then have "Suc (card (conns t p - {qa})) = card (conns t p)"
        using ina ctrls_invD(3) [OF ci that] by (metis card.remove)
      with True show ?thesis using cn [of r] ctrls_invD(3-6) [OF ci that] by auto
    next
      case False
      then show ?thesis using cn [of r] ctrls_invD(3-6) [OF ci that] by auto
    qed
  qed (use ctrls_invD(7-9) [OF ci] in blast)+
  with inv show ?thesis by (simp add: target_inv_def)
qed

lemma inv_queue:
  assumes "target_inv xs ys t" and "\<And>q. tq_ctrl (f q) = tq_ctrl q"
  shows "target_inv xs ys (upd_tq qa f t)"
proof -
  have "conns (upd_tq qa f t) = conns t" using assms(2) by (auto simp: conns_def fun_eq_iff)
  with assms(1) show ?thesis by (simp add: target_inv_def)
qed

section \<open>Handlers keep the books\<close>

text \<open>A handler of one queue leaves the controller's number and its references alone.\<close>

definition keeps_ctrl :: "(nvmet_queue \<Rightarrow> nvmet_queue) \<Rightarrow> bool" where
  "keeps_ctrl h \<longleftrightarrow> (\<forall>q c c'. q_ctrl q = Some c \<longrightarrow> q_ctrl (h q) = Some c' \<longrightarrow>
     n_cntlid c' = n_cntlid c \<and> n_ref c' = n_ref c)"

definition ctrl_ids :: "nvmet_queue \<Rightarrow> (u16 \<times> nat) option" where
  "ctrl_ids q = map_option (\<lambda>c. (n_cntlid c, n_ref c)) (q_ctrl q)"

lemma keeps_ctrlI: "keeps_ctrl h" if "\<And>q. ctrl_ids (h q) = ctrl_ids q"
  unfolding keeps_ctrl_def
proof (intro allI impI)
  fix q c c' assume "q_ctrl q = Some c" "q_ctrl (h q) = Some c'"
  with that [of q] show "n_cntlid c' = n_cntlid c \<and> n_ref c' = n_ref c" by (simp add: ctrl_ids_def)
qed

lemma complete_ids [simp]: "ctrl_ids (nvmet_req_complete status r q) = ctrl_ids q"
  by (simp add: ctrl_ids_def nvmet_req_complete_def nvmet_set_error_def Let_def split: prod.splits option.splits)

lemma upd_ctrl_ids [simp]:
  "(\<And>c. n_cntlid (f c) = n_cntlid c \<and> n_ref (f c) = n_ref c) \<Longrightarrow> ctrl_ids (upd_ctrl f q) = ctrl_ids q"
  by (cases "q_ctrl q") (simp_all add: upd_ctrl_def ctrl_ids_def)

lemma async_free_ids [simp]: "ctrl_ids (async_free_loop n q) = ctrl_ids q"
  by (induction n arbitrary: q) (simp_all add: Let_def split: option.split)

lemma keeps_complete: "keeps_ctrl (nvmet_req_complete status r)"
  by (rule keeps_ctrlI) simp

lemma keeps_async_free: "keeps_ctrl nvmet_async_events_free"
  by (rule keeps_ctrlI) (simp add: nvmet_async_events_free_def split: option.splits)

lemma inv_on_queue:
  assumes inv: "target_inv xs ys t" and h: "keeps_ctrl h"
  shows "target_inv xs ys (on_queue qa h t)"
proof -
  define tq where "tq = t_queues t qa"
  define q where "q = \<lparr>q_sq = tq_sq tq, q_ctrl = Option.bind (tq_ctrl tq) (ctrl_at t), q_out = tq_out tq,
                 q_ns_refs = tq_ns_refs tq\<rparr>"
  define t1 where "t1 = upd_tq qa (\<lambda>tq. tq\<lparr>tq_sq := q_sq (h q), tq_out := q_out (h q), tq_ns_refs := q_ns_refs (h q)\<rparr>) t"
  have i1: "target_inv xs ys t1" unfolding t1_def by (rule inv_queue [OF inv]) simp
  have eq: "on_queue qa h t = (case (tq_ctrl tq, q_ctrl (h q)) of
           (Some p, Some c) \<Rightarrow> upd_ctrl_at p (\<lambda>_. c) t1
         | _ \<Rightarrow> t1)"
    unfolding on_queue_def Let_def tq_def q_def t1_def by (rule refl)
  show ?thesis
  proof (cases "\<exists>p c'. tq_ctrl tq = Some p \<and> q_ctrl (h q) = Some c'")
    case False
    then show ?thesis unfolding eq using i1 by (auto split: option.splits)
  next
    case True
    then obtain p c' where p: "tq_ctrl tq = Some p" and c': "q_ctrl (h q) = Some c'" by auto
    have ci: "ctrls_inv (ctrl_at t) (conns t) xs (t_cntlids t)" using inv by (simp add: target_inv_def)
    have "qa \<in> conns t p" using p by (simp add: conns_def tq_def)
    then obtain c where c: "ctrl_at t p = Some c" using ctrls_invD(1) [OF ci, of p] by (cases "ctrl_at t p") auto
    then have qc: "q_ctrl q = Some c" using p by (simp add: q_def)
    with h c' have k: "n_cntlid c' = n_cntlid c" "n_ref c' = n_ref c" unfolding keeps_ctrl_def by blast+
    define f where "f = (\<lambda>x. if x = c then c' else x)"
    have c1: "ctrl_at t1 p = Some c" using c by (simp add: t1_def)
    have "upd_ctrl_at p (\<lambda>_. c') t1 = upd_ctrl_at p f t1"
    proof -
      obtain y where y: "t_subsys t1 (fst p) = Some y" "find (\<lambda>c. n_cntlid c = snd p) (y_ctrls y) = Some c"
        using c1 by (auto simp: ctrl_at_def split: option.splits)
      have "upd_first (\<lambda>c. n_cntlid c = snd p) (\<lambda>_. c') (y_ctrls y) = upd_first (\<lambda>c. n_cntlid c = snd p) f (y_ctrls y)"
        by (rule upd_first_same) (use y(2) in \<open>simp add: f_def\<close>)
      then show ?thesis by (simp add: upd_ctrl_at_def upd_subsys_def y(1))
    qed
    moreover have "target_inv (xs(p := xs p)) ys (upd_ctrl_at p f t1)"
    proof (rule inv_ctrl_upd [OF i1 _ c1])
      have ci1: "ctrls_inv (ctrl_at t1) (conns t1) xs (t_cntlids t1)" using i1 by (simp add: target_inv_def)
      show "n_cntlid (f x) = n_cntlid x" for x using k by (simp add: f_def)
      show "n_ref (f c) = card (conns t1 p) + xs p" "n_ref (f c) \<noteq> 0"
        using ctrls_invD(4,5) [OF ci1 c1] k by (simp_all add: f_def)
    qed
    ultimately show ?thesis unfolding eq using p c' by simp
  qed
qed

lemma inv_find_get:
  assumes inv: "target_inv xs ys t" and g: "nvmet_find_get_subsys port nqn t = (found, t')"
  shows "found = None \<Longrightarrow> t' = t"
    and "found = Some ya \<Longrightarrow> target_inv xs (ys(ya := ys ya + 1)) t'"
    and "found = Some ya \<Longrightarrow> t_subsys t' ya \<noteq> None"
proof -
  have k: "(a = None \<longrightarrow> s = t) \<and> (\<forall>ya. a = Some ya \<longrightarrow>
      target_inv xs (ys(ya := ys ya + 1)) s \<and> t_subsys s ya \<noteq> None)" if "kref_get_subsys x t = (a, s)" for x a s
    using that inv_subsys_get [OF inv] by (auto simp: kref_get_subsys_def split: option.splits if_splits)
  have "(found = None \<longrightarrow> t' = t) \<and> (\<forall>ya. found = Some ya \<longrightarrow>
      target_inv xs (ys(ya := ys ya + 1)) t' \<and> t_subsys t' ya \<noteq> None)"
    using g k by (auto simp: nvmet_find_get_subsys_def split: option.splits if_splits)
  then show "found = None \<Longrightarrow> t' = t"
    and "found = Some ya \<Longrightarrow> target_inv xs (ys(ya := ys ya + 1)) t'"
    and "found = Some ya \<Longrightarrow> t_subsys t' ya \<noteq> None" by auto
qed

lemma fun_upd_again: "(g(x := a))(x := b) = g(x := b)" by simp

lemma inv_ctrl_find_get:
  assumes inv: "target_inv xs ys t" and g: "nvmet_ctrl_find_get nqn hn cid port r t = (st, found, r', t')"
  shows "found = None \<Longrightarrow> target_inv xs ys t' \<and> st \<noteq> 0"
    and "found = Some p \<Longrightarrow> target_inv (xs(p := xs p + 1)) ys t' \<and> st = 0"
proof -
  obtain fy t1 where f: "nvmet_find_get_subsys port nqn t = (fy, t1)" by fastforce
  note fg = inv_find_get [OF inv f]
  have "(found = None \<longrightarrow> target_inv xs ys t' \<and> st \<noteq> 0) \<and>
      (\<forall>p. found = Some p \<longrightarrow> target_inv (xs(p := xs p + 1)) ys t' \<and> st = 0)"
  proof (cases fy)
    case None
    then show ?thesis using g f fg(1) inv by (auto simp: nvmet_ctrl_find_get_def)
  next
    case (Some ya)
    then have i1: "target_inv xs (ys(ya := ys ya + 1)) t1" using fg(2) by simp
    obtain y where y: "t_subsys t1 ya = Some y" using fg(3) Some by auto
    show ?thesis
    proof (cases "find (\<lambda>c. n_cntlid c = cid \<and> take NVMF_NQN_SIZE hn = take NVMF_NQN_SIZE (n_hostnqn c) \<and>
                               n_ref c \<noteq> 0) (y_ctrls y)")
      case None
      then show ?thesis using g f Some y i1
        by (auto simp: nvmet_ctrl_find_get_def intro: inv_subsys_put)
    next
      case s: (Some c)
      have si: "subs_inv (ys(ya := ys ya + 1)) (t_subsys t1)" using i1 by (simp add: target_inv_def)
      have d: "distinct (map n_cntlid (y_ctrls y))" by (rule subs_invD(1) [OF si y])
      have cs: "c \<in> set (y_ctrls y)" "n_cntlid c = cid"
        using s by (auto simp: find_Some_iff in_set_conv_nth)
      then have "find (\<lambda>c. n_cntlid c = cid) (y_ctrls y) \<noteq> None" by (auto simp: find_None_iff)
      then obtain c0 where c0: "ctrl_at t1 (ya, cid) = Some c0" using y by (auto simp: ctrl_at_def)
      have ci: "ctrls_inv (ctrl_at t1) (conns t1) xs (t_cntlids t1)" using i1 by (simp add: target_inv_def)
      have "target_inv (xs((ya, cid) := xs (ya, cid) + 1)) (ys(ya := ys ya + 1))
          (upd_ctrl_at (ya, cid) (\<lambda>c. c\<lparr>n_ref := n_ref c + 1\<rparr>) t1)"
        by (rule inv_ctrl_upd [OF i1 _ c0]) (use ctrls_invD(4) [OF ci c0] in simp_all)
      then have "target_inv (xs((ya, cid) := xs (ya, cid) + 1)) ys
          (nvmet_subsys_put ya (upd_ctrl_at (ya, cid) (\<lambda>c. c\<lparr>n_ref := n_ref c + 1\<rparr>) t1))"
        by (rule inv_subsys_put)
      then show ?thesis using g f Some y s by (auto simp: nvmet_ctrl_find_get_def)
    qed
  qed
  then show "found = None \<Longrightarrow> target_inv xs ys t' \<and> st \<noteq> 0"
    and "found = Some p \<Longrightarrow> target_inv (xs(p := xs p + 1)) ys t' \<and> st = 0" by auto
qed

lemma make_ctrl_ids: "n_cntlid (make_ctrl e ty nqn hn kato i) = i" "n_ref (make_ctrl e ty nqn hn kato i) = 1"
  by (simp_all add: make_ctrl_def nvmet_start_keep_alive_timer_def ka_mod_work_def Let_def)

lemma ida_simple_get_free:
  assumes "0 \<le> ida_simple_get a used"
  shows "nat (ida_simple_get a used) \<notin> used" "nat (ida_simple_get a used) < 65536"
    "1 \<le> nat (ida_simple_get a used)"
proof -
  obtain i where i: "find (\<lambda>i. i \<notin> used) [NVME_CNTLID_MIN..<NVME_CNTLID_MAX] = Some i" "ida_simple_get a used = int i"
    using assms by (auto simp: ida_simple_get_def split: if_splits option.splits)
  then have "i \<in> set [NVME_CNTLID_MIN..<NVME_CNTLID_MAX]" "i \<notin> used"
    by (auto simp: find_Some_iff in_set_conv_nth)
  with i(2) show "nat (ida_simple_get a used) \<notin> used" "nat (ida_simple_get a used) < 65536"
    "1 \<le> nat (ida_simple_get a used)" by auto
qed

lemma inv_alloc_ctrl:
  assumes inv: "target_inv xs ys t" and g: "nvmet_alloc_ctrl e nqn hn port kato r t = (st, found, r', t')"
  shows "found = None \<Longrightarrow> target_inv xs ys t' \<and> st \<noteq> 0"
    and "found = Some p \<Longrightarrow> target_inv (xs(p := xs p + 1)) ys t' \<and> st = 0"
proof -
  obtain fy t1 where f: "nvmet_find_get_subsys port nqn t = (fy, t1)" by fastforce
  note fg = inv_find_get [OF inv f]
  have "(found = None \<longrightarrow> target_inv xs ys t' \<and> st \<noteq> 0) \<and>
      (\<forall>p. found = Some p \<longrightarrow> target_inv (xs(p := xs p + 1)) ys t' \<and> st = 0)"
  proof (cases fy)
    case None
    then show ?thesis using g f fg(1) inv by (auto simp: nvmet_alloc_ctrl_def)
  next
    case (Some ya)
    then have i1: "target_inv xs (ys(ya := ys ya + 1)) t1" using fg(2) by simp
    obtain y where y: "t_subsys t1 ya = Some y" using fg(3) Some by auto
    have rest: "target_inv xs ys (nvmet_subsys_put ya t1)" by (rule inv_subsys_put [OF i1])
    let ?ret = "ida_simple_get (ae_ida e) (t_cntlids t1)"
    show ?thesis
    proof (cases "nvmet_host_allowed y hn \<and> ae_ctrl e \<and> ae_changed e \<and> ae_cqs e \<and> ae_sqs e \<and> 0 \<le> ?ret")
      case False
      then show ?thesis using g f Some y rest
        by (auto simp: nvmet_alloc_ctrl_def Let_def not_less split: if_splits)
    next
      case True
      note newi = ida_simple_get_free [of "ae_ida e" "t_cntlids t1"]
      define i where "i = nat ?ret"
      have w: "(of_int ?ret :: u16) = of_nat i" using True by (simp add: i_def of_nat_nat)
      let ?c = "make_ctrl e (y_type y) nqn hn kato (of_nat i)"
      have "(found, t', st) = (Some (ya, of_nat i), upd_subsys ya (\<lambda>y. y\<lparr>y_ctrls := y_ctrls y @ [?c]\<rparr>)
          (t1\<lparr>t_cntlids := insert i (t_cntlids t1)\<rparr>), 0)"
        using g f Some y True unfolding nvmet_alloc_ctrl_def w [symmetric] i_def
        by (auto simp: Let_def)
      moreover have "target_inv (xs((ya, of_nat i) := 1)) ys
          (upd_subsys ya (\<lambda>y. y\<lparr>y_ctrls := y_ctrls y @ [?c]\<rparr>) (t1\<lparr>t_cntlids := insert i (t_cntlids t1)\<rparr>))"
        by (rule inv_add_ctrl [OF i1 y]) (use newi True in \<open>simp_all add: i_def make_ctrl_ids\<close>)
      moreover have "xs (ya, of_nat i) = 0"
      proof -
        have ci: "ctrls_inv (ctrl_at t1) (conns t1) xs (t_cntlids t1)" using i1 by (simp add: target_inv_def)
        have "i \<notin> t_cntlids t1" "i < 65536" using newi True by (simp_all add: i_def)
        then have "ctrl_at t1 (ya, of_nat i) = None"
          using ctrls_invD(6) [OF ci, of "(ya, of_nat i)"]
          by (cases "ctrl_at t1 (ya, of_nat i)") (auto simp: unat_of_nat)
        then show ?thesis by (rule ctrls_invD(2) [OF ci])
      qed
      ultimately show ?thesis by auto
    qed
  qed
  then show "found = None \<Longrightarrow> target_inv xs ys t' \<and> st \<noteq> 0"
    and "found = Some p \<Longrightarrow> target_inv (xs(p := xs p + 1)) ys t' \<and> st = 0" by auto
qed

text \<open>Changes of a controller that leave its number and its references alone.\<close>

lemma inv_ctrl_keep:
  assumes inv: "target_inv xs ys t" and f: "\<And>c. n_cntlid (f c) = n_cntlid c" "\<And>c. n_ref (f c) = n_ref c"
  shows "target_inv xs ys (upd_ctrl_at p f t)"
proof (cases "ctrl_at t p")
  case (Some c)
  have ci: "ctrls_inv (ctrl_at t) (conns t) xs (t_cntlids t)" using inv by (simp add: target_inv_def)
  have "target_inv (xs(p := xs p)) ys (upd_ctrl_at p f t)"
    by (rule inv_ctrl_upd [OF inv f(1) Some]) (use f(2) ctrls_invD(4,5) [OF ci Some] in simp_all)
  then show ?thesis by simp
next
  case None
  then have "ctrl_at (upd_ctrl_at p f t) = ctrl_at t" by (auto simp: ctrl_at_upd_ctrl [OF f(1)] fun_eq_iff)
  moreover have "subs_inv ys (t_subsys (upd_ctrl_at p f t))"
    by (rule subs_inv_ctrls [OF _ f(1)]) (use inv in \<open>simp add: target_inv_def\<close>)
  ultimately show ?thesis using inv by (simp add: target_inv_def)
qed

text \<open>The reference of the connect command becomes the queue's, or stays with the command.\<close>

lemma inv_install_queue:
  assumes inv: "target_inv (xs(p := xs p + 1)) ys t" and g: "nvmet_install_queue instq p qa r t = (st, r', t')"
  shows "st \<noteq> 0 \<Longrightarrow> target_inv (xs(p := xs p + 1)) ys t'" and "st = 0 \<Longrightarrow> target_inv xs ys t'"
proof -
  have drop: "target_inv (xs(p := xs p + 1)) ys (upd_tq qa (\<lambda>tq. tq\<lparr>tq_ctrl := None\<rparr>) s)"
    if "target_inv xs ys s" "tq_ctrl (t_queues s qa) = Some p" for s
    by (rule inv_disconnect [OF that]) simp
  have "(st \<noteq> 0 \<longrightarrow> target_inv (xs(p := xs p + 1)) ys t') \<and> (st = 0 \<longrightarrow> target_inv xs ys t')"
  proof (cases "tq_ctrl (t_queues t qa) = None")
    case False
    then show ?thesis using g inv by (auto simp: nvmet_install_queue_def Let_def)
  next
    case free: True
    define s0 where "s0 = upd_tq qa (\<lambda>tq. tq\<lparr>tq_ctrl := Some p\<rparr>) t"
    have i0: "target_inv xs ys s0" unfolding s0_def by (rule inv_connect [OF inv free]) simp
    have q0: "tq_ctrl (t_queues s0 qa) = Some p" by (simp add: s0_def)
    show ?thesis
    proof (cases "tc_sqsize (r_cmd r) = 0")
      case True
      then show ?thesis using g free drop [OF i0 q0] by (auto simp: nvmet_install_queue_def Let_def s0_def)
    next
      case False
      define s1 where "s1 = upd_ctrl_at p (\<lambda>c. c\<lparr>n_sqs := (n_sqs c)(unat (tc_qid (r_cmd r)) \<mapsto> qa)\<rparr>)
        (upd_tq qa (\<lambda>tq. tq\<lparr>tq_sq := (tq_sq tq)
            \<lparr>sq_sqhd := 0, sq_qid := tc_qid (r_cmd r), sq_size := tc_sqsize (r_cmd r) + 1\<rparr>\<rparr>)
          (upd_ctrl_at p (\<lambda>c. c\<lparr>n_cqs := (n_cqs c)(unat (tc_qid (r_cmd r)) \<mapsto> tc_sqsize (r_cmd r) + 1)\<rparr>) s0))"
      define s2 where "s2 = (if tc_cattr (r_cmd r) AND NVME_CONNECT_DISABLE_SQFLOW \<noteq> 0
        then upd_tq qa (\<lambda>tq. tq\<lparr>tq_sq := (tq_sq tq)\<lparr>sq_sqhd_disabled := True\<rparr>\<rparr>) s1 else s1)"
      have i1: "target_inv xs ys s1"
        unfolding s1_def by (intro inv_ctrl_keep inv_queue i0) simp_all
      have i2: "target_inv xs ys s2"
        unfolding s2_def using i1 by (auto intro!: inv_queue)
      have q2: "tq_ctrl (t_queues s2 qa) = Some p" using q0 by (auto simp: s2_def s1_def)
      have "(st, t') = (case instq of None \<Rightarrow> (0, s2) | Some ret \<Rightarrow>
          if ret \<noteq> 0 then (ret, upd_tq qa (\<lambda>tq. tq\<lparr>tq_ctrl := None\<rparr>) s2) else (0, s2))"
        using g free False unfolding s2_def s1_def s0_def
        by (auto simp: nvmet_install_queue_def Let_def split: option.splits if_splits)
      then show ?thesis using i2 drop [OF i2 q2] by (auto split: option.splits if_splits)
    qed
  qed
  then show "st \<noteq> 0 \<Longrightarrow> target_inv (xs(p := xs p + 1)) ys t'" and "st = 0 \<Longrightarrow> target_inv xs ys t'" by auto
qed

lemma inv_complete: "target_inv xs ys t \<Longrightarrow> target_inv xs ys (on_queue qa (nvmet_req_complete st r) t)"
  by (erule inv_on_queue) (rule keeps_complete)

lemma inv_admin_connect:
  assumes inv: "target_inv xs ys t"
  shows "target_inv xs ys (nvmet_execute_admin_connect alloc e instq port qa r t)"
proof -
  obtain st d r1 where cp: "nvmet_copy_from_sgl 0 SIZEOF_CONNECT_DATA r = (st, d, r1)" by (metis prod_cases3)
  show ?thesis
  proof (cases "\<not> alloc \<or> st \<noteq> 0 \<or> tc_recfmt (r_cmd r1) \<noteq> 0 \<or> d_cntlid d \<noteq> 0xffff")
    case True
    then show ?thesis
      by (auto simp: nvmet_execute_admin_connect_def Let_def cp intro!: inv_complete [OF inv])
  next
    case False
    obtain st2 found r2 t2 where al: "nvmet_alloc_ctrl e (d_subsysnqn d) (d_hostnqn d) port
        (tc_kato (r_cmd r1)) (nvmet_set_result 0 r1) t = (st2, found, r2, t2)"
      by (metis prod_cases4)
    note A = inv_alloc_ctrl [OF inv al]
    show ?thesis
    proof (cases found)
      case None
      then show ?thesis using False A(1)
        by (simp add: nvmet_execute_admin_connect_def Let_def cp al) (auto intro!: inv_complete)
    next
      case (Some p)
      define t3 where "t3 = upd_ctrl_at p (\<lambda>c. c\<lparr>n_hostid := d_hostid d\<rparr>) t2"
      have i3: "target_inv (xs(p := xs p + 1)) ys t3"
        unfolding t3_def using A(2) [OF Some] by (auto intro: inv_ctrl_keep)
      obtain st4 r4 t4 where iq: "nvmet_install_queue instq p qa r2 t3 = (st4, r4, t4)" by (metis prod_cases3)
      note I = inv_install_queue [OF i3 iq]
      show ?thesis using False Some I
        by (simp add: nvmet_execute_admin_connect_def Let_def cp al iq t3_def [symmetric])
          (auto intro!: inv_complete inv_ctrl_put)
    qed
  qed
qed

lemma inv_io_connect:
  assumes inv: "target_inv xs ys t"
  shows "target_inv xs ys (nvmet_execute_io_connect alloc instq port qa r t)"
proof -
  obtain st d r1 where cp: "nvmet_copy_from_sgl 0 SIZEOF_CONNECT_DATA r = (st, d, r1)" by (metis prod_cases3)
  show ?thesis
  proof (cases "\<not> alloc \<or> st \<noteq> 0 \<or> tc_recfmt (r_cmd r1) \<noteq> 0")
    case True
    then show ?thesis
      by (auto simp: nvmet_execute_io_connect_def Let_def cp intro!: inv_complete [OF inv])
  next
    case False
    obtain st2 found r2 t2 where al: "nvmet_ctrl_find_get (d_subsysnqn d) (d_hostnqn d) (d_cntlid d) port
        (nvmet_set_result 0 r1) t = (st2, found, r2, t2)"
      by (metis prod_cases4)
    note A = inv_ctrl_find_get [OF inv al]
    show ?thesis
    proof (cases found)
      case None
      then show ?thesis using False A(1)
        by (simp add: nvmet_execute_io_connect_def Let_def cp al) (auto intro!: inv_complete)
    next
      case (Some p)
      then have i2: "target_inv (xs(p := xs p + 1)) ys t2" using A(2) by simp
      then have ci: "ctrls_inv (ctrl_at t2) (conns t2) (xs(p := xs p + 1)) (t_cntlids t2)" by (simp add: target_inv_def)
      have "ctrl_at t2 p \<noteq> None" using ctrls_invD(2) [OF ci, of p] by auto
      then obtain y where y: "t_subsys t2 (fst p) = Some y" by (auto simp: ctrl_at_def split: option.splits)
      obtain st4 r4 t4 where iq: "nvmet_install_queue instq p qa r2 t2 = (st4, r4, t4)" by (metis prod_cases3)
      note I = inv_install_queue [OF i2 iq]
      show ?thesis using False Some I i2 y
        by (simp add: nvmet_execute_io_connect_def Let_def cp al iq)
          (auto intro!: inv_complete inv_ctrl_put)
    qed
  qed
qed

lemma put_commute: "nvmet_ctrl_put p (upd_tq qa f t) = upd_tq qa f (nvmet_ctrl_put p t)"
proof -
  have u: "upd_subsys ya g (upd_tq qa f s) = upd_tq qa f (upd_subsys ya g s)" for ya g and s :: target
    by (simp add: upd_subsys_def upd_tq_def)
  have c: "upd_tq qa f s\<lparr>t_cntlids := n\<rparr> = upd_tq qa f (s\<lparr>t_cntlids := n\<rparr>)" for n and s :: target
    by (simp add: upd_tq_def)
  have d: "upd_tq qa f s\<lparr>t_subsys := m\<rparr> = upd_tq qa f (s\<lparr>t_subsys := m\<rparr>)" for m and s :: target
    by (simp add: upd_tq_def)
  have "nvmet_subsys_put ya (upd_tq qa f s) = upd_tq qa f (nvmet_subsys_put ya s)" for ya and s :: target
    by (simp add: nvmet_subsys_put_def u d split: option.splits)
  then show ?thesis
    by (simp add: nvmet_ctrl_put_def nvmet_ctrl_free_def upd_ctrl_at_def u c Let_def split: option.splits)
qed

lemma inv_sq_destroy:
  assumes inv: "target_inv xs ys t"
  shows "target_inv xs ys (nvmet_sq_destroy qa t)"
proof -
  define t1 where "t1 = (case Option.bind (tq_ctrl (t_queues t qa)) (ctrl_at t) of
                 None \<Rightarrow> t
               | Some c \<Rightarrow> if n_sqs c 0 = Some qa then on_queue qa nvmet_async_events_free t else t)"
  have i1: "target_inv xs ys t1"
    unfolding t1_def using inv by (auto split: option.splits intro: inv_on_queue keeps_async_free)
  show ?thesis
  proof (cases "tq_ctrl (t_queues t1 qa)")
    case None
    then show ?thesis using i1 by (simp add: nvmet_sq_destroy_def t1_def [symmetric] Let_def)
  next
    case (Some p)
    have "target_inv (xs(p := xs p + 1)) ys (upd_tq qa (\<lambda>tq. tq\<lparr>tq_ctrl := None\<rparr>) t1)"
      by (rule inv_disconnect [OF i1 Some]) simp
    then have "target_inv xs ys (nvmet_ctrl_put p (upd_tq qa (\<lambda>tq. tq\<lparr>tq_ctrl := None\<rparr>) t1))"
      by (rule inv_ctrl_put)
    then show ?thesis using Some by (simp add: nvmet_sq_destroy_def t1_def [symmetric] Let_def put_commute)
  qed
qed

end
