(* ===== verification/Target_Cmd.thy ===== *)
theory Target_Cmd
  imports Target_Subsys
begin

text \<open>
  From a received command to what the target executes (\<open>target/core.c\<close>, with the parsers of
  \<open>target/fabrics-cmd.c\<close>, \<open>target/admin-cmd.c\<close>, \<open>target/discovery.c\<close>, \<open>target/io-cmd-bdev.c\<close> and
  \<open>target/io-cmd-file.c\<close>): the checks of \<open>nvmet_req_init\<close>, the lookup of the namespace and the
  reference a request takes to it, and the choice of \<open>req->execute\<close>.
\<close>


section \<open>What a request will execute\<close>

text \<open>The functions \<open>req->execute\<close> may point to.\<close>

datatype exec =
    X_admin_connect | X_io_connect | X_prop_set | X_prop_get
  | X_log_error | X_log_smart | X_log_noop | X_log_changed_ns | X_log_cmd_effects | X_log_ana
  | X_identify_ns | X_identify_ctrl | X_identify_nslist | X_identify_desclist
  | X_abort | X_set_features | X_get_features | X_async_event | X_keep_alive
  | X_disc_log | X_identify_disc_ctrl | X_disc_set_features | X_disc_get_features
  | X_bdev_rw | X_bdev_flush | X_bdev_dsm | X_bdev_write_zeroes
  | X_file_rw | X_file_flush | X_file_dsm | X_file_write_zeroes

text \<open>A parser: status, request, what to execute.\<close>

type_synonym parsed = "u16 \<times> nvmet_req \<times> exec option"

definition accept :: "exec \<Rightarrow> nat \<Rightarrow> nvmet_req \<Rightarrow> parsed" where
  "accept x len r = (0, r\<lparr>r_data_len := of_nat len\<rparr>, Some x)"

definition refuse :: "u16 \<Rightarrow> u16 \<Rightarrow> nvmet_req \<Rightarrow> parsed" where
  "refuse status loc r = (status, r\<lparr>r_error_loc := loc\<rparr>, None)"

definition nvmet_parse_connect_cmd :: "nvmet_req \<Rightarrow> parsed" where
  "nvmet_parse_connect_cmd r =
     (if tc_opcode (r_cmd r) \<noteq> nvme_fabrics_command then refuse (NVME_SC_INVALID_OPCODE OR NVME_SC_DNR) OFF_OPCODE r
      else if tc_fctype (r_cmd r) \<noteq> nvme_fabrics_type_connect then refuse (NVME_SC_INVALID_OPCODE OR NVME_SC_DNR) OFF_FCTYPE r
      else accept (if tc_qid (r_cmd r) = 0 then X_admin_connect else X_io_connect) SIZEOF_CONNECT_DATA r)"

definition nvmet_parse_fabrics_cmd :: "nvmet_req \<Rightarrow> parsed" where
  "nvmet_parse_fabrics_cmd r =
     (if tc_fctype (r_cmd r) = nvme_fabrics_type_property_set then accept X_prop_set 0 r
      else if tc_fctype (r_cmd r) = nvme_fabrics_type_property_get then accept X_prop_get 0 r
      else refuse (NVME_SC_INVALID_OPCODE OR NVME_SC_DNR) OFF_FCTYPE r)"

text \<open>Log pages and identify structures of an NVM controller. The log's length is 32 bits wide.\<close>

definition cns_of :: "nvme_cmd \<Rightarrow> u8" where "cns_of cmd = ucast (tc_cdw10 cmd)"

definition log_exec :: "u8 \<Rightarrow> exec option" where
  "log_exec lid =
     (if lid = NVME_LOG_ERROR then Some X_log_error
      else if lid = NVME_LOG_SMART then Some X_log_smart
      else if lid = NVME_LOG_FW_SLOT then Some X_log_noop
      else if lid = NVME_LOG_CHANGED_NS then Some X_log_changed_ns
      else if lid = NVME_LOG_CMD_EFFECTS then Some X_log_cmd_effects
      else if lid = NVME_LOG_ANA then Some X_log_ana
      else None)"

definition identify_exec :: "u8 \<Rightarrow> exec option" where
  "identify_exec cns =
     (if cns = NVME_ID_CNS_NS then Some X_identify_ns
      else if cns = NVME_ID_CNS_CTRL then Some X_identify_ctrl
      else if cns = NVME_ID_CNS_NS_ACTIVE_LIST then Some X_identify_nslist
      else if cns = NVME_ID_CNS_NS_DESC_LIST then Some X_identify_desclist
      else None)"

definition nvmet_parse_admin_cmd :: "nvmet_ctrl \<Rightarrow> nvmet_req \<Rightarrow> parsed" where
  "nvmet_parse_admin_cmd c r =
     (let op = tc_opcode (r_cmd r);
          bad = refuse (NVME_SC_INVALID_OPCODE OR NVME_SC_DNR) OFF_OPCODE;
          ret = nvmet_check_ctrl_status c
      in if ret \<noteq> 0 then (ret, r, None)
      else if op = nvme_admin_get_log_page then
        (let len = unat (nvmet_get_log_page_len (r_cmd r))
         in case log_exec (log_lid (r_cmd r)) of
              Some x \<Rightarrow> accept x len r | None \<Rightarrow> bad (r\<lparr>r_data_len := of_nat len\<rparr>))
      else if op = nvme_admin_identify then
        (case identify_exec (cns_of (r_cmd r)) of
           Some x \<Rightarrow> accept x NVME_IDENTIFY_DATA_SIZE r
         | None \<Rightarrow> bad (r\<lparr>r_data_len := of_nat NVME_IDENTIFY_DATA_SIZE\<rparr>))
      else if op = nvme_admin_abort_cmd then accept X_abort 0 r
      else if op = nvme_admin_set_features then accept X_set_features 0 r
      else if op = nvme_admin_get_features then accept X_get_features 0 r
      else if op = nvme_admin_async_event then accept X_async_event 0 r
      else if op = nvme_admin_keep_alive then accept X_keep_alive 0 r
      else bad r)"

definition nvmet_parse_discovery_cmd :: "nvmet_ctrl \<Rightarrow> nvmet_req \<Rightarrow> parsed" where
  "nvmet_parse_discovery_cmd c r =
     (let op = tc_opcode (r_cmd r);
          bad = refuse (NVME_SC_INVALID_OPCODE OR NVME_SC_DNR)
      in if n_csts c AND NVME_CSTS_RDY = 0 then bad OFF_OPCODE r
      else if op = nvme_admin_set_features then accept X_disc_set_features 0 r
      else if op = nvme_admin_get_features then accept X_disc_get_features 0 r
      else if op = nvme_admin_async_event then accept X_async_event 0 r
      else if op = nvme_admin_keep_alive then accept X_keep_alive 0 r
      else if op = nvme_admin_get_log_page then
        (let len = unat (nvmet_get_log_page_len (r_cmd r))
         in if log_lid (r_cmd r) = NVME_LOG_DISC then accept X_disc_log len r
            else bad OFF_LID (r\<lparr>r_data_len := of_nat len\<rparr>))
      else if op = nvme_admin_identify then
        (if cns_of (r_cmd r) = NVME_ID_CNS_CTRL then accept X_identify_disc_ctrl NVME_IDENTIFY_DATA_SIZE r
         else bad OFF_CNS (r\<lparr>r_data_len := of_nat NVME_IDENTIFY_DATA_SIZE\<rparr>))
      else bad OFF_OPCODE r)"

section \<open>I/O commands\<close>

text \<open>Lengths: of a read or write in 32 bits, of the ranges of a dataset management command.\<close>

definition nvmet_rw_len :: "nvmet_ns \<Rightarrow> nvmet_req \<Rightarrow> u32" where
  "nvmet_rw_len ns r = push_bit (unat (ns_blksize_shift ns)) (ucast (ucast (tc_cdw12 (r_cmd r)) :: u16) + 1)"

definition dsm_len :: "nvmet_req \<Rightarrow> u64" where
  "dsm_len r = ucast (tc_cdw10 (r_cmd r) + 1) * 16"

definition nvmet_bdev_parse_io_cmd :: "nvmet_ns \<Rightarrow> nvmet_req \<Rightarrow> parsed" where
  "nvmet_bdev_parse_io_cmd ns r =
     (let op = tc_opcode (r_cmd r)
      in if op = nvme_cmd_read \<or> op = nvme_cmd_write then accept X_bdev_rw (unat (nvmet_rw_len ns r)) r
         else if op = nvme_cmd_flush then accept X_bdev_flush 0 r
         else if op = nvme_cmd_dsm then accept X_bdev_dsm (unat (dsm_len r)) r
         else if op = nvme_cmd_write_zeroes then accept X_bdev_write_zeroes 0 r
         else refuse (NVME_SC_INVALID_OPCODE OR NVME_SC_DNR) OFF_OPCODE r)"

definition nvmet_file_parse_io_cmd :: "nvmet_ns \<Rightarrow> nvmet_req \<Rightarrow> parsed" where
  "nvmet_file_parse_io_cmd ns r =
     (let op = tc_opcode (r_cmd r)
      in if op = nvme_cmd_read \<or> op = nvme_cmd_write then accept X_file_rw (unat (nvmet_rw_len ns r)) r
         else if op = nvme_cmd_flush then accept X_file_flush 0 r
         else if op = nvme_cmd_dsm then accept X_file_dsm (unat (dsm_len r)) r
         else if op = nvme_cmd_write_zeroes then accept X_file_write_zeroes 0 r
         else refuse (NVME_SC_INVALID_OPCODE OR NVME_SC_DNR) OFF_OPCODE r)"

text \<open>Finding a namespace takes a reference to it.\<close>

definition nvmet_find_namespace :: "nvmet_subsys \<Rightarrow> u32 \<Rightarrow> nvmet_queue \<Rightarrow> nat option \<times> nvmet_queue" where
  "nvmet_find_namespace y nsid q =
     (case find_ns y nsid of
        None \<Rightarrow> (None, q) | Some a \<Rightarrow> (Some a, q\<lparr>q_ns_refs := a # q_ns_refs q\<rparr>))"

abbreviation (input) NVME_ANA_INACCESSIBLE :: u8 where "NVME_ANA_INACCESSIBLE \<equiv> 3"
abbreviation (input) NVME_ANA_PERSISTENT_LOSS :: u8 where "NVME_ANA_PERSISTENT_LOSS \<equiv> 4"
abbreviation (input) NVME_ANA_CHANGE :: u8 where "NVME_ANA_CHANGE \<equiv> 15"

definition nvmet_check_ana_state :: "nvmet_port \<Rightarrow> nvmet_ns \<Rightarrow> u16" where
  "nvmet_check_ana_state p ns =
     (let state = p_ana_state p (ns_anagrpid ns)
      in if state = NVME_ANA_INACCESSIBLE then NVME_SC_ANA_INACCESSIBLE
         else if state = NVME_ANA_PERSISTENT_LOSS then NVME_SC_ANA_PERSISTENT_LOSS
         else if state = NVME_ANA_CHANGE then NVME_SC_ANA_TRANSITION
         else 0)"

definition nvmet_io_cmd_check_access :: "nvmet_ns \<Rightarrow> nvmet_req \<Rightarrow> u16" where
  "nvmet_io_cmd_check_access ns r =
     (if ns_readonly ns then
        (if tc_opcode (r_cmd r) = nvme_cmd_read \<or> tc_opcode (r_cmd r) = nvme_cmd_flush then 0
         else NVME_SC_NS_WRITE_PROTECTED)
      else 0)"

definition nvmet_parse_io_cmd ::
  "nvmet_port \<Rightarrow> nvmet_subsys \<Rightarrow> nvmet_ctrl \<Rightarrow> nvmet_req \<Rightarrow> nvmet_queue \<Rightarrow> parsed \<times> nvmet_queue" where
  "nvmet_parse_io_cmd p y c r q =
     (let ret = nvmet_check_ctrl_status c
      in if ret \<noteq> 0 then ((ret, r, None), q)
      else
        let (found, q) = nvmet_find_namespace y (tc_nsid (r_cmd r)) q; r = r\<lparr>r_ns := found\<rparr>
        in case found of
             None \<Rightarrow> (refuse (NVME_SC_INVALID_NS OR NVME_SC_DNR) OFF_NSID r, q)
           | Some a \<Rightarrow>
               let ns = ns_at y a; ret = nvmet_check_ana_state p ns
               in if ret \<noteq> 0 then (refuse ret OFF_NSID r, q)
               else
                 let ret = nvmet_io_cmd_check_access ns r
                 in if ret \<noteq> 0 then (refuse ret OFF_NSID r, q)
                 else if ns_file ns \<noteq> File_null then (nvmet_file_parse_io_cmd ns r, q)
                 else (nvmet_bdev_parse_io_cmd ns r, q))"

section \<open>Starting and executing a request\<close>

text \<open>\<open>live\<close> is whether the queue's reference count is still alive.\<close>

definition init_req :: "nvmet_req \<Rightarrow> nvmet_req" where
  "init_req r = r\<lparr>r_sg := [], r_transfer_len := 0, r_status := 0, r_sq_head := 0, r_ns := None,
                  r_error_loc := NVMET_NO_ERROR_LOC, r_error_slba := 0\<rparr>"

definition nvmet_parse_cmd :: "nvmet_port \<Rightarrow> nvmet_subsys \<Rightarrow> nvmet_req \<Rightarrow> nvmet_queue \<Rightarrow> parsed \<times> nvmet_queue" where
  "nvmet_parse_cmd p y r q =
     (case q_ctrl q of
        None \<Rightarrow> (nvmet_parse_connect_cmd r, q)
      | Some c \<Rightarrow>
          if sq_qid (q_sq q) \<noteq> 0 then nvmet_parse_io_cmd p y c r q
          else if tc_opcode (r_cmd r) = nvme_fabrics_command then (nvmet_parse_fabrics_cmd r, q)
          else if y_type y = Nqn_disc then (nvmet_parse_discovery_cmd c r, q)
          else (nvmet_parse_admin_cmd c r, q))"

definition nvmet_req_init ::
  "bool \<Rightarrow> nvmet_port \<Rightarrow> nvmet_subsys \<Rightarrow> nvmet_req \<Rightarrow> nvmet_queue \<Rightarrow> exec option \<times> nvmet_req \<times> nvmet_queue" where
  "nvmet_req_init live p y r q =
     (let r = init_req r;
          flags = tc_flags (r_cmd r);
          fail = (\<lambda>status r q. (None, r, nvmet_req_complete status r q))
      in if flags AND (NVME_CMD_FUSE_FIRST OR NVME_CMD_FUSE_SECOND) \<noteq> 0
         then fail (NVME_SC_INVALID_FIELD OR NVME_SC_DNR) (r\<lparr>r_error_loc := OFF_FLAGS\<rparr>) q
      else if flags AND NVME_CMD_SGL_ALL \<noteq> NVME_CMD_SGL_METABUF
         then fail (NVME_SC_INVALID_FIELD OR NVME_SC_DNR) (r\<lparr>r_error_loc := OFF_FLAGS\<rparr>) q
      else
        let ((status, r, x), q) = nvmet_parse_cmd p y r q
        in if status \<noteq> 0 then fail status r q
        else if \<not> live then fail (NVME_SC_INVALID_FIELD OR NVME_SC_DNR) r q
        else (x, r, upd_ctrl (\<lambda>c. c\<lparr>n_cmd_seen := True\<rparr>) q))"

definition nvmet_req_uninit :: "nvmet_req \<Rightarrow> nvmet_queue \<Rightarrow> nvmet_queue" where
  "nvmet_req_uninit r q =
     q\<lparr>q_ns_refs := (case r_ns r of None \<Rightarrow> q_ns_refs q | Some a \<Rightarrow> remove1 a (q_ns_refs q))\<rparr>"

definition nvmet_req_execute :: "(nvmet_req \<Rightarrow> nvmet_queue \<Rightarrow> nvmet_queue) \<Rightarrow> nvmet_req \<Rightarrow> nvmet_queue \<Rightarrow> nvmet_queue" where
  "nvmet_req_execute execute r q =
     (if r_data_len r \<noteq> r_transfer_len r
      then nvmet_req_complete (NVME_SC_SGL_INVALID_DATA OR NVME_SC_DNR) (r\<lparr>r_error_loc := OFF_DPTR\<rparr>) q
      else execute r q)"

section \<open>What may be executed\<close>

text \<open>
  What each kind of queue may execute, and in which state of its controller: a queue without a
  controller only connects, an admin queue serves properties in any state and the commands of its kind
  of subsystem once the controller is ready, an I/O queue serves an active, accessible namespace.
\<close>

definition connect_execs :: "exec set" where "connect_execs = {X_admin_connect, X_io_connect}"

definition prop_execs :: "exec set" where "prop_execs = {X_prop_set, X_prop_get}"

definition disc_execs :: "exec set" where
  "disc_execs = {X_disc_log, X_identify_disc_ctrl, X_disc_set_features, X_disc_get_features, X_async_event, X_keep_alive}"

definition admin_execs :: "exec set" where
  "admin_execs = {X_log_error, X_log_smart, X_log_noop, X_log_changed_ns, X_log_cmd_effects, X_log_ana,
     X_identify_ns, X_identify_ctrl, X_identify_nslist, X_identify_desclist, X_abort, X_set_features,
     X_get_features, X_async_event, X_keep_alive}"

definition file_execs :: "exec set" where
  "file_execs = {X_file_rw, X_file_flush, X_file_dsm, X_file_write_zeroes}"

definition bdev_execs :: "exec set" where
  "bdev_execs = {X_bdev_rw, X_bdev_flush, X_bdev_dsm, X_bdev_write_zeroes}"

definition changes_data :: "exec \<Rightarrow> nvme_cmd \<Rightarrow> bool" where
  "changes_data x cmd = (x \<in> {X_file_rw, X_bdev_rw} \<and> tc_opcode cmd \<noteq> nvme_cmd_read \<or>
     x \<in> {X_file_dsm, X_file_write_zeroes, X_bdev_dsm, X_bdev_write_zeroes})"

definition accessible :: "nvmet_port \<Rightarrow> nvmet_ns \<Rightarrow> bool" where
  "accessible p ns = (p_ana_state p (ns_anagrpid ns) \<notin> {NVME_ANA_INACCESSIBLE, NVME_ANA_PERSISTENT_LOSS, NVME_ANA_CHANGE})"

definition enabled_and_ready :: "nvmet_ctrl \<Rightarrow> bool" where
  "enabled_and_ready c = (n_cc c AND NVME_CC_ENABLE \<noteq> 0 \<and> n_csts c AND NVME_CSTS_RDY \<noteq> 0)"

definition may_execute :: "nvmet_port \<Rightarrow> nvmet_subsys \<Rightarrow> nvmet_queue \<Rightarrow> nvmet_req \<Rightarrow> exec \<Rightarrow> bool" where
  "may_execute p y q r x =
     (case q_ctrl q of
        None \<Rightarrow> x \<in> connect_execs \<and> (x = X_admin_connect) = (tc_qid (r_cmd r) = 0) \<and> r_ns r = None
      | Some c \<Rightarrow>
          if sq_qid (q_sq q) = 0 then
            r_ns r = None \<and>
            (x \<in> prop_execs \<or>
             (if y_type y = Nqn_disc then x \<in> disc_execs \<and> n_csts c AND NVME_CSTS_RDY \<noteq> 0
              else x \<in> admin_execs \<and> enabled_and_ready c))
          else
            enabled_and_ready c \<and>
            (case r_ns r of
               None \<Rightarrow> False
             | Some a \<Rightarrow>
                 a \<in> set (y_namespaces y) \<and> nsid_at y a = tc_nsid (r_cmd r) \<and> accessible p (ns_at y a) \<and>
                 (ns_readonly (ns_at y a) \<and> changes_data x (r_cmd r)) = False \<and>
                 x \<in> (if ns_file (ns_at y a) = File_null then bdev_execs else file_execs)))"

lemmas exec_sets = connect_execs_def prop_execs_def disc_execs_def admin_execs_def file_execs_def bdev_execs_def

section \<open>Parsers\<close>

text \<open>A status whose failure a completion shows: it is shifted left by one there.\<close>

definition failing :: "u16 \<Rightarrow> bool" where "failing st = (push_bit 1 st \<noteq> 0)"

lemma failing_nonzero: "failing st \<Longrightarrow> st \<noteq> 0"
  by (auto simp: failing_def)

lemma failing_status [simp]:
  "failing (NVME_SC_INVALID_OPCODE OR NVME_SC_DNR)" "failing (NVME_SC_INVALID_FIELD OR NVME_SC_DNR)"
  "failing (NVME_SC_INVALID_NS OR NVME_SC_DNR)" "failing 16385" "failing 16386" "failing 16395"
  by (simp_all add: failing_def)

lemma failing_ctrl: "nvmet_check_ctrl_status c \<noteq> 0 \<Longrightarrow> failing (nvmet_check_ctrl_status c)"
  by (auto simp: nvmet_check_ctrl_status_def failing_def split: if_splits)

lemma failing_ana: "nvmet_check_ana_state p ns \<noteq> 0 \<Longrightarrow> failing (nvmet_check_ana_state p ns)"
  by (auto simp: nvmet_check_ana_state_def failing_def Let_def split: if_splits)

lemma failing_access: "nvmet_io_cmd_check_access ns r \<noteq> 0 \<Longrightarrow> failing (nvmet_io_cmd_check_access ns r)"
  by (auto simp: nvmet_io_cmd_check_access_def failing_def split: if_splits)

text \<open>A parser either refuses with a status or names what to execute; it changes neither the command
  nor, past the lookup, the namespace.\<close>

definition parsed_ok :: "nvmet_req \<Rightarrow> exec set \<Rightarrow> parsed \<Rightarrow> bool" where
  "parsed_ok r X p =
     (case p of (st, r', x) \<Rightarrow> r_cmd r' = r_cmd r \<and> r_ns r' = r_ns r \<and> r_sg r' = r_sg r \<and>
        r_transfer_len r' = r_transfer_len r \<and>
        (case x of None \<Rightarrow> failing st | Some x \<Rightarrow> st = 0 \<and> x \<in> X))"

lemma parsed_ok_accept [intro]: "x \<in> X \<Longrightarrow> parsed_ok r X (accept x len r)"
  by (simp add: parsed_ok_def accept_def)

lemma parsed_ok_refuse [intro]: "failing st \<Longrightarrow> parsed_ok r X (refuse st loc r)"
  by (simp add: parsed_ok_def refuse_def)

lemma parsed_ok_refuse_len [intro]: "failing st \<Longrightarrow> parsed_ok r X (refuse st loc (r\<lparr>r_data_len := n\<rparr>))"
  by (simp add: parsed_ok_def refuse_def)

lemma parsed_ok_status [intro]: "failing st \<Longrightarrow> parsed_ok r X (st, r, None)"
  by (simp add: parsed_ok_def)

lemma log_exec_admin: "log_exec lid = Some x \<Longrightarrow> x \<in> admin_execs"
  by (auto simp: log_exec_def admin_execs_def split: if_splits)

lemma identify_exec_admin: "identify_exec cns = Some x \<Longrightarrow> x \<in> admin_execs"
  by (auto simp: identify_exec_def admin_execs_def split: if_splits)

lemma parse_connect_ok: "parsed_ok r connect_execs (nvmet_parse_connect_cmd r)"
  by (auto simp: nvmet_parse_connect_cmd_def connect_execs_def)

lemma parse_fabrics_ok: "parsed_ok r prop_execs (nvmet_parse_fabrics_cmd r)"
  by (auto simp: nvmet_parse_fabrics_cmd_def prop_execs_def)

lemma admin_execs_rest:
  "X_abort \<in> admin_execs" "X_set_features \<in> admin_execs" "X_get_features \<in> admin_execs"
  "X_async_event \<in> admin_execs" "X_keep_alive \<in> admin_execs"
  by (simp_all add: admin_execs_def)

lemma parse_admin_ok: "parsed_ok r admin_execs (nvmet_parse_admin_cmd c r)"
  by (auto simp: nvmet_parse_admin_cmd_def Let_def admin_execs_rest failing_ctrl
      intro: log_exec_admin identify_exec_admin split: option.split)

lemma parse_admin_state: "fst (nvmet_parse_admin_cmd c r) = 0 \<Longrightarrow> enabled_and_ready c"
  by (auto simp: nvmet_parse_admin_cmd_def nvmet_check_ctrl_status_def enabled_and_ready_def Let_def split: if_splits)

lemma parse_discovery_ok: "parsed_ok r disc_execs (nvmet_parse_discovery_cmd c r)"
  by (auto simp: nvmet_parse_discovery_cmd_def Let_def disc_execs_def)

lemma parse_discovery_state: "fst (nvmet_parse_discovery_cmd c r) = 0 \<Longrightarrow> n_csts c AND NVME_CSTS_RDY \<noteq> 0"
  by (auto simp: nvmet_parse_discovery_cmd_def refuse_def Let_def split: if_splits)

lemma parse_bdev_ok: "parsed_ok r bdev_execs (nvmet_bdev_parse_io_cmd ns r)"
  by (auto simp: nvmet_bdev_parse_io_cmd_def Let_def bdev_execs_def)

lemma parse_file_ok: "parsed_ok r file_execs (nvmet_file_parse_io_cmd ns r)"
  by (auto simp: nvmet_file_parse_io_cmd_def Let_def file_execs_def)


section \<open>A command is executed, or answered\<close>

lemma check_ctrl_ready: "nvmet_check_ctrl_status c = 0 \<Longrightarrow> enabled_and_ready c"
  by (auto simp: nvmet_check_ctrl_status_def enabled_and_ready_def split: if_splits)

lemma check_ana_accessible: "nvmet_check_ana_state p ns = 0 \<Longrightarrow> accessible p ns"
  by (auto simp: nvmet_check_ana_state_def accessible_def Let_def split: if_splits)

lemma file_parse_effect:
  "nvmet_file_parse_io_cmd ns r = (st, r', Some x) \<Longrightarrow> tc_opcode (r_cmd r) = nvme_cmd_read \<or> tc_opcode (r_cmd r) = nvme_cmd_flush \<Longrightarrow>
   changes_data x (r_cmd r) = False"
  by (auto simp: nvmet_file_parse_io_cmd_def accept_def refuse_def changes_data_def Let_def split: if_splits)

lemma bdev_parse_effect:
  "nvmet_bdev_parse_io_cmd ns r = (st, r', Some x) \<Longrightarrow> tc_opcode (r_cmd r) = nvme_cmd_read \<or> tc_opcode (r_cmd r) = nvme_cmd_flush \<Longrightarrow>
   changes_data x (r_cmd r) = False"
  by (auto simp: nvmet_bdev_parse_io_cmd_def accept_def refuse_def changes_data_def Let_def split: if_splits)

lemma find_ns_active: "find_ns y nsid = Some a \<Longrightarrow> a \<in> set (y_namespaces y) \<and> nsid_at y a = nsid"
  by (auto simp: find_ns_def find_Some_iff)

text \<open>A parser and the queue: the references it took are those of the request.\<close>

definition refs_of :: "nvmet_req \<Rightarrow> nat list" where
  "refs_of r = (case r_ns r of None \<Rightarrow> [] | Some a \<Rightarrow> [a])"

lemma parse_io_ok:
  assumes c: "q_ctrl q = Some c" and qid: "sq_qid (q_sq q) \<noteq> 0" and fresh: "r_ns r = None"
    and p: "nvmet_parse_io_cmd p y c r q = ((st, r', x), q')"
  shows "q' = q\<lparr>q_ns_refs := refs_of r' @ q_ns_refs q\<rparr> \<and> r_cmd r' = r_cmd r \<and> r_sg r' = r_sg r \<and> r_transfer_len r' = r_transfer_len r \<and>
    (case x of None \<Rightarrow> failing st | Some x \<Rightarrow> st = 0 \<and> may_execute p y q r' x)"
proof (cases "nvmet_check_ctrl_status c = 0")
  case False
  then show ?thesis using p fresh failing_ctrl [of c] by (auto simp: nvmet_parse_io_cmd_def refs_of_def Let_def)
next
  case True
  show ?thesis
  proof (cases "find_ns y (tc_nsid (r_cmd r))")
    case None
    then show ?thesis using p True
      by (auto simp: nvmet_parse_io_cmd_def nvmet_find_namespace_def refuse_def refs_of_def failing_def Let_def)
  next
    case (Some a)
    let ?r = "r\<lparr>r_ns := Some a\<rparr>" and ?ns = "ns_at y a" and ?q = "q\<lparr>q_ns_refs := a # q_ns_refs q\<rparr>"
    let ?ana = "nvmet_check_ana_state p ?ns" and ?acc = "nvmet_io_cmd_check_access ?ns ?r"
    have parse: "((st, r', x), q') = (if ?ana \<noteq> 0 then (refuse ?ana OFF_NSID ?r, ?q)
        else if ?acc \<noteq> 0 then (refuse ?acc OFF_NSID ?r, ?q)
        else if ns_file ?ns \<noteq> File_null then (nvmet_file_parse_io_cmd ?ns ?r, ?q)
        else (nvmet_bdev_parse_io_cmd ?ns ?r, ?q))"
      unfolding p [symmetric] using True Some by (simp add: nvmet_parse_io_cmd_def nvmet_find_namespace_def Let_def)
    show ?thesis
    proof (cases "?ana = 0 \<and> ?acc = 0")
      case False
      then show ?thesis using parse failing_ana [of p ?ns] failing_access [of ?ns ?r] by (auto simp: refuse_def refs_of_def split: if_splits)
    next
      case ok: True
      define P where "P = (if ns_file ?ns \<noteq> File_null then nvmet_file_parse_io_cmd ?ns ?r else nvmet_bdev_parse_io_cmd ?ns ?r)"
      define X where "X = (if ns_file ?ns = File_null then bdev_execs else file_execs)"
      have eq: "P = (st, r', x)" "q' = ?q" using parse ok by (auto simp: P_def split: if_splits)
      have pok: "parsed_ok ?r X P" by (simp add: P_def X_def parse_file_ok parse_bdev_ok)
      have ro: "ns_readonly ?ns \<Longrightarrow> tc_opcode (r_cmd ?r) = nvme_cmd_read \<or> tc_opcode (r_cmd ?r) = nvme_cmd_flush"
        using ok by (auto simp: nvmet_io_cmd_check_access_def split: if_splits)
      have noeff: "\<not> (ns_readonly ?ns \<and> changes_data e (r_cmd ?r))" if "x = Some e" for e
        using eq(1) that ro file_parse_effect [of ?ns ?r st r' e] bdev_parse_effect [of ?ns ?r st r' e]
        by (auto simp: P_def split: if_splits)
      show ?thesis
        using pok eq noeff c qid find_ns_active [OF Some] check_ctrl_ready [OF True] check_ana_accessible [of p ?ns] ok
        by (auto simp: parsed_ok_def may_execute_def refs_of_def X_def split: option.splits if_splits)
    qed
  qed
qed

lemma parse_cmd_ok:
  assumes fresh: "r_ns r = None" and p: "nvmet_parse_cmd p y r q = ((st, r', x), q')"
  shows "q' = q\<lparr>q_ns_refs := refs_of r' @ q_ns_refs q\<rparr> \<and> r_cmd r' = r_cmd r \<and> r_sg r' = r_sg r \<and> r_transfer_len r' = r_transfer_len r \<and>
    (case x of None \<Rightarrow> failing st | Some x \<Rightarrow> st = 0 \<and> may_execute p y q r' x)"
proof (cases "q_ctrl q")
  case None
  have "(x = Some X_admin_connect \<longrightarrow> tc_qid (r_cmd r) = 0) \<and> (x = Some X_io_connect \<longrightarrow> tc_qid (r_cmd r) \<noteq> 0)"
    using p None by (auto simp: nvmet_parse_cmd_def nvmet_parse_connect_cmd_def accept_def refuse_def split: if_splits)
  then show ?thesis using p None parse_connect_ok [of r] fresh
    by (auto simp: nvmet_parse_cmd_def parsed_ok_def may_execute_def refs_of_def connect_execs_def split: option.splits)
next
  case (Some c)
  show ?thesis
  proof (cases "sq_qid (q_sq q) = 0")
    case False
    then show ?thesis using p Some fresh parse_io_ok [OF Some False fresh] by (simp add: nvmet_parse_cmd_def)
  next
    case True
    then show ?thesis using p Some fresh parse_fabrics_ok [of r] parse_admin_ok [of r c] parse_discovery_ok [of r c]
        parse_admin_state [of c r] parse_discovery_state [of c r]
      by (auto simp: nvmet_parse_cmd_def parsed_ok_def may_execute_def refs_of_def split: option.splits if_splits)
  qed
qed

text \<open>C29. Every command the target receives on a queue is either answered or executed, never both and
  never neither. If nothing is to be executed, exactly one completion with an error has been sent and the
  references to namespaces are what they were. Otherwise nothing has been sent yet, the queue is alive,
  the request holds exactly the reference to its namespace, and what will be executed is allowed
  on that queue: only a connect where there is no controller yet, the commands of the kind of subsystem
  once the controller is ready, and I/O only to an active, accessible namespace of that number through
  the driver its device calls for, nothing that changes data when it is read-only.\<close>

theorem commands_checked:
  "(case nvmet_req_init live p y r q of
      (None, r', q') \<Rightarrow>
        (\<exists>cqe. q_out q' = q_out q @ [cqe] \<and> q_command_id cqe = tc_command_id (r_cmd r) \<and> q_status cqe \<noteq> 0) \<and> q_ns_refs q' = q_ns_refs q
    | (Some x, r', q') \<Rightarrow>
        live \<and> q_out q' = q_out q \<and> q_ns_refs q' = refs_of r' @ q_ns_refs q \<and> r_cmd r' = r_cmd r \<and>
        may_execute p y q r' x)"
proof -
  have r0: "r_ns (init_req r) = None" "r_cmd (init_req r) = r_cmd r" by (simp_all add: init_req_def)
  have or_failing: "failing st \<Longrightarrow> push_bit 1 st \<noteq> 0 \<and> push_bit 1 st OR m \<noteq> 0" for st m :: u16
    by (simp add: failing_def or_eq_0_iff)
  have done1: "(\<exists>cqe. q_out (nvmet_req_complete st r' q1) = q_out q @ [cqe] \<and> q_command_id cqe = tc_command_id (r_cmd r) \<and> q_status cqe \<noteq> 0) \<and>
      q_ns_refs (nvmet_req_complete st r' q1) = q_ns_refs q"
    if "r_cmd r' = r_cmd r" "q1 = q\<lparr>q_ns_refs := refs_of r' @ q_ns_refs q\<rparr>" "failing st" for st r' q1
    using that or_failing by (auto simp: nvmet_req_complete_def nvmet_set_error_def refs_of_def Let_def failing_nonzero split: prod.splits option.splits if_splits)
  obtain st r' x q' where p: "nvmet_parse_cmd p y (init_req r) q = ((st, r', x), q')" by (metis prod.exhaust)
  note ok = parse_cmd_ok [OF r0(1) p]
  have bad: "q = q\<lparr>q_ns_refs := refs_of ((init_req r)\<lparr>r_error_loc := l\<rparr>) @ q_ns_refs q\<rparr>" for l
    by (simp add: refs_of_def r0)
  let ?r = "(init_req r)\<lparr>r_error_loc := OFF_FLAGS\<rparr>"
  show ?thesis
  proof (cases "tc_flags (r_cmd r) AND (NVME_CMD_FUSE_FIRST OR NVME_CMD_FUSE_SECOND) \<noteq> 0 \<or>
      tc_flags (r_cmd r) AND NVME_CMD_SGL_ALL \<noteq> NVME_CMD_SGL_METABUF")
    case True
    then have "nvmet_req_init live p y r q = (None, ?r, nvmet_req_complete (NVME_SC_INVALID_FIELD OR NVME_SC_DNR) ?r q)"
      by (auto simp: nvmet_req_init_def r0 Let_def)
    then show ?thesis using done1 [of ?r q, OF _ bad failing_status(2)] r0 by simp
  next
    case False
    then have init: "nvmet_req_init live p y r q = (if st \<noteq> 0 then (None, r', nvmet_req_complete st r' q')
        else if \<not> live then (None, r', nvmet_req_complete (NVME_SC_INVALID_FIELD OR NVME_SC_DNR) r' q')
        else (x, r', upd_ctrl (\<lambda>c. c\<lparr>n_cmd_seen := True\<rparr>) q'))"
      using p by (simp add: nvmet_req_init_def r0 Let_def)
    have r': "r_cmd r' = r_cmd r" "q' = q\<lparr>q_ns_refs := refs_of r' @ q_ns_refs q\<rparr>" using ok r0 by simp_all
    show ?thesis
    proof (cases x)
      case None
      then have "failing st" using ok by simp
      then show ?thesis using init done1 [OF r'] by (simp add: failing_nonzero)
    next
      case (Some e)
      then show ?thesis using init ok r' done1 [OF r' failing_status(2)] by (simp add: upd_ctrl_def)
    qed
  qed
qed

section \<open>A device that could not be opened\<close>

lemma bdev_enable_keeps_file:
  assumes "nvmet_ns_enable e a y = Some (0, y')" "ne_bdev e = 0" "\<not> ns_enabled (ns_at y a)"
  shows "ns_file (ns_at y' a) = ns_file (ns_at y a)"
  using assms
  by (auto simp: nvmet_ns_enable_def ns_open_device_def nvmet_bdev_ns_enable_def Let_def split: if_splits option.splits)

text \<open>C34. A file that could not be opened sends a later block device's I/O to the file driver. When the first
  device path of a namespace is a file that cannot be opened, enabling fails, as it should, but leaves the
  error code in the file pointer. If the administrator then gives a block device and enables the
  namespace, that succeeds, and every read or write a host sends to it is executed by the file driver on
  a pointer that is an error code.\<close>

theorem failed_open_misroutes_io:
  assumes disabled: "y_objs y a \<noteq> None" "\<not> ns_enabled (ns_at y a)" "y_nr_namespaces y \<noteq> 1024"
    and broken: "ne_bdev e1 = - ENOTBLK" "ne_filp e1 \<noteq> 0" "nvmet_ns_enable e1 a y = Some (ret, y1)"
    and opened: "ne_bdev e2 = 0" "nvmet_ns_enable e2 a y1 = Some (0, y2)"
    and ready: "q_ctrl q = Some c" "enabled_and_ready c" "sq_qid (q_sq q) \<noteq> 0"
    and cmd: "find_ns y2 (tc_nsid (r_cmd r)) = Some a" "accessible p (ns_at y2 a)" "\<not> ns_readonly (ns_at y2 a)"
      "tc_opcode (r_cmd r) \<in> {nvme_cmd_read, nvme_cmd_write}" "tc_flags (r_cmd r) = NVME_CMD_SGL_METABUF"
  shows "ret = ne_filp e1 \<and> ns_bdev (ns_at y2 a) \<and> ns_file (ns_at y2 a) = File_err \<and>
    fst (nvmet_req_init True p y2 r q) = Some X_file_rw"
proof -
  have 1: "ret = ne_filp e1 \<and> \<not> ns_enabled (ns_at y1 a) \<and> ns_file (ns_at y1 a) = File_err"
    using disabled broken failed_open_leaves_error_pointer [OF broken(1,2) disabled(1)]
    by (auto simp: nvmet_ns_enable_def ns_open_device_def nvmet_bdev_ns_enable_def nvmet_file_ns_enable_def Let_def split: if_splits)
  have 2: "ns_file (ns_at y2 a) = File_err" using bdev_enable_keeps_file [OF opened(2,1)] 1 by simp
  have 3: "ns_bdev (ns_at y2 a)" using opened 1
    by (auto simp: nvmet_ns_enable_def ns_open_device_def nvmet_bdev_ns_enable_def Let_def split: if_splits option.splits)
  have ctl: "nvmet_check_ctrl_status c = 0" using ready(2)
    by (simp add: nvmet_check_ctrl_status_def enabled_and_ready_def)
  have ana: "nvmet_check_ana_state p (ns_at y2 a) = 0" using cmd(2)
    by (simp add: nvmet_check_ana_state_def accessible_def)
  have "fst (nvmet_req_init True p y2 r q) = Some X_file_rw"
    using ready cmd 2 ctl ana
    by (auto simp: nvmet_req_init_def nvmet_parse_cmd_def nvmet_parse_io_cmd_def nvmet_find_namespace_def init_req_def
        nvmet_io_cmd_check_access_def nvmet_file_parse_io_cmd_def accept_def Let_def)
  then show ?thesis using 1 2 3 by simp
qed


definition bad_file_env :: ns_env where "bad_file_env = bdev_env\<lparr>ne_bdev := - ENOTBLK, ne_filp := - 21\<rparr>"

definition read_req :: nvmet_req where
  "read_req = example_req\<lparr>r_cmd := (r_cmd example_req)\<lparr>tc_opcode := nvme_cmd_read, tc_nsid := 7, tc_flags := NVME_CMD_SGL_METABUF\<rparr>\<rparr>"

definition ready_queue :: nvmet_queue where
  "ready_queue = example_queue\<lparr>q_ctrl := Some ((blank_ctrl 10)\<lparr>n_cc := 1, n_csts := 1\<rparr>),
     q_sq := \<lparr>sq_qid = 1, sq_size = 32, sq_sqhd = 0, sq_sqhd_disabled = False\<rparr>\<rparr>"

definition new_ns7 :: nvmet_subsys where
  "new_ns7 = (new_subsys ''nqn'' Nqn_nvme 0)\<lparr>y_objs := [0 \<mapsto> (example_ns 7)\<lparr>ns_enabled := False, ns_bdev := False\<rparr>]\<rparr>"

theorem failed_open_misroutes_io_witness:
  "\<exists>y1 y2. nvmet_ns_enable bad_file_env 0 new_ns7 = Some (- 21, y1) \<and> nvmet_ns_enable bdev_env 0 y1 = Some (0, y2) \<and>
     fst (nvmet_req_init True \<lparr>p_subsystems = [5], p_inline_data_size = 0, p_ana_state = (\<lambda>_. 1)\<rparr> y2 read_req ready_queue) = Some X_file_rw"
proof -
  define y1 where "y1 = snd (the (nvmet_ns_enable bad_file_env 0 new_ns7))"
  define y2 where "y2 = snd (the (nvmet_ns_enable bdev_env 0 y1))"
  note defs = nvmet_ns_enable_def ns_open_device_def nvmet_bdev_ns_enable_def nvmet_file_ns_enable_def bdev_env_def
    bad_file_env_def new_ns7_def new_subsys_def example_ns_def ns_at_def nsid_at_def set_ns_def ycall_def nvmet_ns_changed_def
    p2p_calls_def Let_def
  have e1: "nvmet_ns_enable bad_file_env 0 new_ns7 = Some (- 21, y1)" unfolding y1_def by (simp add: defs)
  have e2: "nvmet_ns_enable bdev_env 0 y1 = Some (0, y2)" unfolding y2_def y1_def by (simp add: defs)
  have y2: "find_ns y2 7 = Some 0" "\<not> ns_readonly (ns_at y2 0)"
    unfolding y2_def y1_def by (simp_all add: defs find_ns_def)
  have "fst (nvmet_req_init True \<lparr>p_subsystems = [5], p_inline_data_size = 0, p_ana_state = (\<lambda>_. 1)\<rparr> y2 read_req ready_queue) = Some X_file_rw"
    by (rule failed_open_misroutes_io [where c = "(blank_ctrl 10)\<lparr>n_cc := 1, n_csts := 1\<rparr>", OF _ _ _ _ _ e1 _ e2,
        THEN conjunct2, THEN conjunct2, THEN conjunct2])
      (use y2 in \<open>simp_all add: defs ready_queue_def example_queue_def enabled_and_ready_def read_req_def accessible_def\<close>)
  then show ?thesis using e1 e2 by blast
qed

end
