(* ===== verification/Host_Ctrl.thy ===== *)
theory Host_Ctrl
  imports Nvme_Spec
begin

text \<open>
  The host controller: \<open>struct nvme_ctrl\<close> and its life cycle (\<open>host/core.c\<close>, \<open>host/nvme.h\<close>). The
  state machine, the reset and delete requests, keep-alive, controller enable / disable /
  shutdown, and the options a fabrics controller carries (\<open>host/fabrics.h\<close>).

  Everything a function asks of the rest of the kernel (workqueues, block layer, RDMA core) is
  recorded, in order, in the controller's trace \<open>c_trace\<close>; what the kernel or the remote
  controller answers is a parameter.
\<close>

section \<open>What the host driver asks of the kernel\<close>

datatype work =
    Reset_work | Delete_work | Scan_work | Async_event_work | Ka_work | Fw_act_work
  | Ana_work | Err_work | Reconnect_work

datatype cm_event =
    ADDR_RESOLVED | ADDR_ERROR | ROUTE_RESOLVED | ROUTE_ERROR | CONNECT_ERROR | UNREACHABLE
  | REJECTED | ESTABLISHED | DISCONNECTED | ADDR_CHANGE | TIMEWAIT_EXIT | DEVICE_REMOVAL
  | CM_OTHER

text \<open>
  Calls made on behalf of one RDMA queue, with their answer where they can fail (\<open>0\<close> or a negative
  errno; a boolean for an allocator), and the connection manager's events for the queue.
\<close>

datatype qcall =
    Rdma_create_id int | Rdma_destroy_id | Rdma_resolve_addr bool int | Rdma_resolve_route int
  | Rdma_set_service_type int | Rdma_connect u16 u16 u16 int | Rdma_disconnect | Ib_drain_qp
  | Ib_alloc_cq nat nat bool int | Ib_free_cq
  | Rdma_create_qp nat nat int int | Rdma_destroy_qp | Ib_destroy_qp
  | Kcalloc_ring nat bool | Kfree_ring | Kzalloc_qe nat bool | Kfree_qe nat
  | Dma_map_qe nat bool | Dma_unmap_qe nat
  | Ib_mr_pool_init nat int int | Ib_mr_pool_destroy
  | Ib_post_recv nat int
  | Cm_event cm_event

text \<open>Block layer objects of a fabrics controller.\<close>

datatype blkq = Admin_q | Fabrics_q | Connect_q

datatype hcall =
    Wake_up_state_wq | Kick_requeue_lists
  | Queue_work work | Queue_delayed_work work nat | Cancel_work work | Flush_work work
  | Q nat qcall
  | Alloc_tagset bool | Free_tagset bool | Init_queue blkq | Cleanup_queue blkq
  | Quiesce_admin | Unquiesce_admin | Stop_queues | Start_queues
  | Cancel_busy_requests bool | Wait_completed_requests bool | Update_nr_hw_queues nat
  | Alloc_async_qe | Map_async_qe | Unmap_async_qe | Kfree_async_qe
  | Connect_queue nat bool
  | Reg_write u32 u32 | Msleep nat
  | Set_features u32 u32 | Init_identify
  | Mpath_stop | Warn_once | Keep_alive_cmd | Submit_async_event | Uevent u32 | Get_fw_slot_info
  | Remove_namespaces | Uninit_ctrl | Get_ctrl | Put_ctrl
  | Get_effects_log | Directive_streams bool | Set_queue_limits

section \<open>The controller\<close>

datatype nvme_ctrl_state =
    NVME_CTRL_NEW | NVME_CTRL_LIVE | NVME_CTRL_RESETTING | NVME_CTRL_CONNECTING
  | NVME_CTRL_DELETING | NVME_CTRL_DEAD

text \<open>The options a user can give, as bits of the parsed mask (\<open>enum nvmf_parsing_opts\<close>).\<close>

abbreviation (input) NVMF_OPT_TRANSPORT :: u32 where "NVMF_OPT_TRANSPORT \<equiv> 0x1"
abbreviation (input) NVMF_OPT_NQN :: u32 where "NVMF_OPT_NQN \<equiv> 0x2"
abbreviation (input) NVMF_OPT_TRADDR :: u32 where "NVMF_OPT_TRADDR \<equiv> 0x4"
abbreviation (input) NVMF_OPT_TRSVCID :: u32 where "NVMF_OPT_TRSVCID \<equiv> 0x8"
abbreviation (input) NVMF_OPT_QUEUE_SIZE :: u32 where "NVMF_OPT_QUEUE_SIZE \<equiv> 0x10"
abbreviation (input) NVMF_OPT_NR_IO_QUEUES :: u32 where "NVMF_OPT_NR_IO_QUEUES \<equiv> 0x20"
abbreviation (input) NVMF_OPT_TL_RETRY_COUNT :: u32 where "NVMF_OPT_TL_RETRY_COUNT \<equiv> 0x40"
abbreviation (input) NVMF_OPT_KATO :: u32 where "NVMF_OPT_KATO \<equiv> 0x80"
abbreviation (input) NVMF_OPT_HOSTNQN :: u32 where "NVMF_OPT_HOSTNQN \<equiv> 0x100"
abbreviation (input) NVMF_OPT_RECONNECT_DELAY :: u32 where "NVMF_OPT_RECONNECT_DELAY \<equiv> 0x200"
abbreviation (input) NVMF_OPT_HOST_TRADDR :: u32 where "NVMF_OPT_HOST_TRADDR \<equiv> 0x400"
abbreviation (input) NVMF_OPT_CTRL_LOSS_TMO :: u32 where "NVMF_OPT_CTRL_LOSS_TMO \<equiv> 0x800"
abbreviation (input) NVMF_OPT_HOST_ID :: u32 where "NVMF_OPT_HOST_ID \<equiv> 0x1000"
abbreviation (input) NVMF_OPT_DUP_CONNECT :: u32 where "NVMF_OPT_DUP_CONNECT \<equiv> 0x2000"
abbreviation (input) NVMF_OPT_DISABLE_SQFLOW :: u32 where "NVMF_OPT_DISABLE_SQFLOW \<equiv> 0x4000"
abbreviation (input) NVMF_OPT_HDR_DIGEST :: u32 where "NVMF_OPT_HDR_DIGEST \<equiv> 0x8000"
abbreviation (input) NVMF_OPT_DATA_DIGEST :: u32 where "NVMF_OPT_DATA_DIGEST \<equiv> 0x10000"
abbreviation (input) NVMF_OPT_NR_WRITE_QUEUES :: u32 where "NVMF_OPT_NR_WRITE_QUEUES \<equiv> 0x20000"
abbreviation (input) NVMF_OPT_NR_POLL_QUEUES :: u32 where "NVMF_OPT_NR_POLL_QUEUES \<equiv> 0x40000"
abbreviation (input) NVMF_OPT_TOS :: u32 where "NVMF_OPT_TOS \<equiv> 0x80000"

text \<open>Hosts are shared between controllers and reference counted; \<open>o_host\<close> is a host's address.\<close>

record nvmf_host =
  h_addr :: nat
  h_ref :: nat
  h_nqn :: string
  h_id :: "u8 list"

record nvmf_ctrl_options =
  o_mask :: u32
  o_transport :: "string option"
  o_subsysnqn :: "string option"
  o_traddr :: "string option"
  o_trsvcid :: "string option"
  o_host_traddr :: "string option"
  o_queue_size :: nat
  o_nr_io_queues :: nat
  o_reconnect_delay :: nat
  o_discovery_nqn :: bool
  o_duplicate_connect :: bool
  o_kato :: nat
  o_host :: "nat option"
  o_max_reconnects :: int
  o_disable_sqflow :: bool
  o_hdr_digest :: bool
  o_data_digest :: bool
  o_nr_write_queues :: nat
  o_nr_poll_queues :: nat
  o_tos :: int

text \<open>
  The cached identify data and the features that only the controller's initialisation looks at, kept
  together: fields of \<open>struct nvme_ctrl\<close> of the same names.
\<close>

record power_state =
  ps_flags :: u8
  ps_entry_lat :: u32
  ps_exit_lat :: u32

record ctrl_ident =
  i_identified :: bool
  i_vs :: u32
  i_subsystem :: bool
  i_effects :: bool       \<comment> \<open>\<open>effects\<close> is allocated\<close>
  i_quirks :: u64
  i_oncs :: u16
  i_oacs :: u16
  i_nssa :: u16
  i_nr_streams :: u16
  i_max_namespaces :: u32
  i_abort_limit :: nat
  i_vwc :: u8
  i_npss :: u8
  i_apsta :: u8
  i_psd :: "power_state list"
  i_ps_max_latency_us :: u64
  i_apst_enabled :: bool
  i_iorcsz :: u32

record nvme_ctrl =
  c_comp_seen :: bool
  c_state :: nvme_ctrl_state
  c_tagset :: bool
  c_admin_tagset :: bool
  c_cntlid :: u16
  c_ctrl_config :: u32
  c_queue_count :: nat
  c_cap :: u64
  c_page_size :: u32
  c_max_hw_sectors :: nat
  c_max_segments :: nat
  c_crdt :: "u16 list"
  c_sqsize :: u16
  c_sgls :: u32
  c_kas :: u16
  c_oaes :: u32
  c_aen_result :: u32
  c_ctratt :: u32
  c_ns_changed :: bool    \<comment> \<open>bit \<open>NVME_AER_NOTICE_NS_CHANGED\<close> of \<open>events\<close>\<close>
  c_ana_log_buf :: bool   \<comment> \<open>\<open>ana_log_buf\<close> is allocated\<close>
  c_mtfa :: u16
  c_shutdown_timeout :: nat
  c_kato :: nat
  c_delay_before_chk_rdy :: bool
  c_ioccsz :: u32
  c_icdoff :: u16
  c_maxcmd :: u16
  c_nr_reconnects :: int
  c_ident :: ctrl_ident
  c_opts :: nvmf_ctrl_options
  c_pending :: "work set"
  c_trace :: "hcall list"

text \<open>
  A controller as the transport's \<open>kzalloc\<close> and \<open>nvme_init_ctrl\<close> leave it: every field zero, the state
  \<open>NEW\<close>, the user's options attached.
\<close>

definition init_ident :: ctrl_ident where
  "init_ident =
     \<lparr>i_identified = False, i_vs = 0, i_subsystem = False, i_effects = False, i_quirks = 0, i_oncs = 0,
      i_oacs = 0, i_nssa = 0, i_nr_streams = 0, i_max_namespaces = 0, i_abort_limit = 0, i_vwc = 0,
      i_npss = 0, i_apsta = 0, i_psd = replicate 32 \<lparr>ps_flags = 0, ps_entry_lat = 0, ps_exit_lat = 0\<rparr>,
      i_ps_max_latency_us = 0, i_apst_enabled = False, i_iorcsz = 0\<rparr>"

definition nvme_init_ctrl :: "nvmf_ctrl_options \<Rightarrow> nvme_ctrl" where
  "nvme_init_ctrl opts =
     \<lparr>c_comp_seen = False, c_state = NVME_CTRL_NEW, c_tagset = False, c_admin_tagset = False,
      c_cntlid = 0, c_ctrl_config = 0, c_queue_count = 0, c_cap = 0, c_page_size = 0,
      c_max_hw_sectors = 0, c_max_segments = 0, c_crdt = [0, 0, 0], c_sqsize = 0, c_sgls = 0,
      c_kas = 0, c_oaes = 0, c_aen_result = 0, c_ctratt = 0, c_ns_changed = False,
      c_ana_log_buf = False, c_mtfa = 0, c_shutdown_timeout = 0, c_kato = 0,
      c_delay_before_chk_rdy = False, c_ioccsz = 0, c_icdoff = 0, c_maxcmd = 0,
      c_nr_reconnects = 0, c_ident = init_ident, c_opts = opts, c_pending = {}, c_trace = []\<rparr>"

definition call :: "hcall \<Rightarrow> nvme_ctrl \<Rightarrow> nvme_ctrl" where
  "call k c = c\<lparr>c_trace := c_trace c @ [k]\<rparr>"

text \<open>
  The workqueue: \<open>queue_work\<close> refuses a work that is already pending; the pending bit is cleared
  when the work starts to run or is cancelled.
\<close>

definition queue_work :: "work \<Rightarrow> nvme_ctrl \<Rightarrow> bool \<times> nvme_ctrl" where
  "queue_work w c =
     (if w \<in> c_pending c then (False, c)
      else (True, call (Queue_work w) (c\<lparr>c_pending := insert w (c_pending c)\<rparr>)))"

definition queue_delayed_work :: "work \<Rightarrow> nat \<Rightarrow> nvme_ctrl \<Rightarrow> bool \<times> nvme_ctrl" where
  "queue_delayed_work w delay c =
     (if w \<in> c_pending c then (False, c)
      else (True, call (Queue_delayed_work w delay) (c\<lparr>c_pending := insert w (c_pending c)\<rparr>)))"

definition cancel_work_sync :: "work \<Rightarrow> nvme_ctrl \<Rightarrow> nvme_ctrl" where
  "cancel_work_sync w c = call (Cancel_work w) (c\<lparr>c_pending := c_pending c - {w}\<rparr>)"

definition work_started :: "work \<Rightarrow> nvme_ctrl \<Rightarrow> nvme_ctrl" where
  "work_started w c = c\<lparr>c_pending := c_pending c - {w}\<rparr>"

section \<open>The state machine\<close>

fun ctrl_transition :: "nvme_ctrl_state \<Rightarrow> nvme_ctrl_state \<Rightarrow> bool" where
  "ctrl_transition NVME_CTRL_NEW NVME_CTRL_LIVE = True"
| "ctrl_transition NVME_CTRL_RESETTING NVME_CTRL_LIVE = True"
| "ctrl_transition NVME_CTRL_CONNECTING NVME_CTRL_LIVE = True"
| "ctrl_transition NVME_CTRL_NEW NVME_CTRL_RESETTING = True"
| "ctrl_transition NVME_CTRL_LIVE NVME_CTRL_RESETTING = True"
| "ctrl_transition NVME_CTRL_NEW NVME_CTRL_CONNECTING = True"
| "ctrl_transition NVME_CTRL_RESETTING NVME_CTRL_CONNECTING = True"
| "ctrl_transition NVME_CTRL_LIVE NVME_CTRL_DELETING = True"
| "ctrl_transition NVME_CTRL_RESETTING NVME_CTRL_DELETING = True"
| "ctrl_transition NVME_CTRL_CONNECTING NVME_CTRL_DELETING = True"
| "ctrl_transition NVME_CTRL_DELETING NVME_CTRL_DEAD = True"
| "ctrl_transition _ _ = False"

definition nvme_change_ctrl_state :: "nvme_ctrl_state \<Rightarrow> nvme_ctrl \<Rightarrow> bool \<times> nvme_ctrl" where
  "nvme_change_ctrl_state new c =
     (let changed = ctrl_transition (c_state c) new;
          c = (if changed then call Wake_up_state_wq (c\<lparr>c_state := new\<rparr>) else c);
          c = (if changed \<and> c_state c = NVME_CTRL_LIVE then call Kick_requeue_lists c else c)
      in (changed, c))"

definition nvme_state_terminal :: "nvme_ctrl \<Rightarrow> bool" where
  "nvme_state_terminal c =
     (case c_state c of
        NVME_CTRL_NEW \<Rightarrow> False | NVME_CTRL_LIVE \<Rightarrow> False
      | NVME_CTRL_RESETTING \<Rightarrow> False | NVME_CTRL_CONNECTING \<Rightarrow> False
      | NVME_CTRL_DELETING \<Rightarrow> True | NVME_CTRL_DEAD \<Rightarrow> True)"

definition nvme_queue_scan :: "nvme_ctrl \<Rightarrow> nvme_ctrl" where
  "nvme_queue_scan c =
     (if c_state c = NVME_CTRL_LIVE \<and> c_tagset c then snd (queue_work Scan_work c) else c)"

definition nvme_try_sched_reset :: "nvme_ctrl \<Rightarrow> int \<times> nvme_ctrl" where
  "nvme_try_sched_reset c =
     (if c_state c \<noteq> NVME_CTRL_RESETTING then (- EBUSY, c)
      else let (ok, c) = queue_work Reset_work c in (if \<not> ok then - EBUSY else 0, c))"

definition nvme_reset_ctrl :: "nvme_ctrl \<Rightarrow> int \<times> nvme_ctrl" where
  "nvme_reset_ctrl c =
     (let (changed, c) = nvme_change_ctrl_state NVME_CTRL_RESETTING c
      in if \<not> changed then (- EBUSY, c)
         else let (ok, c) = queue_work Reset_work c in (if \<not> ok then - EBUSY else 0, c))"

definition nvme_delete_ctrl :: "nvme_ctrl \<Rightarrow> int \<times> nvme_ctrl" where
  "nvme_delete_ctrl c =
     (let (changed, c) = nvme_change_ctrl_state NVME_CTRL_DELETING c
      in if \<not> changed then (- EBUSY, c)
         else let (ok, c) = queue_work Delete_work c in (if \<not> ok then - EBUSY else 0, c))"

text \<open>
  \<open>nvme_reset_ctrl_sync\<close> waits for the reset work: \<open>run\<close> is what that work does to the controller
  (\<open>nvme_rdma_reset_ctrl_work\<close> for this transport).
\<close>

definition nvme_reset_ctrl_sync :: "(nvme_ctrl \<Rightarrow> nvme_ctrl) \<Rightarrow> nvme_ctrl \<Rightarrow> int \<times> nvme_ctrl" where
  "nvme_reset_ctrl_sync run c =
     (let (ret, c) = nvme_reset_ctrl c
      in if ret = 0 then
           let c = run (call (Flush_work Reset_work) c)
           in (if c_state c \<noteq> NVME_CTRL_LIVE then - ENETRESET else 0, c)
         else (ret, c))"

section \<open>Set features\<close>

text \<open>
  \<open>fe fid dword11\<close> is what the controller answers to a set-features command: a negative errno, 0, or a
  positive NVMe status, with the completion's 32-bit result.
\<close>

type_synonym features_env = "u32 \<Rightarrow> u32 \<Rightarrow> int \<times> u32"

definition nvme_set_features :: "features_env \<Rightarrow> u32 \<Rightarrow> u32 \<Rightarrow> nvme_ctrl \<Rightarrow> int \<times> u32 \<times> nvme_ctrl" where
  "nvme_set_features fe fid dword11 c =
     (fst (fe fid dword11), snd (fe fid dword11), call (Set_features fid dword11) c)"

definition nvme_set_queue_count :: "features_env \<Rightarrow> nat \<Rightarrow> nvme_ctrl \<Rightarrow> int \<times> nat \<times> nvme_ctrl" where
  "nvme_set_queue_count fe count c =
     (let n = (of_nat count - 1 :: u32);
          q_count = n OR push_bit 16 n;
          (status, result, c) = nvme_set_features fe NVME_FEAT_NUM_QUEUES q_count c
      in if status < 0 then (status, count, c)
         else if status > 0 then (0, 0, c)
         else
           let nr_io_queues = unat (min (result AND 0xffff) (drop_bit 16 result)) + 1
           in (0, min count nr_io_queues, c))"

lemma nvme_set_queue_count_le:
  "nvme_set_queue_count fe count c = (ret, n, c') \<Longrightarrow> n \<le> count"
  by (auto simp: nvme_set_queue_count_def nvme_set_features_def Let_def split: if_splits)

end
