(* ===== verification/Host_Core.thy ===== *)
theory Host_Core
  imports Host_Ctrl
begin

text \<open>
  The transport-independent host operations on a controller (\<open>host/core.c\<close>): keep-alive,
  asynchronous events, firmware activation, the register handshakes that enable, disable and shut
  down a controller, start, stop and deletion.
\<close>

section \<open>Keep-alive\<close>

abbreviation (input) HZ_MS :: "nat \<Rightarrow> nat" where "HZ_MS s \<equiv> s * 1000"

text \<open>Delays of delayed works are recorded in milliseconds (\<open>kato * HZ\<close> jiffies are \<open>kato\<close> seconds).\<close>

definition nvme_start_keep_alive :: "nvme_ctrl \<Rightarrow> nvme_ctrl" where
  "nvme_start_keep_alive c =
     (if c_kato c = 0 then c else snd (queue_delayed_work Ka_work (HZ_MS (c_kato c)) c))"

definition nvme_stop_keep_alive :: "nvme_ctrl \<Rightarrow> nvme_ctrl" where
  "nvme_stop_keep_alive c = (if c_kato c = 0 then c else cancel_work_sync Ka_work c)"

text \<open>\<open>ret\<close>: whether the block layer gave a request for the keep-alive command.\<close>

definition nvme_keep_alive :: "int \<Rightarrow> nvme_ctrl \<Rightarrow> int \<times> nvme_ctrl" where
  "nvme_keep_alive ret c = (if ret \<noteq> 0 then (ret, c) else (0, call Keep_alive_cmd c))"

definition nvme_keep_alive_work :: "int \<Rightarrow> nvme_ctrl \<Rightarrow> nvme_ctrl" where
  "nvme_keep_alive_work ret c =
     (let comp_seen = c_comp_seen c
      in if c_ctratt c AND NVME_CTRL_ATTR_TBKAS \<noteq> 0 \<and> comp_seen
         then snd (queue_delayed_work Ka_work (HZ_MS (c_kato c)) (c\<lparr>c_comp_seen := False\<rparr>))
         else let (err, c) = nvme_keep_alive ret c
              in if err \<noteq> 0 then snd (nvme_reset_ctrl c) else c)"

definition nvme_keep_alive_end_io :: "bool \<Rightarrow> nvme_ctrl \<Rightarrow> nvme_ctrl" where
  "nvme_keep_alive_end_io failed c =
     (if failed then c
      else
        let c = c\<lparr>c_comp_seen := False\<rparr>;
            startka = (c_state c = NVME_CTRL_LIVE \<or> c_state c = NVME_CTRL_CONNECTING)
        in if startka then snd (queue_delayed_work Ka_work (HZ_MS (c_kato c)) c) else c)"

section \<open>Asynchronous events\<close>

abbreviation (input) NVME_AEN_SUPPORTED :: u32 where
  "NVME_AEN_SUPPORTED \<equiv>
     NVME_AEN_CFG_NS_ATTR OR NVME_AEN_CFG_FW_ACT OR NVME_AEN_CFG_ANA_CHANGE OR NVME_AEN_CFG_DISC_CHANGE"

definition nvme_enable_aen :: "features_env \<Rightarrow> nvme_ctrl \<Rightarrow> nvme_ctrl" where
  "nvme_enable_aen fe c =
     (let supported = c_oaes c AND NVME_AEN_SUPPORTED
      in if supported = 0 then c
         else let (status, result, c) = nvme_set_features fe NVME_FEAT_ASYNC_EVENT supported c
              in snd (queue_work Async_event_work c))"

definition nvme_aen_uevent :: "bool \<Rightarrow> nvme_ctrl \<Rightarrow> nvme_ctrl" where
  "nvme_aen_uevent alloc_ok c =
     (let aen_result = c_aen_result c;
          c = c\<lparr>c_aen_result := 0\<rparr>
      in if aen_result = 0 then c
         else if \<not> alloc_ok then c
         else call (Uevent aen_result) c)"

definition nvme_async_event_work :: "bool \<Rightarrow> nvme_ctrl \<Rightarrow> nvme_ctrl" where
  "nvme_async_event_work alloc_ok c = call Submit_async_event (nvme_aen_uevent alloc_ok c)"

definition nvme_handle_aen_notice :: "u32 \<Rightarrow> nvme_ctrl \<Rightarrow> nvme_ctrl" where
  "nvme_handle_aen_notice result c =
     (let notice = drop_bit 8 (result AND 0xff00)
      in if notice = NVME_AER_NOTICE_NS_CHANGED then nvme_queue_scan (c\<lparr>c_ns_changed := True\<rparr>)
         else if notice = NVME_AER_NOTICE_FW_ACT_STARTING then
           (let (changed, c) = nvme_change_ctrl_state NVME_CTRL_RESETTING c
            in if changed then snd (queue_work Fw_act_work c) else c)
         else if notice = NVME_AER_NOTICE_ANA then
           (if \<not> c_ana_log_buf c then c else snd (queue_work Ana_work c))
         else if notice = NVME_AER_NOTICE_DISC_CHANGED then c\<lparr>c_aen_result := result\<rparr>
         else c)"

definition nvme_complete_async_event :: "u16 \<Rightarrow> u32 \<Rightarrow> nvme_ctrl \<Rightarrow> nvme_ctrl" where
  "nvme_complete_async_event status result c =
     (if drop_bit 1 status \<noteq> NVME_SC_SUCCESS then c
      else
        let aer_type = result AND 0x07;
            c = (if aer_type = NVME_AER_NOTICE then nvme_handle_aen_notice result c
                 else if aer_type = NVME_AER_ERROR \<or> aer_type = NVME_AER_SMART \<or>
                         aer_type = NVME_AER_CSS \<or> aer_type = NVME_AER_VS
                 then c\<lparr>c_aen_result := result\<rparr>
                 else c)
        in snd (queue_work Async_event_work c))"

section \<open>Register handshakes\<close>

text \<open>
  The controller's registers, the clock and the task's signals as the polling loops meet them:
  \<open>re_csts k\<close> is the answer to the \<open>k\<close>-th read of CSTS, \<open>re_signal k\<close> whether a fatal signal is
  pending after the \<open>k\<close>-th sleep, \<open>re_late k\<close> by how many jiffies that sleep overran.
\<close>

record reg_env =
  re_cap :: "int \<times> u64"
  re_write :: "u32 \<Rightarrow> u32 \<Rightarrow> int"
  re_csts :: "nat \<Rightarrow> int \<times> u32"
  re_signal :: "nat \<Rightarrow> bool"
  re_late :: "nat \<Rightarrow> nat"
  re_hz :: nat

text \<open>\<open>msleep\<close> sleeps for the given milliseconds rounded up to jiffies, plus one.\<close>

definition msleep_jiffies :: "nat \<Rightarrow> nat \<Rightarrow> nat" where
  "msleep_jiffies hz ms = (ms * hz + 999) div 1000 + 1"

text \<open>
  The polling loop of \<open>nvme_wait_ready\<close> and \<open>nvme_shutdown_ctrl\<close>. \<open>chk csts\<close> is what the loop makes of
  a value read: return, or go on. \<open>now\<close> is the number of jiffies since the loop started.
\<close>

function poll_csts ::
  "reg_env \<Rightarrow> (u32 \<Rightarrow> int option) \<Rightarrow> nat \<Rightarrow> nat \<Rightarrow> nat \<Rightarrow> nvme_ctrl \<Rightarrow> int \<times> nvme_ctrl" where
  "poll_csts e chk timeout now k c =
     (if fst (re_csts e k) \<noteq> 0 then (fst (re_csts e k), c)
      else case chk (snd (re_csts e k)) of
        Some r \<Rightarrow> (r, c)
      | None \<Rightarrow>
         (let c = call (Msleep 100) c;
              now = now + msleep_jiffies (re_hz e) 100 + re_late e k
          in if re_signal e k then (- EINTR, c)
             else if timeout < now then (- ENODEV, c)
             else poll_csts e chk timeout now (k + 1) c))"
  by pat_completeness auto
termination
  by (relation "measure (\<lambda>(e, chk, timeout, now, k, c). timeout + 1 - now)")
    (auto simp: msleep_jiffies_def)

declare poll_csts.simps [simp del]

definition ready_check :: "bool \<Rightarrow> u32 \<Rightarrow> int option" where
  "ready_check enabled csts =
     (if csts = - 1 then Some (- ENODEV)
      else if csts AND NVME_CSTS_RDY = (if enabled then NVME_CSTS_RDY else 0) then Some 0
      else None)"

definition shutdown_check :: "u32 \<Rightarrow> int option" where
  "shutdown_check csts = (if csts AND NVME_CSTS_SHST_MASK = NVME_CSTS_SHST_CMPLT then Some 0 else None)"

definition nvme_wait_ready :: "reg_env \<Rightarrow> u64 \<Rightarrow> bool \<Rightarrow> nvme_ctrl \<Rightarrow> int \<times> nvme_ctrl" where
  "nvme_wait_ready e cap enabled c =
     (let timeout = (unat (NVME_CAP_TIMEOUT cap) + 1) * re_hz e div 2
      in poll_csts e (ready_check enabled) timeout 0 0 c)"

definition nvme_disable_ctrl :: "reg_env \<Rightarrow> nvme_ctrl \<Rightarrow> int \<times> nvme_ctrl" where
  "nvme_disable_ctrl e c =
     (let c = c\<lparr>c_ctrl_config := c_ctrl_config c AND NOT NVME_CC_SHN_MASK\<rparr>;
          c = c\<lparr>c_ctrl_config := c_ctrl_config c AND NOT NVME_CC_ENABLE\<rparr>;
          c = call (Reg_write NVME_REG_CC (c_ctrl_config c)) c;
          ret = re_write e NVME_REG_CC (c_ctrl_config c)
      in if ret \<noteq> 0 then (ret, c)
         else
           let c = (if c_delay_before_chk_rdy c then call (Msleep 2300) c else c)
           in nvme_wait_ready e (c_cap c) False c)"

definition nvme_enable_ctrl :: "reg_env \<Rightarrow> nvme_ctrl \<Rightarrow> int \<times> nvme_ctrl" where
  "nvme_enable_ctrl e c =
     (let page_shift = 12;
          (ret, cap) = re_cap e
      in if ret \<noteq> 0 then (ret, c)
      else
        let c = c\<lparr>c_cap := cap\<rparr>;
            dev_page_min = unat (NVME_CAP_MPSMIN (c_cap c)) + 12
        in if page_shift < dev_page_min then (- ENODEV, c)
        else
          let c = c\<lparr>c_page_size := push_bit page_shift 1\<rparr>;
              c = c\<lparr>c_ctrl_config := NVME_CC_CSS_NVM\<rparr>;
              c = c\<lparr>c_ctrl_config := c_ctrl_config c OR push_bit NVME_CC_MPS_SHIFT (of_nat (page_shift - 12))\<rparr>;
              c = c\<lparr>c_ctrl_config := c_ctrl_config c OR (NVME_CC_AMS_RR OR NVME_CC_SHN_NONE)\<rparr>;
              c = c\<lparr>c_ctrl_config := c_ctrl_config c OR (NVME_CC_IOSQES OR NVME_CC_IOCQES)\<rparr>;
              c = c\<lparr>c_ctrl_config := c_ctrl_config c OR NVME_CC_ENABLE\<rparr>;
              c = call (Reg_write NVME_REG_CC (c_ctrl_config c)) c;
              ret = re_write e NVME_REG_CC (c_ctrl_config c)
          in if ret \<noteq> 0 then (ret, c) else nvme_wait_ready e (c_cap c) True c)"

definition nvme_shutdown_ctrl :: "reg_env \<Rightarrow> nvme_ctrl \<Rightarrow> int \<times> nvme_ctrl" where
  "nvme_shutdown_ctrl e c =
     (let timeout = c_shutdown_timeout c * re_hz e;
          c = c\<lparr>c_ctrl_config := c_ctrl_config c AND NOT NVME_CC_SHN_MASK\<rparr>;
          c = c\<lparr>c_ctrl_config := c_ctrl_config c OR NVME_CC_SHN_NORMAL\<rparr>;
          c = call (Reg_write NVME_REG_CC (c_ctrl_config c)) c;
          ret = re_write e NVME_REG_CC (c_ctrl_config c)
      in if ret \<noteq> 0 then (ret, c) else poll_csts e shutdown_check timeout 0 0 c)"

section \<open>Firmware activation\<close>

definition nvme_ctrl_pp_status :: "reg_env \<Rightarrow> nat \<Rightarrow> nvme_ctrl \<Rightarrow> bool" where
  "nvme_ctrl_pp_status e k c =
     (if fst (re_csts e k) \<noteq> 0 then False
      else if snd (re_csts e k) = - 1 then False
      else c_ctrl_config c AND NVME_CC_ENABLE \<noteq> 0 \<and> snd (re_csts e k) AND NVME_CSTS_PP \<noteq> 0)"

text \<open>The wait loop; \<open>True\<close> when it gave up.\<close>

function fw_act_wait :: "reg_env \<Rightarrow> nat \<Rightarrow> nat \<Rightarrow> nat \<Rightarrow> nvme_ctrl \<Rightarrow> bool \<times> nvme_ctrl" where
  "fw_act_wait e timeout now k c =
     (if \<not> nvme_ctrl_pp_status e k c then (False, c)
      else if timeout < now then (True, c)
      else fw_act_wait e timeout (now + msleep_jiffies (re_hz e) 100 + re_late e k) (k + 1)
             (call (Msleep 100) c))"
  by pat_completeness auto
termination
  by (relation "measure (\<lambda>(e, timeout, now, k, c). timeout + 1 - now)")
    (auto simp: msleep_jiffies_def)

declare fw_act_wait.simps [simp del]

definition nvme_fw_act_work :: "nat \<Rightarrow> reg_env \<Rightarrow> nvme_ctrl \<Rightarrow> nvme_ctrl" where
  "nvme_fw_act_work admin_timeout e c =
     (let ms = (if c_mtfa c \<noteq> 0 then unat (c_mtfa c) * 100 else admin_timeout * 1000);
          timeout = (ms * re_hz e + 999) div 1000;
          (gave_up, c) = fw_act_wait e timeout 0 0 (call Stop_queues c)
      in if gave_up then snd (nvme_try_sched_reset c)
         else
           let (changed, c) = nvme_change_ctrl_state NVME_CTRL_LIVE c
           in if \<not> changed then c else call Get_fw_slot_info (call Start_queues c))"

section \<open>Start, stop, delete\<close>

definition nvme_stop_ctrl :: "nvme_ctrl \<Rightarrow> nvme_ctrl" where
  "nvme_stop_ctrl c =
     (let c = call Mpath_stop c;
          c = nvme_stop_keep_alive c;
          c = call (Flush_work Async_event_work) c
      in cancel_work_sync Fw_act_work c)"

definition nvme_start_ctrl :: "features_env \<Rightarrow> nvme_ctrl \<Rightarrow> nvme_ctrl" where
  "nvme_start_ctrl fe c =
     (let c = (if c_kato c \<noteq> 0 then nvme_start_keep_alive c else c);
          c = nvme_enable_aen fe c
      in if 1 < c_queue_count c then call Start_queues (nvme_queue_scan c) else c)"

text \<open>\<open>delete\<close> is the transport's \<open>delete_ctrl\<close> operation.\<close>

definition nvme_do_delete_ctrl :: "(nvme_ctrl \<Rightarrow> nvme_ctrl) \<Rightarrow> nvme_ctrl \<Rightarrow> nvme_ctrl" where
  "nvme_do_delete_ctrl delete c =
     (let c = call (Flush_work Reset_work) c;
          c = nvme_stop_ctrl c;
          c = call Remove_namespaces c;
          c = delete c;
          c = call Uninit_ctrl c
      in call Put_ctrl c)"

definition nvme_delete_ctrl_sync :: "(nvme_ctrl \<Rightarrow> nvme_ctrl) \<Rightarrow> nvme_ctrl \<Rightarrow> int \<times> nvme_ctrl" where
  "nvme_delete_ctrl_sync delete c =
     (let c = call Get_ctrl c;
          (changed, c) = nvme_change_ctrl_state NVME_CTRL_DELETING c;
          ret = (if \<not> changed then - EBUSY else 0);
          c = (if ret = 0 then nvme_do_delete_ctrl delete c else c)
      in (ret, call Put_ctrl c))"

section \<open>The state machine\<close>

text \<open>A controller's possible histories: any sequence of attempted state changes.\<close>

inductive ctrl_reach :: "nvme_ctrl \<Rightarrow> nvme_ctrl \<Rightarrow> bool" where
  refl: "ctrl_reach c c"
| change: "ctrl_reach c c' \<Longrightarrow> ctrl_reach c (snd (nvme_change_ctrl_state s c'))"

inductive_cases ctrl_reachE: "ctrl_reach c c'"

lemma change_ctrl_state_eq:
  "nvme_change_ctrl_state s c =
    (ctrl_transition (c_state c) s,
     if ctrl_transition (c_state c) s
     then (if s = NVME_CTRL_LIVE then call Kick_requeue_lists else id) (call Wake_up_state_wq (c\<lparr>c_state := s\<rparr>))
     else c)"
  by (simp add: nvme_change_ctrl_state_def Let_def call_def)

lemma change_ctrl_state_state:
  "c_state (snd (nvme_change_ctrl_state s c)) = (if ctrl_transition (c_state c) s then s else c_state c)"
  by (simp add: change_ctrl_state_eq call_def)

lemma ctrl_transition_terminal:
  "ctrl_transition NVME_CTRL_DELETING s \<longleftrightarrow> s = NVME_CTRL_DEAD"
  "\<not> ctrl_transition NVME_CTRL_DEAD s"
  "ctrl_transition s NVME_CTRL_LIVE \<longleftrightarrow> s \<in> {NVME_CTRL_NEW, NVME_CTRL_RESETTING, NVME_CTRL_CONNECTING}"
  by (cases s; simp)+

lemma terminal_iff: "nvme_state_terminal c \<longleftrightarrow> c_state c \<in> {NVME_CTRL_DELETING, NVME_CTRL_DEAD}"
  by (simp add: nvme_state_terminal_def split: nvme_ctrl_state.splits)

text \<open>C9. \<open>nvme_state_terminal\<close> is right: it holds exactly when no sequence of state-change attempts, by
  any thread, can bring the controller back to LIVE. In particular deletion is final.\<close>

theorem terminal_is_never_live_again:
  "nvme_state_terminal c \<longleftrightarrow> \<not> (\<exists>c'. ctrl_reach c c' \<and> c_state c' = NVME_CTRL_LIVE)"
proof -
  have stay: "nvme_state_terminal c'" if "ctrl_reach c c'" "nvme_state_terminal c" for c'
    using that
  proof (induction rule: ctrl_reach.induct)
    case (refl c)
    then show ?case .
  next
    case (change c c' s)
    then show ?case
      by (auto simp: terminal_iff change_ctrl_state_state ctrl_transition_terminal)
  qed
  moreover have "\<exists>c'. ctrl_reach c c' \<and> c_state c' = NVME_CTRL_LIVE" if "\<not> nvme_state_terminal c"
  proof (cases "c_state c = NVME_CTRL_LIVE")
    case True
    then show ?thesis using ctrl_reach.refl by blast
  next
    case False
    with that have "c_state (snd (nvme_change_ctrl_state NVME_CTRL_LIVE c)) = NVME_CTRL_LIVE"
      by (cases "c_state c") (simp_all add: terminal_iff change_ctrl_state_state)
    then show ?thesis using ctrl_reach.change [OF ctrl_reach.refl] by blast
  qed
  ultimately show ?thesis by (fastforce simp: terminal_iff)
qed

lemma reset_ctrl_eq:
  "nvme_reset_ctrl c =
    (if c_state c \<notin> {NVME_CTRL_NEW, NVME_CTRL_LIVE} then (- EBUSY, c)
     else let c' = call Wake_up_state_wq (c\<lparr>c_state := NVME_CTRL_RESETTING\<rparr>)
          in if Reset_work \<in> c_pending c then (- EBUSY, c')
             else (0, call (Queue_work Reset_work) (c'\<lparr>c_pending := insert Reset_work (c_pending c)\<rparr>)))"
  by (cases "c_state c")
    (simp_all add: nvme_reset_ctrl_def change_ctrl_state_eq queue_work_def call_def)

lemma delete_ctrl_eq:
  "nvme_delete_ctrl c =
    (if c_state c \<notin> {NVME_CTRL_LIVE, NVME_CTRL_RESETTING, NVME_CTRL_CONNECTING} then (- EBUSY, c)
     else let c' = call Wake_up_state_wq (c\<lparr>c_state := NVME_CTRL_DELETING\<rparr>)
          in if Delete_work \<in> c_pending c then (- EBUSY, c')
             else (0, call (Queue_work Delete_work) (c'\<lparr>c_pending := insert Delete_work (c_pending c)\<rparr>)))"
  by (cases "c_state c")
    (simp_all add: nvme_delete_ctrl_def change_ctrl_state_eq queue_work_def call_def)

text \<open>The requests other threads make of a controller.\<close>

datatype ctrl_req = Req_reset | Req_delete | Req_scan

definition ctrl_req :: "ctrl_req \<Rightarrow> nvme_ctrl \<Rightarrow> nvme_ctrl \<times> int option" where
  "ctrl_req q c =
     (case q of
        Req_reset \<Rightarrow> (let (ret, c) = nvme_reset_ctrl c in (c, Some ret))
      | Req_delete \<Rightarrow> (let (ret, c) = nvme_delete_ctrl c in (c, Some ret))
      | Req_scan \<Rightarrow> (nvme_queue_scan c, None))"

definition granted :: "int list \<Rightarrow> nat" where
  "granted rets = length (filter (\<lambda>r. r = 0) rets)"

text \<open>
  Between two runs of the workers, the works these requests can still queue: at most one reset
  from LIVE, then at most one deletion.
\<close>

definition req_bound :: "nvme_ctrl \<Rightarrow> nat" where
  "req_bound c =
     (case c_state c of
        NVME_CTRL_LIVE \<Rightarrow> 2 | NVME_CTRL_NEW \<Rightarrow> 2
      | NVME_CTRL_RESETTING \<Rightarrow> 1 | NVME_CTRL_CONNECTING \<Rightarrow> 1 | _ \<Rightarrow> 0)"

lemma ctrl_req_bound:
  assumes "ctrl_req q c = (c', out)"
  shows "granted (case out of None \<Rightarrow> [] | Some x \<Rightarrow> [x]) + req_bound c' \<le> req_bound c"
  using assms
  by (cases q; cases "c_state c")
    (auto simp: ctrl_req_def reset_ctrl_eq delete_ctrl_eq nvme_queue_scan_def queue_work_def call_def
      granted_def req_bound_def Let_def split: if_splits)

text \<open>Reset and delete requests exclude each other: however many threads ask a LIVE controller to be
  reset or deleted before its workers run, at most one reset and one deletion are granted, and a
  controller being deleted grants nothing; all other requests get \<open>-EBUSY\<close>.\<close>

theorem requests_granted_at_most:
  "granted (snd (run_steps ctrl_req qs c)) \<le> req_bound c"
proof (induction qs arbitrary: c)
  case Nil
  show ?case by (simp add: granted_def)
next
  case (Cons q qs)
  obtain c' out where s: "ctrl_req q c = (c', out)" by fastforce
  from ctrl_req_bound [OF s] Cons.IH [of c'] show ?case
    by (cases out) (auto simp: s granted_def split: prod.splits)
qed

section \<open>Register handshakes\<close>

text \<open>How many times the loop may sleep before its deadline passes.\<close>

definition polls_of :: "nvme_ctrl \<Rightarrow> nat" where
  "polls_of c = length (filter (\<lambda>k. k = Msleep 100) (c_trace c))"

lemma polls_call [simp]: "polls_of (call k c) = polls_of c + (if k = Msleep 100 then 1 else 0)"
  by (simp add: polls_of_def call_def)

lemma poll_csts_polls:
  "(polls_of (snd (poll_csts e chk timeout now k c)) - polls_of c) * msleep_jiffies (re_hz e) 100
     \<le> timeout + msleep_jiffies (re_hz e) 100 - min timeout now \<and>
   polls_of c \<le> polls_of (snd (poll_csts e chk timeout now k c))"
proof (induction e chk timeout now k c rule: poll_csts.induct)
  case (1 e chk timeout now k c)
  let ?j = "msleep_jiffies (re_hz e) 100"
  let ?now = "now + ?j + re_late e k"
  let ?c = "call (Msleep 100) c"
  show ?case
  proof (cases "fst (re_csts e k) \<noteq> 0 \<or> chk (snd (re_csts e k)) \<noteq> None \<or> re_signal e k \<or> timeout < ?now")
    case True
    then show ?thesis
      by (subst (1 2) poll_csts.simps) (auto simp: Let_def split: option.splits)
  next
    case False
    then have eq: "poll_csts e chk timeout now k c = poll_csts e chk timeout ?now (k + 1) ?c"
      by (subst poll_csts.simps) (auto simp: Let_def)
    from "1.IH" False have IH: "(polls_of (snd (poll_csts e chk timeout ?now (k + 1) ?c)) - polls_of ?c) * ?j
        \<le> timeout + ?j - min timeout ?now" "polls_of ?c \<le> polls_of (snd (poll_csts e chk timeout ?now (k + 1) ?c))"
      by (auto simp: Let_def)
    obtain d where d: "polls_of (snd (poll_csts e chk timeout ?now (k + 1) ?c)) = polls_of ?c + d"
      using IH(2) by (metis le_Suc_ex)
    from IH(1) False have "d * ?j \<le> timeout - (now + re_late e k)" "now + ?j + re_late e k \<le> timeout"
      unfolding d by simp_all
    then have "?j + d * ?j \<le> timeout + ?j - now" by linarith
    then show ?thesis
      using False unfolding eq d by simp
  qed
qed

lemma poll_csts_result:
  "fst (poll_csts e chk timeout now k c) = r \<Longrightarrow> r \<noteq> - EINTR \<Longrightarrow> r \<noteq> - ENODEV \<Longrightarrow>
   \<exists>j \<ge> k. (\<forall>i. k \<le> i \<and> i < j \<longrightarrow> fst (re_csts e i) = 0 \<and> chk (snd (re_csts e i)) = None) \<and>
     (fst (re_csts e j) = r \<and> r \<noteq> 0 \<or> fst (re_csts e j) = 0 \<and> chk (snd (re_csts e j)) = Some r)"
proof (induction e chk timeout now k c rule: poll_csts.induct)
  case (1 e chk timeout now k c)
  show ?case
  proof (cases "fst (re_csts e k) = 0 \<and> chk (snd (re_csts e k)) = None")
    case False
    with "1.prems" show ?thesis
      by (cases "fst (re_csts e k) = 0"; intro exI [of _ k])
        (auto simp: poll_csts.simps [of e chk timeout now k c] split: option.splits)
  next
    case True
    let ?now = "now + msleep_jiffies (re_hz e) 100 + re_late e k"
    let ?c = "call (Msleep 100) c"
    from True "1.prems" have go: "\<not> re_signal e k" "\<not> timeout < ?now"
      and eq: "poll_csts e chk timeout now k c = poll_csts e chk timeout ?now (k + 1) ?c"
      by (auto simp: poll_csts.simps [of e chk timeout now k c] Let_def split: if_splits)
    have "\<exists>j \<ge> k + 1. (\<forall>i. k + 1 \<le> i \<and> i < j \<longrightarrow> fst (re_csts e i) = 0 \<and> chk (snd (re_csts e i)) = None) \<and>
        (fst (re_csts e j) = r \<and> r \<noteq> 0 \<or> fst (re_csts e j) = 0 \<and> chk (snd (re_csts e j)) = Some r)"
      by (rule "1.IH" [of ?c ?now]) (use True go "1.prems" eq in simp_all)
    then obtain j where j: "k + 1 \<le> j"
      "\<forall>i. k + 1 \<le> i \<and> i < j \<longrightarrow> fst (re_csts e i) = 0 \<and> chk (snd (re_csts e i)) = None"
      "fst (re_csts e j) = r \<and> r \<noteq> 0 \<or> fst (re_csts e j) = 0 \<and> chk (snd (re_csts e j)) = Some r"
      by blast
    have "fst (re_csts e i) = 0 \<and> chk (snd (re_csts e i)) = None" if "k \<le> i" "i < j" for i
      using j(2) True that by (cases "i = k") auto
    with j show ?thesis by (intro exI [of _ j]) auto
  qed
qed

lemma msleep_100: "hz \<le> 10 * msleep_jiffies hz 100"
  by (simp add: msleep_jiffies_def)

lemma msleep_pos: "0 < msleep_jiffies hz ms"
  by (simp add: msleep_jiffies_def)

lemma wait_ready_polls:
  "polls_of (snd (nvme_wait_ready e cap enabled c)) \<le>
   polls_of c + 5 * (unat (NVME_CAP_TIMEOUT cap) + 1) + 1"
proof -
  let ?T = "unat (NVME_CAP_TIMEOUT cap) + 1" and ?j = "msleep_jiffies (re_hz e) 100"
  let ?c' = "snd (nvme_wait_ready e cap enabled c)"
  let ?d = "polls_of ?c' - polls_of c"
  have "?d * ?j \<le> ?T * re_hz e div 2 + ?j"
    using poll_csts_polls [of e "ready_check enabled" "?T * re_hz e div 2" 0 0 c]
    by (simp add: nvme_wait_ready_def Let_def)
  also have "?T * re_hz e div 2 \<le> ?T * (10 * ?j) div 2"
    by (intro div_le_mono mult_le_mono2 msleep_100)
  also have "?T * (10 * ?j) div 2 = (5 * ?T) * ?j" by (simp add: algebra_simps)
  finally have "?d * ?j \<le> (5 * ?T + 1) * ?j" by (simp add: algebra_simps)
  with msleep_pos [of "re_hz e" 100] have "?d \<le> 5 * ?T + 1" by (simp only: mult_le_cancel2) 
  then show ?thesis by linarith
qed

lemma wait_ready_zero:
  assumes "fst (nvme_wait_ready e cap enabled c) = 0"
  shows "\<exists>j. fst (re_csts e j) = 0 \<and> (snd (re_csts e j) \<noteq> - 1 \<and>
      snd (re_csts e j) AND NVME_CSTS_RDY = (if enabled then NVME_CSTS_RDY else 0)) \<and>
    list_all (\<lambda>i. fst (re_csts e i) = 0 \<and> \<not> (snd (re_csts e i) \<noteq> - 1 \<and>
      snd (re_csts e i) AND NVME_CSTS_RDY = (if enabled then NVME_CSTS_RDY else 0))) [0..<j]"
proof -
  from poll_csts_result [of e "ready_check enabled" _ 0 0 c 0] assms obtain j where
    j: "\<forall>i < j. fst (re_csts e i) = 0 \<and> ready_check enabled (snd (re_csts e i)) = None"
    "fst (re_csts e j) = 0" "ready_check enabled (snd (re_csts e j)) = Some 0"
    by (auto simp: nvme_wait_ready_def Let_def)
  then show ?thesis
    by (intro exI [of _ j]) (auto simp: ready_check_def list_all_iff split: if_splits)
qed

text \<open>C10. Waiting for the controller to become ready is sound and bounded: 0 is returned only after a
  successful CSTS read that is not all ones and shows the wanted RDY bit, all reads before it having
  shown the other value; and the loop sleeps at most \<open>5 * (CAP.TO + 1) + 1\<close> times 100 ms, CAP.TO being
  in units of 500 ms, however long the sleeps really take.\<close>

theorem wait_ready_sound_and_bounded:
  "let (ret, c') = nvme_wait_ready e cap enabled c;
       ready = (\<lambda>csts :: u32. csts \<noteq> - 1 \<and> csts AND NVME_CSTS_RDY = (if enabled then NVME_CSTS_RDY else 0))
   in (ret \<noteq> 0 \<or> (\<exists>j. fst (re_csts e j) = 0 \<and> ready (snd (re_csts e j)) \<and>
         list_all (\<lambda>i. fst (re_csts e i) = 0 \<and> \<not> ready (snd (re_csts e i))) [0..<j])) \<and>
      polls_of c' \<le> polls_of c + 5 * (unat (NVME_CAP_TIMEOUT cap) + 1) + 1"
proof -
  from wait_ready_zero [of e cap enabled c] wait_ready_polls [of e cap enabled c] show ?thesis
    unfolding split_beta Let_def by blast
qed

definition regenv0 :: reg_env where
  "regenv0 = \<lparr>re_cap = (0, 0), re_write = (\<lambda>_ _. 0), re_csts = (\<lambda>k. (0, if k = 0 then 0 else 1)),
     re_signal = (\<lambda>_. False), re_late = (\<lambda>_. 0), re_hz = 1000\<rparr>"

definition opts_min :: nvmf_ctrl_options where
  "opts_min = \<lparr>o_mask = 0, o_transport = None, o_subsysnqn = None, o_traddr = None,
     o_trsvcid = None, o_host_traddr = None, o_queue_size = 128, o_nr_io_queues = 1,
     o_reconnect_delay = 10, o_discovery_nqn = False, o_duplicate_connect = False, o_kato = 5,
     o_host = None, o_max_reconnects = 60, o_disable_sqflow = False,
     o_hdr_digest = False, o_data_digest = False, o_nr_write_queues = 0, o_nr_poll_queues = 0, o_tos = - 1\<rparr>"

lemma regenv0_ready: "nvme_wait_ready regenv0 0 True (nvme_init_ctrl opts) =
   (0, call (Msleep 100) (nvme_init_ctrl opts))"
  by (simp add: nvme_wait_ready_def regenv0_def poll_csts.simps ready_check_def msleep_jiffies_def Let_def)

theorem wait_ready_sound_and_bounded_witness:
  "\<exists>j. fst (re_csts regenv0 j) = 0 \<and> snd (re_csts regenv0 j) AND NVME_CSTS_RDY = NVME_CSTS_RDY"
proof -
  from wait_ready_sound_and_bounded [of regenv0 0 True "nvme_init_ctrl opts_min"]
  have "\<exists>j. fst (re_csts regenv0 j) = 0 \<and> snd (re_csts regenv0 j) \<noteq> - 1 \<and>
      snd (re_csts regenv0 j) AND NVME_CSTS_RDY = NVME_CSTS_RDY"
    unfolding regenv0_ready Let_def by auto
  then show ?thesis by blast
qed

lemma poll_csts_fields:
  "c_ctrl_config (snd (poll_csts e chk timeout now k c)) = c_ctrl_config c \<and>
   c_page_size (snd (poll_csts e chk timeout now k c)) = c_page_size c \<and>
   c_cap (snd (poll_csts e chk timeout now k c)) = c_cap c \<and>
   c_state (snd (poll_csts e chk timeout now k c)) = c_state c \<and>
   filter (\<lambda>h. h \<noteq> Msleep 100) (c_trace (snd (poll_csts e chk timeout now k c))) =
     filter (\<lambda>h. h \<noteq> Msleep 100) (c_trace c)"
proof (induction e chk timeout now k c rule: poll_csts.induct)
  case (1 e chk timeout now k c)
  then show ?case
    by (subst (1 2 3 4 5) poll_csts.simps) (auto simp: Let_def call_def split: option.splits)
qed

text \<open>Enabling programs the controller as the specification asks: if it succeeds the configuration
  register was written once, before the wait, with 64-byte submission and 16-byte completion entries,
  4 KiB pages, the NVM command set, round-robin arbitration and the enable bit, the controller accepts
  4 KiB pages, and it was seen ready.\<close>

theorem enable_ctrl_programs_cc:
  assumes "nvme_enable_ctrl e c = (0, c')"
  shows "c_ctrl_config c' = 0x460001 \<and> c_page_size c' = 4096 \<and>
    NVME_CAP_MPSMIN (c_cap c') = 0 \<and> fst (re_cap e) = 0 \<and> c_cap c' = snd (re_cap e) \<and>
    filter (\<lambda>h. h \<noteq> Msleep 100) (c_trace c') =
      filter (\<lambda>h. h \<noteq> Msleep 100) (c_trace c) @ [Reg_write NVME_REG_CC 0x460001] \<and>
    (\<exists>j. fst (re_csts e j) = 0 \<and> snd (re_csts e j) AND NVME_CSTS_RDY = NVME_CSTS_RDY)"
proof -
  obtain ret cap where cap: "re_cap e = (ret, cap)" by fastforce
  define c1 where "c1 = call (Reg_write NVME_REG_CC 0x460001)
    (c\<lparr>c_cap := cap, c_page_size := 4096, c_ctrl_config := 0x460001\<rparr>)"
  have ret: "ret = 0" and mps: "unat (NVME_CAP_MPSMIN cap) = 0" and w: "nvme_wait_ready e cap True c1 = (0, c')"
    using assms by (auto simp: nvme_enable_ctrl_def cap Let_def c1_def call_def split: if_splits)
  from mps have "NVME_CAP_MPSMIN cap = 0" by (simp only: unat_eq_0)
  moreover from w poll_csts_fields [of e "ready_check True" "(unat (NVME_CAP_TIMEOUT cap) + 1) * re_hz e div 2" 0 0 c1]
  have "c_ctrl_config c' = 0x460001 \<and> c_page_size c' = 4096 \<and> c_cap c' = cap \<and>
      filter (\<lambda>h. h \<noteq> Msleep 100) (c_trace c') = filter (\<lambda>h. h \<noteq> Msleep 100) (c_trace c1)"
    by (simp add: nvme_wait_ready_def Let_def c1_def call_def)
  moreover from wait_ready_zero [of e cap True c1] w
  have "\<exists>j. fst (re_csts e j) = 0 \<and> snd (re_csts e j) AND NVME_CSTS_RDY = NVME_CSTS_RDY"
    by auto
  ultimately show ?thesis using ret by (simp add: cap c1_def call_def)
qed

theorem enable_ctrl_programs_cc_witness:
  "c_ctrl_config (snd (nvme_enable_ctrl regenv0 (nvme_init_ctrl opts_min))) = 0x460001"
proof -
  have "fst (nvme_enable_ctrl regenv0 (nvme_init_ctrl opts_min)) = 0"
    by (simp add: nvme_enable_ctrl_def nvme_wait_ready_def regenv0_def poll_csts.simps ready_check_def
        msleep_jiffies_def Let_def)
  then have "nvme_enable_ctrl regenv0 (nvme_init_ctrl opts_min) =
      (0, snd (nvme_enable_ctrl regenv0 (nvme_init_ctrl opts_min)))"
    by (simp add: prod_eq_iff)
  from enable_ctrl_programs_cc [OF this] show ?thesis by blast
qed

section \<open>Queue count negotiation\<close>

lemma two_halves:
  assumes "n < 65536"
  shows "unat ((of_nat n OR push_bit 16 (of_nat n) :: u32) AND 0xffff) = n"
    and "unat (drop_bit 16 (of_nat n OR push_bit 16 (of_nat n) :: u32)) = n"
proof -
  let ?w = "of_nat n :: u32"
  have n: "unat ?w = n" using assms by (simp add: unat_of_nat take_bit_nat_eq_self)
  have m: "(0xffff :: u32) = mask 16" by (simp add: mask_eq_exp_minus_1)
  have t: "take_bit 16 ?w = ?w"
    using assms unfolding word_unat_eq_iff by (simp add: unsigned_take_bit_eq n take_bit_nat_eq_self del: unat_of_nat)
  have "(?w OR push_bit 16 ?w) AND 0xffff = take_bit 16 ?w"
    by (simp add: m take_bit_eq_mask [symmetric] take_bit_push_bit)
  then show "unat ((?w OR push_bit 16 ?w) AND 0xffff) = n" by (simp only: t n)
  have "drop_bit 16 (?w OR push_bit 16 ?w) = ?w"
  proof (rule bit_word_eqI)
    fix i assume i: "i < LENGTH(32)"
    have "bit ?w j \<longleftrightarrow> j < 16 \<and> bit ?w j" for j
      using bit_take_bit_iff [of 16 ?w j] by (simp only: t)
    from this [of "16 + i"] this [of i] show "bit (drop_bit 16 (?w OR push_bit 16 ?w)) i \<longleftrightarrow> bit ?w i"
      using i by (auto simp: bit_drop_bit_eq bit_or_iff bit_push_bit_iff)
  qed
  then show "unat (drop_bit 16 (?w OR push_bit 16 ?w)) = n" by (simp only: n)
qed

text \<open>Negotiating the number of I/O queues: the request asks for \<open>count\<close> submission and \<open>count\<close>
  completion queues (both zero-based, in the two halves of the feature value), and the result is the
  smaller of what was asked and of what both kinds were granted; a controller that rejects the feature
  yields 0 queues but no error, so that its admin queue stays usable.\<close>

theorem set_queue_count_negotiates:
  assumes "0 < count" and "count \<le> 65536"
  shows "\<exists>q. unat (q AND 0xffff) + 1 = count \<and> unat (drop_bit 16 q) + 1 = count \<and>
    nvme_set_queue_count fe count c =
      (let (status, result) = fe NVME_FEAT_NUM_QUEUES q;
           c' = call (Set_features NVME_FEAT_NUM_QUEUES q) c
       in if status < 0 then (status, count, c')
          else if status > 0 then (0, 0, c')
          else (0, min count (min (unat (result AND 0xffff) + 1) (unat (drop_bit 16 result) + 1)), c'))"
proof -
  obtain n where n: "count = Suc n" "n < 65536" using assms by (cases count) auto
  then have w: "(of_nat count - 1 :: u32) = of_nat n" by simp
  let ?q = "of_nat n OR push_bit 16 (of_nat n) :: u32"
  have mn: "unat (min a b) = min (unat a) (unat b)" for a b :: u32
    by (simp add: min_def word_le_nat_alt)
  have "nvme_set_queue_count fe count c =
      (let (status, result) = fe NVME_FEAT_NUM_QUEUES ?q;
           c' = call (Set_features NVME_FEAT_NUM_QUEUES ?q) c
       in if status < 0 then (status, count, c')
          else if status > 0 then (0, 0, c')
          else (0, min count (min (unat (result AND 0xffff) + 1) (unat (drop_bit 16 result) + 1)), c'))"
    unfolding nvme_set_queue_count_def nvme_set_features_def w Let_def split_beta fst_conv snd_conv mn
    by (simp add: min_add_distrib_left)
  with two_halves [OF n(2)] n(1) show ?thesis
    by (intro exI [of _ ?q]) (simp del: unat_of_nat)
qed

theorem set_queue_count_negotiates_witness:
  "fst (snd (nvme_set_queue_count (\<lambda>_ _. (0, 0x30007)) 6 (nvme_init_ctrl opts_min))) = 4"
proof -
  have r: "unat (0x30007 AND 0xffff :: u32) = 7" "unat (drop_bit 16 0x30007 :: u32) = 3" by simp_all
  from set_queue_count_negotiates [of 6 "\<lambda>_ _. (0, 0x30007)" "nvme_init_ctrl opts_min"] show ?thesis
    by (auto simp: Let_def r)
qed

section \<open>Asynchronous events\<close>

text \<open>Every successful asynchronous event completion leaves the event work pending exactly once and
  records errors, SMART, command-set, vendor and discovery-log events for user space; an event with an
  error status changes nothing; only the firmware notice can change the controller's state, and only
  from NEW or LIVE to RESETTING.\<close>

theorem complete_async_event_effect:
  "let c' = nvme_complete_async_event status result c;
       aer_type = result AND 0x07; notice = drop_bit 8 (result AND 0xff00)
   in if drop_bit 1 status \<noteq> 0 then c' = c
      else Async_event_work \<in> c_pending c' \<and>
        c_pending c' \<subseteq> c_pending c \<union> {Async_event_work, Scan_work, Fw_act_work, Ana_work} \<and>
        c_aen_result c' =
          (if aer_type \<in> {NVME_AER_ERROR, NVME_AER_SMART, NVME_AER_CSS, NVME_AER_VS} \<or>
              aer_type = NVME_AER_NOTICE \<and> notice = NVME_AER_NOTICE_DISC_CHANGED
           then result else c_aen_result c) \<and>
        c_state c' =
          (if aer_type = NVME_AER_NOTICE \<and> notice = NVME_AER_NOTICE_FW_ACT_STARTING \<and>
              c_state c \<in> {NVME_CTRL_NEW, NVME_CTRL_LIVE}
           then NVME_CTRL_RESETTING else c_state c)"
proof -
  have qw: "c_pending (snd (queue_work w c)) = insert w (c_pending c)"
    "c_aen_result (snd (queue_work w c)) = c_aen_result c" "c_state (snd (queue_work w c)) = c_state c" for w c
    by (auto simp: queue_work_def call_def)
  have cs: "c_pending (snd (nvme_change_ctrl_state s c)) = c_pending c"
    "c_aen_result (snd (nvme_change_ctrl_state s c)) = c_aen_result c" for s c
    by (simp_all add: change_ctrl_state_eq call_def)
  have fw: "fst (nvme_change_ctrl_state NVME_CTRL_RESETTING c) \<longleftrightarrow> c_state c \<in> {NVME_CTRL_NEW, NVME_CTRL_LIVE}"
    for c by (cases "c_state c") (simp_all add: change_ctrl_state_eq)
  have rs: "c_state (snd (nvme_change_ctrl_state NVME_CTRL_RESETTING c)) =
      (if c_state c \<in> {NVME_CTRL_NEW, NVME_CTRL_LIVE} then NVME_CTRL_RESETTING else c_state c)" for c
    by (cases "c_state c") (simp_all add: change_ctrl_state_state)
  show ?thesis
    unfolding nvme_complete_async_event_def nvme_handle_aen_notice_def nvme_queue_scan_def Let_def split_beta
    by (simp add: qw cs fw rs subset_insertI2)
qed

end
