(* ===== verification/Host_Request.thy ===== *)
theory Host_Request
  imports Host_Core
begin

text \<open>
  Requests: how the host turns a block layer request into an NVMe command, and what it does with a
  completed one (\<open>host/core.c\<close>, \<open>host/nvme.h\<close>): retry, fail over or end with a block status.
\<close>

section \<open>Data\<close>

datatype req_op =
    REQ_OP_DRV_IN | REQ_OP_DRV_OUT | REQ_OP_FLUSH | REQ_OP_WRITE_ZEROES | REQ_OP_DISCARD
  | REQ_OP_READ | REQ_OP_WRITE | REQ_OP_OTHER

datatype blk_status =
    BLK_STS_OK | BLK_STS_NOTSUPP | BLK_STS_NOSPC | BLK_STS_TRANSPORT | BLK_STS_TARGET
  | BLK_STS_NEXUS | BLK_STS_MEDIUM | BLK_STS_PROTECTION | BLK_STS_RESOURCE | BLK_STS_IOERR

text \<open>The data pointer of a command: a data SGL or a keyed SGL (24-bit length, key, type).\<close>

datatype sgl_desc =
    No_sgl
  | Sgl u64 u32 u8            \<comment> \<open>address, length, type\<close>
  | Ksgl u64 nat u32 u8       \<comment> \<open>address, length as stored in three bytes, key, type\<close>

record dsm_range =
  dr_cattr :: u32
  dr_nlb :: u32
  dr_slba :: u64

record nvme_command =
  cm_opcode :: u8
  cm_flags :: u8
  cm_command_id :: u16
  cm_nsid :: u32
  cm_fctype :: u8
  cm_dptr :: sgl_desc
  cm_slba :: u64
  cm_length :: u16
  cm_control :: u16
  cm_dsmgmt :: u32
  cm_reftag :: u32
  cm_dsm_nr :: u32
  cm_dsm_attributes :: u32

definition zero_command :: nvme_command where
  "zero_command = \<lparr>cm_opcode = 0, cm_flags = 0, cm_command_id = 0, cm_nsid = 0, cm_fctype = 0,
     cm_dptr = No_sgl, cm_slba = 0, cm_length = 0, cm_control = 0, cm_dsmgmt = 0, cm_reftag = 0,
     cm_dsm_nr = 0, cm_dsm_attributes = 0\<rparr>"

text \<open>Where the range list of a discard lives: the controller's emergency page or fresh memory.\<close>

datatype special_page = Discard_page "dsm_range list" | Kmalloc_page "dsm_range list"

record request =
  rq_op :: req_op
  rq_tag :: u16
  rq_pos :: u64                      \<comment> \<open>\<open>blk_rq_pos\<close>, in 512-byte sectors\<close>
  rq_bytes :: u32
  rq_bios :: "(u64 \<times> u32) list"      \<comment> \<open>sector and byte count of each bio\<close>
  rq_discard_segments :: u16
  rq_fua :: bool
  rq_failfast_dev :: bool
  rq_rahead :: bool
  rq_mpath :: bool                   \<comment> \<open>\<open>REQ_NVME_MPATH\<close>\<close>
  rq_noretry :: bool                 \<comment> \<open>\<open>blk_noretry_request\<close>\<close>
  rq_integrity :: bool
  rq_ref_tag :: u32                  \<comment> \<open>\<open>t10_pi_ref_tag\<close>\<close>
  rq_write_hint :: nat
  rq_passthrough :: bool             \<comment> \<open>\<open>blk_rq_is_passthrough\<close>\<close>
  rq_phys_segments :: nat
  rq_payload_bytes :: u32
  rq_dontprep :: bool
  rq_special :: "special_page option"
  rq_completed :: bool
  nr_cmd :: nvme_command             \<comment> \<open>\<open>nvme_req(rq)->cmd\<close>\<close>
  nr_retries :: u8
  nr_usercmd :: bool                 \<comment> \<open>\<open>NVME_REQ_USERCMD\<close>\<close>
  nr_status :: u16
  nr_result :: u64

record nvme_ns =
  n_ns_id :: u32
  n_lba_shift :: nat
  n_ms :: u16
  n_pi_type :: u8
  n_nr_streams :: u16                \<comment> \<open>\<open>ctrl->nr_streams\<close>\<close>
  n_deallocate_zeroes :: bool        \<comment> \<open>\<open>NVME_QUIRK_DEALLOCATE_ZEROES\<close>\<close>
  n_crdt :: "u16 list"               \<comment> \<open>\<open>ctrl->crdt\<close>\<close>

section \<open>Completion\<close>

definition nvme_error_status :: "u16 \<Rightarrow> blk_status" where
  "nvme_error_status status =
     (let s = status AND 0x7ff in
      if s = NVME_SC_SUCCESS then BLK_STS_OK
      else if s = NVME_SC_CAP_EXCEEDED then BLK_STS_NOSPC
      else if s = NVME_SC_LBA_RANGE then BLK_STS_TARGET
      else if s \<in> {NVME_SC_BAD_ATTRIBUTES, NVME_SC_ONCS_NOT_SUPPORTED, NVME_SC_INVALID_OPCODE,
                   NVME_SC_INVALID_FIELD, NVME_SC_INVALID_NS} then BLK_STS_NOTSUPP
      else if s \<in> {NVME_SC_WRITE_FAULT, NVME_SC_READ_ERROR, NVME_SC_UNWRITTEN_BLOCK,
                   NVME_SC_ACCESS_DENIED, NVME_SC_READ_ONLY, NVME_SC_COMPARE_FAILED} then BLK_STS_MEDIUM
      else if s \<in> {NVME_SC_GUARD_CHECK, NVME_SC_APPTAG_CHECK, NVME_SC_REFTAG_CHECK,
                   NVME_SC_INVALID_PI} then BLK_STS_PROTECTION
      else if s = NVME_SC_RESERVATION_CONFLICT then BLK_STS_NEXUS
      else if s = NVME_SC_HOST_PATH_ERROR then BLK_STS_TRANSPORT
      else BLK_STS_IOERR)"

text \<open>\<open>max_retries\<close> is the module parameter (\<open>u8\<close>, 5 by default).\<close>

definition nvme_req_needs_retry :: "u8 \<Rightarrow> request \<Rightarrow> bool" where
  "nvme_req_needs_retry max_retries req =
     (if rq_noretry req then False
      else if nr_status req AND NVME_SC_DNR \<noteq> 0 then False
      else if max_retries \<le> nr_retries req then False
      else True)"

text \<open>What becomes of a completed request; \<open>Requeued\<close> carries the delay in milliseconds.\<close>

datatype disposition = Failover | Requeued nat | Ended blk_status

definition retry_delay :: "nvme_ns option \<Rightarrow> u16 \<Rightarrow> nat" where
  "retry_delay ns status =
     (let crd = unat (drop_bit 11 (status AND NVME_SC_CRD))
      in case ns of
           Some n \<Rightarrow> if crd \<noteq> 0 then unat (n_crdt n ! (crd - 1)) * 100 else 0
         | None \<Rightarrow> 0)"

definition nvme_retry_req :: "nvme_ns option \<Rightarrow> request \<Rightarrow> disposition \<times> request" where
  "nvme_retry_req ns req =
     (Requeued (retry_delay ns (nr_status req)), req\<lparr>nr_retries := nr_retries req + 1\<rparr>)"

text \<open>
  \<open>path_error\<close> is the block layer's classification of a status as a path error, \<open>dying\<close> whether the
  queue is going away. The flag returned last is \<open>comp_seen\<close> of the controller.
\<close>

definition nvme_complete_rq ::
  "u8 \<Rightarrow> (blk_status \<Rightarrow> bool) \<Rightarrow> bool \<Rightarrow> nvme_ns option \<Rightarrow> nvme_ctrl \<Rightarrow> request \<Rightarrow>
   disposition \<times> request \<times> nvme_ctrl" where
  "nvme_complete_rq max_retries path_error dying ns c req =
     (let status = nvme_error_status (nr_status req);
          c = (if c_kas c \<noteq> 0 then c\<lparr>c_comp_seen := True\<rparr> else c)
      in if status \<noteq> BLK_STS_OK \<and> nvme_req_needs_retry max_retries req then
           if rq_mpath req \<and> path_error status then (Failover, req, c)
           else if \<not> dying then
             let (d, req) = nvme_retry_req ns req in (d, req, c)
           else (Ended status, req, c)
         else (Ended status, req, c))"

definition nvme_cancel_request :: "request \<Rightarrow> request" where
  "nvme_cancel_request req =
     (if rq_completed req then req
      else req\<lparr>nr_status := NVME_SC_HOST_ABORTED_CMD, rq_completed := True\<rparr>)"

text \<open>A response's 16-bit status field carries the phase bit; the host keeps the rest.\<close>

definition nvme_end_request :: "u16 \<Rightarrow> u64 \<Rightarrow> request \<Rightarrow> request" where
  "nvme_end_request status result req =
     req\<lparr>nr_status := drop_bit 1 status, nr_result := result, rq_completed := True\<rparr>"

section \<open>Command setup\<close>

definition nvme_clear_nvme_request :: "request \<Rightarrow> request" where
  "nvme_clear_nvme_request req =
     (if \<not> rq_dontprep req
      then req\<lparr>nr_retries := 0, nr_usercmd := False, rq_dontprep := True\<rparr> else req)"

definition nvme_block_nr :: "nvme_ns \<Rightarrow> u64 \<Rightarrow> u64" where
  "nvme_block_nr ns sector = drop_bit (n_lba_shift ns - 9) sector"

definition nvme_ns_has_pi :: "nvme_ns \<Rightarrow> bool" where
  "nvme_ns_has_pi ns \<longleftrightarrow> n_pi_type ns \<noteq> 0 \<and> n_ms ns = SIZEOF_T10_PI_TUPLE"

definition nvme_setup_flush :: "nvme_ns \<Rightarrow> nvme_command \<Rightarrow> nvme_command" where
  "nvme_setup_flush ns cmd = cmd\<lparr>cm_opcode := nvme_cmd_flush, cm_nsid := n_ns_id ns\<rparr>"

text \<open>
  Building the range list of a discard: one range per bio. \<open>alloc\<close> says whether the allocation
  succeeds; otherwise the controller's discard page is used unless it is busy (\<open>busy\<close>).
\<close>

definition discard_range :: "nvme_ns \<Rightarrow> u64 \<times> u32 \<Rightarrow> dsm_range" where
  "discard_range ns b =
     \<lparr>dr_cattr = 0, dr_nlb = drop_bit (n_lba_shift ns) (snd b), dr_slba = nvme_block_nr ns (fst b)\<rparr>"

definition nvme_setup_discard ::
  "bool \<Rightarrow> nvme_ns \<Rightarrow> bool \<Rightarrow> request \<Rightarrow> nvme_command \<Rightarrow> blk_status \<times> bool \<times> request \<times> nvme_command" where
  "nvme_setup_discard alloc ns busy req cmd =
     (if \<not> alloc \<and> busy then (BLK_STS_RESOURCE, busy, req, cmd)
      else
        let on_page = \<not> alloc;
            busy = (if on_page then True else busy);
            segments = rq_discard_segments req;
            n = (of_nat (length (rq_bios req)) :: u16);
            ranges = map (discard_range ns) (take (unat segments) (rq_bios req))
        in if n \<noteq> segments
           then (BLK_STS_IOERR, (if on_page then False else busy), req, cmd)
           else
             (BLK_STS_OK, busy,
              req\<lparr>rq_special := Some (if on_page then Discard_page ranges else Kmalloc_page ranges)\<rparr>,
              cmd\<lparr>cm_opcode := nvme_cmd_dsm, cm_nsid := n_ns_id ns,
                  cm_dsm_nr := ucast segments - 1, cm_dsm_attributes := NVME_DSMGMT_AD\<rparr>))"

text \<open>Zero-based number of logical blocks, cut to the 16 bits of the command field.\<close>

definition blocks_field :: "nvme_ns \<Rightarrow> request \<Rightarrow> u16" where
  "blocks_field ns req = ucast (drop_bit (n_lba_shift ns) (rq_bytes req) - 1)"

definition nvme_setup_write_zeroes ::
  "bool \<Rightarrow> nvme_ns \<Rightarrow> bool \<Rightarrow> request \<Rightarrow> nvme_command \<Rightarrow> blk_status \<times> bool \<times> request \<times> nvme_command" where
  "nvme_setup_write_zeroes alloc ns busy req cmd =
     (if n_deallocate_zeroes ns then nvme_setup_discard alloc ns busy req cmd
      else (BLK_STS_OK, busy, req,
            cmd\<lparr>cm_opcode := nvme_cmd_write_zeroes, cm_nsid := n_ns_id ns,
                cm_slba := nvme_block_nr ns (rq_pos req), cm_length := blocks_field ns req,
                cm_control := 0\<rparr>))"

text \<open>Write hints 0 (not set) and 1 (none) give no stream.\<close>

definition nvme_assign_write_stream :: "nvme_ns \<Rightarrow> request \<Rightarrow> u16 \<times> u32 \<Rightarrow> u16 \<times> u32" where
  "nvme_assign_write_stream ns req cd =
     (let (control, dsmgmt) = cd; hint = rq_write_hint req
      in if hint = 0 \<or> hint = 1 then (control, dsmgmt)
         else
           let streamid = hint - 1
           in if unat (n_nr_streams ns) < streamid then (control, dsmgmt)
              else (control OR NVME_RW_DTYPE_STREAMS, dsmgmt OR push_bit 16 (of_nat streamid)))"

definition nvme_setup_rw :: "nvme_ns \<Rightarrow> request \<Rightarrow> nvme_command \<Rightarrow> blk_status \<times> nvme_command" where
  "nvme_setup_rw ns req cmd =
     (let control = (if rq_fua req then NVME_RW_FUA else 0);
          control = (if rq_failfast_dev req \<or> rq_rahead req then control OR NVME_RW_LR else control);
          dsmgmt = (if rq_rahead req then NVME_RW_DSM_FREQ_PREFETCH else 0);
          write = (rq_op req \<in> {REQ_OP_WRITE, REQ_OP_DRV_OUT, REQ_OP_DISCARD, REQ_OP_WRITE_ZEROES});
          cmd = cmd\<lparr>cm_opcode := (if write then nvme_cmd_write else nvme_cmd_read),
                    cm_nsid := n_ns_id ns, cm_slba := nvme_block_nr ns (rq_pos req),
                    cm_length := blocks_field ns req\<rparr>;
          (control, dsmgmt) =
            (if rq_op req = REQ_OP_WRITE \<and> n_nr_streams ns \<noteq> 0
             then nvme_assign_write_stream ns req (control, dsmgmt) else (control, dsmgmt))
      in if n_ms ns \<noteq> 0 \<and> \<not> rq_integrity req \<and> \<not> nvme_ns_has_pi ns then (BLK_STS_NOTSUPP, cmd)
      else
        let control = (if n_ms ns \<noteq> 0 \<and> \<not> rq_integrity req then control OR NVME_RW_PRINFO_PRACT else control);
            (control, cmd) =
              (if n_ms ns = 0 then (control, cmd)
               else if n_pi_type ns = NVME_NS_DPS_PI_TYPE3
                 then (control OR NVME_RW_PRINFO_PRCHK_GUARD, cmd)
               else if n_pi_type ns = NVME_NS_DPS_PI_TYPE1 \<or> n_pi_type ns = NVME_NS_DPS_PI_TYPE2
                 then (control OR (NVME_RW_PRINFO_PRCHK_GUARD OR NVME_RW_PRINFO_PRCHK_REF),
                       cmd\<lparr>cm_reftag := rq_ref_tag req\<rparr>)
               else (control, cmd))
        in (BLK_STS_OK, cmd\<lparr>cm_control := control, cm_dsmgmt := dsmgmt\<rparr>))"

definition nvme_cleanup_cmd :: "bool \<Rightarrow> request \<Rightarrow> bool" where
  "nvme_cleanup_cmd busy req =
     (case rq_special req of
        None \<Rightarrow> busy
      | Some (Discard_page _) \<Rightarrow> False
      | Some (Kmalloc_page _) \<Rightarrow> busy)"

definition nvme_setup_cmd ::
  "bool \<Rightarrow> nvme_ns \<Rightarrow> bool \<Rightarrow> request \<Rightarrow> blk_status \<times> bool \<times> request \<times> nvme_command" where
  "nvme_setup_cmd alloc ns busy req =
     (let req = nvme_clear_nvme_request req;
          cmd = zero_command;
          tagged = (\<lambda>(ret, busy, req, cmd). (ret, busy, req, cmd\<lparr>cm_command_id := rq_tag req\<rparr>))
      in case rq_op req of
           REQ_OP_DRV_IN \<Rightarrow> tagged (BLK_STS_OK, busy, req, nr_cmd req)
         | REQ_OP_DRV_OUT \<Rightarrow> tagged (BLK_STS_OK, busy, req, nr_cmd req)
         | REQ_OP_FLUSH \<Rightarrow> tagged (BLK_STS_OK, busy, req, nvme_setup_flush ns cmd)
         | REQ_OP_WRITE_ZEROES \<Rightarrow> tagged (nvme_setup_write_zeroes alloc ns busy req cmd)
         | REQ_OP_DISCARD \<Rightarrow> tagged (nvme_setup_discard alloc ns busy req cmd)
         | REQ_OP_READ \<Rightarrow> tagged (let (ret, cmd) = nvme_setup_rw ns req cmd in (ret, busy, req, cmd))
         | REQ_OP_WRITE \<Rightarrow> tagged (let (ret, cmd) = nvme_setup_rw ns req cmd in (ret, busy, req, cmd))
         | REQ_OP_OTHER \<Rightarrow> (BLK_STS_IOERR, busy, req, cmd))"

section \<open>Retries\<close>

text \<open>
  A request that completes with the given sequence of statuses, set up again after every requeue:
  how often it is requeued.
\<close>

fun requeues :: "u8 \<Rightarrow> (blk_status \<Rightarrow> bool) \<Rightarrow> bool \<Rightarrow> nvme_ns option \<Rightarrow> nvme_ctrl \<Rightarrow> request \<Rightarrow> u16 list \<Rightarrow> nat" where
  "requeues mx path_error dying ns c req [] = 0"
| "requeues mx path_error dying ns c req (s # ss) =
     (case nvme_complete_rq mx path_error dying ns c (req\<lparr>nr_status := s\<rparr>) of
        (Requeued d, req, c) \<Rightarrow> 1 + requeues mx path_error dying ns c (nvme_clear_nvme_request req) ss
      | _ \<Rightarrow> 0)"

lemma complete_rq_requeued:
  assumes "nvme_complete_rq mx path_error dying ns c req = (Requeued d, req', c')"
  shows "nr_retries req < mx \<and> req' = req\<lparr>nr_retries := nr_retries req + 1\<rparr> \<and>
    nr_status req AND NVME_SC_DNR = 0 \<and> \<not> rq_noretry req \<and> \<not> dying \<and> d = retry_delay ns (nr_status req)"
  using assms
  by (auto simp: nvme_complete_rq_def nvme_req_needs_retry_def nvme_retry_req_def Let_def not_le
      split: if_splits)

lemma unat_suc_less: "a < (b :: u8) \<Longrightarrow> unat (a + 1) = unat a + 1"
proof -
  assume "a < b"
  then have "unat a < unat b" by (simp only: word_less_nat_alt)
  moreover have "unat b < 2 ^ 8" using unsigned_less [of b] by simp
  ultimately have "unat a + unat (1 :: u8) < 2 ^ LENGTH(8)" by simp
  then show ?thesis by (simp only: unat_add_bounded) simp
qed

text \<open>C11. Retries are bounded: whatever statuses the controller returns, a request in flight is requeued
  at most \<open>max_retries\<close> minus the retries it has already used.\<close>

theorem retries_bounded:
  assumes "rq_dontprep req"
  shows "requeues mx path_error dying ns c req ss \<le> unat mx - unat (nr_retries req)"
  using assms
proof (induction ss arbitrary: c req)
  case Nil
  then show ?case by simp
next
  case (Cons s ss)
  obtain disp req' c' where comp: "nvme_complete_rq mx path_error dying ns c (req\<lparr>nr_status := s\<rparr>) = (disp, req', c')"
    by (metis prod_cases3)
  show ?case
  proof (cases disp)
    case (Requeued d)
    from complete_rq_requeued [OF comp [unfolded Requeued]]
    have lt: "nr_retries req < mx" and req': "req' = req\<lparr>nr_status := s, nr_retries := nr_retries req + 1\<rparr>"
      by simp_all
    have "nvme_clear_nvme_request req' = req'"
      using Cons.prems by (simp add: nvme_clear_nvme_request_def req')
    with Cons.IH [of req' c'] Cons.prems
    have "requeues mx path_error dying ns c' (nvme_clear_nvme_request req') ss \<le> unat mx - (unat (nr_retries req) + 1)"
      using unat_suc_less [OF lt] by (simp add: req')
    moreover have "unat (nr_retries req) < unat mx" using lt by (simp add: word_less_nat_alt)
    ultimately show ?thesis by (simp add: comp Requeued)
  qed (simp_all add: comp)
qed

definition req0 :: request where
  "req0 = \<lparr>rq_op = REQ_OP_WRITE, rq_tag = 3, rq_pos = 16, rq_bytes = 4096, rq_bios = [(16, 4096)],
     rq_discard_segments = 1, rq_fua = False, rq_failfast_dev = False, rq_rahead = False, rq_mpath = False,
     rq_noretry = False, rq_integrity = False, rq_ref_tag = 0, rq_write_hint = 0, rq_passthrough = False,
     rq_phys_segments = 1, rq_payload_bytes = 4096, rq_dontprep = True, rq_special = None,
     rq_completed = False, nr_cmd = zero_command, nr_retries = 4, nr_usercmd = False, nr_status = 0, nr_result = 0\<rparr>"

definition ns0 :: nvme_ns where
  "ns0 = \<lparr>n_ns_id = 1, n_lba_shift = 12, n_ms = 0, n_pi_type = 0, n_nr_streams = 0,
     n_deallocate_zeroes = False, n_crdt = [0, 0, 0]\<rparr>"

theorem retries_bounded_witness:
  "requeues 5 (\<lambda>_. True) False (Some ns0) (nvme_init_ctrl opts_min) req0 [6, 6, 6] = 1"
proof -
  have "requeues 5 (\<lambda>_. True) False (Some ns0) (nvme_init_ctrl opts_min) req0 [6, 6, 6] \<le> unat (5 :: u8) - unat (nr_retries req0)"
    by (rule retries_bounded) (simp add: req0_def)
  moreover have "1 \<le> requeues 5 (\<lambda>_. True) False (Some ns0) (nvme_init_ctrl opts_min) req0 [6, 6, 6]"
    by (simp add: nvme_complete_rq_def nvme_error_status_def nvme_req_needs_retry_def nvme_retry_req_def
        nvme_init_ctrl_def req0_def Let_def)
  ultimately show ?thesis by (simp add: req0_def)
qed

section \<open>Commands\<close>

lemma drop_push:
  assumes "2 ^ k dvd unat (w :: 'a::len word)"
  shows "unat (drop_bit k w) * 2 ^ k = unat w"
proof -
  have "unat (drop_bit k w) = unat w div 2 ^ k"
    using drop_bit_eq_div [of k "unat w"] by (simp only: unat_drop_bit_eq)
  with assms show ?thesis by simp
qed

definition rw_request_ok :: "nvme_ns \<Rightarrow> request \<Rightarrow> bool" where
  "rw_request_ok ns req \<longleftrightarrow> rq_op req \<in> {REQ_OP_READ, REQ_OP_WRITE} \<and>
     9 \<le> n_lba_shift ns \<and> 2 ^ (n_lba_shift ns - 9) dvd unat (rq_pos req) \<and>
     0 < unat (rq_bytes req) \<and> 2 ^ n_lba_shift ns dvd unat (rq_bytes req) \<and>
     unat (rq_bytes req) \<le> 65536 * 2 ^ n_lba_shift ns"

lemma blocks_field_value:
  assumes "0 < unat (rq_bytes req)" and "2 ^ n_lba_shift ns dvd unat (rq_bytes req)"
    and "unat (rq_bytes req) \<le> 65536 * 2 ^ n_lba_shift ns"
  shows "(unat (blocks_field ns req) + 1) * 2 ^ n_lba_shift ns = unat (rq_bytes req)"
proof -
  let ?b = "drop_bit (n_lba_shift ns) (rq_bytes req)"
  have b: "unat ?b * 2 ^ n_lba_shift ns = unat (rq_bytes req)" by (rule drop_push [OF assms(2)])
  with assms(1) have pos: "0 < unat ?b" by (cases "unat ?b = 0") simp_all
  from b assms(3) have le: "unat ?b \<le> 65536" by (metis mult_le_cancel2 zero_less_numeral zero_less_power)
  have "1 \<le> ?b" using pos by (simp add: word_le_nat_alt)
  then have m: "unat (?b - 1) = unat ?b - 1" by (simp only: unat_sub_le) simp
  have "unat (blocks_field ns req) = unat (?b - 1) mod 2 ^ 16"
    unfolding blocks_field_def by (simp add: unsigned_ucast_eq take_bit_eq_mod)
  also have "\<dots> = unat ?b - 1" using le pos by (simp add: m)
  finally show ?thesis using b pos by simp
qed

text \<open>A read or write command addresses exactly the request's sectors: the start block scaled back is
  the request's position, the zero-based block count scaled back is its length, the opcode is its
  direction, and it is refused only when metadata is needed and neither provided nor generated.\<close>

theorem setup_rw_addresses_request:
  assumes "rw_request_ok ns req"
  shows "let (ret, cmd) = nvme_setup_rw ns req zero_command
    in unat (cm_slba cmd) * 2 ^ (n_lba_shift ns - 9) = unat (rq_pos req) \<and>
      (unat (cm_length cmd) + 1) * 2 ^ n_lba_shift ns = unat (rq_bytes req) \<and>
      cm_nsid cmd = n_ns_id ns \<and>
      cm_opcode cmd = (if rq_op req = REQ_OP_WRITE then nvme_cmd_write else nvme_cmd_read) \<and>
      ret = (if n_ms ns = 0 \<or> rq_integrity req \<or> nvme_ns_has_pi ns then BLK_STS_OK else BLK_STS_NOTSUPP)"
proof -
  have f: "cm_slba (snd (nvme_setup_rw ns req zero_command)) = nvme_block_nr ns (rq_pos req) \<and>
      cm_length (snd (nvme_setup_rw ns req zero_command)) = blocks_field ns req \<and>
      cm_nsid (snd (nvme_setup_rw ns req zero_command)) = n_ns_id ns \<and>
      cm_opcode (snd (nvme_setup_rw ns req zero_command)) =
        (if rq_op req = REQ_OP_WRITE then nvme_cmd_write else nvme_cmd_read) \<and>
      fst (nvme_setup_rw ns req zero_command) =
        (if n_ms ns = 0 \<or> rq_integrity req \<or> nvme_ns_has_pi ns then BLK_STS_OK else BLK_STS_NOTSUPP)"
    using assms
    by (auto simp: nvme_setup_rw_def rw_request_ok_def Let_def split_beta)
  from assms have "unat (nvme_block_nr ns (rq_pos req)) * 2 ^ (n_lba_shift ns - 9) = unat (rq_pos req)"
    unfolding nvme_block_nr_def rw_request_ok_def by (blast intro: drop_push)
  moreover from assms have "(unat (blocks_field ns req) + 1) * 2 ^ n_lba_shift ns = unat (rq_bytes req)"
    unfolding rw_request_ok_def by (blast intro: blocks_field_value)
  ultimately show ?thesis using f by (auto simp: split_beta Let_def)
qed

theorem setup_rw_addresses_request_witness:
  "unat (cm_slba (snd (nvme_setup_rw ns0 req0 zero_command))) * 8 = 16 \<and>
   (unat (cm_length (snd (nvme_setup_rw ns0 req0 zero_command))) + 1) * 4096 = 4096"
proof -
  have "rw_request_ok ns0 req0" by (simp add: rw_request_ok_def ns0_def req0_def)
  from setup_rw_addresses_request [OF this] show ?thesis
    by (simp add: split_beta Let_def ns0_def req0_def)
qed

text \<open>The emergency discard page has one owner at a time and is never leaked: a failed command setup
  leaves the page as it was and no payload attached, and after a successful setup the clean-up of the
  same request restores the page's state.\<close>

theorem discard_page_balanced:
  assumes "rq_special req = None" and "nvme_setup_cmd alloc ns busy req = (ret, busy', req', cmd)"
  shows "if ret = BLK_STS_OK
    then nvme_cleanup_cmd busy' req' = busy \<and> (busy' \<noteq> busy \<longrightarrow> \<not> busy \<and> \<not> alloc)
    else busy' = busy \<and> rq_special req' = None"
proof -
  have s: "rq_special (nvme_clear_nvme_request req) = None" "rq_op (nvme_clear_nvme_request req) = rq_op req"
    using assms(1) by (simp_all add: nvme_clear_nvme_request_def)
  have d: "if ret = BLK_STS_OK
      then nvme_cleanup_cmd busy' req' = busy \<and> (busy' \<noteq> busy \<longrightarrow> \<not> busy \<and> \<not> alloc)
      else busy' = busy \<and> rq_special req' = None"
    if "nvme_setup_discard alloc ns busy rq c = (ret, busy', req', c')" "rq_special rq = None" for rq c c'
    using that by (auto simp: nvme_setup_discard_def nvme_cleanup_cmd_def Let_def split: if_splits)
  show ?thesis
  proof (cases "rq_op req")
    case REQ_OP_DISCARD
    with assms(2) s(2) obtain c' where
      "nvme_setup_discard alloc ns busy (nvme_clear_nvme_request req) zero_command = (ret, busy', req', c')"
      by (auto simp: nvme_setup_cmd_def Let_def split: prod.splits)
    from d [OF this s(1)] show ?thesis .
  next
    case REQ_OP_WRITE_ZEROES
    show ?thesis
    proof (cases "n_deallocate_zeroes ns")
      case True
      with REQ_OP_WRITE_ZEROES assms(2) s(2) obtain c' where
        "nvme_setup_discard alloc ns busy (nvme_clear_nvme_request req) zero_command = (ret, busy', req', c')"
        by (auto simp: nvme_setup_cmd_def nvme_setup_write_zeroes_def Let_def split: prod.splits)
      from d [OF this s(1)] show ?thesis .
    next
      case False
      with REQ_OP_WRITE_ZEROES assms(2) s show ?thesis
        by (auto simp: nvme_setup_cmd_def nvme_setup_write_zeroes_def nvme_cleanup_cmd_def Let_def split: prod.splits)
    qed
  qed (use assms(2) s in \<open>auto simp: nvme_setup_cmd_def nvme_cleanup_cmd_def Let_def split: prod.splits\<close>)
qed

theorem discard_page_balanced_witness:
  "let (ret, busy, req, cmd) = nvme_setup_cmd False ns0 False (req0\<lparr>rq_op := REQ_OP_DISCARD\<rparr>)
   in busy \<and> \<not> nvme_cleanup_cmd busy req"
proof -
  obtain ret busy req cmd where
    c: "nvme_setup_cmd False ns0 False (req0\<lparr>rq_op := REQ_OP_DISCARD\<rparr>) = (ret, busy, req, cmd)"
    by (metis prod_cases4)
  then have "ret = BLK_STS_OK" "busy"
    by (auto simp: nvme_setup_cmd_def nvme_clear_nvme_request_def nvme_setup_discard_def req0_def Let_def)
  with discard_page_balanced [OF _ c] show ?thesis
    unfolding c by (simp add: req0_def)
qed

end
