(* ===== verification/Target_Backend.thy ===== *)
theory Target_Backend
  imports Target_Cmd Host_Request
begin

text \<open>
  The two back ends of a namespace: block devices (\<open>target/io-cmd-bdev.c\<close>) and files
  (\<open>target/io-cmd-file.c\<close>), with the translation of their errors into status codes. The block layer
  and the file system are parameters: what their functions answer; the calls made to them are recorded.
\<close>

section \<open>Status codes\<close>

abbreviation (input) ENODATA :: int where "ENODATA \<equiv> 61"
abbreviation (input) EOPNOTSUPP :: int where "EOPNOTSUPP \<equiv> 95"
abbreviation (input) EIOCBQUEUED :: int where "EIOCBQUEUED \<equiv> 529"

text \<open>The fields of a read, write or write zeroes command that the drivers use.\<close>

definition rw_slba :: "nvme_cmd \<Rightarrow> u64" where
  "rw_slba cmd = ucast (tc_cdw10 cmd) OR push_bit 32 (ucast (tc_cdw11 cmd))"

definition rw_nlb :: "nvme_cmd \<Rightarrow> u64" where
  "rw_nlb cmd = ucast (ucast (tc_cdw12 cmd) :: u16) + 1"

definition rw_fua_bit :: "nvme_cmd \<Rightarrow> bool" where
  "rw_fua_bit cmd = ((ucast (drop_bit 16 (tc_cdw12 cmd)) :: u16) AND NVME_RW_FUA \<noteq> 0)"

definition unsupported_status :: "nvme_cmd \<Rightarrow> u16" where
  "unsupported_status cmd =
     (if tc_opcode cmd = nvme_cmd_dsm \<or> tc_opcode cmd = nvme_cmd_write_zeroes then NVME_SC_ONCS_NOT_SUPPORTED OR NVME_SC_DNR
      else NVME_SC_INVALID_OPCODE OR NVME_SC_DNR)"

definition errno_to_nvme_status :: "int \<Rightarrow> nvmet_req \<Rightarrow> u16 \<times> nvmet_req" where
  "errno_to_nvme_status errno r =
     (if errno = 0 then (NVME_SC_SUCCESS, r)
      else if errno = - ENOSPC then (NVME_SC_CAP_EXCEEDED OR NVME_SC_DNR, r\<lparr>r_error_loc := OFF_RW_LENGTH\<rparr>)
      else if errno = - EREMOTEIO then (NVME_SC_LBA_RANGE OR NVME_SC_DNR, r\<lparr>r_error_loc := OFF_SLBA\<rparr>)
      else if errno = - EOPNOTSUPP then (unsupported_status (r_cmd r), r\<lparr>r_error_loc := OFF_OPCODE\<rparr>)
      else if errno = - ENODATA then (NVME_SC_ACCESS_DENIED, r\<lparr>r_error_loc := OFF_NSID\<rparr>)
      else (NVME_SC_INTERNAL OR NVME_SC_DNR, r\<lparr>r_error_loc := OFF_OPCODE\<rparr>))"

definition blk_to_nvme_status :: "blk_status \<Rightarrow> nvmet_req \<Rightarrow> u16 \<times> nvmet_req" where
  "blk_to_nvme_status blk_sts r =
     (if blk_sts = BLK_STS_OK then (NVME_SC_SUCCESS, r)
      else
        let (status, loc) =
              (case blk_sts of
                 BLK_STS_NOSPC \<Rightarrow> (NVME_SC_CAP_EXCEEDED OR NVME_SC_DNR, OFF_RW_LENGTH)
               | BLK_STS_TARGET \<Rightarrow> (NVME_SC_LBA_RANGE OR NVME_SC_DNR, OFF_SLBA)
               | BLK_STS_NOTSUPP \<Rightarrow> (unsupported_status (r_cmd r), OFF_OPCODE)
               | BLK_STS_MEDIUM \<Rightarrow> (NVME_SC_ACCESS_DENIED, OFF_NSID)
               | _ \<Rightarrow> (NVME_SC_INTERNAL OR NVME_SC_DNR, OFF_OPCODE));
            op = tc_opcode (r_cmd r)
        in (status, r\<lparr>r_error_loc := loc,
              r_error_slba := (if op = nvme_cmd_read \<or> op = nvme_cmd_write \<or> op = nvme_cmd_write_zeroes
                               then rw_slba (r_cmd r) else 0)\<rparr>))"

section \<open>Block devices\<close>

text \<open>
  What the driver hands to the block layer. \<open>bio_segs\<close> are the lengths of the pages added to a bio; a data
  bio has the flags for forced unit access and for peer-to-peer memory.
\<close>

datatype bio_opf = Op_read bool | Op_write bool bool | Op_flush

record bio =
  bio_op :: bio_opf
  bio_vecs :: nat
  bio_sector :: u64
  bio_segs :: "nat list"

datatype blk_call =
    Submit_bio bio
  | Issue_discard u64 u64
  | Issue_zeroout u64 u64
  | Submit_chain             \<comment> \<open>the bio of the calls above\<close>
  | End_chain_with_error

record bdev_io =
  bi_calls :: "blk_call list"
  bi_q :: nvmet_queue

definition complete_bdev :: "u16 \<Rightarrow> nvmet_req \<Rightarrow> bdev_io \<Rightarrow> bdev_io" where
  "complete_bdev status r s = s\<lparr>bi_q := nvmet_req_complete status r (bi_q s)\<rparr>"

definition blk_calls :: "blk_call list \<Rightarrow> bdev_io \<Rightarrow> bdev_io" where
  "blk_calls ks s = s\<lparr>bi_calls := bi_calls s @ ks\<rparr>"

definition nvmet_bio_done :: "blk_status \<Rightarrow> nvmet_req \<Rightarrow> bdev_io \<Rightarrow> bdev_io" where
  "nvmet_bio_done blk_sts r s = (let (status, r) = blk_to_nvme_status blk_sts r in complete_bdev status r s)"

abbreviation (input) BIO_MAX_PAGES :: nat where "BIO_MAX_PAGES \<equiv> 256"
abbreviation (input) NVMET_MAX_INLINE_BIOVEC :: nat where "NVMET_MAX_INLINE_BIOVEC \<equiv> 8"
abbreviation (input) NVMET_MAX_INLINE_DATA_LEN :: u64 where "NVMET_MAX_INLINE_DATA_LEN \<equiv> 32768"

text \<open>
  The loop over the pages. \<open>add\<close> is \<open>bio_add_page\<close>: whether a bio takes another page. The inner loop goes on
  with fresh bios until one does; it does not return if an empty bio does not.
\<close>

fun bdev_rw_loop :: "(bio \<Rightarrow> nat \<Rightarrow> bool) \<Rightarrow> nat list \<Rightarrow> u64 \<Rightarrow> bio \<Rightarrow> bio list \<Rightarrow> bio list option" where
  "bdev_rw_loop add [] sector bio sent = Some (sent @ [bio])"
| "bdev_rw_loop add (l # ls) sector bio sent =
     (if add bio l
      then bdev_rw_loop add ls (sector + of_nat (l div 512)) (bio\<lparr>bio_segs := bio_segs bio @ [l]\<rparr>) sent
      else
        let fresh = bio\<lparr>bio_vecs := min (length (l # ls)) BIO_MAX_PAGES, bio_sector := sector, bio_segs := []\<rparr>
        in if add fresh l
           then bdev_rw_loop add ls (sector + of_nat (l div 512)) (fresh\<lparr>bio_segs := [l]\<rparr>) (sent @ [bio])
           else None)"

definition nvmet_bdev_execute_rw ::
  "(bio \<Rightarrow> nat \<Rightarrow> bool) \<Rightarrow> bool \<Rightarrow> nvmet_ns \<Rightarrow> nat list \<Rightarrow> nvmet_req \<Rightarrow> bdev_io \<Rightarrow> bdev_io option" where
  "nvmet_bdev_execute_rw add p2p ns segs r s =
     (if segs = [] then Some (complete_bdev 0 r s)
      else
        let bop = (if tc_opcode (r_cmd r) = nvme_cmd_write then Op_write (rw_fua_bit (r_cmd r)) p2p else Op_read p2p);
            sector = push_bit (unat (ns_blksize_shift ns - 9)) (rw_slba (r_cmd r));
            vecs = (if r_data_len r \<le> NVMET_MAX_INLINE_DATA_LEN then NVMET_MAX_INLINE_BIOVEC
                    else min (length segs) BIO_MAX_PAGES);
            bio = \<lparr>bio_op = bop, bio_vecs = vecs, bio_sector = sector, bio_segs = []\<rparr>
        in case bdev_rw_loop add segs sector bio [] of
             None \<Rightarrow> None
           | Some bios \<Rightarrow> Some (blk_calls (map Submit_bio bios) s))"

definition nvmet_bdev_execute_flush :: "nvmet_req \<Rightarrow> bdev_io \<Rightarrow> bdev_io" where
  "nvmet_bdev_execute_flush r s =
     blk_calls [Submit_bio \<lparr>bio_op = Op_flush, bio_vecs = NVMET_MAX_INLINE_BIOVEC, bio_sector = 0, bio_segs = []\<rparr>] s"

definition nvmet_bdev_flush :: "int \<Rightarrow> u16" where
  "nvmet_bdev_flush ret = (if ret \<noteq> 0 then NVME_SC_INTERNAL OR NVME_SC_DNR else 0)"

text \<open>A range of a dataset management command.\<close>

definition dsm_nlb :: "u8 list \<Rightarrow> u32" where "dsm_nlb d = of_nat (le_nat (take 4 (drop 4 d)))"
definition dsm_slba :: "u8 list \<Rightarrow> u64" where "dsm_slba d = of_nat (le_nat (take 8 (drop 8 d)))"

text \<open>The number of blocks is shifted in 32 bits.\<close>

definition discard_call :: "nvmet_ns \<Rightarrow> u8 list \<Rightarrow> blk_call" where
  "discard_call ns d =
     Issue_discard (push_bit (unat (ns_blksize_shift ns - 9)) (dsm_slba d))
                   (ucast (push_bit (unat (ns_blksize_shift ns - 9)) (dsm_nlb d)))"

definition nvmet_bdev_discard_range :: "int \<Rightarrow> nvmet_ns \<Rightarrow> u8 list \<Rightarrow> nvmet_req \<Rightarrow> bdev_io \<Rightarrow> u16 \<times> nvmet_req \<times> bdev_io" where
  "nvmet_bdev_discard_range ret ns d r s =
     (let s = blk_calls [discard_call ns d] s
      in if ret \<noteq> 0 \<and> ret \<noteq> - EOPNOTSUPP
         then let (status, r) = errno_to_nvme_status ret (r\<lparr>r_error_slba := dsm_slba d\<rparr>) in (status, r, s)
         else (NVME_SC_SUCCESS, r, s))"

text \<open>
  \<open>ans i\<close> is what \<open>__blkdev_issue_discard\<close> returns for the range \<open>i\<close>, and whether it has made a bio. The
  first argument counts the ranges left.
\<close>

fun discard_loop :: "(nat \<Rightarrow> int \<times> bool) \<Rightarrow> nvmet_ns \<Rightarrow> nat \<Rightarrow> nat \<Rightarrow> bool \<Rightarrow> u16 \<Rightarrow> nvmet_req \<Rightarrow> bdev_io \<Rightarrow>
    bool \<times> u16 \<times> nvmet_req \<times> bdev_io" where
  "discard_loop ans ns 0 i bio status r s = (bio, status, r, s)"
| "discard_loop ans ns (Suc n) i bio status r s =
     (let (status, d, r) = nvmet_copy_from_sgl (i * 16) 16 r
      in if status \<noteq> 0 then (bio, status, r, s)
      else
        let (status, r, s) = nvmet_bdev_discard_range (fst (ans i)) ns d r s; bio = (bio \<or> snd (ans i))
        in if status \<noteq> 0 then (bio, status, r, s) else discard_loop ans ns n (i + 1) bio status r s)"

text \<open>A chain that was started is ended even after an error; ending it with an error completes the request.\<close>

definition nvmet_bdev_execute_discard :: "(nat \<Rightarrow> int \<times> bool) \<Rightarrow> nvmet_ns \<Rightarrow> nvmet_req \<Rightarrow> bdev_io \<Rightarrow> bdev_io" where
  "nvmet_bdev_execute_discard ans ns r s =
     (let (bio, status, r, s) = discard_loop ans ns (unat (tc_cdw10 (r_cmd r)) + 1) 0 False 0 r s
      in if bio then
           (if status \<noteq> 0 then nvmet_bio_done BLK_STS_IOERR r (blk_calls [End_chain_with_error] s)
            else blk_calls [Submit_chain] s)
         else complete_bdev status r s)"

definition nvmet_bdev_execute_dsm :: "(nat \<Rightarrow> int \<times> bool) \<Rightarrow> nvmet_ns \<Rightarrow> nvmet_req \<Rightarrow> bdev_io \<Rightarrow> bdev_io" where
  "nvmet_bdev_execute_dsm ans ns r s =
     (if tc_cdw11 (r_cmd r) = NVME_DSMGMT_AD then nvmet_bdev_execute_discard ans ns r s else complete_bdev 0 r s)"

definition nvmet_bdev_execute_write_zeroes :: "int \<times> bool \<Rightarrow> nvmet_ns \<Rightarrow> nvmet_req \<Rightarrow> bdev_io \<Rightarrow> bdev_io" where
  "nvmet_bdev_execute_write_zeroes ans ns r s =
     (let shift = unat (ns_blksize_shift ns - 9);
          s = blk_calls [Issue_zeroout (push_bit shift (rw_slba (r_cmd r))) (push_bit shift (rw_nlb (r_cmd r)))] s
      in if snd ans then blk_calls [Submit_chain] s
         else let (status, r) = errno_to_nvme_status (fst ans) r in complete_bdev status r s)"

section \<open>Files\<close>

text \<open>
  A call of the file's \<open>read_iter\<close> or \<open>write_iter\<close>: position, bytes asked for, whether it must not wait, must
  sync the data, and may complete later. What a call answers may depend on all calls so far.
\<close>

record file_call =
  fc_write :: bool
  fc_pos :: u64
  fc_count :: nat
  fc_nowait :: bool
  fc_dsync :: bool
  fc_async :: bool

type_synonym file_answer = "file_call list \<Rightarrow> int"

text \<open>Where the vector of segments of a request comes from.\<close>

datatype bvec = Bv_inline | Bv_kmalloc | Bv_mempool

text \<open>
  \<open>fi_taken\<close> counts the vectors taken from the allocator or the pool and not given back, \<open>fi_work\<close> is whether
  the work for buffered I/O is queued, \<open>fi_async\<close> whether the completion callback is set.
\<close>

record file_io =
  fi_bvec :: bvec
  fi_taken :: nat
  fi_calls :: "file_call list"
  fi_work :: bool
  fi_async :: bool
  fi_q :: nvmet_queue

abbreviation (input) NVMET_MAX_MPOOL_BVEC :: nat where "NVMET_MAX_MPOOL_BVEC \<equiv> 16"

definition complete_file :: "u16 \<Rightarrow> nvmet_req \<Rightarrow> file_io \<Rightarrow> file_io" where
  "complete_file status r s = s\<lparr>fi_q := nvmet_req_complete status r (fi_q s)\<rparr>"

definition nvmet_file_submit_bvec :: "file_answer \<Rightarrow> nvmet_req \<Rightarrow> u64 \<Rightarrow> nat \<Rightarrow> bool \<Rightarrow> file_io \<Rightarrow> int \<times> file_io" where
  "nvmet_file_submit_bvec ans r pos n nowait s =
     (let write = (tc_opcode (r_cmd r) = nvme_cmd_write);
          call = \<lparr>fc_write = write, fc_pos = pos, fc_count = n, fc_nowait = nowait,
                  fc_dsync = (write \<and> rw_fua_bit (r_cmd r)), fc_async = fi_async s\<rparr>;
          s = s\<lparr>fi_calls := fi_calls s @ [call]\<rparr>
      in (ans (fi_calls s), s))"

text \<open>The answer is compared in 64 bits and passed on as an \<open>int\<close>.\<close>

definition nvmet_file_io_done :: "int \<Rightarrow> nvmet_req \<Rightarrow> file_io \<Rightarrow> file_io" where
  "nvmet_file_io_done ret r s =
     (let s = (if fi_bvec s \<noteq> Bv_inline then s\<lparr>fi_taken := fi_taken s - 1\<rparr> else s);
          (status, r) = (if word_of_int ret \<noteq> r_data_len r
                         then errno_to_nvme_status (sint (word_of_int ret :: 32 word)) r else (NVME_SC_SUCCESS, r))
      in complete_file status r s)"

text \<open>The loop over the segments; with a vector from the pool they are submitted in batches.\<close>

fun file_io_loop :: "file_answer \<Rightarrow> bool \<Rightarrow> nvmet_req \<Rightarrow> nat list \<Rightarrow> u64 \<Rightarrow> nat \<Rightarrow> nat \<Rightarrow> nat \<Rightarrow> file_io \<Rightarrow>
    int option \<times> nat \<times> file_io" where
  "file_io_loop ans is_sync r [] pos bv_cnt len total_len s = (None, total_len, s)"
| "file_io_loop ans is_sync r (l # ls) pos bv_cnt len total_len s =
     (let len = len + l; total_len = total_len + l; bv_cnt = bv_cnt + 1
      in if is_sync \<and> (ls = [] \<or> bv_cnt = NVMET_MAX_MPOOL_BVEC)
         then let (ret, s) = nvmet_file_submit_bvec ans r pos len False s
              in if ret < 0 then (Some ret, total_len, s)
                 else file_io_loop ans is_sync r ls (pos + of_nat len) 0 0 total_len s
         else file_io_loop ans is_sync r ls pos bv_cnt len total_len s)"

definition file_pos :: "nvmet_ns \<Rightarrow> nvmet_req \<Rightarrow> u64" where
  "file_pos ns r = push_bit (unat (ns_blksize_shift ns)) (rw_slba (r_cmd r))"

text \<open>Whether the request has been dealt with; if not, it is to be tried again without \<open>IOCB_NOWAIT\<close>.\<close>

definition nvmet_file_execute_io :: "file_answer \<Rightarrow> bool \<Rightarrow> nvmet_ns \<Rightarrow> nat list \<Rightarrow> nvmet_req \<Rightarrow> file_io \<Rightarrow> bool \<times> file_io" where
  "nvmet_file_execute_io ans nowait ns segs r s =
     (let is_sync = (fi_bvec s = Bv_mempool \<and> NVMET_MAX_MPOOL_BVEC < length segs);
          pos = file_pos ns r
      in if ns_size ns < pos + r_data_len r
         then let (status, r) = errno_to_nvme_status (- ENOSPC) r in (True, complete_file status r s)
      else
        let (stopped, total_len, s) = file_io_loop ans is_sync r segs pos 0 0 0 (s\<lparr>fi_async := False\<rparr>)
        in case stopped of
             Some ret \<Rightarrow> (True, nvmet_file_io_done ret r s)
           | None \<Rightarrow>
               if of_nat total_len \<noteq> r_data_len r then (True, nvmet_file_io_done (- EIO) r s)
               else if is_sync then (True, nvmet_file_io_done (int total_len) r s)
               else
                 let (ret, s) = nvmet_file_submit_bvec ans r pos total_len nowait (s\<lparr>fi_async := \<not> nowait\<rparr>)
                 in if ret = - EIOCBQUEUED then (True, s)
                    else if ret = - EAGAIN \<and> nowait then (False, s)
                    else if ret = - EOPNOTSUPP \<and> nowait then (False, s)
                    else (True, nvmet_file_io_done ret r s))"

definition nvmet_file_buffered_io_work :: "file_answer \<Rightarrow> nvmet_ns \<Rightarrow> nat list \<Rightarrow> nvmet_req \<Rightarrow> file_io \<Rightarrow> file_io" where
  "nvmet_file_buffered_io_work ans ns segs r s = snd (nvmet_file_execute_io ans False ns segs r (s\<lparr>fi_work := False\<rparr>))"

definition nvmet_file_submit_buffered_io :: "file_io \<Rightarrow> file_io" where
  "nvmet_file_submit_buffered_io s = s\<lparr>fi_work := True\<rparr>"

text \<open>\<open>alloc\<close> is whether the allocation of the vector succeeds; the pool waits until it has one.\<close>

definition nvmet_file_execute_rw ::
  "bool \<Rightarrow> file_answer \<Rightarrow> nvmet_ns \<Rightarrow> nat list \<Rightarrow> nvmet_req \<Rightarrow> file_io \<Rightarrow> file_io" where
  "nvmet_file_execute_rw alloc ans ns segs r s =
     (if segs = [] then complete_file 0 r s
      else
        let s = (if NVMET_MAX_INLINE_BIOVEC < length segs
                 then s\<lparr>fi_bvec := (if alloc then Bv_kmalloc else Bv_mempool), fi_taken := fi_taken s + 1\<rparr>
                 else s\<lparr>fi_bvec := Bv_inline\<rparr>)
        in if ns_buffered_io ns then
             (if fi_bvec s \<noteq> Bv_mempool
              then let (finished, s) = nvmet_file_execute_io ans True ns segs r s
                   in if finished then s else nvmet_file_submit_buffered_io s
              else nvmet_file_submit_buffered_io s)
           else snd (nvmet_file_execute_io ans False ns segs r s))"

definition nvmet_file_flush :: "int \<Rightarrow> nvmet_req \<Rightarrow> u16 \<times> nvmet_req" where
  "nvmet_file_flush ret r = errno_to_nvme_status ret r"

definition nvmet_file_flush_work :: "int \<Rightarrow> nvmet_req \<Rightarrow> nvmet_queue \<Rightarrow> nvmet_queue" where
  "nvmet_file_flush_work ret r q = (let (status, r) = nvmet_file_flush ret r in nvmet_req_complete status r q)"

text \<open>\<open>vfs_fallocate\<close> with a position and a length; positions are signed. The calls are listed.\<close>

type_synonym fallocate_state = "(u64 \<times> u64) list \<times> nvmet_queue"

fun file_discard_loop :: "(nat \<Rightarrow> int) \<Rightarrow> nvmet_ns \<Rightarrow> nat \<Rightarrow> nat \<Rightarrow> u16 \<Rightarrow> nvmet_req \<Rightarrow> (u64 \<times> u64) list \<Rightarrow>
    u16 \<times> nvmet_req \<times> (u64 \<times> u64) list" where
  "file_discard_loop ans ns 0 i status r cs = (status, r, cs)"
| "file_discard_loop ans ns (Suc n) i status r cs =
     (let (status, d, r) = nvmet_copy_from_sgl (i * 16) 16 r
      in if status \<noteq> 0 then (status, r, cs)
      else
        let off = push_bit (unat (ns_blksize_shift ns)) (dsm_slba d);
            len = push_bit (unat (ns_blksize_shift ns)) (ucast (dsm_nlb d) :: u64)
        in if sint (ns_size ns) < sint (off + len)
           then let (status, r) = errno_to_nvme_status (- ENOSPC) (r\<lparr>r_error_slba := dsm_slba d\<rparr>) in (status, r, cs)
           else
             let ret = ans i; cs = cs @ [(off, len)]
             in if ret \<noteq> 0 \<and> ret \<noteq> - EOPNOTSUPP
                then let (status, r) = errno_to_nvme_status ret (r\<lparr>r_error_slba := dsm_slba d\<rparr>) in (status, r, cs)
                else file_discard_loop ans ns n (i + 1) status r cs)"

definition nvmet_file_execute_discard :: "(nat \<Rightarrow> int) \<Rightarrow> nvmet_ns \<Rightarrow> nvmet_req \<Rightarrow> fallocate_state \<Rightarrow> fallocate_state" where
  "nvmet_file_execute_discard ans ns r s =
     (let (status, r, cs) = file_discard_loop ans ns (unat (tc_cdw10 (r_cmd r)) + 1) 0 0 r (fst s)
      in (cs, nvmet_req_complete status r (snd s)))"

definition nvmet_file_dsm_work :: "(nat \<Rightarrow> int) \<Rightarrow> nvmet_ns \<Rightarrow> nvmet_req \<Rightarrow> fallocate_state \<Rightarrow> fallocate_state" where
  "nvmet_file_dsm_work ans ns r s =
     (if tc_cdw11 (r_cmd r) = NVME_DSMGMT_AD then nvmet_file_execute_discard ans ns r s
      else (fst s, nvmet_req_complete 0 r (snd s)))"

definition nvmet_file_write_zeroes_work :: "int \<Rightarrow> nvmet_ns \<Rightarrow> nvmet_req \<Rightarrow> fallocate_state \<Rightarrow> fallocate_state" where
  "nvmet_file_write_zeroes_work ret ns r s =
     (let shift = unat (ns_blksize_shift ns);
          off = push_bit shift (rw_slba (r_cmd r));
          len = push_bit shift (rw_nlb (r_cmd r))
      in if sint (ns_size ns) < sint (off + len)
         then let (status, r) = errno_to_nvme_status (- ENOSPC) r in (fst s, nvmet_req_complete status r (snd s))
         else let (status, r) = (if ret < 0 then errno_to_nvme_status ret r else (0, r))
              in (fst s @ [(off, len)], nvmet_req_complete status r (snd s)))"

section \<open>Errors reach the host\<close>

lemma complete_out:
  "\<exists>cqe. q_out (nvmet_req_complete st r q) = q_out q @ [cqe] \<and> q_command_id cqe = tc_command_id (r_cmd r) \<and>
     (if st = 0 then q_status cqe = r_status r else q_status cqe \<in> {push_bit 1 st, push_bit 1 st OR 0x4000})"
  by (auto simp: nvmet_req_complete_def nvmet_set_error_def Let_def split: prod.splits option.splits)

lemma complete_len: "length (q_out (nvmet_req_complete st r q)) = Suc (length (q_out q))"
  using complete_out [of st r q] by auto

text \<open>The statuses the drivers use, and what the host makes of them.\<close>

definition backend_status :: "nvme_cmd \<Rightarrow> blk_status \<Rightarrow> u16" where
  "backend_status cmd s = fst (blk_to_nvme_status s (example_req\<lparr>r_cmd := cmd\<rparr>))"

lemma blk_to_nvme_status_fst: "fst (blk_to_nvme_status s r) = backend_status (r_cmd r) s"
  by (cases s) (simp_all add: backend_status_def blk_to_nvme_status_def Let_def)

lemma blk_to_nvme_status_req: "r_cmd (snd (blk_to_nvme_status s r)) = r_cmd r \<and> r_status (snd (blk_to_nvme_status s r)) = r_status r"
  by (cases s) (simp_all add: blk_to_nvme_status_def Let_def)

definition surviving :: "blk_status set" where
  "surviving = {BLK_STS_OK, BLK_STS_NOTSUPP, BLK_STS_NOSPC, BLK_STS_TARGET, BLK_STS_MEDIUM}"

lemma backend_status_cases:
  "backend_status cmd s = (case s of BLK_STS_OK \<Rightarrow> 0 | BLK_STS_NOSPC \<Rightarrow> 0x4081 | BLK_STS_TARGET \<Rightarrow> 0x4080
     | BLK_STS_NOTSUPP \<Rightarrow> if tc_opcode cmd = nvme_cmd_dsm \<or> tc_opcode cmd = nvme_cmd_write_zeroes then 0x4183 else 0x4001
     | BLK_STS_MEDIUM \<Rightarrow> 0x286 | _ \<Rightarrow> 0x4006)"
  by (cases s) (simp_all add: backend_status_def blk_to_nvme_status_def unsupported_status_def Let_def)

lemma decoded_statuses:
  "nvme_error_status 0x81 = BLK_STS_NOSPC" "nvme_error_status 0x80 = BLK_STS_TARGET"
  "nvme_error_status 0x183 = BLK_STS_NOTSUPP" "nvme_error_status 1 = BLK_STS_NOTSUPP"
  "nvme_error_status 0x286 = BLK_STS_MEDIUM" "nvme_error_status 6 = BLK_STS_IOERR"
  by (simp_all add: nvme_error_status_def)

lemma decoded_mask: "nvme_error_status w = nvme_error_status (w AND 0x7ff)"
  by (simp add: nvme_error_status_def and.assoc)

lemma backend_status_decoded:
  assumes "st = backend_status cmd s" "st \<noteq> 0" "w = push_bit 1 st \<or> w = push_bit 1 st OR 0x4000"
  shows "nvme_error_status (drop_bit 1 w) = (if s \<in> surviving then s else BLK_STS_IOERR)"
    and "(drop_bit 1 w AND NVME_SC_DNR = 0) = (s = BLK_STS_MEDIUM)"
proof -
  have m: "drop_bit 1 w AND 0x7ff = st AND 0x7ff" "drop_bit 1 w AND NVME_SC_DNR = st AND NVME_SC_DNR"
    using assms(3) unfolding assms(1) backend_status_cases by (cases s; auto)+
  show "nvme_error_status (drop_bit 1 w) = (if s \<in> surviving then s else BLK_STS_IOERR)"
    unfolding decoded_mask [of "drop_bit 1 w"] m(1) using assms(2) unfolding assms(1) backend_status_cases
    by (cases s) (simp_all add: decoded_statuses surviving_def)
  show "(drop_bit 1 w AND NVME_SC_DNR = 0) = (s = BLK_STS_MEDIUM)"
    unfolding m(2) using assms(2) unfolding assms(1) backend_status_cases by (cases s) simp_all
qed

lemma backend_status_zero: "(backend_status cmd s = 0) = (s = BLK_STS_OK)"
  by (cases s) (simp_all add: backend_status_def blk_to_nvme_status_def unsupported_status_def Let_def)

text \<open>C32. A block layer error on the target becomes the same block layer error on the host, for the errors that
  have a status code of their own (unsupported, no space, out of range, medium); every other one becomes
  an I/O error, none becomes a success. The host is told not to retry, except after a medium error.\<close>

theorem block_status_roundtrip:
  assumes "r_status r = 0"
  shows "\<exists>cqe. q_out (bi_q (nvmet_bio_done s r b)) = q_out (bi_q b) @ [cqe] \<and>
    q_command_id cqe = tc_command_id (r_cmd r) \<and>
    nvme_error_status (drop_bit 1 (q_status cqe)) = (if s \<in> surviving then s else BLK_STS_IOERR) \<and>
    (drop_bit 1 (q_status cqe) AND NVME_SC_DNR = 0) = (s \<in> {BLK_STS_OK, BLK_STS_MEDIUM})"
proof -
  obtain st r' where p: "blk_to_nvme_status s r = (st, r')" by fastforce
  then have st: "st = backend_status (r_cmd r) s" and r': "r_cmd r' = r_cmd r" "r_status r' = 0"
    using blk_to_nvme_status_fst [of s r] blk_to_nvme_status_req [of s r] assms by simp_all
  obtain cqe where cqe: "q_out (nvmet_req_complete st r' (bi_q b)) = q_out (bi_q b) @ [cqe]"
      "q_command_id cqe = tc_command_id (r_cmd r')"
      "if st = 0 then q_status cqe = r_status r' else q_status cqe \<in> {push_bit 1 st, push_bit 1 st OR 0x4000}"
    using complete_out [of st r' "bi_q b"] by blast
  have dec: "nvme_error_status (drop_bit 1 (q_status cqe)) = (if s \<in> surviving then s else BLK_STS_IOERR) \<and>
    (drop_bit 1 (q_status cqe) AND NVME_SC_DNR = 0) = (s \<in> {BLK_STS_OK, BLK_STS_MEDIUM})"
  proof (cases "st = 0")
    case True
    then have "s = BLK_STS_OK" using st backend_status_zero by simp
    then show ?thesis using cqe(3) True r' by (simp add: nvme_error_status_def surviving_def)
  next
    case False
    then have "s \<noteq> BLK_STS_OK" using st backend_status_zero by simp
    then show ?thesis using backend_status_decoded [OF st False, of "q_status cqe"] cqe(3) False by auto
  qed
  show ?thesis
    using cqe(1,2) dec r' p by (auto simp: nvmet_bio_done_def complete_bdev_def)
qed

theorem block_status_roundtrip_witness:
  "\<exists>cqe. q_out (bi_q (nvmet_bio_done BLK_STS_MEDIUM example_req \<lparr>bi_calls = [], bi_q = example_queue\<rparr>)) = q_out example_queue @ [cqe] \<and>
    nvme_error_status (drop_bit 1 (q_status cqe)) = BLK_STS_MEDIUM"
  using block_status_roundtrip [of example_req BLK_STS_MEDIUM "\<lparr>bi_calls = [], bi_q = example_queue\<rparr>"]
  by (auto simp: example_req_def surviving_def)

section \<open>A request becomes bios\<close>

text \<open>The bios are back to back on the device from a first sector on.\<close>

fun tiles :: "u64 \<Rightarrow> bio list \<Rightarrow> bool" where
  "tiles sector [] = True"
| "tiles sector (b # bs) = (bio_sector b = sector \<and> tiles (sector + of_nat (sum_list (bio_segs b) div 512)) bs)"

lemma tiles_append:
  "\<forall>b \<in> set bs. 512 dvd sum_list (bio_segs b) \<Longrightarrow>
   tiles sector (bs @ cs) = (tiles sector bs \<and> tiles (sector + of_nat (sum_list (concat (map bio_segs bs)) div 512)) cs)"
  by (induction bs arbitrary: sector) (auto simp: div_add add.assoc)

text \<open>Documented behaviour of \<open>bio_add_page\<close>: an empty bio with room for a page takes one.\<close>

definition empty_bio_takes_page :: "(bio \<Rightarrow> nat \<Rightarrow> bool) \<Rightarrow> bool" where
  "empty_bio_takes_page add = (\<forall>b l. bio_segs b = [] \<longrightarrow> 0 < bio_vecs b \<longrightarrow> add b l)"

lemma dvd_sum_list: "\<forall>x \<in> set xs. (d::nat) dvd x \<Longrightarrow> d dvd sum_list xs"
  by (induction xs) auto

lemma bdev_rw_loop_tiles:
  assumes "empty_bio_takes_page add" "\<forall>l \<in> set (segs @ bio_segs b @ concat (map bio_segs sent)). 512 dvd l"
    and "tiles start (sent @ [b])"
    and "sector = start + of_nat (sum_list (concat (map bio_segs (sent @ [b]))) div 512)"
  shows "\<exists>bios. bdev_rw_loop add segs sector b sent = Some bios \<and>
    concat (map bio_segs bios) = concat (map bio_segs (sent @ [b])) @ segs \<and> tiles start bios \<and>
    bio_op ` set bios \<subseteq> bio_op ` set (sent @ [b])"
  using assms(2-)
proof (induction segs arbitrary: sector b sent)
  case Nil
  then show ?case by auto
next
  case (Cons l ls)
  have dv: "512 dvd l" "512 dvd sum_list (bio_segs b)" "\<forall>c \<in> set sent. 512 dvd sum_list (bio_segs c)"
    "512 dvd sum_list (concat (map bio_segs sent))"
    using Cons.prems(1) by (auto intro!: dvd_sum_list)
  note tl = tiles_append [OF dv(3)]
  let ?s = "sum_list (concat (map bio_segs (sent @ [b])))"
  have step: "sector + of_nat (l div 512) = start + of_nat ((?s + l) div 512)"
    using Cons.prems(3) dv by (simp add: div_add add.assoc)
  show ?case
  proof (cases "add b l")
    case True
    let ?b = "b\<lparr>bio_segs := bio_segs b @ [l]\<rparr>"
    have "\<exists>bios. bdev_rw_loop add ls (sector + of_nat (l div 512)) ?b sent = Some bios \<and>
        concat (map bio_segs bios) = concat (map bio_segs (sent @ [?b])) @ ls \<and> tiles start bios \<and>
        bio_op ` set bios \<subseteq> bio_op ` set (sent @ [?b])"
    proof (rule Cons.IH)
      show "\<forall>x\<in>set (ls @ bio_segs ?b @ concat (map bio_segs sent)). 512 dvd x" using Cons.prems(1) by auto
      show "tiles start (sent @ [?b])" using Cons.prems(2) by (simp add: tl)
      show "sector + of_nat (l div 512) = start + of_nat (sum_list (concat (map bio_segs (sent @ [?b]))) div 512)"
        using step by (simp add: add.assoc)
    qed
    moreover have "bdev_rw_loop add (l # ls) sector b sent = bdev_rw_loop add ls (sector + of_nat (l div 512)) ?b sent"
      by (simp only: bdev_rw_loop.simps(2) True if_True)
    ultimately show ?thesis by auto
  next
    case False
    let ?f = "b\<lparr>bio_vecs := min (length (l # ls)) BIO_MAX_PAGES, bio_sector := sector, bio_segs := []\<rparr>"
    let ?b = "?f\<lparr>bio_segs := [l]\<rparr>"
    have add: "add ?f l" using assms(1) by (simp add: empty_bio_takes_page_def)
    have "\<exists>bios. bdev_rw_loop add ls (sector + of_nat (l div 512)) ?b (sent @ [b]) = Some bios \<and>
        concat (map bio_segs bios) = concat (map bio_segs ((sent @ [b]) @ [?b])) @ ls \<and> tiles start bios \<and>
        bio_op ` set bios \<subseteq> bio_op ` set ((sent @ [b]) @ [?b])"
    proof (rule Cons.IH)
      show "\<forall>x\<in>set (ls @ bio_segs ?b @ concat (map bio_segs (sent @ [b]))). 512 dvd x" using Cons.prems(1) by auto
      have "\<forall>c \<in> set (sent @ [b]). 512 dvd sum_list (bio_segs c)" using dv by simp
      moreover have "bio_sector ?b = sector" by simp
      ultimately show "tiles start ((sent @ [b]) @ [?b])"
        by (subst tiles_append) (simp_all only: Cons.prems(2) Cons.prems(3) [symmetric] tiles.simps simp_thms)
      show "sector + of_nat (l div 512) = start + of_nat (sum_list (concat (map bio_segs ((sent @ [b]) @ [?b]))) div 512)"
        using step by (simp add: add.assoc)
    qed
    moreover have "bdev_rw_loop add (l # ls) sector b sent = bdev_rw_loop add ls (sector + of_nat (l div 512)) ?b (sent @ [b])"
      by (simp only: bdev_rw_loop.simps(2) Let_def False add if_True if_False)
    ultimately show ?thesis by auto
  qed
qed

text \<open>C31. A read or write on a block device becomes bios that cover it exactly. However many pages a bio takes,
  the loop that splits a request returns; together the bios submitted carry the request's pages, each
  once and in order, they lie back to back on the device from the sector of the request's first block on,
  and all have its direction and flags.\<close>

theorem bdev_rw_tiles:
  assumes "empty_bio_takes_page add" and "segs \<noteq> []" and "\<forall>l \<in> set segs. 512 dvd l"
  shows "\<exists>bios. nvmet_bdev_execute_rw add p2p ns segs r s = Some (s\<lparr>bi_calls := bi_calls s @ map Submit_bio bios\<rparr>) \<and>
    concat (map bio_segs bios) = segs \<and>
    tiles (push_bit (unat (ns_blksize_shift ns - 9)) (rw_slba (r_cmd r))) bios \<and>
    bio_op ` set bios = {if tc_opcode (r_cmd r) = nvme_cmd_write then Op_write (rw_fua_bit (r_cmd r)) p2p else Op_read p2p}"
proof -
  define bop where "bop = (if tc_opcode (r_cmd r) = nvme_cmd_write then Op_write (rw_fua_bit (r_cmd r)) p2p else Op_read p2p)"
  define sector where "sector = push_bit (unat (ns_blksize_shift ns - 9)) (rw_slba (r_cmd r))"
  define vecs where "vecs = (if r_data_len r \<le> NVMET_MAX_INLINE_DATA_LEN then NVMET_MAX_INLINE_BIOVEC else min (length segs) BIO_MAX_PAGES)"
  define b where "b = \<lparr>bio_op = bop, bio_vecs = vecs, bio_sector = sector, bio_segs = []\<rparr>"
  obtain bios where B: "bdev_rw_loop add segs sector b [] = Some bios" "concat (map bio_segs bios) = segs"
      "tiles sector bios" "bio_op ` set bios \<subseteq> {bop}"
    using bdev_rw_loop_tiles [OF assms(1), of segs b "[]" sector sector] assms(3) by (auto simp: b_def)
  then have "bios \<noteq> []" using assms(2) by auto
  then have "bio_op ` set bios = {bop}" using B(4) by (metis image_is_empty set_empty subset_singletonD)
  moreover have "nvmet_bdev_execute_rw add p2p ns segs r s = Some (s\<lparr>bi_calls := bi_calls s @ map Submit_bio bios\<rparr>)"
    using assms(2) B(1) unfolding b_def vecs_def sector_def bop_def
    by (simp add: nvmet_bdev_execute_rw_def blk_calls_def Let_def)
  ultimately show ?thesis using B(2,3) unfolding bop_def sector_def by blast
qed

theorem bdev_rw_tiles_witness:
  "\<exists>bios. nvmet_bdev_execute_rw (\<lambda>b l. length (bio_segs b) < bio_vecs b) False (example_ns 7) (replicate 300 4096) example_req
      \<lparr>bi_calls = [], bi_q = example_queue\<rparr> = Some \<lparr>bi_calls = map Submit_bio bios, bi_q = example_queue\<rparr> \<and>
    concat (map bio_segs bios) = replicate 300 4096"
  using bdev_rw_tiles [of "\<lambda>b l. length (bio_segs b) < bio_vecs b" "replicate 300 4096" False "example_ns 7" example_req
      "\<lparr>bi_calls = [], bi_q = example_queue\<rparr>"]
  by (auto simp: empty_bio_takes_page_def)

section \<open>A request on a file\<close>

text \<open>Documented behaviour of \<open>read_iter\<close> and \<open>write_iter\<close>: without a completion callback they finish.\<close>

definition sync_calls_finish :: "file_answer \<Rightarrow> bool" where
  "sync_calls_finish ans = (\<forall>cs c. fc_async c \<or> ans (cs @ [c]) \<noteq> - EIOCBQUEUED)"

definition file_start :: "nvmet_queue \<Rightarrow> file_io" where
  "file_start q = \<lparr>fi_bvec = Bv_inline, fi_taken = 0, fi_calls = [], fi_work = False, fi_async = False, fi_q = q\<rparr>"

text \<open>
  The life of a request: the driver's first attempt, the work if it was queued, the callback with the answer
  \<open>fin\<close> if the last call is to complete later.
\<close>

definition file_rw_run ::
  "bool \<Rightarrow> file_answer \<Rightarrow> int \<Rightarrow> nvmet_ns \<Rightarrow> nat list \<Rightarrow> nvmet_req \<Rightarrow> nvmet_queue \<Rightarrow> file_io" where
  "file_rw_run alloc ans fin ns segs r q =
     (let s = nvmet_file_execute_rw alloc ans ns segs r (file_start q);
          s = (if fi_work s then nvmet_file_buffered_io_work ans ns segs r s else s)
      in if fi_calls s \<noteq> [] \<and> fc_async (last (fi_calls s)) \<and> ans (fi_calls s) = - EIOCBQUEUED
         then nvmet_file_io_done fin r s else s)"

definition file_out_of_range :: "nvmet_ns \<Rightarrow> nvmet_req \<Rightarrow> bool" where
  "file_out_of_range ns r = (ns_size ns < file_pos ns r + r_data_len r)"

lemma submit_bvec_frame:
  "nvmet_file_submit_bvec ans r pos n nw s = (ret, s') \<Longrightarrow>
   \<exists>c. s' = s\<lparr>fi_calls := fi_calls s @ [c]\<rparr> \<and> fc_async c = fi_async s \<and> fc_pos c = pos \<and> fc_count c = n \<and>
     fc_nowait c = nw \<and> ret = ans (fi_calls s @ [c])"
  by (auto simp: nvmet_file_submit_bvec_def Let_def)

lemma file_loop_async:
  "file_io_loop ans False r segs pos c len tot s = (None, tot + sum_list segs, s)"
  by (induction segs arbitrary: c len tot) (simp_all add: Let_def add.assoc)

lemma file_loop_frame:
  "file_io_loop ans sy r segs pos c len tot s = (st, t', s') \<Longrightarrow>
   \<exists>cs. s' = s\<lparr>fi_calls := fi_calls s @ cs\<rparr> \<and> (\<forall>call \<in> set cs. fc_async call = fi_async s)"
proof (induction segs arbitrary: pos c len tot s)
  case Nil
  then have "s' = s" by simp
  then show ?case by (intro exI [of _ "[]"]) simp
next
  case (Cons l ls)
  show ?case
  proof (cases "sy \<and> (ls = [] \<or> c + 1 = 16)")
    case True
    obtain ret s1 where sub: "nvmet_file_submit_bvec ans r pos (len + l) False s = (ret, s1)" by fastforce
    from submit_bvec_frame [OF this] obtain call where
      s1: "s1 = s\<lparr>fi_calls := fi_calls s @ [call]\<rparr>" "fc_async call = fi_async s" by blast
    show ?thesis
    proof (cases "ret < 0")
      case True
      then have "s' = s1" using Cons.prems sub \<open>sy \<and> _\<close> by (simp add: Let_def)
      then show ?thesis using s1 by (intro exI [of _ "[call]"]) simp
    next
      case False
      then have "file_io_loop ans sy r ls (pos + of_nat (len + l)) 0 0 (tot + l) s1 = (st, t', s')"
        using Cons.prems sub \<open>sy \<and> _\<close> by (simp add: Let_def)
      from Cons.IH [OF this] obtain cs where "s' = s1\<lparr>fi_calls := fi_calls s1 @ cs\<rparr>"
        "\<forall>call \<in> set cs. fc_async call = fi_async s1" by blast
      then show ?thesis using s1 by (intro exI [of _ "call # cs"]) simp
    qed
  next
    case False
    then have "file_io_loop ans sy r ls pos (c + 1) (len + l) (tot + l) s = (st, t', s')"
      using Cons.prems by (auto simp: Let_def)
    then show ?thesis by (rule Cons.IH)
  qed
qed

definition answers_once :: "nvmet_req \<Rightarrow> nvmet_queue \<Rightarrow> nvmet_queue \<Rightarrow> bool" where
  "answers_once r q q' = (\<exists>cqe. q_out q' = q_out q @ [cqe] \<and> q_command_id cqe = tc_command_id (r_cmd r))"

lemma answers_once_complete: "r_cmd r' = r_cmd r \<Longrightarrow> answers_once r q (nvmet_req_complete st r' q)"
  using complete_out [of st r' q] by (auto simp: answers_once_def)

lemma errno_cmd: "errno_to_nvme_status e r = (st, r') \<Longrightarrow> r_cmd r' = r_cmd r"
  by (auto simp: errno_to_nvme_status_def split: if_splits)

lemma io_done_frame:
  "answers_once r (fi_q s) (fi_q (nvmet_file_io_done ret r s)) \<and>
   fi_taken (nvmet_file_io_done ret r s) = fi_taken s - (if fi_bvec s = Bv_inline then 0 else 1) \<and>
   fi_work (nvmet_file_io_done ret r s) = fi_work s \<and> fi_calls (nvmet_file_io_done ret r s) = fi_calls s"
  by (auto simp: nvmet_file_io_done_def complete_file_def Let_def answers_once_complete errno_cmd split: prod.splits)

lemma execute_io_eq:
  assumes "\<not> file_out_of_range ns r"
    and "file_io_loop ans (fi_bvec s = Bv_mempool \<and> NVMET_MAX_MPOOL_BVEC < length segs) r segs (file_pos ns r) 0 0 0
      (s\<lparr>fi_async := False\<rparr>) = (st, tot, s1)"
  shows "nvmet_file_execute_io ans nw ns segs r s = (case st of Some ret \<Rightarrow> (True, nvmet_file_io_done ret r s1)
     | None \<Rightarrow>
         if of_nat tot \<noteq> r_data_len r then (True, nvmet_file_io_done (- EIO) r s1)
         else if fi_bvec s = Bv_mempool \<and> NVMET_MAX_MPOOL_BVEC < length segs then (True, nvmet_file_io_done (int tot) r s1)
         else let (ret, s) = nvmet_file_submit_bvec ans r (file_pos ns r) tot nw (s1\<lparr>fi_async := \<not> nw\<rparr>)
              in if ret = - EIOCBQUEUED then (True, s) else if ret = - EAGAIN \<and> nw then (False, s)
                 else if ret = - EOPNOTSUPP \<and> nw then (False, s) else (True, nvmet_file_io_done ret r s))"
  unfolding nvmet_file_execute_io_def Let_def assms(2) using assms(1) by (simp add: file_out_of_range_def)

text \<open>
  What one attempt comes to: an error because the request is out of range; an answer; an answer to come from
  the callback; or, when it must not wait, another attempt.
\<close>

lemma execute_io_outcome:
  assumes fin: "sync_calls_finish ans" and x: "nvmet_file_execute_io ans nw ns segs r s = (d, s')"
  obtains
    (out_of_range) "file_out_of_range ns r" "d" "answers_once r (fi_q s) (fi_q s')" "fi_taken s' = fi_taken s"
      "fi_work s' = fi_work s" "fi_calls s' = fi_calls s"
  | (answered) "\<not> file_out_of_range ns r" "d" "answers_once r (fi_q s) (fi_q s')"
      "fi_taken s' = fi_taken s - (if fi_bvec s = Bv_inline then 0 else 1)" "fi_work s' = fi_work s"
      "fi_calls s' = fi_calls s \<or> (\<exists>cs c. fi_calls s' = cs @ [c] \<and> (fc_async c = False \<or> ans (cs @ [c]) \<noteq> - EIOCBQUEUED))"
  | (pending) "\<not> file_out_of_range ns r" "d" "fi_q s' = fi_q s" "fi_taken s' = fi_taken s" "fi_work s' = fi_work s"
      "fi_bvec s' = fi_bvec s" "\<exists>cs c. fi_calls s' = cs @ [c] \<and> fc_async c" "ans (fi_calls s') = - EIOCBQUEUED"
  | (again) "\<not> file_out_of_range ns r" "\<not> d" "nw" "fi_q s' = fi_q s" "fi_taken s' = fi_taken s" "fi_work s' = fi_work s"
      "fi_bvec s' = fi_bvec s" "\<exists>cs c. fi_calls s' = cs @ [c] \<and> fc_async c = False"
proof (cases "file_out_of_range ns r")
  case True
  then have "d \<and> answers_once r (fi_q s) (fi_q s') \<and> fi_taken s' = fi_taken s \<and> fi_work s' = fi_work s \<and> fi_calls s' = fi_calls s"
    using x by (auto simp: nvmet_file_execute_io_def file_out_of_range_def complete_file_def answers_once_complete errno_cmd
        split: prod.splits)
  then show ?thesis using out_of_range True by blast
next
  case False
  define sy where "sy = (fi_bvec s = Bv_mempool \<and> NVMET_MAX_MPOOL_BVEC < length segs)"
  obtain st tot s1 where loop: "file_io_loop ans sy r segs (file_pos ns r) 0 0 0 (s\<lparr>fi_async := False\<rparr>) = (st, tot, s1)"
    by (metis prod.exhaust)
  obtain cs where s1: "s1 = s\<lparr>fi_async := False, fi_calls := fi_calls s @ cs\<rparr>" "\<forall>call \<in> set cs. \<not> fc_async call"
    using file_loop_frame [OF loop] by auto
  have last1: "fi_calls s1 = fi_calls s \<or> (\<exists>ks c. fi_calls s1 = ks @ [c] \<and> (fc_async c = False \<or> ans (ks @ [c]) \<noteq> - EIOCBQUEUED))"
  proof (cases cs rule: rev_cases)
    case Nil then show ?thesis using s1 by simp
  next
    case (snoc ks c) then show ?thesis using s1 by (intro disjI2 exI [of _ "fi_calls s @ ks"] exI [of _ c]) simp
  qed
  have ans1: "thesis" if "s' = nvmet_file_io_done ret r s1" "d" for ret
    by (rule answered) (use False that s1 last1 io_done_frame [of r s1 ret] in simp_all)
  note x' = execute_io_eq [OF False loop [unfolded sy_def], of nw, folded sy_def, unfolded x]
  show ?thesis
  proof (cases "st = None \<and> of_nat tot = r_data_len r \<and> \<not> sy")
    case False
    then show ?thesis using x' ans1 by (auto split: option.splits if_splits)
  next
    case sub: True
    obtain ret s2 where s2: "nvmet_file_submit_bvec ans r (file_pos ns r) tot nw (s1\<lparr>fi_async := \<not> nw\<rparr>) = (ret, s2)" by fastforce
    from submit_bvec_frame [OF this] obtain c where
      c: "s2 = s1\<lparr>fi_async := \<not> nw, fi_calls := fi_calls s1 @ [c]\<rparr>" "fc_async c = (\<not> nw)" "ret = ans (fi_calls s1 @ [c])"
      by auto
    have x2: "(d, s') = (if ret = - EIOCBQUEUED then (True, s2) else if ret = - EAGAIN \<and> nw then (False, s2)
                 else if ret = - EOPNOTSUPP \<and> nw then (False, s2) else (True, nvmet_file_io_done ret r s2))"
      using x' sub s2 by simp
    consider "ret = - EIOCBQUEUED" "s' = s2" "d" | "nw" "\<not> d" "s' = s2" | "ret \<noteq> - EIOCBQUEUED" "d" "s' = nvmet_file_io_done ret r s2"
      using x2 by (auto split: if_splits)
    then show ?thesis
    proof cases
      case 1
      have "fc_async c" using fin c(3) 1(1) unfolding sync_calls_finish_def by metis
      show ?thesis by (rule pending) (use 1 c s1 \<open>\<not> file_out_of_range ns r\<close> \<open>fc_async c\<close> in auto)
    next
      case 2
      show ?thesis by (rule again) (use 2 c s1 \<open>\<not> file_out_of_range ns r\<close> in auto)
    next
      case 3
      show ?thesis
      proof (rule answered)
        show "fi_calls s' = fi_calls s \<or> (\<exists>cs c. fi_calls s' = cs @ [c] \<and> (fc_async c = False \<or> ans (cs @ [c]) \<noteq> - EIOCBQUEUED))"
          using 3 c io_done_frame [of r s2 ret] by auto
      qed (use 3 c s1 io_done_frame [of r s2 ret] \<open>\<not> file_out_of_range ns r\<close> in simp_all)
    qed
  qed
qed


definition callback_due :: "file_answer \<Rightarrow> file_io \<Rightarrow> bool" where
  "callback_due ans s = (fi_calls s \<noteq> [] \<and> fc_async (last (fi_calls s)) \<and> ans (fi_calls s) = - EIOCBQUEUED)"

lemma last_attempt:
  assumes fin: "sync_calls_finish ans" and idle: "\<not> callback_due ans s" and x: "nvmet_file_execute_io ans nw ns segs r s = (d, s')"
    and d: "d" and taken: "fi_taken s = (if fi_bvec s = Bv_inline then 0 else 1)"
    and s2_def: "s2 = (if callback_due ans s' then nvmet_file_io_done e r s' else s')"
  shows "answers_once r (fi_q s) (fi_q s2) \<and> fi_work s2 = fi_work s \<and>
    fi_taken s2 = (if file_out_of_range ns r \<and> fi_bvec s \<noteq> Bv_inline then 1 else 0)"
  using fin x
proof (cases rule: execute_io_outcome)
  case out_of_range
  then have "\<not> callback_due ans s'" using idle by (simp add: callback_due_def)
  then show ?thesis using out_of_range taken by (simp add: s2_def)
next
  case answered
  then have "\<not> callback_due ans s'" using idle by (auto simp: callback_due_def)
  then show ?thesis using answered taken by (simp add: s2_def)
next
  case pending
  then have "callback_due ans s'" by (auto simp: callback_due_def)
  then show ?thesis using pending taken io_done_frame [of r s' e] by (auto simp: s2_def)
next
  case again
  then show ?thesis using d by simp
qed

lemma execute_io_wait_finishes:
  assumes "sync_calls_finish ans" "nvmet_file_execute_io ans False ns segs r s = (d, s')"
  shows "d"
  using assms by (cases rule: execute_io_outcome) simp_all

lemma file_rw_run_eq:
  "file_rw_run alloc ans e ns segs r q =
     (let s = nvmet_file_execute_rw alloc ans ns segs r (file_start q);
          s = (if fi_work s then nvmet_file_buffered_io_work ans ns segs r s else s)
      in if callback_due ans s then nvmet_file_io_done e r s else s)"
  by (simp add: file_rw_run_def callback_due_def Let_def)

text \<open>A request with its vector of segments.\<close>

definition file_vector :: "bool \<Rightarrow> nat list \<Rightarrow> nvmet_queue \<Rightarrow> file_io" where
  "file_vector alloc segs q = (if NVMET_MAX_INLINE_BIOVEC < length segs
      then (file_start q)\<lparr>fi_bvec := (if alloc then Bv_kmalloc else Bv_mempool), fi_taken := 1\<rparr> else file_start q)"

lemma file_vector_fields:
  "fi_q (file_vector alloc segs q) = q" "fi_work (file_vector alloc segs q) = False"
  "fi_taken (file_vector alloc segs q) = (if fi_bvec (file_vector alloc segs q) = Bv_inline then 0 else 1)"
  "(fi_bvec (file_vector alloc segs q) \<noteq> Bv_inline) = (NVMET_MAX_INLINE_BIOVEC < length segs)"
  "fi_calls (file_vector alloc segs q) = []"
  "(fi_bvec (file_vector alloc segs q) = Bv_mempool) = (\<not> alloc \<and> NVMET_MAX_INLINE_BIOVEC < length segs)"
  by (simp_all add: file_vector_def file_start_def)

lemma file_vector_idle: "\<not> callback_due ans (file_vector alloc segs q)"
  by (simp add: callback_due_def file_vector_fields)

lemma execute_rw_eq:
  assumes "segs \<noteq> []"
  shows "nvmet_file_execute_rw alloc ans ns segs r (file_start q) =
      (let s0 = file_vector alloc segs q
       in if ns_buffered_io ns \<and> fi_bvec s0 = Bv_mempool then s0\<lparr>fi_work := True\<rparr>
       else if ns_buffered_io ns then (let (d, s) = nvmet_file_execute_io ans True ns segs r s0 in if d then s else s\<lparr>fi_work := True\<rparr>)
       else snd (nvmet_file_execute_io ans False ns segs r s0))"
  using assms by (auto simp: nvmet_file_execute_rw_def file_vector_def nvmet_file_submit_buffered_io_def file_start_def Let_def
        split: prod.split)

text \<open>C30. A read or write on a file is answered exactly once, whatever the allocator and the file system answer,
  synchronously, through the work for buffered I/O or from the callback; and the vector of segments is
  given back, with one exception: a request past the end of the namespace with more than 8 segments is
  answered with an error and its vector is never freed, so a host can use up the target's memory.\<close>

theorem file_rw_answered_once:
  assumes fin: "sync_calls_finish ans"
  shows "let s = file_rw_run alloc ans e ns segs r q in
    (\<exists>cqe. q_out (fi_q s) = q_out q @ [cqe] \<and> q_command_id cqe = tc_command_id (r_cmd r)) \<and> fi_work s = False \<and>
    fi_taken s = (if file_out_of_range ns r \<and> NVMET_MAX_INLINE_BIOVEC < length segs then 1 else 0)"
proof (cases "segs = []")
  case True
  then show ?thesis using answers_once_complete [of r r q 0]
    by (simp add: file_rw_run_def nvmet_file_execute_rw_def file_start_def complete_file_def answers_once_def)
next
  case False
  define s0 where "s0 = file_vector alloc segs q"
  note s0 = file_vector_fields [of alloc segs q, folded s0_def] file_vector_idle [of ans alloc segs q, folded s0_def]
  note start = execute_rw_eq [OF False, of alloc ans ns r q, folded s0_def]
  define R where "R = file_rw_run alloc ans e ns segs r q"
  have goal: ?thesis if "answers_once r q (fi_q R)" "\<not> fi_work R"
      "fi_taken R = (if file_out_of_range ns r \<and> fi_bvec s0 \<noteq> Bv_inline then 1 else 0)"
    using that s0 unfolding R_def Let_def answers_once_def by simp
  have work: "answers_once r q (fi_q R) \<and> \<not> fi_work R \<and>
      fi_taken R = (if file_out_of_range ns r \<and> fi_bvec s0 \<noteq> Bv_inline then 1 else 0)"
    if w: "nvmet_file_execute_rw alloc ans ns segs r (file_start q) = s1\<lparr>fi_work := True\<rparr>"
      and s1: "fi_q s1 = q" "\<not> fi_work s1" "fi_taken s1 = fi_taken s0" "fi_bvec s1 = fi_bvec s0" "\<not> callback_due ans s1" for s1
  proof -
    have s1': "s1\<lparr>fi_work := False\<rparr> = s1" using s1(2) by simp
    obtain d s2 where x: "nvmet_file_execute_io ans False ns segs r s1 = (d, s2)" by fastforce
    have "R = (if callback_due ans s2 then nvmet_file_io_done e r s2 else s2)"
      by (simp add: R_def file_rw_run_eq w nvmet_file_buffered_io_work_def s1' x)
    then show ?thesis
      using last_attempt [OF fin s1(5) x execute_io_wait_finishes [OF fin x] _ HOL.refl, of e] s0 s1 by simp
  qed
  have direct: "answers_once r q (fi_q R) \<and> \<not> fi_work R \<and>
      fi_taken R = (if file_out_of_range ns r \<and> fi_bvec s0 \<noteq> Bv_inline then 1 else 0)"
    if w: "nvmet_file_execute_rw alloc ans ns segs r (file_start q) = s1"
      and x: "nvmet_file_execute_io ans nw ns segs r s0 = (d, s1)" "d" for nw d s1
  proof -
    note L = last_attempt [OF fin file_vector_idle x [unfolded s0_def] file_vector_fields(3) HOL.refl, of e, folded s0_def]
    have "\<not> fi_work s1" using fin x(1) by (cases rule: execute_io_outcome) (use s0(2) in simp_all)
    then have "R = (if callback_due ans s1 then nvmet_file_io_done e r s1 else s1)" by (simp add: R_def file_rw_run_eq w)
    then show ?thesis using L s0 by simp
  qed
  show ?thesis
  proof (cases "ns_buffered_io ns")
    case False
    obtain d s1 where x: "nvmet_file_execute_io ans False ns segs r s0 = (d, s1)" by fastforce
    show ?thesis using direct [OF _ x execute_io_wait_finishes [OF fin x]] goal start x False by simp
  next
    case buffered: True
    show ?thesis
    proof (cases "fi_bvec s0 = Bv_mempool")
      case True
      show ?thesis using work [of s0] goal start buffered True s0 by simp
    next
      case False
      obtain d s1 where x: "nvmet_file_execute_io ans True ns segs r s0 = (d, s1)" by fastforce
      show ?thesis
      proof (cases d)
        case True
        show ?thesis using direct [OF _ x True] goal start x buffered False True by simp
      next
        case again: False
        have "fi_q s1 = q \<and> \<not> fi_work s1 \<and> fi_taken s1 = fi_taken s0 \<and> fi_bvec s1 = fi_bvec s0 \<and> \<not> callback_due ans s1"
          using fin x by (cases rule: execute_io_outcome) (use again s0 in \<open>auto simp: callback_due_def\<close>)
        then show ?thesis using work [of s1] goal start x buffered False again by simp
      qed
    qed
  qed
qed


text \<open>A file that answers every call with an error, a namespace of 8 blocks, a request for 9 pages beyond its end.\<close>

definition far_req :: nvmet_req where
  "far_req = example_req\<lparr>r_cmd := (r_cmd example_req)\<lparr>tc_opcode := nvme_cmd_read, tc_cdw10 := 1000\<rparr>, r_data_len := 36864\<rparr>"

theorem file_rw_answered_once_witness:
  "let s = file_rw_run True (\<lambda>cs. - EIO) 0 (example_ns 7) (replicate 9 4096) far_req example_queue in
    length (q_out (fi_q s)) = Suc (length (q_out example_queue)) \<and> fi_taken s = 1"
proof -
  have fin: "sync_calls_finish (\<lambda>cs. - EIO)" by (simp add: sync_calls_finish_def)
  have "file_out_of_range (example_ns 7) far_req"
    by (simp add: file_out_of_range_def file_pos_def example_ns_def far_req_def example_req_def rw_slba_def)
  then show ?thesis
    using file_rw_answered_once [OF fin, of True 0 "example_ns 7" "replicate 9 4096" far_req example_queue]
    unfolding Let_def by auto
qed

section \<open>Positions in a file\<close>

definition within :: "nat \<Rightarrow> nat \<Rightarrow> file_call list \<Rightarrow> bool" where
  "within lo hi cs = (\<forall>c \<in> set cs. lo \<le> unat (fc_pos c) \<and> unat (fc_pos c) + fc_count c \<le> hi)"

lemma within_simps [simp]:
  "within lo hi []" "within lo hi (cs @ ds) = (within lo hi cs \<and> within lo hi ds)"
  "within lo hi (c # cs) = (lo \<le> unat (fc_pos c) \<and> unat (fc_pos c) + fc_count c \<le> hi \<and> within lo hi cs)"
  by (auto simp: within_def)

lemma within_mono: "within lo hi cs \<Longrightarrow> lo' \<le> lo \<Longrightarrow> hi \<le> hi' \<Longrightarrow> within lo' hi' cs"
  by (fastforce simp: within_def)

lemma unat_add_of_nat: "unat (p :: u64) + n < 2 ^ 64 \<Longrightarrow> unat (p + of_nat n) = unat p + n"
  by (subst unat_add_lem [THEN iffD1]) (auto simp: unat_of_nat)

lemma file_loop_within:
  "file_io_loop ans sy r segs pos c len tot s = (st, t', s') \<Longrightarrow> unat pos + len + sum_list segs < 2 ^ 64 \<Longrightarrow>
   \<exists>cs. fi_calls s' = fi_calls s @ cs \<and> within (unat pos) (unat pos + len + sum_list segs) cs"
proof (induction segs arbitrary: pos c len tot s)
  case Nil
  then show ?case by (intro exI [of _ "[]"]) simp
next
  case (Cons l ls)
  show ?case
  proof (cases "sy \<and> (ls = [] \<or> c + 1 = 16)")
    case True
    obtain ret s1 where sub: "nvmet_file_submit_bvec ans r pos (len + l) False s = (ret, s1)" by fastforce
    from submit_bvec_frame [OF this] obtain call where
      s1: "s1 = s\<lparr>fi_calls := fi_calls s @ [call]\<rparr>" "fc_pos call = pos" "fc_count call = len + l" by blast
    show ?thesis
    proof (cases "ret < 0")
      case True
      then have "s' = s1" using Cons.prems(1) sub \<open>sy \<and> _\<close> by (simp add: Let_def)
      then show ?thesis using s1 by (intro exI [of _ "[call]"]) simp
    next
      case False
      then have loop: "file_io_loop ans sy r ls (pos + of_nat (len + l)) 0 0 (tot + l) s1 = (st, t', s')"
        using Cons.prems(1) sub \<open>sy \<and> _\<close> by (simp add: Let_def)
      have pos: "unat (pos + of_nat (len + l)) = unat pos + (len + l)"
        using Cons.prems(2) by (intro unat_add_of_nat) simp
      have "unat (pos + of_nat (len + l)) + 0 + sum_list ls < 2 ^ 64" using Cons.prems(2) by (simp only: pos) simp
      from Cons.IH [OF loop this] obtain cs where "fi_calls s' = fi_calls s1 @ cs"
        "within (unat pos + (len + l)) (unat pos + (len + l) + sum_list ls) cs" unfolding pos by auto
      then show ?thesis using s1 within_mono by (intro exI [of _ "call # cs"]) (auto simp: add.assoc)
    qed
  next
    case False
    then have "file_io_loop ans sy r ls pos (c + 1) (len + l) (tot + l) s = (st, t', s')"
      using Cons.prems(1) by (auto simp: Let_def)
    from Cons.IH [OF this] show ?thesis using Cons.prems(2) by (simp add: add.assoc)
  qed
qed

lemma file_loop_total:
  "file_io_loop ans sy r segs pos c len tot s = (None, t', s') \<Longrightarrow> t' = tot + sum_list segs"
proof (induction segs arbitrary: pos c len tot s)
  case (Cons l ls)
  then show ?case by (auto simp: Let_def split: if_splits prod.splits; fastforce simp: add.assoc)
qed simp

lemma execute_io_within:
  assumes x: "nvmet_file_execute_io ans nw ns segs r s = (d, s')"
    and len: "r_data_len r = of_nat (sum_list segs)" and nowrap: "unat (file_pos ns r) + sum_list segs < 2 ^ 64"
  shows "\<exists>cs. fi_calls s' = fi_calls s @ cs \<and> within (unat (file_pos ns r)) (unat (ns_size ns)) cs \<and>
    (file_out_of_range ns r \<longrightarrow> cs = [])"
proof (cases "file_out_of_range ns r")
  case True
  then have "fi_calls s' = fi_calls s"
    using x by (auto simp: nvmet_file_execute_io_def file_out_of_range_def complete_file_def split: prod.splits)
  then show ?thesis by (intro exI [of _ "[]"]) simp
next
  case False
  define hi where "hi = unat (file_pos ns r) + sum_list segs"
  have hi: "hi \<le> unat (ns_size ns)"
    using False nowrap unat_add_of_nat [of "file_pos ns r" "sum_list segs"]
    by (simp add: hi_def file_out_of_range_def len word_le_nat_alt not_less)
  define sy where "sy = (fi_bvec s = Bv_mempool \<and> NVMET_MAX_MPOOL_BVEC < length segs)"
  obtain st tot s1 where loop: "file_io_loop ans sy r segs (file_pos ns r) 0 0 0 (s\<lparr>fi_async := False\<rparr>) = (st, tot, s1)"
    by (metis prod.exhaust)
  obtain cs where cs: "fi_calls s1 = fi_calls s @ cs" "within (unat (file_pos ns r)) hi cs"
    using file_loop_within [OF loop] nowrap by (auto simp: hi_def)
  note x' = execute_io_eq [OF False loop [unfolded sy_def], of nw, folded sy_def, unfolded x]
  have "\<exists>ds. fi_calls s' = fi_calls s1 @ ds \<and> within (unat (file_pos ns r)) hi ds"
  proof (cases "st = None \<and> of_nat tot = r_data_len r \<and> \<not> sy")
    case False
    then have "fi_calls s' = fi_calls s1" using x' io_done_frame by (auto split: option.splits if_splits)
    then show ?thesis by (intro exI [of _ "[]"]) simp
  next
    case sub: True
    obtain ret s2 where s2: "nvmet_file_submit_bvec ans r (file_pos ns r) tot nw (s1\<lparr>fi_async := \<not> nw\<rparr>) = (ret, s2)" by fastforce
    from submit_bvec_frame [OF this] obtain c where
      c: "fi_calls s2 = fi_calls s1 @ [c]" "fc_pos c = file_pos ns r" "fc_count c = tot" by auto
    have "tot = sum_list segs" using file_loop_total [of ans sy r segs "file_pos ns r" 0 0 0] loop sub by auto
    moreover have "fi_calls s' = fi_calls s2" using x' sub s2 io_done_frame by (auto split: if_splits)
    ultimately show ?thesis using c by (intro exI [of _ "[c]"]) (simp add: hi_def)
  qed
  then obtain ds where ds: "fi_calls s' = fi_calls s1 @ ds" "within (unat (file_pos ns r)) hi ds" by blast
  have "within (unat (file_pos ns r)) (unat (ns_size ns)) (cs @ ds)"
    using cs(2) ds(2) within_mono [OF _ le_refl hi] by simp
  then show ?thesis using ds(1) cs(1) False by (intro exI [of _ "cs @ ds"]) simp
qed

text \<open>C33. I/O on a file stays inside the namespace. As long as the end of a request fits in 64 bits, every call the
  driver makes on the file, in one piece or in batches, at once or again from the work, lies between the
  request's first byte and the end of the namespace; a request that ends past it makes no call.\<close>

theorem file_io_in_bounds:
  assumes "r_data_len r = of_nat (sum_list segs)" and "unat (file_pos ns r) + sum_list segs < 2 ^ 64"
  shows "let s = file_rw_run alloc ans e ns segs r q in
    (\<forall>c \<in> set (fi_calls s). unat (file_pos ns r) \<le> unat (fc_pos c) \<and> unat (fc_pos c) + fc_count c \<le> unat (ns_size ns)) \<and>
    (file_out_of_range ns r \<longrightarrow> fi_calls s = [])"
proof -
  define good where "good s \<longleftrightarrow> within (unat (file_pos ns r)) (unat (ns_size ns)) (fi_calls s) \<and>
      (file_out_of_range ns r \<longrightarrow> fi_calls s = [])" for s :: file_io
  have step: "good s'" if "nvmet_file_execute_io ans nw ns segs r s = (d, s')" "good s" for s s' nw d
    using execute_io_within [OF that(1) assms] that(2) by (auto simp: good_def)
  have step2: "good (snd (nvmet_file_execute_io ans nw ns segs r s))" if "good s" for s nw
    by (rule step [OF surjective_pairing that])
  have upd: "good (s\<lparr>fi_work := w\<rparr>) = good s" "good (s\<lparr>fi_bvec := b, fi_taken := n\<rparr>) = good s" "good (s\<lparr>fi_bvec := b\<rparr>) = good s"
    for s w b n by (simp_all add: good_def)
  have start: "good (file_start q)" by (simp add: good_def file_start_def)
  define s1 where "s1 = nvmet_file_execute_rw alloc ans ns segs r (file_start q)"
  have "good s1"
    using start step step2 upd
    by (auto simp: s1_def nvmet_file_execute_rw_def nvmet_file_submit_buffered_io_def complete_file_def good_def file_start_def
        Let_def split: prod.splits)
  then have "good (if fi_work s1 then nvmet_file_buffered_io_work ans ns segs r s1 else s1)"
    by (simp add: nvmet_file_buffered_io_work_def step2 upd)
  then have "good (file_rw_run alloc ans e ns segs r q)"
    by (simp add: file_rw_run_eq Let_def s1_def [symmetric] good_def io_done_frame)
  then show ?thesis by (simp add: good_def within_def Let_def)
qed

definition near_req :: nvmet_req where
  "near_req = example_req\<lparr>r_cmd := (r_cmd example_req)\<lparr>tc_opcode := nvme_cmd_read, tc_cdw10 := 0, tc_cdw11 := 0\<rparr>, r_data_len := 4096\<rparr>"

theorem file_io_in_bounds_witness:
  "let cs = fi_calls (file_rw_run True (\<lambda>cs. 4096) 0 (example_ns 7) [1024, 3072] near_req example_queue) in
     map fc_count cs = [4096] \<and> unat (fc_pos (hd cs)) + fc_count (hd cs) \<le> 4096"
proof -
  have p: "file_pos (example_ns 7) near_req = 0" "ns_size (example_ns 7) = 4096" "r_data_len near_req = 4096"
      "ns_buffered_io (example_ns 7) = False"
    by (simp_all add: file_pos_def example_ns_def near_req_def example_req_def rw_slba_def)
  have calls: "map fc_count (fi_calls (file_rw_run True (\<lambda>cs. 4096) 0 (example_ns 7) [1024, 3072] near_req example_queue)) = [4096]"
    by (simp add: file_rw_run_def nvmet_file_execute_rw_def nvmet_file_execute_io_def file_start_def p
        nvmet_file_submit_bvec_def nvmet_file_io_done_def complete_file_def Let_def split_beta)
  then have "hd (fi_calls (file_rw_run True (\<lambda>cs. 4096) 0 (example_ns 7) [1024, 3072] near_req example_queue))
      \<in> set (fi_calls (file_rw_run True (\<lambda>cs. 4096) 0 (example_ns 7) [1024, 3072] near_req example_queue))"
    by (intro hd_in_set) auto
  moreover have "r_data_len near_req = of_nat (sum_list [1024, 3072])" by (simp add: near_req_def)
  ultimately show ?thesis
    using calls file_io_in_bounds [of near_req "[1024, 3072]" "example_ns 7" True "\<lambda>cs. 4096" 0 example_queue]
    by (simp add: p Let_def)
qed

section \<open>What the range check misses\<close>

lemma rw_position:
  assumes "nvmet_file_execute_io ans nw ns segs r s = (d, s')" "\<not> file_out_of_range ns r"
    "r_data_len r = of_nat (sum_list segs)" "fi_bvec s \<noteq> Bv_mempool"
  shows "\<exists>c. fi_calls s' = fi_calls s @ [c] \<and> fc_pos c = file_pos ns r \<and> fc_count c = sum_list segs"
proof -
  obtain ret s2 where s2: "nvmet_file_submit_bvec ans r (file_pos ns r) (sum_list segs) nw (s\<lparr>fi_async := \<not> nw\<rparr>) = (ret, s2)"
    by fastforce
  from submit_bvec_frame [OF this] obtain c where
    c: "fi_calls s2 = fi_calls s @ [c]" "fc_pos c = file_pos ns r" "fc_count c = sum_list segs" by auto
  have "fi_calls s' = fi_calls s2" using assms s2 io_done_frame
    by (auto simp: nvmet_file_execute_io_def file_loop_async file_out_of_range_def Let_def split: if_splits)
  then show ?thesis using c by auto
qed

lemma execute_io_extends:
  assumes x: "nvmet_file_execute_io ans nw ns segs r s = (d, s')"
  shows "\<exists>cs. fi_calls s' = fi_calls s @ cs"
proof (cases "file_out_of_range ns r")
  case True
  then have "fi_calls s' = fi_calls s"
    using x by (auto simp: nvmet_file_execute_io_def file_out_of_range_def complete_file_def split: prod.splits)
  then show ?thesis by simp
next
  case False
  obtain st tot s1 where loop: "file_io_loop ans (fi_bvec s = Bv_mempool \<and> NVMET_MAX_MPOOL_BVEC < length segs) r segs
      (file_pos ns r) 0 0 0 (s\<lparr>fi_async := False\<rparr>) = (st, tot, s1)"
    by (metis prod.exhaust)
  obtain cs where "fi_calls s1 = fi_calls s @ cs" using file_loop_frame [OF loop] by auto
  moreover have "\<exists>ds. fi_calls s' = fi_calls s1 @ ds"
    using execute_io_eq [OF False loop, of nw] x io_done_frame submit_bvec_frame
    by (auto simp: Let_def split: option.splits if_splits prod.splits) (fastforce dest!: submit_bvec_frame)+
  ultimately show ?thesis by auto
qed

text \<open>The range check of file I/O can be passed with a negative position. A request whose last block is the
  last one a 64-bit byte position can name wraps the sum in the check to zero; whatever the size of the
  namespace, the driver then calls the file's read or write function with a position that is, as the
  signed number it is taken for, negative.\<close>

theorem file_range_check_wraps:
  assumes "0 < k" and "k * 2 ^ unat (ns_blksize_shift ns) < 2 ^ 63" and "rw_slba (r_cmd r) = - of_nat k"
    and "sum_list segs = k * 2 ^ unat (ns_blksize_shift ns)" and "r_data_len r = of_nat (sum_list segs)"
  shows "\<exists>c cs. fi_calls (file_rw_run True ans e ns segs r q) = c # cs \<and> sint (fc_pos c) < 0 \<and> fc_count c = sum_list segs"
proof -
  let ?n = "k * 2 ^ unat (ns_blksize_shift ns)"
  have pos: "file_pos ns r = - of_nat ?n" by (simp add: file_pos_def assms(3) push_bit_eq_mult)
  then have inr: "\<not> file_out_of_range ns r" by (simp add: file_out_of_range_def assms(4,5))
  have "?n > 0" using assms(1) by simp
  moreover have "sint (- of_nat n :: u64) < 0" if n: "0 < n" "n < 2 ^ 63" for n
  proof -
    have "sint (word_of_int (- int n) :: u64) = (- int n + 2 ^ 63) mod 2 ^ 64 - 2 ^ 63"
      by (simp only: int_word_sint) simp
    moreover have "(- int n + 2 ^ 63) mod 2 ^ 64 = - int n + 2 ^ 63" using n by (intro mod_pos_pos_trivial) simp_all
    ultimately show ?thesis using n by simp
  qed
  ultimately have neg: "sint (file_pos ns r) < 0" unfolding pos using assms(2) by blast
  have segs: "segs \<noteq> []" using assms(1,4) by auto
  have x: "fi_calls (nvmet_file_execute_rw True ans ns segs r (file_start q)) =
      fi_calls (snd (nvmet_file_execute_io ans (ns_buffered_io ns) ns segs r (file_vector True segs q)))"
    by (cases "ns_buffered_io ns") (simp_all add: execute_rw_eq [OF segs] file_vector_fields Let_def split_beta)
  have vb: "fi_bvec (file_vector True segs q) \<noteq> Bv_mempool" by (simp add: file_vector_fields)
  obtain c where c: "fi_calls (nvmet_file_execute_rw True ans ns segs r (file_start q)) = [c]"
      "fc_pos c = file_pos ns r" "fc_count c = sum_list segs"
    using rw_position [OF surjective_pairing inr assms(5) vb] x by (auto simp: file_vector_fields)
  have ext: "\<exists>cs. fi_calls (nvmet_file_buffered_io_work ans ns segs r s) = fi_calls s @ cs" for s
    using execute_io_extends [OF surjective_pairing, of ans False ns segs r "s\<lparr>fi_work := False\<rparr>"]
    by (simp add: nvmet_file_buffered_io_work_def)
  have "\<exists>cs. fi_calls (file_rw_run True ans e ns segs r q) = c # cs"
    using ext [of "nvmet_file_execute_rw True ans ns segs r (file_start q)"] c(1)
    by (auto simp: file_rw_run_eq Let_def io_done_frame)
  then show ?thesis using c neg by auto
qed


definition last_block_req :: nvmet_req where
  "last_block_req = example_req\<lparr>r_cmd := (r_cmd example_req)\<lparr>tc_opcode := nvme_cmd_write, tc_cdw10 := 0xffffffff,
     tc_cdw11 := 0xffffffff\<rparr>, r_data_len := 512\<rparr>"

theorem file_range_check_wraps_witness:
  "\<exists>c cs. fi_calls (file_rw_run True (\<lambda>cs. 512) 0 (example_ns 7) [512] last_block_req example_queue) = c # cs \<and>
     sint (fc_pos c) < 0 \<and> fc_count c = 512"
  using file_range_check_wraps [of 1 "example_ns 7" last_block_req "[512]" "\<lambda>cs. 512" 0 example_queue]
  by (simp add: example_ns_def last_block_req_def rw_slba_def)

text \<open>Under memory pressure, what a file does not transfer goes unnoticed: the batches' answers are not added up.\<close>

lemma file_loop_optimistic:
  "\<forall>cs. 0 \<le> ans cs \<Longrightarrow> \<exists>s'. file_io_loop ans sy r segs pos c len tot s = (None, tot + sum_list segs, s') \<and>
     fi_q s' = fi_q s \<and> fi_bvec s' = fi_bvec s"
proof (induction segs arbitrary: pos c len tot s)
  case (Cons l ls)
  obtain ret s1 where sub: "nvmet_file_submit_bvec ans r pos (len + l) False s = (ret, s1)" by fastforce
  from submit_bvec_frame [OF this] have s1: "fi_q s1 = fi_q s" "fi_bvec s1 = fi_bvec s" "\<not> ret < 0"
    using Cons.prems by (auto simp: not_less)
  show ?case
  proof (cases "sy \<and> (ls = [] \<or> c + 1 = 16)")
    case True
    then have "file_io_loop ans sy r (l # ls) pos c len tot s = file_io_loop ans sy r ls (pos + of_nat (len + l)) 0 0 (tot + l) s1"
      using sub s1(3) by (simp add: Let_def)
    then show ?thesis
      using Cons.IH [OF Cons.prems, of "pos + of_nat (len + l)" 0 0 "tot + l" s1] s1(1,2) by (simp only: sum_list.Cons add.assoc)
  next
    case False
    then have "file_io_loop ans sy r (l # ls) pos c len tot s = file_io_loop ans sy r ls pos (c + 1) (len + l) (tot + l) s"
      by (auto simp: Let_def)
    then show ?thesis
      using Cons.IH [OF Cons.prems, of pos "c + 1" "len + l" "tot + l" s] by (simp only: sum_list.Cons add.assoc)
  qed
qed simp

text \<open>Under memory pressure a short transfer is reported as a success. When the vector of a request with more
  than 16 segments has to come from the pool, the segments are read or written in batches, and a batch
  that moves fewer bytes than asked for, even none, counts as done: as long as no call fails, the host is
  told that all its data has been moved.\<close>

theorem short_file_io_hidden:
  assumes "\<forall>cs. 0 \<le> ans cs" and "NVMET_MAX_MPOOL_BVEC < length segs" and "\<not> file_out_of_range ns r"
    and "r_data_len r = of_nat (sum_list segs)" and "r_status r = 0"
  shows "\<exists>cqe. q_out (fi_q (file_rw_run False ans e ns segs r q)) = q_out q @ [cqe] \<and> q_status cqe = 0"
proof -
  define s0 where "s0 = file_vector False segs q"
  have long: "NVMET_MAX_INLINE_BIOVEC < length segs" "segs \<noteq> []" using assms(2) by auto
  have s0: "fi_q s0 = q" "fi_bvec s0 = Bv_mempool" "fi_work s0 = False"
    using long file_vector_fields(1,2,6) [of False segs q] by (simp_all add: s0_def)
  obtain s1 where loop: "file_io_loop ans True r segs (file_pos ns r) 0 0 0 (s0\<lparr>fi_async := False\<rparr>) = (None, sum_list segs, s1)"
    and s1: "fi_q s1 = q" using file_loop_optimistic [OF assms(1), of True r segs "file_pos ns r" 0 0 0 "s0\<lparr>fi_async := False\<rparr>"] s0
    by auto
  have loop': "file_io_loop ans (fi_bvec s0 = Bv_mempool \<and> NVMET_MAX_MPOOL_BVEC < length segs) r segs (file_pos ns r) 0 0 0
      (s0\<lparr>fi_async := False\<rparr>) = (None, sum_list segs, s1)" using loop assms(2) s0 by simp
  let ?s = "nvmet_file_io_done (int (sum_list segs)) r s1"
  have x: "nvmet_file_execute_io ans False ns segs r s0 = (True, ?s)"
    using execute_io_eq [OF assms(3) loop', of False] assms(2,4) s0 by simp
  obtain cqe where cqe: "q_out (fi_q ?s) = q_out q @ [cqe]" "q_status cqe = 0"
    using complete_out [of 0 r q] s1 assms(4,5) by (auto simp: nvmet_file_io_done_def complete_file_def Let_def)
  have calls: "\<not> callback_due ans ?s" using assms(1) [THEN spec, of "fi_calls ?s"] by (simp add: callback_due_def)
  have w: "s0\<lparr>fi_work := False\<rparr> = s0" using s0 by simp
  have "\<not> fi_work ?s"
  proof -
    have "fi_work s1 = fi_work s0" using file_loop_frame [OF loop] by auto
    then show ?thesis using io_done_frame [of r s1] s0 by simp
  qed
  moreover have w: "s0\<lparr>fi_work := False\<rparr> = s0" using s0 by simp
  have "nvmet_file_execute_io ans False ns segs r (s0\<lparr>fi_work := False\<rparr>) = (True, ?s)" by (simp only: w x)
  ultimately have "file_rw_run False ans e ns segs r q = ?s"
    using calls x s0
    by (simp add: file_rw_run_eq execute_rw_eq [OF long(2)] s0_def [symmetric] nvmet_file_buffered_io_work_def Let_def)
  then show ?thesis using cqe by auto
qed


theorem short_file_io_hidden_witness:
  "\<exists>cqe. q_out (fi_q (file_rw_run False (\<lambda>cs. 0) 0 (example_ns 7) (replicate 17 128) (near_req\<lparr>r_data_len := 2176\<rparr>) example_queue)) =
     q_out example_queue @ [cqe] \<and> q_status cqe = 0"
proof (rule short_file_io_hidden)
  show "\<not> file_out_of_range (example_ns 7) (near_req\<lparr>r_data_len := 2176\<rparr>)"
    by (simp add: file_out_of_range_def file_pos_def example_ns_def near_req_def example_req_def rw_slba_def)
qed (simp_all add: near_req_def example_req_def sum_list_replicate)

section \<open>Large discards\<close>

text \<open>
  The sectors of a discard are counted in 32 bits: the call covers the range exactly if the count fits, and
  on a device with blocks of 4096 bytes a range of \<open>2 ^ 29\<close> blocks becomes an empty one.
\<close>

lemma discard_covers:
  assumes "unat (dsm_nlb d) * 2 ^ unat (ns_blksize_shift ns - 9) < 2 ^ 32"
  shows "\<exists>sector. discard_call ns d = Issue_discard sector (of_nat (unat (dsm_nlb d) * 2 ^ unat (ns_blksize_shift ns - 9)))"
proof -
  have "unat (push_bit (unat (ns_blksize_shift ns - 9)) (dsm_nlb d)) = unat (dsm_nlb d) * 2 ^ unat (ns_blksize_shift ns - 9)"
    using assms by (subst unsigned_push_bit_eq) (simp add: push_bit_eq_mult take_bit_eq_mod)
  then have "(ucast (push_bit (unat (ns_blksize_shift ns - 9)) (dsm_nlb d)) :: u64) =
      of_nat (unat (dsm_nlb d) * 2 ^ unat (ns_blksize_shift ns - 9))"
    by (metis of_nat_unat)
  then show ?thesis by (simp add: discard_call_def)
qed

lemma discard_truncated:
  "ns_blksize_shift ns = 12 \<Longrightarrow> dsm_nlb d = 0x20000000 \<Longrightarrow> \<exists>sector. discard_call ns d = Issue_discard sector 0"
  by (simp add: discard_call_def)

end
