(* ===== verification/Target_Connect.thy ===== *)
theory Target_Connect
  imports Target_Subsys
begin

text \<open>
  What connecting and disconnecting do to the target as a whole: its references stay exact, a connect command
  is admitted or rejected without a trace, and what the keep-alive timeout of a connect command means.
\<close>

section \<open>References over the life of the target\<close>

text \<open>
  What changes the queues of a target: connect commands, the destruction of queues, and the handlers that
  answer the other commands of a queue (its completions, events asked for and reported).
\<close>

datatype target_op =
    T_admin_connect bool alloc_env "u16 option" "nvmet_port option" nat nvmet_req
  | T_io_connect bool "u16 option" "nvmet_port option" nat nvmet_req
  | T_destroy nat
  | T_complete nat u16 nvmet_req
  | T_async_cmd nat nvmet_req
  | T_async_work nat

fun target_step :: "target_op \<Rightarrow> target \<Rightarrow> target" where
  "target_step (T_admin_connect alloc e instq port qa r) t = nvmet_execute_admin_connect alloc e instq port qa r t"
| "target_step (T_io_connect alloc instq port qa r) t = nvmet_execute_io_connect alloc instq port qa r t"
| "target_step (T_destroy qa) t = nvmet_sq_destroy qa t"
| "target_step (T_complete qa st r) t = on_queue qa (nvmet_req_complete st r) t"
| "target_step (T_async_cmd qa r) t = on_queue qa (nvmet_execute_async_event r) t"
| "target_step (T_async_work qa) t = on_queue qa nvmet_async_event_work t"

lemma async_work_ids [simp]: "ctrl_ids (async_work_loop aens q) = ctrl_ids q"
  by (induction aens arbitrary: q) (simp_all add: Let_def split: option.split)

lemma keeps_async_work: "keeps_ctrl nvmet_async_event_work"
  by (rule keeps_ctrlI) (simp add: nvmet_async_event_work_def split: option.splits)

lemma keeps_async_cmd: "keeps_ctrl (nvmet_execute_async_event r)"
  by (rule keeps_ctrlI) (simp add: nvmet_execute_async_event_def Let_def split: option.splits)

lemma inv_target_step: "target_inv (\<lambda>_. 0) (\<lambda>_. 0) t \<Longrightarrow> target_inv (\<lambda>_. 0) (\<lambda>_. 0) (target_step x t)"
  by (cases x) (simp_all add: inv_admin_connect inv_io_connect inv_sq_destroy inv_complete
      inv_on_queue keeps_async_work keeps_async_cmd)

lemma inv_target_run: "target_inv (\<lambda>_. 0) (\<lambda>_. 0) t \<Longrightarrow> target_inv (\<lambda>_. 0) (\<lambda>_. 0) (fold target_step xs t)"
  by (induction xs arbitrary: t) (simp_all add: inv_target_step)

text \<open>A target as its configuration leaves it: subsystems without controllers, no queue connected.\<close>

definition target_idle :: "target \<Rightarrow> bool" where
  "target_idle t \<longleftrightarrow>
     (\<forall>ya. case t_subsys t ya of None \<Rightarrow> True | Some y \<Rightarrow> y_ctrls y = [] \<and> y_ref y = 1) \<and>
     t_cntlids t = {} \<and> (\<forall>qa. tq_ctrl (t_queues t qa) = None)"

lemma inv_idle: "target_idle t \<Longrightarrow> target_inv (\<lambda>_. 0) (\<lambda>_. 0) t"
proof -
  assume t: "target_idle t"
  have A: "case t_subsys t ya of None \<Rightarrow> True | Some y \<Rightarrow> y_ctrls y = [] \<and> y_ref y = 1" for ya
    using t unfolding target_idle_def by blast
  then have "y_ctrls y = [] \<and> y_ref y = 1" if "t_subsys t ya = Some y" for ya y
    using A [of ya] that by simp
  moreover from this have "ctrl_at t p = None" for p
    by (auto simp: ctrl_at_def split: option.splits)
  moreover have "conns t p = {}" for p using t by (simp add: conns_def target_idle_def)
  ultimately show ?thesis
    using t by (auto simp: target_inv_def target_idle_def intro!: ctrls_invI subs_invI)
qed

text \<open>C20. Reference counting on the target is exact. Whatever hosts connect, ask and disconnect, in whatever
order, with every allocation and every transport answer: a queue points only at controllers that exist; a
controller exists exactly while a queue is connected to it and counts exactly those queues; a subsystem counts
its controllers and its configuration; and the controller numbers in use are those of the controllers, each
used by one of them.\<close>

theorem target_references_exact:
  assumes "target_idle t"
  shows "let t' = fold target_step xs t in (\<forall>p. (ctrl_at t' p \<noteq> None) = (\<exists>qa. tq_ctrl (t_queues t' qa) = Some p)) \<and>
    (\<forall>p c. ctrl_at t' p = Some c \<longrightarrow> n_ref c = card {qa. tq_ctrl (t_queues t' qa) = Some p}) \<and>
    (\<forall>ya y. t_subsys t' ya = Some y \<longrightarrow> y_ref y = 1 + length (y_ctrls y) \<and> distinct (map n_cntlid (y_ctrls y))) \<and>
    t_cntlids t' = {unat (snd p) |p. ctrl_at t' p \<noteq> None} \<and>
    (\<forall>p p'. ctrl_at t' p \<noteq> None \<longrightarrow> ctrl_at t' p' \<noteq> None \<longrightarrow> snd p = snd p' \<longrightarrow> p = p')"
proof -
  define t' where "t' = fold target_step xs t"
  have inv: "target_inv (\<lambda>_. 0) (\<lambda>_. 0) t'"
    unfolding t'_def by (rule inv_target_run [OF inv_idle [OF assms]])
  then have ci: "ctrls_inv (ctrl_at t') (conns t') (\<lambda>_. 0) (t_cntlids t')" and si: "subs_inv (\<lambda>_. 0) (t_subsys t')"
    by (simp_all add: target_inv_def)
  have live: "(ctrl_at t' p \<noteq> None) = (conns t' p \<noteq> {})" for p
  proof (cases "ctrl_at t' p")
    case None
    then show ?thesis using ctrls_invD(1) [OF ci] by simp
  next
    case (Some c)
    with ctrls_invD(4,5) [OF ci Some] show ?thesis by auto
  qed
  have nums: "t_cntlids t' = {unat (snd p) |p. ctrl_at t' p \<noteq> None}" (is "_ = ?R")
  proof
    show "t_cntlids t' \<subseteq> ?R"
    proof
      fix n assume n: "n \<in> t_cntlids t'"
      then obtain ya where "ctrl_at t' (ya, of_nat n) \<noteq> None" "n < 65536" using ctrls_invD(7,8) [OF ci n] by auto
      then have "n = unat (snd (ya, of_nat n :: u16)) \<and> ctrl_at t' (ya, of_nat n) \<noteq> None" by (simp add: unat_of_nat)
      then show "n \<in> ?R" by blast
    qed
    show "?R \<subseteq> t_cntlids t'" using ctrls_invD(6) [OF ci] by auto
  qed
  have "p = p'" if "ctrl_at t' p \<noteq> None" "ctrl_at t' p' \<noteq> None" "snd p = snd p'" for p p'
    using that ctrls_invD(9) [OF ci, of "fst p" "snd p" "fst p'"] by (cases p; cases p') auto
  with live nums show ?thesis
    unfolding Let_def t'_def [symmetric]
    using ctrls_invD(4) [OF ci] subs_invD(1,2) [OF si] by (auto simp: conns_def)
qed

section \<open>Admission\<close>

lemma complete_cqe:
  "q_ctrl q = None \<or> st = 0 \<Longrightarrow> \<exists>cqe. q_out (nvmet_req_complete st r q) = q_out q @ [cqe] \<and> q_result cqe = r_result r \<and>
     q_status cqe = (if st = 0 then r_status r else push_bit 1 st)"
  by (auto simp: nvmet_req_complete_def nvmet_set_error_def Let_def split: prod.splits option.splits)

lemma complete_ok_ctrl: "q_ctrl (nvmet_req_complete 0 r q) = q_ctrl q"
  by (simp add: nvmet_req_complete_def Let_def split: prod.splits)

lemma on_queue_queues:
  "t_queues (on_queue qa h t) = (t_queues t)(qa := (t_queues t qa)
     \<lparr>tq_sq := q_sq (h \<lparr>q_sq = tq_sq (t_queues t qa), q_ctrl = Option.bind (tq_ctrl (t_queues t qa)) (ctrl_at t),
         q_out = tq_out (t_queues t qa), q_ns_refs = tq_ns_refs (t_queues t qa)\<rparr>),
      tq_out := q_out (h \<lparr>q_sq = tq_sq (t_queues t qa), q_ctrl = Option.bind (tq_ctrl (t_queues t qa)) (ctrl_at t),
         q_out = tq_out (t_queues t qa), q_ns_refs = tq_ns_refs (t_queues t qa)\<rparr>),
      tq_ns_refs := q_ns_refs (h \<lparr>q_sq = tq_sq (t_queues t qa), q_ctrl = Option.bind (tq_ctrl (t_queues t qa)) (ctrl_at t),
         q_out = tq_out (t_queues t qa), q_ns_refs = tq_ns_refs (t_queues t qa)\<rparr>)\<rparr>)"
  by (simp add: on_queue_def Let_def upd_tq_def upd_ctrl_at_def upd_subsys_def split: option.splits)

lemma on_queue_cntlids [simp]: "t_cntlids (on_queue qa h t) = t_cntlids t"
  by (simp add: on_queue_def Let_def split: option.splits)

lemma on_queue_ctrl [simp]: "tq_ctrl (t_queues (on_queue qa h t) qb) = tq_ctrl (t_queues t qb)"
  by (simp add: on_queue_queues)

lemma on_queue_free:
  "tq_ctrl (t_queues t qa) = None \<Longrightarrow> t_subsys (on_queue qa h t) = t_subsys t"
  by (simp add: on_queue_def Let_def)

lemma upd_first_self: "find P l = Some c \<Longrightarrow> upd_first P (\<lambda>_. c) l = l"
  by (induction l) (auto split: if_splits)

lemma on_queue_complete_ok: "t_subsys (on_queue qa (nvmet_req_complete 0 r) t) = t_subsys t"
proof -
  have "t_subsys (upd_ctrl_at p (\<lambda>_. c) s) = t_subsys s" if c: "ctrl_at s p = Some c" for p c s
  proof -
    obtain y where y: "t_subsys s (fst p) = Some y" "find (\<lambda>c. n_cntlid c = snd p) (y_ctrls y) = Some c"
      using c unfolding ctrl_at_def by (cases "t_subsys s (fst p)") auto
    then show ?thesis by (auto simp: upd_ctrl_at_def upd_first_self fun_eq_iff)
  qed
  then show ?thesis
    by (simp add: on_queue_def Let_def complete_ok_ctrl split: option.splits)
qed

text \<open>A status the host sees: the completion has room for 15 bits of it.\<close>

definition error_status :: "u16 \<Rightarrow> bool" where
  "error_status st \<longleftrightarrow> st \<noteq> 0 \<and> st < 0x8000"

definition install_answer :: "u16 option \<Rightarrow> bool" where
  "install_answer instq \<longleftrightarrow> (case instq of None \<Rightarrow> True | Some st \<Rightarrow> st < 0x8000)"

text \<open>What a connect command tells the host: the status and result of its completion.\<close>

definition answered :: "nat \<Rightarrow> u16 \<Rightarrow> u64 \<Rightarrow> target \<Rightarrow> target \<Rightarrow> bool" where
  "answered qa st v t t' \<longleftrightarrow>
     (\<exists>cqe. tq_out (t_queues t' qa) = tq_out (t_queues t qa) @ [cqe] \<and> q_result cqe = v \<and> q_status cqe = push_bit 1 st)"

lemma answered_complete:
  assumes "r_status r = 0" and o: "tq_out (t_queues t qa) = tq_out (t_queues t0 qa)"
    and n: "tq_ctrl (t_queues t qa) = None \<or> st = 0"
  shows "answered qa st (r_result r) t0 (on_queue qa (nvmet_req_complete st r) t)"
proof -
  let ?q = "\<lparr>q_sq = tq_sq (t_queues t qa), q_ctrl = Option.bind (tq_ctrl (t_queues t qa)) (ctrl_at t),
         q_out = tq_out (t_queues t qa), q_ns_refs = tq_ns_refs (t_queues t qa)\<rparr>"
  have "q_ctrl ?q = None \<or> st = 0" using n by auto
  from complete_cqe [OF this, of r] assms(1) obtain cqe where
    "q_out (nvmet_req_complete st r ?q) = q_out ?q @ [cqe]" "q_result cqe = r_result r" "q_status cqe = push_bit 1 st"
    by (auto split: if_splits)
  then show ?thesis by (simp add: answered_def on_queue_queues o)
qed

definition with_queue :: "nvmet_req \<Rightarrow> nat \<Rightarrow> nvmet_ctrl \<Rightarrow> nvmet_ctrl" where
  "with_queue r qa c =
     (if tc_sqsize (r_cmd r) = 0 then c
      else c\<lparr>n_cqs := (n_cqs c)(unat (tc_qid (r_cmd r)) \<mapsto> tc_sqsize (r_cmd r) + 1),
             n_sqs := (n_sqs c)(unat (tc_qid (r_cmd r)) \<mapsto> qa)\<rparr>)"

lemma with_queue_simps [simp]:
  "n_cntlid (with_queue r qa c) = n_cntlid c" "n_ref (with_queue r qa c) = n_ref c"
  "n_hostnqn (with_queue r qa c) = n_hostnqn c" "n_hostid (with_queue r qa c) = n_hostid c"
  "n_csts (with_queue r qa c) = n_csts c" "n_cc (with_queue r qa c) = n_cc c"
  "n_ka_due (with_queue r qa c) = n_ka_due c" "n_kato (with_queue r qa c) = n_kato c"
  "n_cmd_seen (with_queue r qa c) = n_cmd_seen c"
  by (simp_all add: with_queue_def)

lemma upd_first_twice:
  "(\<And>x. n_cntlid (g x) = n_cntlid x) \<Longrightarrow>
   upd_first (\<lambda>c. n_cntlid c = i) f (upd_first (\<lambda>c. n_cntlid c = i) g l) =
   upd_first (\<lambda>c. n_cntlid c = i) (\<lambda>c. f (g c)) l"
  by (induction l) auto

lemma upd_first_id: "upd_first P (\<lambda>c. c) l = l"
  by (induction l) auto

lemma install_queue_free:
  assumes free: "tq_ctrl (t_queues t qa) = None"
    and g: "nvmet_install_queue instq p qa r t = (st, r', t')"
  shows "t_subsys t' = t_subsys (upd_ctrl_at p (with_queue r qa) t)" (is ?A)
    and "t_cntlids t' = t_cntlids t" (is ?B)
    and "tq_ctrl (t_queues t' qa) = (if st = 0 then Some p else None)" (is ?C)
    and "tq_out (t_queues t' qa) = tq_out (t_queues t qa)" (is ?D)
    and "r_result r' = r_result r" (is ?E) and "r_status r' = r_status r" (is ?F)
    and "st = 0 \<longleftrightarrow> tc_sqsize (r_cmd r) \<noteq> 0 \<and> (instq = None \<or> instq = Some 0)" (is ?G)
    and "install_answer instq \<Longrightarrow> st \<noteq> 0 \<Longrightarrow> error_status st" (is "_ \<Longrightarrow> _ \<Longrightarrow> ?H")
proof -
  have id0: "t_subsys (upd_ctrl_at p (with_queue r qa) t) = t_subsys t" if "tc_sqsize (r_cmd r) = 0" for r :: nvmet_req
  proof -
    have w: "with_queue r qa = (\<lambda>c. c)" using that by (simp add: with_queue_def fun_eq_iff)
    show ?thesis unfolding w by (cases "t_subsys t (fst p)") (auto simp: upd_ctrl_at_def upd_first_id fun_eq_iff)
  qed
  have tw: "t_subsys (upd_ctrl_at p (\<lambda>c. c\<lparr>n_sqs := (n_sqs c)(unat (tc_qid (r_cmd r)) \<mapsto> qa)\<rparr>)
      (upd_tq qa h (upd_ctrl_at p (\<lambda>c. c\<lparr>n_cqs := (n_cqs c)(unat (tc_qid (r_cmd r)) \<mapsto> tc_sqsize (r_cmd r) + 1)\<rparr>)
        (upd_tq qa h' t)))) = t_subsys (upd_ctrl_at p (with_queue r qa) t)" if "tc_sqsize (r_cmd r) \<noteq> 0" for h h' and r :: nvmet_req
  proof -
    have w: "with_queue r qa = (\<lambda>c. c\<lparr>n_cqs := (n_cqs c)(unat (tc_qid (r_cmd r)) \<mapsto> tc_sqsize (r_cmd r) + 1),
             n_sqs := (n_sqs c)(unat (tc_qid (r_cmd r)) \<mapsto> qa)\<rparr>)"
      using that by (simp add: with_queue_def fun_eq_iff)
    show ?thesis unfolding w by (simp add: upd_ctrl_at_def upd_first_twice fun_eq_iff option.map_comp comp_def)
  qed
  have "?A \<and> ?B \<and> ?C \<and> ?D \<and> ?E \<and> ?F \<and> ?G"
    using g free
    by (auto simp: nvmet_install_queue_def Let_def id0 tw split: option.splits if_splits)
  then show ?A ?B ?C ?D ?E ?F ?G by blast+
  show ?H if "install_answer instq" "st \<noteq> 0"
    using g free that
    by (auto simp: nvmet_install_queue_def Let_def error_status_def install_answer_def split: option.splits if_splits)
qed

lemma find_get_Some:
  assumes "nvmet_find_get_subsys port nqn t = (Some ya, t1)"
  shows "\<exists>y. t_subsys t ya = Some y \<and> y_ref y \<noteq> 0 \<and> t1 = upd_subsys ya (\<lambda>y. y\<lparr>y_ref := y_ref y + 1\<rparr>) t"
  using assms by (auto simp: nvmet_find_get_subsys_def kref_get_subsys_def split: option.splits if_splits)

lemma find_get_None: "nvmet_find_get_subsys port nqn t = (None, t1) \<Longrightarrow> t1 = t"
  by (auto simp: nvmet_find_get_subsys_def kref_get_subsys_def split: option.splits if_splits)

lemma target_eqI: "t_subsys t = t_subsys t' \<Longrightarrow> t_disc t = t_disc t' \<Longrightarrow> t_cntlids t = t_cntlids t' \<Longrightarrow>
    t_queues t = t_queues t' \<Longrightarrow> t = (t' :: target)"
  by simp

lemma get_put:
  assumes "t_subsys t ya = Some y" "y_ref y \<noteq> 0"
  shows "nvmet_subsys_put ya (upd_subsys ya (\<lambda>y. y\<lparr>y_ref := y_ref y + 1\<rparr>) t) = t"
  by (rule target_eqI) (use assms in \<open>auto simp: nvmet_subsys_put_def fun_eq_iff\<close>)

lemma alloc_ctrl_none: "nvmet_alloc_ctrl e nqn hn port kato r t = (st, None, r', t') \<Longrightarrow>
    t' = t \<and> error_status st \<and> r_status r' = r_status r"
proof -
  assume g: "nvmet_alloc_ctrl e nqn hn port kato r t = (st, None, r', t')"
  obtain fy t1 where f: "nvmet_find_get_subsys port nqn t = (fy, t1)" by fastforce
  show ?thesis
  proof (cases fy)
    case None
    then show ?thesis using g f find_get_None by (auto simp: nvmet_alloc_ctrl_def nvmet_set_result_def error_status_def)
  next
    case (Some ya)
    then obtain y where y: "t_subsys t ya = Some y" "y_ref y \<noteq> 0"
      and t1: "t1 = upd_subsys ya (\<lambda>y. y\<lparr>y_ref := y_ref y + 1\<rparr>) t" using find_get_Some f by blast
    show ?thesis
      using g f Some get_put [OF y]
      by (auto simp: nvmet_alloc_ctrl_def Let_def t1 nvmet_set_result_def error_status_def split: if_splits)
  qed
qed

lemma alloc_ctrl_some:
  assumes g: "nvmet_alloc_ctrl e nqn hn port kato r t = (st, Some p, r', t')"
  shows "\<exists>ya y n. fst (nvmet_find_get_subsys port nqn t) = Some ya \<and> t_subsys t ya = Some y \<and> y_ref y \<noteq> 0 \<and>
    nvmet_host_allowed y hn \<and> ae_ctrl e \<and> ae_changed e \<and> ae_cqs e \<and> ae_sqs e \<and>
    n \<notin> t_cntlids t \<and> 1 \<le> n \<and> n < 65536 \<and> p = (ya, of_nat n) \<and> r' = r \<and>
    t_subsys t' = (t_subsys t)(ya \<mapsto> y\<lparr>y_ref := y_ref y + 1,
      y_ctrls := y_ctrls y @ [make_ctrl e (y_type y) nqn hn kato (of_nat n)]\<rparr>) \<and>
    t_cntlids t' = insert n (t_cntlids t) \<and> t_queues t' = t_queues t"
proof -
  obtain fy t1 where f: "nvmet_find_get_subsys port nqn t = (fy, t1)" by fastforce
  then obtain ya where ya: "fy = Some ya" using g by (cases fy) (auto simp: nvmet_alloc_ctrl_def)
  then obtain y where y: "t_subsys t ya = Some y" "y_ref y \<noteq> 0"
    and t1: "t1 = upd_subsys ya (\<lambda>y. y\<lparr>y_ref := y_ref y + 1\<rparr>) t" using find_get_Some f by blast
  let ?ret = "ida_simple_get (ae_ida e) (t_cntlids t1)"
  have ok: "nvmet_host_allowed (y\<lparr>y_ref := y_ref y + 1\<rparr>) hn" "ae_ctrl e" "ae_changed e" "ae_cqs e" "ae_sqs e" "0 \<le> ?ret"
    using g f ya y by (auto simp: nvmet_alloc_ctrl_def Let_def t1 not_less split: if_splits)
  note newi = ida_simple_get_free [OF ok(6)]
  have w: "(of_int ?ret :: u16) = of_nat (nat ?ret)" using ok(6) by (simp add: of_nat_nat)
  have "p = (ya, of_nat (nat ?ret)) \<and> r' = r \<and> t' = upd_subsys ya (\<lambda>z. z\<lparr>y_ctrls := y_ctrls z @
      [make_ctrl e (y_type y) nqn hn kato (of_nat (nat ?ret))]\<rparr>) (t1\<lparr>t_cntlids := insert (nat ?ret) (t_cntlids t1)\<rparr>)"
    using g f ya y ok unfolding nvmet_alloc_ctrl_def w [symmetric]
    by (auto simp: Let_def t1)
  with newi ok y f ya show ?thesis
    by (intro exI [of _ ya] exI [of _ y] exI [of _ "nat ?ret"])
      (auto simp: t1 nvmet_host_allowed_def fun_eq_iff)
qed

text \<open>Giving back a controller that was just added.\<close>

lemma find_new_last: "\<forall>x \<in> set l. \<not> P x \<Longrightarrow> find P (l @ [c]) = (if P c then Some c else None)"
  by (induction l) simp_all

lemma upd_first_snoc: "\<forall>x \<in> set l. \<not> P x \<Longrightarrow> upd_first P f (l @ [c]) = l @ [if P c then f c else c]"
  by (induction l) simp_all

lemma put_new_ctrl:
  assumes s: "t_subsys s ya = Some (y\<lparr>y_ref := y_ref y + 1, y_ctrls := y_ctrls y @ [c]\<rparr>)"
    and c: "n_cntlid c = i" "n_ref c = 1" and y: "y_ref y \<noteq> 0" "\<forall>c \<in> set (y_ctrls y). n_cntlid c \<noteq> i"
  shows "t_subsys (nvmet_ctrl_put (ya, i) s) = (t_subsys s)(ya \<mapsto> y)"
    and "t_cntlids (nvmet_ctrl_put (ya, i) s) = t_cntlids s - {unat i}"
    and "t_queues (nvmet_ctrl_put (ya, i) s) = t_queues s"
proof -
  have ca: "ctrl_at s (ya, i) = Some c"
    using s find_new_last [of "y_ctrls y" "\<lambda>c. n_cntlid c = i" c] y(2) c(1) by (simp add: ctrl_at_def)
  have fl: "filter (\<lambda>c. n_cntlid c \<noteq> i) (y_ctrls y) = y_ctrls y" using y(2) by simp
  have yy: "y\<lparr>y_ref := y_ref y, y_ctrls := y_ctrls y\<rparr> = y" by simp
  show "t_subsys (nvmet_ctrl_put (ya, i) s) = (t_subsys s)(ya \<mapsto> y)"
    and "t_cntlids (nvmet_ctrl_put (ya, i) s) = t_cntlids s - {unat i}"
    and "t_queues (nvmet_ctrl_put (ya, i) s) = t_queues s"
    using ca c y(1) s upd_first_snoc [of "y_ctrls y" "\<lambda>c. n_cntlid c = i"] y(2) fl
    by (auto simp: nvmet_ctrl_put_def nvmet_ctrl_free_def nvmet_subsys_put_def upd_ctrl_at_def Let_def fun_eq_iff)
qed

lemma fresh_number:
  assumes "target_inv xs ys t" "n \<notin> t_cntlids t" "n < 65536" "t_subsys t ya = Some y"
  shows "\<forall>x \<in> set (y_ctrls y). n_cntlid x \<noteq> of_nat n"
proof -
  have ci: "ctrls_inv (ctrl_at t) (conns t) xs (t_cntlids t)" using assms(1) by (simp add: target_inv_def)
  have "ctrl_at t (ya, of_nat n) = None"
    using ctrls_invD(6) [OF ci, of "(ya, of_nat n)"] assms(2,3)
    by (cases "ctrl_at t (ya, of_nat n)") (auto simp: unat_of_nat)
  then show ?thesis using assms(4) by (auto simp: ctrl_at_def find_None_iff)
qed

lemma make_ctrl_hostnqn: "n_hostnqn (make_ctrl e ty nqn hn kato i) = take NVMF_NQN_SIZE hn"
  by (simp add: make_ctrl_def nvmet_start_keep_alive_timer_def ka_mod_work_def Let_def)

lemma set_result_u16_low: "ucast (r_result (set_result_u16 v r)) = v"
proof -
  have m: "(0xffff :: u64) = mask 16" by (simp add: mask_eq_exp_minus_1)
  have "r_result (set_result_u16 v r) = (r_result r AND NOT 0xffff) OR ucast v"
    by (simp add: set_result_u16_def)
  then show ?thesis unfolding m by (intro bit_word_eqI) (auto simp: bit_simps simp del: mask_numeral)
qed

lemma upd_new_ctrl:
  assumes "t_subsys s ya = Some (y\<lparr>y_ref := k, y_ctrls := y_ctrls y @ [c]\<rparr>)" "n_cntlid c = i"
    and "\<forall>c \<in> set (y_ctrls y). n_cntlid c \<noteq> i"
  shows "t_subsys (upd_ctrl_at (ya, i) f s) = (t_subsys s)(ya \<mapsto> y\<lparr>y_ref := k, y_ctrls := y_ctrls y @ [f c]\<rparr>)"
  using assms upd_first_snoc [of "y_ctrls y" "\<lambda>c. n_cntlid c = i" f c] by (simp add: upd_ctrl_at_def fun_eq_iff)

section \<open>The admin queue\<close>

text \<open>The two outcomes of an admin connect.\<close>

definition admin_rejected :: "nat \<Rightarrow> target \<Rightarrow> target \<Rightarrow> bool" where
  "admin_rejected qa t t' \<longleftrightarrow> (\<exists>st v. error_status st \<and> tq_ctrl (t_queues t' qa) = None \<and>
     t_subsys t' = t_subsys t \<and> t_cntlids t' = t_cntlids t \<and> answered qa st v t t')"

definition admin_admitted :: "nvmet_port option \<Rightarrow> nvmet_req \<Rightarrow> nat \<Rightarrow> target \<Rightarrow> target \<Rightarrow> bool" where
  "admin_admitted port r qa t t' \<longleftrightarrow> (let d = take SIZEOF_CONNECT_DATA (r_sg r) in
    (\<exists>ya y n c. fst (nvmet_find_get_subsys port (d_subsysnqn d) t) = Some ya \<and> t_subsys t ya = Some y \<and>
       nvmet_host_allowed y (d_hostnqn d) \<and> n \<notin> t_cntlids t \<and> 1 \<le> n \<and> n < 65536 \<and>
       tq_ctrl (t_queues t' qa) = Some (ya, of_nat n) \<and>
       t_subsys t' = (t_subsys t)(ya \<mapsto> y\<lparr>y_ref := y_ref y + 1, y_ctrls := y_ctrls y @ [c]\<rparr>) \<and>
       t_cntlids t' = insert n (t_cntlids t) \<and> n_cntlid c = of_nat n \<and> n_ref c = 1 \<and>
       n_hostnqn c = take NVMF_NQN_SIZE (d_hostnqn d) \<and> n_hostid c = d_hostid d \<and>
       n_sqs c (unat (tc_qid (r_cmd r))) = Some qa \<and>
       (\<exists>v. answered qa 0 v t t' \<and> (ucast v :: u16) = of_nat n)))"

lemma admin_rejectedI:
  assumes "error_status st" "r_status r = 0" "tq_ctrl (t_queues s qa) = None"
    "t_subsys s = t_subsys t" "t_cntlids s = t_cntlids t" "tq_out (t_queues s qa) = tq_out (t_queues t qa)"
  shows "admin_rejected qa t (on_queue qa (nvmet_req_complete st r) s)"
  unfolding admin_rejected_def using assms answered_complete [of r s qa t st] by (auto simp: on_queue_free)

text \<open>A new controller gets its queue, or is given back.\<close>

lemma admin_connect_found:
  assumes inv: "target_inv (\<lambda>_. 0) (\<lambda>_. 0) t" and free: "tq_ctrl (t_queues t qa) = None" and ia: "install_answer instq"
    and r: "r_status r2 = 0" "r_cmd r2 = r_cmd r" and d: "d = take SIZEOF_CONNECT_DATA (r_sg r)"
    and al: "nvmet_alloc_ctrl e (d_subsysnqn d) (d_hostnqn d) port kato r2 t = (st2, Some p, r3, t2)"
    and iq: "nvmet_install_queue instq p qa r3 (upd_ctrl_at p (\<lambda>c. c\<lparr>n_hostid := d_hostid d\<rparr>) t2) = (st4, r4, t4)"
  shows "st4 \<noteq> 0 \<Longrightarrow> admin_rejected qa t (on_queue qa (nvmet_req_complete st4 r4) (nvmet_ctrl_put p t4))"
    and "st4 = 0 \<Longrightarrow> t' = on_queue qa (nvmet_req_complete 0 (set_result_u16 (snd p) r4)) t4 \<Longrightarrow>
      admin_admitted port r qa t t'"
proof -
  obtain ya y n where A: "fst (nvmet_find_get_subsys port (d_subsysnqn d) t) = Some ya" "t_subsys t ya = Some y"
    "y_ref y \<noteq> 0" "nvmet_host_allowed y (d_hostnqn d)" "n \<notin> t_cntlids t" "1 \<le> n" "n < 65536"
    "p = (ya, of_nat n)" "r3 = r2"
    "t_subsys t2 = (t_subsys t)(ya \<mapsto> y\<lparr>y_ref := y_ref y + 1, y_ctrls := y_ctrls y @
       [make_ctrl e (y_type y) (d_subsysnqn d) (d_hostnqn d) kato (of_nat n)]\<rparr>)"
    "t_cntlids t2 = insert n (t_cntlids t)" "t_queues t2 = t_queues t"
    using alloc_ctrl_some [OF al] by blast
  let ?c = "make_ctrl e (y_type y) (d_subsysnqn d) (d_hostnqn d) kato (of_nat n)"
  let ?c4 = "with_queue r3 qa (?c\<lparr>n_hostid := d_hostid d\<rparr>)"
  let ?y4 = "y\<lparr>y_ref := y_ref y + 1, y_ctrls := y_ctrls y @ [?c4]\<rparr>"
  have fresh: "\<forall>x \<in> set (y_ctrls y). n_cntlid x \<noteq> of_nat n" by (rule fresh_number [OF inv A(5,7,2)])
  define t3 where "t3 = upd_ctrl_at p (\<lambda>c. c\<lparr>n_hostid := d_hostid d\<rparr>) t2"
  have t3: "t_subsys t3 = (t_subsys t)(ya \<mapsto> y\<lparr>y_ref := y_ref y + 1, y_ctrls := y_ctrls y @ [?c\<lparr>n_hostid := d_hostid d\<rparr>]\<rparr>)"
    unfolding t3_def A(8)
    using upd_new_ctrl [where s = t2 and f = "\<lambda>c. c\<lparr>n_hostid := d_hostid d\<rparr>"] fresh A(10)
    by (simp add: make_ctrl_ids)
  have free3: "tq_ctrl (t_queues t3 qa) = None" using free A(12) by (simp add: t3_def)
  note I = install_queue_free [OF free3 iq [folded t3_def]]
  have t4: "t_subsys t4 = (t_subsys t)(ya \<mapsto> ?y4)"
    unfolding I(1) A(8)
    using upd_new_ctrl [where s = t3 and f = "with_queue r3 qa"] fresh t3 by (simp add: make_ctrl_ids)
  have ids: "n_cntlid ?c4 = of_nat n" "n_ref ?c4 = 1" by (simp_all add: make_ctrl_ids)
  have out4: "tq_out (t_queues t4 qa) = tq_out (t_queues t qa)" "t_cntlids t4 = insert n (t_cntlids t)"
    using I(2,4) A(11,12) by (simp_all add: t3_def)
  have st4: "r_status r4 = 0" using I(6) A(9) r by simp
  show "admin_rejected qa t (on_queue qa (nvmet_req_complete st4 r4) (nvmet_ctrl_put p t4))" if "st4 \<noteq> 0"
  proof -
    have p4: "t_subsys t4 ya = Some ?y4" using t4 by simp
    note P = put_new_ctrl [OF p4 ids A(3) fresh]
    have "t_subsys (nvmet_ctrl_put p t4) = t_subsys t" using P(1) t4 A(2,8) by (auto simp: fun_eq_iff)
    moreover have "t_cntlids (nvmet_ctrl_put p t4) = t_cntlids t"
      using P(2) A(5,7,8) out4(2) by (simp add: unat_of_nat)
    ultimately show ?thesis
      using I(8) [OF ia that] st4 I(3) P(3) A(8) out4(1) that by (intro admin_rejectedI) simp_all
  qed
  assume ok: "st4 = 0" and t': "t' = on_queue qa (nvmet_req_complete 0 (set_result_u16 (snd p) r4)) t4"
  have ans: "answered qa 0 (r_result (set_result_u16 (snd p) r4)) t t'"
    unfolding t' by (rule answered_complete) (use st4 out4 in \<open>simp_all add: set_result_u16_def\<close>)
  have low: "(ucast (r_result (set_result_u16 (snd p) r4)) :: u16) = of_nat n"
    using A(8) by (simp add: set_result_u16_low)
  have s4: "t_subsys t' = t_subsys t4" "t_cntlids t' = insert n (t_cntlids t)" "tq_ctrl (t_queues t' qa) = Some (ya, of_nat n)"
    using I(3) ok out4 A(8) by (simp_all add: t' on_queue_complete_ok)
  have hn: "n_hostnqn ?c4 = take NVMF_NQN_SIZE (d_hostnqn d)" "n_hostid ?c4 = d_hostid d"
    by (simp_all add: make_ctrl_hostnqn)
  have sq: "n_sqs ?c4 (unat (tc_qid (r_cmd r))) = Some qa"
    using I(7) ok A(9) r by (simp add: with_queue_def)
  show "admin_admitted port r qa t t'"
    unfolding admin_admitted_def Let_def d [symmetric]
    by (intro exI [of _ ya] exI [of _ y] exI [of _ n] exI [of _ ?c4] conjI A(1,2,4-7) s4(2,3)
        trans [OF s4(1) t4] ids hn sq exI [of _ "r_result (set_result_u16 (snd p) r4)"] ans low)
qed

lemma admin_connect_cases:
  assumes inv: "target_inv (\<lambda>_. 0) (\<lambda>_. 0) t" and free: "tq_ctrl (t_queues t qa) = None" and r: "r_status r = 0"
    and ia: "install_answer instq" and t': "t' = nvmet_execute_admin_connect alloc e instq port qa r t"
  shows "admin_admitted port r qa t t' \<or> admin_rejected qa t t'"
proof -
  define d where "d = take SIZEOF_CONNECT_DATA (r_sg r)"
  obtain st d1 r1 where cp: "nvmet_copy_from_sgl 0 SIZEOF_CONNECT_DATA r = (st, d1, r1)" by (metis prod_cases3)
  have d1: "d1 = d" "r_status r1 = 0" "r_cmd r1 = r_cmd r" "st \<noteq> 0 \<Longrightarrow> error_status st"
    using cp r by (auto simp: nvmet_copy_from_sgl_def d_def Let_def error_status_def split: if_splits)
  let ?r2 = "nvmet_set_result 0 r1"
  have r2: "r_status ?r2 = 0" "r_cmd ?r2 = r_cmd r" using d1 by (simp_all add: nvmet_set_result_def)
  obtain st2 found r3 t2 where al: "nvmet_alloc_ctrl e (d_subsysnqn d) (d_hostnqn d) port (tc_kato (r_cmd r)) ?r2 t =
      (st2, found, r3, t2)" by (metis prod_cases4)
  consider "\<not> alloc \<or> st \<noteq> 0 \<or> tc_recfmt (r_cmd r) \<noteq> 0 \<or> d_cntlid d \<noteq> 0xffff"
    | "alloc" "st = 0" "tc_recfmt (r_cmd r) = 0" "d_cntlid d = 0xffff" by blast
  then show ?thesis
  proof cases
    case 1
    then have "admin_rejected qa t t'"
      using r d1 free unfolding t' nvmet_execute_admin_connect_def cp
      by (auto simp: Let_def nvmet_set_result_def intro!: admin_rejectedI) (auto simp: error_status_def)
    then show ?thesis ..
  next
    case 2
    show ?thesis
    proof (cases found)
      case None
      note A = alloc_ctrl_none [OF al [unfolded None]]
      have "t' = on_queue qa (nvmet_req_complete st2
          (if st2 = NVME_SC_INVALID_FIELD OR NVME_SC_DNR then r3\<lparr>r_error_loc := OFF_OPCODE\<rparr> else r3)) t"
        using 2 A r2 al None unfolding t' nvmet_execute_admin_connect_def cp by (simp add: Let_def d1)
      then have "admin_rejected qa t t'" using A r2 free by (auto intro!: admin_rejectedI)
      then show ?thesis ..
    next
      case (Some p)
      obtain st4 r4 t4 where iq: "nvmet_install_queue instq p qa r3 (upd_ctrl_at p (\<lambda>c. c\<lparr>n_hostid := d_hostid d\<rparr>) t2) =
          (st4, r4, t4)" by (metis prod_cases3)
      have "t' = (if st4 \<noteq> 0 then on_queue qa (nvmet_req_complete st4 r4) (nvmet_ctrl_put p t4)
          else on_queue qa (nvmet_req_complete 0 (set_result_u16 (snd p) r4)) t4)"
        using 2 al Some iq d1 r2 unfolding t' nvmet_execute_admin_connect_def cp by (simp add: Let_def)
      with admin_connect_found [OF inv free ia r2 d_def al [unfolded Some] iq] show ?thesis
        by (cases "st4 = 0") auto
    qed
  qed
qed

text \<open>C21. Connecting an admin queue is all or nothing. Accepted: the port offers the subsystem named in the
data, the subsystem admits the host named there, and the queue is connected to a new controller with a number
nobody had, the host's name and identifier, known by its queue, and the number is the result. Rejected, for
whatever reason: an error is reported, and subsystems, controllers and numbers are exactly as before.\<close>

theorem admin_connect_all_or_nothing:
  assumes inv: "target_inv (\<lambda>_. 0) (\<lambda>_. 0) t" and free: "tq_ctrl (t_queues t qa) = None" and r: "r_status r = 0"
    and ia: "install_answer instq"
  shows "let t' = nvmet_execute_admin_connect alloc e instq port qa r t; d = take SIZEOF_CONNECT_DATA (r_sg r) in
    (\<exists>ya y n c. fst (nvmet_find_get_subsys port (d_subsysnqn d) t) = Some ya \<and> t_subsys t ya = Some y \<and>
       nvmet_host_allowed y (d_hostnqn d) \<and> n \<notin> t_cntlids t \<and> 1 \<le> n \<and> n < 65536 \<and>
       tq_ctrl (t_queues t' qa) = Some (ya, of_nat n) \<and>
       t_subsys t' = (t_subsys t)(ya \<mapsto> y\<lparr>y_ref := y_ref y + 1, y_ctrls := y_ctrls y @ [c]\<rparr>) \<and>
       t_cntlids t' = insert n (t_cntlids t) \<and> n_cntlid c = of_nat n \<and> n_ref c = 1 \<and>
       n_hostnqn c = take NVMF_NQN_SIZE (d_hostnqn d) \<and> n_hostid c = d_hostid d \<and>
       n_sqs c (unat (tc_qid (r_cmd r))) = Some qa \<and>
       (\<exists>v. answered qa 0 v t t' \<and> (ucast v :: u16) = of_nat n)) \<or>
    (\<exists>st v. error_status st \<and> tq_ctrl (t_queues t' qa) = None \<and> t_subsys t' = t_subsys t \<and>
       t_cntlids t' = t_cntlids t \<and> answered qa st v t t')"
  using admin_connect_cases [OF assms HOL.refl, where alloc = alloc and e = e and port = port]
  unfolding admin_admitted_def admin_rejected_def Let_def .

section \<open>The I/O queues\<close>

lemma find_get_ctrl_none:
  "nvmet_ctrl_find_get nqn hn cid port r t = (st, None, r', t') \<Longrightarrow> t' = t \<and> error_status st \<and> r_status r' = r_status r"
proof -
  assume g: "nvmet_ctrl_find_get nqn hn cid port r t = (st, None, r', t')"
  obtain fy t1 where f: "nvmet_find_get_subsys port nqn t = (fy, t1)" by fastforce
  show ?thesis
  proof (cases fy)
    case None
    then show ?thesis using g f find_get_None by (auto simp: nvmet_ctrl_find_get_def nvmet_set_result_def error_status_def)
  next
    case (Some ya)
    then obtain y where y: "t_subsys t ya = Some y" "y_ref y \<noteq> 0"
      and t1: "t1 = upd_subsys ya (\<lambda>y. y\<lparr>y_ref := y_ref y + 1\<rparr>) t" using find_get_Some f by blast
    show ?thesis
      using g f Some get_put [OF y]
      by (auto simp: nvmet_ctrl_find_get_def Let_def t1 nvmet_set_result_def error_status_def split: option.splits)
  qed
qed

lemma upd_ctrl_put:
  assumes "t_subsys t ya = Some y" "y_ref y \<noteq> 0"
  shows "nvmet_subsys_put ya (upd_ctrl_at (ya, i) f (upd_subsys ya (\<lambda>y. y\<lparr>y_ref := y_ref y + 1\<rparr>) t)) = upd_ctrl_at (ya, i) f t"
  by (rule target_eqI) (use assms in \<open>auto simp: nvmet_subsys_put_def upd_ctrl_at_def fun_eq_iff\<close>)

lemma find_distinct:
  "distinct (map n_cntlid l) \<Longrightarrow> c \<in> set l \<Longrightarrow> n_cntlid c = i \<Longrightarrow> find (\<lambda>c. n_cntlid c = i) l = Some c"
  by (induction l) auto

lemma find_get_ctrl_some:
  assumes inv: "target_inv xs ys t" and g: "nvmet_ctrl_find_get nqn hn cid port r t = (st, Some p, r', t')"
  shows "\<exists>ya y c. p = (ya, cid) \<and> fst (nvmet_find_get_subsys port nqn t) = Some ya \<and> t_subsys t ya = Some y \<and>
    ctrl_at t p = Some c \<and> take NVMF_NQN_SIZE (n_hostnqn c) = take NVMF_NQN_SIZE hn \<and> r' = r \<and>
    t' = upd_ctrl_at p (\<lambda>c. c\<lparr>n_ref := n_ref c + 1\<rparr>) t"
proof -
  obtain fy t1 where f: "nvmet_find_get_subsys port nqn t = (fy, t1)" by fastforce
  then obtain ya where ya: "fy = Some ya" using g by (cases fy) (auto simp: nvmet_ctrl_find_get_def)
  then obtain y where y: "t_subsys t ya = Some y" "y_ref y \<noteq> 0"
    and t1: "t1 = upd_subsys ya (\<lambda>y. y\<lparr>y_ref := y_ref y + 1\<rparr>) t" using find_get_Some f by blast
  let ?P = "\<lambda>c. n_cntlid c = cid \<and> take NVMF_NQN_SIZE hn = take NVMF_NQN_SIZE (n_hostnqn c) \<and> n_ref c \<noteq> 0"
  obtain c where c: "find ?P (y_ctrls y) = Some c" and eq: "p = (ya, cid)" "r' = r"
      "t' = upd_ctrl_at p (\<lambda>c. c\<lparr>n_ref := n_ref c + 1\<rparr>) t"
    using g f ya y upd_ctrl_put [OF y]
    by (auto simp: nvmet_ctrl_find_get_def Let_def t1 split: option.splits)
  have "c \<in> set (y_ctrls y)" "?P c" using c by (auto simp: find_Some_iff in_set_conv_nth)
  moreover have "distinct (map n_cntlid (y_ctrls y))"
    using inv y(1) subs_invD(1) unfolding target_inv_def by blast
  ultimately have "find (\<lambda>c. n_cntlid c = cid) (y_ctrls y) = Some c"
    using find_distinct by blast
  then show ?thesis using eq y f ya \<open>?P c\<close> by (auto simp: ctrl_at_def)
qed

lemma ctrl_at_cong: "t_subsys t = t_subsys t' \<Longrightarrow> ctrl_at t = ctrl_at t'"
  by (simp add: ctrl_at_def fun_eq_iff)

lemma put_shared:
  assumes "ctrl_at t p = Some c" "1 < n_ref c"
  shows "nvmet_ctrl_put p t = upd_ctrl_at p (\<lambda>c. c\<lparr>n_ref := n_ref c - 1\<rparr>) t"
  using assms by (simp add: nvmet_ctrl_put_def)

text \<open>Giving back the reference a look-up took: what was done to the controller meanwhile stays.\<close>

lemma look_up_put:
  assumes c: "ctrl_at t p = Some c" "n_ref c \<noteq> 0"
    and s: "t_subsys s = t_subsys (upd_ctrl_at p (\<lambda>c. f (c\<lparr>n_ref := n_ref c + 1\<rparr>)) t)"
    and f: "\<And>c k. f (c\<lparr>n_ref := k\<rparr>) = (f c)\<lparr>n_ref := k\<rparr>" "\<And>c. n_cntlid (f c) = n_cntlid c" "\<And>c. n_ref (f c) = n_ref c"
  shows "ctrl_at (nvmet_ctrl_put p s) = (ctrl_at t)(p \<mapsto> f c)"
    and "t_queues (nvmet_ctrl_put p s) = t_queues s"
proof -
  have ca: "ctrl_at s q = (if p = q then map_option (\<lambda>c. f (c\<lparr>n_ref := n_ref c + 1\<rparr>)) (ctrl_at t p) else ctrl_at t q)" for q
    unfolding ctrl_at_cong [OF s] by (subst ctrl_at_upd_ctrl) (simp_all add: f)
  have put: "nvmet_ctrl_put p s = upd_ctrl_at p (\<lambda>c. c\<lparr>n_ref := n_ref c - 1\<rparr>) s"
    by (rule put_shared [of _ _ "f (c\<lparr>n_ref := n_ref c + 1\<rparr>)"]) (use c ca [of p] in \<open>simp_all add: f\<close>)
  have "(f c)\<lparr>n_ref := n_ref c\<rparr> = f c" using f(1) [where c = c and k = "n_ref c"] by simp
  then show "ctrl_at (nvmet_ctrl_put p s) = (ctrl_at t)(p \<mapsto> f c)"
    unfolding put by (intro ext, subst ctrl_at_upd_ctrl) (use ca c in \<open>auto simp: f\<close>)
  show "t_queues (nvmet_ctrl_put p s) = t_queues s" by (simp add: put)
qed

lemma with_queue_ref: "with_queue r qa (c\<lparr>n_ref := k\<rparr>) = (with_queue r qa c)\<lparr>n_ref := k\<rparr>"
  by (simp add: with_queue_def)

lemma with_queue_cong: "r_cmd r = r_cmd r' \<Longrightarrow> with_queue r qa = with_queue r' qa"
  by (rule ext) (simp add: with_queue_def)

lemma upd_ctrl_fuse:
  "(\<And>c. n_cntlid (g c) = n_cntlid c) \<Longrightarrow> upd_ctrl_at p f (upd_ctrl_at p g t) = upd_ctrl_at p (\<lambda>c. f (g c)) t"
  by (rule target_eqI)
    (simp_all add: upd_ctrl_at_def upd_first_twice fun_eq_iff option.map_comp comp_def)

text \<open>An error is reported, the queue joins no controller, and the controllers are as in \<open>m\<close>.\<close>

definition refused :: "nat \<Rightarrow> target \<Rightarrow> (nat \<times> u16 \<Rightarrow> nvmet_ctrl option) \<Rightarrow> target \<Rightarrow> bool" where
  "refused qa t m t' \<longleftrightarrow>
     (\<exists>st v. error_status st \<and> answered qa st v t t') \<and> tq_ctrl (t_queues t' qa) = None \<and> ctrl_at t' = m"

lemma refusedI:
  assumes "error_status st" "r_status r = 0" "tq_ctrl (t_queues s qa) = None" "ctrl_at s = m"
    "tq_out (t_queues s qa) = tq_out (t_queues t qa)"
  shows "refused qa t m (on_queue qa (nvmet_req_complete st r) s)"
  unfolding refused_def
  using assms answered_complete [of r s qa t st] ctrl_at_cong [OF on_queue_free [OF assms(3)]]
  by (auto simp del: not_Some_eq)

lemma io_connect_found:
  assumes inv: "target_inv (\<lambda>_. 0) (\<lambda>_. 0) t" and free: "tq_ctrl (t_queues t qa) = None"
    and ia: "install_answer instq" and c: "ctrl_at t p = Some c" and y: "t_subsys t (fst p) = Some y" and r: "r_status r = 0"
    and t2: "t2 = upd_ctrl_at p (\<lambda>c. c\<lparr>n_ref := n_ref c + 1\<rparr>) t"
    and iq: "nvmet_install_queue instq p qa r t2 = (st, r', t3)"
  shows "st \<noteq> 0 \<Longrightarrow> r'' = set_result_u16 i r' \<Longrightarrow>
      refused qa t ((ctrl_at t)(p \<mapsto> with_queue r qa c)) (on_queue qa (nvmet_req_complete st r'') (nvmet_ctrl_put p t3))"
    and "r'' = nvmet_set_result v r \<Longrightarrow> error_status st' \<Longrightarrow>
      refused qa t (ctrl_at t) (on_queue qa (nvmet_req_complete st' r'') (nvmet_ctrl_put p t2))"
    and "st = 0 \<longleftrightarrow> tc_sqsize (r_cmd r) \<noteq> 0 \<and> (instq = None \<or> instq = Some 0)"
    and "st = 0 \<Longrightarrow> t' = on_queue qa (nvmet_req_complete 0 r') t3 \<Longrightarrow>
      tq_ctrl (t_queues t' qa) = Some p \<and> ctrl_at t' = (ctrl_at t)(p \<mapsto> with_queue r qa (c\<lparr>n_ref := n_ref c + 1\<rparr>)) \<and>
      answered qa 0 (r_result r') t t'"
proof -
  have free2: "tq_ctrl (t_queues t2 qa) = None" using free by (simp add: t2)
  note I = install_queue_free [OF free2 iq]
  have ref: "n_ref c \<noteq> 0" using inv c ctrls_invD(5) unfolding target_inv_def by blast
  have s3: "t_subsys t3 = t_subsys (upd_ctrl_at p (\<lambda>c. with_queue r qa (c\<lparr>n_ref := n_ref c + 1\<rparr>)) t)"
    unfolding I(1) t2 by (subst upd_ctrl_fuse) simp_all
  have s2: "t_subsys t2 = t_subsys (upd_ctrl_at p (\<lambda>c. (\<lambda>c. c) (c\<lparr>n_ref := n_ref c + 1\<rparr>)) t)" by (simp add: t2)
  note P3 = look_up_put [OF c ref s3 with_queue_ref with_queue_simps(1,2)]
  note P2 = look_up_put [OF c ref s2]
  have same: "(ctrl_at t)(p \<mapsto> c) = ctrl_at t" using c by auto
  show "refused qa t ((ctrl_at t)(p \<mapsto> with_queue r qa c)) (on_queue qa (nvmet_req_complete st r'') (nvmet_ctrl_put p t3))"
    if "st \<noteq> 0" "r'' = set_result_u16 i r'"
    by (rule refusedI) (use that r I(1-7) I(8) [OF ia] P3 in \<open>simp_all add: set_result_u16_def t2\<close>)
  show "refused qa t (ctrl_at t) (on_queue qa (nvmet_req_complete st' r'') (nvmet_ctrl_put p t2))"
    if "r'' = nvmet_set_result v r" "error_status st'"
    by (rule refusedI) (use that r free2 P2 same in \<open>simp_all add: nvmet_set_result_def t2\<close>)
  show "st = 0 \<longleftrightarrow> tc_sqsize (r_cmd r) \<noteq> 0 \<and> (instq = None \<or> instq = Some 0)" by (rule I(7))
  assume ok: "st = 0" and t': "t' = on_queue qa (nvmet_req_complete 0 r') t3"
  have "ctrl_at t' = ctrl_at (upd_ctrl_at p (\<lambda>c. with_queue r qa (c\<lparr>n_ref := n_ref c + 1\<rparr>)) t)"
    by (rule ctrl_at_cong) (simp add: t' on_queue_complete_ok s3)
  also have "\<dots> = (ctrl_at t)(p \<mapsto> with_queue r qa (c\<lparr>n_ref := n_ref c + 1\<rparr>))"
    by (rule ext) (simp add: ctrl_at_upd_ctrl c)
  finally have "ctrl_at t' = (ctrl_at t)(p \<mapsto> with_queue r qa (c\<lparr>n_ref := n_ref c + 1\<rparr>))" .
  moreover have "answered qa 0 (r_result r') t t'"
    unfolding t' by (rule answered_complete) (use I(1-7) r in \<open>simp_all add: t2\<close>)
  ultimately show "tq_ctrl (t_queues t' qa) = Some p \<and>
      ctrl_at t' = (ctrl_at t)(p \<mapsto> with_queue r qa (c\<lparr>n_ref := n_ref c + 1\<rparr>)) \<and>
      answered qa 0 (r_result r') t t'"
    using I(1-7) ok by (simp add: t')
qed

text \<open>C22. An I/O queue joins only the controller it is entitled to: the port offers the subsystem named in the
data, the controller with the number named there belongs to the host named there, the queue's number is
within the subsystem's limit and its size is not zero. The controller then gains the queue and one reference,
and nothing else changes. In every other case an error is reported, the queue joins no controller, and every
controller is as it was, with one exception: where the transport refuses an otherwise entitled queue, the
entry for the queue's number in that controller's tables of queues stays behind.\<close>

theorem io_connect_checked:
  assumes inv: "target_inv (\<lambda>_. 0) (\<lambda>_. 0) t" and free: "tq_ctrl (t_queues t qa) = None" and r: "r_status r = 0"
    and ia: "install_answer instq"
  shows "let t' = nvmet_execute_io_connect alloc instq port qa r t; d = take SIZEOF_CONNECT_DATA (r_sg r) in
    refused qa t (ctrl_at t) t' \<or>
    (\<exists>p c y. snd p = d_cntlid d \<and>
       fst (nvmet_find_get_subsys port (d_subsysnqn d) t) = Some (fst p) \<and> t_subsys t (fst p) = Some y \<and>
       ctrl_at t p = Some c \<and> take NVMF_NQN_SIZE (n_hostnqn c) = take NVMF_NQN_SIZE (d_hostnqn d) \<and>
       tc_qid (r_cmd r) \<le> y_max_qid y \<and> tc_sqsize (r_cmd r) \<noteq> 0 \<and>
       (if instq = None \<or> instq = Some 0
        then tq_ctrl (t_queues t' qa) = Some p \<and>
          ctrl_at t' = (ctrl_at t)(p \<mapsto> with_queue r qa (c\<lparr>n_ref := n_ref c + 1\<rparr>)) \<and> (\<exists>v. answered qa 0 v t t')
        else refused qa t ((ctrl_at t)(p \<mapsto> with_queue r qa c)) t'))"
proof -
  define t' where "t' = nvmet_execute_io_connect alloc instq port qa r t"
  define d where "d = take SIZEOF_CONNECT_DATA (r_sg r)"
  obtain st d1 r1 where cp: "nvmet_copy_from_sgl 0 SIZEOF_CONNECT_DATA r = (st, d1, r1)" by (metis prod_cases3)
  have d1: "d1 = d" "r_status r1 = 0" "r_cmd r1 = r_cmd r" "st \<noteq> 0 \<Longrightarrow> error_status st"
    using cp r by (auto simp: nvmet_copy_from_sgl_def d_def Let_def error_status_def split: if_splits)
  let ?r2 = "nvmet_set_result 0 r1"
  have r2: "r_status ?r2 = 0" "r_cmd ?r2 = r_cmd r" using d1 by (simp_all add: nvmet_set_result_def)
  obtain st2 found r3 t2 where al: "nvmet_ctrl_find_get (d_subsysnqn d) (d_hostnqn d) (d_cntlid d) port ?r2 t =
      (st2, found, r3, t2)" by (metis prod_cases4)
  show ?thesis
  proof (cases "alloc \<and> st = 0 \<and> tc_recfmt (r_cmd r) = 0 \<and> found \<noteq> None")
    case False
    have A: "t2 = t \<and> error_status st2 \<and> r_status r3 = r_status ?r2" if "found = None"
      using find_get_ctrl_none al that by blast
    from False consider "\<not> alloc \<or> st \<noteq> 0 \<or> tc_recfmt (r_cmd r) \<noteq> 0" | "alloc" "st = 0" "tc_recfmt (r_cmd r) = 0" "found = None"
      by blast
    then have "refused qa t (ctrl_at t) t'"
      by cases (use r r2 d1 al free A in
        \<open>auto simp: t'_def nvmet_execute_io_connect_def cp Let_def intro!: refusedI\<close>, auto simp: error_status_def)
    then show ?thesis unfolding Let_def t'_def [symmetric] by blast
  next
    case True
    then obtain p where p: "found = Some p" by blast
    obtain ya y c where A: "p = (ya, d_cntlid d)" "fst (nvmet_find_get_subsys port (d_subsysnqn d) t) = Some ya"
      "t_subsys t ya = Some y" "ctrl_at t p = Some c" "take NVMF_NQN_SIZE (n_hostnqn c) = take NVMF_NQN_SIZE (d_hostnqn d)"
      "r3 = ?r2" "t2 = upd_ctrl_at p (\<lambda>c. c\<lparr>n_ref := n_ref c + 1\<rparr>) t"
      using find_get_ctrl_some [OF inv al [unfolded p]] by blast
    have y: "t_subsys t (fst p) = Some y" using A(1,3) by simp
    obtain st4 r4 t4 where iq: "nvmet_install_queue instq p qa r3 t2 = (st4, r4, t4)" by (metis prod_cases3)
    have r3: "r_status r3 = 0" "r_cmd r3 = r_cmd r" using r2 A(6) by simp_all
    note F = io_connect_found [OF inv free ia A(4) y r3(1) A(7) iq]
    have y2: "\<exists>y2. t_subsys t2 (fst p) = Some y2 \<and> y_max_qid y2 = y_max_qid y"
      using y by (simp add: A(7) upd_ctrl_at_def)
    then have ex: "t' = (if y_max_qid y < tc_qid (r_cmd r)
        then on_queue qa (nvmet_req_complete (NVME_SC_CONNECT_INVALID_PARAM OR NVME_SC_DNR)
               (nvmet_set_result (connect_sqe_at CONNECT_CMD_QID) r3)) (nvmet_ctrl_put p t2)
        else if st4 \<noteq> 0 then on_queue qa (nvmet_req_complete st4 (set_result_u16 (snd p) r4)) (nvmet_ctrl_put p t4)
        else on_queue qa (nvmet_req_complete 0 r4) t4)"
      using True al p iq d1 r2 unfolding t'_def nvmet_execute_io_connect_def cp
      by (auto simp: Let_def)
    have wq: "with_queue r3 qa = with_queue r qa" by (rule with_queue_cong [OF r3(2)])
    show ?thesis
    proof (cases "y_max_qid y < tc_qid (r_cmd r) \<or> tc_sqsize (r_cmd r) = 0")
      case True
      have "with_queue r3 qa c = c" if "tc_sqsize (r_cmd r) = 0" using that by (simp add: with_queue_def r3)
      moreover have "(ctrl_at t)(p \<mapsto> c) = ctrl_at t" using A(4) by auto
      moreover have "st4 \<noteq> 0" if "tc_sqsize (r_cmd r) = 0" using F(3) that by (simp add: r3)
      ultimately have "refused qa t (ctrl_at t) t'"
        unfolding ex using F(1,2) True by (auto simp: error_status_def simp del: not_Some_eq)
      then show ?thesis unfolding Let_def t'_def [symmetric] by blast
    next
      case False
      have "if instq = None \<or> instq = Some 0
        then tq_ctrl (t_queues t' qa) = Some p \<and>
          ctrl_at t' = (ctrl_at t)(p \<mapsto> with_queue r qa (c\<lparr>n_ref := n_ref c + 1\<rparr>)) \<and> (\<exists>v. answered qa 0 v t t')
        else refused qa t ((ctrl_at t)(p \<mapsto> with_queue r qa c)) t'"
      proof (cases "st4 = 0")
        case ok: True
        then have "t' = on_queue qa (nvmet_req_complete 0 r4) t4" using False ex by simp
        from F(4) [OF ok this] F(3) ok show ?thesis by (auto simp: wq)
      next
        case bad: False
        then have "t' = on_queue qa (nvmet_req_complete st4 (set_result_u16 (snd p) r4)) (nvmet_ctrl_put p t4)"
          using False ex by simp
        moreover have "\<not> (instq = None \<or> instq = Some 0)" using F(3) bad False by (simp add: r3)
        ultimately show ?thesis using F(1) [OF bad HOL.refl] by (simp only: wq if_False)
      qed
      moreover have "tc_qid (r_cmd r) \<le> y_max_qid y" using False by (simp add: not_less)
      ultimately show ?thesis unfolding Let_def t'_def [symmetric] d_def [symmetric]
        using A(1-5) False by (intro disjI2 exI [of _ p] exI [of _ c] exI [of _ y]) auto
    qed
  qed
qed

section \<open>Keep-alive timeouts\<close>

text \<open>A host that asks for no keep-alive loses its controller. The timer of a new controller is due after the
timeout rounded up to seconds, and when it runs before a further command has arrived the controller is failed.
A timeout of 0 means that keep-alive is off, but the target arms the timer all the same, due at once; so does a
timeout within a second of the largest number, whose rounding up wraps.\<close>

theorem connect_without_keep_alive:
  assumes "ae_hz e \<le> 1000"
  shows "n_ka_due (make_ctrl e Nqn_nvme nqn hn kato i) = Some (ae_now e + ae_hz e *
      (if unat kato < 4294966297 then (unat kato + 999) div 1000 else 0)) \<and>
    ctrl_failed (nvmet_keep_alive_timer (ae_hz e) now (make_ctrl e Nqn_nvme nqn hn kato i))"
proof -
  let ?c = "make_ctrl e Nqn_nvme nqn hn kato i"
  let ?k = "(kato + 999) div 1000"
  have lt: "unat kato < 4294967296" by (rule order.strict_trans2 [OF unsigned_less]) simp
  have "unat (kato + 999) = (unat kato + 999) mod 4294967296" by (simp add: unat_word_ariths)
  then have k: "unat ?k = (if unat kato < 4294966297 then (unat kato + 999) div 1000 else 0)"
    using lt by (auto simp: unat_div_distrib mod_if)
  then have kb: "unat ?k \<le> 4294967" by auto
  have "unat (of_nat (ae_hz e) :: u32) = ae_hz e" using assms by (simp add: unat_of_nat)
  moreover have "unat ?k * ae_hz e \<le> 4294967 * 1000" by (rule mult_le_mono [OF kb assms])
  ultimately have "unat (?k * of_nat (ae_hz e)) = unat ?k * ae_hz e" by (simp add: unat_word_ariths)
  then have "n_ka_due ?c = Some (ae_now e + unat ?k * ae_hz e)"
    by (simp add: make_ctrl_def nvmet_start_keep_alive_timer_def ka_mod_work_def ka_delay_def Let_def)
  moreover have "ctrl_failed (nvmet_keep_alive_timer (ae_hz e) now ?c)"
    by (simp add: make_ctrl_def nvmet_start_keep_alive_timer_def ka_mod_work_def nvmet_keep_alive_timer_def
        nvmet_ctrl_fatal_error_def nvmet_init_cap_def ctrl_failed_def Let_def)
  ultimately show ?thesis unfolding k by (simp add: mult.commute)
qed

definition enough_memory :: alloc_env where
  "enough_memory = \<lparr>ae_ctrl = True, ae_changed = True, ae_cqs = True, ae_sqs = True, ae_ida = True, ae_hz = 250, ae_now = 7\<rparr>"

theorem connect_without_keep_alive_witness:
  "n_ka_due (make_ctrl enough_memory Nqn_nvme [] [] 0 1) = Some 7 \<and>
   n_ka_due (make_ctrl enough_memory Nqn_nvme [] [] 15000 1) = Some 3757 \<and>
   ctrl_failed (nvmet_keep_alive_timer 250 7 (make_ctrl enough_memory Nqn_nvme [] [] 0 1))"
  using connect_without_keep_alive [of enough_memory "[]" "[]" 0 1 7]
    connect_without_keep_alive [of enough_memory "[]" "[]" 15000 1 7]
  by (simp add: enough_memory_def)

end
