(* ===== verification/Ctrl_Trace.thy ===== *)
theory Ctrl_Trace
  imports Host_Core
begin

text \<open>
  What the operations on a controller leave alone. The trace of a controller mixes calls that create and
  release objects with calls that only talk to the workqueues, the registers or the remote controller;
  \<open>mtrace\<close> keeps the former, and \<open>ctrl_frame\<close> collects the fields that the operations of \<open>host/core.c\<close>
  used by a transport do not write.
\<close>

section \<open>The calls that create and release objects\<close>

fun material :: "hcall \<Rightarrow> bool" where
  "material (Q i k) = True"
| "material (Alloc_tagset a) = True"
| "material (Free_tagset a) = True"
| "material (Init_queue q) = True"
| "material (Cleanup_queue q) = True"
| "material Alloc_async_qe = True"
| "material Map_async_qe = True"
| "material Unmap_async_qe = True"
| "material Kfree_async_qe = True"
| "material _ = False"

definition mtrace :: "nvme_ctrl \<Rightarrow> hcall list" where
  "mtrace c = filter material (c_trace c)"

lemma mtrace_call [simp]: "mtrace (call k c) = mtrace c @ (if material k then [k] else [])"
  by (simp add: mtrace_def call_def)

definition ctrl_frame :: "nvme_ctrl \<Rightarrow> nvme_ctrl \<Rightarrow> bool" where
  "ctrl_frame c c' \<longleftrightarrow>
     c_opts c' = c_opts c \<and> c_queue_count c' = c_queue_count c \<and> c_sqsize c' = c_sqsize c \<and>
     c_cntlid c' = c_cntlid c \<and> c_ioccsz c' = c_ioccsz c \<and> c_icdoff c' = c_icdoff c \<and>
     c_sgls c' = c_sgls c \<and> c_maxcmd c' = c_maxcmd c \<and> c_kas c' = c_kas c \<and>
     c_nr_reconnects c' = c_nr_reconnects c \<and> c_tagset c' = c_tagset c \<and>
     c_admin_tagset c' = c_admin_tagset c \<and> c_kato c' = c_kato c \<and> mtrace c' = mtrace c"

lemma ctrl_frame_refl [simp, intro]: "ctrl_frame c c"
  by (simp add: ctrl_frame_def)

lemma ctrl_frame_trans: "ctrl_frame c c' \<Longrightarrow> ctrl_frame c' c'' \<Longrightarrow> ctrl_frame c c''"
  by (simp add: ctrl_frame_def)

lemma ctrl_frame_call: "\<not> material k \<Longrightarrow> ctrl_frame c0 (call k c) = ctrl_frame c0 c"
  by (simp add: ctrl_frame_def) (simp add: call_def)

lemma ctrl_frame_upd [simp]:
  "ctrl_frame c0 (c\<lparr>c_state := s\<rparr>) = ctrl_frame c0 c"
  "ctrl_frame c0 (c\<lparr>c_pending := p\<rparr>) = ctrl_frame c0 c"
  "ctrl_frame c0 (c\<lparr>c_ctrl_config := cc\<rparr>) = ctrl_frame c0 c"
  "ctrl_frame c0 (c\<lparr>c_cap := cap\<rparr>) = ctrl_frame c0 c"
  "ctrl_frame c0 (c\<lparr>c_page_size := ps\<rparr>) = ctrl_frame c0 c"
  "ctrl_frame c0 (c\<lparr>c_ident := d\<rparr>) = ctrl_frame c0 c"
  by (simp_all add: ctrl_frame_def mtrace_def)

lemmas frame_simps = ctrl_frame_call Let_def split_beta

lemma work_frame [simp]:
  "ctrl_frame c0 (snd (queue_work w c)) = ctrl_frame c0 c"
  "ctrl_frame c0 (snd (queue_delayed_work w d c)) = ctrl_frame c0 c"
  "ctrl_frame c0 (cancel_work_sync w c) = ctrl_frame c0 c"
  by (simp_all add: queue_work_def queue_delayed_work_def cancel_work_sync_def ctrl_frame_call)

lemma change_state_frame [simp]: "ctrl_frame c0 (snd (nvme_change_ctrl_state s c)) = ctrl_frame c0 c"
  by (simp add: nvme_change_ctrl_state_def frame_simps)

lemma queue_scan_frame [simp]: "ctrl_frame c0 (nvme_queue_scan c) = ctrl_frame c0 c"
  by (simp add: nvme_queue_scan_def)

lemma reset_delete_frame [simp]:
  "ctrl_frame c0 (snd (nvme_reset_ctrl c)) = ctrl_frame c0 c"
  "ctrl_frame c0 (snd (nvme_delete_ctrl c)) = ctrl_frame c0 c"
  by (simp_all add: nvme_reset_ctrl_def nvme_delete_ctrl_def frame_simps)

lemma set_features_frame [simp]: "ctrl_frame c0 (snd (snd (nvme_set_features fe f d c))) = ctrl_frame c0 c"
  by (simp add: nvme_set_features_def ctrl_frame_call)

lemma keep_alive_frame [simp]:
  "ctrl_frame c0 (nvme_start_keep_alive c) = ctrl_frame c0 c"
  "ctrl_frame c0 (nvme_stop_keep_alive c) = ctrl_frame c0 c"
  by (simp_all add: nvme_start_keep_alive_def nvme_stop_keep_alive_def)

lemma enable_aen_frame [simp]: "ctrl_frame c0 (nvme_enable_aen fe c) = ctrl_frame c0 c"
  by (simp add: nvme_enable_aen_def frame_simps)

lemma poll_csts_frame [simp]: "ctrl_frame c0 (snd (poll_csts e chk t now k c)) = ctrl_frame c0 c"
proof (induction e chk t now k c rule: poll_csts.induct)
  case (1 e chk t now k c)
  then show ?case
    by (subst poll_csts.simps) (auto simp: frame_simps split: option.split)
qed

lemma handshake_frame [simp]:
  "ctrl_frame c0 (snd (nvme_wait_ready e cap b c)) = ctrl_frame c0 c"
  "ctrl_frame c0 (snd (nvme_disable_ctrl e c)) = ctrl_frame c0 c"
  "ctrl_frame c0 (snd (nvme_enable_ctrl e c)) = ctrl_frame c0 c"
  "ctrl_frame c0 (snd (nvme_shutdown_ctrl e c)) = ctrl_frame c0 c"
  by (simp_all add: nvme_wait_ready_def nvme_disable_ctrl_def nvme_enable_ctrl_def nvme_shutdown_ctrl_def
      frame_simps)

lemma start_stop_frame [simp]:
  "ctrl_frame c0 (nvme_stop_ctrl c) = ctrl_frame c0 c"
  "ctrl_frame c0 (nvme_start_ctrl fe c) = ctrl_frame c0 c"
  by (simp_all add: nvme_stop_ctrl_def nvme_start_ctrl_def frame_simps)

section \<open>The state\<close>

lemma change_state_result [simp]:
  "fst (nvme_change_ctrl_state s c) = ctrl_transition (c_state c) s"
  "c_state (snd (nvme_change_ctrl_state s c)) = (if ctrl_transition (c_state c) s then s else c_state c)"
  by (simp_all add: nvme_change_ctrl_state_def Let_def call_def)

lemma call_state [simp]: "c_state (call k c) = c_state c" "c_pending (call k c) = c_pending c"
  by (simp_all add: call_def)

lemma work_state [simp]:
  "c_state (snd (queue_work w c)) = c_state c"
  "c_state (snd (queue_delayed_work w d c)) = c_state c"
  "c_state (cancel_work_sync w c) = c_state c"
  by (simp_all add: queue_work_def queue_delayed_work_def cancel_work_sync_def call_def)

lemma poll_csts_state [simp]: "c_state (snd (poll_csts e chk t now k c)) = c_state c"
proof (induction e chk t now k c rule: poll_csts.induct)
  case (1 e chk t now k c)
  then show ?case
    by (subst poll_csts.simps) (auto simp: Let_def split: option.split)
qed

lemma ops_state [simp]:
  "c_state (snd (nvme_wait_ready e cap b c)) = c_state c"
  "c_state (snd (nvme_disable_ctrl e c)) = c_state c"
  "c_state (snd (nvme_enable_ctrl e c)) = c_state c"
  "c_state (snd (nvme_shutdown_ctrl e c)) = c_state c"
  "c_state (snd (snd (nvme_set_features fe f d c))) = c_state c"
  "c_state (nvme_stop_ctrl c) = c_state c"
  "c_state (nvme_start_ctrl fe c) = c_state c"
  "c_state (nvme_stop_keep_alive c) = c_state c"
  by (simp_all add: nvme_wait_ready_def nvme_disable_ctrl_def nvme_enable_ctrl_def nvme_shutdown_ctrl_def
      nvme_set_features_def nvme_stop_ctrl_def nvme_start_ctrl_def nvme_stop_keep_alive_def
      nvme_start_keep_alive_def nvme_enable_aen_def nvme_queue_scan_def Let_def split_beta)

section \<open>The pending works\<close>

lemma change_state_pending [simp]: "c_pending (snd (nvme_change_ctrl_state s c)) = c_pending c"
  by (simp add: nvme_change_ctrl_state_def Let_def)

lemma work_pending [simp]:
  "c_pending (snd (queue_work w c)) = insert w (c_pending c)"
  "c_pending (snd (queue_delayed_work w d c)) = insert w (c_pending c)"
  "c_pending (cancel_work_sync w c) = c_pending c - {w}"
  by (auto simp: queue_work_def queue_delayed_work_def cancel_work_sync_def)

lemma poll_csts_pending [simp]: "c_pending (snd (poll_csts e chk t now k c)) = c_pending c"
proof (induction e chk t now k c rule: poll_csts.induct)
  case (1 e chk t now k c)
  then show ?case
    by (subst poll_csts.simps) (auto simp: Let_def split: option.split)
qed

lemma ops_pending [simp]:
  "c_pending (snd (nvme_wait_ready e cap b c)) = c_pending c"
  "c_pending (snd (nvme_disable_ctrl e c)) = c_pending c"
  "c_pending (snd (nvme_enable_ctrl e c)) = c_pending c"
  "c_pending (snd (nvme_shutdown_ctrl e c)) = c_pending c"
  "c_pending (snd (snd (nvme_set_features fe f d c))) = c_pending c"
  by (simp_all add: nvme_wait_ready_def nvme_disable_ctrl_def nvme_enable_ctrl_def nvme_shutdown_ctrl_def
      nvme_set_features_def Let_def split_beta)

text \<open>The works that drive a controller's life; the others never change its state.\<close>

definition life_works :: "work set" where
  "life_works = {Err_work, Reconnect_work, Reset_work, Delete_work}"

definition lworks :: "nvme_ctrl \<Rightarrow> work set" where
  "lworks c = c_pending c \<inter> life_works"

lemma lworks_upd [simp]:
  "lworks (call k c) = lworks c"
  "lworks (snd (nvme_change_ctrl_state s c)) = lworks c"
  "lworks (cancel_work_sync w c) = lworks c - {w}"
  by (auto simp: lworks_def)

lemma lworks_queue [simp]:
  "lworks (snd (queue_work w c)) = (if w \<in> life_works then insert w (lworks c) else lworks c)"
  "lworks (snd (queue_delayed_work w d c)) = (if w \<in> life_works then insert w (lworks c) else lworks c)"
  by (auto simp: lworks_def)

lemma life_works_mem [simp]:
  "Err_work \<in> life_works" "Reconnect_work \<in> life_works" "Reset_work \<in> life_works" "Delete_work \<in> life_works"
  "Ka_work \<notin> life_works" "Scan_work \<notin> life_works" "Async_event_work \<notin> life_works" "Fw_act_work \<notin> life_works"
  by (simp_all add: life_works_def)

lemma lworks_no [simp]: "w \<notin> life_works \<Longrightarrow> lworks c - {w} = lworks c"
  by (auto simp: lworks_def)

lemma lworks_ops [simp]:
  "lworks (nvme_start_keep_alive c) = lworks c" "lworks (nvme_stop_keep_alive c) = lworks c"
  "lworks (nvme_queue_scan c) = lworks c"
  "lworks (nvme_enable_aen fe c) = lworks c"
  "lworks (nvme_stop_ctrl c) = lworks c" "lworks (nvme_start_ctrl fe c) = lworks c"
proof -
  show ka: "lworks (nvme_start_keep_alive c) = lworks c" "lworks (nvme_stop_keep_alive c) = lworks c" for c
    by (simp_all add: nvme_start_keep_alive_def nvme_stop_keep_alive_def)
  show scan: "lworks (nvme_queue_scan c) = lworks c" for c by (simp add: nvme_queue_scan_def)
  have feat: "lworks (snd (snd (nvme_set_features fe f d c))) = lworks c" for f d c by (simp add: lworks_def)
  show aen: "lworks (nvme_enable_aen fe c) = lworks c" for c
    by (simp add: nvme_enable_aen_def feat Let_def split_beta)
  show "lworks (nvme_stop_ctrl c) = lworks c" "lworks (nvme_start_ctrl fe c) = lworks c"
    by (simp_all add: nvme_stop_ctrl_def nvme_start_ctrl_def ka scan aen Let_def)
qed

end
