(* ===== verification/Host_Identify.thy ===== *)
theory Host_Identify
  imports Ctrl_Trace
begin

text \<open>
  What the host learns from a controller and configures once the admin queue works
  (\<open>nvme_init_identify\<close> and the functions it calls in \<open>host/core.c\<close>): identify data, quirks, the
  autonomous power state table, time stamp, directives, retry delays, block layer limits.
\<close>

section \<open>The controller's answers\<close>

record id_ctrl =
  id_vid :: u16
  id_mn :: string
  id_fr :: string
  id_mdts :: u8
  id_cntlid :: u16
  id_rtd3e :: u32
  id_oaes :: u32
  id_ctratt :: u32
  id_crdt :: "u16 list"
  id_oacs :: u16
  id_acl :: u8
  id_lpa :: u8
  id_npss :: u8
  id_apsta :: u8
  id_mtfa :: u16
  id_kas :: u16
  id_maxcmd :: u16
  id_mnan :: u32
  id_oncs :: u16
  id_vwc :: u8
  id_sgls :: u32
  id_ioccsz :: u32
  id_iorcsz :: u32
  id_icdoff :: u16
  id_psd :: "power_state list"

record identify_env =
  ide_vs :: "int \<times> u32"            \<comment> \<open>reading the VS register\<close>
  ide_identify :: "int \<times> id_ctrl"   \<comment> \<open>\<open>nvme_identify_ctrl\<close>\<close>
  ide_effects_alloc :: bool
  ide_effects_log :: int
  ide_init_subsystem :: "nvme_ctrl \<Rightarrow> int"
  ide_mpath_init :: int
  ide_features :: features_env
  ide_alloc_table :: bool
  ide_alloc_host :: bool
  ide_toggle_streams :: "bool \<Rightarrow> int"
  ide_stream_params :: "int \<times> u16"   \<comment> \<open>\<open>nvme_get_stream_params\<close> and \<open>nssa\<close>\<close>
  ide_force_apst :: bool              \<comment> \<open>module parameters\<close>
  ide_streams :: bool
  ide_shutdown_timeout :: u8

abbreviation ident :: "(ctrl_ident \<Rightarrow> ctrl_ident) \<Rightarrow> nvme_ctrl \<Rightarrow> nvme_ctrl" where
  "ident f c \<equiv> c\<lparr>c_ident := f (c_ident c)\<rparr>"

section \<open>Quirks\<close>

abbreviation (input) NVME_QUIRK_STRIPE_SIZE :: u64 where "NVME_QUIRK_STRIPE_SIZE \<equiv> 0x1"
abbreviation (input) NVME_QUIRK_NO_APST :: u64 where "NVME_QUIRK_NO_APST \<equiv> 0x10"
abbreviation (input) NVME_QUIRK_NO_DEEPEST_PS :: u64 where "NVME_QUIRK_NO_DEEPEST_PS \<equiv> 0x20"
abbreviation (input) NVME_QUIRK_SIMPLE_SUSPEND :: u64 where "NVME_QUIRK_SIMPLE_SUSPEND \<equiv> 0x400"

record core_quirk =
  cq_vid :: u16
  cq_mn :: "string option"
  cq_fr :: "string option"
  cq_quirks :: u64

definition core_quirks :: "core_quirk list" where
  "core_quirks =
     [\<lparr>cq_vid = 0x1179, cq_mn = Some ''THNSF5256GPUK TOSHIBA'', cq_fr = None, cq_quirks = NVME_QUIRK_NO_APST\<rparr>,
      \<lparr>cq_vid = 0x14a4, cq_mn = None, cq_fr = Some ''22301111'', cq_quirks = NVME_QUIRK_SIMPLE_SUSPEND\<rparr>]"

definition string_matches :: "string \<Rightarrow> string option \<Rightarrow> nat \<Rightarrow> bool" where
  "string_matches idstr m len =
     (case m of
        None \<Rightarrow> True
      | Some m \<Rightarrow>
          if take (length m) idstr \<noteq> m then False
          else list_all (\<lambda>c. c = CHR 0x20) (drop (length m) (take len idstr)))"

definition quirk_matches :: "id_ctrl \<Rightarrow> core_quirk \<Rightarrow> bool" where
  "quirk_matches idc q \<longleftrightarrow>
     cq_vid q = id_vid idc \<and> string_matches (id_mn idc) (cq_mn q) 40 \<and> string_matches (id_fr idc) (cq_fr q) 8"

definition add_quirks :: "id_ctrl \<Rightarrow> u64 \<Rightarrow> u64" where
  "add_quirks idc quirks = fold (\<lambda>q acc. if quirk_matches idc q then acc OR cq_quirks q else acc) core_quirks quirks"

section \<open>Autonomous power state transitions\<close>

abbreviation psd_of :: "ctrl_ident \<Rightarrow> nat \<Rightarrow> power_state" where
  "psd_of d s \<equiv> i_psd d ! s"

definition total_latency_us :: "ctrl_ident \<Rightarrow> nat \<Rightarrow> u64" where
  "total_latency_us d state = ucast (ps_exit_lat (psd_of d state)) + ucast (ps_entry_lat (psd_of d state))"

definition transition_ms :: "u64 \<Rightarrow> u64" where
  "transition_ms lat =
     (let ms = (lat + 19) div 20 in if push_bit 24 1 - 1 < ms then push_bit 24 1 - 1 else ms)"

definition apst_target :: "ctrl_ident \<Rightarrow> nat \<Rightarrow> u64" where
  "apst_target d state = push_bit 3 (of_nat state) OR push_bit 8 (transition_ms (total_latency_us d state))"

text \<open>The loop of \<open>nvme_configure_apst\<close> from state \<open>n - 1\<close> down to 0.\<close>

fun apst_fill :: "ctrl_ident \<Rightarrow> nat \<Rightarrow> u64 \<Rightarrow> u64 list \<Rightarrow> u64 list" where
  "apst_fill d 0 target table = table"
| "apst_fill d (Suc state) target table =
     (let table = (if target \<noteq> 0 then table[state := target] else table)
      in if state = unat (i_npss d) \<and> i_quirks d AND NVME_QUIRK_NO_DEEPEST_PS \<noteq> 0
         then apst_fill d state target table
         else if ps_flags (psd_of d state) AND NVME_PS_FLAGS_NON_OP_STATE = 0
         then apst_fill d state target table
         else if i_ps_max_latency_us d < ucast (ps_exit_lat (psd_of d state))
         then apst_fill d state target table
         else apst_fill d state (apst_target d state) table)"

definition apst_table :: "ctrl_ident \<Rightarrow> u64 list" where
  "apst_table d = apst_fill d (unat (i_npss d) + 1) 0 (replicate 32 0)"

text \<open>The table is the command's data; the result gives it beside the status and the controller.\<close>

definition nvme_configure_apst :: "identify_env \<Rightarrow> nvme_ctrl \<Rightarrow> int \<times> u64 list option \<times> nvme_ctrl" where
  "nvme_configure_apst e c =
     (let d = c_ident c
      in if i_apsta d = 0 then (0, None, c)
         else if 31 < i_npss d then (0, None, c)
         else if \<not> ide_alloc_table e then (0, None, c)
         else
           let (apste, table) =
                 (if \<not> i_apst_enabled d \<or> i_ps_max_latency_us d = 0 then (0, replicate 32 0)
                  else (1, apst_table d));
               (ret, _, c) = nvme_set_features (ide_features e) NVME_FEAT_AUTO_PST apste c
           in (ret, Some table, c))"

section \<open>Other features\<close>

definition nvme_configure_timestamp :: "identify_env \<Rightarrow> nvme_ctrl \<Rightarrow> int \<times> nvme_ctrl" where
  "nvme_configure_timestamp e c =
     (if i_oncs (c_ident c) AND NVME_CTRL_ONCS_TIMESTAMP = 0 then (0, c)
      else let (ret, _, c) = nvme_set_features (ide_features e) NVME_FEAT_TIMESTAMP 0 c in (ret, c))"

definition nvme_configure_acre :: "identify_env \<Rightarrow> nvme_ctrl \<Rightarrow> int \<times> nvme_ctrl" where
  "nvme_configure_acre e c =
     (if c_crdt c ! 0 = 0 then (0, c)
      else if \<not> ide_alloc_host e then (0, c)
      else let (ret, _, c) = nvme_set_features (ide_features e) NVME_FEAT_HOST_BEHAVIOR 0 c in (ret, c))"

definition nvme_toggle_streams :: "identify_env \<Rightarrow> bool \<Rightarrow> nvme_ctrl \<Rightarrow> int \<times> nvme_ctrl" where
  "nvme_toggle_streams e enable c = (ide_toggle_streams e enable, call (Directive_streams enable) c)"

definition nvme_configure_directives :: "identify_env \<Rightarrow> nvme_ctrl \<Rightarrow> int \<times> nvme_ctrl" where
  "nvme_configure_directives e c =
     (if i_oacs (c_ident c) AND NVME_CTRL_OACS_DIRECTIVES = 0 then (0, c)
      else if \<not> ide_streams e then (0, c)
      else
        let (ret, c) = nvme_toggle_streams e True c
        in if ret \<noteq> 0 then (ret, c)
      else
        let (ret, nssa) = ide_stream_params e
        in if ret \<noteq> 0 then (ret, c)
      else
        let c = ident (\<lambda>d. d\<lparr>i_nssa := nssa\<rparr>) c
        in if unat nssa < BLK_MAX_WRITE_HINTS - 1
           then (0, snd (nvme_toggle_streams e False c))
           else (0, ident (\<lambda>d. d\<lparr>i_nr_streams := of_nat (min (unat nssa) (BLK_MAX_WRITE_HINTS - 1))\<rparr>) c))"

definition nvme_get_effects_log :: "identify_env \<Rightarrow> nvme_ctrl \<Rightarrow> int \<times> nvme_ctrl" where
  "nvme_get_effects_log e c =
     (let c = (if \<not> i_effects (c_ident c) then ident (\<lambda>d. d\<lparr>i_effects := ide_effects_alloc e\<rparr>) c else c)
      in if \<not> i_effects (c_ident c) then (0, c)
         else
           let c = call Get_effects_log c; ret = ide_effects_log e
           in (ret, if ret \<noteq> 0 then ident (\<lambda>d. d\<lparr>i_effects := False\<rparr>) c else c))"

section \<open>Block layer limits\<close>

record queue_limits =
  ql_max_hw_sectors :: "nat option"   \<comment> \<open>\<open>None\<close>: not set\<close>
  ql_max_segments :: "nat option"
  ql_chunk_sectors :: "nat option"
  ql_virt_boundary :: u32
  ql_write_cache :: bool

definition min_not_zero :: "nat \<Rightarrow> nat \<Rightarrow> nat" where
  "min_not_zero x y = (if x = 0 then y else if y = 0 then x else min x y)"

definition is_power_of_2 :: "nat \<Rightarrow> bool" where
  "is_power_of_2 n \<longleftrightarrow> n \<noteq> 0 \<and> (of_nat n :: u64) AND (of_nat n - 1) = 0"

definition nvme_set_queue_limits :: "nvme_ctrl \<Rightarrow> queue_limits" where
  "nvme_set_queue_limits c =
     (let vwc = (i_vwc (c_ident c) AND NVME_CTRL_VWC_PRESENT \<noteq> 0);
          (hw, segs) =
            (if c_max_hw_sectors c \<noteq> 0
             then let max_segments = min_not_zero
                        (c_max_hw_sectors c div unat (drop_bit 9 (c_page_size c)) + 1) (c_max_segments c)
                  in (Some (c_max_hw_sectors c), Some (min max_segments 65535))
             else (None, None))
      in \<lparr>ql_max_hw_sectors = hw, ql_max_segments = segs,
          ql_chunk_sectors =
            (if i_quirks (c_ident c) AND NVME_QUIRK_STRIPE_SIZE \<noteq> 0 \<and> is_power_of_2 (c_max_hw_sectors c)
             then Some (c_max_hw_sectors c) else None),
          ql_virt_boundary = c_page_size c - 1, ql_write_cache = vwc\<rparr>)"

section \<open>Initialisation\<close>

text \<open>
  \<open>1 << (mdts + page_shift - 9)\<close> in 32 bits; the C expression is undefined from 32 on, where the shifted
  word is 0.
\<close>

definition mdts_sectors :: "u8 \<Rightarrow> nat \<Rightarrow> nat" where
  "mdts_sectors mdts page_shift =
     (if mdts \<noteq> 0 then unat (push_bit (unat mdts + page_shift - 9) (1 :: u32)) else 4294967295)"

definition shutdown_timeout_of :: "u8 \<Rightarrow> u32 \<Rightarrow> nat" where
  "shutdown_timeout_of dflt rtd3e =
     (if rtd3e \<noteq> 0 then min (max (unat rtd3e div 1000000) (unat dflt)) 60 else unat dflt)"

text \<open>The identify data that is copied without a check.\<close>

definition cache_identify :: "identify_env \<Rightarrow> id_ctrl \<Rightarrow> nvme_ctrl \<Rightarrow> nvme_ctrl" where
  "cache_identify e idc c =
     (let page_shift = unat (NVME_CAP_MPSMIN (c_cap c)) + 12;
          c = (if ide_force_apst e \<and> i_quirks (c_ident c) AND NVME_QUIRK_NO_DEEPEST_PS \<noteq> 0
               then ident (\<lambda>d. d\<lparr>i_quirks := i_quirks d AND NOT NVME_QUIRK_NO_DEEPEST_PS\<rparr>) c else c);
          c = c\<lparr>c_crdt := id_crdt idc\<rparr>;
          c = ident (\<lambda>d. d\<lparr>i_oacs := id_oacs idc, i_oncs := id_oncs idc\<rparr>) c;
          c = c\<lparr>c_mtfa := id_mtfa idc, c_oaes := id_oaes idc\<rparr>;
          c = ident (\<lambda>d. d\<lparr>i_abort_limit := unat (id_acl idc) + 1, i_vwc := id_vwc idc\<rparr>) c;
          c = c\<lparr>c_max_hw_sectors := min_not_zero (c_max_hw_sectors c) (mdts_sectors (id_mdts idc) page_shift)\<rparr>;
          c = call Set_queue_limits c;
          c = c\<lparr>c_sgls := id_sgls idc, c_kas := id_kas idc\<rparr>;
          c = ident (\<lambda>d. d\<lparr>i_max_namespaces := id_mnan idc\<rparr>) c;
          c = c\<lparr>c_ctratt := id_ctratt idc,
                c_shutdown_timeout := shutdown_timeout_of (ide_shutdown_timeout e) (id_rtd3e idc)\<rparr>;
          apst = (if i_quirks (c_ident c) AND NVME_QUIRK_NO_APST \<noteq> 0
                  then ide_force_apst e \<and> id_apsta idc \<noteq> 0 else id_apsta idc \<noteq> 0)
      in ident (\<lambda>d. d\<lparr>i_npss := id_npss idc, i_apsta := id_apsta idc, i_apst_enabled := apst,
                     i_psd := id_psd idc\<rparr>) c)"

text \<open>What the version and capability registers say.\<close>

definition identify_regs :: "u32 \<Rightarrow> nvme_ctrl \<Rightarrow> nvme_ctrl" where
  "identify_regs vs c =
     (let c = ident (\<lambda>d. d\<lparr>i_vs := vs\<rparr>) c;
          c = c\<lparr>c_sqsize := min (ucast (NVME_CAP_MQES (c_cap c))) (c_sqsize c)\<rparr>
      in if NVME_VS_1_1_0 \<le> vs
         then ident (\<lambda>d. d\<lparr>i_subsystem := (NVME_CAP_NSSRC (c_cap c) \<noteq> 0)\<rparr>) c else c)"

text \<open>
  The part of \<open>nvme_init_identify\<close> before the identify data is copied: the effects log, and on the first
  identification the subsystem and the quirks.
\<close>

definition identify_first :: "identify_env \<Rightarrow> id_ctrl \<Rightarrow> nvme_ctrl \<Rightarrow> int \<times> nvme_ctrl" where
  "identify_first e idc c =
     (let (ret, c) = (if id_lpa idc AND NVME_CTRL_LPA_CMD_EFFECTS_LOG \<noteq> 0
                      then nvme_get_effects_log e c else (0, c))
      in if ret < 0 then (ret, c)
      else if i_identified (c_ident c) then (0, c)
      else if ide_init_subsystem e c \<noteq> 0 then (ide_init_subsystem e c, c)
      else (0, ident (\<lambda>d. d\<lparr>i_quirks := add_quirks idc (i_quirks d)\<rparr>) c))"

text \<open>Its tail: the features, each abandoning the initialisation on a negative result.\<close>

definition configure_features :: "identify_env \<Rightarrow> nvme_ctrl \<Rightarrow> int \<times> nvme_ctrl" where
  "configure_features e c =
     (let (ret, _, c) = nvme_configure_apst e c
      in if ret < 0 then (ret, c)
      else
        let (ret, c) = nvme_configure_timestamp e c
        in if ret < 0 then (ret, c)
      else
        let (ret, c) = nvme_configure_directives e c
        in if ret < 0 then (ret, c)
      else
        let (ret, c) = nvme_configure_acre e c
        in if ret < 0 then (ret, c)
      else (0, ident (\<lambda>d. d\<lparr>i_identified := True\<rparr>) c))"

definition fabrics_identify :: "id_ctrl \<Rightarrow> nvme_ctrl \<Rightarrow> nvme_ctrl" where
  "fabrics_identify idc c =
     ident (\<lambda>d. d\<lparr>i_iorcsz := id_iorcsz idc\<rparr>)
       (c\<lparr>c_icdoff := id_icdoff idc, c_ioccsz := id_ioccsz idc, c_maxcmd := id_maxcmd idc\<rparr>)"

text \<open>
  \<open>nvme_init_identify\<close> on a fabrics controller. The subsystem and multipath parts are environment
  answers here.
\<close>

definition nvme_init_identify :: "identify_env \<Rightarrow> nvme_ctrl \<Rightarrow> int \<times> nvme_ctrl" where
  "nvme_init_identify e c =
     (let (ret, vs) = ide_vs e
      in if ret \<noteq> 0 then (ret, c)
      else
        let c = identify_regs vs c;
            (ret, idc) = ide_identify e
        in if ret \<noteq> 0 then (- EIO, c)
      else
        let (ret, c) = identify_first e idc c
        in if ret \<noteq> 0 then (ret, c)
      else
        let c = fabrics_identify idc (cache_identify e idc c)
        in if c_cntlid c \<noteq> id_cntlid idc then (- EINVAL, c)
      else if \<not> o_discovery_nqn (c_opts c) \<and> c_kas c = 0 then (- EINVAL, c)
      else if ide_mpath_init e < 0 then (ide_mpath_init e, c)
      else configure_features e c)"

section \<open>The power state table is what the heuristic asks for\<close>

definition apst_eligible :: "ctrl_ident \<Rightarrow> nat \<Rightarrow> bool" where
  "apst_eligible d t \<longleftrightarrow>
     \<not> (t = unat (i_npss d) \<and> i_quirks d AND NVME_QUIRK_NO_DEEPEST_PS \<noteq> 0) \<and>
     ps_flags (psd_of d t) AND NVME_PS_FLAGS_NON_OP_STATE \<noteq> 0 \<and>
     unat (ps_exit_lat (psd_of d t)) \<le> unat (i_ps_max_latency_us d)"

lemma find_snoc: "find P (xs @ [x]) = (case find P xs of None \<Rightarrow> if P x then Some x else None | Some y \<Rightarrow> Some y)"
  by (induction xs) auto

lemma transition_ms_bound: "unat (transition_ms x) < 2 ^ 24"
proof (cases "0xffffff < (x + 19) div 20")
  case False
  then have "unat ((x + 19) div 20) \<le> unat (0xffffff :: u64)" by (simp add: word_less_nat_alt)
  with False show ?thesis by (simp add: transition_ms_def Let_def)
qed (simp add: transition_ms_def Let_def)

lemma unat_push_small:
  fixes x :: u64
  assumes "unat x < 2 ^ 24" and "n \<le> 8"
  shows "unat (push_bit n x) = unat x * 2 ^ n"
proof -
  have "unat x * 2 ^ n < 2 ^ 24 * 2 ^ n" using assms by simp
  also have "\<dots> \<le> 2 ^ 24 * 2 ^ 8" using power_increasing[OF assms(2), of "2 :: nat"] by simp
  finally have "unat x * 2 ^ n < 2 ^ 64" by simp
  moreover have "push_bit n x = of_nat (unat x * 2 ^ n)" by (simp add: push_bit_eq_mult)
  ultimately show ?thesis by (simp only: unat_of_nat) simp
qed

lemma apst_target_decode:
  assumes "t < 32"
  shows "unat (drop_bit 3 (apst_target d t) AND 0x1f) = t"
    and "drop_bit 8 (apst_target d t) = transition_ms (total_latency_us d t)"
proof -
  let ?ms = "transition_ms (total_latency_us d t)"
  have t: "unat (of_nat t :: u64) = t" using assms by (simp add: unat_of_nat)
  have a: "unat (push_bit 3 (of_nat t :: u64)) = t * 8"
    using unat_push_small[of "of_nat t" 3] assms t by simp
  have b: "unat (push_bit 8 ?ms) = unat ?ms * 256"
    using unat_push_small[of ?ms 8] transition_ms_bound by simp
  have m: "x AND 0x1f = take_bit 5 x" for x :: u64
    by (simp add: take_bit_eq_mask mask_eq_exp_minus_1)
  show "drop_bit 8 (apst_target d t) = ?ms"
  proof -
    have "drop_bit 8 (push_bit 3 (of_nat t :: u64)) = 0"
      using assms by (simp add: word_unat_eq_iff unat_drop_bit_eq a drop_bit_eq_div[where 'a = nat])
    moreover have "drop_bit 8 (push_bit 8 ?ms) = ?ms"
      by (simp add: word_unat_eq_iff unat_drop_bit_eq b drop_bit_eq_div[where 'a = nat])
    ultimately show ?thesis by (simp add: apst_target_def)
  qed
  have "take_bit 5 (drop_bit 3 (push_bit 8 ?ms)) = 0"
    by (simp add: word_unat_eq_iff unsigned_take_bit_eq unat_drop_bit_eq b drop_bit_eq_div[where 'a = nat] take_bit_eq_mod[where 'a = nat])
  moreover have "unat (take_bit 5 (drop_bit 3 (push_bit 3 (of_nat t :: u64)))) = t"
    using assms by (simp add: unsigned_take_bit_eq unat_drop_bit_eq a drop_bit_eq_div[where 'a = nat] take_bit_eq_mod[where 'a = nat])
  ultimately show "unat (drop_bit 3 (apst_target d t) AND 0x1f) = t"
    unfolding m apst_target_def by (simp add: take_bit_or)
qed

lemma apst_target_nonzero: "1 \<le> t \<Longrightarrow> t < 32 \<Longrightarrow> apst_target d t \<noteq> 0"
  using apst_target_decode(1)[of t d] by (intro notI) simp

lemma unat_ucast_u32_u64 [simp]: "unat (ucast (x :: u32) :: u64) = unat x"
proof -
  have "unat x < 2 ^ LENGTH(32)" by (rule unsigned_less)
  then have "unat x < 2 ^ 64" by simp
  then show ?thesis by (simp add: unsigned_ucast_eq take_bit_nat_eq_self)
qed

lemma apst_fill_step:
  "apst_fill d (Suc n) target table =
     apst_fill d n (if apst_eligible d n then apst_target d n else target)
       (if target \<noteq> 0 then table[n := target] else table)"
proof -
  have "(i_ps_max_latency_us d < ucast (ps_exit_lat (psd_of d n))) \<longleftrightarrow>
    \<not> unat (ps_exit_lat (psd_of d n)) \<le> unat (i_ps_max_latency_us d)"
    by (simp add: word_less_nat_alt not_le)
  then show ?thesis
    unfolding apst_fill.simps Let_def apst_eligible_def by auto
qed

declare apst_fill.simps(2) [simp del]

lemma apst_fill_length [simp]: "length (apst_fill d n target table) = length table"
  by (induction n arbitrary: target table) (simp_all add: apst_fill_step)

lemma apst_fill_entry:
  assumes "n \<le> length table" and "n \<le> 32" and "s < length table"
  shows "apst_fill d n target table ! s =
    (if s < n
     then case find (apst_eligible d) [s + 1..<n] of
            None \<Rightarrow> if target \<noteq> 0 then target else table ! s
          | Some t \<Rightarrow> apst_target d t
     else table ! s)"
  using assms
proof (induction n arbitrary: target table)
  case (Suc n)
  let ?t = "if apst_eligible d n then apst_target d n else target"
  let ?tab = "if target \<noteq> 0 then table[n := target] else table"
  have IH: "apst_fill d (Suc n) target table ! s =
    (if s < n then case find (apst_eligible d) [s + 1..<n] of
            None \<Rightarrow> if ?t \<noteq> 0 then ?t else ?tab ! s
          | Some t \<Rightarrow> apst_target d t
     else ?tab ! s)"
    unfolding apst_fill_step using Suc.prems by (subst Suc.IH) simp_all
  consider "s < n" | "s = n" | "n < s" by linarith
  then show ?case
  proof cases
    case 1
    then have "apst_eligible d n \<Longrightarrow> apst_target d n \<noteq> 0"
      using Suc.prems by (intro apst_target_nonzero) auto
    moreover have "[s + 1..<Suc n] = [s + 1..<n] @ [n]" using 1 by simp
    ultimately show ?thesis
      unfolding IH using 1 by (auto simp: find_snoc split: option.split simp del: upt_Suc)
  qed (unfold IH, use Suc.prems in simp_all)
qed simp

lemma apst_table_entry:
  assumes "unat (i_npss d) \<le> 31" and "s \<le> unat (i_npss d)"
  shows "case find (apst_eligible d) [s + 1..<unat (i_npss d) + 1] of
      None \<Rightarrow> apst_table d ! s = 0
    | Some t \<Rightarrow>
        unat (drop_bit 3 (apst_table d ! s) AND 0x1f) = t \<and>
        (let idle_us = 1000 * unat (drop_bit 8 (apst_table d ! s));
             lat = unat (ps_exit_lat (psd_of d t)) + unat (ps_entry_lat (psd_of d t))
         in idle_us < 50 * lat + 1000 \<and> (50 * lat \<le> idle_us \<or> idle_us = 1000 * (2 ^ 24 - 1)))"
proof (cases "find (apst_eligible d) [s + 1..<unat (i_npss d) + 1]")
  case None
  with assms show ?thesis
    unfolding apst_table_def by (simp add: apst_fill_entry del: upt_Suc)
next
  case (Some t)
  then have t: "t < 32" using assms by (auto simp: find_Some_iff simp del: upt_Suc)
  have e: "apst_table d ! s = apst_target d t"
    using Some assms unfolding apst_table_def by (simp add: apst_fill_entry del: upt_Suc)
  define lat where "lat = unat (ps_exit_lat (psd_of d t)) + unat (ps_entry_lat (psd_of d t))"
  have b: "unat (x :: u32) < 2 ^ 32" for x using unsigned_less[of x] by simp
  have lat: "unat (total_latency_us d t) = lat" "lat < 2 ^ 33"
    using b[of "ps_exit_lat (psd_of d t)"] b[of "ps_entry_lat (psd_of d t)"]
    unfolding lat_def total_latency_us_def
    by (auto simp: unat_word_ariths unsigned_ucast_eq take_bit_eq_mod)
  have q: "unat ((total_latency_us d t + 19) div 20) = (lat + 19) div 20"
    using lat by (simp add: unat_div unat_word_ariths)
  have "unat (transition_ms (total_latency_us d t)) = min ((lat + 19) div 20) (2 ^ 24 - 1)"
    using q by (auto simp: transition_ms_def Let_def word_less_nat_alt)
  then show ?thesis
    using apst_target_decode[OF t, of d] Some by (simp add: e Let_def lat_def[symmetric]) linarith
qed

lemma apst_eligible_fold:
  "(\<lambda>t. \<not> (t = unat (i_npss d) \<and> i_quirks d AND NVME_QUIRK_NO_DEEPEST_PS \<noteq> 0) \<and>
     ps_flags (psd_of d t) AND NVME_PS_FLAGS_NON_OP_STATE \<noteq> 0 \<and>
     unat (ps_exit_lat (psd_of d t)) \<le> unat (i_ps_max_latency_us d)) = apst_eligible d"
  by (simp add: fun_eq_iff apst_eligible_def)

text \<open>The heuristic the driver documents also says that no state is entered whose total latency is above the
  limit; the code compares only the exit latency with it. State 1 of this table takes 1410 microseconds to
  enter and leave, and is entered under a limit of 1300.
\<close>

definition ident_slow :: ctrl_ident where
  "ident_slow = init_ident\<lparr>i_npss := 1, i_quirks := 0, i_ps_max_latency_us := 1300,
     i_psd := [\<lparr>ps_flags = 0, ps_entry_lat = 0, ps_exit_lat = 0\<rparr>,
               \<lparr>ps_flags = 2, ps_entry_lat = 210, ps_exit_lat = 1200\<rparr>]\<rparr>"

lemma slow_state_entered:
  "unat (drop_bit 3 (apst_table ident_slow ! 0) AND 0x1f) = 1 \<and>
   unat (i_ps_max_latency_us ident_slow) < unat (total_latency_us ident_slow 1)"
proof -
  have n: "unat (i_npss ident_slow) = 1" by (simp add: ident_slow_def)
  have "find (apst_eligible ident_slow) [0 + 1..<unat (i_npss ident_slow) + 1] = Some 1"
    by (simp add: upt_conv_Cons n) (simp add: ident_slow_def apst_eligible_def)
  then have "apst_table ident_slow ! 0 = apst_target ident_slow 1"
    unfolding apst_table_def using n by (simp add: apst_fill_entry del: upt_Suc)
  moreover have "unat (drop_bit 3 (apst_target ident_slow 1) AND 0x1f) = 1"
    using apst_target_decode[of 1 ident_slow] by simp
  ultimately show ?thesis by (simp add: ident_slow_def total_latency_us_def)
qed

text \<open>C13. The autonomous power state table implements the code's heuristic: the entry of each state names the
  nearest deeper state that is non-operational, has an exit latency within the limit and is not the deepest
  one where that is quirked off, or is empty when there is none; and the idle time before the transition is at
  least fifty times that state's total latency, rounded up to a millisecond, unless this exceeds the
  field's 24 bits, which then hold their greatest value. The total latency is not compared with the limit
  (\<open>slow_state_entered\<close>), though the driver's comment says so.
\<close>

theorem apst_table_correct:
  assumes "unat (i_npss d) \<le> 31" and "s \<le> unat (i_npss d)"
  shows "case find (\<lambda>t. \<not> (t = unat (i_npss d) \<and> i_quirks d AND NVME_QUIRK_NO_DEEPEST_PS \<noteq> 0) \<and>
        ps_flags (psd_of d t) AND NVME_PS_FLAGS_NON_OP_STATE \<noteq> 0 \<and>
        unat (ps_exit_lat (psd_of d t)) \<le> unat (i_ps_max_latency_us d)) [s + 1..<unat (i_npss d) + 1] of
      None \<Rightarrow> apst_table d ! s = 0
    | Some t \<Rightarrow>
        unat (drop_bit 3 (apst_table d ! s) AND 0x1f) = t \<and>
        (let idle_us = 1000 * unat (drop_bit 8 (apst_table d ! s));
             lat = unat (ps_exit_lat (psd_of d t)) + unat (ps_entry_lat (psd_of d t))
         in idle_us < 50 * lat + 1000 \<and> (50 * lat \<le> idle_us \<or> idle_us = 1000 * (2 ^ 24 - 1)))"
  unfolding apst_eligible_fold using assms by (rule apst_table_entry)

definition ident0 :: ctrl_ident where
  "ident0 = init_ident\<lparr>i_npss := 2, i_ps_max_latency_us := 100000,
     i_psd := [\<lparr>ps_flags = 0, ps_entry_lat = 0, ps_exit_lat = 0\<rparr>,
               \<lparr>ps_flags = 2, ps_entry_lat = 210, ps_exit_lat = 1200\<rparr>,
               \<lparr>ps_flags = 2, ps_entry_lat = 2200, ps_exit_lat = 300000\<rparr>]\<rparr>"

lemma i_npss_ident0: "i_npss ident0 = 2"
  by (simp add: ident0_def)

theorem apst_table_correct_witness:
  "unat (drop_bit 3 (apst_table ident0 ! 0) AND 0x1f) = 1 \<and>
   50 * 1410 \<le> 1000 * unat (drop_bit 8 (apst_table ident0 ! 0))"
proof -
  have e: "find (apst_eligible ident0) [0 + 1..<unat (i_npss ident0) + 1] = Some 1"
    by (simp add: upt_conv_Cons i_npss_ident0) (simp add: ident0_def apst_eligible_def)
  have n: "unat (i_npss ident0) \<le> 31" by (simp add: ident0_def)
  have t: "unat (transition_ms (total_latency_us ident0 1)) = 71"
    by (simp add: ident0_def transition_ms_def total_latency_us_def)
  show ?thesis
    using apst_table_correct[OF n, of 0] unfolding apst_eligible_fold e
    by (simp add: Let_def ident0_def[of] del: One_nat_def) auto
qed

section \<open>What identification checks\<close>

text \<open>The configuration steps touch only the cached identify data and talk to the controller.\<close>

lemma configure_frame [simp]:
  "ctrl_frame c0 (snd (snd (nvme_configure_apst e c))) = ctrl_frame c0 c"
  "ctrl_frame c0 (snd (nvme_configure_timestamp e c)) = ctrl_frame c0 c"
  "ctrl_frame c0 (snd (nvme_configure_acre e c)) = ctrl_frame c0 c"
  "ctrl_frame c0 (snd (nvme_configure_directives e c)) = ctrl_frame c0 c"
  "ctrl_frame c0 (snd (nvme_get_effects_log e c)) = ctrl_frame c0 c"
  by (simp_all add: nvme_configure_apst_def nvme_configure_timestamp_def nvme_configure_acre_def
      nvme_configure_directives_def nvme_get_effects_log_def nvme_toggle_streams_def frame_simps)

lemma configure_state [simp]:
  "c_state (snd (snd (nvme_configure_apst e c))) = c_state c"
  "c_state (snd (nvme_configure_timestamp e c)) = c_state c"
  "c_state (snd (nvme_configure_acre e c)) = c_state c"
  "c_state (snd (nvme_configure_directives e c)) = c_state c"
  "c_state (snd (nvme_get_effects_log e c)) = c_state c"
  by (simp_all add: nvme_configure_apst_def nvme_configure_timestamp_def nvme_configure_acre_def
      nvme_configure_directives_def nvme_get_effects_log_def nvme_toggle_streams_def Let_def split_beta)

lemma configure_pending [simp]:
  "c_pending (snd (snd (nvme_configure_apst e c))) = c_pending c"
  "c_pending (snd (nvme_configure_timestamp e c)) = c_pending c"
  "c_pending (snd (nvme_configure_acre e c)) = c_pending c"
  "c_pending (snd (nvme_configure_directives e c)) = c_pending c"
  "c_pending (snd (nvme_get_effects_log e c)) = c_pending c"
  by (simp_all add: nvme_configure_apst_def nvme_configure_timestamp_def nvme_configure_acre_def
      nvme_configure_directives_def nvme_get_effects_log_def nvme_toggle_streams_def Let_def split_beta)

definition res_frame :: "nvme_ctrl \<Rightarrow> nvme_ctrl \<Rightarrow> bool" where
  "res_frame c c' \<longleftrightarrow> c_opts c' = c_opts c \<and> c_queue_count c' = c_queue_count c \<and> mtrace c' = mtrace c \<and>
     c_state c' = c_state c \<and> c_nr_reconnects c' = c_nr_reconnects c \<and> c_cntlid c' = c_cntlid c \<and>
     c_pending c' = c_pending c"

lemma res_frame_refl [simp]: "res_frame c c"
  by (simp add: res_frame_def)

lemma res_frame_ctrl:
  "ctrl_frame c c' \<Longrightarrow> c_state c' = c_state c \<Longrightarrow> c_pending c' = c_pending c \<Longrightarrow>
     res_frame c0 c' = res_frame c0 c"
  by (auto simp: res_frame_def ctrl_frame_def)

lemma res_frame_upd [simp]:
  "res_frame c0 (c\<lparr>c_ident := d\<rparr>) = res_frame c0 c"
  "res_frame c0 (c\<lparr>c_sqsize := x1\<rparr>) = res_frame c0 c"
  "res_frame c0 (c\<lparr>c_crdt := x2\<rparr>) = res_frame c0 c"
  "res_frame c0 (c\<lparr>c_mtfa := x3\<rparr>) = res_frame c0 c"
  "res_frame c0 (c\<lparr>c_oaes := x4\<rparr>) = res_frame c0 c"
  "res_frame c0 (c\<lparr>c_max_hw_sectors := x5\<rparr>) = res_frame c0 c"
  "res_frame c0 (c\<lparr>c_max_segments := x5\<rparr>) = res_frame c0 c"
  "res_frame c0 (c\<lparr>c_sgls := x6\<rparr>) = res_frame c0 c"
  "res_frame c0 (c\<lparr>c_kas := x7\<rparr>) = res_frame c0 c"
  "res_frame c0 (c\<lparr>c_ctratt := x8\<rparr>) = res_frame c0 c"
  "res_frame c0 (c\<lparr>c_shutdown_timeout := x9\<rparr>) = res_frame c0 c"
  "res_frame c0 (c\<lparr>c_icdoff := y1\<rparr>) = res_frame c0 c"
  "res_frame c0 (c\<lparr>c_ioccsz := y2\<rparr>) = res_frame c0 c"
  "res_frame c0 (c\<lparr>c_maxcmd := y3\<rparr>) = res_frame c0 c"
  by (simp_all add: res_frame_def mtrace_def)

lemma res_frame_call [simp]: "\<not> material k \<Longrightarrow> res_frame c0 (call k c) = res_frame c0 c"
  by (rule res_frame_ctrl) (simp_all add: ctrl_frame_call)

lemma res_frame_ops [simp]:
  "res_frame c0 (snd (snd (nvme_configure_apst e c))) = res_frame c0 c"
  "res_frame c0 (snd (nvme_configure_timestamp e c)) = res_frame c0 c"
  "res_frame c0 (snd (nvme_configure_acre e c)) = res_frame c0 c"
  "res_frame c0 (snd (nvme_configure_directives e c)) = res_frame c0 c"
  "res_frame c0 (snd (nvme_get_effects_log e c)) = res_frame c0 c"
  "res_frame c0 (snd (nvme_enable_ctrl re c)) = res_frame c0 c"
  by (rule res_frame_ctrl; simp)+

lemma res_frame_cache [simp]: "res_frame c0 (cache_identify e idc c) = res_frame c0 c"
  by (simp add: cache_identify_def Let_def)

lemma res_frame_parts [simp]:
  "res_frame c0 (snd (identify_first e idc c)) = res_frame c0 c"
  "res_frame c0 (snd (configure_features e c)) = res_frame c0 c"
  "res_frame c0 (fabrics_identify idc c) = res_frame c0 c"
  "res_frame c0 (identify_regs vs c) = res_frame c0 c"
  by (simp_all add: identify_first_def configure_features_def fabrics_identify_def identify_regs_def Let_def split_beta)

lemma res_frame_identify [simp]: "res_frame c0 (snd (nvme_init_identify e c)) = res_frame c0 c"
  by (simp add: nvme_init_identify_def Let_def split_beta)

lemma identify_frames [simp]:
  "ctrl_frame c0 (snd (identify_first e idc c)) = ctrl_frame c0 c"
  "ctrl_frame c0 (snd (configure_features e c)) = ctrl_frame c0 c"
  by (simp_all add: identify_first_def configure_features_def frame_simps)

lemma configure_features_identified:
  "configure_features e c = (0, c') \<Longrightarrow> i_identified (c_ident c')"
  by (auto simp: configure_features_def Let_def split_beta split: if_splits)

lemma cache_identify_fields:
  "c_kas (cache_identify e idc c) = id_kas idc" "c_sgls (cache_identify e idc c) = id_sgls idc"
  "c_sqsize (cache_identify e idc c) = c_sqsize c" "c_cntlid (cache_identify e idc c) = c_cntlid c"
  "c_opts (cache_identify e idc c) = c_opts c"
  by (simp_all add: cache_identify_def Let_def call_def)

text \<open>A controller that is initialised is one the host can use: it answers with the id the admin connect
  returned, supports keep-alive unless it is a discovery controller, its queues are no deeper than the
  capability register allows and never deeper than before, and the cached values are the ones it reported.
\<close>

theorem init_identify_checks:
  assumes "nvme_init_identify e c = (0, c')" and "ide_identify e = (0, idc)"
  shows "c_cntlid c = id_cntlid idc \<and> (o_discovery_nqn (c_opts c) \<or> id_kas idc \<noteq> 0) \<and>
    unat (c_sqsize c') = min (unat (c_cap c) mod 2 ^ 16) (unat (c_sqsize c)) \<and>
    c_sgls c' = id_sgls idc \<and> c_icdoff c' = id_icdoff idc \<and> c_maxcmd c' = id_maxcmd idc \<and>
    c_ioccsz c' = id_ioccsz idc \<and> c_state c' = c_state c \<and> i_identified (c_ident c')"
proof -
  let ?c1 = "identify_regs (snd (ide_vs e)) c"
  obtain r2 c2 where 2: "identify_first e idc ?c1 = (r2, c2)" by fastforce
  let ?c3 = "fabrics_identify idc (cache_identify e idc c2)"
  have f2: "ctrl_frame ?c1 c2" using identify_frames(1)[of ?c1 e idc ?c1] by (simp add: 2)
  have c1: "c_opts ?c1 = c_opts c" "c_cntlid ?c1 = c_cntlid c"
    "c_sqsize ?c1 = min (ucast (NVME_CAP_MQES (c_cap c))) (c_sqsize c)"
    by (simp_all add: identify_regs_def Let_def)
  have c3: "c_opts ?c3 = c_opts c" "c_cntlid ?c3 = c_cntlid c" "c_kas ?c3 = id_kas idc"
    "c_sqsize ?c3 = c_sqsize ?c1" "c_sgls ?c3 = id_sgls idc" "c_icdoff ?c3 = id_icdoff idc"
    "c_maxcmd ?c3 = id_maxcmd idc" "c_ioccsz ?c3 = id_ioccsz idc"
    using f2 c1 by (simp_all add: fabrics_identify_def cache_identify_fields ctrl_frame_def)
  from assms 2 have run: "c_cntlid ?c3 = id_cntlid idc" "o_discovery_nqn (c_opts ?c3) \<or> c_kas ?c3 \<noteq> 0"
    "configure_features e ?c3 = (0, c')"
    by (auto simp: nvme_init_identify_def Let_def split_beta split: if_splits)
  have f: "ctrl_frame ?c3 c'" using identify_frames(2)[of ?c3 e ?c3] by (simp add: run(3))
  have "c_state c' = c_state c"
    using res_frame_identify[of c e c] assms(1) by (simp add: res_frame_def)
  moreover have "unat (c_sqsize c') = min (unat (c_cap c) mod 2 ^ 16) (unat (c_sqsize c))"
  proof -
    have "unat (ucast (NVME_CAP_MQES (c_cap c)) :: u16) = unat (c_cap c) mod 2 ^ 16"
    proof -
      have m: "x AND 0xffff = take_bit 16 x" for x :: u64
        by (simp add: take_bit_eq_mask mask_eq_exp_minus_1)
      show ?thesis unfolding m
        by (simp add: unsigned_ucast_eq unsigned_take_bit_eq take_bit_eq_mod[where 'a = nat])
    qed
    then show ?thesis using f c3(4) c1(3) by (simp add: ctrl_frame_def min_def word_le_nat_alt)
  qed
  ultimately show ?thesis
    using run(1,2) f c3 configure_features_identified[OF run(3)] by (simp add: ctrl_frame_def)
qed

definition idc0 :: id_ctrl where
  "idc0 = \<lparr>id_vid = 0x1af4, id_mn = replicate 40 CHR 0x20, id_fr = replicate 8 CHR 0x20, id_mdts = 5,
     id_cntlid = 3, id_rtd3e = 0, id_oaes = 0x900, id_ctratt = 0, id_crdt = [0, 0, 0], id_oacs = 0,
     id_acl = 3, id_lpa = 0, id_npss = 0, id_apsta = 0, id_mtfa = 0, id_kas = 10, id_maxcmd = 128,
     id_mnan = 0, id_oncs = 0, id_vwc = 1, id_sgls = 0x100005, id_ioccsz = 260, id_iorcsz = 1,
     id_icdoff = 0, id_psd = []\<rparr>"

definition identenv0 :: identify_env where
  "identenv0 = \<lparr>ide_vs = (0, 0x10300), ide_identify = (0, idc0), ide_effects_alloc = True, ide_effects_log = 0,
     ide_init_subsystem = (\<lambda>_. 0), ide_mpath_init = 0, ide_features = (\<lambda>_ _. (0, 0)),
     ide_alloc_table = True, ide_alloc_host = True, ide_toggle_streams = (\<lambda>_. 0), ide_stream_params = (0, 0),
     ide_force_apst = False, ide_streams = False, ide_shutdown_timeout = 5\<rparr>"

lemmas identify_example_defs = nvme_init_identify_def identify_regs_def identify_first_def cache_identify_def
  fabrics_identify_def configure_features_def nvme_configure_apst_def nvme_configure_timestamp_def
  nvme_configure_directives_def nvme_configure_acre_def add_quirks_def core_quirks_def quirk_matches_def
  identenv0_def idc0_def nvme_init_ctrl_def init_ident_def call_def

definition connected0 :: nvme_ctrl where
  "connected0 = (nvme_init_ctrl opts_min)\<lparr>c_cntlid := 3, c_cap := 0x7f, c_sqsize := 0xff\<rparr>"

lemma connected0_identified: "fst (nvme_init_identify identenv0 connected0) = 0"
  by (simp add: identify_example_defs connected0_def Let_def)

theorem init_identify_checks_witness:
  "unat (c_sqsize (snd (nvme_init_identify identenv0 connected0))) = 127 \<and>
   i_identified (c_ident (snd (nvme_init_identify identenv0 connected0)))"
proof -
  have run: "nvme_init_identify identenv0 connected0 = (0, snd (nvme_init_identify identenv0 connected0))"
    using connected0_identified by (metis prod.collapse)
  have "ide_identify identenv0 = (0, idc0)" by (simp add: identenv0_def)
  from init_identify_checks[OF run this] show ?thesis by (simp add: connected0_def)
qed

end
