(* ===== verification/Target_Admin.thy ===== *)
theory Target_Admin
  imports Target_Backend Target_Connect Host_Identify
begin

text \<open>
  The admin commands of an NVM subsystem (\<open>target/admin-cmd.c\<close>): features, the SMART, effects and ANA logs,
  and the identify structures. Commands that change namespaces work on the whole target, the others on
  the queue they came in on.
\<close>

section \<open>Features\<close>

abbreviation (input) NVME_SC_FEATURE_NOT_CHANGEABLE :: u16 where "NVME_SC_FEATURE_NOT_CHANGEABLE \<equiv> 0x10e"
abbreviation (input) NVMET_AEN_CFG_ALL :: u32 where "NVMET_AEN_CFG_ALL \<equiv> 0x1f OR NVMET_AEN_CFG_OPTIONAL"
abbreviation (input) NVMET_DISC_AEN_CFG_OPTIONAL :: u32 where "NVMET_DISC_AEN_CFG_OPTIONAL \<equiv> NVME_AEN_CFG_DISC_CHANGE"

definition nvmet_execute_abort :: "nvmet_req \<Rightarrow> nvmet_queue \<Rightarrow> nvmet_queue" where
  "nvmet_execute_abort r q = nvmet_req_complete 0 (nvmet_set_result 1 r) q"

text \<open>\<open>flush\<close> is what the file system or the block layer answers.\<close>

definition nvmet_write_protect_flush_sync :: "int \<Rightarrow> nvmet_ns \<Rightarrow> nvmet_req \<Rightarrow> u16 \<times> nvmet_req" where
  "nvmet_write_protect_flush_sync flush ns r =
     (if ns_file ns \<noteq> File_null then nvmet_file_flush flush r else (nvmet_bdev_flush flush, r))"

definition set_readonly :: "nat \<Rightarrow> bool \<Rightarrow> nvmet_subsys \<Rightarrow> nvmet_subsys" where
  "set_readonly a ro y = set_ns a ((ns_at y a)\<lparr>ns_readonly := ro\<rparr>) y"

definition nvmet_set_feat_write_protect ::
  "(nat \<Rightarrow> bool) \<Rightarrow> int \<Rightarrow> nat \<Rightarrow> nat \<Rightarrow> nvmet_req \<Rightarrow> target \<Rightarrow> u16 \<times> nvmet_req \<times> target" where
  "nvmet_set_feat_write_protect alloc flush ya qa r t =
     (let y = the (t_subsys t ya);
          write_protect = tc_cdw11 (r_cmd r);
          t = on_queue qa (\<lambda>q. snd (nvmet_find_namespace y (tc_nsid (r_cmd r)) q)) t
      in case find_ns y (tc_nsid (r_cmd r)) of
           None \<Rightarrow> (NVME_SC_FEATURE_NOT_CHANGEABLE, r\<lparr>r_ns := None, r_error_loc := OFF_NSID\<rparr>, t)
         | Some a \<Rightarrow>
             let r = r\<lparr>r_ns := Some a\<rparr>;
                 (status, r, t) =
                   (if write_protect = NVME_NS_WRITE_PROTECT then
                      let t = upd_subsys ya (set_readonly a True) t;
                          (status, r) = nvmet_write_protect_flush_sync flush (ns_at y a) r
                      in (status, r, if status \<noteq> 0 then upd_subsys ya (set_readonly a False) t else t)
                    else if write_protect = NVME_NS_NO_WRITE_PROTECT
                    then (0, r, upd_subsys ya (set_readonly a False) t)
                    else (NVME_SC_FEATURE_NOT_CHANGEABLE, r, t))
             in (status, r, if status = 0 then upd_subsys ya (nvmet_ns_changed alloc (nsid_at y a)) t else t))"

text \<open>A handler of the queue's controller that ends with a status.\<close>

definition with_ctrl :: "(nvmet_ctrl \<Rightarrow> u16 \<times> nvmet_req \<times> nvmet_ctrl) \<Rightarrow> nvmet_queue \<Rightarrow> nvmet_queue" where
  "with_ctrl f q =
     (case q_ctrl q of
        None \<Rightarrow> q
      | Some c \<Rightarrow> let (status, r, c) = f c in nvmet_req_complete status r (q\<lparr>q_ctrl := Some c\<rparr>))"

definition num_queues_result :: "u16 \<Rightarrow> u32" where
  "num_queues_result max_qid = (ucast max_qid - 1) OR push_bit 16 (ucast max_qid - 1)"

definition nvmet_execute_set_features ::
  "(nat \<Rightarrow> bool) \<Rightarrow> int \<Rightarrow> nat \<Rightarrow> nvmet_req \<Rightarrow> target \<Rightarrow> target" where
  "nvmet_execute_set_features alloc flush qa r t =
     (case tq_ctrl (t_queues t qa) of
        None \<Rightarrow> t
      | Some p \<Rightarrow>
          let y = the (t_subsys t (fst p));
              fid = tc_cdw10 (r_cmd r) AND 0xff;
              complete = (\<lambda>status r t. on_queue qa (nvmet_req_complete status r) t)
          in if fid = NVME_FEAT_NUM_QUEUES then complete 0 (nvmet_set_result (num_queues_result (y_max_qid y)) r) t
             else if fid = NVME_FEAT_KATO then on_queue qa (with_ctrl (nvmet_set_feat_kato r)) t
             else if fid = NVME_FEAT_ASYNC_EVENT
             then on_queue qa (with_ctrl (nvmet_set_feat_async_event NVMET_AEN_CFG_ALL r)) t
             else if fid = NVME_FEAT_HOST_ID then complete (NVME_SC_CMD_SEQ_ERROR OR NVME_SC_DNR) r t
             else if fid = NVME_FEAT_WRITE_PROTECT
             then let (status, r, t) = nvmet_set_feat_write_protect alloc flush (fst p) qa r t in complete status r t
             else complete (NVME_SC_INVALID_FIELD OR NVME_SC_DNR) (r\<lparr>r_error_loc := OFF_CDW10\<rparr>) t)"

text \<open>Reading features: \<open>y\<close> is the subsystem of the queue's controller.\<close>

definition nvmet_get_feat_write_protect :: "nvmet_subsys \<Rightarrow> nvmet_req \<Rightarrow> nvmet_queue \<Rightarrow> u16 \<times> nvmet_req \<times> nvmet_queue" where
  "nvmet_get_feat_write_protect y r q =
     (let (found, q) = nvmet_find_namespace y (tc_nsid (r_cmd r)) q; r = r\<lparr>r_ns := found\<rparr>
      in case found of
           None \<Rightarrow> (NVME_SC_INVALID_NS OR NVME_SC_DNR, r\<lparr>r_error_loc := OFF_NSID\<rparr>, q)
         | Some a \<Rightarrow> (0, nvmet_set_result (if ns_readonly (ns_at y a) then NVME_NS_WRITE_PROTECT
                                          else NVME_NS_NO_WRITE_PROTECT) r, q))"

definition nvmet_execute_get_features :: "nvmet_subsys \<Rightarrow> nvmet_req \<Rightarrow> nvmet_queue \<Rightarrow> nvmet_queue" where
  "nvmet_execute_get_features y r q =
     (let fid = tc_cdw10 (r_cmd r) AND 0xff
      in if fid = NVME_FEAT_ASYNC_EVENT then with_ctrl (\<lambda>c. (0, nvmet_get_feat_async_event r c, c)) q
         else if fid = NVME_FEAT_VOLATILE_WC then nvmet_req_complete 0 (nvmet_set_result 1 r) q
         else if fid = NVME_FEAT_NUM_QUEUES
         then nvmet_req_complete 0 (nvmet_set_result (num_queues_result (y_max_qid y)) r) q
         else if fid = NVME_FEAT_KATO then with_ctrl (\<lambda>c. (0, nvmet_get_feat_kato r c, c)) q
         else if fid = NVME_FEAT_HOST_ID then
           (if tc_cdw11 (r_cmd r) AND 1 = 0
            then nvmet_req_complete (NVME_SC_INVALID_FIELD OR NVME_SC_DNR) (r\<lparr>r_error_loc := OFF_CDW11\<rparr>) q
            else with_ctrl (\<lambda>c. let (status, r) = nvmet_copy_to_sgl 0 (n_hostid c) r in (status, r, c)) q)
         else if fid = NVME_FEAT_WRITE_PROTECT then
           let (status, r, q) = nvmet_get_feat_write_protect y r q in nvmet_req_complete status r q
         else nvmet_req_complete (NVME_SC_INVALID_FIELD OR NVME_SC_DNR) (r\<lparr>r_error_loc := OFF_CDW10\<rparr>) q)"

section \<open>Structures as bytes\<close>

definition put_at :: "nat \<Rightarrow> u8 list \<Rightarrow> u8 list \<Rightarrow> u8 list" where
  "put_at off bs page = take off page @ bs @ drop (off + length bs) page"

section \<open>Logs\<close>

text \<open>The statistics of a block device: requests and sectors, read and written.\<close>

record part_stats =
  ps_read_ios :: u64
  ps_read_sectors :: u64
  ps_write_ios :: u64
  ps_write_sectors :: u64

definition data_units :: "u64 \<Rightarrow> u64" where "data_units sectors = (sectors + 999) div 1000"

definition smart_page :: "u64 \<Rightarrow> u64 \<Rightarrow> u64 \<Rightarrow> u64 \<Rightarrow> u8 list" where
  "smart_page host_reads units_read host_writes units_written =
     put_at 32 (le_bytes 8 units_read) (put_at 48 (le_bytes 8 units_written)
       (put_at 64 (le_bytes 8 host_reads) (put_at 80 (le_bytes 8 host_writes) (replicate 512 0))))"

definition nvmet_get_smart_log_nsid ::
  "(nat \<Rightarrow> part_stats) \<Rightarrow> nvmet_subsys \<Rightarrow> nvmet_req \<Rightarrow> u16 \<times> u8 list \<times> nvmet_req" where
  "nvmet_get_smart_log_nsid stats y r =
     (case find_ns y (tc_nsid (r_cmd r)) of
        None \<Rightarrow> (NVME_SC_INVALID_NS, replicate 512 0, r\<lparr>r_error_loc := OFF_NSID\<rparr>)
      | Some a \<Rightarrow>
          if \<not> ns_bdev (ns_at y a) then (0, replicate 512 0, r)
          else (0, smart_page (ps_read_ios (stats a)) (data_units (ps_read_sectors (stats a)))
                 (ps_write_ios (stats a)) (data_units (ps_write_sectors (stats a))), r))"

definition nvmet_get_smart_log_all :: "(nat \<Rightarrow> part_stats) \<Rightarrow> nvmet_subsys \<Rightarrow> u8 list" where
  "nvmet_get_smart_log_all stats y =
     (let devs = map stats (filter (\<lambda>a. ns_bdev (ns_at y a)) (y_namespaces y))
      in smart_page (sum_list (map ps_read_ios devs)) (sum_list (map (data_units \<circ> ps_read_sectors) devs))
           (sum_list (map ps_write_ios devs)) (sum_list (map (data_units \<circ> ps_write_sectors) devs)))"

definition nvmet_execute_get_log_page_smart ::
  "bool \<Rightarrow> (nat \<Rightarrow> part_stats) \<Rightarrow> nvmet_subsys \<Rightarrow> nvmet_req \<Rightarrow> nvmet_queue \<Rightarrow> nvmet_queue" where
  "nvmet_execute_get_log_page_smart alloc stats y r q =
     (case q_ctrl q of
        None \<Rightarrow> q
      | Some c \<Rightarrow>
          if r_data_len r \<noteq> 512 \<or> \<not> alloc then nvmet_req_complete NVME_SC_INTERNAL r q
          else
            let (status, page, r) = (if tc_nsid (r_cmd r) = NVME_NSID_ALL then (0, nvmet_get_smart_log_all stats y, r)
                                     else nvmet_get_smart_log_nsid stats y r)
            in if status \<noteq> 0 then nvmet_req_complete status r q
               else let (status, r) = nvmet_copy_to_sgl 0 (put_at 176 (le_bytes 8 (n_err_counter c)) page) r
                    in nvmet_req_complete status r q)"

text \<open>Commands supported: admin commands from byte 0 on, I/O commands from byte 1024 on, 4 bytes each.\<close>

definition effects_page :: "u8 list" where
  "effects_page =
     fold (\<lambda>off. put_at off [1, 0, 0, 0])
       (map (\<lambda>op. 4 * unat op) [nvme_admin_get_log_page, nvme_admin_identify, nvme_admin_abort_cmd,
          nvme_admin_set_features, nvme_admin_get_features, nvme_admin_async_event, nvme_admin_keep_alive] @
        map (\<lambda>op. 1024 + 4 * unat op) [nvme_cmd_read, nvme_cmd_write, nvme_cmd_flush, nvme_cmd_dsm, nvme_cmd_write_zeroes])
       (replicate 4096 0)"

definition nvmet_execute_get_log_cmd_effects_ns :: "bool \<Rightarrow> nvmet_req \<Rightarrow> nvmet_queue \<Rightarrow> nvmet_queue" where
  "nvmet_execute_get_log_cmd_effects_ns alloc r q =
     (if \<not> alloc then nvmet_req_complete NVME_SC_INTERNAL r q
      else let (status, r) = nvmet_copy_to_sgl 0 effects_page r in nvmet_req_complete status r q)"

text \<open>Bit 0 of the log specific parameter (bits 8 to 11 of the first dword) asks for the groups only.\<close>

definition ana_rgo :: "nvme_cmd \<Rightarrow> bool" where
  "ana_rgo cmd = (drop_bit 8 (tc_cdw10 cmd) AND 1 \<noteq> 0)"

definition nvmet_format_ana_group :: "nvmet_port \<Rightarrow> u64 \<Rightarrow> nvmet_subsys \<Rightarrow> nvmet_req \<Rightarrow> nat \<Rightarrow> u8 list" where
  "nvmet_format_ana_group p chgcnt y r grpid =
     (let nsids = (if ana_rgo (r_cmd r) then []
                   else map (nsid_at y) (filter (\<lambda>a. ns_anagrpid (ns_at y a) = of_nat grpid) (y_namespaces y)))
      in le_bytes 4 (of_nat grpid :: u32) @ le_bytes 4 (of_nat (length nsids) :: u32) @ le_bytes 8 chgcnt @
         [p_ana_state p (of_nat grpid)] @ replicate 15 0 @ concat (map (le_bytes 4) nsids))"

text \<open>The groups in use are written after the header until one does not fit, all of them are counted.\<close>

fun ana_loop :: "(nat \<Rightarrow> u8 list) \<Rightarrow> nat list \<Rightarrow> nat \<Rightarrow> nvmet_req \<Rightarrow> nvmet_req" where
  "ana_loop fmt [] off r = r"
| "ana_loop fmt (g # gs) off r =
     (let (status, r) = nvmet_copy_to_sgl off (fmt g) r
      in if status \<noteq> 0 then r else ana_loop fmt gs (off + length (fmt g)) r)"

definition ana_groups :: "nvmet_ana \<Rightarrow> nat list" where
  "ana_groups g = filter (\<lambda>i. a_group_enabled g (of_nat i) \<noteq> 0) [1..<129]"

definition nvmet_execute_get_log_page_ana ::
  "bool \<Rightarrow> nvmet_port \<Rightarrow> nvmet_ana \<Rightarrow> nvmet_subsys \<Rightarrow> nvmet_req \<Rightarrow> nvmet_queue \<Rightarrow> nvmet_queue" where
  "nvmet_execute_get_log_page_ana alloc p g y r q =
     (if \<not> alloc then nvmet_req_complete NVME_SC_INTERNAL r q
      else
        let r = ana_loop (nvmet_format_ana_group p (a_chgcnt g) y r) (ana_groups g) 16 r;
            hdr = le_bytes 8 (a_chgcnt g) @ le_bytes 2 (of_nat (length (ana_groups g)) :: u16) @ replicate 6 0;
            q = upd_ctrl (nvmet_clear_aen_bit r NVME_AEN_BIT_ANA_CHANGE) q;
            (status, r) = nvmet_copy_to_sgl 0 hdr r
        in nvmet_req_complete status r q)"

section \<open>Identify\<close>

text \<open>A 32-bit number as a 16-bit one counted from 0.\<close>

definition to0based :: "u32 \<Rightarrow> u16" where
  "to0based a = ucast (max 1 (min (push_bit 16 1) a) - 1)"

record queue_geometry =
  qg_logical :: u32
  qg_physical :: u32
  qg_discard_granularity :: u32
  qg_io_opt :: u32

text \<open>The fields of \<open>struct nvme_id_ns\<close> the target fills in.\<close>

record id_ns =
  id_nsze :: u64
  id_ncap :: u64
  id_nuse :: u64
  id_nsfeat :: u8
  id_nmic :: u8
  id_nsattr :: u8
  id_nawun :: u16
  id_nawupf :: u16
  id_nacwu :: u16
  id_npwg :: u16
  id_npwa :: u16
  id_npdg :: u16
  id_npda :: u16
  id_nows :: u16
  id_anagrpid :: u32
  id_nguid :: "u8 list"
  id_lbaf0_ds :: u8

definition zero_id_ns :: id_ns where
  "zero_id_ns = \<lparr>id_nsze = 0, id_ncap = 0, id_nuse = 0, id_nsfeat = 0, id_nmic = 0, id_nsattr = 0, id_nawun = 0,
     id_nawupf = 0, id_nacwu = 0, id_npwg = 0, id_npwa = 0, id_npdg = 0, id_npda = 0, id_nows = 0, id_anagrpid = 0,
     id_nguid = replicate 16 0, id_lbaf0_ds = 0\<rparr>"

definition nvmet_bdev_set_limits :: "queue_geometry \<Rightarrow> id_ns \<Rightarrow> id_ns" where
  "nvmet_bdev_set_limits ql d =
     (let lpp0b = to0based (qg_physical ql div qg_logical ql)
      in d\<lparr>id_nsfeat := id_nsfeat d OR push_bit 1 1 OR push_bit 4 1,
           id_nawun := lpp0b, id_nawupf := lpp0b, id_nacwu := lpp0b, id_npwg := lpp0b, id_npwa := lpp0b,
           id_npdg := to0based (qg_discard_granularity ql div qg_logical ql),
           id_npda := to0based (qg_discard_granularity ql div qg_logical ql),
           id_nows := to0based (qg_io_opt ql div qg_logical ql)\<rparr>)"

definition nvmet_identify_ns :: "nvmet_port \<Rightarrow> queue_geometry \<Rightarrow> nvmet_ns \<Rightarrow> id_ns" where
  "nvmet_identify_ns p ql ns =
     (let d = zero_id_ns;
          size = drop_bit (unat (ns_blksize_shift ns)) (ns_size ns);
          d = d\<lparr>id_ncap := size, id_nsze := size\<rparr>;
          state = p_ana_state p (ns_anagrpid ns);
          d = (if state = NVME_ANA_INACCESSIBLE \<or> state = NVME_ANA_PERSISTENT_LOSS then d else d\<lparr>id_nuse := size\<rparr>);
          d = (if ns_bdev ns then nvmet_bdev_set_limits ql d else d);
          d = d\<lparr>id_nmic := 1, id_anagrpid := ns_anagrpid ns, id_nguid := ns_nguid ns, id_lbaf0_ds := ucast (ns_blksize_shift ns)\<rparr>
      in if ns_readonly ns then d\<lparr>id_nsattr := id_nsattr d OR 1\<rparr> else d)"

text \<open>\<open>layout\<close> is the layout of the structure in memory.\<close>

definition nvmet_execute_identify_ns ::
  "(id_ns \<Rightarrow> u8 list) \<Rightarrow> bool \<Rightarrow> nvmet_port \<Rightarrow> (nat \<Rightarrow> queue_geometry) \<Rightarrow> nvmet_subsys \<Rightarrow> nvmet_req \<Rightarrow> nvmet_queue \<Rightarrow>
   nvmet_queue" where
  "nvmet_execute_identify_ns layout alloc p ql y r q =
     (if tc_nsid (r_cmd r) = NVME_NSID_ALL
      then nvmet_req_complete (NVME_SC_INVALID_NS OR NVME_SC_DNR) (r\<lparr>r_error_loc := OFF_NSID\<rparr>) q
      else if \<not> alloc then nvmet_req_complete NVME_SC_INTERNAL r q
      else
        let d = (case find_ns y (tc_nsid (r_cmd r)) of None \<Rightarrow> zero_id_ns
                 | Some a \<Rightarrow> nvmet_identify_ns p (ql a) (ns_at y a));
            (status, r) = nvmet_copy_to_sgl 0 (layout d) r
        in nvmet_req_complete status r q)"

text \<open>What a transport says of itself, and the controller's identity as the host's structure.\<close>

record fabrics_ops =
  fo_has_keyed_sgls :: bool
  fo_msdbd :: u8

abbreviation (input) NVMET_KAS :: u16 where "NVMET_KAS \<equiv> 10"
abbreviation (input) NVMET_MAX_CMD :: u16 where "NVMET_MAX_CMD \<equiv> 1024"
abbreviation (input) NVME_CTRL_ATTR_HID_128_BIT :: u32 where "NVME_CTRL_ATTR_HID_128_BIT \<equiv> 1"
abbreviation (input) NVME_CTRL_ONCS_DSM :: u16 where "NVME_CTRL_ONCS_DSM \<equiv> 4"
abbreviation (input) NVME_CTRL_ONCS_WRITE_ZEROES :: u16 where "NVME_CTRL_ONCS_WRITE_ZEROES \<equiv> 8"

definition nvmet_sgls :: "fabrics_ops \<Rightarrow> nvmet_port \<Rightarrow> u32" where
  "nvmet_sgls ops p =
     push_bit 0 1 OR (if fo_has_keyed_sgls ops then push_bit 2 1 else 0) OR
     (if p_inline_data_size p \<noteq> 0 then push_bit 20 1 else 0)"

definition pad_to :: "nat \<Rightarrow> string \<Rightarrow> string" where
  "pad_to n s = take n s @ replicate (n - length s) CHR '' ''"

text \<open>The fields the target fills in beside those the host reads; what neither names stays zero.\<close>

record nvmet_id_ctrl = id_ctrl +
  id_sn :: string
  id_rab :: u8
  id_cmic :: u8
  id_ver :: u32
  id_aerl :: u8
  id_frmw :: u8
  id_elpe :: u8
  id_sqes :: u8
  id_cqes :: u8
  id_nn :: u32
  id_subnqn :: string
  id_msdbd :: u8
  id_anacap :: u8
  id_anatt :: u8
  id_anagrpmax :: u32
  id_nanagrpid :: u32
  id_psd0_max_power :: u16
  id_nwpc :: u8

definition bin2hex :: "u8 list \<Rightarrow> string" where
  "bin2hex bs = concat (map (\<lambda>b. [''0123456789abcdef'' ! unat (b div 16), ''0123456789abcdef'' ! unat (b mod 16)]) bs)"

definition strlcpy_into :: "nat \<Rightarrow> string \<Rightarrow> string" where
  "strlcpy_into n s = take (n - 1) s @ replicate (n - length (take (n - 1) s)) CHR 0x00"

definition nvmet_identify_ctrl :: "string \<Rightarrow> fabrics_ops \<Rightarrow> nvmet_port \<Rightarrow> nvmet_subsys \<Rightarrow> nvmet_ctrl \<Rightarrow> nvmet_id_ctrl" where
  "nvmet_identify_ctrl release ops p y c =
     \<lparr>id_vid = 0, id_mn = pad_to 40 ''Linux'', id_fr = pad_to 8 release, id_mdts = 0, id_cntlid = n_cntlid c,
      id_rtd3e = 0, id_oaes = NVMET_AEN_CFG_OPTIONAL, id_ctratt = NVME_CTRL_ATTR_HID_128_BIT OR NVME_CTRL_ATTR_TBKAS,
      id_crdt = [0, 0, 0], id_oacs = 0, id_acl = 3, id_lpa = 1 OR push_bit 1 1 OR push_bit 2 1, id_npss = 0,
      id_apsta = 0, id_mtfa = 0, id_kas = NVMET_KAS, id_maxcmd = NVMET_MAX_CMD, id_mnan = of_nat NVMET_MAX_NAMESPACES,
      id_oncs = NVME_CTRL_ONCS_DSM OR NVME_CTRL_ONCS_WRITE_ZEROES, id_vwc = NVME_CTRL_VWC_PRESENT,
      id_sgls = nvmet_sgls ops p, id_ioccsz = ucast ((64 + of_int (p_inline_data_size p) :: u64) div 16),
      id_iorcsz = 16 div 16, id_icdoff = 0,
      id_psd = \<lparr>ps_flags = 0, ps_entry_lat = 0x10, ps_exit_lat = 0x4\<rparr> #
        replicate 31 \<lparr>ps_flags = 0, ps_entry_lat = 0, ps_exit_lat = 0\<rparr>,
      id_sn = pad_to 20 (bin2hex (le_bytes 8 (y_serial y))), id_rab = 6, id_cmic = 1 OR push_bit 1 1 OR push_bit 3 1,
      id_ver = ucast (y_ver y), id_aerl = of_nat NVMET_ASYNC_EVENTS - 1, id_frmw = 1 OR push_bit 1 1,
      id_elpe = of_nat NVMET_ERROR_LOG_SLOTS - 1, id_sqes = push_bit 4 6 OR 6, id_cqes = push_bit 4 4 OR 4,
      id_nn = y_max_nsid y, id_subnqn = strlcpy_into 256 (y_subsysnqn y), id_msdbd = fo_msdbd ops,
      id_anacap = 1 OR push_bit 1 1 OR push_bit 2 1 OR push_bit 3 1 OR push_bit 4 1, id_anatt = 10,
      id_anagrpmax = NVMET_MAX_ANAGRPS, id_nanagrpid = NVMET_MAX_ANAGRPS, id_psd0_max_power = 0x9c4, id_nwpc = 1\<rparr>"

definition nvmet_execute_identify_ctrl ::
  "(nvmet_id_ctrl \<Rightarrow> u8 list) \<Rightarrow> string \<Rightarrow> bool \<Rightarrow> fabrics_ops \<Rightarrow> nvmet_port \<Rightarrow> nvmet_subsys \<Rightarrow> nvmet_req \<Rightarrow> nvmet_queue \<Rightarrow>
   nvmet_queue" where
  "nvmet_execute_identify_ctrl layout release alloc ops p y r q =
     (case q_ctrl q of
        None \<Rightarrow> q
      | Some c \<Rightarrow>
          if \<not> alloc then nvmet_req_complete NVME_SC_INTERNAL r q
          else let (status, r) = nvmet_copy_to_sgl 0 (layout (nvmet_identify_ctrl release ops p y c)) r
               in nvmet_req_complete status r q)"

text \<open>The identifiers of a namespace as a list of descriptors: type, length, two reserved bytes, the identifier.\<close>

abbreviation (input) NVME_NIDT_EUI64 :: u8 where "NVME_NIDT_EUI64 \<equiv> 1"
abbreviation (input) NVME_NIDT_NGUID :: u8 where "NVME_NIDT_NGUID \<equiv> 2"
abbreviation (input) NVME_NIDT_UUID :: u8 where "NVME_NIDT_UUID \<equiv> 3"

definition nvmet_copy_ns_identifier :: "u8 \<Rightarrow> u8 list \<Rightarrow> nat \<Rightarrow> nvmet_req \<Rightarrow> u16 \<times> nat \<times> nvmet_req" where
  "nvmet_copy_ns_identifier nidt bs off r =
     (let (status, r) = nvmet_copy_to_sgl off [nidt, of_nat (length bs), 0, 0] r
      in if status \<noteq> 0 then (status, off, r)
      else
        let off = off + 4;
            (status, r) = nvmet_copy_to_sgl off bs r
        in if status \<noteq> 0 then (status, off, r) else (0, off + length bs, r))"

definition copy_identifiers :: "nvmet_ns \<Rightarrow> nvmet_req \<Rightarrow> u16 \<times> nvmet_req" where
  "copy_identifiers ns r =
     (let (status, off, r) = (if list_ex (\<lambda>b. b \<noteq> 0) (ns_uuid ns) then nvmet_copy_ns_identifier NVME_NIDT_UUID (ns_uuid ns) 0 r
                              else (0, 0, r))
      in if status \<noteq> 0 then (status, r)
      else
        let (status, off, r) = (if list_ex (\<lambda>b. b \<noteq> 0) (ns_nguid ns) then nvmet_copy_ns_identifier NVME_NIDT_NGUID (ns_nguid ns) off r
                                else (0, off, r))
        in if status \<noteq> 0 then (status, r)
      else
        let (n, sg) = sg_write off (replicate (NVME_IDENTIFY_DATA_SIZE - off) 0) (r_sg r);
            r = r\<lparr>r_sg := sg\<rparr>
        in if n \<noteq> NVME_IDENTIFY_DATA_SIZE - off then (NVME_SC_INTERNAL OR NVME_SC_DNR, r) else (0, r))"

definition nvmet_execute_identify_desclist :: "nvmet_subsys \<Rightarrow> nvmet_req \<Rightarrow> nvmet_queue \<Rightarrow> nvmet_queue" where
  "nvmet_execute_identify_desclist y r q =
     (case find_ns y (tc_nsid (r_cmd r)) of
        None \<Rightarrow> nvmet_req_complete (NVME_SC_INVALID_NS OR NVME_SC_DNR) (r\<lparr>r_error_loc := OFF_NSID\<rparr>) q
      | Some a \<Rightarrow> let (status, r) = copy_identifiers (ns_at y a) r in nvmet_req_complete status r q)"

section \<open>Write protection\<close>

lemma on_queue_subsys: "(t_subsys (on_queue qa h t) ya = None) = (t_subsys t ya = None)"
  by (auto simp: on_queue_def Let_def upd_ctrl_at_def upd_subsys_def upd_tq_def split: option.splits)

text \<open>
  A request to write-protect a namespace whose flush fails leaves it writable, also when it was protected before:
  the flag is cleared, not put back.
\<close>

lemma failed_protect_unprotects:
  assumes y: "t_subsys t ya = Some y" "find_ns y (tc_nsid (r_cmd r)) = Some a" "ns_file (ns_at y a) = File_null"
    and cmd: "tc_cdw11 (r_cmd r) = NVME_NS_WRITE_PROTECT" and fail: "flush \<noteq> 0"
    and run: "nvmet_set_feat_write_protect alloc flush ya qa r t = (status, r', t')"
  shows "status \<noteq> 0 \<and> (\<exists>y'. t_subsys t' ya = Some y' \<and> \<not> ns_readonly (ns_at y' a))"
proof -
  let ?t1 = "on_queue qa (\<lambda>q. snd (nvmet_find_namespace y (tc_nsid (r_cmd r)) q)) t"
  obtain y1 where y1: "t_subsys ?t1 ya = Some y1" using y(1) on_queue_subsys by fastforce
  show ?thesis
    using run y y1 cmd fail
    by (auto simp: nvmet_set_feat_write_protect_def nvmet_write_protect_flush_sync_def nvmet_bdev_flush_def Let_def
        upd_subsys_def set_readonly_def)
qed

end
