(* ===== verification/Target_Disc.thy ===== *)
theory Target_Disc
  imports Target_Admin
begin

text \<open>
  Discovery (\<open>target/discovery.c\<close>): the log page with the subsystems a port offers to a host and its
  referrals, the events that announce changes, the features and the identity of a discovery controller.
\<close>

section \<open>The discovery log\<close>

text \<open>What a port says of itself in a log entry; texts and the transport's part are arrays of fixed size.\<close>

record disc_addr =
  da_trtype :: u8
  da_adrfam :: u8
  da_treq :: u8
  da_portid :: "u8 list"
  da_trsvcid :: "u8 list"
  da_traddr :: "u8 list"
  da_tsas :: "u8 list"

text \<open>A port with the subsystems it offers and the ports it refers to; \<open>dp_changes\<close> lists the calls of the
  transport's \<open>discovery_chg\<close>.\<close>

record disc_port =
  dp_addr :: disc_addr
  dp_subsystems :: "nvmet_subsys list"
  dp_referrals :: "(nat \<times> disc_addr) list"

abbreviation (input) DISC_ENTRY_SIZE :: nat where "DISC_ENTRY_SIZE \<equiv> 1024"
abbreviation (input) DISC_HDR_SIZE :: nat where "DISC_HDR_SIZE \<equiv> 1024"
abbreviation (input) NVME_NQN_DISC :: u8 where "NVME_NQN_DISC \<equiv> 1"
abbreviation (input) NVME_NQN_NVME :: u8 where "NVME_NQN_NVME \<equiv> 2"

text \<open>\<open>strncpy\<close> into an array of zeros.\<close>

definition str_field :: "nat \<Rightarrow> string \<Rightarrow> u8 list" where
  "str_field n s = map (\<lambda>c. of_nat (of_char c)) (take n (takeWhile (\<lambda>c. c \<noteq> CHR 0x00) s)) @
     replicate (n - length (takeWhile (\<lambda>c. c \<noteq> CHR 0x00) s)) 0"

definition nvmet_format_discovery_entry :: "disc_addr \<Rightarrow> string \<Rightarrow> u8 list \<Rightarrow> u8 \<Rightarrow> u8 list" where
  "nvmet_format_discovery_entry a subsys_nqn traddr ty =
     [da_trtype a, da_adrfam a, ty, da_treq a] @ da_portid a @ [0xff, 0xff] @ le_bytes 2 (of_nat NVME_AQ_DEPTH :: u16) @
     replicate 22 0 @ da_trsvcid a @ replicate 192 0 @ str_field NVMF_NQN_SIZE subsys_nqn @ replicate 33 0 @ traddr @ da_tsas a"

definition nvmet_set_disc_traddr :: "u8 list option \<Rightarrow> disc_addr \<Rightarrow> u8 list" where
  "nvmet_set_disc_traddr traddr a = (case traddr of Some b \<Rightarrow> b | None \<Rightarrow> da_traddr a)"

definition discovery_log_entries :: "disc_port \<Rightarrow> string \<Rightarrow> nat" where
  "discovery_log_entries p hostnqn =
     length (filter (\<lambda>y. nvmet_host_allowed y hostnqn) (dp_subsystems p)) + length (dp_referrals p)"

definition disc_entries :: "u8 list option \<Rightarrow> disc_port \<Rightarrow> string \<Rightarrow> u8 list list" where
  "disc_entries traddr p hostnqn =
     map (\<lambda>y. nvmet_format_discovery_entry (dp_addr p) (y_subsysnqn y) (nvmet_set_disc_traddr traddr (dp_addr p)) NVME_NQN_NVME)
       (filter (\<lambda>y. nvmet_host_allowed y hostnqn) (dp_subsystems p)) @
     map (\<lambda>(i, a). nvmet_format_discovery_entry a NVME_DISC_SUBSYS_NAME (da_traddr a) NVME_NQN_DISC) (dp_referrals p)"

definition disc_log :: "u8 list option \<Rightarrow> u64 \<Rightarrow> disc_port \<Rightarrow> string \<Rightarrow> u8 list" where
  "disc_log traddr genctr p hostnqn =
     (let es = disc_entries traddr p hostnqn
      in le_bytes 8 genctr @ le_bytes 8 (ucast (of_nat (length es) :: u32) :: u64) @ le_bytes 2 (0 :: u16) @ replicate 1006 0 @
         concat es)"

text \<open>
  \<open>None\<close> is a read past the end of the buffer: the offset and the length are the host's. \<open>sg_copy_from_buffer\<close>
  reads as many bytes as the scatter list takes.
\<close>

definition nvmet_execute_get_disc_log_page ::
  "bool \<Rightarrow> u8 list option \<Rightarrow> u64 \<Rightarrow> disc_port \<Rightarrow> nvmet_req \<Rightarrow> nvmet_queue \<Rightarrow> nvmet_queue option" where
  "nvmet_execute_get_disc_log_page alloc traddr genctr p r q =
     (case q_ctrl q of
        None \<Rightarrow> Some q
      | Some c \<Rightarrow>
          let off = nvmet_get_log_page_offset (r_cmd r); data_len = unat (nvmet_get_log_page_len (r_cmd r))
          in if off AND 3 \<noteq> 0 then Some (nvmet_req_complete (NVME_SC_INVALID_FIELD OR NVME_SC_DNR) r q)
          else
            let alloc_len = DISC_HDR_SIZE + DISC_ENTRY_SIZE * discovery_log_entries p (n_hostnqn c)
            in if \<not> alloc then Some (nvmet_req_complete NVME_SC_INTERNAL r q)
          else
            let buf = disc_log traddr genctr p (n_hostnqn c);
                q = upd_ctrl (nvmet_clear_aen_bit r NVME_AEN_BIT_DISC_CHANGE) q;
                n = min data_len (length (r_sg r))
            in if 0 < n \<and> alloc_len < unat off + n then None
               else
                 let data = take n (drop (unat off) buf) @ replicate (data_len - n) 0;
                     (status, r) = nvmet_copy_to_sgl 0 data r
                 in Some (nvmet_req_complete status r q))"

section \<open>Changes\<close>

text \<open>
  The discovery controllers with the ports they were connected through, the generation counter, the ports
  that were told. \<open>alloc i\<close> is whether the event for the controller \<open>i\<close> can be allocated.
\<close>

record disc_state =
  ds_genctr :: u64
  ds_ctrls :: "(nat \<times> nvmet_ctrl) list"
  ds_told :: "nat list"

definition disc_changed_ctrl :: "bool \<Rightarrow> nat \<Rightarrow> nat \<times> nvmet_ctrl \<Rightarrow> nat \<times> nvmet_ctrl" where
  "disc_changed_ctrl alloc port pc =
     (let (cport, c) = pc
      in if cport \<noteq> port then pc
      else
        let (disabled, c) = nvmet_aen_bit_disabled NVME_AEN_BIT_DISC_CHANGE c
        in if disabled then (cport, c)
           else (cport, nvmet_add_async_event alloc (ucast NVME_AER_NOTICE) (ucast NVME_AER_NOTICE_DISC_CHANGED) NVME_LOG_DISC c))"

definition nvmet_port_disc_changed :: "(nat \<Rightarrow> bool) \<Rightarrow> bool \<Rightarrow> nat \<Rightarrow> nvmet_subsys option \<Rightarrow> disc_state \<Rightarrow> disc_state" where
  "nvmet_port_disc_changed alloc signals port y s =
     s\<lparr>ds_genctr := ds_genctr s + 1,
       ds_ctrls := map (\<lambda>(i, pc). if (case y of None \<Rightarrow> True | Some y \<Rightarrow> nvmet_host_allowed y (n_hostnqn (snd pc)))
                                  then disc_changed_ctrl (alloc i) port pc else pc) (enumerate 0 (ds_ctrls s)),
       ds_told := (if signals then ds_told s @ [port] else ds_told s)\<rparr>"

definition nvmet_subsys_disc_changed_port :: "(nat \<Rightarrow> bool) \<Rightarrow> string option \<Rightarrow> nat \<Rightarrow> disc_state \<Rightarrow> disc_state" where
  "nvmet_subsys_disc_changed_port alloc host port s =
     s\<lparr>ds_ctrls := map (\<lambda>(i, pc). if (case host of None \<Rightarrow> True | Some h \<Rightarrow> h = n_hostnqn (snd pc))
                                  then disc_changed_ctrl (alloc i) port pc else pc) (enumerate 0 (ds_ctrls s))\<rparr>"

text \<open>\<open>links\<close> are the links between ports and subsystems, by their addresses, in the order of the lists.\<close>

definition nvmet_subsys_disc_changed :: "(nat \<Rightarrow> bool) \<Rightarrow> (nat \<times> nat) list \<Rightarrow> nat \<Rightarrow> string option \<Rightarrow> disc_state \<Rightarrow> disc_state" where
  "nvmet_subsys_disc_changed alloc links ya host s =
     fold (\<lambda>(port, linked) s. if linked \<noteq> ya then s else nvmet_subsys_disc_changed_port alloc host port s)
       links (s\<lparr>ds_genctr := ds_genctr s + 1\<rparr>)"

text \<open>Referrals: an entry is on at most one list. \<open>i\<close> names the referral.\<close>

definition nvmet_referral_enable ::
  "(nat \<Rightarrow> bool) \<Rightarrow> bool \<Rightarrow> nat \<Rightarrow> nat \<Rightarrow> disc_addr \<Rightarrow> disc_port \<times> disc_state \<Rightarrow> disc_port \<times> disc_state" where
  "nvmet_referral_enable alloc signals parent i a ps =
     (let (p, s) = ps
      in if list_ex (\<lambda>e. fst e = i) (dp_referrals p) then ps
         else (p\<lparr>dp_referrals := dp_referrals p @ [(i, a)]\<rparr>, nvmet_port_disc_changed alloc signals parent None s))"

definition nvmet_referral_disable ::
  "(nat \<Rightarrow> bool) \<Rightarrow> bool \<Rightarrow> nat \<Rightarrow> nat \<Rightarrow> disc_port \<times> disc_state \<Rightarrow> disc_port \<times> disc_state" where
  "nvmet_referral_disable alloc signals parent i ps =
     (let (p, s) = ps
      in if \<not> list_ex (\<lambda>e. fst e = i) (dp_referrals p) then ps
         else (p\<lparr>dp_referrals := filter (\<lambda>e. fst e \<noteq> i) (dp_referrals p)\<rparr>, nvmet_port_disc_changed alloc signals parent None s))"

section \<open>Features and identity\<close>

definition nvmet_execute_disc_set_features :: "nvmet_req \<Rightarrow> nvmet_queue \<Rightarrow> nvmet_queue" where
  "nvmet_execute_disc_set_features r q =
     (let fid = tc_cdw10 (r_cmd r) AND 0xff
      in if fid = NVME_FEAT_KATO then with_ctrl (nvmet_set_feat_kato r) q
         else if fid = NVME_FEAT_ASYNC_EVENT then with_ctrl (nvmet_set_feat_async_event NVMET_DISC_AEN_CFG_OPTIONAL r) q
         else nvmet_req_complete (NVME_SC_INVALID_FIELD OR NVME_SC_DNR) (r\<lparr>r_error_loc := OFF_CDW10\<rparr>) q)"

definition nvmet_execute_disc_get_features :: "nvmet_req \<Rightarrow> nvmet_queue \<Rightarrow> nvmet_queue" where
  "nvmet_execute_disc_get_features r q =
     (let fid = tc_cdw10 (r_cmd r) AND 0xff
      in if fid = NVME_FEAT_KATO then with_ctrl (\<lambda>c. (0, nvmet_get_feat_kato r c, c)) q
         else if fid = NVME_FEAT_ASYNC_EVENT then with_ctrl (\<lambda>c. (0, nvmet_get_feat_async_event r c, c)) q
         else nvmet_req_complete (NVME_SC_INVALID_FIELD OR NVME_SC_DNR) (r\<lparr>r_error_loc := OFF_CDW10\<rparr>) q)"

text \<open>\<open>strncpy\<close> fills the rest of the field with zeros, over the blanks put there before.\<close>

definition strncpy_into :: "nat \<Rightarrow> string \<Rightarrow> string" where
  "strncpy_into n s = take n s @ replicate (n - length s) CHR 0x00"

definition nvmet_identify_disc_ctrl :: "string \<Rightarrow> fabrics_ops \<Rightarrow> nvmet_port \<Rightarrow> nvmet_subsys \<Rightarrow> nvmet_ctrl \<Rightarrow> nvmet_id_ctrl" where
  "nvmet_identify_disc_ctrl release ops p y c =
     \<lparr>id_vid = 0, id_mn = replicate 40 CHR 0x00, id_fr = strncpy_into 8 release, id_mdts = 0, id_cntlid = n_cntlid c,
      id_rtd3e = 0, id_oaes = NVMET_DISC_AEN_CFG_OPTIONAL, id_ctratt = 0, id_crdt = [0, 0, 0], id_oacs = 0, id_acl = 0,
      id_lpa = push_bit 2 1, id_npss = 0, id_apsta = 0, id_mtfa = 0, id_kas = 0, id_maxcmd = NVMET_MAX_CMD,
      id_mnan = 0, id_oncs = 0, id_vwc = 0, id_sgls = nvmet_sgls ops p, id_ioccsz = 0, id_iorcsz = 0, id_icdoff = 0,
      id_psd = replicate 32 \<lparr>ps_flags = 0, ps_entry_lat = 0, ps_exit_lat = 0\<rparr>,
      id_sn = replicate 20 CHR 0x00, id_rab = 0, id_cmic = 0, id_ver = ucast (y_ver y), id_aerl = 0, id_frmw = 0,
      id_elpe = 0, id_sqes = 0, id_cqes = 0, id_nn = 0, id_subnqn = strlcpy_into 256 (y_subsysnqn y), id_msdbd = 0,
      id_anacap = 0, id_anatt = 0, id_anagrpmax = 0, id_nanagrpid = 0, id_psd0_max_power = 0, id_nwpc = 0\<rparr>"

definition nvmet_execute_identify_disc_ctrl ::
  "(nvmet_id_ctrl \<Rightarrow> u8 list) \<Rightarrow> string \<Rightarrow> bool \<Rightarrow> fabrics_ops \<Rightarrow> nvmet_port \<Rightarrow> nvmet_subsys \<Rightarrow> nvmet_req \<Rightarrow> nvmet_queue \<Rightarrow>
   nvmet_queue" where
  "nvmet_execute_identify_disc_ctrl layout release alloc ops p y r q =
     (case q_ctrl q of
        None \<Rightarrow> q
      | Some c \<Rightarrow>
          if \<not> alloc then nvmet_req_complete NVME_SC_INTERNAL r q
          else let (status, r) = nvmet_copy_to_sgl 0 (layout (nvmet_identify_disc_ctrl release ops p y c)) r
               in nvmet_req_complete status r q)"

section \<open>What a host reads\<close>

definition disc_addr_ok :: "disc_addr \<Rightarrow> bool" where
  "disc_addr_ok a = (length (da_portid a) = 2 \<and> length (da_trsvcid a) = 32 \<and> length (da_traddr a) = 256 \<and> length (da_tsas a) = 256)"

definition disc_port_ok :: "u8 list option \<Rightarrow> disc_port \<Rightarrow> bool" where
  "disc_port_ok traddr p = (disc_addr_ok (dp_addr p) \<and> list_all (disc_addr_ok \<circ> snd) (dp_referrals p) \<and>
     (case traddr of None \<Rightarrow> True | Some b \<Rightarrow> length b = 256))"

lemma length_str_field: "length (str_field n s) = n"
  by (simp add: str_field_def)

lemma length_disc_entry:
  "disc_addr_ok a \<Longrightarrow> length traddr = 256 \<Longrightarrow> length (nvmet_format_discovery_entry a nqn traddr ty) = DISC_ENTRY_SIZE"
  by (simp add: nvmet_format_discovery_entry_def disc_addr_ok_def length_str_field)

lemma disc_entries_lengths:
  assumes "disc_port_ok traddr p" and e: "e \<in> set (disc_entries traddr p h)"
  shows "length e = DISC_ENTRY_SIZE"
proof -
  have "length (nvmet_set_disc_traddr traddr (dp_addr p)) = 256"
    using assms(1) by (auto simp: nvmet_set_disc_traddr_def disc_port_ok_def disc_addr_ok_def split: option.splits)
  moreover have "disc_addr_ok a" "length (da_traddr a) = 256" if "(i, a) \<in> set (dp_referrals p)" for i a
    using assms(1) that by (auto simp: disc_port_ok_def disc_addr_ok_def list_all_iff)
  ultimately show ?thesis
    using e assms(1) length_disc_entry by (auto simp: disc_entries_def disc_port_ok_def)
qed

lemma concat_uniform: "\<forall>x \<in> set xss. length x = n \<Longrightarrow> length (concat xss) = n * length xss"
  by (induction xss) auto

lemma length_disc_entries: "length (disc_entries traddr p h) = discovery_log_entries p h"
  by (simp add: disc_entries_def discovery_log_entries_def)

lemma length_disc_log:
  "disc_port_ok traddr p \<Longrightarrow> length (disc_log traddr g p h) = DISC_HDR_SIZE + DISC_ENTRY_SIZE * discovery_log_entries p h"
  using concat_uniform [of "disc_entries traddr p h" DISC_ENTRY_SIZE] disc_entries_lengths [of traddr p _ h]
  by (simp add: disc_log_def Let_def length_disc_entries)

lemma nth_chunk:
  "\<forall>x \<in> set xss. length x = n \<Longrightarrow> i < length xss \<Longrightarrow> take n (drop (n * i) (concat xss)) = xss ! i"
proof (induction xss arbitrary: i)
  case (Cons x xss)
  then show ?case by (cases i) (auto simp: algebra_simps)
qed simp

lemma disc_log_entry:
  assumes "disc_port_ok traddr p" "i < discovery_log_entries p h"
  shows "take DISC_ENTRY_SIZE (drop (DISC_HDR_SIZE + DISC_ENTRY_SIZE * i) (disc_log traddr g p h)) = disc_entries traddr p h ! i"
proof -
  have "drop (DISC_HDR_SIZE + DISC_ENTRY_SIZE * i) (disc_log traddr g p h) = drop (DISC_ENTRY_SIZE * i) (concat (disc_entries traddr p h))"
    by (simp add: disc_log_def Let_def drop_append del: append_assoc)
  then show ?thesis
    using nth_chunk [of "disc_entries traddr p h" DISC_ENTRY_SIZE i] disc_entries_lengths [OF assms(1)] assms(2)
    by (simp add: length_disc_entries)
qed

lemma complete_ok_data:
  "\<exists>cqe. q_out (nvmet_req_complete 0 r q) = q_out q @ [cqe] \<and> q_data cqe = r_sg r \<and> q_status cqe = r_status r"
  by (auto simp: nvmet_req_complete_def Let_def split: prod.splits)

text \<open>An entry as the host takes it apart: type of the subsystem, transport, service, address and name.\<close>

definition read_entry :: "u8 list \<Rightarrow> u8 \<times> u8 \<times> u8 list \<times> u8 list \<times> u8 list" where
  "read_entry e = (e ! 2, e ! 0, take 32 (drop 32 e), take 256 (drop 512 e), take NVMF_NQN_SIZE (drop 256 e))"

lemma read_format:
  assumes "disc_addr_ok a" "length addr = 256"
  shows "read_entry (nvmet_format_discovery_entry a nqn addr ty) =
    (ty, da_trtype a, da_trsvcid a, addr, str_field NVMF_NQN_SIZE nqn)"
proof -
  have "length (da_portid a) = Suc (Suc 0)" using assms(1) by (simp add: disc_addr_ok_def)
  then obtain p0 p1 where "da_portid a = [p0, p1]" by (auto simp: length_Suc_conv)
  then show ?thesis
    using assms by (simp add: read_entry_def nvmet_format_discovery_entry_def disc_addr_ok_def length_str_field)
qed

text \<open>What a port offers a host, and what it refers it to.\<close>

definition disc_offers :: "u8 list option \<Rightarrow> disc_port \<Rightarrow> string \<Rightarrow> (u8 \<times> u8 \<times> u8 list \<times> u8 list \<times> u8 list) list" where
  "disc_offers traddr p h =
     [(NVME_NQN_NVME, da_trtype (dp_addr p), da_trsvcid (dp_addr p),
       case traddr of None \<Rightarrow> da_traddr (dp_addr p) | Some b \<Rightarrow> b, str_field NVMF_NQN_SIZE (y_subsysnqn y)).
        y \<leftarrow> dp_subsystems p, y_allow_any_host y \<or> y_type y = Nqn_disc \<or> h \<in> set (y_hosts y)] @
     [(NVME_NQN_DISC, da_trtype a, da_trsvcid a, da_traddr a, str_field NVMF_NQN_SIZE NVME_DISC_SUBSYS_NAME).
        (i, a) \<leftarrow> dp_referrals p]"

lemma host_allowed_iff:
  "nvmet_host_allowed y h \<longleftrightarrow> y_allow_any_host y \<or> y_type y = Nqn_disc \<or> h \<in> set (y_hosts y)"
  by (auto simp: nvmet_host_allowed_def list_ex_iff)

lemma read_disc_entries:
  assumes "disc_port_ok traddr p"
  shows "map read_entry (disc_entries traddr p h) = disc_offers traddr p h"
proof -
  have own: "length (nvmet_set_disc_traddr traddr (dp_addr p)) = 256" "disc_addr_ok (dp_addr p)"
    using assms by (auto simp: nvmet_set_disc_traddr_def disc_port_ok_def disc_addr_ok_def split: option.splits)
  have subs: "map read_entry (map (\<lambda>y. nvmet_format_discovery_entry (dp_addr p) (y_subsysnqn y)
        (nvmet_set_disc_traddr traddr (dp_addr p)) NVME_NQN_NVME) (filter (\<lambda>y. nvmet_host_allowed y h) ys)) =
      [(NVME_NQN_NVME, da_trtype (dp_addr p), da_trsvcid (dp_addr p),
       case traddr of None \<Rightarrow> da_traddr (dp_addr p) | Some b \<Rightarrow> b, str_field NVMF_NQN_SIZE (y_subsysnqn y)).
        y \<leftarrow> ys, y_allow_any_host y \<or> y_type y = Nqn_disc \<or> h \<in> set (y_hosts y)]" for ys
    using own by (induction ys) (auto simp: host_allowed_iff read_format nvmet_set_disc_traddr_def split: option.splits)
  have refs: "map read_entry (map (\<lambda>(i, a). nvmet_format_discovery_entry a NVME_DISC_SUBSYS_NAME (da_traddr a) NVME_NQN_DISC) l) =
      [(NVME_NQN_DISC, da_trtype a, da_trsvcid a, da_traddr a, str_field NVMF_NQN_SIZE NVME_DISC_SUBSYS_NAME). (i, a) \<leftarrow> l]"
    if "list_all (disc_addr_ok \<circ> snd) l" for l :: "(nat \<times> disc_addr) list"
    using that by (induction l) (auto simp: read_format disc_addr_ok_def)
  have "list_all (disc_addr_ok \<circ> snd) (dp_referrals p)" using assms by (simp add: disc_port_ok_def)
  from refs [OF this] show ?thesis unfolding disc_entries_def disc_offers_def map_append subs by simp
qed

lemma length_disc_offers: "disc_port_ok traddr p \<Longrightarrow> length (disc_offers traddr p h) = discovery_log_entries p h"
  unfolding read_disc_entries [symmetric] by (simp add: length_disc_entries)

text \<open>The status of a command that failed, with or without an entry in the controller's error log.\<close>

definition failed_status :: "u16 \<Rightarrow> u16 set" where
  "failed_status st = {push_bit 1 st, push_bit 1 st OR 0x4000}"

lemma complete_failed_status:
  "st \<noteq> 0 \<Longrightarrow> \<exists>cqe. q_out (nvmet_req_complete st r q) = q_out q @ [cqe] \<and> q_status cqe \<in> failed_status st"
  by (auto simp: nvmet_req_complete_def nvmet_set_error_def failed_status_def Let_def split: prod.splits option.splits)

text \<open>C40. The discovery log a host reads is the log, or memory after it. The log says how many entries it has and
  holds one for each subsystem of the port that admits any host, is a discovery subsystem or lists this
  host, and then one for each referral, in the order of the port's lists; each entry gives the type, the
  transport, the service, the address (the one the transport reports where it does) and the name of what it
  describes. A request at an offset that is not a multiple of four is refused, and one for which the buffer
  cannot be allocated fails; every other one whose range lies in the log is answered with exactly those bytes.
  The rest, since the offset and the length are the host's and not checked, read past the end of the buffer.
  The request's scatter list is as long as the range it asks for, and the port's texts fill their arrays.\<close>

theorem discovery_log_served:
  assumes "q_ctrl q = Some c" and "disc_port_ok traddr p"
    and "length (r_sg r) = unat (nvmet_get_log_page_len (r_cmd r))" and "r_sg r \<noteq> []"
  shows "let log = disc_log traddr g p (n_hostnqn c); offers = disc_offers traddr p (n_hostnqn c); off = unat (tc_lpo (r_cmd r))
    in length log = 1024 + 1024 * length offers \<and>
      take 16 log = le_bytes 8 g @ le_bytes 8 (ucast (of_nat (length offers) :: u32) :: u64) \<and>
      map (\<lambda>i. read_entry (take 1024 (drop (1024 + 1024 * i) log))) [0..<length offers] = offers \<and>
      (case nvmet_execute_get_disc_log_page alloc traddr g p r q of
         None \<Rightarrow> tc_lpo (r_cmd r) AND 3 = 0 \<and> alloc \<and> length log < off + length (r_sg r)
       | Some q' \<Rightarrow> (\<exists>cqe. q_out q' = q_out q @ [cqe] \<and>
           (if tc_lpo (r_cmd r) AND 3 \<noteq> 0 then q_status cqe \<in> failed_status (NVME_SC_INVALID_FIELD OR NVME_SC_DNR)
            else if \<not> alloc then q_status cqe \<in> failed_status NVME_SC_INTERNAL
            else off + length (r_sg r) \<le> length log \<and> q_data cqe = take (length (r_sg r)) (drop off log) \<and>
              q_status cqe = r_status r)))"
proof -
  define log where "log = disc_log traddr g p (n_hostnqn c)"
  define offers where "offers = disc_offers traddr p (n_hostnqn c)"
  define off where "off = unat (tc_lpo (r_cmd r))"
  have n: "discovery_log_entries p (n_hostnqn c) = length offers"
    unfolding offers_def by (rule length_disc_offers [OF assms(2), symmetric])
  have len: "length log = 1024 + 1024 * length offers"
    unfolding log_def using length_disc_log [OF assms(2)] n by simp
  have hdr: "take 16 log = le_bytes 8 g @ le_bytes 8 (ucast (of_nat (length offers) :: u32) :: u64)"
    by (simp add: log_def disc_log_def Let_def length_disc_entries n)
  have entries: "map (\<lambda>i. read_entry (take 1024 (drop (1024 + 1024 * i) log))) [0..<length offers] = offers"
    unfolding offers_def read_disc_entries [OF assms(2), symmetric]
    by (rule nth_equalityI) (simp_all add: log_def length_disc_entries disc_log_entry [OF assms(2)])
  let ?ex = "nvmet_execute_get_disc_log_page alloc traddr g p r q"
  let ?q = "upd_ctrl (nvmet_clear_aen_bit r NVME_AEN_BIT_DISC_CHANGE) q"
  let ?data = "take (length (r_sg r)) (drop off log)"
  let ?r = "r\<lparr>r_sg := ?data\<rparr>"
  have q0: "q_out ?q = q_out q" using assms(1) by (simp add: upd_ctrl_def)
  have served: "case ?ex of
         None \<Rightarrow> tc_lpo (r_cmd r) AND 3 = 0 \<and> alloc \<and> length log < off + length (r_sg r)
       | Some q' \<Rightarrow> (\<exists>cqe. q_out q' = q_out q @ [cqe] \<and>
           (if tc_lpo (r_cmd r) AND 3 \<noteq> 0 then q_status cqe \<in> failed_status (NVME_SC_INVALID_FIELD OR NVME_SC_DNR)
            else if \<not> alloc then q_status cqe \<in> failed_status NVME_SC_INTERNAL
            else off + length (r_sg r) \<le> length log \<and> q_data cqe = ?data \<and> q_status cqe = r_status r))"
  proof (cases "tc_lpo (r_cmd r) AND 3 = 0 \<and> alloc")
    case False
    then show ?thesis
      using assms(1) complete_failed_status [of "NVME_SC_INVALID_FIELD OR NVME_SC_DNR" r q]
        complete_failed_status [of NVME_SC_INTERNAL r q]
      by (auto simp: nvmet_execute_get_disc_log_page_def nvmet_get_log_page_offset_def Let_def)
  next
    case True
    have pos: "0 < unat (nvmet_get_log_page_len (r_cmd r))" using assms(3,4) by (metis length_greater_0_conv)
    show ?thesis
    proof (cases "length log < off + length (r_sg r)")
      case past: True
      then have "?ex = None" using assms(1,3) len True pos
        by (simp add: nvmet_execute_get_disc_log_page_def nvmet_get_log_page_offset_def off_def n Let_def)
      then show ?thesis using True past by simp
    next
      case fits: False
      then have "nvmet_copy_to_sgl 0 ?data r = (0, ?r)"
        by (simp add: nvmet_copy_to_sgl_def sg_write_def Let_def)
      then have "?ex = Some (nvmet_req_complete 0 ?r ?q)" using fits assms(1,3) len True
        by (simp add: nvmet_execute_get_disc_log_page_def nvmet_get_log_page_offset_def off_def n log_def [symmetric] Let_def)
      then show ?thesis using True fits complete_ok_data [of ?r ?q] q0 by auto
    qed
  qed
  show ?thesis
    using len hdr entries served
    unfolding Let_def log_def [symmetric] offers_def [symmetric] off_def [symmetric] by (intro conjI)
qed

text \<open>An empty log is 1024 bytes; a host that asks for 4096 gets three kilobytes of what follows it in memory.\<close>

definition example_disc_port :: disc_port where
  "example_disc_port = \<lparr>dp_addr = \<lparr>da_trtype = 1, da_adrfam = 1, da_treq = 0, da_portid = [1, 0],
     da_trsvcid = replicate 32 0, da_traddr = replicate 256 0, da_tsas = replicate 256 0\<rparr>,
     dp_subsystems = [], dp_referrals = []\<rparr>"

definition disc_log_req :: nvmet_req where
  "disc_log_req = example_req\<lparr>r_cmd := (r_cmd example_req)\<lparr>tc_cdw10 := 0x03ff0070, tc_cdw11 := 0, tc_lpo := 0\<rparr>, r_sg := replicate 4096 0\<rparr>"

theorem discovery_log_served_witness:
  "nvmet_execute_get_disc_log_page True None 5 example_disc_port disc_log_req example_queue = None"
proof -
  have len: "nvmet_get_log_page_len (r_cmd disc_log_req) = 4096" "tc_lpo (r_cmd disc_log_req) = 0" "r_sg disc_log_req = replicate 4096 0"
    by (simp_all add: disc_log_req_def nvmet_get_log_page_len_def log_numdl_def log_numdu_def Let_def)
  have c: "q_ctrl example_queue = Some (blank_ctrl 10)" by (simp add: example_queue_def)
  have p: "disc_port_ok None example_disc_port" "disc_offers None example_disc_port h = []" for h
    by (simp_all add: disc_port_ok_def disc_addr_ok_def example_disc_port_def disc_offers_def)
  show ?thesis
    using discovery_log_served [OF c p(1), of disc_log_req 5 True] len
    by (cases "nvmet_execute_get_disc_log_page True None 5 example_disc_port disc_log_req example_queue")
      (auto simp: Let_def p(2))
qed

end
