(* ===== verification/Host_Ns.thy ===== *)
theory Host_Ns
  imports Host_Identify
begin

text \<open>
  The namespaces of a controller on the host (\<open>host/core.c\<close>): their identifiers, their allocation and removal,
  and the scan that keeps the controller's list up to date. What the controller answers and what the block
  layer does are environment answers; the lists and the decisions are the code's.
\<close>

section \<open>Identifiers\<close>

abbreviation (input) NVME_VS_1_2_0 :: u32 where "NVME_VS_1_2_0 \<equiv> 0x10200"
abbreviation (input) NVME_VS_1_3_0 :: u32 where "NVME_VS_1_3_0 \<equiv> 0x10300"

record nvme_ns_ids =
  ni_eui64 :: "u8 list"
  ni_nguid :: "u8 list"
  ni_uuid :: "u8 list"

definition zero_ids :: nvme_ns_ids where
  "zero_ids = \<lparr>ni_eui64 = replicate 8 0, ni_nguid = replicate 16 0, ni_uuid = replicate 16 0\<rparr>"

text \<open>
  The loop over the descriptors, on what is left of the page. A descriptor is a type, a length, two reserved
  bytes and the identifier; \<open>None\<close> is a read past the end of the page.
\<close>

function ns_descs_loop :: "u8 list \<Rightarrow> nvme_ns_ids \<Rightarrow> nvme_ns_ids option" where
  "ns_descs_loop rest ids =
     (if rest = [] then Some ids
      else if length rest < 2 then None
      else
        let nidt = rest ! 0; nidl = rest ! 1;
            known = (\<lambda>n upd. if nidl \<noteq> of_nat n then Some ids
                             else if length rest < 4 + n then None
                             else ns_descs_loop (drop (4 + n) rest) (upd (take n (drop 4 rest))))
        in if nidl = 0 then Some ids
           else if nidt = 1 then known 8 (\<lambda>b. ids\<lparr>ni_eui64 := b\<rparr>)
           else if nidt = 2 then known 16 (\<lambda>b. ids\<lparr>ni_nguid := b\<rparr>)
           else if nidt = 3 then known 16 (\<lambda>b. ids\<lparr>ni_uuid := b\<rparr>)
           else ns_descs_loop (drop (4 + unat nidl) rest) ids)"
  by pat_completeness auto

termination
  by (relation "measure (\<lambda>(rest, ids). length rest)") auto

declare ns_descs_loop.simps [simp del]

text \<open>\<open>answer\<close> is the status of the command and the page.\<close>

definition nvme_identify_ns_descs :: "bool \<Rightarrow> int \<times> u8 list \<Rightarrow> nvme_ns_ids \<Rightarrow> (int \<times> nvme_ns_ids) option" where
  "nvme_identify_ns_descs alloc answer ids =
     (let (status, page) = answer
      in if \<not> alloc then Some (- ENOMEM, ids)
      else if status \<noteq> 0
           then Some (if 0 < status \<and> (of_int status :: u16) AND NVME_SC_DNR = 0 then 0 else status, ids)
      else case ns_descs_loop page ids of None \<Rightarrow> None | Some ids \<Rightarrow> Some (0, ids))"

text \<open>\<open>eui\<close> and \<open>nguid\<close> are the fields of the identify structure.\<close>

definition nvme_report_ns_ids ::
  "u32 \<Rightarrow> bool \<Rightarrow> int \<times> u8 list \<Rightarrow> u8 list \<Rightarrow> u8 list \<Rightarrow> (int \<times> nvme_ns_ids) option" where
  "nvme_report_ns_ids vs alloc answer eui nguid =
     (let ids = zero_ids;
          ids = (if NVME_VS_1_1_0 \<le> vs then ids\<lparr>ni_eui64 := eui\<rparr> else ids);
          ids = (if NVME_VS_1_2_0 \<le> vs then ids\<lparr>ni_nguid := nguid\<rparr> else ids)
      in if NVME_VS_1_3_0 \<le> vs then nvme_identify_ns_descs alloc answer ids else Some (0, ids))"

definition nvme_ns_ids_valid :: "nvme_ns_ids \<Rightarrow> bool" where
  "nvme_ns_ids_valid ids =
     (list_ex (\<lambda>b. b \<noteq> 0) (ni_uuid ids) \<or> list_ex (\<lambda>b. b \<noteq> 0) (ni_nguid ids) \<or> list_ex (\<lambda>b. b \<noteq> 0) (ni_eui64 ids))"

definition nvme_ns_ids_equal :: "nvme_ns_ids \<Rightarrow> nvme_ns_ids \<Rightarrow> bool" where
  "nvme_ns_ids_equal a b = (ni_uuid a = ni_uuid b \<and> ni_nguid a = ni_nguid b \<and> ni_eui64 a = ni_eui64 b)"

section \<open>Namespaces\<close>

text \<open>A namespace of the controller's list; \<open>hn_up\<close> is whether its disk is registered.\<close>

record host_ns =
  hn_id :: u32
  hn_dead :: bool
  hn_up :: bool

datatype ns_hcall =
    Ns_init_queue u32 | Ns_cleanup_queue u32 | Ns_link_head u32 | Ns_unlink_head u32
  | Ns_alloc_disk u32 | Ns_put_disk u32 | Ns_add_disk u32 | Ns_del_gendisk u32
  | Ns_get_ctrl | Ns_free u32

record ns_lists =
  nl_list :: "host_ns list"
  nl_calls :: "ns_hcall list"

definition ncall :: "ns_hcall list \<Rightarrow> ns_lists \<Rightarrow> ns_lists" where
  "ncall ks s = s\<lparr>nl_calls := nl_calls s @ ks\<rparr>"

text \<open>
  What happens when a namespace is allocated: memory, the request queue, the identify command with the
  capacity it reports, the namespace head, the disk, the LightNVM hook.
\<close>

record alloc_ns_env =
  an_zalloc :: bool
  an_queue :: int
  an_identify :: "int \<times> u64"
  an_head :: int
  an_disk :: bool
  an_nvm :: int
  an_errno :: "int \<Rightarrow> int"       \<comment> \<open>\<open>blk_status_to_errno\<close> of a positive status\<close>

text \<open>The walk over the sorted list stops at the first greater number.\<close>

fun find_get_ns :: "u32 \<Rightarrow> host_ns list \<Rightarrow> host_ns option" where
  "find_get_ns nsid [] = None"
| "find_get_ns nsid (n # ns) =
     (if hn_id n = nsid then Some n else if nsid < hn_id n then None else find_get_ns nsid ns)"

definition nvme_alloc_ns :: "alloc_ns_env \<Rightarrow> u32 \<Rightarrow> ns_lists \<Rightarrow> int \<times> ns_lists" where
  "nvme_alloc_ns e nsid s =
     (let errno = (\<lambda>ret. if 0 < ret then an_errno e ret else ret);
          out_free_queue = (\<lambda>ret s. (errno ret, ncall [Ns_cleanup_queue nsid] s));
          out_unlink_ns = (\<lambda>ret s. out_free_queue ret (ncall [Ns_unlink_head nsid] s))
      in if \<not> an_zalloc e then (- ENOMEM, s)
      else if an_queue e \<noteq> 0 then (errno (an_queue e), s)
      else
        let s = ncall [Ns_init_queue nsid] s; (ret, ncap) = an_identify e
        in if ret \<noteq> 0 then out_free_queue ret s
      else if ncap = 0 then out_free_queue (- EINVAL) s
      else if an_head e \<noteq> 0 then out_free_queue (an_head e) s
      else
        let s = ncall [Ns_link_head nsid] s
        in if \<not> an_disk e then out_unlink_ns (- ENOMEM) s
      else
        let s = ncall [Ns_alloc_disk nsid] s
        in if an_nvm e \<noteq> 0 then out_unlink_ns (an_nvm e) (ncall [Ns_put_disk nsid] s)
      else (0, ncall [Ns_get_ctrl, Ns_add_disk nsid]
              (s\<lparr>nl_list := nl_list s @ [\<lparr>hn_id = nsid, hn_dead = False, hn_up = True\<rparr>]\<rparr>)))"

definition nvme_ns_remove :: "host_ns \<Rightarrow> ns_lists \<Rightarrow> ns_lists" where
  "nvme_ns_remove n s =
     (let s = ncall [Ns_unlink_head (hn_id n)] s;
          s = (if hn_up n then ncall [Ns_del_gendisk (hn_id n), Ns_cleanup_queue (hn_id n)] s else s)
      in ncall [Ns_free (hn_id n)] (s\<lparr>nl_list := filter (\<lambda>m. hn_id m \<noteq> hn_id n) (nl_list s)\<rparr>))"

section \<open>The scan\<close>

text \<open>
  The scan's environment: the namespace list commands, the outcome of revalidating a disk and of allocating
  a namespace.
\<close>

record scan_env =
  sc_alloc_list :: bool
  sc_list :: "u32 \<Rightarrow> int \<times> u32 list"
  sc_revalidate :: "u32 \<Rightarrow> int"
  sc_ns :: "u32 \<Rightarrow> alloc_ns_env"

definition nvme_validate_ns :: "scan_env \<Rightarrow> u32 \<Rightarrow> ns_lists \<Rightarrow> ns_lists" where
  "nvme_validate_ns e nsid s =
     (case find_get_ns nsid (nl_list s) of
        Some n \<Rightarrow> if sc_revalidate e nsid \<noteq> 0 then nvme_ns_remove n s else s
      | None \<Rightarrow> snd (nvme_alloc_ns (sc_ns e nsid) nsid s))"

definition nvme_remove_invalid_namespaces :: "u32 \<Rightarrow> ns_lists \<Rightarrow> ns_lists" where
  "nvme_remove_invalid_namespaces nsid s =
     fold nvme_ns_remove (filter (\<lambda>n. nsid < hn_id n \<or> hn_dead n) (nl_list s)) s"

definition remove_gap :: "u32 \<Rightarrow> ns_lists \<Rightarrow> ns_lists" where
  "remove_gap prev s = (case find_get_ns prev (nl_list s) of None \<Rightarrow> s | Some n \<Rightarrow> nvme_ns_remove n s)"

text \<open>
  The entries of one page: whether a zero ended the list, how many were used, the last number. The inner loop
  removes the namespaces between the previous number and this one; it increments \<open>prev\<close> in 32 bits.
\<close>

fun scan_entries :: "scan_env \<Rightarrow> u32 list \<Rightarrow> u32 \<Rightarrow> nat \<Rightarrow> ns_lists \<Rightarrow> bool \<times> nat \<times> u32 \<times> ns_lists" where
  "scan_entries e [] prev j s = (False, j, prev, s)"
| "scan_entries e (nsid # es) prev j s =
     (if nsid = 0 then (True, j, prev, s)
      else
        let s = nvme_validate_ns e nsid s;
            s = fold (\<lambda>k. remove_gap (of_nat k)) [unat (prev + 1)..<unat nsid] s;
            prev = max (prev + 1) nsid
        in scan_entries e es prev (j + 1) s)"

text \<open>The loop over the pages; the first argument counts those left.\<close>

fun scan_lists :: "scan_env \<Rightarrow> nat \<Rightarrow> u32 \<Rightarrow> u32 \<Rightarrow> ns_lists \<Rightarrow> int \<times> ns_lists" where
  "scan_lists e 0 nn prev s = (0, nvme_remove_invalid_namespaces prev s)"
| "scan_lists e (Suc i) nn prev s =
     (let (ret, page) = sc_list e prev
      in if ret \<noteq> 0 then (ret, s)
      else
        let (stop, j, prev, s) = scan_entries e (take (min (unat nn) 1024) page) prev 0 s
        in if stop then (0, nvme_remove_invalid_namespaces prev s)
           else scan_lists e i (nn - of_nat j) prev s)"

definition nvme_scan_ns_list :: "scan_env \<Rightarrow> u32 \<Rightarrow> ns_lists \<Rightarrow> int \<times> ns_lists" where
  "nvme_scan_ns_list e nn s =
     (if \<not> sc_alloc_list e then (- ENOMEM, s)
      else scan_lists e ((unat nn + 1023) div 1024) nn 0 s)"

text \<open>The loop \<open>i <= nn\<close> does not end if \<open>nn\<close> is the greatest number: \<open>None\<close>.\<close>

definition nvme_scan_ns_sequential :: "scan_env \<Rightarrow> u32 \<Rightarrow> ns_lists \<Rightarrow> ns_lists option" where
  "nvme_scan_ns_sequential e nn s =
     (if nn = 0xffffffff then None
      else Some (nvme_remove_invalid_namespaces nn (fold (\<lambda>i. nvme_validate_ns e (of_nat i)) [1..<Suc (unat nn)] s)))"

text \<open>\<open>ns_cmp\<close> subtracts in 32 bits and returns an \<open>int\<close>; \<open>list_sort\<close> is the kernel's.\<close>

definition ns_cmp :: "host_ns \<Rightarrow> host_ns \<Rightarrow> int" where
  "ns_cmp a b = sint (hn_id a - hn_id b)"

abbreviation (input) NVME_QUIRK_IDENTIFY_CNS :: u64 where "NVME_QUIRK_IDENTIFY_CNS \<equiv> 0x2"

text \<open>\<open>ident_nn\<close> is the identify command of the scan with the number of namespaces it reports.\<close>

definition nvme_scan_work ::
  "((host_ns \<Rightarrow> host_ns \<Rightarrow> int) \<Rightarrow> host_ns list \<Rightarrow> host_ns list) \<Rightarrow> scan_env \<Rightarrow> int \<times> u32 \<Rightarrow> nvme_ctrl \<times> ns_lists \<Rightarrow>
   (nvme_ctrl \<times> ns_lists) option" where
  "nvme_scan_work list_sort e ident_nn cs =
     (let (c, s) = cs
      in if c_state c \<noteq> NVME_CTRL_LIVE \<or> \<not> c_tagset c then Some cs
      else
        let c = c\<lparr>c_ns_changed := False\<rparr>; (ret, nn) = ident_nn
        in if ret \<noteq> 0 then Some (c, s)
      else
        let (listed, s) = (if NVME_VS_1_1_0 \<le> i_vs (c_ident c) \<and> i_quirks (c_ident c) AND NVME_QUIRK_IDENTIFY_CNS = 0
                           then let (ret, s) = nvme_scan_ns_list e nn s in (ret = 0, s) else (False, s));
            s = (if listed then Some s else nvme_scan_ns_sequential e nn s)
        in map_option (\<lambda>s. (c, s\<lparr>nl_list := list_sort ns_cmp (nl_list s)\<rparr>)) s)"

definition nvme_remove_namespaces :: "ns_lists \<Rightarrow> ns_lists" where
  "nvme_remove_namespaces s = fold nvme_ns_remove (nl_list s) (s\<lparr>nl_list := []\<rparr>)"

section \<open>What the operations do to the list\<close>

lemma ncall_list [simp]: "nl_list (ncall ks s) = nl_list s"
  by (simp add: ncall_def)

lemma ns_remove_list: "nl_list (nvme_ns_remove n s) = filter (\<lambda>m. hn_id m \<noteq> hn_id n) (nl_list s)"
  by (simp add: nvme_ns_remove_def Let_def)

definition alloc_succeeds :: "alloc_ns_env \<Rightarrow> bool" where
  "alloc_succeeds e = (an_zalloc e \<and> an_queue e = 0 \<and> fst (an_identify e) = 0 \<and> snd (an_identify e) \<noteq> 0 \<and>
     an_head e = 0 \<and> an_disk e \<and> an_nvm e = 0)"

lemma alloc_ns_list:
  "nl_list (snd (nvme_alloc_ns e nsid s)) =
     (if alloc_succeeds e then nl_list s @ [\<lparr>hn_id = nsid, hn_dead = False, hn_up = True\<rparr>] else nl_list s)"
  by (auto simp: nvme_alloc_ns_def alloc_succeeds_def Let_def split: prod.splits)

lemma find_get_ns_some: "find_get_ns k l = Some n \<Longrightarrow> n \<in> set l \<and> hn_id n = k"
  by (induction l) (auto split: if_splits)

lemma find_get_ns_none:
  "sorted_wrt (<) (map hn_id os) \<Longrightarrow> k \<notin> hn_id ` set ns \<Longrightarrow> find_get_ns k (os @ ns) = None \<Longrightarrow> k \<notin> hn_id ` set os"
proof (induction os)
  case (Cons a os)
  show ?case
  proof (cases "k < hn_id a")
    case True
    then show ?thesis using Cons.prems(1) by auto
  next
    case False
    then show ?thesis using Cons by (auto split: if_splits)
  qed
qed simp

lemma find_get_ns_absent: "k \<notin> hn_id ` set l \<Longrightarrow> find_get_ns k l = None"
  by (induction l) auto

lemma remove_gap_list:
  assumes "nl_list s = os @ ns" "sorted_wrt (<) (map hn_id os)" "k \<notin> hn_id ` set ns"
  shows "nl_list (remove_gap k s) = filter (\<lambda>m. hn_id m \<noteq> k) (nl_list s)"
proof (cases "find_get_ns k (nl_list s)")
  case None
  then have "k \<notin> hn_id ` set (nl_list s)" using find_get_ns_none [OF assms(2,3)] assms(1,3) by auto
  then have "filter (\<lambda>m. hn_id m \<noteq> k) (nl_list s) = nl_list s" by (intro filter_True) auto
  then show ?thesis using None by (simp add: remove_gap_def)
next
  case (Some n)
  then show ?thesis using find_get_ns_some [OF Some] by (simp add: remove_gap_def ns_remove_list)
qed

lemma sorted_filter_map: "sorted_wrt (<) (map f l) \<Longrightarrow> sorted_wrt (<) (map f (filter P l))"
  by (induction l) auto

lemma fold_gap_list:
  assumes "nl_list s = os @ ns" "sorted_wrt (<) (map hn_id os)"
    "\<forall>n \<in> set ns. unat (hn_id n) < i \<or> m \<le> unat (hn_id n)" "m \<le> 2 ^ 32"
  shows "nl_list (fold (\<lambda>k. remove_gap (of_nat k)) [i..<m] s) =
     filter (\<lambda>n. \<not> (i \<le> unat (hn_id n) \<and> unat (hn_id n) < m)) (nl_list s)"
  using assms
proof (induction "m - i" arbitrary: i s os ns)
  case 0
  then have "filter (\<lambda>n. \<not> (i \<le> unat (hn_id n) \<and> unat (hn_id n) < m)) (nl_list s) = nl_list s"
    by (intro filter_True) auto
  then show ?case using 0 by simp
next
  case (Suc d)
  then have im: "i < m" by simp
  have u: "unat (of_nat i :: u32) = i" using im Suc.prems(4) by (simp add: unat_of_nat)
  have eq: "(hn_id n = of_nat i) = (unat (hn_id n) = i)" for n
    by (simp add: word_unat_eq_iff u del: unsigned_of_nat)
  have ni: "(of_nat i :: u32) \<notin> hn_id ` set ns" using Suc.prems(3) im u by (auto simp: image_iff)
  let ?s = "remove_gap (of_nat i) s"
  have l: "nl_list ?s = filter (\<lambda>n. hn_id n \<noteq> of_nat i) os @ filter (\<lambda>n. hn_id n \<noteq> of_nat i) ns"
    using remove_gap_list [OF Suc.prems(1,2) ni] Suc.prems(1) by simp
  have "nl_list (fold (\<lambda>k. remove_gap (of_nat k)) [Suc i..<m] ?s) =
      filter (\<lambda>n. \<not> (Suc i \<le> unat (hn_id n) \<and> unat (hn_id n) < m)) (nl_list ?s)"
  proof (rule Suc.hyps(1) [OF _ l])
    show "d = m - Suc i" using Suc.hyps(2) by simp
    show "sorted_wrt (<) (map hn_id (filter (\<lambda>n. hn_id n \<noteq> of_nat i) os))" by (rule sorted_filter_map [OF Suc.prems(2)])
    show "\<forall>n\<in>set (filter (\<lambda>n. hn_id n \<noteq> of_nat i) ns). unat (hn_id n) < Suc i \<or> m \<le> unat (hn_id n)"
      using Suc.prems(3) by auto
  qed (rule Suc.prems(4))
  also have "\<dots> = filter (\<lambda>n. \<not> (i \<le> unat (hn_id n) \<and> unat (hn_id n) < m)) (nl_list s)"
  proof -
    have q: "(hn_id n \<noteq> of_nat i \<and> \<not> (Suc i \<le> unat (hn_id n) \<and> unat (hn_id n) < m)) =
        (\<not> (i \<le> unat (hn_id n) \<and> unat (hn_id n) < m))" for n
      using im unfolding eq by auto
    show ?thesis unfolding l Suc.prems(1) filter_append filter_filter q ..
  qed
  finally show ?case using im by (simp add: upt_conv_Cons)
qed

section \<open>The scan finds what there is\<close>

text \<open>
  \<open>A\<close> are the numbers in use, \<open>K\<close> those of the list before the scan. A number that was known stays if its disk
  can be revalidated, a new one is added if it can be allocated.
\<close>

definition usable :: "scan_env \<Rightarrow> u32 set \<Rightarrow> u32 \<Rightarrow> bool" where
  "usable e K n = (if n \<in> K then sc_revalidate e n = 0 else alloc_succeeds (sc_ns e n))"

definition scan_inv :: "scan_env \<Rightarrow> u32 set \<Rightarrow> u32 set \<Rightarrow> u32 \<Rightarrow> host_ns list \<Rightarrow> bool" where
  "scan_inv e A K prev l \<longleftrightarrow>
     (\<exists>os ns. l = os @ ns \<and> sorted_wrt (<) (map hn_id os) \<and> (\<forall>n \<in> set ns. hn_id n \<le> prev) \<and>
        distinct (map hn_id l) \<and> (\<forall>n \<in> set l. \<not> hn_dead n) \<and>
        hn_id ` set l = {n \<in> A. n \<le> prev \<and> usable e K n} \<union> {n \<in> K. prev < n})"

lemma scan_step:
  assumes inv: "scan_inv e A K prev (nl_list s)" and nsid: "nsid \<in> A" "prev < nsid" "\<forall>n \<in> A. n \<le> prev \<or> nsid \<le> n"
  shows "scan_inv e A K nsid (nl_list (fold (\<lambda>k. remove_gap (of_nat k)) [unat (prev + 1)..<unat nsid] (nvme_validate_ns e nsid s)))"
proof -
  obtain os ns where l: "nl_list s = os @ ns" "sorted_wrt (<) (map hn_id os)" "\<forall>n \<in> set ns. hn_id n \<le> prev"
      "distinct (map hn_id (nl_list s))" "\<forall>n \<in> set (nl_list s). \<not> hn_dead n"
      "hn_id ` set (nl_list s) = {n \<in> A. n \<le> prev \<and> usable e K n} \<union> {n \<in> K. prev < n}"
    using inv unfolding scan_inv_def by blast
  have "unat prev + 1 < 2 ^ 32" using nsid(2) unsigned_less [of nsid, where 'a = nat] by (simp add: word_less_nat_alt)
  then have p1: "unat (prev + 1) = unat prev + 1" by (simp add: unat_word_ariths)
  have notin: "nsid \<notin> hn_id ` set ns" using l(3) nsid(2) by auto
  have known: "(find_get_ns nsid (nl_list s) \<noteq> None) = (nsid \<in> K)"
  proof -
    have "(nsid \<in> hn_id ` set (nl_list s)) = (nsid \<in> K)" using l(6) nsid(2) by auto
    moreover have "find_get_ns nsid (nl_list s) = None \<Longrightarrow> nsid \<notin> hn_id ` set (nl_list s)"
      using find_get_ns_none [OF l(2) notin] notin l(1) by auto
    ultimately show ?thesis using find_get_ns_absent by fastforce
  qed
  let ?s1 = "nvme_validate_ns e nsid s"
  have "\<exists>os1 ns1. nl_list ?s1 = os1 @ ns1 \<and> sorted_wrt (<) (map hn_id os1) \<and> (\<forall>n \<in> set ns1. hn_id n \<le> prev \<or> hn_id n = nsid) \<and>
      distinct (map hn_id (nl_list ?s1)) \<and> (\<forall>n \<in> set (nl_list ?s1). \<not> hn_dead n) \<and>
      hn_id ` set (nl_list ?s1) = hn_id ` set (nl_list s) - {nsid} \<union> (if usable e K nsid then {nsid} else {})"
  proof (cases "nsid \<in> K")
    case True
    then obtain n where n: "find_get_ns nsid (nl_list s) = Some n" "hn_id n = nsid" using known find_get_ns_some by fastforce
    have mem: "nsid \<in> hn_id ` set (nl_list s)" using l(6) True nsid(2) by auto
    show ?thesis
    proof (cases "sc_revalidate e nsid = 0")
      case ok: True
      then have "nl_list ?s1 = nl_list s" using n by (simp add: nvme_validate_ns_def)
      then show ?thesis using l True ok mem
        by (intro exI [of _ os] exI [of _ ns]) (auto simp: usable_def)
    next
      case False
      then have "nl_list ?s1 = filter (\<lambda>m. hn_id m \<noteq> nsid) os @ filter (\<lambda>m. hn_id m \<noteq> nsid) ns"
        using n l(1) by (simp add: nvme_validate_ns_def ns_remove_list)
      then have l1: "nl_list ?s1 = filter (\<lambda>m. hn_id m \<noteq> nsid) (nl_list s)" by (simp add: l(1))
      have u: "\<not> usable e K nsid" using True False by (simp add: usable_def)
      show ?thesis
      proof (intro exI conjI)
        show "nl_list ?s1 = filter (\<lambda>m. hn_id m \<noteq> nsid) os @ filter (\<lambda>m. hn_id m \<noteq> nsid) ns" by (simp add: l1 l(1))
        show "sorted_wrt (<) (map hn_id (filter (\<lambda>m. hn_id m \<noteq> nsid) os))" by (rule sorted_filter_map [OF l(2)])
        show "\<forall>n\<in>set (filter (\<lambda>m. hn_id m \<noteq> nsid) ns). hn_id n \<le> prev \<or> hn_id n = nsid" using l(3) by auto
        show "distinct (map hn_id (nl_list ?s1))" unfolding l1 by (rule distinct_map_filter [OF l(4)])
        show "\<forall>n\<in>set (nl_list ?s1). \<not> hn_dead n" unfolding l1 using l(5) by auto
        show "hn_id ` set (nl_list ?s1) = hn_id ` set (nl_list s) - {nsid} \<union> (if usable e K nsid then {nsid} else {})"
          unfolding l1 using u by auto
      qed
    qed
  next
    case False
    then have none: "find_get_ns nsid (nl_list s) = None" and new: "nsid \<notin> hn_id ` set (nl_list s)"
      using known l(6) nsid(2) by auto
    show ?thesis
    proof (cases "alloc_succeeds (sc_ns e nsid)")
      case True
      then have "nl_list ?s1 = os @ (ns @ [\<lparr>hn_id = nsid, hn_dead = False, hn_up = True\<rparr>])"
        using none l(1) by (simp add: nvme_validate_ns_def alloc_ns_list)
      then show ?thesis using l False True new
        by (intro exI [of _ os] exI [of _ "ns @ [\<lparr>hn_id = nsid, hn_dead = False, hn_up = True\<rparr>]"]) (auto simp: usable_def)
    next
      case fail: False
      then have "nl_list ?s1 = nl_list s" using none by (simp add: nvme_validate_ns_def alloc_ns_list)
      then show ?thesis using l False fail new
        by (intro exI [of _ os] exI [of _ ns]) (auto simp: usable_def)
    qed
  qed
  then obtain os1 ns1 where m: "nl_list ?s1 = os1 @ ns1" "sorted_wrt (<) (map hn_id os1)"
      "\<forall>n \<in> set ns1. hn_id n \<le> prev \<or> hn_id n = nsid" "distinct (map hn_id (nl_list ?s1))" "\<forall>n \<in> set (nl_list ?s1). \<not> hn_dead n"
      "hn_id ` set (nl_list ?s1) = hn_id ` set (nl_list s) - {nsid} \<union> (if usable e K nsid then {nsid} else {})"
    by blast
  let ?P = "\<lambda>n. \<not> (unat (prev + 1) \<le> unat (hn_id n) \<and> unat (hn_id n) < unat nsid)"
  have P: "?P n = (hn_id n \<le> prev \<or> nsid \<le> hn_id n)" for n
    unfolding p1 by (auto simp: word_le_nat_alt)
  have gap: "nl_list (fold (\<lambda>k. remove_gap (of_nat k)) [unat (prev + 1)..<unat nsid] ?s1) = filter ?P (nl_list ?s1)"
  proof (rule fold_gap_list [OF m(1,2)])
    show "\<forall>n\<in>set ns1. unat (hn_id n) < unat (prev + 1) \<or> unat nsid \<le> unat (hn_id n)"
      using m(3) unfolding p1 by (auto simp: word_le_nat_alt less_Suc_eq_le)
    show "unat nsid \<le> 2 ^ 32" using unsigned_less [of nsid, where 'a = nat] by simp
  qed
  have ids: "hn_id ` set (filter ?P (nl_list ?s1)) = {k \<in> hn_id ` set (nl_list ?s1). k \<le> prev \<or> nsid \<le> k}"
    unfolding P by auto
  show ?thesis
    unfolding gap scan_inv_def
  proof (intro exI conjI)
    show "filter ?P (nl_list ?s1) = filter ?P os1 @ filter ?P ns1" by (simp add: m(1))
    show "sorted_wrt (<) (map hn_id (filter ?P os1))" by (rule sorted_filter_map [OF m(2)])
    show "\<forall>n\<in>set (filter ?P ns1). hn_id n \<le> nsid" using m(3) nsid(2) by auto
    show "distinct (map hn_id (filter ?P (nl_list ?s1)))" by (rule distinct_map_filter [OF m(4)])
    show "\<forall>n\<in>set (filter ?P (nl_list ?s1)). \<not> hn_dead n" using m(5) by auto
    show "hn_id ` set (filter ?P (nl_list ?s1)) = {n \<in> A. n \<le> nsid \<and> usable e K n} \<union> {n \<in> K. nsid < n}"
      unfolding ids m(6) l(6) using nsid by auto
  qed
qed

lemma scan_entries_inv:
  assumes "scan_inv e A K prev (nl_list s)"
    "sorted_wrt (<) (es @ rest)" "set (es @ rest) = {n \<in> A. prev < n}" "zs = [] \<or> hd zs = 0"
  shows "\<exists>s'. scan_entries e (es @ zs) prev j s = (zs \<noteq> [], j + length es, last (prev # es), s') \<and>
     scan_inv e A K (last (prev # es)) (nl_list s') \<and> set rest = {n \<in> A. last (prev # es) < n}"
  using assms
proof (induction es arbitrary: prev j s)
  case Nil
  then show ?case by (cases zs) auto
next
  case (Cons nsid es)
  have mem: "nsid \<in> A" "prev < nsid" using Cons.prems(3) by auto
  have least: "\<forall>n \<in> A. n \<le> prev \<or> nsid \<le> n"
  proof
    fix n assume "n \<in> A"
    show "n \<le> prev \<or> nsid \<le> n"
    proof (cases "prev < n")
      case True
      then have "n \<in> set ((nsid # es) @ rest)" using Cons.prems(3) \<open>n \<in> A\<close> by auto
      then show ?thesis using Cons.prems(2) by (auto dest: less_imp_le)
    qed auto
  qed
  let ?s = "fold (\<lambda>k. remove_gap (of_nat k)) [unat (prev + 1)..<unat nsid] (nvme_validate_ns e nsid s)"
  have inv: "scan_inv e A K nsid (nl_list ?s)" by (rule scan_step [OF Cons.prems(1) mem least])
  have rest: "set (es @ rest) = {n \<in> A. nsid < n}"
  proof -
    have "\<forall>n \<in> set (es @ rest). nsid < n" using Cons.prems(2) by simp
    then have "set (es @ rest) = {n \<in> set ((nsid # es) @ rest). nsid < n}" by auto
    then have "set (es @ rest) = {n \<in> {n \<in> A. prev < n}. nsid < n}" by (simp only: Cons.prems(3))
    also have "\<dots> = {n \<in> A. nsid < n}" using mem(2) by auto
    finally show ?thesis .
  qed
  have mx: "max (prev + 1) nsid = nsid" using inc_le [OF mem(2)] by (simp add: max_def)
  have nz: "nsid \<noteq> 0" using mem(2) by auto
  have srt: "sorted_wrt (<) (es @ rest)" using Cons.prems(2) by simp
  show ?case using Cons.IH [OF inv srt rest Cons.prems(4), of "j + 1"] nz by (simp add: mx Let_def)
qed

lemma ns_remove_fold_list:
  "nl_list (fold nvme_ns_remove ns s) = filter (\<lambda>m. hn_id m \<notin> hn_id ` set ns) (nl_list s)"
  by (induction ns arbitrary: s) (auto simp: ns_remove_list intro: filter_cong)

lemma remove_invalid_list:
  assumes "scan_inv e A K prev (nl_list s)"
  shows "nl_list (nvme_remove_invalid_namespaces prev s) = filter (\<lambda>m. hn_id m \<le> prev) (nl_list s)"
proof -
  have d: "\<forall>n \<in> set (nl_list s). \<not> hn_dead n" using assms by (auto simp: scan_inv_def)
  show ?thesis
    unfolding nvme_remove_invalid_namespaces_def ns_remove_fold_list
    by (rule filter_cong [OF HOL.refl]) (use d in \<open>auto simp: image_iff\<close>)
qed

text \<open>The list after a scan.\<close>

definition scan_result :: "scan_env \<Rightarrow> u32 set \<Rightarrow> u32 set \<Rightarrow> host_ns list \<Rightarrow> bool" where
  "scan_result e A K l \<longleftrightarrow> hn_id ` set l = {n \<in> A. usable e K n} \<and> distinct (map hn_id l) \<and> (\<forall>n \<in> set l. \<not> hn_dead n)"

lemma scan_finish:
  assumes "scan_inv e A K prev (nl_list s)" "{n \<in> A. prev < n} = {}"
  shows "scan_result e A K (nl_list (nvme_remove_invalid_namespaces prev s))"
proof -
  have d: "distinct (map hn_id (nl_list s))" "\<forall>n \<in> set (nl_list s). \<not> hn_dead n"
    and ids: "hn_id ` set (nl_list s) = {n \<in> A. n \<le> prev \<and> usable e K n} \<union> {n \<in> K. prev < n}"
    using assms(1) by (auto simp: scan_inv_def)
  have "hn_id ` set (filter (\<lambda>m. hn_id m \<le> prev) (nl_list s)) = {k \<in> hn_id ` set (nl_list s). k \<le> prev}" by auto
  also have "\<dots> = {n \<in> A. usable e K n}" unfolding ids using assms(2) by auto
  finally show ?thesis
    using d by (auto simp: scan_result_def remove_invalid_list [OF assms(1)] distinct_map_filter)
qed

text \<open>A page of the list of the numbers \<open>L\<close>: those above \<open>p\<close>, as many as fit, padded with zeros.\<close>

definition ns_page :: "u32 list \<Rightarrow> u32 \<Rightarrow> u32 list" where
  "ns_page L p = (let l = take 1024 (filter (\<lambda>n. p < n) L) in l @ replicate (1024 - length l) 0)"

lemma ns_page_split:
  assumes "R = filter (\<lambda>n. p < n) L" "length R \<le> n"
  shows "\<exists>zs. take (min n 1024) (ns_page L p) = take (min n 1024) R @ zs \<and> (zs = [] \<or> hd zs = 0) \<and>
    (zs = [] \<longleftrightarrow> min n 1024 \<le> length R)"
proof (cases "min n 1024 \<le> length R")
  case True
  then show ?thesis using assms by (intro exI [of _ "[]"]) (auto simp: ns_page_def Let_def min_def)
next
  case False
  then have "length R < 1024" by simp
  then have "ns_page L p = R @ replicate (1024 - length R) 0" using assms by (simp add: ns_page_def Let_def)
  moreover have "replicate (min n 1024 - length R) (0 :: u32) \<noteq> []" using False by simp
  ultimately show ?thesis using False
    by (intro exI [of _ "replicate (min n 1024 - length R) 0"]) (auto simp: take_replicate min_def hd_replicate)
qed

lemma scan_lists_inv:
  assumes "\<forall>p. sc_list e p = (0, ns_page L p)" "sorted_wrt (<) L"
  shows "scan_inv e (set L) K prev (nl_list s) \<Longrightarrow> length (filter (\<lambda>n. prev < n) L) \<le> unat nn \<Longrightarrow>
     i = (unat nn + 1023) div 1024 \<Longrightarrow>
     \<exists>s'. scan_lists e i nn prev s = (0, s') \<and> scan_result e (set L) K (nl_list s')"
proof (induction i arbitrary: nn prev s)
  case 0
  then have "unat nn = 0" by (simp add: div_eq_0_iff)
  then have "{n \<in> set L. prev < n} = {}" using "0.prems"(2) by (auto simp: filter_empty_conv)
  then show ?case using scan_finish [OF "0.prems"(1)] by simp
next
  case (Suc i)
  define R where "R = filter (\<lambda>n. prev < n) L"
  let ?n = "min (unat nn) 1024"
  obtain zs where zs: "take ?n (ns_page L prev) = take ?n R @ zs" "zs = [] \<or> hd zs = 0" "zs = [] \<longleftrightarrow> ?n \<le> length R"
    using ns_page_split [OF R_def] Suc.prems(2) R_def by metis
  have R: "sorted_wrt (<) (take ?n R @ drop ?n R)" "set (take ?n R @ drop ?n R) = {n \<in> set L. prev < n}"
    unfolding append_take_drop_id R_def using sorted_wrt_filter [OF assms(2)] by auto
  obtain s1 where s1: "scan_entries e (take ?n R @ zs) prev 0 s =
        (zs \<noteq> [], 0 + length (take ?n R), last (prev # take ?n R), s1)"
      "scan_inv e (set L) K (last (prev # take ?n R)) (nl_list s1)"
      "set (drop ?n R) = {n \<in> set L. last (prev # take ?n R) < n}"
    using scan_entries_inv [OF Suc.prems(1) R zs(2), of 0] by blast
  let ?p = "last (prev # take ?n R)"
  have pg: "sc_list e prev = (0, ns_page L prev)" using assms(1) by blast
  show ?case
  proof (cases "zs = []")
    case False
    then have "drop ?n R = []" using zs(3) by (simp only: drop_eq_Nil)
    then have "{n \<in> set L. ?p < n} = {}" using s1(3) by simp
    then show ?thesis
      using scan_finish [OF s1(2)] False by (simp add: pg zs(1) s1(1) Let_def del: last.simps)
  next
    case True
    then have len: "length (take ?n R) = ?n" using zs(3) by simp
    let ?nn = "nn - of_nat ?n"
    have unn: "unat ?nn = unat nn - ?n" by (simp add: unat_sub_if' min_def unat_of_nat)
    have f: "set (filter (\<lambda>n. ?p < n) L) = set (drop ?n R)" using s1(3) by auto
    have "sorted_wrt (<) (filter (\<lambda>n. ?p < n) L)" "sorted_wrt (<) (drop ?n R)"
      using sorted_wrt_filter [OF assms(2)] R(1) by (auto simp: sorted_wrt_append)
    then have "filter (\<lambda>n. ?p < n) L = drop ?n R" using f by (metis strict_sorted_equal)
    then have l2: "length (filter (\<lambda>n. ?p < n) L) \<le> unat ?nn" using Suc.prems(2) unn by (simp add: R_def)
    have i2: "i = (unat ?nn + 1023) div 1024" using Suc.prems(3) unn by (simp add: min_def) linarith
    show ?thesis
      using Suc.IH [OF s1(2) l2 i2] True s1(1) len by (simp add: pg zs(1) Let_def del: last.simps)
  qed
qed

lemma scan_ns_list_result:
  assumes "\<forall>p. sc_list e p = (0, ns_page L p)" "sorted_wrt (<) L" "0 \<notin> set L" "length L \<le> unat nn" "sc_alloc_list e"
    "sorted_wrt (<) (map hn_id (nl_list s))" "0 \<notin> hn_id ` set (nl_list s)" "\<forall>n \<in> set (nl_list s). \<not> hn_dead n"
  shows "\<exists>s'. nvme_scan_ns_list e nn s = (0, s') \<and> scan_result e (set L) (hn_id ` set (nl_list s)) (nl_list s')"
proof -
  have d: "distinct (map hn_id (nl_list s))" using assms(6) by (simp add: strict_sorted_iff)
  have ids: "hn_id ` set (nl_list s) = {n \<in> set L. n \<le> 0 \<and> usable e (hn_id ` set (nl_list s)) n} \<union>
      {n \<in> hn_id ` set (nl_list s). 0 < n}"
    using assms(3,7) by (auto simp: word_gt_0)
  have "scan_inv e (set L) (hn_id ` set (nl_list s)) 0 (nl_list s)"
    unfolding scan_inv_def
    by (intro exI [of _ "nl_list s"] exI [of _ "[]"] conjI) (use assms(6,8) d ids in \<open>simp_all\<close>)
  moreover have "length (filter (\<lambda>n. 0 < n) L) \<le> unat nn" using assms(4) le_trans length_filter_le by blast
  ultimately show ?thesis
    using scan_lists_inv [OF assms(1,2), of _ 0 s nn] assms(5) by (simp add: nvme_scan_ns_list_def)
qed

end
