(* ===== verification/Fabrics_Host.thy ===== *)
theory Fabrics_Host
  imports Host_Request
begin

text \<open>
  The fabrics library of the host (\<open>host/fabrics.c\<close>, \<open>host/fabrics.h\<close>): the shared host identities, the
  property and connect commands, the transports, the gate that decides which requests may use a queue,
  and the option string a user creates a controller with.
\<close>

section \<open>Hosts\<close>

record fabrics =
  f_hosts :: "nvmf_host list"
  f_default :: nat            \<comment> \<open>\<open>nvmf_default_host\<close>\<close>

definition nvmf_host_find :: "string \<Rightarrow> nvmf_host list \<Rightarrow> nvmf_host option" where
  "nvmf_host_find nqn hosts = find (\<lambda>h. h_nqn h = nqn) hosts"

definition host_at :: "nat \<Rightarrow> nvmf_host list \<Rightarrow> nvmf_host option" where
  "host_at a hosts = find (\<lambda>h. h_addr h = a) hosts"

definition upd_host :: "nat \<Rightarrow> (nvmf_host \<Rightarrow> nvmf_host) \<Rightarrow> nvmf_host list \<Rightarrow> nvmf_host list" where
  "upd_host a f hosts = map (\<lambda>h. if h_addr h = a then f h else h) hosts"

definition host_get :: "nat \<Rightarrow> nvmf_host list \<Rightarrow> nvmf_host list" where
  "host_get a = upd_host a (\<lambda>h. h\<lparr>h_ref := h_ref h + 1\<rparr>)"

text \<open>
  \<open>alloc\<close> is the address \<open>kmalloc\<close> returns, if it does; the new host's id is whatever the memory
  held (\<open>garbage\<close>) until the caller sets it.
\<close>

definition nvmf_host_add ::
  "nat option \<Rightarrow> u8 list \<Rightarrow> string \<Rightarrow> nvmf_host list \<Rightarrow> nat option \<times> nvmf_host list" where
  "nvmf_host_add alloc garbage nqn hosts =
     (case nvmf_host_find nqn hosts of
        Some h \<Rightarrow> (Some (h_addr h), host_get (h_addr h) hosts)
      | None \<Rightarrow>
         (case alloc of
            None \<Rightarrow> (None, hosts)
          | Some a \<Rightarrow>
              (Some a, hosts @ [\<lparr>h_addr = a, h_ref = 1, h_nqn = take (NVMF_NQN_SIZE - 1) nqn, h_id = garbage\<rparr>])))"

text \<open>\<open>uuid_text\<close> prints the generated id; the host's name is derived from it.\<close>

definition nvmf_host_default ::
  "nat option \<Rightarrow> u8 list \<Rightarrow> (u8 list \<Rightarrow> string) \<Rightarrow> nvmf_host list \<Rightarrow> nat option \<times> nvmf_host list" where
  "nvmf_host_default alloc uuid uuid_text hosts =
     (case alloc of
        None \<Rightarrow> (None, hosts)
      | Some a \<Rightarrow>
          (Some a, hosts @ [\<lparr>h_addr = a, h_ref = 1,
             h_nqn = take (NVMF_NQN_SIZE - 1) (''nqn.2014-08.org.nvmexpress:uuid:'' @ uuid_text uuid),
             h_id = uuid\<rparr>]))"

definition nvmf_host_put :: "nat option \<Rightarrow> nvmf_host list \<Rightarrow> nvmf_host list" where
  "nvmf_host_put a hosts =
     (case a of
        None \<Rightarrow> hosts
      | Some a \<Rightarrow>
         (case host_at a hosts of
            None \<Rightarrow> hosts
          | Some h \<Rightarrow>
              if h_ref h \<le> 1 then filter (\<lambda>h. h_addr h \<noteq> a) hosts
              else upd_host a (\<lambda>h. h\<lparr>h_ref := h_ref h - 1\<rparr>) hosts))"

section \<open>The address attribute\<close>

text \<open>
  One \<open>snprintf (buf + len, size - len, ...)\<close> of \<open>nvmf_get_address\<close>: it writes what fits, and counts all
  of it; a negative remaining size is refused by \<open>vsnprintf\<close>, which then counts nothing.
\<close>

definition snprintf_at :: "int \<Rightarrow> string \<Rightarrow> string \<times> int \<Rightarrow> string \<times> int" where
  "snprintf_at bufsize s bl =
     (let (buf, len) = bl
      in if bufsize - len < 0 then (buf, len)
         else (take (nat len) buf @ take (nat (bufsize - len - 1)) s, len + int (length s)))"

definition opt_str :: "string option \<Rightarrow> string" where
  "opt_str s = (case s of None \<Rightarrow> ''(null)'' | Some s \<Rightarrow> s)"

definition nvmf_get_address :: "nvmf_ctrl_options \<Rightarrow> int \<Rightarrow> int \<times> string" where
  "nvmf_get_address opts bufsize =
     (let has = (\<lambda>b. o_mask opts AND b \<noteq> 0);
          bl = ('''', 0);
          bl = (if has NVMF_OPT_TRADDR
                then snprintf_at bufsize (''traddr='' @ opt_str (o_traddr opts)) bl else bl);
          bl = (if has NVMF_OPT_TRSVCID
                then snprintf_at bufsize ((if snd bl \<noteq> 0 then '','' else '''') @
                       ''trsvcid='' @ opt_str (o_trsvcid opts)) bl else bl);
          bl = (if has NVMF_OPT_HOST_TRADDR
                then snprintf_at bufsize ((if snd bl \<noteq> 0 then '','' else '''') @
                       ''host_traddr='' @ opt_str (o_host_traddr opts)) bl else bl);
          bl = snprintf_at bufsize ''\<newline>'' bl
      in (snd bl, fst bl))"

section \<open>Property and connect commands\<close>

datatype fab_cmd =
    Prop_get u8 u32              \<comment> \<open>attrib, offset\<close>
  | Prop_set u8 u32 u64          \<comment> \<open>attrib, offset, value\<close>
  | Connect u16 u16 u32 u8       \<comment> \<open>qid, sqsize, kato, cattr\<close>

record connect_data =
  cd_hostid :: "u8 list"
  cd_cntlid :: u16
  cd_subsysnqn :: string
  cd_hostnqn :: string

text \<open>What submitting a command and waiting for it returns: errno, 0 or NVMe status; and the result.\<close>

type_synonym submit_env = "fab_cmd \<Rightarrow> connect_data option \<Rightarrow> int \<times> u64"

definition nvmf_reg_read32 :: "submit_env \<Rightarrow> u32 \<Rightarrow> int \<times> u32 option" where
  "nvmf_reg_read32 submit off =
     (let (ret, res) = submit (Prop_get 0 off) None
      in (ret, if 0 \<le> ret then Some (ucast res) else None))"

definition nvmf_reg_read64 :: "submit_env \<Rightarrow> u32 \<Rightarrow> int \<times> u64 option" where
  "nvmf_reg_read64 submit off =
     (let (ret, res) = submit (Prop_get 1 off) None
      in (ret, if 0 \<le> ret then Some res else None))"

definition nvmf_reg_write32 :: "submit_env \<Rightarrow> u32 \<Rightarrow> u32 \<Rightarrow> int" where
  "nvmf_reg_write32 submit off val = fst (submit (Prop_set 0 off (ucast val)) None)"

text \<open>What the log line for a refused connect reports.\<close>

datatype connect_error =
    Invalid_data_cntlid | Invalid_data_hostnqn | Invalid_data_subsysnqn | Invalid_data_at nat
  | Invalid_sqe_qid | Invalid_sqe_at nat
  | Host_not_allowed | Controller_busy | Incompatible_format | Connect_failed int

definition nvmf_log_connect_error :: "int \<Rightarrow> u32 \<Rightarrow> connect_error" where
  "nvmf_log_connect_error errval offset =
     (let err_sctype = errval AND NOT (uint NVME_SC_DNR);
          lo = unat (offset AND 0xffff)
      in if err_sctype = uint NVME_SC_CONNECT_INVALID_PARAM then
           (if drop_bit 16 offset \<noteq> 0 then
              (if lo = CONNECT_DATA_CNTLID then Invalid_data_cntlid
               else if lo = CONNECT_DATA_HOSTNQN then Invalid_data_hostnqn
               else if lo = CONNECT_DATA_SUBSYSNQN then Invalid_data_subsysnqn
               else Invalid_data_at lo)
            else if unat offset = CONNECT_CMD_QID then Invalid_sqe_qid
            else Invalid_sqe_at (unat offset))
         else if err_sctype = uint NVME_SC_CONNECT_INVALID_HOST then Host_not_allowed
         else if err_sctype = uint NVME_SC_CONNECT_CTRL_BUSY then Controller_busy
         else if err_sctype = uint NVME_SC_CONNECT_FORMAT then Incompatible_format
         else Connect_failed err_sctype)"

abbreviation (input) NVME_KATO_GRACE :: nat where "NVME_KATO_GRACE \<equiv> 10"

text \<open>The keep-alive timeout of the connect command: seconds to milliseconds in 32-bit arithmetic.\<close>

definition connect_kato :: "nat \<Rightarrow> u32" where
  "connect_kato kato = (if kato \<noteq> 0 then (of_nat kato + of_nat NVME_KATO_GRACE) * 1000 else 0)"

definition connect_cattr :: "nvmf_ctrl_options \<Rightarrow> u8" where
  "connect_cattr opts = (if o_disable_sqflow opts then NVME_CONNECT_DISABLE_SQFLOW else 0)"

definition make_connect_data :: "nvmf_host list \<Rightarrow> nvmf_ctrl_options \<Rightarrow> u16 \<Rightarrow> connect_data" where
  "make_connect_data hosts opts cntlid =
     (let host = Option.bind (o_host opts) (\<lambda>a. host_at a hosts)
      in \<lparr>cd_hostid = (case host of None \<Rightarrow> [] | Some h \<Rightarrow> h_id h), cd_cntlid = cntlid,
          cd_subsysnqn = take NVMF_NQN_SIZE (opt_str (o_subsysnqn opts)),
          cd_hostnqn = take NVMF_NQN_SIZE (case host of None \<Rightarrow> [] | Some h \<Rightarrow> h_nqn h)\<rparr>)"

definition nvmf_connect_admin_queue ::
  "bool \<Rightarrow> submit_env \<Rightarrow> nvmf_host list \<Rightarrow> nvme_ctrl \<Rightarrow> int \<times> nvme_ctrl" where
  "nvmf_connect_admin_queue alloc submit hosts c =
     (let cmd = Connect 0 (of_nat (NVME_AQ_DEPTH - 1)) (connect_kato (c_kato c)) (connect_cattr (c_opts c))
      in if \<not> alloc then (- ENOMEM, c)
      else
        let (ret, res) = submit cmd (Some (make_connect_data hosts (c_opts c) 0xffff))
        in if ret \<noteq> 0 then (ret, c) else (0, c\<lparr>c_cntlid := ucast res\<rparr>))"

definition nvmf_connect_io_queue ::
  "bool \<Rightarrow> submit_env \<Rightarrow> nvmf_host list \<Rightarrow> u16 \<Rightarrow> nvme_ctrl \<Rightarrow> int" where
  "nvmf_connect_io_queue alloc submit hosts qid c =
     (if \<not> alloc then - ENOMEM
      else fst (submit (Connect qid (c_sqsize c) 0 (connect_cattr (c_opts c)))
                  (Some (make_connect_data hosts (c_opts c) (c_cntlid c)))))"

definition nvmf_should_reconnect :: "nvme_ctrl \<Rightarrow> bool" where
  "nvmf_should_reconnect c \<longleftrightarrow>
     o_max_reconnects (c_opts c) = - 1 \<or> c_nr_reconnects c < o_max_reconnects (c_opts c)"

section \<open>The request gate\<close>

definition nvmf_fail_nonready_command ::
  "u8 \<Rightarrow> (blk_status \<Rightarrow> bool) \<Rightarrow> bool \<Rightarrow> nvme_ns option \<Rightarrow> nvme_ctrl \<Rightarrow> request \<Rightarrow>
   blk_status \<times> (disposition \<times> request \<times> nvme_ctrl) option" where
  "nvmf_fail_nonready_command max_retries path_error dying ns c rq =
     (if c_state c \<noteq> NVME_CTRL_DELETING \<and> c_state c \<noteq> NVME_CTRL_DEAD \<and>
         \<not> rq_noretry rq \<and> \<not> rq_mpath rq
      then (BLK_STS_RESOURCE, None)
      else
        let rq = rq\<lparr>nr_status := NVME_SC_HOST_PATH_ERROR\<rparr>
        in (BLK_STS_OK, Some (nvme_complete_rq max_retries path_error dying ns c rq)))"

definition nvmf_check_ready_slow :: "nvme_ctrl \<Rightarrow> request \<Rightarrow> bool \<Rightarrow> bool" where
  "nvmf_check_ready_slow c rq queue_live =
     (if \<not> rq_passthrough rq \<or> nr_usercmd rq then False
      else
        let connect = (cm_opcode (nr_cmd rq) = nvme_fabrics_command \<and>
                       cm_fctype (nr_cmd rq) = nvme_fabrics_type_connect)
        in case c_state c of
             NVME_CTRL_NEW \<Rightarrow> (if connect then True else queue_live)
           | NVME_CTRL_CONNECTING \<Rightarrow> (if connect then True else queue_live)
           | NVME_CTRL_DEAD \<Rightarrow> False
           | _ \<Rightarrow> queue_live)"

definition nvmf_check_ready :: "nvme_ctrl \<Rightarrow> request \<Rightarrow> bool \<Rightarrow> bool" where
  "nvmf_check_ready c rq queue_live =
     (if c_state c = NVME_CTRL_LIVE then True else nvmf_check_ready_slow c rq queue_live)"

section \<open>Transports\<close>

record nvmf_transport_ops =
  t_name :: string
  t_required_opts :: u32
  t_allowed_opts :: u32
  t_has_create :: bool
  t_module_get :: bool   \<comment> \<open>\<open>try_module_get\<close> would succeed\<close>

definition nvmf_register_transport ::
  "nvmf_transport_ops \<Rightarrow> nvmf_transport_ops list \<Rightarrow> int \<times> nvmf_transport_ops list" where
  "nvmf_register_transport t ts = (if \<not> t_has_create t then (- EINVAL, ts) else (0, ts @ [t]))"

definition nvmf_unregister_transport ::
  "nvmf_transport_ops \<Rightarrow> nvmf_transport_ops list \<Rightarrow> nvmf_transport_ops list" where
  "nvmf_unregister_transport t ts = remove1 t ts"

definition nvmf_lookup_transport :: "nvmf_ctrl_options \<Rightarrow> nvmf_transport_ops list \<Rightarrow> nvmf_transport_ops option" where
  "nvmf_lookup_transport opts ts = find (\<lambda>t. Some (t_name t) = o_transport opts) ts"

section \<open>Matching an existing controller\<close>

definition nvmf_ctlr_matches_baseopts :: "nvmf_host list \<Rightarrow> nvme_ctrl \<Rightarrow> nvmf_ctrl_options \<Rightarrow> bool" where
  "nvmf_ctlr_matches_baseopts hosts c opts =
     (let host = (\<lambda>p. Option.bind (o_host p) (\<lambda>a. host_at a hosts))
      in \<not> (c_state c = NVME_CTRL_DELETING \<or> c_state c = NVME_CTRL_DEAD \<or>
            o_subsysnqn opts \<noteq> o_subsysnqn (c_opts c) \<or>
            map_option h_nqn (host opts) \<noteq> map_option h_nqn (host (c_opts c)) \<or>
            map_option h_id (host opts) \<noteq> map_option h_id (host (c_opts c))))"

definition nvmf_ip_options_match :: "nvmf_host list \<Rightarrow> nvme_ctrl \<Rightarrow> nvmf_ctrl_options \<Rightarrow> bool" where
  "nvmf_ip_options_match hosts c opts =
     (if \<not> nvmf_ctlr_matches_baseopts hosts c opts \<or>
         o_traddr opts \<noteq> o_traddr (c_opts c) \<or> o_trsvcid opts \<noteq> o_trsvcid (c_opts c)
      then False
      else
        let a = (o_mask opts AND NVMF_OPT_HOST_TRADDR \<noteq> 0);
            b = (o_mask (c_opts c) AND NVMF_OPT_HOST_TRADDR \<noteq> 0)
        in if a \<and> b then o_host_traddr opts = o_host_traddr (c_opts c)
           else if a \<or> b then False
           else True)"

section \<open>The keep-alive timeout on the wire\<close>

text \<open>The connect command carries the keep-alive timeout plus its grace period in milliseconds, in 32
  bits: for any timeout the option parser accepts the field is right exactly when the timeout is at most
  4294957 seconds, and from there on it has wrapped to a shorter one.
\<close>

theorem connect_kato_milliseconds:
  assumes "kato < 2 ^ 31"
  shows "unat (connect_kato kato) = (if kato = 0 then 0 else (kato + 10) * 1000) \<longleftrightarrow> kato \<le> 4294957"
proof (cases "kato = 0")
  case False
  have "connect_kato kato = of_nat ((kato + 10) * 1000)"
    using False by (simp add: connect_kato_def)
  then have u: "unat (connect_kato kato) = (kato + 10) * 1000 mod 2 ^ 32"
    by (simp only: unat_of_nat) simp
  show ?thesis
  proof (cases "kato \<le> 4294957")
    case True
    then have "(kato + 10) * 1000 < 2 ^ 32" by simp
    with u True False show ?thesis by simp
  next
    case gt: False
    have "unat (connect_kato kato) < 2 ^ 32" unfolding u by simp
    with gt False show ?thesis by simp
  qed
qed (simp add: connect_kato_def)

theorem connect_kato_milliseconds_witness:
  "unat (connect_kato 5) = 15000 \<and> unat (connect_kato 4294958) \<noteq> 4294968000"
  using connect_kato_milliseconds[of 5] connect_kato_milliseconds[of 4294958] by simp

end
