(* ===== verification/Fabric_Connect.thy ===== *)
theory Fabric_Connect
  imports Target_Connect Fabrics_Host
begin

text \<open>
  Connecting, end to end: the connect commands and data the host builds (\<open>host/fabrics.c\<close>), what the
  target does with them (\<open>target/fabrics-cmd.c\<close>, \<open>target/core.c\<close>), and what both sides hold afterwards.
\<close>

section \<open>The data of a connect command\<close>

text \<open>\<open>strncpy\<close> into a zeroed field of 256 bytes, and the structure the host sends.\<close>

definition nqn_field :: "string \<Rightarrow> u8 list" where
  "nqn_field s = (let bs = map (\<lambda>ch. of_nat (of_char ch)) (takeWhile (\<lambda>ch. ch \<noteq> CHR 0x00) (take NVMF_NQN_SIZE s))
                  in bs @ replicate (256 - length bs) 0)"

definition connect_image :: "connect_data \<Rightarrow> u8 list" where
  "connect_image d = cd_hostid d @ le_bytes 2 (cd_cntlid d) @ replicate 238 0 @
     nqn_field (cd_subsysnqn d) @ nqn_field (cd_hostnqn d) @ replicate 256 0"

lemma nqn_field_length [simp]: "length (nqn_field s) = 256"
proof -
  have "length (takeWhile (\<lambda>ch. ch \<noteq> CHR 0x00) (take 223 s)) \<le> length (take 223 s)" by (rule length_takeWhile_le)
  then have "length (takeWhile (\<lambda>ch. ch \<noteq> CHR 0x00) (take 223 s)) \<le> 223" by simp
  then show ?thesis by (simp add: nqn_field_def Let_def del: One_nat_def)
qed

lemma of_char_word [simp]: "unat (of_nat (of_char ch) :: u8) = of_char ch"
proof -
  have "(of_char ch :: nat) < 256" using mod_less_divisor [of 256 "of_char ch :: nat"] by (simp add: of_char_mod_256)
  then show ?thesis by (simp add: unat_of_nat)
qed

lemma of_char_byte_0 [simp]: "((of_nat (of_char ch) :: u8) = 0) = (ch = CHR 0x00)"
proof -
  have "((of_nat (of_char ch) :: u8) = 0) = ((of_char ch :: nat) = 0)"
    by (simp only: unat_eq_0 [symmetric] of_char_word)
  also have "\<dots> = (ch = CHR 0x00)"
    using of_char_eq_iff [of ch "CHR 0x00", where ?'a = nat] by (simp del: of_char_eq_iff)
  finally show ?thesis .
qed

lemma takeWhile_append_stop: "(\<And>x. x \<in> set xs \<Longrightarrow> P x) \<Longrightarrow> \<not> P y \<Longrightarrow> takeWhile P (xs @ y # ys) = xs"
  by (induction xs) simp_all

lemma nqn_field_read:
  "map (\<lambda>b. char_of (unat b)) (takeWhile (\<lambda>b. b \<noteq> 0) (nqn_field s @ rest)) =
   takeWhile (\<lambda>ch. ch \<noteq> CHR 0x00) (take NVMF_NQN_SIZE s)"
proof -
  define cs where "cs = takeWhile (\<lambda>ch. ch \<noteq> CHR 0x00) (take NVMF_NQN_SIZE s)"
  have len: "length cs \<le> 223"
    using length_takeWhile_le [of "\<lambda>ch. ch \<noteq> CHR 0x00" "take NVMF_NQN_SIZE s"] by (simp add: cs_def)
  define bs where "bs = map (\<lambda>ch. of_nat (of_char ch) :: u8) cs"
  have nz: "b \<noteq> 0" if "b \<in> set bs" for b
    using that set_takeWhileD by (fastforce simp: bs_def cs_def)
  have "nqn_field s @ rest = bs @ 0 # (replicate (255 - length bs) 0 @ rest)"
  proof -
    have "256 - length bs = Suc (255 - length bs)" using len by (simp add: bs_def)
    then show ?thesis by (simp add: nqn_field_def Let_def bs_def cs_def)
  qed
  then have "takeWhile (\<lambda>b. b \<noteq> 0) (nqn_field s @ rest) = bs"
    using takeWhile_append_stop [of bs "\<lambda>b. b \<noteq> 0" 0] nz by simp
  then show ?thesis by (simp add: bs_def cs_def comp_def)
qed

abbreviation c_str :: "string \<Rightarrow> string" where "c_str s \<equiv> takeWhile (\<lambda>ch. ch \<noteq> CHR 0x00) (take NVMF_NQN_SIZE s)"

lemma connect_image_read:
  assumes "length (cd_hostid d) = 16"
  shows "d_hostid (connect_image d) = cd_hostid d \<and> d_cntlid (connect_image d) = cd_cntlid d \<and>
    d_subsysnqn (connect_image d) = c_str (cd_subsysnqn d) \<and> d_hostnqn (connect_image d) = c_str (cd_hostnqn d) \<and>
    length (connect_image d) = SIZEOF_CONNECT_DATA"
proof -
  have s: "drop 16 (connect_image d) = le_bytes 2 (cd_cntlid d) @ replicate 238 0 @
     nqn_field (cd_subsysnqn d) @ nqn_field (cd_hostnqn d) @ replicate 256 0"
    using assms by (simp add: connect_image_def)
  have n1: "drop 256 (connect_image d) = nqn_field (cd_subsysnqn d) @ nqn_field (cd_hostnqn d) @ replicate 256 0"
    using assms by (simp add: connect_image_def)
  have n2: "drop 512 (connect_image d) = nqn_field (cd_hostnqn d) @ replicate 256 0"
    using assms by (simp add: connect_image_def)
  have "le_nat (le_bytes 2 (cd_cntlid d)) = unat (cd_cntlid d)"
    by (simp add: le_nat_le_bytes) (rule mod_less, rule order.strict_trans2 [OF unsigned_less], simp)
  then have "d_cntlid (connect_image d) = cd_cntlid d" by (simp add: d_cntlid_def s)
  moreover have "d_hostid (connect_image d) = cd_hostid d" using assms by (simp add: d_hostid_def connect_image_def)
  moreover have "length (connect_image d) = 1024" using assms by (simp add: connect_image_def)
  ultimately show ?thesis by (simp add: d_subsysnqn_def d_hostnqn_def cstr_at_def n1 n2 nqn_field_read)
qed

text \<open>The target reads the connect data the host wrote: identifier, controller number and both names, the
names up to 223 characters and to a terminator, whatever the rest of the buffer holds.\<close>

theorem connect_data_roundtrip:
  assumes "length (cd_hostid d) = 16"
  shows "d_hostid (connect_image d) = cd_hostid d \<and> d_cntlid (connect_image d) = cd_cntlid d \<and>
    d_subsysnqn (connect_image d) = c_str (cd_subsysnqn d) \<and> d_hostnqn (connect_image d) = c_str (cd_hostnqn d) \<and>
    length (connect_image d) = SIZEOF_CONNECT_DATA"
  by (rule connect_image_read [OF assms])

definition example_data :: "u16 \<Rightarrow> connect_data" where
  "example_data cntlid = \<lparr>cd_hostid = replicate 16 1, cd_cntlid = cntlid, cd_subsysnqn = ''s'', cd_hostnqn = ''h''\<rparr>"

theorem connect_data_roundtrip_witness:
  "d_cntlid (connect_image (example_data 5)) = 5 \<and> d_subsysnqn (connect_image (example_data 5)) = ''s'' \<and>
   d_hostnqn (connect_image (example_data 5)) = ''h''"
  using connect_data_roundtrip [of "example_data 5"] by (simp add: example_data_def)

section \<open>A host connects to a target\<close>

text \<open>The request the transport hands to the target for a connect command of the host.\<close>

definition connect_request :: "u16 \<Rightarrow> u16 \<Rightarrow> u32 \<Rightarrow> u8 \<Rightarrow> connect_data \<Rightarrow> nvmet_req" where
  "connect_request qid sqsize kato cattr d =
     \<lparr>r_cmd = \<lparr>tc_opcode = nvme_fabrics_command, tc_flags = NVME_CMD_SGL_METABUF, tc_command_id = 0, tc_nsid = 0,
        tc_cdw10 = 0, tc_cdw11 = 0, tc_cdw12 = 0, tc_lpo = 0, tc_fctype = nvme_fabrics_type_connect, tc_attrib = 0, tc_offset = 0,
        tc_value = 0, tc_recfmt = 0, tc_qid = qid, tc_sqsize = sqsize, tc_cattr = cattr, tc_kato = kato\<rparr>,
      r_sg = connect_image d, r_data_len = 1024, r_transfer_len = 1024, r_ns = None, r_error_loc = NVMET_NO_ERROR_LOC,
      r_error_slba = 0, r_result = 0, r_status = 0, r_sq_head = 0\<rparr>"

lemma connect_request_simps [simp]:
  "tc_qid (r_cmd (connect_request qid sqsize kato cattr d)) = qid"
  "tc_sqsize (r_cmd (connect_request qid sqsize kato cattr d)) = sqsize"
  "tc_kato (r_cmd (connect_request qid sqsize kato cattr d)) = kato"
  "tc_cattr (r_cmd (connect_request qid sqsize kato cattr d)) = cattr"
  "tc_recfmt (r_cmd (connect_request qid sqsize kato cattr d)) = 0"
  "r_sg (connect_request qid sqsize kato cattr d) = connect_image d"
  "r_status (connect_request qid sqsize kato cattr d) = 0" "r_result (connect_request qid sqsize kato cattr d) = 0"
  by (simp_all add: connect_request_def)

text \<open>
  The answer is the completion of the target; the host takes the status from bit 1 up. On a queue without a
  controller the target accepts nothing but connect.
\<close>

definition target_answer :: "nat \<Rightarrow> target \<Rightarrow> int \<times> u64" where
  "target_answer qa t = (let cqe = last (tq_out (t_queues t qa)) in (uint (drop_bit 1 (q_status cqe)), q_result cqe))"

definition deliver_connect ::
  "bool \<Rightarrow> alloc_env \<Rightarrow> u16 option \<Rightarrow> nvmet_port option \<Rightarrow> nat \<Rightarrow> target \<Rightarrow> fab_cmd \<Rightarrow> connect_data \<Rightarrow> target" where
  "deliver_connect alloc e instq port qa t cmd d =
     (case cmd of
        Connect qid sqsize kato cattr \<Rightarrow>
          (if qid = 0 then nvmet_execute_admin_connect alloc e instq port qa (connect_request qid sqsize kato cattr d) t
           else nvmet_execute_io_connect alloc instq port qa (connect_request qid sqsize kato cattr d) t)
      | _ \<Rightarrow> t)"

definition fabric_submit ::
  "bool \<Rightarrow> alloc_env \<Rightarrow> u16 option \<Rightarrow> nvmet_port option \<Rightarrow> nat \<Rightarrow> target \<Rightarrow> submit_env" where
  "fabric_submit alloc e instq port qa t cmd d =
     (case (cmd, d) of
        (Connect qid sqsize kato cattr, Some d) \<Rightarrow> target_answer qa (deliver_connect alloc e instq port qa t cmd d)
      | _ \<Rightarrow> (uint (NVME_SC_INVALID_OPCODE OR NVME_SC_DNR), 0))"

lemma answered_answer:
  assumes "answered qa st v t t'"
  shows "snd (target_answer qa t') = v" and "st = 0 \<Longrightarrow> fst (target_answer qa t') = 0"
    and "error_status st \<Longrightarrow> fst (target_answer qa t') \<noteq> 0"
proof -
  obtain cqe where c: "tq_out (t_queues t' qa) = tq_out (t_queues t qa) @ [cqe]" "q_result cqe = v" "q_status cqe = push_bit 1 st"
    using assms by (auto simp: answered_def)
  then show "snd (target_answer qa t') = v" and "st = 0 \<Longrightarrow> fst (target_answer qa t') = 0"
    by (simp_all add: target_answer_def)
  assume "error_status st"
  then have lt: "unat st < 32768" and nz: "unat st \<noteq> 0" by (auto simp: error_status_def word_less_nat_alt unat_eq_0)
  have "unat (push_bit 1 st) = 2 * unat st"
    using lt by (simp add: push_bit_eq_mult unat_word_ariths)
  then have "unat (drop_bit 1 (push_bit 1 st)) = unat st"
    by (simp add: drop_bit_eq_div unat_div_distrib)
  then have "drop_bit 1 (push_bit 1 st) \<noteq> 0" using nz by (metis unat_0)
  then show "fst (target_answer qa t') \<noteq> 0" using c by (simp add: target_answer_def unsigned_eq_0_iff)
qed


section \<open>An admin connect, end to end\<close>

text \<open>C19. Host and target agree on the outcome of connecting an admin queue. Whatever the allocators, the
configuration and the transport answer: when the host's connect returns success, the number it has stored is that
of a controller the target made for this queue, under the name and identifier the host sent; when it fails, the
host's controller is unchanged, and so are the target's subsystems, controllers and numbers.\<close>

theorem admin_connect_end_to_end:
  assumes inv: "target_inv (\<lambda>_. 0) (\<lambda>_. 0) t" and free: "tq_ctrl (t_queues t qa) = None" and ia: "install_answer instq"
    and id16: "length (cd_hostid (make_connect_data hosts (c_opts c) 0xffff)) = 16"
  shows "let d = make_connect_data hosts (c_opts c) 0xffff;
      cmd = Connect 0 (of_nat (NVME_AQ_DEPTH - 1)) (connect_kato (c_kato c)) (connect_cattr (c_opts c));
      t' = deliver_connect alloc e instq port qa t cmd d;
      (ret, c') = nvmf_connect_admin_queue True (fabric_submit alloc e instq port qa t) hosts c
    in if ret = 0
       then c' = c\<lparr>c_cntlid := c_cntlid c'\<rparr> \<and>
         (\<exists>ya k. tq_ctrl (t_queues t' qa) = Some (ya, c_cntlid c') \<and> ctrl_at t' (ya, c_cntlid c') = Some k \<and>
            n_sqs k 0 = Some qa \<and> n_hostnqn k = c_str (cd_hostnqn d) \<and> n_hostid k = cd_hostid d \<and>
            unat (c_cntlid c') \<notin> t_cntlids t)
       else c' = c \<and> tq_ctrl (t_queues t' qa) = None \<and> t_subsys t' = t_subsys t \<and> t_cntlids t' = t_cntlids t"
proof -
  define d where "d = make_connect_data hosts (c_opts c) 0xffff"
  define r where "r = connect_request 0 (of_nat (NVME_AQ_DEPTH - 1)) (connect_kato (c_kato c)) (connect_cattr (c_opts c)) d"
  define t' where "t' = nvmet_execute_admin_connect alloc e instq port qa r t"
  have del: "deliver_connect alloc e instq port qa t
      (Connect 0 (of_nat (NVME_AQ_DEPTH - 1)) (connect_kato (c_kato c)) (connect_cattr (c_opts c))) d = t'"
    by (simp add: deliver_connect_def t'_def r_def)
  have host: "nvmf_connect_admin_queue True (fabric_submit alloc e instq port qa t) hosts c =
      (let (ret, res) = target_answer qa t' in if ret \<noteq> 0 then (ret, c) else (0, c\<lparr>c_cntlid := ucast res\<rparr>))"
    by (simp only: nvmf_connect_admin_queue_def fabric_submit_def Let_def prod.case fab_cmd.case option.case
        d_def [symmetric] del not_True_eq_False if_False)
  note R = connect_image_read [of d]
  have img: "take SIZEOF_CONNECT_DATA (r_sg r) = connect_image d" "d_hostnqn (connect_image d) = c_str (cd_hostnqn d)"
      "d_hostid (connect_image d) = cd_hostid d"
    using R id16 by (simp_all add: r_def d_def [symmetric])
  have short: "take NVMF_NQN_SIZE (c_str s) = c_str s" for s
    using length_takeWhile_le [of "\<lambda>ch. ch \<noteq> CHR 0x00" "take NVMF_NQN_SIZE s"] by simp
  consider "admin_admitted port r qa t t'" | "admin_rejected qa t t'"
    using admin_connect_cases [OF inv free _ ia t'_def] by (auto simp: r_def)
  then show ?thesis
  proof cases
    case 1
    then obtain ya y n k v where A: "t_subsys t ya = Some y" "n \<notin> t_cntlids t" "n < 65536"
      "tq_ctrl (t_queues t' qa) = Some (ya, of_nat n)"
      "t_subsys t' = (t_subsys t)(ya \<mapsto> y\<lparr>y_ref := y_ref y + 1, y_ctrls := y_ctrls y @ [k]\<rparr>)"
      "n_cntlid k = of_nat n" "n_hostnqn k = c_str (cd_hostnqn d)" "n_hostid k = cd_hostid d"
      "n_sqs k 0 = Some qa" "answered qa 0 v t t'" "(ucast v :: u16) = of_nat n"
      unfolding admin_admitted_def Let_def img short by (auto simp: r_def)
    have "find (\<lambda>c. n_cntlid c = of_nat n) (y_ctrls y @ [k]) = Some k"
      using find_new_last [of "y_ctrls y" "\<lambda>c. n_cntlid c = of_nat n" k] fresh_number [OF inv A(2,3,1)] A(6) by simp
    then have "ctrl_at t' (ya, of_nat n) = Some k" by (simp add: ctrl_at_def A(5))
    moreover have "unat (of_nat n :: u16) = n" using A(3) by (simp add: unat_of_nat)
    ultimately show ?thesis
      using A answered_answer(1,2) [OF A(10)]
      unfolding Let_def d_def [symmetric] del host by (cases "target_answer qa t'") auto
  next
    case 2
    then obtain st v where B: "error_status st" "tq_ctrl (t_queues t' qa) = None" "t_subsys t' = t_subsys t"
      "t_cntlids t' = t_cntlids t" "answered qa st v t t'" unfolding admin_rejected_def by blast
    then show ?thesis
      using answered_answer(3) [OF B(5,1)]
      unfolding Let_def d_def [symmetric] del host by (cases "target_answer qa t'") auto
  qed
qed

section \<open>An example\<close>

definition example_port :: nvmet_port where
  "example_port = \<lparr>p_subsystems = [5], p_inline_data_size = 0, p_ana_state = (\<lambda>_. 1)\<rparr>"

definition example_target :: target where
  "example_target = \<lparr>t_subsys = [5 \<mapsto> (new_subsys ''s'' Nqn_nvme 0)\<lparr>y_allow_any_host := True\<rparr>], t_disc = 9, t_cntlids = {},
     t_queues = (\<lambda>_. \<lparr>tq_sq = \<lparr>sq_qid = 0, sq_size = 0, sq_sqhd = 0, sq_sqhd_disabled = False\<rparr>, tq_ctrl = None,
       tq_out = [], tq_ns_refs = []\<rparr>)\<rparr>"

lemma example_target_idle: "target_idle example_target"
  by (simp add: target_idle_def example_target_def new_subsys_def)

lemma ida_first: "ida_simple_get True {} = 1"
proof -
  have "[1..<65519] = 1 # [Suc 1..<65519]" by (rule upt_conv_Cons) simp
  then show ?thesis by (simp add: ida_simple_get_def)
qed

lemma example_image:
  "length (connect_image (example_data i)) = 1024" "take 1024 (connect_image (example_data i)) = connect_image (example_data i)"
  "d_hostid (connect_image (example_data i)) = replicate 16 1" "d_cntlid (connect_image (example_data i)) = i"
  "d_subsysnqn (connect_image (example_data i)) = ''s''" "d_hostnqn (connect_image (example_data i)) = ''h''"
  using connect_image_read [of "example_data i"] by (simp_all add: example_data_def)

definition admin_request :: nvmet_req where "admin_request = connect_request 0 31 15000 0 (example_data 0xffff)"
definition io_request :: nvmet_req where "io_request = connect_request 1 127 0 0 (example_data 1)"

definition connected_target :: target where
  "connected_target = nvmet_execute_admin_connect True enough_memory None (Some example_port) 0 admin_request example_target"

lemma example_find: "nvmet_find_get_subsys (Some example_port) ''s'' t =
    (if t_subsys t 5 = None \<or> (t_subsys t 5 \<noteq> None \<and> take NVMF_NQN_SIZE (y_subsysnqn (the (t_subsys t 5))) \<noteq> ''s'') then (None, t)
     else kref_get_subsys 5 t)"
  by (simp add: nvmet_find_get_subsys_def example_port_def split: option.splits)

lemma connected_ctrl: "tq_ctrl (t_queues connected_target 0) = Some (5, 1)"
  by (simp add: connected_target_def nvmet_execute_admin_connect_def admin_request_def nvmet_copy_from_sgl_def
      example_image Let_def nvmet_set_result_def nvmet_alloc_ctrl_def example_find example_target_def new_subsys_def
      kref_get_subsys_def nvmet_host_allowed_def enough_memory_def ida_first nvmet_install_queue_def)

lemma connected_state:
  "tq_ctrl (t_queues connected_target 1) = None"
  "\<exists>y c. t_subsys connected_target 5 = Some y \<and> y_ctrls y = [c] \<and> n_cntlid c = 1 \<and> n_hostnqn c = ''h'' \<and> n_ref c = 1 \<and>
     y_max_qid y = 128 \<and> y_ref y = 2 \<and> y_subsysnqn y = ''s''"
  by (simp_all add: connected_target_def nvmet_execute_admin_connect_def admin_request_def nvmet_copy_from_sgl_def
      example_image Let_def nvmet_set_result_def nvmet_alloc_ctrl_def example_find example_target_def new_subsys_def
      kref_get_subsys_def nvmet_host_allowed_def enough_memory_def ida_first nvmet_install_queue_def
      on_queue_complete_ok on_queue_queues upd_ctrl_at_def make_ctrl_ids make_ctrl_hostnqn)

lemma connected_inv: "target_inv (\<lambda>_. 0) (\<lambda>_. 0) connected_target"
  unfolding connected_target_def by (rule inv_admin_connect [OF inv_idle [OF example_target_idle]])

lemma example_free: "tq_ctrl (t_queues example_target qa) = None" "t_cntlids example_target = {}"
  by (simp_all add: example_target_def)

lemma example_requests: "r_status admin_request = 0" "r_status io_request = 0" "install_answer None"
  by (simp_all add: admin_request_def io_request_def install_answer_def)

theorem target_references_exact_witness:
  "ctrl_at connected_target (5, 1) \<noteq> None \<and> n_ref (the (ctrl_at connected_target (5, 1))) = card {qa. tq_ctrl (t_queues connected_target qa) = Some (5, 1)}"
proof -
  have run: "fold target_step [T_admin_connect True enough_memory None (Some example_port) 0 admin_request] example_target =
      connected_target" by (simp add: connected_target_def)
  note T = target_references_exact [OF example_target_idle, of "[T_admin_connect True enough_memory None (Some example_port) 0 admin_request]",
    unfolded Let_def run]
  have "ctrl_at connected_target (5, 1) \<noteq> None" using T [THEN conjunct1, THEN spec, of "(5, 1)"] connected_ctrl by blast
  then obtain c where "ctrl_at connected_target (5, 1) = Some c" by blast
  moreover from this have "n_ref c = card {qa. tq_ctrl (t_queues connected_target qa) = Some (5, 1)}"
    using T [THEN conjunct2, THEN conjunct1, THEN spec, THEN spec, of "(5, 1)" c] by blast
  ultimately show ?thesis by simp
qed

theorem admin_connect_all_or_nothing_witness:
  "t_cntlids connected_target = {1} \<and> tq_ctrl (t_queues connected_target 0) = Some (5, 1)"
proof -
  obtain ya n where n: "n < 65536" "tq_ctrl (t_queues connected_target 0) = Some (ya, of_nat n)"
      "t_cntlids connected_target = insert n {}"
    using admin_connect_all_or_nothing [OF inv_idle [OF example_target_idle] example_free(1) example_requests(1,3),
      where alloc = True and e = enough_memory and port = "Some example_port" and qa = 0, folded connected_target_def]
    connected_ctrl unfolding Let_def example_free(2) by (auto simp del: not_Some_eq)
  moreover from this have "(of_nat n :: u16) = 1" using connected_ctrl by simp
  then have "n = 1" using n(1) by (simp add: u16_of_nat_eq)
  ultimately show ?thesis using connected_ctrl by simp
qed

theorem io_connect_checked_witness:
  "let t' = nvmet_execute_io_connect True None (Some example_port) 1 io_request connected_target in
     tq_ctrl (t_queues t' 1) = Some (5, 1) \<and> n_sqs (the (ctrl_at t' (5, 1))) 1 = Some 1"
proof -
  define t' where "t' = nvmet_execute_io_connect True None (Some example_port) 1 io_request connected_target"
  obtain y c where y: "t_subsys connected_target 5 = Some y" "y_ctrls y = [c]" "n_cntlid c = 1" "n_hostnqn c = ''h''"
      "n_ref c = 1" "y_max_qid y = 128" "y_ref y = 2" "y_subsysnqn y = ''s''" using connected_state(2) by blast
  have j: "tq_ctrl (t_queues t' 1) = Some (5, 1)"
    using connected_state(1) y
    by (simp add: t'_def nvmet_execute_io_connect_def io_request_def nvmet_copy_from_sgl_def example_image Let_def
        nvmet_set_result_def nvmet_ctrl_find_get_def example_find kref_get_subsys_def nvmet_install_queue_def
        nvmet_subsys_put_def upd_ctrl_at_def)
  then have "\<not> refused 1 connected_target m t'" for m by (simp add: refused_def)
  then obtain p c' where "tq_ctrl (t_queues t' 1) = Some p" "ctrl_at t' = (ctrl_at connected_target)(p \<mapsto> with_queue io_request 1 c')"
    using io_connect_checked [OF connected_inv connected_state(1) example_requests(2,3),
      where alloc = True and port = "Some example_port", folded t'_def]
    unfolding Let_def simp_thms if_True by blast
  with j show ?thesis unfolding Let_def t'_def [symmetric] by (auto simp: with_queue_def io_request_def)
qed

definition example_hosts :: "nvmf_host list" where
  "example_hosts = [\<lparr>h_addr = 10, h_ref = 1, h_nqn = ''h'', h_id = replicate 16 1\<rparr>]"

definition example_host :: nvme_ctrl where
  "example_host = (nvme_init_ctrl (opts_min\<lparr>o_subsysnqn := Some ''s'', o_host := Some 10\<rparr>))\<lparr>c_kato := 5\<rparr>"

lemma example_host_data: "make_connect_data example_hosts (c_opts example_host) i = example_data i"
  by (simp add: make_connect_data_def example_hosts_def example_host_def nvme_init_ctrl_def host_at_def
      example_data_def opt_str_def)

theorem admin_connect_end_to_end_witness:
  "let (ret, c') = nvmf_connect_admin_queue True (fabric_submit True enough_memory None (Some example_port) 0 example_target)
       example_hosts example_host
   in ret = 0 \<and> c_cntlid c' = 1"
proof -
  have len: "length (cd_hostid (make_connect_data example_hosts (c_opts example_host) 0xffff)) = 16"
    by (simp add: example_host_data example_data_def)
  have del: "deliver_connect True enough_memory None (Some example_port) 0 example_target
      (Connect 0 (of_nat (NVME_AQ_DEPTH - 1)) (connect_kato (c_kato example_host)) (connect_cattr (c_opts example_host)))
      (example_data 0xffff) = connected_target"
    by (simp add: deliver_connect_def connected_target_def admin_request_def connect_kato_def connect_cattr_def
        example_host_def nvme_init_ctrl_def opts_min_def)
  obtain ret c' where run: "nvmf_connect_admin_queue True
      (fabric_submit True enough_memory None (Some example_port) 0 example_target) example_hosts example_host = (ret, c')"
    by fastforce
  from admin_connect_end_to_end [OF inv_idle [OF example_target_idle] example_free(1) example_requests(3) len,
      where alloc = True and e = enough_memory and port = "Some example_port" and qa = 0,
      unfolded example_host_data Let_def del run prod.case]
  show ?thesis unfolding run Let_def prod.case using connected_ctrl by (simp split: if_splits)
qed

end
