(* ===== verification/Rdma_Device.thy ===== *)
theory Rdma_Device
  imports Host_Ctrl
begin

text \<open>
  The RDMA devices the host driver shares between queues (\<open>device_list\<close> in \<open>host/rdma.c\<close>): one
  \<open>struct nvme_rdma_device\<close> per port GUID with its protection domain, reference counted by the
  queues that use it. Devices are named by the address the allocator returned for them.
\<close>

record rdma_device =
  d_addr :: nat
  d_node_guid :: u64
  d_ref :: nat
  d_unsafe_rkey :: bool
  d_num_inline_segments :: int

text \<open>What the RDMA core and the allocator answer while a device is looked up.\<close>

record dev_env =
  de_node_guid :: u64          \<comment> \<open>\<open>cm_id->device->node_guid\<close>\<close>
  de_kzalloc :: "nat option"   \<comment> \<open>\<open>kzalloc\<close>: the new object's address, or failure\<close>
  de_alloc_pd :: bool          \<comment> \<open>\<open>ib_alloc_pd\<close> succeeds\<close>
  de_mem_mgt_ext :: bool       \<comment> \<open>the device has \<open>IB_DEVICE_MEM_MGT_EXTENSIONS\<close>\<close>
  de_max_send_sge :: int
  de_register_always :: bool   \<comment> \<open>the module parameter\<close>

abbreviation (input) NVME_RDMA_MAX_INLINE_SEGMENTS :: int where "NVME_RDMA_MAX_INLINE_SEGMENTS \<equiv> 4"

text \<open>
  \<open>kref_get_unless_zero\<close> on the first live entry with the GUID; a fresh entry is pushed to the
  front of the list (\<open>list_add\<close>). The result is the device's address, \<open>None\<close> for \<open>NULL\<close>.
\<close>

definition nvme_rdma_dev_get :: "rdma_device \<Rightarrow> bool \<times> rdma_device" where
  "nvme_rdma_dev_get d = (if d_ref d = 0 then (False, d) else (True, d\<lparr>d_ref := d_ref d + 1\<rparr>))"

fun dev_lookup_get :: "u64 \<Rightarrow> rdma_device list \<Rightarrow> nat option \<times> rdma_device list" where
  "dev_lookup_get guid [] = (None, [])"
| "dev_lookup_get guid (d # ds) =
     (if d_node_guid d = guid \<and> fst (nvme_rdma_dev_get d)
      then (Some (d_addr d), snd (nvme_rdma_dev_get d) # ds)
      else let (r, ds) = dev_lookup_get guid ds in (r, d # ds))"

definition nvme_rdma_find_get_device :: "dev_env \<Rightarrow> rdma_device list \<Rightarrow> nat option \<times> rdma_device list" where
  "nvme_rdma_find_get_device e ds =
     (case dev_lookup_get (de_node_guid e) ds of
        (Some a, ds) \<Rightarrow> (Some a, ds)
      | (None, _) \<Rightarrow>
         (case de_kzalloc e of
            None \<Rightarrow> (None, ds)
          | Some a \<Rightarrow>
              if \<not> de_alloc_pd e then (None, ds)
              else if \<not> de_mem_mgt_ext e then (None, ds)
              else (Some a,
                \<lparr>d_addr = a, d_node_guid = de_node_guid e, d_ref = 1,
                 d_unsafe_rkey = (\<not> de_register_always e),
                 d_num_inline_segments = min NVME_RDMA_MAX_INLINE_SEGMENTS (de_max_send_sge e - 1)\<rparr> # ds)))"

text \<open>\<open>kref_put\<close>; the last reference takes the entry off the list and frees it.\<close>

fun nvme_rdma_dev_put :: "nat \<Rightarrow> rdma_device list \<Rightarrow> rdma_device list" where
  "nvme_rdma_dev_put a [] = []"
| "nvme_rdma_dev_put a (d # ds) =
     (if d_addr d = a
      then (if d_ref d \<le> 1 then ds else d\<lparr>d_ref := d_ref d - 1\<rparr> # ds)
      else d # nvme_rdma_dev_put a ds)"

definition dev_of :: "rdma_device list \<Rightarrow> nat \<Rightarrow> rdma_device option" where
  "dev_of ds a = find (\<lambda>d. d_addr d = a) ds"

text \<open>
  Well-formed device lists: distinct addresses, live references, and a segment count that fits the
  driver's scatter array when the device offers at least one send SGE.
\<close>

definition devs_ok :: "rdma_device list \<Rightarrow> bool" where
  "devs_ok ds \<longleftrightarrow> distinct (map d_addr ds) \<and> distinct (map d_node_guid ds) \<and>
     (\<forall>d \<in> set ds. 0 < d_ref d \<and> 0 \<le> d_num_inline_segments d \<and>
        d_num_inline_segments d \<le> NVME_RDMA_MAX_INLINE_SEGMENTS)"

definition dev_env_ok :: "dev_env \<Rightarrow> rdma_device list \<Rightarrow> bool" where
  "dev_env_ok e ds \<longleftrightarrow> 1 \<le> de_max_send_sge e \<and>
     (case de_kzalloc e of None \<Rightarrow> True | Some a \<Rightarrow> a \<notin> d_addr ` set ds)"

section \<open>References\<close>

definition refs :: "rdma_device list \<Rightarrow> nat \<Rightarrow> nat" where
  "refs ds a = (case dev_of ds a of None \<Rightarrow> 0 | Some d \<Rightarrow> d_ref d)"

lemma dev_of_simps [simp]:
  "dev_of [] a = None"
  "dev_of (d # ds) a = (if d_addr d = a then Some d else dev_of ds a)"
  by (simp_all add: dev_of_def)

lemma refs_simps [simp]:
  "refs [] a = 0"
  "refs (d # ds) a = (if d_addr d = a then d_ref d else refs ds a)"
  by (simp_all add: refs_def)

lemma refs_notin: "a \<notin> d_addr ` set ds \<Longrightarrow> refs ds a = 0"
  by (induction ds) auto

lemma dev_lookup_get_None:
  "dev_lookup_get guid ds = (None, ds') \<Longrightarrow>
   ds' = ds \<and> (\<forall>d \<in> set ds. d_node_guid d = guid \<longrightarrow> d_ref d = 0)"
  by (induction ds arbitrary: ds')
    (auto simp: nvme_rdma_dev_get_def split: if_splits prod.splits)

lemma dev_lookup_get_Some:
  "dev_lookup_get guid ds = (Some a, ds') \<Longrightarrow>
   map d_addr ds' = map d_addr ds \<and> map d_node_guid ds' = map d_node_guid ds \<and>
   a \<in> d_addr ` set ds \<and> length ds' = length ds"
  by (induction ds arbitrary: ds')
    (auto simp: nvme_rdma_dev_get_def split: if_splits prod.splits)

lemma dev_lookup_get_refs:
  assumes "dev_lookup_get guid ds = (Some a, ds')" and "distinct (map d_addr ds)"
  shows "refs ds' b = (if b = a then refs ds a + 1 else refs ds b)"
  using assms
proof (induction ds arbitrary: ds')
  case Nil
  then show ?case by simp
next
  case (Cons d ds)
  show ?case
  proof (cases "d_node_guid d = guid \<and> fst (nvme_rdma_dev_get d)")
    case True
    with Cons.prems show ?thesis
      by (auto simp: nvme_rdma_dev_get_def split: if_splits)
  next
    case False
    with Cons.prems obtain ds1 where ds1: "dev_lookup_get guid ds = (Some a, ds1)" "ds' = d # ds1"
      by (auto split: prod.splits)
    have "a \<in> d_addr ` set ds" using dev_lookup_get_Some [OF ds1(1)] by blast
    with Cons.prems(2) have "d_addr d \<noteq> a" by auto
    moreover have "refs ds1 b = (if b = a then refs ds a + 1 else refs ds b)"
      using Cons.IH [OF ds1(1)] Cons.prems(2) by simp
    ultimately show ?thesis
      by (auto simp: ds1(2))
  qed
qed

lemma dev_lookup_get_ok:
  assumes "dev_lookup_get guid ds = (Some a, ds')" and "devs_ok ds"
  shows "devs_ok ds'"
proof -
  have "\<forall>d \<in> set ds'. 0 < d_ref d \<and> 0 \<le> d_num_inline_segments d \<and>
      d_num_inline_segments d \<le> NVME_RDMA_MAX_INLINE_SEGMENTS"
    using assms unfolding devs_ok_def
    by (induction ds arbitrary: ds')
      (auto simp: nvme_rdma_dev_get_def split: if_splits prod.splits)
  with dev_lookup_get_Some [OF assms(1)] assms(2) show ?thesis
    by (simp add: devs_ok_def)
qed

text \<open>A lookup either takes one more reference on a listed device or adds a fresh one in front.\<close>

lemma find_get_device_cases:
  assumes "nvme_rdma_find_get_device e ds = (Some a, ds')"
  obtains (old) "dev_lookup_get (de_node_guid e) ds = (Some a, ds')"
  | (fresh) d where "ds' = d # ds" "d_addr d = a" "d_ref d = 1" "de_kzalloc e = Some a"
      "dev_lookup_get (de_node_guid e) ds = (None, ds)"
proof (cases "dev_lookup_get (de_node_guid e) ds")
  case (Pair r ds1)
  show ?thesis
  proof (cases r)
    case (Some a')
    with Pair assms have "dev_lookup_get (de_node_guid e) ds = (Some a, ds')"
      by (simp add: nvme_rdma_find_get_device_def)
    then show ?thesis by (rule old)
  next
    case None
    with Pair assms dev_lookup_get_None [of "de_node_guid e" ds ds1] show ?thesis
      by (auto simp: nvme_rdma_find_get_device_def split: option.splits if_splits intro!: fresh)
  qed
qed

lemma find_get_device_refs:
  assumes "devs_ok ds" and "dev_env_ok e ds"
    and "nvme_rdma_find_get_device e ds = (Some a, ds')"
  shows "refs ds' b = (if b = a then refs ds a + 1 else refs ds b)"
  using assms(3)
proof (cases rule: find_get_device_cases)
  case old
  then show ?thesis using assms(1) by (intro dev_lookup_get_refs) (simp_all add: devs_ok_def)
next
  case (fresh d)
  then have "refs ds a = 0" using assms(2) by (intro refs_notin) (simp add: dev_env_ok_def)
  with fresh show ?thesis by simp
qed

lemma find_get_device_None:
  "nvme_rdma_find_get_device e ds = (None, ds') \<Longrightarrow> ds' = ds"
  by (auto simp: nvme_rdma_find_get_device_def split: prod.splits option.splits if_splits)

lemma find_get_device_ok:
  assumes "devs_ok ds" and "dev_env_ok e ds"
  shows "devs_ok (snd (nvme_rdma_find_get_device e ds))"
proof (cases "dev_lookup_get (de_node_guid e) ds")
  case (Pair r ds1)
  show ?thesis
  proof (cases r)
    case (Some a)
    with Pair dev_lookup_get_ok [OF _ assms(1)] show ?thesis
      by (auto simp: nvme_rdma_find_get_device_def)
  next
    case None
    with Pair dev_lookup_get_None [of "de_node_guid e" ds ds1]
    have "\<forall>d \<in> set ds. d_node_guid d \<noteq> de_node_guid e"
      using assms(1) by (auto simp: devs_ok_def)
    with None Pair assms show ?thesis
      by (auto simp: nvme_rdma_find_get_device_def devs_ok_def dev_env_ok_def split: option.splits)
  qed
qed

lemma dev_put_addrs: "d_addr ` set (nvme_rdma_dev_put a ds) \<subseteq> d_addr ` set ds"
  by (induction ds) auto

lemma dev_put_guids: "d_node_guid ` set (nvme_rdma_dev_put a ds) \<subseteq> d_node_guid ` set ds"
  by (induction ds) auto

lemma dev_put_ok: "devs_ok ds \<Longrightarrow> devs_ok (nvme_rdma_dev_put a ds)"
proof (induction ds)
  case Nil
  then show ?case by simp
next
  case (Cons d ds)
  from Cons.prems have ds: "devs_ok ds" by (simp add: devs_ok_def)
  note IH = Cons.IH [OF ds]
  show ?case
  proof (cases "d_addr d = a")
    case True
    with Cons.prems show ?thesis by (auto simp: devs_ok_def)
  next
    case False
    from Cons.prems have "d_addr d \<notin> d_addr ` set (nvme_rdma_dev_put a ds)"
      and "d_node_guid d \<notin> d_node_guid ` set (nvme_rdma_dev_put a ds)"
      using dev_put_addrs [of a ds] dev_put_guids [of a ds] unfolding devs_ok_def by auto
    with False IH Cons.prems show ?thesis unfolding devs_ok_def by simp
  qed
qed

lemma dev_put_refs:
  assumes "devs_ok ds"
  shows "refs (nvme_rdma_dev_put a ds) b = (if b = a then refs ds a - 1 else refs ds b)"
  using assms
proof (induction ds)
  case Nil
  then show ?case by simp
next
  case (Cons d ds)
  then have ds: "devs_ok ds" by (simp add: devs_ok_def)
  note IH = Cons.IH [OF ds]
  from Cons.prems have "d_addr d \<notin> d_addr ` set ds" by (simp add: devs_ok_def)
  then have "refs ds (d_addr d) = 0" by (rule refs_notin)
  with IH show ?case
    by auto
qed

text \<open>Taking a reference and putting it back restores the list exactly.\<close>

lemma dev_get_put:
  assumes "devs_ok ds" and "dev_env_ok e ds"
    and "nvme_rdma_find_get_device e ds = (Some a, ds')"
  shows "nvme_rdma_dev_put a ds' = ds"
proof -
  have lk: "nvme_rdma_dev_put a ds1 = ds"
    if "dev_lookup_get g ds = (Some a, ds1)" "devs_ok ds" for g ds1
    using that
  proof (induction ds arbitrary: ds1)
    case Nil
    then show ?case by simp
  next
    case (Cons d ds)
    show ?case
    proof (cases "d_node_guid d = g \<and> fst (nvme_rdma_dev_get d)")
      case True
      with Cons.prems show ?thesis
        by (auto simp: nvme_rdma_dev_get_def split: if_splits)
    next
      case False
      with Cons.prems(1) obtain ds2 where ds2: "dev_lookup_get g ds = (Some a, ds2)" "ds1 = d # ds2"
        by (auto split: prod.splits)
      have "a \<in> d_addr ` set ds" using dev_lookup_get_Some [OF ds2(1)] by blast
      with Cons.prems(2) have "d_addr d \<noteq> a" by (auto simp: devs_ok_def)
      with ds2 Cons show ?thesis by (simp add: devs_ok_def)
    qed
  qed
  from assms(3) show ?thesis
    by (cases rule: find_get_device_cases) (use lk assms(1) in auto)
qed

end
