(* ===== verification/Rdma_Queue.thy ===== *)
theory Rdma_Queue
  imports Rdma_Device
begin

text \<open>
  One RDMA queue of a controller (\<open>struct nvme_rdma_queue\<close>, \<open>host/rdma.c\<close>): its memory ring, its
  completion queue, queue pair and memory-registration pool, the connection manager's events, and
  the operations that allocate, stop and free it. The theory states which kernel objects a queue
  holds, as a replay of the calls made for it, and proves that every path, errors included,
  releases exactly what it took.
\<close>

section \<open>State\<close>

record rdma_queue =
  q_queue_size :: nat
  q_cmnd_capsule_len :: nat
  q_device :: "nat option"
  q_allocated :: bool     \<comment> \<open>\<open>NVME_RDMA_Q_ALLOCATED\<close>\<close>
  q_live :: bool          \<comment> \<open>\<open>NVME_RDMA_Q_LIVE\<close>\<close>
  q_tr_ready :: bool      \<comment> \<open>\<open>NVME_RDMA_Q_TR_READY\<close>\<close>
  q_cm_error :: int
  q_cm_done :: nat        \<comment> \<open>the completion's counter\<close>

text \<open>
  \<open>struct nvme_rdma_ctrl\<close>, together with the module's device list as its threads see it.
\<close>

record nvme_rdma_ctrl =
  r_ctrl :: nvme_ctrl
  r_queues :: "rdma_queue list"
  r_io_default :: nat     \<comment> \<open>\<open>io_queues[HCTX_TYPE_DEFAULT]\<close>\<close>
  r_io_read :: nat        \<comment> \<open>\<open>io_queues[HCTX_TYPE_READ]\<close>\<close>
  r_io_poll :: nat        \<comment> \<open>\<open>io_queues[HCTX_TYPE_POLL]\<close>\<close>
  r_device :: "nat option"
  r_max_fr_pages :: u32
  r_use_inline_data :: bool
  r_async_sqe :: bool     \<comment> \<open>\<open>async_event_sqe.data\<close> is not \<open>NULL\<close>\<close>
  r_devs :: "rdma_device list"

text \<open>What the RDMA core, the allocator and the peer answer while one queue is set up.\<close>

record queue_env =
  qe_dev :: dev_env
  qe_create_id :: int
  qe_resolve_addr :: int
  qe_alloc_cq :: int
  qe_create_qp :: int
  qe_kcalloc_ring :: bool
  qe_kzalloc :: "nat \<Rightarrow> bool"
  qe_dma_map :: "nat \<Rightarrow> bool"
  qe_max_fast_reg :: u32   \<comment> \<open>\<open>attrs.max_fast_reg_page_list_len\<close>\<close>
  qe_mr_pool_init :: int
  qe_resolve_route :: int
  qe_connect :: int
  qe_post_recv :: "nat \<Rightarrow> int"
  qe_events :: "cm_event list"
  qe_wait :: int           \<comment> \<open>\<open>wait_for_completion_interruptible_timeout\<close>\<close>

abbreviation queue :: "nvme_rdma_ctrl \<Rightarrow> nat \<Rightarrow> rdma_queue" where
  "queue r i \<equiv> r_queues r ! i"

definition upd_queue :: "nat \<Rightarrow> (rdma_queue \<Rightarrow> rdma_queue) \<Rightarrow> nvme_rdma_ctrl \<Rightarrow> nvme_rdma_ctrl" where
  "upd_queue i f r = r\<lparr>r_queues := (r_queues r)[i := f (queue r i)]\<rparr>"

definition emit :: "hcall \<Rightarrow> nvme_rdma_ctrl \<Rightarrow> nvme_rdma_ctrl" where
  "emit k r = r\<lparr>r_ctrl := call k (r_ctrl r)\<rparr>"

abbreviation qemit :: "nat \<Rightarrow> qcall \<Rightarrow> nvme_rdma_ctrl \<Rightarrow> nvme_rdma_ctrl" where
  "qemit i k \<equiv> emit (Q i k)"

section \<open>The response ring\<close>

definition nvme_rdma_free_qe :: "nat \<Rightarrow> nat \<Rightarrow> nvme_rdma_ctrl \<Rightarrow> nvme_rdma_ctrl" where
  "nvme_rdma_free_qe q i r = qemit q (Kfree_qe i) (qemit q (Dma_unmap_qe i) r)"

definition nvme_rdma_alloc_qe :: "queue_env \<Rightarrow> nat \<Rightarrow> nat \<Rightarrow> nvme_rdma_ctrl \<Rightarrow> int \<times> nvme_rdma_ctrl" where
  "nvme_rdma_alloc_qe e q i r =
     (let r = qemit q (Kzalloc_qe i (qe_kzalloc e i)) r
      in if \<not> qe_kzalloc e i then (- ENOMEM, r)
         else let r = qemit q (Dma_map_qe i (qe_dma_map e i)) r
              in if \<not> qe_dma_map e i then (- ENOMEM, qemit q (Kfree_qe i) r)
                 else (0, r))"

fun free_qes :: "nat \<Rightarrow> nat \<Rightarrow> nat \<Rightarrow> nvme_rdma_ctrl \<Rightarrow> nvme_rdma_ctrl" where
  "free_qes q i 0 r = r"
| "free_qes q i (Suc n) r = free_qes q (Suc i) n (nvme_rdma_free_qe q i r)"

definition nvme_rdma_free_ring :: "nat \<Rightarrow> nat \<Rightarrow> nvme_rdma_ctrl \<Rightarrow> nvme_rdma_ctrl" where
  "nvme_rdma_free_ring q n r = qemit q Kfree_ring (free_qes q 0 n r)"

text \<open>The allocation loop stops at the first failure and returns how many elements it made.\<close>

fun alloc_qes :: "queue_env \<Rightarrow> nat \<Rightarrow> nat \<Rightarrow> nat \<Rightarrow> nvme_rdma_ctrl \<Rightarrow> nat \<times> nvme_rdma_ctrl" where
  "alloc_qes e q i 0 r = (i, r)"
| "alloc_qes e q i (Suc n) r =
     (let (ret, r) = nvme_rdma_alloc_qe e q i r
      in if ret \<noteq> 0 then (i, r) else alloc_qes e q (Suc i) n r)"

definition nvme_rdma_alloc_ring :: "queue_env \<Rightarrow> nat \<Rightarrow> nat \<Rightarrow> nvme_rdma_ctrl \<Rightarrow> bool \<times> nvme_rdma_ctrl" where
  "nvme_rdma_alloc_ring e q n r =
     (let r = qemit q (Kcalloc_ring n (qe_kcalloc_ring e)) r
      in if \<not> qe_kcalloc_ring e then (False, r)
         else let (i, r) = alloc_qes e q 0 n r
              in if i < n then (False, nvme_rdma_free_ring q i r) else (True, r))"

section \<open>Verbs resources of a queue\<close>

definition nvme_rdma_poll_queue :: "nat \<Rightarrow> nvme_rdma_ctrl \<Rightarrow> bool" where
  "nvme_rdma_poll_queue i r \<longleftrightarrow> r_io_default r + r_io_read r < i"

definition device_of :: "nat \<Rightarrow> nvme_rdma_ctrl \<Rightarrow> rdma_device option" where
  "device_of i r = Option.bind (q_device (queue r i)) (dev_of (r_devs r))"

definition nvme_rdma_create_qp :: "queue_env \<Rightarrow> nat \<Rightarrow> nat \<Rightarrow> nvme_rdma_ctrl \<Rightarrow> int \<times> nvme_rdma_ctrl" where
  "nvme_rdma_create_qp e i factor r =
     (let n = q_queue_size (queue r i);
          sge = (case device_of i r of None \<Rightarrow> 0 | Some d \<Rightarrow> d_num_inline_segments d)
      in (qe_create_qp e,
          qemit i (Rdma_create_qp (factor * n + 1) (n + 1) (1 + sge) (qe_create_qp e)) r))"

definition nvme_rdma_get_max_fr_pages :: "u32 \<Rightarrow> u32" where
  "nvme_rdma_get_max_fr_pages len = min 256 (len - 1)"

definition dev_put_of :: "nat \<Rightarrow> nvme_rdma_ctrl \<Rightarrow> nvme_rdma_ctrl" where
  "dev_put_of i r =
     (case q_device (queue r i) of None \<Rightarrow> r
      | Some a \<Rightarrow> r\<lparr>r_devs := nvme_rdma_dev_put a (r_devs r)\<rparr>)"

definition nvme_rdma_destroy_queue_ib :: "nat \<Rightarrow> nvme_rdma_ctrl \<Rightarrow> nvme_rdma_ctrl" where
  "nvme_rdma_destroy_queue_ib i r =
     (if \<not> q_tr_ready (queue r i) then r
      else
        let r = upd_queue i (q_tr_ready_update (\<lambda>_. False)) r;
            r = qemit i Ib_mr_pool_destroy r;
            r = qemit i Ib_destroy_qp r;
            r = qemit i Ib_free_cq r;
            r = nvme_rdma_free_ring i (q_queue_size (queue r i)) r
        in dev_put_of i r)"

text \<open>The I/O queues are spread over the completion vectors; the admin queue uses vector 0.\<close>

definition queue_comp_vector :: "nat \<Rightarrow> nat" where
  "queue_comp_vector i = (if i = 0 then i else i - 1)"

definition nvme_rdma_create_queue_ib :: "queue_env \<Rightarrow> nat \<Rightarrow> nvme_rdma_ctrl \<Rightarrow> int \<times> nvme_rdma_ctrl" where
  "nvme_rdma_create_queue_ib e i r =
     (let send_wr_factor = 3;
          cq_factor = send_wr_factor + 1;
          (dev, devs) = nvme_rdma_find_get_device (qe_dev e) (r_devs r);
          r = upd_queue i (q_device_update (\<lambda>_. dev)) (r\<lparr>r_devs := devs\<rparr>)
      in if dev = None then (- ECONNREFUSED, r)
      else
        let comp_vector = queue_comp_vector i;
            n = q_queue_size (queue r i);
            r = qemit i (Ib_alloc_cq (cq_factor * n + 1) comp_vector (nvme_rdma_poll_queue i r)
                  (qe_alloc_cq e)) r
        in if qe_alloc_cq e \<noteq> 0 then (qe_alloc_cq e, dev_put_of i r)
        else let (ret, r) = nvme_rdma_create_qp e i send_wr_factor r
        in if ret \<noteq> 0 then (ret, dev_put_of i (qemit i Ib_free_cq r))
        else let (ok, r) = nvme_rdma_alloc_ring e i n r
        in if \<not> ok then (- ENOMEM, dev_put_of i (qemit i Ib_free_cq (qemit i Rdma_destroy_qp r)))
        else
          let pages = uint (nvme_rdma_get_max_fr_pages (qe_max_fast_reg e)) + 1;
              r = qemit i (Ib_mr_pool_init n pages (qe_mr_pool_init e)) r
          in if qe_mr_pool_init e \<noteq> 0
             then (qe_mr_pool_init e,
                   dev_put_of i (qemit i Ib_free_cq (qemit i Rdma_destroy_qp (nvme_rdma_free_ring i n r))))
             else (0, upd_queue i (q_tr_ready_update (\<lambda>_. True)) r))"

section \<open>Error recovery and the connection manager\<close>

definition nvme_rdma_error_recovery :: "nvme_rdma_ctrl \<Rightarrow> nvme_rdma_ctrl" where
  "nvme_rdma_error_recovery r =
     (let (changed, c) = nvme_change_ctrl_state NVME_CTRL_RESETTING (r_ctrl r)
      in if \<not> changed then r\<lparr>r_ctrl := c\<rparr>
         else r\<lparr>r_ctrl := snd (queue_work Err_work c)\<rparr>)"

definition nvme_rdma_post_recv :: "queue_env \<Rightarrow> nat \<Rightarrow> nat \<Rightarrow> nvme_rdma_ctrl \<Rightarrow> int \<times> nvme_rdma_ctrl" where
  "nvme_rdma_post_recv e q i r = (qe_post_recv e i, qemit q (Ib_post_recv i (qe_post_recv e i)) r)"

fun post_recvs :: "queue_env \<Rightarrow> nat \<Rightarrow> nat \<Rightarrow> nat \<Rightarrow> nvme_rdma_ctrl \<Rightarrow> int \<times> nvme_rdma_ctrl" where
  "post_recvs e q i 0 r = (0, r)"
| "post_recvs e q i (Suc n) r =
     (let (ret, r) = nvme_rdma_post_recv e q i r
      in if ret \<noteq> 0 then (ret, nvme_rdma_destroy_queue_ib q r) else post_recvs e q (Suc i) n r)"

definition nvme_rdma_conn_established :: "queue_env \<Rightarrow> nat \<Rightarrow> nvme_rdma_ctrl \<Rightarrow> int \<times> nvme_rdma_ctrl" where
  "nvme_rdma_conn_established e i r = post_recvs e i 0 (q_queue_size (queue r i)) r"

definition nvme_rdma_conn_rejected :: "int" where
  "nvme_rdma_conn_rejected = - ECONNRESET"

definition nvme_rdma_addr_resolved :: "queue_env \<Rightarrow> nat \<Rightarrow> nvme_rdma_ctrl \<Rightarrow> int \<times> nvme_rdma_ctrl" where
  "nvme_rdma_addr_resolved e i r =
     (let (ret, r) = nvme_rdma_create_queue_ib e i r
      in if ret \<noteq> 0 then (ret, r)
      else
        let tos = o_tos (c_opts (r_ctrl r));
            r = (if 0 \<le> tos then qemit i (Rdma_set_service_type tos) r else r);
            r = qemit i (Rdma_resolve_route (qe_resolve_route e)) r
        in if qe_resolve_route e \<noteq> 0
           then (qe_resolve_route e, nvme_rdma_destroy_queue_ib i r)
           else (0, r))"

text \<open>
  The private data of the connect request: the queue id and the receive and send queue sizes, each
  cut to 16 bits by \<open>cpu_to_le16\<close>.
\<close>

definition connect_params :: "nat \<Rightarrow> nvme_rdma_ctrl \<Rightarrow> u16 \<times> u16 \<times> u16" where
  "connect_params i r =
     (let qid = (of_nat i :: u16)
      in if qid = 0 then (qid, of_nat NVME_AQ_DEPTH, of_nat (NVME_AQ_DEPTH - 1))
         else (qid, of_nat (q_queue_size (queue r i)), c_sqsize (r_ctrl r)))"

definition nvme_rdma_route_resolved :: "queue_env \<Rightarrow> nat \<Rightarrow> nvme_rdma_ctrl \<Rightarrow> int \<times> nvme_rdma_ctrl" where
  "nvme_rdma_route_resolved e i r =
     (let (qid, hrqsize, hsqsize) = connect_params i r;
          r = qemit i (Rdma_connect qid hrqsize hsqsize (qe_connect e)) r
      in if qe_connect e \<noteq> 0 then (qe_connect e, nvme_rdma_destroy_queue_ib i r) else (0, r))"

definition complete_cm :: "nat \<Rightarrow> nvme_rdma_ctrl \<Rightarrow> nvme_rdma_ctrl" where
  "complete_cm i = upd_queue i (\<lambda>q. q\<lparr>q_cm_done := q_cm_done q + 1\<rparr>)"

definition set_cm_error :: "nat \<Rightarrow> int \<Rightarrow> nvme_rdma_ctrl \<Rightarrow> nvme_rdma_ctrl" where
  "set_cm_error i err = upd_queue i (\<lambda>q. q\<lparr>q_cm_error := err\<rparr>)"

text \<open>The event switch; the common tail completes the waiter when an event brought an error.\<close>

definition cm_event_action :: "queue_env \<Rightarrow> nat \<Rightarrow> cm_event \<Rightarrow> nvme_rdma_ctrl \<Rightarrow> int \<times> nvme_rdma_ctrl" where
  "cm_event_action e i ev r =
     (case ev of
        ADDR_RESOLVED \<Rightarrow> nvme_rdma_addr_resolved e i r
      | ROUTE_RESOLVED \<Rightarrow> nvme_rdma_route_resolved e i r
      | ESTABLISHED \<Rightarrow>
          (let (ret, r) = nvme_rdma_conn_established e i r
           in (0, complete_cm i (set_cm_error i ret r)))
      | REJECTED \<Rightarrow> (nvme_rdma_conn_rejected, nvme_rdma_destroy_queue_ib i r)
      | ROUTE_ERROR \<Rightarrow> (- ECONNRESET, nvme_rdma_destroy_queue_ib i r)
      | CONNECT_ERROR \<Rightarrow> (- ECONNRESET, nvme_rdma_destroy_queue_ib i r)
      | UNREACHABLE \<Rightarrow> (- ECONNRESET, nvme_rdma_destroy_queue_ib i r)
      | ADDR_ERROR \<Rightarrow> (- ECONNRESET, r)
      | DISCONNECTED \<Rightarrow> (0, nvme_rdma_error_recovery r)
      | ADDR_CHANGE \<Rightarrow> (0, nvme_rdma_error_recovery r)
      | TIMEWAIT_EXIT \<Rightarrow> (0, nvme_rdma_error_recovery r)
      | DEVICE_REMOVAL \<Rightarrow> (0, r)
      | CM_OTHER \<Rightarrow> (0, nvme_rdma_error_recovery r))"

definition nvme_rdma_cm_handler :: "queue_env \<Rightarrow> nat \<Rightarrow> cm_event \<Rightarrow> nvme_rdma_ctrl \<Rightarrow> nvme_rdma_ctrl" where
  "nvme_rdma_cm_handler e i ev r =
     (let (cm_error, r) = cm_event_action e i ev (qemit i (Cm_event ev) r)
      in if cm_error \<noteq> 0 then complete_cm i (set_cm_error i cm_error r) else r)"

section \<open>Allocating, stopping and freeing a queue\<close>

definition nvme_rdma_wait_for_cm :: "int \<Rightarrow> nat \<Rightarrow> nvme_rdma_ctrl \<Rightarrow> int \<times> nvme_rdma_ctrl" where
  "nvme_rdma_wait_for_cm ret i r =
     (if ret < 0 then (ret, r)
      else if ret = 0 then (- ETIMEDOUT, r)
      else
        let r = upd_queue i (\<lambda>q. q\<lparr>q_cm_done := q_cm_done q - 1\<rparr>) r;
            r = (if 0 < q_cm_error (queue r i) then emit Warn_once r else r)
        in (q_cm_error (queue r i), r))"

text \<open>
  \<open>nvme_rdma_alloc_queue\<close> up to the request to resolve the address; from then on the connection
  manager's events run (\<open>qe_events\<close>) while the caller waits.
\<close>

definition alloc_queue_resolve :: "queue_env \<Rightarrow> nat \<Rightarrow> nat \<Rightarrow> nvme_rdma_ctrl \<Rightarrow> int \<times> nvme_rdma_ctrl" where
  "alloc_queue_resolve e i queue_size r =
     (let len = (if 0 < i then unat (c_ioccsz (r_ctrl r) * 16) else SIZEOF_NVME_COMMAND);
          r = upd_queue i (\<lambda>q. q\<lparr>q_cm_done := 0, q_cmnd_capsule_len := len,
                                 q_queue_size := queue_size\<rparr>) r;
          r = qemit i (Rdma_create_id (qe_create_id e)) r
      in if qe_create_id e \<noteq> 0 then (qe_create_id e, r)
      else
        let src = (o_mask (c_opts (r_ctrl r)) AND NVMF_OPT_HOST_TRADDR \<noteq> 0);
            r = set_cm_error i (- ETIMEDOUT) r;
            r = qemit i (Rdma_resolve_addr src (qe_resolve_addr e)) r
        in if qe_resolve_addr e \<noteq> 0
           then (qe_resolve_addr e, nvme_rdma_destroy_queue_ib i (qemit i Rdma_destroy_id r))
           else (0, r))"

definition nvme_rdma_alloc_queue :: "queue_env \<Rightarrow> nat \<Rightarrow> nat \<Rightarrow> nvme_rdma_ctrl \<Rightarrow> int \<times> nvme_rdma_ctrl" where
  "nvme_rdma_alloc_queue e i queue_size r =
     (let (ret, r) = alloc_queue_resolve e i queue_size r
      in if ret \<noteq> 0 then (ret, r)
      else
        let r = fold (nvme_rdma_cm_handler e i) (qe_events e) r;
            (ret, r) = nvme_rdma_wait_for_cm (qe_wait e) i r
        in if ret \<noteq> 0
           then (ret, nvme_rdma_destroy_queue_ib i (qemit i Rdma_destroy_id r))
           else (0, upd_queue i (q_allocated_update (\<lambda>_. True)) r))"

definition do_stop_queue :: "nat \<Rightarrow> nvme_rdma_ctrl \<Rightarrow> nvme_rdma_ctrl" where
  "do_stop_queue i r = qemit i Ib_drain_qp (qemit i Rdma_disconnect r)"

definition nvme_rdma_stop_queue :: "nat \<Rightarrow> nvme_rdma_ctrl \<Rightarrow> nvme_rdma_ctrl" where
  "nvme_rdma_stop_queue i r =
     (if \<not> q_live (queue r i) then r
      else do_stop_queue i (upd_queue i (q_live_update (\<lambda>_. False)) r))"

definition nvme_rdma_free_queue :: "nat \<Rightarrow> nvme_rdma_ctrl \<Rightarrow> nvme_rdma_ctrl" where
  "nvme_rdma_free_queue i r =
     (if \<not> q_allocated (queue r i) then r
      else
        let r = upd_queue i (q_allocated_update (\<lambda>_. False)) r;
            r = nvme_rdma_destroy_queue_ib i r
        in qemit i Rdma_destroy_id r)"

text \<open>\<open>ret\<close> is what the fabrics connect command for the queue returns.\<close>

definition nvme_rdma_start_queue :: "(nat \<Rightarrow> int) \<Rightarrow> nat \<Rightarrow> nvme_rdma_ctrl \<Rightarrow> int \<times> nvme_rdma_ctrl" where
  "nvme_rdma_start_queue connect i r =
     (let poll = nvme_rdma_poll_queue i r;
          r = emit (Connect_queue i (0 < i \<and> poll)) r;
          ret = connect i
      in if ret = 0 then (0, upd_queue i (q_live_update (\<lambda>_. True)) r)
         else (ret, if q_allocated (queue r i) then do_stop_queue i r else r))"

end
