(* ===== verification/Queue_Resources.thy ===== *)
theory Queue_Resources
  imports Rdma_Queue
begin

text \<open>
  What a queue holds: the kernel objects that the calls made for it have created and not yet
  released. \<open>res_step\<close> is the contract of the verbs and allocator calls: \<open>None\<close> is a call the
  contract forbids (a double release, a release out of order, a use of a released object).
\<close>

section \<open>The resource automaton\<close>

datatype qres = Cm_id | Cq | Qp | Mr_pool | Ring | Elem nat | Dma nat

fun is_elem :: "qres \<Rightarrow> bool" where
  "is_elem (Elem i) = True"
| "is_elem (Dma i) = True"
| "is_elem _ = False"

fun res_step :: "qcall \<Rightarrow> qres set \<Rightarrow> qres set option" where
  "res_step (Rdma_create_id ret) S = take_res (ret = 0) Cm_id True S"
| "res_step Rdma_destroy_id S = drop_res Cm_id True S"
| "res_step (Rdma_resolve_addr _ _) S = use_res (Cm_id \<in> S) S"
| "res_step (Rdma_resolve_route _) S = use_res (Cm_id \<in> S) S"
| "res_step (Rdma_set_service_type _) S = use_res (Cm_id \<in> S) S"
| "res_step (Rdma_connect _ _ _ _) S = use_res (Cm_id \<in> S \<and> Qp \<in> S) S"
| "res_step Rdma_disconnect S = use_res (Cm_id \<in> S) S"
| "res_step Ib_drain_qp S = use_res (Qp \<in> S) S"
| "res_step (Ib_alloc_cq _ _ _ ret) S = take_res (ret = 0) Cq True S"
| "res_step Ib_free_cq S = drop_res Cq (Qp \<notin> S) S"
| "res_step (Rdma_create_qp _ _ _ ret) S = take_res (ret = 0) Qp (Cm_id \<in> S \<and> Cq \<in> S) S"
| "res_step Rdma_destroy_qp S = drop_res Qp (Cm_id \<in> S \<and> Mr_pool \<notin> S) S"
| "res_step Ib_destroy_qp S = drop_res Qp (Mr_pool \<notin> S) S"
| "res_step (Kcalloc_ring _ ok) S = take_res ok Ring True S"
| "res_step Kfree_ring S = drop_res Ring (\<forall>x \<in> S. \<not> is_elem x) S"
| "res_step (Kzalloc_qe i ok) S = take_res ok (Elem i) (Ring \<in> S) S"
| "res_step (Kfree_qe i) S = drop_res (Elem i) (Dma i \<notin> S) S"
| "res_step (Dma_map_qe i ok) S = take_res ok (Dma i) (Elem i \<in> S) S"
| "res_step (Dma_unmap_qe i) S = drop_res (Dma i) True S"
| "res_step (Ib_mr_pool_init _ _ ret) S = take_res (ret = 0) Mr_pool (Qp \<in> S) S"
| "res_step Ib_mr_pool_destroy S = drop_res Mr_pool (Qp \<in> S) S"
| "res_step (Ib_post_recv i _) S = use_res (Qp \<in> S \<and> Dma i \<in> S) S"
| "res_step (Cm_event _) S = Some S"

fun replay :: "qcall list \<Rightarrow> qres set \<Rightarrow> qres set option" where
  "replay [] S = Some S"
| "replay (k # ks) S = Option.bind (res_step k S) (replay ks)"

fun calls_of :: "nat \<Rightarrow> hcall list \<Rightarrow> qcall list" where
  "calls_of i [] = []"
| "calls_of i (h # hs) =
     (case h of Q j k \<Rightarrow> if j = i then k # calls_of i hs else calls_of i hs | _ \<Rightarrow> calls_of i hs)"

definition queue_calls :: "nat \<Rightarrow> nvme_rdma_ctrl \<Rightarrow> qcall list" where
  "queue_calls i r = calls_of i (c_trace (r_ctrl r))"

definition held :: "nat \<Rightarrow> nvme_rdma_ctrl \<Rightarrow> qres set option" where
  "held i r = replay (queue_calls i r) {}"

definition ring_elems :: "nat \<Rightarrow> nat \<Rightarrow> qres set" where
  "ring_elems i n = Elem ` {i..<i + n} \<union> Dma ` {i..<i + n}"

definition ib_res :: "nat \<Rightarrow> qres set" where
  "ib_res n = {Cq, Qp, Mr_pool, Ring} \<union> ring_elems 0 n"

section \<open>Traces\<close>

lemma replay_append: "replay (xs @ ys) S = Option.bind (replay xs S) (replay ys)"
  by (induction xs arbitrary: S) (auto split: Option.bind_splits)

lemma calls_of_append [simp]: "calls_of i (xs @ ys) = calls_of i xs @ calls_of i ys"
  by (induction xs) (auto split: hcall.splits)

text \<open>Appending calls of one queue; every trace-only operation is an instance of this.\<close>

definition emits :: "nat \<Rightarrow> qcall list \<Rightarrow> nvme_rdma_ctrl \<Rightarrow> nvme_rdma_ctrl" where
  "emits q ks r = r\<lparr>r_ctrl := (r_ctrl r)\<lparr>c_trace := c_trace (r_ctrl r) @ map (Q q) ks\<rparr>\<rparr>"

lemma qemit_emits: "qemit q k r = emits q [k] r"
  by (simp add: emit_def call_def emits_def)

lemma emits_emits [simp]: "emits q ys (emits q xs r) = emits q (xs @ ys) r"
  by (simp add: emits_def)

lemma emits_nil [simp]: "emits q [] r = r"
  by (simp add: emits_def)

lemma emits_fields [simp]:
  "r_queues (emits q ks r) = r_queues r"
  "r_devs (emits q ks r) = r_devs r"
  "r_io_default (emits q ks r) = r_io_default r"
  "r_io_read (emits q ks r) = r_io_read r"
  "r_io_poll (emits q ks r) = r_io_poll r"
  "r_device (emits q ks r) = r_device r"
  "r_async_sqe (emits q ks r) = r_async_sqe r"
  "r_max_fr_pages (emits q ks r) = r_max_fr_pages r"
  "r_use_inline_data (emits q ks r) = r_use_inline_data r"
  "c_state (r_ctrl (emits q ks r)) = c_state (r_ctrl r)"
  "c_opts (r_ctrl (emits q ks r)) = c_opts (r_ctrl r)"
  "c_pending (r_ctrl (emits q ks r)) = c_pending (r_ctrl r)"
  "c_queue_count (r_ctrl (emits q ks r)) = c_queue_count (r_ctrl r)"
  "c_sqsize (r_ctrl (emits q ks r)) = c_sqsize (r_ctrl r)"
  "c_ioccsz (r_ctrl (emits q ks r)) = c_ioccsz (r_ctrl r)"
  by (simp_all add: emits_def)

lemma calls_of_map_Q [simp]: "calls_of i (map (Q q) ks) = (if i = q then ks else [])"
  by (induction ks) auto

lemma queue_calls_emits [simp]:
  "queue_calls i (emits q ks r) = queue_calls i r @ (if i = q then ks else [])"
  by (simp add: queue_calls_def emits_def)

lemma held_emits:
  "held i (emits q ks r) = (if i = q then Option.bind (held i r) (replay ks) else held i r)"
  by (cases "replay (queue_calls i r) {}") (auto simp: held_def replay_append)

lemma held_emits_same [simp]: "held q r = Some S \<Longrightarrow> held q (emits q ks r) = replay ks S"
  by (simp add: held_emits)

lemma held_emits_other [simp]: "i \<noteq> q \<Longrightarrow> held i (emits q ks r) = held i r"
  by (simp add: held_emits)

text \<open>Calls that are not on behalf of a queue.\<close>

definition ctrl_only :: "hcall \<Rightarrow> bool" where
  "ctrl_only k \<longleftrightarrow> (case k of Q _ _ \<Rightarrow> False | _ \<Rightarrow> True)"

lemma queue_calls_emit_other [simp]:
  "ctrl_only k \<Longrightarrow> queue_calls i (emit k r) = queue_calls i r"
  by (auto simp: queue_calls_def emit_def call_def ctrl_only_def split: hcall.splits)

section \<open>Queue updates\<close>

lemma upd_queue_fields [simp]:
  "length (r_queues (upd_queue i f r)) = length (r_queues r)"
  "r_ctrl (upd_queue i f r) = r_ctrl r"
  "r_devs (upd_queue i f r) = r_devs r"
  "r_io_default (upd_queue i f r) = r_io_default r"
  "r_io_read (upd_queue i f r) = r_io_read r"
  "r_io_poll (upd_queue i f r) = r_io_poll r"
  "r_device (upd_queue i f r) = r_device r"
  "r_async_sqe (upd_queue i f r) = r_async_sqe r"
  "r_max_fr_pages (upd_queue i f r) = r_max_fr_pages r"
  "r_use_inline_data (upd_queue i f r) = r_use_inline_data r"
  by (simp_all add: upd_queue_def)

lemma queue_upd_same [simp]:
  "i < length (r_queues r) \<Longrightarrow> r_queues (upd_queue i f r) ! i = f (r_queues r ! i)"
  by (simp add: upd_queue_def)

lemma queue_upd_other [simp]: "j \<noteq> i \<Longrightarrow> r_queues (upd_queue i f r) ! j = r_queues r ! j"
  by (simp add: upd_queue_def)

lemma queue_calls_upd [simp]: "queue_calls j (upd_queue i f r) = queue_calls j r"
  by (simp add: queue_calls_def)

lemma held_upd [simp]: "held j (upd_queue i f r) = held j r"
  by (simp add: held_def)

lemma held_devs [simp]: "held j (r\<lparr>r_devs := ds\<rparr>) = held j r"
  by (simp add: held_def queue_calls_def)

lemma dev_put_of_fields [simp]:
  "r_queues (dev_put_of i r) = r_queues r"
  "r_ctrl (dev_put_of i r) = r_ctrl r"
  "r_device (dev_put_of i r) = r_device r"
  "r_io_default (dev_put_of i r) = r_io_default r"
  "r_io_read (dev_put_of i r) = r_io_read r"
  "r_io_poll (dev_put_of i r) = r_io_poll r"
  "r_async_sqe (dev_put_of i r) = r_async_sqe r"
  "held j (dev_put_of i r) = held j r"
  by (auto simp: dev_put_of_def held_def queue_calls_def split: option.splits)

lemma dev_put_of_devs:
  "q_device (r_queues r ! i) = Some a \<Longrightarrow> r_devs (dev_put_of i r) = nvme_rdma_dev_put a (r_devs r)"
  by (simp add: dev_put_of_def)

section \<open>The ring\<close>

fun free_calls :: "nat \<Rightarrow> nat \<Rightarrow> qcall list" where
  "free_calls i 0 = []"
| "free_calls i (Suc n) = Dma_unmap_qe i # Kfree_qe i # free_calls (Suc i) n"

lemma free_qes_emits: "free_qes q i n r = emits q (free_calls i n) r"
  by (induction n arbitrary: i r) (simp_all add: nvme_rdma_free_qe_def qemit_emits)

lemma free_ring_emits: "nvme_rdma_free_ring q n r = emits q (free_calls 0 n @ [Kfree_ring]) r"
  by (simp add: nvme_rdma_free_ring_def free_qes_emits qemit_emits)

lemma ring_elems_0 [simp]: "ring_elems i 0 = {}"
  by (simp add: ring_elems_def)

lemma ring_elems_Suc: "ring_elems i (Suc n) = {Elem i, Dma i} \<union> ring_elems (Suc i) n"
  by (auto simp: ring_elems_def image_iff less_Suc_eq_le Suc_le_eq)

lemma ring_elems_snoc: "ring_elems i (Suc n) = {Elem (i + n), Dma (i + n)} \<union> ring_elems i n"
  by (auto simp: ring_elems_def less_Suc_eq)

lemma in_ring_elems [simp]:
  "Elem j \<in> ring_elems i n \<longleftrightarrow> i \<le> j \<and> j < i + n"
  "Dma j \<in> ring_elems i n \<longleftrightarrow> i \<le> j \<and> j < i + n"
  "Cm_id \<notin> ring_elems i n" "Cq \<notin> ring_elems i n" "Qp \<notin> ring_elems i n"
  "Mr_pool \<notin> ring_elems i n" "Ring \<notin> ring_elems i n"
  by (auto simp: ring_elems_def)

lemma replay_free_calls:
  "S \<inter> ring_elems i n = {} \<Longrightarrow> replay (free_calls i n) (S \<union> ring_elems i n) = Some S"
proof (induction n arbitrary: i)
  case 0
  then show ?case by simp
next
  case (Suc n)
  then have d: "Elem i \<notin> S" "Dma i \<notin> S" "S \<inter> ring_elems (Suc i) n = {}"
    by (auto simp: ring_elems_Suc)
  then have "S \<union> ring_elems i (Suc n) - {Dma i} - {Elem i} = S \<union> ring_elems (Suc i) n"
    by (auto simp: ring_elems_Suc)
  with Suc.IH [OF d(3)] show ?case
    by (simp add: drop_res_def)
qed

lemma is_elem_iff: "is_elem x \<longleftrightarrow> (\<exists>i. x = Elem i \<or> x = Dma i)"
  by (cases x) auto

lemma replay_free_ring:
  assumes "\<forall>x \<in> S. \<not> is_elem x" and "Ring \<notin> S"
  shows "replay (free_calls 0 n @ [Kfree_ring]) (insert Ring S \<union> ring_elems 0 n) = Some S"
proof -
  have "insert Ring S \<inter> ring_elems 0 n = {}"
    using assms by (auto simp: ring_elems_def)
  from replay_free_calls [OF this] assms show ?thesis
    by (simp add: replay_append drop_res_def)
qed

fun made :: "queue_env \<Rightarrow> nat \<Rightarrow> nat \<Rightarrow> nat" where
  "made e i 0 = 0"
| "made e i (Suc n) = (if qe_kzalloc e i \<and> qe_dma_map e i then Suc (made e (Suc i) n) else 0)"

fun alloc_calls :: "queue_env \<Rightarrow> nat \<Rightarrow> nat \<Rightarrow> qcall list" where
  "alloc_calls e i 0 = []"
| "alloc_calls e i (Suc n) =
     (if \<not> qe_kzalloc e i then [Kzalloc_qe i False]
      else if \<not> qe_dma_map e i then [Kzalloc_qe i True, Dma_map_qe i False, Kfree_qe i]
      else Kzalloc_qe i True # Dma_map_qe i True # alloc_calls e (Suc i) n)"

lemma alloc_qes_emits:
  "alloc_qes e q i n r = (i + made e i n, emits q (alloc_calls e i n) r)"
  by (induction n arbitrary: i r) (simp_all add: nvme_rdma_alloc_qe_def qemit_emits Let_def)

lemma made_le: "made e i n \<le> n"
  by (induction n arbitrary: i) auto

lemma replay_alloc_calls:
  "Ring \<in> S \<Longrightarrow> S \<inter> ring_elems i n = {} \<Longrightarrow>
   replay (alloc_calls e i n) S = Some (S \<union> ring_elems i (made e i n))"
proof (induction n arbitrary: i S)
  case 0
  then show ?case by simp
next
  case (Suc n)
  then have d: "Elem i \<notin> S" "Dma i \<notin> S" "S \<inter> ring_elems (Suc i) n = {}"
    by (auto simp: ring_elems_Suc)
  then have S': "insert (Dma i) (insert (Elem i) S) \<inter> ring_elems (Suc i) n = {}"
    by auto
  show ?case
  proof (cases "qe_kzalloc e i \<and> qe_dma_map e i")
    case True
    with d Suc.IH [OF _ S'] Suc.prems show ?thesis
      by (auto simp: take_res_def ring_elems_Suc)
  next
    case False
    with d Suc.prems show ?thesis
      by (auto simp: take_res_def drop_res_def)
  qed
qed

text \<open>The ring allocator gives the whole ring or nothing.\<close>

lemma alloc_ring_result:
  assumes "held q r = Some S" and "Ring \<notin> S" and "\<forall>x \<in> S. \<not> is_elem x"
    and "nvme_rdma_alloc_ring e q n r = (ok, r')"
  shows "\<exists>ks. r' = emits q ks r \<and>
    replay ks S = Some (if ok then insert Ring S \<union> ring_elems 0 n else S)"
proof (cases "qe_kcalloc_ring e")
  case False
  with assms(4) have "r' = emits q [Kcalloc_ring n False] r" "\<not> ok"
    by (simp_all add: nvme_rdma_alloc_ring_def qemit_emits)
  then show ?thesis by (intro exI [of _ "[Kcalloc_ring n False]"]) (simp add: take_res_def)
next
  case True
  let ?a = "Kcalloc_ring n True # alloc_calls e 0 n"
  let ?m = "made e 0 n"
  have S': "insert Ring S \<inter> ring_elems 0 n = {}"
    using assms(3) by (auto simp: ring_elems_def)
  have a: "replay ?a S = Some (insert Ring S \<union> ring_elems 0 ?m)"
    using replay_alloc_calls [OF _ S', of e] assms(2) by (simp add: take_res_def)
  show ?thesis
  proof (cases "?m < n")
    case lt: True
    with True assms(4) have "r' = emits q (?a @ free_calls 0 ?m @ [Kfree_ring]) r" "\<not> ok"
      by (auto simp: nvme_rdma_alloc_ring_def qemit_emits alloc_qes_emits free_ring_emits)
    moreover have "replay (?a @ free_calls 0 ?m @ [Kfree_ring]) S = Some S"
      using a replay_free_ring [OF assms(3,2)] by (simp only: replay_append Option.bind.bind_lunit)
    ultimately show ?thesis by (intro exI [of _ "?a @ free_calls 0 ?m @ [Kfree_ring]"]) simp
  next
    case False
    with made_le [of e 0 n] have "?m = n" by simp
    with True assms(4) a show ?thesis
      by (intro exI [of _ ?a]) (auto simp: nvme_rdma_alloc_ring_def qemit_emits alloc_qes_emits)
  qed
qed

section \<open>Creating and destroying the verbs resources\<close>

lemma is_elem_base [simp]:
  "\<not> is_elem Cm_id" "\<not> is_elem Cq" "\<not> is_elem Qp" "\<not> is_elem Mr_pool" "\<not> is_elem Ring"
  by simp_all

text \<open>
  \<open>queue_effect i r r' S\<close>: the step from \<open>r\<close> to \<open>r'\<close> touches only queue \<open>i\<close> (and the device list
  and the trace), and leaves queue \<open>i\<close> holding \<open>S\<close>.
\<close>

definition queue_frame :: "nat \<Rightarrow> nvme_rdma_ctrl \<Rightarrow> nvme_rdma_ctrl \<Rightarrow> bool" where
  "queue_frame i r r' \<longleftrightarrow>
     length (r_queues r') = length (r_queues r) \<and>
     (\<forall>j. j \<noteq> i \<longrightarrow> r_queues r' ! j = r_queues r ! j \<and> held j r' = held j r) \<and>
     r_io_default r' = r_io_default r \<and> r_io_read r' = r_io_read r \<and> r_io_poll r' = r_io_poll r \<and>
     r_device r' = r_device r \<and> r_async_sqe r' = r_async_sqe r \<and>
     c_opts (r_ctrl r') = c_opts (r_ctrl r) \<and> c_queue_count (r_ctrl r') = c_queue_count (r_ctrl r) \<and>
     c_sqsize (r_ctrl r') = c_sqsize (r_ctrl r) \<and> c_ioccsz (r_ctrl r') = c_ioccsz (r_ctrl r)"

lemma queue_frame_refl [intro, simp]: "queue_frame i r r"
  by (simp add: queue_frame_def)

lemma queue_frame_trans [trans]:
  "queue_frame i r r' \<Longrightarrow> queue_frame i r' r'' \<Longrightarrow> queue_frame i r r''"
  by (simp add: queue_frame_def)

lemma queue_frame_emits [simp]: "queue_frame i r (emits i ks r') = queue_frame i r r'"
  by (simp add: queue_frame_def)

lemma queue_frame_upd [simp]: "queue_frame i r (upd_queue i f r') = queue_frame i r r'"
  by (simp add: queue_frame_def)

lemma queue_frame_devs [simp]: "queue_frame i r (r'\<lparr>r_devs := ds\<rparr>) = queue_frame i r r'"
  by (simp add: queue_frame_def)

lemma queue_frame_dev_put_of [simp]: "queue_frame i r (dev_put_of i r') = queue_frame i r r'"
  by (simp add: queue_frame_def)

lemma queue_frame_length: "queue_frame i r r' \<Longrightarrow> length (r_queues r') = length (r_queues r)"
  by (simp add: queue_frame_def)

lemma destroy_queue_ib_not_ready:
  "\<not> q_tr_ready (queue r i) \<Longrightarrow> nvme_rdma_destroy_queue_ib i r = r"
  by (simp add: nvme_rdma_destroy_queue_ib_def)

definition destroy_calls :: "nat \<Rightarrow> qcall list" where
  "destroy_calls n = [Ib_mr_pool_destroy, Ib_destroy_qp, Ib_free_cq] @ free_calls 0 n @ [Kfree_ring]"

lemma destroy_queue_ib_ready:
  assumes "i < length (r_queues r)" and "q_tr_ready (queue r i)"
  shows "nvme_rdma_destroy_queue_ib i r =
    dev_put_of i (emits i (destroy_calls (q_queue_size (queue r i)))
      (upd_queue i (q_tr_ready_update (\<lambda>_. False)) r))"
  using assms
  by (simp add: nvme_rdma_destroy_queue_ib_def qemit_emits free_ring_emits destroy_calls_def)

lemma replay_destroy_calls:
  assumes "S \<inter> ib_res n = {}" and "\<forall>x \<in> S. \<not> is_elem x"
  shows "replay (destroy_calls n) (S \<union> ib_res n) = Some S"
proof -
  have n: "Cq \<notin> S" "Qp \<notin> S" "Mr_pool \<notin> S" "Ring \<notin> S"
    using assms(1) by (auto simp: ib_res_def)
  have e: "S \<union> ib_res n - {Mr_pool} - {Qp} - {Cq} = insert Ring S \<union> ring_elems 0 n"
    using n by (auto simp: ib_res_def)
  have "replay [Ib_mr_pool_destroy, Ib_destroy_qp, Ib_free_cq] (S \<union> ib_res n) =
      Some (insert Ring S \<union> ring_elems 0 n)"
    using e by (simp add: drop_res_def) (simp add: ib_res_def)
  with replay_free_ring [OF assms(2) n(4)] show ?thesis
    unfolding destroy_calls_def by (simp only: replay_append Option.bind.bind_lunit)
qed

lemma destroy_queue_ib_result:
  assumes "i < length (r_queues r)" and "q_tr_ready (queue r i)"
    and "held i r = Some (S \<union> ib_res (q_queue_size (queue r i)))"
    and "S \<subseteq> {Cm_id}" and "q_device (queue r i) = Some a"
    and "r' = nvme_rdma_destroy_queue_ib i r"
  shows "held i r' = Some S \<and> queue_frame i r r' \<and>
    queue r' i = (queue r i)\<lparr>q_tr_ready := False\<rparr> \<and>
    r_devs r' = nvme_rdma_dev_put a (r_devs r) \<and>
    c_state (r_ctrl r') = c_state (r_ctrl r)"
proof -
  have "replay (destroy_calls (q_queue_size (queue r i))) (S \<union> ib_res (q_queue_size (queue r i))) = Some S"
    using assms(4) by (intro replay_destroy_calls) (auto simp: ib_res_def ring_elems_def)
  with assms show ?thesis
    by (simp add: destroy_queue_ib_ready dev_put_of_devs)
qed

text \<open>
  \<open>create_queue_ib\<close> gives all verbs resources of the queue, and one device reference, or nothing:
  each of its six error exits undoes exactly what was done before it.
\<close>

lemma insert_ib: "insert Ring {Qp, Cq, Cm_id} \<union> ring_elems 0 n = {Cm_id, Cq, Qp, Ring} \<union> ring_elems 0 n"
  by auto

text \<open>The calls after the queue pair exists, by the outcome of the ring and of the MR pool.\<close>

lemma replay_ring_failed:
  "replay [Rdma_destroy_qp, Ib_free_cq] {Qp, Cq, Cm_id} = Some {Cm_id}"
  by (simp add: drop_res_def insert_Diff_if)

lemma replay_mr_failed:
  assumes "ret \<noteq> 0"
  shows "replay (Ib_mr_pool_init n p ret # free_calls 0 n @ [Kfree_ring, Rdma_destroy_qp, Ib_free_cq])
    (insert Ring {Qp, Cq, Cm_id} \<union> ring_elems 0 n) = Some {Cm_id}"
proof -
  have f: "Ib_mr_pool_init n p ret # free_calls 0 n @ [Kfree_ring, Rdma_destroy_qp, Ib_free_cq] =
      [Ib_mr_pool_init n p ret] @ (free_calls 0 n @ [Kfree_ring]) @ [Rdma_destroy_qp, Ib_free_cq]" by simp
  have "replay [Ib_mr_pool_init n p ret] (insert Ring {Qp, Cq, Cm_id} \<union> ring_elems 0 n) =
      Some (insert Ring {Qp, Cq, Cm_id} \<union> ring_elems 0 n)"
    using assms by (simp add: take_res_def)
  moreover have "replay (free_calls 0 n @ [Kfree_ring]) (insert Ring {Qp, Cq, Cm_id} \<union> ring_elems 0 n) =
      Some {Qp, Cq, Cm_id}"
    by (rule replay_free_ring) auto
  ultimately show ?thesis unfolding f
    by (simp only: replay_append Option.bind.bind_lunit replay_ring_failed)
qed

lemma replay_mr_done:
  "replay [Ib_mr_pool_init n p 0] (insert Ring {Qp, Cq, Cm_id} \<union> ring_elems 0 n) =
   Some ({Cm_id} \<union> ib_res n)"
  by (auto simp: take_res_def ib_res_def)

lemma create_queue_ib_calls:
  assumes dev: "nvme_rdma_find_get_device (qe_dev e) (r_devs r) = (Some a, ds1)"
    and r1: "r1 = upd_queue i (q_device_update (\<lambda>_. Some a)) (r\<lparr>r_devs := ds1\<rparr>)"
    and i: "i < length (r_queues r)" and h: "held i r = Some {Cm_id}"
    and c: "nvme_rdma_create_queue_ib e i r = (ret, r')"
  shows "\<exists>ks. if ret = 0
      then r' = upd_queue i (q_tr_ready_update (\<lambda>_. True)) (emits i ks r1) \<and>
        replay ks {Cm_id} = Some ({Cm_id} \<union> ib_res (q_queue_size (queue r i)))
      else r' = dev_put_of i (emits i ks r1) \<and> replay ks {Cm_id} = Some {Cm_id}"
proof -
  let ?n = "q_queue_size (queue r i)"
  have n: "q_queue_size (queue r1 i) = ?n" and h1: "held i r1 = Some {Cm_id}"
    using i h by (simp_all add: r1)
  define kcq where "kcq = Ib_alloc_cq (4 * ?n + 1) (queue_comp_vector i)
    (nvme_rdma_poll_queue i r1) (qe_alloc_cq e)"
  obtain sge where qp: "nvme_rdma_create_qp e i 3 (emits i ks r1) =
      (qe_create_qp e, emits i (ks @ [Rdma_create_qp (3 * ?n + 1) (?n + 1) sge (qe_create_qp e)]) r1)" for ks
    using n by (simp add: nvme_rdma_create_qp_def qemit_emits device_of_def Let_def)
  define kqp where "kqp = Rdma_create_qp (3 * ?n + 1) (?n + 1) sge (qe_create_qp e)"
  define r2 where "r2 = emits i [kcq, kqp] r1"
  define p where "p = uint (nvme_rdma_get_max_fr_pages (qe_max_fast_reg e)) + 1"
  obtain ok r3 where ring: "nvme_rdma_alloc_ring e i ?n r2 = (ok, r3)" by fastforce
  have body: "nvme_rdma_create_queue_ib e i r =
    (if qe_alloc_cq e \<noteq> 0 then (qe_alloc_cq e, dev_put_of i (emits i [kcq] r1))
     else if qe_create_qp e \<noteq> 0 then (qe_create_qp e, dev_put_of i (emits i [kcq, kqp, Ib_free_cq] r1))
     else if \<not> ok then (- ENOMEM, dev_put_of i (emits i [Rdma_destroy_qp, Ib_free_cq] r3))
     else if qe_mr_pool_init e \<noteq> 0
          then (qe_mr_pool_init e, dev_put_of i (emits i (Ib_mr_pool_init ?n p (qe_mr_pool_init e) #
                 free_calls 0 ?n @ [Kfree_ring, Rdma_destroy_qp, Ib_free_cq]) r3))
          else (0, upd_queue i (q_tr_ready_update (\<lambda>_. True)) (emits i [Ib_mr_pool_init ?n p 0] r3)))"
    using dev n ring
    by (cases "qe_alloc_cq e = 0"; cases "qe_create_qp e = 0"; cases "qe_mr_pool_init e = 0")
      (simp_all add: nvme_rdma_create_queue_ib_def Let_def qemit_emits free_ring_emits qp
        kcq_def kqp_def p_def r2_def r1 [symmetric])
  show ?thesis
  proof (cases "qe_alloc_cq e = 0 \<and> qe_create_qp e = 0")
    case False
    then have "replay (if qe_alloc_cq e \<noteq> 0 then [kcq] else [kcq, kqp, Ib_free_cq]) {Cm_id} = Some {Cm_id}"
      by (auto simp: kcq_def kqp_def take_res_def drop_res_def)
    with False c show ?thesis unfolding body
      by (intro exI [of _ "if qe_alloc_cq e \<noteq> 0 then [kcq] else [kcq, kqp, Ib_free_cq]"])
        (auto split: if_splits)
  next
    case True
    have s2: "replay [kcq, kqp] {Cm_id} = Some {Qp, Cq, Cm_id}"
      using True by (simp add: kcq_def kqp_def take_res_def)
    with h1 have "held i r2 = Some {Qp, Cq, Cm_id}" by (simp add: r2_def)
    from alloc_ring_result [OF this _ _ ring] obtain ks where r3: "r3 = emits i ks r2"
      and ks: "replay ks {Qp, Cq, Cm_id} =
        Some (if ok then insert Ring {Qp, Cq, Cm_id} \<union> ring_elems 0 ?n else {Qp, Cq, Cm_id})"
      by auto
    define tail where "tail = (if \<not> ok then [Rdma_destroy_qp, Ib_free_cq]
      else if qe_mr_pool_init e \<noteq> 0 then Ib_mr_pool_init ?n p (qe_mr_pool_init e) #
        free_calls 0 ?n @ [Kfree_ring, Rdma_destroy_qp, Ib_free_cq]
      else [Ib_mr_pool_init ?n p 0])"
    have rep: "replay ([kcq, kqp] @ ks @ tail) {Cm_id} = Some (if ok \<and> qe_mr_pool_init e = 0
        then {Cm_id} \<union> ib_res ?n else {Cm_id})"
      using replay_ring_failed replay_mr_failed [of "qe_mr_pool_init e" ?n p] replay_mr_done [of ?n p]
      by (cases ok; cases "qe_mr_pool_init e = 0")
        (simp_all only: replay_append Option.bind.bind_lunit s2 ks tail_def if_True if_False simp_thms)
    from c True have "(ret, r') = (if ok \<and> qe_mr_pool_init e = 0
        then (0, upd_queue i (q_tr_ready_update (\<lambda>_. True)) (emits i ([kcq, kqp] @ ks @ tail) r1))
        else (if \<not> ok then - ENOMEM else qe_mr_pool_init e, dev_put_of i (emits i ([kcq, kqp] @ ks @ tail) r1)))"
      unfolding body r3 r2_def tail_def by auto
    with rep show ?thesis
      by (intro exI [of _ "[kcq, kqp] @ ks @ tail"]) (auto split: if_splits)
  qed
qed

definition ib_created :: "nat \<Rightarrow> qres set \<Rightarrow> dev_env \<Rightarrow> rdma_device list \<Rightarrow> nvme_rdma_ctrl \<Rightarrow> bool" where
  "ib_created i S de ds r \<longleftrightarrow>
     q_tr_ready (queue r i) \<and> held i r = Some (S \<union> ib_res (q_queue_size (queue r i))) \<and>
     (\<exists>a. q_device (queue r i) = Some a \<and> nvme_rdma_find_get_device de ds = (Some a, r_devs r))"

definition ib_absent :: "nat \<Rightarrow> qres set \<Rightarrow> rdma_device list \<Rightarrow> nvme_rdma_ctrl \<Rightarrow> bool" where
  "ib_absent i S ds r \<longleftrightarrow> \<not> q_tr_ready (queue r i) \<and> held i r = Some S \<and> r_devs r = ds"

text \<open>The fields of a queue that building and releasing its verbs resources leave alone.\<close>

definition queue_cfg :: "rdma_queue \<Rightarrow> nat \<times> nat \<times> bool \<times> bool \<times> int \<times> nat" where
  "queue_cfg q = (q_queue_size q, q_cmnd_capsule_len q, q_allocated q, q_live q, q_cm_error q, q_cm_done q)"

definition ib_step :: "nat \<Rightarrow> nvme_rdma_ctrl \<Rightarrow> nvme_rdma_ctrl \<Rightarrow> bool" where
  "ib_step i r r' \<longleftrightarrow> queue_frame i r r' \<and> c_state (r_ctrl r') = c_state (r_ctrl r) \<and>
     queue_cfg (queue r' i) = queue_cfg (queue r i)"

lemma create_queue_ib_result:
  assumes i: "i < length (r_queues r)" and abs: "ib_absent i {Cm_id} ds r"
    and ds: "devs_ok ds" "dev_env_ok (qe_dev e) ds"
    and c: "nvme_rdma_create_queue_ib e i r = (ret, r')"
  shows "ib_step i r r' \<and>
    (if ret = 0 then ib_created i {Cm_id} (qe_dev e) ds r' else ib_absent i {Cm_id} ds r')"
proof (cases "nvme_rdma_find_get_device (qe_dev e) ds")
  case (Pair dev ds1)
  from abs have h: "held i r = Some {Cm_id}" and t: "\<not> q_tr_ready (queue r i)" and d: "r_devs r = ds"
    by (simp_all add: ib_absent_def)
  show ?thesis
  proof (cases dev)
    case None
    with Pair find_get_device_None have "ds1 = ds" by blast
    with None Pair d c i h t show ?thesis
      by (auto simp: nvme_rdma_create_queue_ib_def ib_absent_def ib_step_def queue_cfg_def)
  next
    case (Some a)
    have put: "nvme_rdma_dev_put a ds1 = ds" using ds Pair Some by (intro dev_get_put) simp_all
    define r1 where "r1 = upd_queue i (q_device_update (\<lambda>_. Some a)) (r\<lparr>r_devs := ds1\<rparr>)"
    have q1: "i < length (r_queues r1)" "queue r1 i = (queue r i)\<lparr>q_device := Some a\<rparr>" "queue_frame i r r1"
      "held i r1 = Some {Cm_id}" "r_devs r1 = ds1" "c_state (r_ctrl r1) = c_state (r_ctrl r)"
      using i h by (simp_all add: r1_def)
    note calls = create_queue_ib_calls [OF Pair [folded d, unfolded Some] r1_def i h c]
    show ?thesis
    proof (cases "ret = 0")
      case True
      with calls q1 t Pair Some show ?thesis
        by (auto simp: ib_created_def ib_step_def queue_cfg_def)
    next
      case False
      with calls q1 t put show ?thesis
        by (auto simp: ib_absent_def ib_step_def queue_cfg_def dev_put_of_devs)
    qed
  qed
qed

text \<open>\<open>destroy_queue_ib\<close> undoes a successful creation; on a queue without resources it does nothing.\<close>

lemma destroy_created:
  assumes "i < length (r_queues r)" and "ib_created i S de ds r" and "S \<subseteq> {Cm_id}"
    and "devs_ok ds" "dev_env_ok de ds"
  shows "ib_absent i S ds (nvme_rdma_destroy_queue_ib i r) \<and> ib_step i r (nvme_rdma_destroy_queue_ib i r)"
proof -
  from assms obtain a where a: "q_device (queue r i) = Some a"
      "nvme_rdma_find_get_device de ds = (Some a, r_devs r)" and t: "q_tr_ready (queue r i)"
      "held i r = Some (S \<union> ib_res (q_queue_size (queue r i)))"
    by (auto simp: ib_created_def)
  with dev_get_put [OF assms(4,5) a(2)] destroy_queue_ib_result [OF assms(1) t assms(3) a(1) refl]
  show ?thesis
    by (simp add: ib_absent_def ib_step_def queue_cfg_def)
qed

lemma destroy_absent [simp]: "ib_absent i S ds r \<Longrightarrow> nvme_rdma_destroy_queue_ib i r = r"
  by (simp add: ib_absent_def destroy_queue_ib_not_ready)

section \<open>The connection manager's side of the contract\<close>

text \<open>
  What the RDMA connection manager has outstanding for the queue's identifier. An event can only
  answer the request that is outstanding; \<open>err\<close> is what the handler made of the event (the next
  request is issued exactly when it is 0).
\<close>

datatype cm_phase = Cm_idle | Cm_addr | Cm_route | Cm_conn | Cm_up

fun cm_allowed :: "cm_phase \<Rightarrow> cm_event \<Rightarrow> bool" where
  "cm_allowed p ADDR_RESOLVED = (p = Cm_addr)"
| "cm_allowed p ROUTE_RESOLVED = (p = Cm_route)"
| "cm_allowed p ESTABLISHED = (p = Cm_conn)"
| "cm_allowed p ADDR_ERROR = (p = Cm_addr)"
| "cm_allowed p ROUTE_ERROR = (p \<noteq> Cm_up)"
| "cm_allowed p CONNECT_ERROR = (p \<noteq> Cm_up)"
| "cm_allowed p UNREACHABLE = (p \<noteq> Cm_up)"
| "cm_allowed p REJECTED = (p \<noteq> Cm_up)"
| "cm_allowed p _ = True"

fun cm_next :: "cm_phase \<Rightarrow> cm_event \<Rightarrow> int \<Rightarrow> cm_phase" where
  "cm_next p ADDR_RESOLVED err = (if err = 0 then Cm_route else Cm_idle)"
| "cm_next p ROUTE_RESOLVED err = (if err = 0 then Cm_conn else Cm_idle)"
| "cm_next p ESTABLISHED err = Cm_up"
| "cm_next p ADDR_ERROR err = Cm_idle"
| "cm_next p ROUTE_ERROR err = Cm_idle"
| "cm_next p CONNECT_ERROR err = Cm_idle"
| "cm_next p UNREACHABLE err = Cm_idle"
| "cm_next p REJECTED err = Cm_idle"
| "cm_next p _ err = p"

definition cm_step :: "queue_env \<Rightarrow> nat \<Rightarrow> cm_event \<Rightarrow> cm_phase \<Rightarrow> nvme_rdma_ctrl \<Rightarrow> cm_phase" where
  "cm_step e i ev p r = cm_next p ev (fst (cm_event_action e i ev (qemit i (Cm_event ev) r)))"

fun cm_events_ok :: "queue_env \<Rightarrow> nat \<Rightarrow> cm_event list \<Rightarrow> cm_phase \<Rightarrow> nvme_rdma_ctrl \<Rightarrow> bool" where
  "cm_events_ok e i [] p r = True"
| "cm_events_ok e i (ev # evs) p r =
     (cm_allowed p ev \<and> cm_events_ok e i evs (cm_step e i ev p r) (nvme_rdma_cm_handler e i ev r))"

section \<open>The handler keeps the queue's resources balanced\<close>

definition ib_state :: "nat \<Rightarrow> dev_env \<Rightarrow> rdma_device list \<Rightarrow> nvme_rdma_ctrl \<Rightarrow> bool" where
  "ib_state i de ds r \<longleftrightarrow>
     (if q_tr_ready (queue r i) then ib_created i {Cm_id} de ds r else ib_absent i {Cm_id} ds r)"

definition phase_ok :: "cm_phase \<Rightarrow> rdma_queue \<Rightarrow> bool" where
  "phase_ok p q \<longleftrightarrow> (p = Cm_addr \<longrightarrow> \<not> q_tr_ready q) \<and> (p \<in> {Cm_route, Cm_conn} \<longrightarrow> q_tr_ready q) \<and>
     (q_cm_error q = 0 \<longrightarrow> q_tr_ready q \<and> p = Cm_up)"

text \<open>What the event handler may change: not the queue's size, capsule or ALLOCATED / LIVE bits.\<close>

definition cm_frame :: "nat \<Rightarrow> nvme_rdma_ctrl \<Rightarrow> nvme_rdma_ctrl \<Rightarrow> bool" where
  "cm_frame i r r' \<longleftrightarrow> queue_frame i r r' \<and>
     q_queue_size (queue r' i) = q_queue_size (queue r i) \<and>
     q_cmnd_capsule_len (queue r' i) = q_cmnd_capsule_len (queue r i) \<and>
     q_allocated (queue r' i) = q_allocated (queue r i) \<and> q_live (queue r' i) = q_live (queue r i)"

lemma cm_frame_refl [simp, intro]: "cm_frame i r r"
  by (simp add: cm_frame_def)

lemma cm_frame_trans: "cm_frame i r r' \<Longrightarrow> cm_frame i r' r'' \<Longrightarrow> cm_frame i r r''"
  by (auto simp: cm_frame_def intro: queue_frame_trans)

lemma ib_step_cm_frame: "ib_step i r r' \<Longrightarrow> cm_frame i r r'"
  by (simp add: ib_step_def cm_frame_def queue_cfg_def)

lemma ib_step_trans: "ib_step i r r' \<Longrightarrow> ib_step i r' r'' \<Longrightarrow> ib_step i r r''"
  by (auto simp: ib_step_def intro: queue_frame_trans)

lemma ib_step_emits [simp]: "ib_step i r (emits i ks r') = ib_step i r r'"
  by (simp add: ib_step_def)

lemma ib_step_refl [simp]: "ib_step i r r"
  by (simp add: ib_step_def)

lemma ib_created_emits:
  "ib_created i S de ds r \<Longrightarrow>
   replay ks (S \<union> ib_res (q_queue_size (queue r i))) = Some (S \<union> ib_res (q_queue_size (queue r i))) \<Longrightarrow>
   ib_created i S de ds (emits i ks r)"
  by (simp add: ib_created_def)

lemma ib_absent_emits:
  "ib_absent i S ds r \<Longrightarrow> replay ks S = Some S' \<Longrightarrow> ib_absent i S' ds (emits i ks r)"
  by (simp add: ib_absent_def)

lemma ib_state_emits:
  assumes "ib_state i de ds r" and "\<And>n. replay ks ({Cm_id} \<union> ib_res n) = Some ({Cm_id} \<union> ib_res n)"
    and "replay ks {Cm_id} = Some {Cm_id}"
  shows "ib_state i de ds (emits i ks r)"
  using assms ib_created_emits [of i "{Cm_id}" de ds r ks] ib_absent_emits [of i "{Cm_id}" ds r ks]
  by (simp add: ib_state_def split: if_splits)

text \<open>Releasing the verbs resources, whatever they are.\<close>

lemma destroy_ib_state:
  assumes "i < length (r_queues r)" and "ib_state i de ds r" and "devs_ok ds" "dev_env_ok de ds"
  shows "ib_absent i {Cm_id} ds (nvme_rdma_destroy_queue_ib i r) \<and>
    ib_step i r (nvme_rdma_destroy_queue_ib i r)"
proof (cases "q_tr_ready (queue r i)")
  case True
  with assms destroy_created [OF assms(1) _ _ assms(3,4)] show ?thesis
    by (simp add: ib_state_def)
next
  case False
  with assms(2) show ?thesis by (simp add: ib_state_def)
qed

lemma ib_absent_state: "ib_absent i {Cm_id} ds r \<Longrightarrow> ib_state i de ds r"
  by (simp add: ib_state_def ib_absent_def)

lemma ib_created_state: "ib_created i {Cm_id} de ds r \<Longrightarrow> ib_state i de ds r"
  by (simp add: ib_state_def ib_created_def)

lemma ib_absent_not_ready: "ib_absent i S ds r \<Longrightarrow> \<not> q_tr_ready (queue r i)"
  by (simp add: ib_absent_def)

lemma ib_created_ready: "ib_created i S de ds r \<Longrightarrow> q_tr_ready (queue r i)"
  by (simp add: ib_created_def)

lemma post_recvs_calls:
  "post_recvs e q i n r = (ret, r') \<Longrightarrow>
   \<exists>ks. r' = (if ret = 0 then emits q ks r else nvme_rdma_destroy_queue_ib q (emits q ks r)) \<and>
    (\<forall>S. Qp \<in> S \<and> (\<forall>j \<in> {i..<i + n}. Dma j \<in> S) \<longrightarrow> replay ks S = Some S)"
proof (induction n arbitrary: i r)
  case 0
  then show ?case by (intro exI [of _ "[]"]) auto
next
  case (Suc n)
  let ?k = "Ib_post_recv i (qe_post_recv e i)"
  show ?case
  proof (cases "qe_post_recv e i = 0")
    case False
    with Suc.prems show ?thesis
      by (intro exI [of _ "[?k]"]) (auto simp: nvme_rdma_post_recv_def qemit_emits use_res_def)
  next
    case True
    with Suc.prems have "post_recvs e q (Suc i) n (emits q [?k] r) = (ret, r')"
      by (simp add: nvme_rdma_post_recv_def qemit_emits)
    from Suc.IH [OF this] obtain ks where
      ks: "r' = (if ret = 0 then emits q (?k # ks) r else nvme_rdma_destroy_queue_ib q (emits q (?k # ks) r))"
      "\<forall>S. Qp \<in> S \<and> (\<forall>j \<in> {Suc i..<Suc i + n}. Dma j \<in> S) \<longrightarrow> replay ks S = Some S"
      unfolding emits_emits append_Cons append_Nil by blast
    from ks(2) have "\<forall>S. Qp \<in> S \<and> (\<forall>j \<in> {i..<i + Suc n}. Dma j \<in> S) \<longrightarrow> replay (?k # ks) S = Some S"
      by (simp add: use_res_def)
    with ks(1) show ?thesis by blast
  qed
qed

lemma conn_established_result:
  assumes i: "i < length (r_queues r)" and cr: "ib_created i {Cm_id} (qe_dev e) ds r"
    and ds: "devs_ok ds" "dev_env_ok (qe_dev e) ds"
    and c: "nvme_rdma_conn_established e i r = (ret, r')"
  shows "ib_step i r r' \<and>
    (if ret = 0 then ib_created i {Cm_id} (qe_dev e) ds r' else ib_absent i {Cm_id} ds r')"
proof -
  let ?n = "q_queue_size (queue r i)"
  from post_recvs_calls [OF c [unfolded nvme_rdma_conn_established_def]] obtain ks where
    r': "r' = (if ret = 0 then emits i ks r else nvme_rdma_destroy_queue_ib i (emits i ks r))"
    and "\<forall>S. Qp \<in> S \<and> (\<forall>j \<in> {0..<0 + ?n}. Dma j \<in> S) \<longrightarrow> replay ks S = Some S"
    by blast
  then have "replay ks ({Cm_id} \<union> ib_res ?n) = Some ({Cm_id} \<union> ib_res ?n)"
    by (simp add: ib_res_def)
  from ib_created_emits [OF cr this] have cr': "ib_created i {Cm_id} (qe_dev e) ds (emits i ks r)" .
  with destroy_created [OF _ cr' _ ds] i r' show ?thesis
    by (auto intro: ib_step_trans [of _ _ "emits i ks r"])
qed

lemma addr_resolved_result:
  assumes i: "i < length (r_queues r)" and abs: "ib_absent i {Cm_id} ds r"
    and ds: "devs_ok ds" "dev_env_ok (qe_dev e) ds"
    and c: "nvme_rdma_addr_resolved e i r = (ret, r')"
  shows "ib_step i r r' \<and>
    (if ret = 0 then ib_created i {Cm_id} (qe_dev e) ds r' else ib_absent i {Cm_id} ds r')"
proof -
  obtain ret1 r1 where c1: "nvme_rdma_create_queue_ib e i r = (ret1, r1)" by fastforce
  note res = create_queue_ib_result [OF i abs ds c1]
  show ?thesis
  proof (cases "ret1 = 0")
    case False
    with c c1 res show ?thesis by (auto simp: nvme_rdma_addr_resolved_def)
  next
    case True
    define ks where "ks = (if 0 \<le> o_tos (c_opts (r_ctrl r1)) then [Rdma_set_service_type (o_tos (c_opts (r_ctrl r1)))] else [])
      @ [Rdma_resolve_route (qe_resolve_route e)]"
    have r': "(ret, r') = (qe_resolve_route e, if qe_resolve_route e = 0 then emits i ks r1
        else nvme_rdma_destroy_queue_ib i (emits i ks r1))"
      using c c1 True by (auto simp: nvme_rdma_addr_resolved_def ks_def Let_def qemit_emits split: if_splits)
    have "replay ks ({Cm_id} \<union> ib_res n) = Some ({Cm_id} \<union> ib_res n)" for n
      by (simp add: ks_def use_res_def)
    with True res ib_created_emits have cr: "ib_created i {Cm_id} (qe_dev e) ds (emits i ks r1)"
      by simp
    from res i have "i < length (r_queues (emits i ks r1))" "ib_step i r (emits i ks r1)"
      by (auto simp: ib_step_def queue_frame_length)
    with r' cr destroy_created [OF _ cr _ ds] show ?thesis
      by (auto intro: ib_step_trans [of _ _ "emits i ks r1"])
  qed
qed

lemma route_resolved_result:
  assumes i: "i < length (r_queues r)" and cr: "ib_created i {Cm_id} (qe_dev e) ds r"
    and ds: "devs_ok ds" "dev_env_ok (qe_dev e) ds"
    and c: "nvme_rdma_route_resolved e i r = (ret, r')"
  shows "ib_step i r r' \<and>
    (if ret = 0 then ib_created i {Cm_id} (qe_dev e) ds r' else ib_absent i {Cm_id} ds r')"
proof -
  obtain qid h1 h2 where p: "connect_params i r = (qid, h1, h2)" by (cases "connect_params i r")
  let ?ks = "[Rdma_connect qid h1 h2 (qe_connect e)]"
  have "replay ?ks ({Cm_id} \<union> ib_res n) = Some ({Cm_id} \<union> ib_res n)" for n
    by (simp add: use_res_def ib_res_def)
  with cr ib_created_emits have cr': "ib_created i {Cm_id} (qe_dev e) ds (emits i ?ks r)" by blast
  with c p i destroy_created [OF _ cr' _ ds] show ?thesis
    by (auto simp: nvme_rdma_route_resolved_def Let_def qemit_emits
        intro: ib_step_trans [of _ _ "emits i ?ks r"] split: if_splits)
qed

text \<open>Calls on behalf of the controller leave the queues alone.\<close>

declare ctrl_only_def [simp]

lemma emit_fields [simp]:
  "r_queues (emit k r) = r_queues r" "r_devs (emit k r) = r_devs r"
  "r_io_default (emit k r) = r_io_default r" "r_io_read (emit k r) = r_io_read r"
  "r_io_poll (emit k r) = r_io_poll r" "r_device (emit k r) = r_device r"
  "r_async_sqe (emit k r) = r_async_sqe r" "r_max_fr_pages (emit k r) = r_max_fr_pages r"
  "r_use_inline_data (emit k r) = r_use_inline_data r"
  "c_state (r_ctrl (emit k r)) = c_state (r_ctrl r)" "c_opts (r_ctrl (emit k r)) = c_opts (r_ctrl r)"
  "c_queue_count (r_ctrl (emit k r)) = c_queue_count (r_ctrl r)"
  "c_sqsize (r_ctrl (emit k r)) = c_sqsize (r_ctrl r)" "c_ioccsz (r_ctrl (emit k r)) = c_ioccsz (r_ctrl r)"
  "c_pending (r_ctrl (emit k r)) = c_pending (r_ctrl r)"
  by (simp_all add: emit_def call_def)

lemma held_emit [simp]: "ctrl_only k \<Longrightarrow> held i (emit k r) = held i r"
  unfolding held_def by (simp only: queue_calls_emit_other)

lemma queue_frame_emit [simp]: "ctrl_only k \<Longrightarrow> queue_frame i r (emit k r') = queue_frame i r r'"
  unfolding queue_frame_def by (simp del: ctrl_only_def)

lemma cm_frame_emit: "ctrl_only k \<Longrightarrow> cm_frame i r (emit k r') = cm_frame i r r'"
  unfolding cm_frame_def by (simp del: ctrl_only_def)

lemma ib_state_emit: "ctrl_only k \<Longrightarrow> ib_state i de ds (emit k r) = ib_state i de ds r"
  unfolding ib_state_def ib_created_def ib_absent_def by (simp del: ctrl_only_def)

lemma nvme_change_ctrl_state_calls [simp]:
  "calls_of i (c_trace (snd (nvme_change_ctrl_state s c))) = calls_of i (c_trace c)"
  by (simp add: nvme_change_ctrl_state_def Let_def call_def)

lemma queue_work_calls [simp]:
  "calls_of i (c_trace (snd (queue_work w c))) = calls_of i (c_trace c)"
  by (simp add: queue_work_def call_def)

lemma nvme_change_ctrl_state_fields [simp]:
  "c_opts (snd (nvme_change_ctrl_state s c)) = c_opts c"
  "c_queue_count (snd (nvme_change_ctrl_state s c)) = c_queue_count c"
  "c_sqsize (snd (nvme_change_ctrl_state s c)) = c_sqsize c"
  "c_ioccsz (snd (nvme_change_ctrl_state s c)) = c_ioccsz c"
  "c_pending (snd (nvme_change_ctrl_state s c)) = c_pending c"
  by (simp_all add: nvme_change_ctrl_state_def Let_def call_def)

lemma queue_work_fields [simp]:
  "c_opts (snd (queue_work w c)) = c_opts c"
  "c_queue_count (snd (queue_work w c)) = c_queue_count c"
  "c_sqsize (snd (queue_work w c)) = c_sqsize c"
  "c_ioccsz (snd (queue_work w c)) = c_ioccsz c"
  "c_state (snd (queue_work w c)) = c_state c"
  by (simp_all add: queue_work_def call_def)

text \<open>Error recovery only moves the state machine and queues a work.\<close>

lemma error_recovery_fields [simp]:
  "r_queues (nvme_rdma_error_recovery r) = r_queues r"
  "r_devs (nvme_rdma_error_recovery r) = r_devs r"
  "queue_calls i (nvme_rdma_error_recovery r) = queue_calls i r"
  "held i (nvme_rdma_error_recovery r) = held i r"
  "queue_frame i r0 (nvme_rdma_error_recovery r) = queue_frame i r0 r"
  by (auto simp: nvme_rdma_error_recovery_def queue_calls_def held_def queue_frame_def split_beta Let_def)

lemma ib_state_error_recovery [simp]:
  "ib_state i de ds (nvme_rdma_error_recovery r) = ib_state i de ds r"
  by (simp add: ib_state_def ib_created_def ib_absent_def)

lemma ib_state_set [simp]:
  assumes "i < length (r_queues r)"
  shows "ib_state i de ds (set_cm_error i err r) = ib_state i de ds r"
    and "ib_state i de ds (complete_cm i r) = ib_state i de ds r"
  using assms
  by (simp_all add: ib_state_def ib_created_def ib_absent_def set_cm_error_def complete_cm_def)

lemma queue_set [simp]:
  assumes "i < length (r_queues r)"
  shows "queue (set_cm_error i err r) i = (queue r i)\<lparr>q_cm_error := err\<rparr>"
    and "queue (complete_cm i r) i = (queue r i)\<lparr>q_cm_done := q_cm_done (queue r i) + 1\<rparr>"
  using assms by (simp_all add: set_cm_error_def complete_cm_def)

lemma length_set [simp]:
  "length (r_queues (set_cm_error i err r)) = length (r_queues r)"
  "length (r_queues (complete_cm i r)) = length (r_queues r)"
  by (simp_all add: set_cm_error_def complete_cm_def)

lemma cm_frame_set [simp]:
  assumes "i < length (r_queues r)"
  shows "cm_frame i r0 (set_cm_error i err r) = cm_frame i r0 r"
    and "cm_frame i r0 (complete_cm i r) = cm_frame i r0 r"
  using assms by (simp_all add: cm_frame_def) (simp_all add: set_cm_error_def complete_cm_def)

lemma cm_frame_length: "cm_frame i r r' \<Longrightarrow> length (r_queues r') = length (r_queues r)"
  by (simp add: cm_frame_def queue_frame_def)

lemma cm_frame_emits [simp]: "cm_frame i r0 (emits i ks r) = cm_frame i r0 r"
  by (simp add: cm_frame_def)

lemma cm_frame_error_recovery [simp]: "cm_frame i r0 (nvme_rdma_error_recovery r) = cm_frame i r0 r"
  by (simp add: cm_frame_def)

lemma phase_ok_done [simp]: "phase_ok p (q\<lparr>q_cm_done := n\<rparr>) = phase_ok p q"
  by (simp add: phase_ok_def)

lemma ib_step_cm_error: "ib_step i r r' \<Longrightarrow> q_cm_error (queue r' i) = q_cm_error (queue r i)"
  by (simp add: ib_step_def queue_cfg_def)

lemma cm_event_action_ok:
  assumes i: "i < length (r_queues r)" and st: "ib_state i (qe_dev e) ds r"
    and p: "phase_ok p (queue r i)" "cm_allowed p ev"
    and ds: "devs_ok ds" "dev_env_ok (qe_dev e) ds"
    and c: "cm_event_action e i ev r = (err, r')"
  shows "cm_frame i r r' \<and> ib_state i (qe_dev e) ds r' \<and>
    phase_ok (cm_next p ev err) (if err \<noteq> 0 then (queue r' i)\<lparr>q_cm_error := err\<rparr> else queue r' i)"
proof -
  note destroy = destroy_ib_state [OF i st ds]
  have err: ?thesis if "err \<noteq> 0" "r' = nvme_rdma_destroy_queue_ib i r" "cm_next p ev err = Cm_idle"
    using that destroy by (auto simp: phase_ok_def ib_step_cm_frame ib_absent_state)
  show ?thesis
  proof (cases ev)
    case ADDR_RESOLVED
    with p st have "ib_absent i {Cm_id} ds r" "q_cm_error (queue r i) \<noteq> 0"
      by (auto simp: phase_ok_def ib_state_def)
    with addr_resolved_result [OF i _ ds] c ADDR_RESOLVED show ?thesis
      by (cases "err = 0") (auto simp: cm_event_action_def phase_ok_def ib_step_cm_frame ib_step_cm_error
          ib_absent_state ib_created_state ib_created_ready)
  next
    case ROUTE_RESOLVED
    with p st have "ib_created i {Cm_id} (qe_dev e) ds r" "q_cm_error (queue r i) \<noteq> 0"
      by (auto simp: phase_ok_def ib_state_def)
    with route_resolved_result [OF i _ ds] c ROUTE_RESOLVED show ?thesis
      by (cases "err = 0") (auto simp: cm_event_action_def phase_ok_def ib_step_cm_frame ib_step_cm_error
          ib_absent_state ib_created_state ib_created_ready)
  next
    case ESTABLISHED
    with p st have cr: "ib_created i {Cm_id} (qe_dev e) ds r"
      by (auto simp: phase_ok_def ib_state_def)
    obtain ret r1 where r1: "nvme_rdma_conn_established e i r = (ret, r1)" by fastforce
    with conn_established_result [OF i cr ds r1] have "cm_frame i r r1" "ib_state i (qe_dev e) ds r1"
        "ret = 0 \<longrightarrow> q_tr_ready (queue r1 i)" "i < length (r_queues r1)"
      using i by (auto simp: ib_step_cm_frame ib_absent_state ib_created_state ib_created_ready
          ib_step_def queue_frame_length split: if_splits)
    with c ESTABLISHED r1 show ?thesis
      by (auto simp: cm_event_action_def phase_ok_def)
  next
    case ADDR_ERROR
    with c st show ?thesis by (auto simp: cm_event_action_def phase_ok_def)
  next
    case REJECTED
    with c show ?thesis by (intro err) (auto simp: cm_event_action_def nvme_rdma_conn_rejected_def)
  next
    case ROUTE_ERROR
    with c show ?thesis by (intro err) (auto simp: cm_event_action_def)
  next
    case CONNECT_ERROR
    with c show ?thesis by (intro err) (auto simp: cm_event_action_def)
  next
    case UNREACHABLE
    with c show ?thesis by (intro err) (auto simp: cm_event_action_def)
  qed (use c st p in \<open>auto simp: cm_event_action_def\<close>)
qed

lemma cm_handler_ok:
  assumes i: "i < length (r_queues r)" and st: "ib_state i (qe_dev e) ds r"
    and p: "phase_ok p (queue r i)" "cm_allowed p ev"
    and ds: "devs_ok ds" "dev_env_ok (qe_dev e) ds"
  shows "cm_frame i r (nvme_rdma_cm_handler e i ev r) \<and>
    ib_state i (qe_dev e) ds (nvme_rdma_cm_handler e i ev r) \<and>
    phase_ok (cm_step e i ev p r) (queue (nvme_rdma_cm_handler e i ev r) i)"
proof -
  let ?r0 = "emits i [Cm_event ev] r"
  obtain err r1 where c: "cm_event_action e i ev ?r0 = (err, r1)" by fastforce
  have "ib_state i (qe_dev e) ds ?r0" using st by (intro ib_state_emits) simp_all
  from cm_event_action_ok [OF _ this _ p(2) ds c] i p
  have r1: "cm_frame i ?r0 r1" "ib_state i (qe_dev e) ds r1"
    "phase_ok (cm_next p ev err) (if err \<noteq> 0 then (queue r1 i)\<lparr>q_cm_error := err\<rparr> else queue r1 i)"
    by auto
  then have "i < length (r_queues r1)" "cm_frame i r r1"
    using i by (auto simp: cm_frame_def queue_frame_def)
  with r1 c show ?thesis
    by (auto simp: nvme_rdma_cm_handler_def cm_step_def qemit_emits)
qed

lemma cm_events_result:
  assumes "i < length (r_queues r)" and "ib_state i (qe_dev e) ds r"
    and "phase_ok p (queue r i)" "cm_events_ok e i evs p r"
    and ds: "devs_ok ds" "dev_env_ok (qe_dev e) ds"
  shows "cm_frame i r (fold (nvme_rdma_cm_handler e i) evs r) \<and>
    ib_state i (qe_dev e) ds (fold (nvme_rdma_cm_handler e i) evs r) \<and>
    (\<exists>p. phase_ok p (queue (fold (nvme_rdma_cm_handler e i) evs r) i))"
  using assms(1-4)
proof (induction evs arbitrary: p r)
  case Nil
  then show ?case by auto
next
  case (Cons ev evs)
  from Cons.prems cm_handler_ok [OF Cons.prems(1-3) _ ds, of ev]
  have h: "cm_frame i r (nvme_rdma_cm_handler e i ev r)"
    "ib_state i (qe_dev e) ds (nvme_rdma_cm_handler e i ev r)"
    "phase_ok (cm_step e i ev p r) (queue (nvme_rdma_cm_handler e i ev r) i)"
    by auto
  then have "i < length (r_queues (nvme_rdma_cm_handler e i ev r))"
    using Cons.prems(1) cm_frame_length by fastforce
  from Cons.IH [OF this h(2,3)] Cons.prems(4) h(1) show ?case
    by (auto intro: cm_frame_trans)
qed

section \<open>Queue life cycle\<close>

text \<open>A queue that holds nothing, and one that holds everything.\<close>

definition queue_idle :: "nat \<Rightarrow> nvme_rdma_ctrl \<Rightarrow> bool" where
  "queue_idle i r \<longleftrightarrow> \<not> q_allocated (queue r i) \<and> \<not> q_live (queue r i) \<and> \<not> q_tr_ready (queue r i) \<and>
     held i r = Some {}"

definition queue_up :: "nat \<Rightarrow> nvme_rdma_ctrl \<Rightarrow> bool" where
  "queue_up i r \<longleftrightarrow> q_allocated (queue r i) \<and> q_tr_ready (queue r i) \<and>
     held i r = Some ({Cm_id} \<union> ib_res (q_queue_size (queue r i))) \<and>
     q_device (queue r i) \<noteq> None"

lemma alloc_queue_resolve_result:
  assumes i: "i < length (r_queues r)" and idle: "queue_idle i r" and d: "r_devs r = ds"
    and c: "alloc_queue_resolve e i n r = (ret, r')"
  shows "queue_frame i r r' \<and> q_queue_size (queue r' i) = n \<and>
    \<not> q_allocated (queue r' i) \<and> \<not> q_live (queue r' i) \<and>
    (if ret = 0 then ib_absent i {Cm_id} ds r' \<and> phase_ok Cm_addr (queue r' i)
     else ib_absent i {} ds r')"
proof -
  define r0 where "r0 = upd_queue i (\<lambda>q. q\<lparr>q_cm_done := 0,
    q_cmnd_capsule_len := (if 0 < i then unat (c_ioccsz (r_ctrl r) * 16) else SIZEOF_NVME_COMMAND),
    q_queue_size := n\<rparr>) r"
  have r0: "i < length (r_queues r0)" "queue_frame i r r0" "ib_absent i {} ds r0"
    "q_queue_size (queue r0 i) = n" "\<not> q_allocated (queue r0 i)" "\<not> q_live (queue r0 i)"
    using i idle d by (simp_all add: r0_def queue_idle_def ib_absent_def)
  let ?k = "Rdma_create_id (qe_create_id e)"
  show ?thesis
  proof (cases "qe_create_id e = 0")
    case False
    with c have "r' = emits i [?k] r0 \<and> ret \<noteq> 0"
      by (auto simp: alloc_queue_resolve_def r0_def qemit_emits Let_def)
    with False r0 ib_absent_emits [OF r0(3), of "[?k]"] show ?thesis
      by (auto simp: take_res_def)
  next
    case True
    let ?a = "Rdma_resolve_addr (o_mask (c_opts (r_ctrl r)) AND NVMF_OPT_HOST_TRADDR \<noteq> 0) (qe_resolve_addr e)"
    define r1 where "r1 = emits i [?a] (set_cm_error i (- ETIMEDOUT) (emits i [?k] r0))"
    have r1: "i < length (r_queues r1)" "ib_absent i {Cm_id} ds r1" "queue_frame i r r1"
      "queue r1 i = (queue r0 i)\<lparr>q_cm_error := - ETIMEDOUT\<rparr>"
      using r0 True by (auto simp: r1_def ib_absent_def take_res_def use_res_def set_cm_error_def)
    have "(ret, r') = (qe_resolve_addr e, if qe_resolve_addr e = 0 then r1
        else nvme_rdma_destroy_queue_ib i (emits i [Rdma_destroy_id] r1))"
      using c True by (auto simp: alloc_queue_resolve_def r0_def r1_def qemit_emits Let_def set_cm_error_def split: if_splits)
    moreover have "ib_absent i {} ds (emits i [Rdma_destroy_id] r1)"
      using ib_absent_emits [OF r1(2), of "[Rdma_destroy_id]" "{}"] by (simp add: drop_res_def)
    ultimately show ?thesis
      using r0 r1 ib_absent_not_ready [OF r1(2)] by (auto simp: phase_ok_def)
  qed
qed

lemma destroy_after_id:
  assumes i: "i < length (r_queues r)" and st: "ib_state i de ds r"
    and ds: "devs_ok ds" "dev_env_ok de ds"
    and r': "r' = nvme_rdma_destroy_queue_ib i (emits i [Rdma_destroy_id] r)"
  shows "ib_absent i {} ds r' \<and> ib_step i r r'"
proof (cases "q_tr_ready (queue r i)")
  case True
  with st have "ib_created i {} de ds (emits i [Rdma_destroy_id] r)"
    by (auto simp: ib_state_def ib_created_def drop_res_def ib_res_def)
  from destroy_created [OF _ this _ ds] i r' show ?thesis
    by (auto intro: ib_step_trans [of _ _ "emits i [Rdma_destroy_id] r"])
next
  case False
  with st have "ib_absent i {} ds (emits i [Rdma_destroy_id] r)"
    by (auto simp: ib_state_def ib_absent_def drop_res_def)
  with r' show ?thesis by simp
qed

lemma wait_for_cm_fields:
  assumes "i < length (r_queues r)" and "nvme_rdma_wait_for_cm w i r = (ret, r')"
  shows "cm_frame i r r' \<and> ib_state i de ds r' = ib_state i de ds r \<and>
    q_cm_error (queue r' i) = q_cm_error (queue r i) \<and> (ret = 0 \<longrightarrow> q_cm_error (queue r i) = 0) \<and>
    q_tr_ready (queue r' i) = q_tr_ready (queue r i)"
proof -
  define r1 where "r1 = upd_queue i (\<lambda>q. q\<lparr>q_cm_done := q_cm_done q - 1\<rparr>) r"
  have r1: "queue r1 i = (queue r i)\<lparr>q_cm_done := q_cm_done (queue r i) - 1\<rparr>" "cm_frame i r r1"
    "ib_state i de ds r1 = ib_state i de ds r"
    using assms(1) by (simp_all add: r1_def cm_frame_def ib_state_def ib_created_def ib_absent_def)
  have "r' = r \<and> ret \<noteq> 0 \<or> (r' = r1 \<or> r' = emit Warn_once r1) \<and> ret = q_cm_error (queue r1 i)"
    using assms by (auto simp: nvme_rdma_wait_for_cm_def Let_def r1_def split: if_splits)
  with r1 show ?thesis
    by (auto simp: cm_frame_emit ib_state_emit)
qed

lemma alloc_queue_result:
  assumes i: "i < length (r_queues r)" and idle: "queue_idle i r"
    and ds: "devs_ok (r_devs r)" "dev_env_ok (qe_dev e) (r_devs r)"
    and evs: "cm_events_ok e i (qe_events e) Cm_addr (snd (alloc_queue_resolve e i n r))"
    and c: "nvme_rdma_alloc_queue e i n r = (ret, r')"
  shows "queue_frame i r r' \<and>
    (if ret = 0 then queue_up i r' \<and> \<not> q_live (queue r' i) \<and> q_queue_size (queue r' i) = n \<and>
       (\<exists>a. q_device (queue r' i) = Some a \<and> nvme_rdma_find_get_device (qe_dev e) (r_devs r) = (Some a, r_devs r'))
     else queue_idle i r' \<and> r_devs r' = r_devs r)"
proof -
  obtain ret1 r1 where c1: "alloc_queue_resolve e i n r = (ret1, r1)" by fastforce
  note r1 = alloc_queue_resolve_result [OF i idle refl c1]
  show ?thesis
  proof (cases "ret1 = 0")
    case False
    with c c1 r1 show ?thesis by (auto simp: nvme_rdma_alloc_queue_def queue_idle_def ib_absent_def)
  next
    case True
    with r1 i have i1: "i < length (r_queues r1)" and st1: "ib_state i (qe_dev e) (r_devs r) r1"
      and p1: "phase_ok Cm_addr (queue r1 i)"
      by (auto simp: queue_frame_length ib_absent_state)
    define r2 where "r2 = fold (nvme_rdma_cm_handler e i) (qe_events e) r1"
    from cm_events_result [OF i1 st1 p1 _ ds] evs c1 obtain p where r2: "cm_frame i r1 r2"
      "ib_state i (qe_dev e) (r_devs r) r2" "phase_ok p (queue r2 i)"
      by (auto simp: r2_def)
    with i1 have i2: "i < length (r_queues r2)" by (simp add: cm_frame_length)
    obtain ret3 r3 where c3: "nvme_rdma_wait_for_cm (qe_wait e) i r2 = (ret3, r3)" by fastforce
    note r3 = wait_for_cm_fields [OF i2 c3, of "qe_dev e" "r_devs r"]
    with i2 r2 have i3: "i < length (r_queues r3)" and st3: "ib_state i (qe_dev e) (r_devs r) r3"
      by (auto simp: cm_frame_length)
    have fr: "queue_frame i r r3" "q_queue_size (queue r3 i) = n" "\<not> q_allocated (queue r3 i)" "\<not> q_live (queue r3 i)"
      using r1 r2 r3 by (auto simp: cm_frame_def intro: queue_frame_trans)
    show ?thesis
    proof (cases "ret3 = 0")
      case ok: True
      with r3 r2(3) have t: "q_tr_ready (queue r3 i)" by (auto simp: phase_ok_def)
      from c c1 c3 True ok have "ret = 0" "r' = upd_queue i (q_allocated_update (\<lambda>_. True)) r3"
        by (auto simp: nvme_rdma_alloc_queue_def r2_def)
      with t st3 fr i3 show ?thesis
        by (auto simp: queue_up_def ib_state_def ib_created_def)
    next
      case bad: False
      with c c1 c3 True have "ret \<noteq> 0" "r' = nvme_rdma_destroy_queue_ib i (emits i [Rdma_destroy_id] r3)"
        by (auto simp: nvme_rdma_alloc_queue_def r2_def qemit_emits)
      with destroy_after_id [OF i3 st3 ds] fr show ?thesis
        by (auto simp: queue_idle_def ib_absent_def ib_step_def queue_cfg_def intro: queue_frame_trans)
    qed
  qed
qed

lemma queue_frame_upd_left [simp]: "queue_frame i (upd_queue i f r) r' = queue_frame i r r'"
  by (simp add: queue_frame_def)

lemma destroy_up:
  assumes "i < length (r_queues r)" and "held i r = Some ({Cm_id} \<union> ib_res (q_queue_size (queue r i)))"
    and "q_tr_ready (queue r i)" and "q_device (queue r i) = Some a"
    and "r' = nvme_rdma_destroy_queue_ib i r"
  shows "held i r' = Some {Cm_id} \<and> queue_frame i r r' \<and>
    queue r' i = (queue r i)\<lparr>q_tr_ready := False\<rparr> \<and> r_devs r' = nvme_rdma_dev_put a (r_devs r)"
  using destroy_queue_ib_result [OF assms(1,3,2) _ assms(4,5)] by simp

text \<open>Freeing a queue releases everything it holds and its device reference; freed twice, nothing.\<close>

lemma free_queue_up:
  assumes i: "i < length (r_queues r)" and up: "queue_up i r" and a: "q_device (queue r i) = Some a"
  shows "held i (nvme_rdma_free_queue i r) = Some {} \<and> queue_frame i r (nvme_rdma_free_queue i r) \<and>
    queue (nvme_rdma_free_queue i r) i = (queue r i)\<lparr>q_allocated := False, q_tr_ready := False\<rparr> \<and>
    r_devs (nvme_rdma_free_queue i r) = nvme_rdma_dev_put a (r_devs r)"
proof -
  let ?r = "upd_queue i (q_allocated_update (\<lambda>_. False)) r"
  from destroy_up [of i ?r, OF _ _ _ _ refl, of a] i up a show ?thesis
    by (auto simp: nvme_rdma_free_queue_def queue_up_def qemit_emits drop_res_def)
qed

lemma free_queue_idle: "\<not> q_allocated (queue r i) \<Longrightarrow> nvme_rdma_free_queue i r = r"
  by (simp add: nvme_rdma_free_queue_def)

lemma stop_queue_live:
  assumes "i < length (r_queues r)" and "queue_up i r" and "q_live (queue r i)"
  shows "queue_up i (nvme_rdma_stop_queue i r) \<and> queue_frame i r (nvme_rdma_stop_queue i r) \<and>
    queue (nvme_rdma_stop_queue i r) i = (queue r i)\<lparr>q_live := False\<rparr> \<and>
    r_devs (nvme_rdma_stop_queue i r) = r_devs r"
  using assms
  by (auto simp: nvme_rdma_stop_queue_def do_stop_queue_def queue_up_def qemit_emits use_res_def ib_res_def)

lemma stop_queue_not_live: "\<not> q_live (queue r i) \<Longrightarrow> nvme_rdma_stop_queue i r = r"
  by (simp add: nvme_rdma_stop_queue_def)

lemma stop_queue_up:
  assumes "i < length (r_queues r)" and "queue_up i r"
  shows "queue_up i (nvme_rdma_stop_queue i r) \<and> queue_frame i r (nvme_rdma_stop_queue i r) \<and>
    queue (nvme_rdma_stop_queue i r) i = (queue r i)\<lparr>q_live := False\<rparr> \<and>
    r_devs (nvme_rdma_stop_queue i r) = r_devs r"
proof (cases "q_live (queue r i)")
  case True
  with stop_queue_live [OF assms] show ?thesis by simp
next
  case False
  with assms show ?thesis by (simp add: stop_queue_not_live)
qed

lemma start_queue_up:
  assumes "i < length (r_queues r)" and "queue_up i r" and "nvme_rdma_start_queue connect i r = (ret, r')"
  shows "ret = connect i \<and> queue_up i r' \<and> queue_frame i r r' \<and> r_devs r' = r_devs r \<and>
    queue r' i = (if ret = 0 then (queue r i)\<lparr>q_live := True\<rparr> else queue r i)"
  using assms
  by (auto simp: nvme_rdma_start_queue_def do_stop_queue_def queue_up_def qemit_emits use_res_def ib_res_def
      Let_def split: if_splits)

section \<open>A concrete controller\<close>

definition opts0 :: nvmf_ctrl_options where
  "opts0 = \<lparr>o_mask = 0, o_transport = Some ''rdma'', o_subsysnqn = Some ''nqn.test'', o_traddr = Some ''10.0.0.1'',
     o_trsvcid = None, o_host_traddr = None, o_queue_size = 128, o_nr_io_queues = 2,
     o_reconnect_delay = 10, o_discovery_nqn = False, o_duplicate_connect = False, o_kato = 5,
     o_host = None, o_max_reconnects = 60, o_disable_sqflow = False,
     o_hdr_digest = False, o_data_digest = False, o_nr_write_queues = 0, o_nr_poll_queues = 0, o_tos = - 1\<rparr>"

definition queue0 :: rdma_queue where
  "queue0 = \<lparr>q_queue_size = 0, q_cmnd_capsule_len = 0, q_device = None, q_allocated = False,
     q_live = False, q_tr_ready = False, q_cm_error = 0, q_cm_done = 0\<rparr>"

definition rctrl0 :: "nat \<Rightarrow> nvme_rdma_ctrl" where
  "rctrl0 n = \<lparr>r_ctrl = nvme_init_ctrl opts0, r_queues = replicate n queue0, r_io_default = 0,
     r_io_read = 0, r_io_poll = 0, r_device = None, r_max_fr_pages = 0, r_use_inline_data = False,
     r_async_sqe = False, r_devs = []\<rparr>"

definition qenv0 :: queue_env where
  "qenv0 = \<lparr>qe_dev = \<lparr>de_node_guid = 7, de_kzalloc = Some 100, de_alloc_pd = True, de_mem_mgt_ext = True,
       de_max_send_sge = 30, de_register_always = True\<rparr>,
     qe_create_id = 0, qe_resolve_addr = 0, qe_alloc_cq = 0, qe_create_qp = 0, qe_kcalloc_ring = True,
     qe_kzalloc = (\<lambda>_. True), qe_dma_map = (\<lambda>_. True), qe_max_fast_reg = 256, qe_mr_pool_init = 0,
     qe_resolve_route = 0, qe_connect = 0, qe_post_recv = (\<lambda>_. 0),
     qe_events = [ADDR_RESOLVED, ROUTE_RESOLVED, ESTABLISHED], qe_wait = 10\<rparr>"


lemmas queue_defs = alloc_queue_resolve_def nvme_rdma_alloc_queue_def nvme_rdma_wait_for_cm_def
  nvme_rdma_cm_handler_def cm_event_action_def nvme_rdma_addr_resolved_def nvme_rdma_route_resolved_def
  nvme_rdma_conn_established_def nvme_rdma_create_queue_ib_def nvme_rdma_find_get_device_def
  nvme_rdma_create_qp_def device_of_def nvme_rdma_alloc_ring_def nvme_rdma_alloc_qe_def
  nvme_rdma_poll_queue_def nvme_rdma_post_recv_def connect_params_def set_cm_error_def complete_cm_def
  upd_queue_def emit_def call_def cm_step_def

section \<open>Properties\<close>

text \<open>C2. Allocating a queue is all or nothing: whatever the kernel answers and whatever legal sequence
  of connection manager events arrives, success leaves the queue holding its full set of kernel
  objects and one more device reference; every failure leaves it holding nothing, the device list
  as it was, and no call breaks the verbs contract (double release, release out of order).\<close>

theorem alloc_queue_all_or_nothing:
  assumes "i < length (r_queues r)" and "queue_idle i r"
    and "devs_ok (r_devs r)" and "dev_env_ok (qe_dev e) (r_devs r)"
    and "cm_events_ok e i (qe_events e) Cm_addr (snd (alloc_queue_resolve e i n r))"
  shows "let (ret, r') = nvme_rdma_alloc_queue e i n r
    in queue_frame i r r' \<and>
      (if ret = 0
       then queue_up i r' \<and> q_queue_size (queue r' i) = n \<and>
         (\<forall>b. refs (r_devs r') b = refs (r_devs r) b + (if Some b = q_device (queue r' i) then 1 else 0))
       else queue_idle i r' \<and> r_devs r' = r_devs r)"
proof (cases "nvme_rdma_alloc_queue e i n r")
  case (Pair ret r')
  from alloc_queue_result [OF assms Pair] find_get_device_refs [OF assms(3,4)] show ?thesis
    unfolding Pair by auto
qed

lemmas example_defs = queue_defs rctrl0_def queue0_def qenv0_def nvme_init_ctrl_def opts0_def Let_def

lemma rctrl0_ready:
  "queue_idle 0 (rctrl0 1)" "0 < length (r_queues (rctrl0 1))" "devs_ok (r_devs (rctrl0 1))"
  "dev_env_ok (qe_dev qenv0) (r_devs (rctrl0 1))"
  by (simp_all add: queue_idle_def rctrl0_def queue0_def held_def queue_calls_def nvme_init_ctrl_def
      devs_ok_def dev_env_ok_def qenv0_def)

lemma rctrl0_events:
  "cm_events_ok qenv0 0 (qe_events qenv0) Cm_addr (snd (alloc_queue_resolve qenv0 0 2 (rctrl0 1)))"
  by (simp add: example_defs numeral_2_eq_2)

lemma rctrl0_alloc: "fst (nvme_rdma_alloc_queue qenv0 0 2 (rctrl0 1)) = 0"
  by (simp add: example_defs numeral_2_eq_2)

theorem alloc_queue_all_or_nothing_witness:
  "queue_up 0 (snd (nvme_rdma_alloc_queue qenv0 0 2 (rctrl0 1)))"
  using alloc_queue_all_or_nothing [OF rctrl0_ready(2,1,3,4) rctrl0_events] rctrl0_alloc
  by (simp add: split_beta Let_def)

text \<open>Freeing an allocated queue undoes the allocation: the queue holds nothing again and the
  device list is exactly what it was before; freeing it a second time does nothing.\<close>

theorem alloc_free_queue_roundtrip:
  assumes "i < length (r_queues r)" and "queue_idle i r"
    and "devs_ok (r_devs r)" and "dev_env_ok (qe_dev e) (r_devs r)"
    and "cm_events_ok e i (qe_events e) Cm_addr (snd (alloc_queue_resolve e i n r))"
    and "nvme_rdma_alloc_queue e i n r = (0, r')"
  shows "queue_idle i (nvme_rdma_free_queue i r') \<and>
    r_devs (nvme_rdma_free_queue i r') = r_devs r \<and>
    nvme_rdma_free_queue i (nvme_rdma_free_queue i r') = nvme_rdma_free_queue i r'"
proof -
  from alloc_queue_result [OF assms(1-6)] obtain a where up: "queue_up i r'" "\<not> q_live (queue r' i)"
    and fr: "queue_frame i r r'" and a: "q_device (queue r' i) = Some a"
    and d: "nvme_rdma_find_get_device (qe_dev e) (r_devs r) = (Some a, r_devs r')"
    by auto
  from fr assms(1) have i: "i < length (r_queues r')" by (simp add: queue_frame_def)
  from free_queue_up [OF i up(1) a] dev_get_put [OF assms(3,4) d] up(2) show ?thesis
    by (simp add: queue_idle_def free_queue_idle)
qed

theorem alloc_free_queue_roundtrip_witness:
  "r_devs (nvme_rdma_free_queue 0 (snd (nvme_rdma_alloc_queue qenv0 0 2 (rctrl0 1)))) = []"
  using alloc_free_queue_roundtrip [OF rctrl0_ready(2,1,3,4) rctrl0_events, of "snd (nvme_rdma_alloc_queue qenv0 0 2 (rctrl0 1))"]
    rctrl0_alloc
  by (simp add: prod_eq_iff) (simp add: rctrl0_def)

end
