(* ===== verification/Rdma_Metrics.thy ===== *)
theory Rdma_Metrics
  imports Nvme_Prelude
begin

text \<open>
  The netCAS monitor: the performance probes of \<open>host/rdma.c\<close> (the file-scope counters, the
  accounting part of \<open>nvme_rdma_complete_rq\<close> and the two sysfs \<open>show\<close> functions). The concrete
  state keeps the \<open>u64\<close> counters at their width; the abstract monitor keeps the window of
  samples itself, and the component is shown to implement it.
\<close>

section \<open>The counters\<close>

record metrics =
  total_bytes :: u64
  total_latency_ns :: u64
  total_latency_count :: u64
  last_print_time :: u64
  first_time :: bool
  last_throughput_mbps :: u64
  last_avg_latency_us :: u64

definition metrics_init :: metrics where
  "metrics_init =
     \<lparr>total_bytes = 0, total_latency_ns = 0, total_latency_count = 0, last_print_time = 0,
      first_time = True, last_throughput_mbps = 0, last_avg_latency_us = 0\<rparr>"

text \<open>
  \<open>ktime_t\<close> is a signed 64-bit count of nanoseconds; \<open>ktime_sub\<close> subtracts, \<open>ktime_to_ns\<close> is
  the identity, \<open>ktime_to_ms\<close> divides the signed value and truncates towards zero.
\<close>

definition ktime_sub :: "u64 \<Rightarrow> u64 \<Rightarrow> u64" where
  "ktime_sub a b = a - b"

definition ktime_to_ns :: "u64 \<Rightarrow> u64" where
  "ktime_to_ns k = k"

definition ktime_to_ms :: "u64 \<Rightarrow> u64" where
  "ktime_to_ms k = word_of_int (sint k sdiv 1000000)"

section \<open>Accounting of one completed request\<close>

text \<open>
  The body of \<open>nvme_rdma_complete_rq\<close> up to the release of the request: \<open>now\<close> is the
  \<open>ktime_get\<close> of the completion, \<open>start\<close> the \<open>start_time\<close> stored by \<open>nvme_rdma_queue_rq\<close>,
  \<open>bytes\<close> the payload. The second result is the line \<open>printk\<close> writes, if it writes one. The
  comparison with \<open>measure_interval\<close> is between an \<open>s64\<close> and a \<open>u64\<close>, so it is unsigned.
\<close>

definition rdma_account :: "u64 \<Rightarrow> u64 \<Rightarrow> u64 \<Rightarrow> metrics \<Rightarrow> metrics \<times> (u64 \<times> u64) option" where
  "rdma_account now start bytes m =
     (let measure_interval = 100;
          diff_ns = ktime_to_ns (ktime_sub now start);
          m = m\<lparr>total_latency_ns := total_latency_ns m + diff_ns,
                total_latency_count := total_latency_count m + 1\<rparr>;
          m = m\<lparr>total_bytes := total_bytes m + bytes\<rparr>
      in if first_time m then (m\<lparr>last_print_time := now, first_time := False\<rparr>, None)
         else if measure_interval \<le> ktime_to_ms (ktime_sub now (last_print_time m)) then
           (let mbps = total_bytes m div 1024 div 1024;
                avg_latency_us =
                  (if total_latency_count m \<noteq> 0
                   then (total_latency_ns m div total_latency_count m) div 1000 else 0)
            in (m\<lparr>last_throughput_mbps := mbps, last_avg_latency_us := avg_latency_us,
                   total_bytes := 0, total_latency_ns := 0, total_latency_count := 0,
                   last_print_time := now\<rparr>,
                Some (mbps, avg_latency_us)))
         else (m, None))"

text \<open>The sysfs attributes: \<open>sprintf(buf, "%llu\n", \<dots>)\<close> and its return value.\<close>

definition throughput_show :: "metrics \<Rightarrow> int \<times> string" where
  "throughput_show m =
     (let buf = dec_string (unat (last_throughput_mbps m)) @ [CHR 0x0A] in (int (length buf), buf))"

definition latency_show :: "metrics \<Rightarrow> int \<times> string" where
  "latency_show m =
     (let buf = dec_string (unat (last_avg_latency_us m)) @ [CHR 0x0A] in (int (length buf), buf))"

text \<open>A run of completions, each given by (now, start, bytes).\<close>

type_synonym sample = "u64 \<times> u64 \<times> u64"

definition account_step :: "sample \<Rightarrow> metrics \<Rightarrow> metrics \<times> (u64 \<times> u64) option" where
  "account_step s m = (case s of (now, start, bytes) \<Rightarrow> rdma_account now start bytes m)"

section \<open>The abstract monitor\<close>

text \<open>
  What the monitor is for: it cuts the stream of completions into windows and publishes, for each
  closed window, the bytes it moved in MiB and its mean latency. The open window is the list of
  its samples (latency in ns, bytes); \<open>w_start\<close> is when it opened, \<open>None\<close> before the first
  completion.
\<close>

record window =
  w_start :: "nat option"
  w_open :: "(nat \<times> nat) list"
  w_shown :: "nat \<times> nat"

definition window_init :: window where
  "window_init = \<lparr>w_start = None, w_open = [], w_shown = (0, 0)\<rparr>"

definition w_bytes :: "(nat \<times> nat) list \<Rightarrow> nat" where
  "w_bytes ss = sum_list (map snd ss)"

definition w_latency :: "(nat \<times> nat) list \<Rightarrow> nat" where
  "w_latency ss = sum_list (map fst ss)"

definition publish :: "(nat \<times> nat) list \<Rightarrow> nat \<times> nat" where
  "publish ss = (w_bytes ss div 2 ^ 20, w_latency ss div length ss div 1000)"

definition window_step :: "nat \<Rightarrow> nat \<Rightarrow> nat \<Rightarrow> window \<Rightarrow> window \<times> (nat \<times> nat) list option" where
  "window_step now latency bytes w =
     (let ss = w_open w @ [(latency, bytes)]
      in case w_start w of
           None \<Rightarrow> (w\<lparr>w_start := Some now, w_open := ss\<rparr>, None)
         | Some t \<Rightarrow>
             if 100000000 \<le> now - t
             then (w\<lparr>w_start := Some now, w_open := [], w_shown := publish ss\<rparr>, Some ss)
             else (w\<lparr>w_open := ss\<rparr>, None))"

definition sample_window :: "sample \<Rightarrow> window \<Rightarrow> window \<times> (nat \<times> nat) list option" where
  "sample_window s w =
     (case s of (now, start, bytes) \<Rightarrow> window_step (unat now) (unat now - unat start) (unat bytes) w)"

definition sample_abs :: "sample \<Rightarrow> nat \<times> nat" where
  "sample_abs s = (case s of (now, start, bytes) \<Rightarrow> (unat now - unat start, unat bytes))"

definition metrics_abs :: "metrics \<Rightarrow> window \<Rightarrow> bool" where
  "metrics_abs m w \<longleftrightarrow>
     unat (total_bytes m) = w_bytes (w_open w) \<and>
     unat (total_latency_ns m) = w_latency (w_open w) \<and>
     unat (total_latency_count m) = length (w_open w) \<and>
     (case w_start w of None \<Rightarrow> first_time m | Some t \<Rightarrow> \<not> first_time m \<and> unat (last_print_time m) = t) \<and>
     (unat (last_throughput_mbps m), unat (last_avg_latency_us m)) = w_shown w"

text \<open>
  The samples a window may see: times are non-negative \<open>ktime_t\<close> values, a request completes
  after it started and not before the window opened, and the window's sums fit the counters.
\<close>

definition sample_ok :: "window \<Rightarrow> sample \<Rightarrow> bool" where
  "sample_ok w s \<longleftrightarrow>
     (case s of (now, start, bytes) \<Rightarrow>
       unat now < 2 ^ 63 \<and> start \<le> now \<and>
       (case w_start w of None \<Rightarrow> True | Some t \<Rightarrow> t \<le> unat now) \<and>
       w_bytes (w_open w) + unat bytes < 2 ^ 64 \<and>
       w_latency (w_open w) + (unat now - unat start) < 2 ^ 64 \<and>
       length (w_open w) + 1 < 2 ^ 64)"

section \<open>Elapsed time\<close>

lemma ktime_to_ms_nonneg:
  assumes "unat k < 2 ^ 63"
  shows "unat (ktime_to_ms k) = unat k div 1000000"
proof -
  have "sint k sdiv 1000000 = int (unat k div 1000000)"
    using sint_small [OF assms] by (simp add: sdiv_nonneg zdiv_int)
  moreover have "unat (of_nat (unat k div 1000000) :: u64) = unat k div 1000000"
    by (rule le_unat_uoi) (rule div_le_dividend)
  ultimately show ?thesis
    by (simp only: ktime_to_ms_def of_int_of_nat_eq)
qed

lemma elapsed_iff:
  assumes "unat now < 2 ^ 63" and "t \<le> now"
  shows "100 \<le> ktime_to_ms (ktime_sub now t) \<longleftrightarrow> 100000000 \<le> unat now - unat t"
proof -
  have d: "unat (now - t) = unat now - unat t"
    using assms(2) by (rule unat_sub_le)
  then have "unat (now - t) < 2 ^ 63"
    using assms(1) by linarith
  then have "unat (ktime_to_ms (now - t)) = (unat now - unat t) div 1000000"
    by (simp add: ktime_to_ms_nonneg d)
  then show ?thesis
    by (simp add: ktime_sub_def word_le_nat_alt) linarith
qed

section \<open>The monitor implements the abstract monitor\<close>

lemma div_mib: "unat (w div 1024 div 1024 :: u64) = unat w div 2 ^ 20"
  by (simp add: unat_div div_mult2_eq [symmetric])

lemma w_bytes_snoc [simp]: "w_bytes (ss @ [(l, b)]) = w_bytes ss + b"
  by (simp add: w_bytes_def)

lemma w_latency_snoc [simp]: "w_latency (ss @ [(l, b)]) = w_latency ss + l"
  by (simp add: w_latency_def)

lemma w_empty [simp]: "w_bytes [] = 0" "w_latency [] = 0"
  by (simp_all add: w_bytes_def w_latency_def)

lemma metrics_abs_init: "metrics_abs metrics_init window_init"
  by (simp add: metrics_abs_def metrics_init_def window_init_def)

text \<open>The three counters after the sample is added, in every branch.\<close>

lemma counters_add:
  assumes "metrics_abs m w" and "sample_ok w (now, start, bytes)"
  shows "unat (total_bytes m + bytes) = w_bytes (w_open w) + unat bytes"
    and "unat (total_latency_ns m + (now - start)) = w_latency (w_open w) + (unat now - unat start)"
    and "unat (total_latency_count m + 1) = Suc (length (w_open w))"
proof -
  from assms(2) have le: "start \<le> now" by (simp add: sample_ok_def)
  note d = unat_sub_le [OF le]
  show "unat (total_bytes m + bytes) = w_bytes (w_open w) + unat bytes"
    using assms by (subst unat_add_bounded) (auto simp: metrics_abs_def sample_ok_def)
  show "unat (total_latency_ns m + (now - start)) = w_latency (w_open w) + (unat now - unat start)"
    using assms by (subst unat_add_bounded) (auto simp: metrics_abs_def sample_ok_def d)
  show "unat (total_latency_count m + 1) = Suc (length (w_open w))"
    using assms by (subst unat_add_bounded) (auto simp: metrics_abs_def sample_ok_def)
qed

text \<open>One completion: the driver's counters follow the abstract monitor, and so does its output.\<close>

lemma account_simulates:
  assumes abs: "metrics_abs m w" and ok: "sample_ok w (now, start, bytes)"
  shows "metrics_abs (fst (rdma_account now start bytes m)) (fst (sample_window (now, start, bytes) w))"
    and "map_option (map_prod unat unat) (snd (rdma_account now start bytes m)) =
         map_option publish (snd (sample_window (now, start, bytes) w))"
proof -
  note c = counters_add [OF abs ok]
  have n0: "total_latency_count m + 1 \<noteq> 0"
    using c(3) by auto
  have el: "100 \<le> ktime_to_ms (ktime_sub now (last_print_time m)) \<longleftrightarrow>
      100000000 \<le> unat now - unat (last_print_time m)" if "w_start w \<noteq> None"
    by (rule elapsed_iff) (use abs ok that in \<open>auto simp: metrics_abs_def sample_ok_def word_le_nat_alt\<close>)
  have avg: "unat ((total_latency_ns m + (now - start)) div (total_latency_count m + 1) div 1000) =
      (w_latency (w_open w) + (unat now - unat start)) div Suc (length (w_open w)) div 1000"
    by (simp add: unat_div c)
  have mib: "unat ((total_bytes m + bytes) div 1024 div 1024) =
      (w_bytes (w_open w) + unat bytes) div 2 ^ 20"
    by (simp only: div_mib c)
  show "metrics_abs (fst (rdma_account now start bytes m)) (fst (sample_window (now, start, bytes) w))"
    using abs c n0 el avg mib
    by (auto simp: metrics_abs_def rdma_account_def sample_window_def window_step_def Let_def
        publish_def ktime_to_ns_def ktime_sub_def split: option.splits)
  show "map_option (map_prod unat unat) (snd (rdma_account now start bytes m)) =
      map_option publish (snd (sample_window (now, start, bytes) w))"
    using abs c n0 el avg mib
    by (auto simp: metrics_abs_def rdma_account_def sample_window_def window_step_def Let_def
        publish_def ktime_to_ns_def ktime_sub_def split: option.splits)
qed

interpretation monitor: simulation account_step sample_window metrics_abs sample_ok
  "map_prod unat unat" publish
proof
  fix m w s
  assume "metrics_abs m w" and "sample_ok w s"
  then show "metrics_abs (fst (account_step s m)) (fst (sample_window s w))"
    and "map_option (map_prod unat unat) (snd (account_step s m)) =
      map_option publish (snd (sample_window s w))"
    by (cases s; simp add: account_step_def account_simulates)+
qed

section \<open>What the abstract monitor guarantees\<close>

text \<open>Every sample lands in exactly one window: closed windows and the open one, in order.\<close>

lemma window_run_partition:
  "concat (snd (run_steps sample_window xs w)) @ w_open (fst (run_steps sample_window xs w)) =
     w_open w @ map sample_abs xs"
proof (induction xs arbitrary: w)
  case Nil
  then show ?case by simp
next
  case (Cons s xs)
  obtain w' out where w': "sample_window s w = (w', out)" by fastforce
  then have "(case out of None \<Rightarrow> [] | Some win \<Rightarrow> win) @ w_open w' = w_open w @ [sample_abs s]"
    by (auto simp: sample_window_def window_step_def sample_abs_def Let_def
        split: prod.splits option.splits if_splits)
  with Cons.IH [of w'] show ?case
    by (auto simp: w' split: prod.splits option.splits)
qed

lemma window_run_closed:
  "win \<in> set (snd (run_steps sample_window xs w)) \<Longrightarrow> win \<noteq> []"
proof (induction xs arbitrary: w)
  case Nil
  then show ?case by simp
next
  case (Cons s xs)
  obtain w' out where w': "sample_window s w = (w', out)" by fastforce
  then have "out \<noteq> Some []"
    by (auto simp: sample_window_def window_step_def Let_def split: prod.splits option.splits if_splits)
  with Cons.prems Cons.IH [of w'] show ?case
    by (auto simp: w' split: prod.splits option.splits)
qed

lemma sum_list_bounds:
  fixes f :: "'a \<Rightarrow> nat"
  assumes "\<forall>x \<in> set xs. lo \<le> f x \<and> f x \<le> hi"
  shows "lo * length xs \<le> sum_list (map f xs) \<and> sum_list (map f xs) \<le> hi * length xs"
  using assms by (induction xs) auto

lemma mean_latency_bounds:
  assumes "ss \<noteq> []" and "\<forall>s \<in> set ss. lo \<le> fst s \<and> fst s \<le> hi"
  shows "lo div 1000 \<le> snd (publish ss) \<and> snd (publish ss) \<le> hi div 1000"
proof -
  have "lo * length ss \<le> w_latency ss" and "w_latency ss \<le> hi * length ss"
    using sum_list_bounds [of ss lo fst hi] assms(2) by (auto simp: w_latency_def)
  then have "lo \<le> w_latency ss div length ss" and "w_latency ss div length ss \<le> hi"
    using assms(1) by (simp_all add: less_eq_div_iff_mult_less_eq div_le_mono)
      (metis div_le_mono nonzero_mult_div_cancel_right length_0_conv)
  then show ?thesis
    by (simp add: publish_def div_le_mono)
qed

text \<open>The last window published is what sysfs shows.\<close>

lemma window_run_shown:
  "w_shown (fst (run_steps sample_window xs w)) =
     (if snd (run_steps sample_window xs w) = [] then w_shown w
      else publish (last (snd (run_steps sample_window xs w))))"
proof (induction xs arbitrary: w)
  case Nil
  then show ?case by simp
next
  case (Cons s xs)
  obtain w' out where w': "sample_window s w = (w', out)" by fastforce
  then have "w_shown w' = (case out of None \<Rightarrow> w_shown w | Some win \<Rightarrow> publish win)"
    by (auto simp: sample_window_def window_step_def Let_def split: prod.splits option.splits if_splits)
  with Cons.IH [of w'] show ?case
    by (auto simp: w' split: prod.splits option.splits)
qed

text \<open>
  Where the windows end: each at the first completion at least \<open>d\<close> nanoseconds after it opened, which
  opens the next one; \<open>t\<close> is when the first opened.
\<close>

definition s_time :: "sample \<Rightarrow> nat" where
  "s_time s = unat (fst s)"

fun windows_cut :: "nat \<Rightarrow> nat \<Rightarrow> sample list list \<Rightarrow> sample list \<Rightarrow> bool" where
  "windows_cut d t [] rest \<longleftrightarrow> (\<forall>s \<in> set rest. s_time s < t + d)"
| "windows_cut d t (win # wins) rest \<longleftrightarrow>
     win \<noteq> [] \<and> (\<forall>s \<in> set (butlast win). s_time s < t + d) \<and> t + d \<le> s_time (last win) \<and>
     windows_cut d (s_time (last win)) wins rest"

lemma window_run_cut:
  assumes "w_start w = Some t" and "w_open w = map sample_abs pre" and "\<forall>s \<in> set pre. s_time s < t + 100000000"
  shows "\<exists>wins rest. concat wins @ rest = pre @ xs \<and> windows_cut 100000000 t wins rest \<and>
    snd (run_steps sample_window xs w) = map (map sample_abs) wins \<and>
    w_open (fst (run_steps sample_window xs w)) = map sample_abs rest"
  using assms
proof (induction xs arbitrary: w t pre)
  case Nil
  then show ?case by (intro exI [of _ "[]"] exI [of _ pre]) simp
next
  case (Cons s xs)
  obtain w' out where w': "sample_window s w = (w', out)" by fastforce
  show ?case
  proof (cases "t + 100000000 \<le> s_time s")
    case True
    then have out: "out = Some (map sample_abs (pre @ [s]))" and new: "w_start w' = Some (s_time s)" "w_open w' = map sample_abs []"
      using w' Cons.prems(1,2)
      by (auto simp: sample_window_def window_step_def sample_abs_def s_time_def Let_def split: prod.splits if_splits)
    from Cons.IH [OF new] obtain wins rest where ih: "concat wins @ rest = xs" "windows_cut 100000000 (s_time s) wins rest"
      "snd (run_steps sample_window xs w') = map (map sample_abs) wins"
      "w_open (fst (run_steps sample_window xs w')) = map sample_abs rest" by auto
    with True Cons.prems(3) w' out show ?thesis
      by (intro exI [of _ "(pre @ [s]) # wins"] exI [of _ rest]) (auto simp: butlast_append split: prod.splits)
  next
    case False
    then have out: "out = None" and new: "w_start w' = Some t" "w_open w' = map sample_abs (pre @ [s])"
      using w' Cons.prems(1,2)
      by (auto simp: sample_window_def window_step_def sample_abs_def s_time_def Let_def split: prod.splits if_splits)
    have "\<forall>s \<in> set (pre @ [s]). s_time s < t + 100000000" using Cons.prems(3) False by auto
    from Cons.IH [OF new this] w' out show ?thesis by (simp split: prod.splits)
  qed
qed

lemma monitor_run_cut:
  "\<exists>wins rest. concat wins @ rest = xs \<and> (\<forall>s ys. xs = s # ys \<longrightarrow> windows_cut 100000000 (s_time s) wins rest) \<and>
    [] \<notin> set wins \<and>
    snd (run_steps sample_window xs window_init) = map (map sample_abs) wins \<and>
    w_open (fst (run_steps sample_window xs window_init)) = map sample_abs rest"
proof (cases xs)
  case Nil
  then show ?thesis by (intro exI [of _ "[]"]) (simp add: window_init_def)
next
  case (Cons s ys)
  obtain w' out where w': "sample_window s window_init = (w', out)" by fastforce
  then have out: "out = None" and new: "w_start w' = Some (s_time s)" "w_open w' = map sample_abs [s]"
    by (auto simp: sample_window_def window_step_def window_init_def sample_abs_def s_time_def Let_def split: prod.splits)
  from window_run_cut [OF new, of ys] obtain wins rest where r: "concat wins @ rest = xs"
    "windows_cut 100000000 (s_time s) wins rest" "snd (run_steps sample_window ys w') = map (map sample_abs) wins"
    "w_open (fst (run_steps sample_window ys w')) = map sample_abs rest" using Cons by auto
  have "[] \<notin> set wins" if "windows_cut d t wins rest" for d t
    using that by (induction wins arbitrary: t) auto
  with r Cons w' out show ?thesis by (intro exI [of _ wins] exI [of _ rest]) (auto split: prod.splits)
qed

section \<open>Properties\<close>

abbreviation monitor_run :: "sample list \<Rightarrow> metrics \<times> (u64 \<times> u64) list" where
  "monitor_run xs \<equiv> run_steps account_step xs metrics_init"

abbreviation monitor_ok :: "sample list \<Rightarrow> bool" where
  "monitor_ok xs \<equiv> run_guarded sample_window sample_ok xs window_init"

text \<open>C1. The monitor is a lossless windowed aggregator: for every sequence of completions the
  counters can hold, each timed after its start and not before the window it falls in opened
  (\<open>stale_clock_closes_window\<close> shows the other case), the completions are cut into consecutive windows, of which the first opens at the first
  completion, each closes with the first completion at least 100 ms after it opened, and the next opens
  then; each printed line is the MiB total and mean latency of its window, the counters hold exactly the
  completions of the window still open, and sysfs shows the last window closed.
\<close>

theorem monitor_windows:
  assumes "monitor_ok xs"
  shows "\<exists>wins rest. concat wins @ rest = xs \<and>
    (xs \<noteq> [] \<longrightarrow> windows_cut (100 * 1000000) (s_time (hd xs)) wins rest) \<and>
    map (map_prod unat unat) (snd (monitor_run xs)) = map (\<lambda>win. publish (map sample_abs win)) wins \<and>
    unat (total_bytes (fst (monitor_run xs))) = w_bytes (map sample_abs rest) \<and>
    unat (total_latency_ns (fst (monitor_run xs))) = w_latency (map sample_abs rest) \<and>
    unat (total_latency_count (fst (monitor_run xs))) = length rest \<and>
    (unat (last_throughput_mbps (fst (monitor_run xs))),
     unat (last_avg_latency_us (fst (monitor_run xs)))) =
      (if wins = [] then (0, 0) else publish (map sample_abs (last wins)))"
proof -
  let ?w = "fst (run_steps sample_window xs window_init)"
  from monitor_run_cut [of xs] obtain wins rest where c: "concat wins @ rest = xs"
    "\<forall>s ys. xs = s # ys \<longrightarrow> windows_cut 100000000 (s_time s) wins rest"
    "snd (run_steps sample_window xs window_init) = map (map sample_abs) wins" "w_open ?w = map sample_abs rest"
    by blast
  from monitor.run_simulates [OF metrics_abs_init assms]
  have rel: "metrics_abs (fst (monitor_run xs)) ?w"
    and out: "map (map_prod unat unat) (snd (monitor_run xs)) = map (\<lambda>win. publish (map sample_abs win)) wins"
    by (auto simp: c(3))
  have "w_shown ?w = (if wins = [] then (0, 0) else publish (map sample_abs (last wins)))"
    by (simp only: window_run_shown c(3)) (simp add: window_init_def last_map)
  moreover have "xs \<noteq> [] \<longrightarrow> windows_cut (100 * 1000000) (s_time (hd xs)) wins rest"
    using c(2) by (cases xs) simp_all
  ultimately show ?thesis
    using rel out c(1,4) by (intro exI [of _ wins] exI [of _ rest]) (simp add: metrics_abs_def)
qed

definition demo_samples :: "sample list" where
  "demo_samples =
     [(1000000000, 999980000, 4096), (1050000000, 1049900000, 209715200),
      (1100000000, 1099960000, 4096), (1101000000, 1100990000, 8192)]"

lemma demo_ok: "monitor_ok demo_samples"
  by (simp add: demo_samples_def sample_ok_def sample_window_def window_step_def window_init_def
      Let_def w_bytes_def w_latency_def word_le_nat_alt)

theorem monitor_windows_witness:
  "\<exists>wins rest. concat wins @ rest = demo_samples \<and> windows_cut 100000000 1000000000 wins rest \<and>
    map (map_prod unat unat) (snd (monitor_run demo_samples)) = map (\<lambda>win. publish (map sample_abs win)) wins \<and>
    unat (total_bytes (fst (monitor_run demo_samples))) = w_bytes (map sample_abs rest)"
proof -
  have "demo_samples \<noteq> []" "s_time (hd demo_samples) = 1000000000" by (simp_all add: demo_samples_def s_time_def)
  with monitor_windows [OF demo_ok] show ?thesis by auto
qed

text \<open>The published latency is a mean: if every request of a window took between \<open>lo\<close> and \<open>hi\<close>
  nanoseconds, so that all windows do, every printed latency lies between \<open>lo\<close> and \<open>hi\<close> in
  microseconds.
\<close>

theorem monitor_latency_mean:
  assumes "monitor_ok xs"
    and "\<forall>s \<in> set xs. lo \<le> fst (sample_abs s) \<and> fst (sample_abs s) \<le> hi"
    and "p \<in> set (snd (monitor_run xs))"
  shows "lo div 1000 \<le> unat (snd p) \<and> unat (snd p) \<le> hi div 1000"
proof -
  let ?wins = "snd (run_steps sample_window xs window_init)"
  have "map (map_prod unat unat) (snd (monitor_run xs)) = map publish ?wins"
    using monitor.run_simulates [OF metrics_abs_init assms(1)] by blast
  then have "map_prod unat unat p \<in> publish ` set ?wins"
    using assms(3) by (metis image_eqI list.set_map)
  then obtain win where win: "win \<in> set ?wins" and p: "map_prod unat unat p = publish win"
    by auto
  have "set win \<subseteq> set (concat ?wins @ w_open (fst (run_steps sample_window xs window_init)))"
    using win by auto
  then have "set win \<subseteq> sample_abs ` set xs"
    by (simp only: window_run_partition) (simp add: window_init_def)
  then have "\<forall>s \<in> set win. lo \<le> fst s \<and> fst s \<le> hi"
    using assms(2) by auto
  from mean_latency_bounds [OF window_run_closed [OF win] this] show ?thesis
    by (simp add: p [symmetric])
qed

theorem monitor_latency_mean_witness:
  "\<exists>p \<in> set (snd (monitor_run demo_samples)). 20 \<le> unat (snd p) \<and> unat (snd p) \<le> 100"
proof -
  have b: "\<forall>s \<in> set demo_samples. 10000 \<le> fst (sample_abs s) \<and> fst (sample_abs s) \<le> 100000"
    by (simp add: demo_samples_def sample_abs_def)
  have "(200, 53) \<in> set (snd (monitor_run demo_samples))"
    by code_simp
  from this monitor_latency_mean [OF demo_ok b this] show ?thesis
    by (intro bexI [of _ "(200, 53)"]) simp_all
qed

text \<open>The rate in MiB per second of a number of bytes moved in \<open>ms\<close> milliseconds.\<close>

definition rate_mib :: "nat \<Rightarrow> nat \<Rightarrow> nat" where
  "rate_mib bytes ms = bytes * 1000 div ms div 2 ^ 20"

lemma rate_mib_bounds:
  assumes "0 < ms"
  shows "bytes div 2 ^ 20 * 1000 div ms \<le> rate_mib bytes ms \<and>
    rate_mib bytes ms \<le> (bytes div 2 ^ 20 + 1) * 1000 div ms"
proof -
  have lo: "bytes div 2 ^ 20 * 1000 * 2 ^ 20 \<le> bytes * 1000"
    by (simp add: mult.commute mult.left_commute)
  have hi: "bytes * 1000 \<le> (bytes div 2 ^ 20 + 1) * 1000 * 2 ^ 20"
    using dividend_less_div_times [of "2 ^ 20" bytes] by simp
  have eq: "rate_mib bytes ms = bytes * 1000 div 2 ^ 20 div ms"
    by (simp add: rate_mib_def div_mult2_eq [symmetric] mult.commute)
  have "bytes div 2 ^ 20 * 1000 \<le> bytes * 1000 div 2 ^ 20"
    using lo by (simp add: less_eq_div_iff_mult_less_eq)
  moreover have "bytes * 1000 div 2 ^ 20 \<le> (bytes div 2 ^ 20 + 1) * 1000"
    using div_le_mono [OF hi, of "2 ^ 20"] by simp
  ultimately show ?thesis
    by (simp add: eq div_le_mono)
qed

text \<open>The number published as MB/s is the MiB total of the window, whatever the window's length:
  for a window of \<open>ms\<close> milliseconds the real rate is that number times \<open>1000 / ms\<close> (rounded), ten
  times more than shown when the window closes after exactly 100 ms.
\<close>

theorem throughput_is_window_total:
  assumes "\<not> first_time m" and "unat now < 2 ^ 63" and "last_print_time m \<le> now"
    and "unat (total_bytes m) + unat bytes < 2 ^ 64"
    and ms: "ms = (unat now - unat (last_print_time m)) div 1000000" and "100 \<le> ms"
  shows "\<exists>mbps avg. snd (rdma_account now start bytes m) = Some (mbps, avg) \<and>
    unat mbps = (unat (total_bytes m) + unat bytes) div 2 ^ 20 \<and>
    unat mbps * 1000 div ms \<le> rate_mib (unat (total_bytes m) + unat bytes) ms \<and>
    rate_mib (unat (total_bytes m) + unat bytes) ms \<le> (unat mbps + 1) * 1000 div ms"
proof -
  have el: "100 \<le> ktime_to_ms (ktime_sub now (last_print_time m))"
    using elapsed_iff [OF assms(2,3)] ms assms(6) by linarith
  have b: "unat ((total_bytes m + bytes) div 1024 div 1024) =
      (unat (total_bytes m) + unat bytes) div 2 ^ 20"
    using assms(4) by (simp only: div_mib) (simp add: unat_add_bounded)
  have "fst (the (snd (rdma_account now start bytes m))) = (total_bytes m + bytes) div 1024 div 1024"
    and "snd (rdma_account now start bytes m) \<noteq> None"
    using assms(1) el by (simp_all add: rdma_account_def Let_def)
  moreover have "0 < ms" using assms(6) by simp
  ultimately show ?thesis
    using b rate_mib_bounds [of ms "unat (total_bytes m) + unat bytes"]
    by (metis option.exhaust_sel prod.collapse)
qed

theorem throughput_is_window_total_witness:
  "\<exists>mbps avg. snd (rdma_account 1100000000 1099000000 (2 ^ 30)
      (metrics_init\<lparr>first_time := False, last_print_time := 1000000000\<rparr>)) = Some (mbps, avg) \<and>
    unat mbps = 1024 \<and> 10240 \<le> rate_mib (2 ^ 30) 100"
  using throughput_is_window_total
    [of "metrics_init\<lparr>first_time := False, last_print_time := 1000000000\<rparr>"
      1100000000 "2 ^ 30" 100 1099000000]
  by (auto simp: metrics_init_def word_le_nat_alt)

lemma ktime_to_ms_negative:
  assumes "unat a < 2 ^ 63" and "unat b < 2 ^ 63" and "unat a + 1000000 \<le> unat b"
  shows "100 \<le> ktime_to_ms (ktime_sub a b)"
proof -
  let ?q = "int ((unat b - unat a) div 1000000)"
  have q: "1 \<le> ?q" using assms(3) by linarith
  have "(unat b - unat a) div 1000000 < 2 ^ 63" using assms(2) by linarith
  then have q63: "?q < 2 ^ 63" by (rule int_less_pow)
  have "sint (a - b) = - int (unat b - unat a)"
    using sint_diff_small [OF assms(1,2)] assms(3) by simp
  then have "sint (a - b) sdiv 1000000 = - ?q"
    using q by (simp add: signed_divide_int_def zdiv_int del: of_nat_diff)
  then have "uint (ktime_to_ms (ktime_sub a b)) = (- ?q) mod 2 ^ 64"
    by (simp only: ktime_to_ms_def ktime_sub_def uint_word_of_int) simp
  also have "\<dots> = 2 ^ 64 - ?q"
    using q q63 by (simp only: zmod_zminus1_eq_if mod_pos_pos_trivial) simp
  finally have "uint (ktime_to_ms (ktime_sub a b)) = 2 ^ 64 - ?q" .
  moreover have "100 \<le> (2 ^ 64 - ?q)" using q63 by simp
  ultimately show ?thesis
    by (simp add: word_le_def)
qed

text \<open>\<open>ktime_to_ms\<close> is signed but compared as unsigned: a completion whose clock reading is a
  millisecond or more older than \<open>last_print_time\<close> (its \<open>ktime_get\<close> ran before another CPU closed
  the window) closes the window at once and moves \<open>last_print_time\<close> backwards.
\<close>

theorem stale_clock_closes_window:
  assumes "\<not> first_time m" and "unat (last_print_time m) < 2 ^ 63"
    and "unat now + 1000000 \<le> unat (last_print_time m)"
  shows "snd (rdma_account now start bytes m) \<noteq> None \<and>
    last_print_time (fst (rdma_account now start bytes m)) = now"
proof -
  have "100 \<le> ktime_to_ms (ktime_sub now (last_print_time m))"
    using assms(2,3) by (intro ktime_to_ms_negative) linarith+
  then show ?thesis
    using assms(1) by (simp add: rdma_account_def Let_def)
qed

theorem stale_clock_closes_window_witness:
  "last_print_time (fst (rdma_account 1000000000 999000000 4096
      (metrics_init\<lparr>first_time := False, last_print_time := 1001000000\<rparr>))) = 1000000000"
  using stale_clock_closes_window
    [of "metrics_init\<lparr>first_time := False, last_print_time := 1001000000\<rparr>" 1000000000 999000000 4096]
  by (simp add: metrics_init_def)

text \<open>The sysfs files round-trip: what \<open>throughput_show\<close> and \<open>latency_show\<close> write is the decimal
  numeral of the published value and a newline, reads back as that value, and its length (at most
  21 bytes, far below the page sysfs provides) is what they return.
\<close>

theorem sysfs_show_roundtrip:
  "dec_value (butlast (snd (throughput_show m))) = unat (last_throughput_mbps m) \<and>
   dec_value (butlast (snd (latency_show m))) = unat (last_avg_latency_us m) \<and>
   fst (throughput_show m) = int (length (snd (throughput_show m))) \<and>
   fst (latency_show m) = int (length (snd (latency_show m))) \<and>
   fst (throughput_show m) \<le> 21 \<and> fst (latency_show m) \<le> 21"
proof -
  have len: "length (dec_string (unat w)) \<le> 20" for w :: u64
  proof (rule length_dec_string)
    show "unat w < 10 ^ 20" using unsigned_less [of w, where ?'a = nat] by simp
  qed simp
  show ?thesis
    using len [of "last_throughput_mbps m"] len [of "last_avg_latency_us m"]
    by (simp add: throughput_show_def latency_show_def Let_def)
qed

end
