(* ===== verification/Rdma_Data.thy ===== *)
theory Rdma_Data
  imports Queue_Resources Fabrics_Host Rdma_Metrics
begin

text \<open>
  The data path of the RDMA transport (\<open>host/rdma.c\<close>): how a block layer request becomes a command
  capsule with a data descriptor, how its buffers are mapped and registered, and what is undone when a
  step fails. Everything a request takes from the RDMA core, the DMA layer and the allocator is recorded
  in its trace; \<open>io_step\<close> is the contract of those calls.
\<close>

section \<open>The request's private data\<close>

datatype dcall =
    Dma_map_sqe bool | Dma_unmap_sqe
  | Sg_alloc bool | Sg_free
  | Dma_map_sg nat | Dma_unmap_sg          \<comment> \<open>number of mapped segments\<close>
  | Mr_get bool | Mr_put
  | Take_payload | Cleanup_payload         \<comment> \<open>the range list of a discard\<close>
  | Post_send bool nat int                 \<comment> \<open>registration chained, number of SGEs, answer\<close>
  | Post_local_inv u32 int
  | End_request                            \<comment> \<open>\<open>blk_mq_complete_request\<close>\<close>

text \<open>
  \<open>struct nvme_rdma_request\<close>: \<open>rr_mr\<close> is the rkey of the memory region it owns, \<open>rr_sge\<close> the address,
  length and lkey of each scatter-gather element, \<open>rr_cmd\<close> the capsule behind \<open>sqe.data\<close>.
\<close>

record rdma_request =
  rr_start_time :: u64
  rr_mr :: "u32 option"
  rr_sqe_data :: bool
  rr_cmd :: nvme_command
  rr_result :: u64
  rr_status :: u16
  rr_ref :: int
  rr_sge :: "(u64 \<times> u32 \<times> u32) list"
  rr_num_sge :: nat
  rr_nents :: nat
  rr_reg_wr :: "u32 option"
  rr_queue :: nat
  rr_calls :: "dcall list"

text \<open>A tag: its block layer request, its namespace and the private data; and the discard page's flag.\<close>

record io_slot =
  s_rq :: request
  s_ns :: "nvme_ns option"
  s_rr :: rdma_request
  s_busy :: bool

definition dcall :: "dcall \<Rightarrow> io_slot \<Rightarrow> io_slot" where
  "dcall k s = s\<lparr>s_rr := (s_rr s)\<lparr>rr_calls := rr_calls (s_rr s) @ [k]\<rparr>\<rparr>"

text \<open>What the kernel and the RDMA core answer while a request's data is mapped.\<close>

record map_env =
  me_sg_alloc :: bool
  me_nents :: nat                  \<comment> \<open>\<open>blk_rq_map_sg\<close>\<close>
  me_dma :: "(u64 \<times> u32) list"     \<comment> \<open>segments \<open>ib_dma_map_sg\<close> made; none when it fails\<close>
  me_mr :: "u32 option"            \<comment> \<open>\<open>ib_mr_pool_get\<close>: a region with this rkey\<close>
  me_map_mr :: int                 \<comment> \<open>\<open>ib_map_mr_sg\<close>\<close>
  me_inc_rkey :: "u32 \<Rightarrow> u32"      \<comment> \<open>\<open>ib_inc_rkey\<close> and \<open>ib_update_fast_reg_key\<close>\<close>
  me_iova :: u64
  me_mr_length :: u32
  me_local_dma_lkey :: u32
  me_unsafe_global_rkey :: u32

record issue_env =
  ie_max_retries :: u8
  ie_path_error :: "blk_status \<Rightarrow> bool"
  ie_dying :: bool
  ie_sqe_map :: bool
  ie_alloc_range :: bool           \<comment> \<open>the range list of a discard can be allocated\<close>
  ie_now :: u64
  ie_map :: map_env
  ie_post :: int                   \<comment> \<open>\<open>ib_post_send\<close>\<close>
  ie_sqe_dma :: u64

section \<open>Set-up of a tag\<close>

text \<open>\<open>alloc\<close> says whether the capsule can be allocated; \<open>io_set\<close> which tag set is being filled.\<close>

definition nvme_rdma_init_request :: "bool \<Rightarrow> bool \<Rightarrow> nat \<Rightarrow> io_slot \<Rightarrow> int \<times> io_slot" where
  "nvme_rdma_init_request alloc io_set hctx_idx s =
     (let queue_idx = (if io_set then hctx_idx + 1 else 0);
          s = s\<lparr>s_rr := (s_rr s)\<lparr>rr_sqe_data := alloc\<rparr>\<rparr>
      in if \<not> alloc then (- ENOMEM, s)
         else (0, s\<lparr>s_rr := (s_rr s)\<lparr>rr_queue := queue_idx, rr_cmd := zero_command\<rparr>\<rparr>))"

definition nvme_rdma_exit_request :: "io_slot \<Rightarrow> io_slot" where
  "nvme_rdma_exit_request s = s\<lparr>s_rr := (s_rr s)\<lparr>rr_sqe_data := False\<rparr>\<rparr>"

text \<open>The queue a hardware context drives; \<open>None\<close> where \<open>BUG_ON\<close> stops the kernel.\<close>

definition nvme_rdma_init_hctx :: "nat \<Rightarrow> nvme_rdma_ctrl \<Rightarrow> nat option" where
  "nvme_rdma_init_hctx hctx_idx r =
     (if c_queue_count (r_ctrl r) \<le> hctx_idx then None else Some (hctx_idx + 1))"

definition nvme_rdma_init_admin_hctx :: "nat \<Rightarrow> nat option" where
  "nvme_rdma_init_admin_hctx hctx_idx = (if hctx_idx \<noteq> 0 then None else Some 0)"

section \<open>Data descriptors\<close>

definition put_unaligned_le24 :: "u32 \<Rightarrow> u8 list" where
  "put_unaligned_le24 val = [ucast val, ucast (drop_bit 8 val), ucast (drop_bit 16 val)]"

text \<open>The number the three bytes stand for.\<close>

definition le_value :: "u8 list \<Rightarrow> nat" where
  "le_value bs = foldr (\<lambda>b n. unat b + 256 * n) bs 0"

definition keyed :: "u64 \<Rightarrow> u32 \<Rightarrow> u32 \<Rightarrow> u8 \<Rightarrow> sgl_desc" where
  "keyed addr len key ty = Ksgl addr (le_value (put_unaligned_le24 len)) key ty"

definition set_dptr :: "sgl_desc \<Rightarrow> io_slot \<Rightarrow> io_slot" where
  "set_dptr d s = s\<lparr>s_rr := (s_rr s)\<lparr>rr_cmd := (rr_cmd (s_rr s))\<lparr>cm_dptr := d\<rparr>\<rparr>\<rparr>"

definition nvme_rdma_set_sg_null :: "io_slot \<Rightarrow> int \<times> io_slot" where
  "nvme_rdma_set_sg_null s = (0, set_dptr (keyed 0 0 0 (push_bit 4 NVME_KEY_SGL_FMT_DATA_DESC)) s)"

text \<open>\<open>size_t\<close> arithmetic: the room for data behind the command in a capsule.\<close>

definition nvme_rdma_inline_data_size :: "rdma_queue \<Rightarrow> u64" where
  "nvme_rdma_inline_data_size q = of_nat (q_cmnd_capsule_len q) - of_nat SIZEOF_NVME_COMMAND"

fun inline_sges :: "u32 \<Rightarrow> nat \<Rightarrow> (u64 \<times> u32) list \<Rightarrow> (u64 \<times> u32 \<times> u32) list \<Rightarrow> u32 \<Rightarrow>
    (u64 \<times> u32 \<times> u32) list \<times> u32" where
  "inline_sges lkey i [] sge len = (sge, len)"
| "inline_sges lkey i ((addr, l) # sgl) sge len =
     inline_sges lkey (Suc i) sgl (sge[i := (addr, l, lkey)]) (len + l)"

definition nvme_rdma_map_sg_inline :: "map_env \<Rightarrow> nvme_rdma_ctrl \<Rightarrow> io_slot \<Rightarrow> int \<times> io_slot" where
  "nvme_rdma_map_sg_inline e r s =
     (let (sge, len) = inline_sges (me_local_dma_lkey e) 1 (me_dma e) (rr_sge (s_rr s)) 0;
          s = s\<lparr>s_rr := (s_rr s)\<lparr>rr_sge := sge, rr_num_sge := rr_num_sge (s_rr s) + length (me_dma e)\<rparr>\<rparr>
      in (0, set_dptr (Sgl (ucast (c_icdoff (r_ctrl r))) len
                (push_bit 4 NVME_SGL_FMT_DATA_DESC OR NVME_SGL_FMT_OFFSET)) s))"

definition nvme_rdma_map_sg_single :: "map_env \<Rightarrow> io_slot \<Rightarrow> int \<times> io_slot" where
  "nvme_rdma_map_sg_single e s =
     (0, set_dptr (keyed (fst (hd (me_dma e))) (snd (hd (me_dma e))) (me_unsafe_global_rkey e)
            (push_bit 4 NVME_KEY_SGL_FMT_DATA_DESC)) s)"

definition nvme_rdma_map_sg_fr :: "map_env \<Rightarrow> io_slot \<Rightarrow> int \<times> io_slot" where
  "nvme_rdma_map_sg_fr e s =
     (let s = dcall (Mr_get (me_mr e \<noteq> None)) s
      in case me_mr e of
           None \<Rightarrow> (- EAGAIN, s\<lparr>s_rr := (s_rr s)\<lparr>rr_mr := None\<rparr>\<rparr>)
         | Some rkey \<Rightarrow>
             if me_map_mr e < int (length (me_dma e)) then
               (if me_map_mr e < 0 then me_map_mr e else - EINVAL,
                (dcall Mr_put s)\<lparr>s_rr := (s_rr (dcall Mr_put s))\<lparr>rr_mr := None\<rparr>\<rparr>)
             else
               let key = me_inc_rkey e rkey;
                   s = s\<lparr>s_rr := (s_rr s)\<lparr>rr_mr := Some key, rr_reg_wr := Some key\<rparr>\<rparr>
               in (0, set_dptr (keyed (me_iova e) (me_mr_length e) key
                         (push_bit 4 NVME_KEY_SGL_FMT_DATA_DESC OR NVME_SGL_FMT_INVALIDATE)) s))"

section \<open>Mapping the data\<close>

text \<open>\<open>blk_rq_nr_phys_segments\<close> and \<open>blk_rq_payload_bytes\<close>: a special payload is one segment of a page.\<close>

definition nr_phys_segments :: "request \<Rightarrow> nat" where
  "nr_phys_segments rq = (if rq_special rq \<noteq> None then 1 else rq_phys_segments rq)"

definition payload_bytes :: "request \<Rightarrow> u32" where
  "payload_bytes rq = (if rq_special rq \<noteq> None then 4096 else rq_payload_bytes rq)"

definition rq_is_write :: "request \<Rightarrow> bool" where
  "rq_is_write rq \<longleftrightarrow>
     rq_op rq \<in> {REQ_OP_WRITE, REQ_OP_DRV_OUT, REQ_OP_DISCARD, REQ_OP_WRITE_ZEROES}"

definition use_inline :: "nat \<Rightarrow> nvme_rdma_ctrl \<Rightarrow> request \<Rightarrow> bool" where
  "use_inline i r rq \<longleftrightarrow>
     rq_is_write rq \<and> i \<noteq> 0 \<and> r_use_inline_data r \<and>
     ucast (payload_bytes rq) \<le> nvme_rdma_inline_data_size (queue r i)"

definition inline_segments :: "nat \<Rightarrow> nvme_rdma_ctrl \<Rightarrow> int" where
  "inline_segments i r = (case device_of i r of None \<Rightarrow> 0 | Some d \<Rightarrow> d_num_inline_segments d)"

definition unsafe_rkey :: "nat \<Rightarrow> nvme_rdma_ctrl \<Rightarrow> bool" where
  "unsafe_rkey i r = (case device_of i r of None \<Rightarrow> False | Some d \<Rightarrow> d_unsafe_rkey d)"

definition map_sg :: "map_env \<Rightarrow> nat \<Rightarrow> nvme_rdma_ctrl \<Rightarrow> io_slot \<Rightarrow> int \<times> io_slot" where
  "map_sg e i r s =
     (if int (length (me_dma e)) \<le> inline_segments i r \<and> use_inline i r (s_rq s)
      then nvme_rdma_map_sg_inline e r s
      else if int (length (me_dma e)) \<le> inline_segments i r \<and> length (me_dma e) = 1 \<and> unsafe_rkey i r
      then nvme_rdma_map_sg_single e s
      else nvme_rdma_map_sg_fr e s)"

definition nvme_rdma_map_data :: "map_env \<Rightarrow> nat \<Rightarrow> nvme_rdma_ctrl \<Rightarrow> io_slot \<Rightarrow> int \<times> io_slot" where
  "nvme_rdma_map_data e i r s =
     (let cmd = rr_cmd (s_rr s);
          s = s\<lparr>s_rr := (s_rr s)\<lparr>rr_num_sge := 1, rr_ref := 2,
                 rr_cmd := cmd\<lparr>cm_flags := cm_flags cmd OR NVME_CMD_SGL_METABUF\<rparr>\<rparr>\<rparr>
      in if nr_phys_segments (s_rq s) = 0 then nvme_rdma_set_sg_null s
      else
        let s = dcall (Sg_alloc (me_sg_alloc e)) s
        in if \<not> me_sg_alloc e then (- ENOMEM, s)
        else
          let s = s\<lparr>s_rr := (s_rr s)\<lparr>rr_nents := me_nents e\<rparr>\<rparr>;
              s = dcall (Dma_map_sg (length (me_dma e))) s
          in if me_dma e = [] then (- EIO, dcall Sg_free s)
          else
            let (ret, s) = map_sg e i r s
            in if ret \<noteq> 0 then (ret, dcall Sg_free (dcall Dma_unmap_sg s)) else (0, s))"

text \<open>\<open>nvme_cleanup_cmd\<close> on the request, releasing its payload page where it has one.\<close>

definition cleanup_cmd :: "io_slot \<Rightarrow> io_slot" where
  "cleanup_cmd s =
     (let s = s\<lparr>s_busy := nvme_cleanup_cmd (s_busy s) (s_rq s)\<rparr>
      in if rq_special (s_rq s) \<noteq> None then dcall Cleanup_payload s else s)"

definition nvme_rdma_unmap_data :: "io_slot \<Rightarrow> io_slot" where
  "nvme_rdma_unmap_data s =
     (if nr_phys_segments (s_rq s) = 0 then s
      else
        let s = (if rr_mr (s_rr s) \<noteq> None
                 then (dcall Mr_put s)\<lparr>s_rr := (s_rr (dcall Mr_put s))\<lparr>rr_mr := None\<rparr>\<rparr> else s);
            s = dcall Dma_unmap_sg s;
            s = cleanup_cmd s
        in dcall Sg_free s)"

section \<open>Issuing a request\<close>

text \<open>The capsule is the first SGE; \<open>reg\<close> is the registration sent ahead of it.\<close>

definition nvme_rdma_post_send :: "issue_env \<Rightarrow> u32 option \<Rightarrow> io_slot \<Rightarrow> int \<times> io_slot" where
  "nvme_rdma_post_send e reg s =
     (let rr = s_rr s;
          s = s\<lparr>s_rr := rr\<lparr>rr_sge := (rr_sge rr)[0 := (ie_sqe_dma e, of_nat SIZEOF_NVME_COMMAND,
                                                       me_local_dma_lkey (ie_map e))]\<rparr>\<rparr>
      in (ie_post e, dcall (Post_send (reg \<noteq> None) (rr_num_sge rr) (ie_post e)) s))"

text \<open>The namespace is \<open>NULL\<close> on the admin queue, whose requests are all passthrough.\<close>

definition no_ns :: nvme_ns where
  "no_ns = \<lparr>n_ns_id = 0, n_lba_shift = 0, n_ms = 0, n_pi_type = 0, n_nr_streams = 0,
     n_deallocate_zeroes = False, n_crdt = []\<rparr>"

definition setup_cmd :: "issue_env \<Rightarrow> io_slot \<Rightarrow> blk_status \<times> io_slot" where
  "setup_cmd e s =
     (let ns = (case s_ns s of None \<Rightarrow> no_ns | Some n \<Rightarrow> n);
          (ret, busy, rq, cmd) = nvme_setup_cmd (ie_alloc_range e) ns (s_busy s) (s_rq s);
          s = s\<lparr>s_rq := rq, s_busy := busy, s_rr := (s_rr s)\<lparr>rr_cmd := cmd\<rparr>\<rparr>
      in (ret, if ret = BLK_STS_OK \<and> rq_special rq \<noteq> None then dcall Take_payload s else s))"

definition issue_status :: "int \<Rightarrow> blk_status" where
  "issue_status err = (if err = - ENOMEM \<or> err = - EAGAIN then BLK_STS_RESOURCE else BLK_STS_IOERR)"

text \<open>From the started request to the posted capsule; a failure leaves only the capsule's mapping.\<close>

definition map_and_post :: "issue_env \<Rightarrow> nat \<Rightarrow> nvme_rdma_ctrl \<Rightarrow> io_slot \<Rightarrow> int \<times> io_slot" where
  "map_and_post e i r s =
     (let s = s\<lparr>s_rr := (s_rr s)\<lparr>rr_start_time := ie_now e\<rparr>\<rparr>;
          (err, s) = nvme_rdma_map_data (ie_map e) i r s
      in if err < 0 then (err, cleanup_cmd s)
      else
        let reg = (if rr_mr (s_rr s) \<noteq> None then rr_reg_wr (s_rr s) else None);
            (err, s) = nvme_rdma_post_send e reg s
        in if err \<noteq> 0 then (err, nvme_rdma_unmap_data s) else (0, s))"

definition nvme_rdma_queue_rq ::
  "issue_env \<Rightarrow> nat \<Rightarrow> io_slot \<Rightarrow> nvme_rdma_ctrl \<Rightarrow> blk_status \<times> disposition option \<times> io_slot \<times> nvme_rdma_ctrl" where
  "nvme_rdma_queue_rq e i s r =
     (if \<not> nvmf_check_ready (r_ctrl r) (s_rq s) (q_live (queue r i)) then
        (case nvmf_fail_nonready_command (ie_max_retries e) (ie_path_error e) (ie_dying e) (s_ns s)
                (r_ctrl r) (s_rq s) of
           (sts, None) \<Rightarrow> (sts, None, s, r)
         | (sts, Some (d, rq, c)) \<Rightarrow> (sts, Some d, s\<lparr>s_rq := rq\<rparr>, r\<lparr>r_ctrl := c\<rparr>))
      else
        let s = dcall (Dma_map_sqe (ie_sqe_map e)) s
        in if \<not> ie_sqe_map e then (BLK_STS_RESOURCE, None, s, r)
        else
          let (ret, s) = setup_cmd e s
          in if ret \<noteq> BLK_STS_OK then (ret, None, dcall Dma_unmap_sqe s, r)
          else
            let (err, s) = map_and_post e i r s
            in if err \<noteq> 0 then (issue_status err, None, dcall Dma_unmap_sqe s, r)
            else (BLK_STS_OK, None, s, r))"

text \<open>
  The release part of \<open>nvme_rdma_complete_rq\<close>, after the accounting, and the completion by the core.
\<close>

definition nvme_rdma_complete_rq ::
  "u8 \<Rightarrow> (blk_status \<Rightarrow> bool) \<Rightarrow> bool \<Rightarrow> u64 \<Rightarrow> metrics \<Rightarrow> io_slot \<Rightarrow> nvme_rdma_ctrl \<Rightarrow>
   disposition \<times> metrics \<times> io_slot \<times> nvme_rdma_ctrl" where
  "nvme_rdma_complete_rq mx path_error dying now m s r =
     (let (m, _) = rdma_account now (rr_start_time (s_rr s)) (ucast (payload_bytes (s_rq s))) m;
          s = nvme_rdma_unmap_data s;
          s = dcall Dma_unmap_sqe s;
          (d, rq, c) = nvme_complete_rq mx path_error dying (s_ns s) (r_ctrl r) (s_rq s)
      in (d, m, s\<lparr>s_rq := rq\<rparr>, r\<lparr>r_ctrl := c\<rparr>))"

section \<open>What a request holds\<close>

datatype dres = Sqe_mapped | Sg_table | Sg_mapped | Mr_owned | Payload

fun io_step :: "dcall \<Rightarrow> dres set \<Rightarrow> dres set option" where
  "io_step (Dma_map_sqe ok) S = take_res ok Sqe_mapped True S"
| "io_step Dma_unmap_sqe S = drop_res Sqe_mapped True S"
| "io_step (Sg_alloc ok) S = take_res ok Sg_table True S"
| "io_step Sg_free S = drop_res Sg_table (Sg_mapped \<notin> S) S"
| "io_step (Dma_map_sg n) S = take_res (0 < n) Sg_mapped (Sg_table \<in> S) S"
| "io_step Dma_unmap_sg S = drop_res Sg_mapped (Mr_owned \<notin> S) S"
| "io_step (Mr_get ok) S = take_res ok Mr_owned (Sg_mapped \<in> S) S"
| "io_step Mr_put S = drop_res Mr_owned True S"
| "io_step Take_payload S = take_res True Payload True S"
| "io_step Cleanup_payload S = drop_res Payload True S"
| "io_step (Post_send reg n ret) S = use_res (Sqe_mapped \<in> S \<and> (reg \<longrightarrow> Mr_owned \<in> S)) S"
| "io_step (Post_local_inv key ret) S = use_res (Mr_owned \<in> S) S"
| "io_step End_request S = Some S"

definition io_held :: "io_slot \<Rightarrow> dres set option" where
  "io_held s = replay_by io_step (rr_calls (s_rr s)) {}"

text \<open>A discard, and a write-zeroes the controller wants as a discard, carries a payload page.\<close>

definition payload_op :: "io_slot \<Rightarrow> bool" where
  "payload_op s \<longleftrightarrow>
     rq_op (s_rq s) = REQ_OP_DISCARD \<or>
     rq_op (s_rq s) = REQ_OP_WRITE_ZEROES \<and> (case s_ns s of None \<Rightarrow> False | Some n \<Rightarrow> n_deallocate_zeroes n)"

text \<open>
  Between uses a tag holds nothing and owns no memory region; \<open>b\<close> is the state of the discard page as
  the other requests left it. In flight it holds its capsule and, when it has data, the mapped
  scatter-gather table, the region it registered and its payload page.
\<close>

definition slot_idle :: "bool \<Rightarrow> io_slot \<Rightarrow> bool" where
  "slot_idle b s \<longleftrightarrow>
     io_held s = Some {} \<and> rr_mr (s_rr s) = None \<and> s_busy s = b \<and>
     (rq_special (s_rq s) \<noteq> None \<longrightarrow> payload_op s)"

definition flight_res :: "io_slot \<Rightarrow> dres set" where
  "flight_res s =
     (if nr_phys_segments (s_rq s) = 0 then {Sqe_mapped}
      else {Sqe_mapped, Sg_table, Sg_mapped} \<union>
        (if rr_mr (s_rr s) \<noteq> None then {Mr_owned} else {}) \<union>
        (if rq_special (s_rq s) \<noteq> None then {Payload} else {}))"

definition slot_flying :: "bool \<Rightarrow> io_slot \<Rightarrow> bool" where
  "slot_flying b s \<longleftrightarrow>
     io_held s = Some (flight_res s) \<and> nvme_cleanup_cmd (s_busy s) (s_rq s) = b \<and>
     (rq_special (s_rq s) \<noteq> None \<longrightarrow> payload_op s) \<and>
     (rr_mr (s_rr s) \<noteq> None \<longrightarrow> nr_phys_segments (s_rq s) \<noteq> 0)"

lemma dcall_fields [simp]:
  "s_rq (dcall k s) = s_rq s"
  "s_ns (dcall k s) = s_ns s"
  "s_busy (dcall k s) = s_busy s"
  "rr_mr (s_rr (dcall k s)) = rr_mr (s_rr s)"
  "rr_reg_wr (s_rr (dcall k s)) = rr_reg_wr (s_rr s)"
  "rr_ref (s_rr (dcall k s)) = rr_ref (s_rr s)"
  "rr_num_sge (s_rr (dcall k s)) = rr_num_sge (s_rr s)"
  "rr_cmd (s_rr (dcall k s)) = rr_cmd (s_rr s)"
  "rr_sge (s_rr (dcall k s)) = rr_sge (s_rr s)"
  "rr_status (s_rr (dcall k s)) = rr_status (s_rr s)"
  "rr_result (s_rr (dcall k s)) = rr_result (s_rr s)"
  "payload_op (dcall k s) = payload_op s"
  by (simp_all add: dcall_def payload_op_def)

lemma io_held_dcall [simp]: "io_held (dcall k s) = Option.bind (io_held s) (io_step k)"
proof -
  have one: "replay_by io_step [k] = io_step k"
    by (simp add: fun_eq_iff split: Option.bind_splits)
  show ?thesis by (simp add: io_held_def dcall_def replay_by_append one)
qed

lemma io_held_frame: "rr_calls (s_rr s') = rr_calls (s_rr s) \<Longrightarrow> io_held s' = io_held s"
  by (simp add: io_held_def)

lemma io_held_upd [simp]:
  "io_held (s\<lparr>s_rq := rq\<rparr>) = io_held s"
  "io_held (s\<lparr>s_busy := b\<rparr>) = io_held s"
  "io_held (s\<lparr>s_rr := (s_rr s')\<lparr>rr_mr := mr\<rparr>\<rparr>) = io_held s'"
  "io_held (s\<lparr>s_rr := (s_rr s')\<lparr>rr_start_time := t\<rparr>\<rparr>) = io_held s'"
  "io_held (s\<lparr>s_rr := (s_rr s')\<lparr>rr_nents := n\<rparr>\<rparr>) = io_held s'"
  "io_held (s\<lparr>s_rr := (s_rr s')\<lparr>rr_sge := g\<rparr>\<rparr>) = io_held s'"
  "io_held (s\<lparr>s_rr := (s_rr s')\<lparr>rr_cmd := c\<rparr>\<rparr>) = io_held s'"
  "io_held (s\<lparr>s_rr := (s_rr s')\<lparr>rr_mr := mr, rr_reg_wr := w\<rparr>\<rparr>) = io_held s'"
  "io_held (s\<lparr>s_rr := (s_rr s')\<lparr>rr_cmd := c, rr_ref := k, rr_num_sge := n\<rparr>\<rparr>) = io_held s'"
  "io_held (s\<lparr>s_rr := (s_rr s')\<lparr>rr_sge := g, rr_num_sge := n\<rparr>\<rparr>) = io_held s'"
  by (simp_all add: io_held_def)

lemma io_held_set_dptr [simp]: "io_held (set_dptr d s) = io_held s"
  by (simp add: set_dptr_def)

lemma set_dptr_fields [simp]:
  "s_rq (set_dptr d s) = s_rq s" "s_ns (set_dptr d s) = s_ns s" "s_busy (set_dptr d s) = s_busy s"
  "rr_mr (s_rr (set_dptr d s)) = rr_mr (s_rr s)" "rr_reg_wr (s_rr (set_dptr d s)) = rr_reg_wr (s_rr s)"
  "rr_ref (s_rr (set_dptr d s)) = rr_ref (s_rr s)" "rr_num_sge (s_rr (set_dptr d s)) = rr_num_sge (s_rr s)"
  "rr_sge (s_rr (set_dptr d s)) = rr_sge (s_rr s)"
  "cm_dptr (rr_cmd (s_rr (set_dptr d s))) = d"
  by (simp_all add: set_dptr_def)

text \<open>The request and its namespace are the block layer's: mapping does not touch them.\<close>

definition same_rq :: "io_slot \<Rightarrow> io_slot \<Rightarrow> bool" where
  "same_rq s s' \<longleftrightarrow> s_rq s' = s_rq s \<and> s_ns s' = s_ns s \<and> s_busy s' = s_busy s"

lemma map_sg_fr_result:
  assumes e: "nvme_rdma_map_sg_fr e s = (ret, s')" and mr: "rr_mr (s_rr s) = None"
    and h: "io_held s = Some S" and S: "Sg_mapped \<in> S" "Mr_owned \<notin> S"
  shows "same_rq s s' \<and> (if ret = 0 then rr_mr (s_rr s') \<noteq> None \<and> io_held s' = Some (insert Mr_owned S)
    else rr_mr (s_rr s') = None \<and> io_held s' = Some S)"
  using assms
  by (auto simp: nvme_rdma_map_sg_fr_def Let_def same_rq_def take_res_def drop_res_def
      split: option.splits if_splits)

lemma map_sg_inline_result:
  assumes "nvme_rdma_map_sg_inline e r s = (ret, s')"
  shows "same_rq s s' \<and> ret = 0 \<and> rr_mr (s_rr s') = rr_mr (s_rr s) \<and> io_held s' = io_held s"
  using assms by (auto simp: nvme_rdma_map_sg_inline_def Let_def same_rq_def split_beta)

lemma map_sg_single_result:
  assumes "nvme_rdma_map_sg_single e s = (ret, s')"
  shows "same_rq s s' \<and> ret = 0 \<and> rr_mr (s_rr s') = rr_mr (s_rr s) \<and> io_held s' = io_held s"
  using assms by (auto simp: nvme_rdma_map_sg_single_def same_rq_def)

lemma map_sg_result:
  assumes e: "map_sg e i r s = (ret, s')" and mr: "rr_mr (s_rr s) = None"
    and h: "io_held s = Some S" and S: "Sg_mapped \<in> S" "Mr_owned \<notin> S"
  shows "same_rq s s' \<and> (ret \<noteq> 0 \<longrightarrow> rr_mr (s_rr s') = None) \<and>
    io_held s' = Some (if rr_mr (s_rr s') \<noteq> None then insert Mr_owned S else S)"
  using e[unfolded map_sg_def] map_sg_fr_result[OF _ mr h S, of e ret s'] map_sg_inline_result[of e r s ret s']
    map_sg_single_result[of e s ret s'] mr h
  by (auto split: if_splits)

lemma map_data_result:
  assumes e: "nvme_rdma_map_data e i r s = (ret, s')" and mr: "rr_mr (s_rr s) = None"
    and h: "io_held s = Some S" and S: "S \<subseteq> {Sqe_mapped, Payload}"
  shows "same_rq s s' \<and>
    (if ret \<noteq> 0 then rr_mr (s_rr s') = None \<and> io_held s' = Some S
     else (rr_mr (s_rr s') \<noteq> None \<longrightarrow> nr_phys_segments (s_rq s) \<noteq> 0) \<and>
       io_held s' = Some (if nr_phys_segments (s_rq s) = 0 then S
         else {Sg_table, Sg_mapped} \<union> (if rr_mr (s_rr s') \<noteq> None then {Mr_owned} else {}) \<union> S))"
proof -
  define s1 where "s1 = s\<lparr>s_rr := (s_rr s)\<lparr>rr_num_sge := 1, rr_ref := 2,
    rr_cmd := (rr_cmd (s_rr s))\<lparr>cm_flags := cm_flags (rr_cmd (s_rr s)) OR NVME_CMD_SGL_METABUF\<rparr>\<rparr>\<rparr>"
  have s1: "io_held s1 = Some S" "rr_mr (s_rr s1) = None" "same_rq s s1" "s_rq s1 = s_rq s"
    using h by (simp_all add: s1_def mr same_rq_def io_held_def)
  have out: "Sg_table \<notin> S" "Sg_mapped \<notin> S" "Mr_owned \<notin> S" using S by auto
  show ?thesis
  proof (cases "nr_phys_segments (s_rq s) = 0 \<or> \<not> me_sg_alloc e \<or> me_dma e = []")
    case True
    then show ?thesis
      using e s1 out unfolding nvme_rdma_map_data_def Let_def s1_def[symmetric]
      by (auto simp: nvme_rdma_set_sg_null_def same_rq_def take_res_def drop_res_def split: if_splits)
  next
    case False
    define s2 where "s2 = dcall (Dma_map_sg (length (me_dma e))) ((dcall (Sg_alloc True) s1)
      \<lparr>s_rr := (s_rr (dcall (Sg_alloc True) s1))\<lparr>rr_nents := me_nents e\<rparr>\<rparr>)"
    have s2: "io_held s2 = Some (insert Sg_mapped (insert Sg_table S))" "rr_mr (s_rr s2) = None" "same_rq s s2"
      using s1 out False by (auto simp: s2_def same_rq_def take_res_def)
    obtain ret1 s3 where m: "map_sg e i r s2 = (ret1, s3)" by fastforce
    have run: "(ret, s') = (if ret1 \<noteq> 0 then (ret1, dcall Sg_free (dcall Dma_unmap_sg s3)) else (0, s3))"
      using e False s1(4) unfolding nvme_rdma_map_data_def Let_def s1_def[symmetric]
      by (simp add: s2_def[symmetric] m)
    from map_sg_result[OF m s2(2,1)] out
    have res: "same_rq s2 s3" "ret1 \<noteq> 0 \<longrightarrow> rr_mr (s_rr s3) = None"
      "io_held s3 = Some (if rr_mr (s_rr s3) \<noteq> None then insert Mr_owned (insert Sg_mapped (insert Sg_table S))
         else insert Sg_mapped (insert Sg_table S))" by auto
    show ?thesis
      using run res s2(3) out False
      by (auto simp: same_rq_def drop_res_def split: if_splits)
  qed
qed

section \<open>Issuing and completing keep the books\<close>

lemma setup_cmd_payload:
  assumes e: "nvme_setup_cmd alloc ns busy req = (ret, busy', rq', cmd)"
    and ok: "rq_special req \<noteq> None \<longrightarrow>
      rq_op req = REQ_OP_DISCARD \<or> rq_op req = REQ_OP_WRITE_ZEROES \<and> n_deallocate_zeroes ns"
  shows "rq_op rq' = rq_op req \<and>
    (if ret = BLK_STS_OK then nvme_cleanup_cmd busy' rq' = busy else busy' = busy) \<and>
    (rq_special rq' \<noteq> None \<longrightarrow>
      rq_op req = REQ_OP_DISCARD \<or> rq_op req = REQ_OP_WRITE_ZEROES \<and> n_deallocate_zeroes ns)"
  using assms
  by (cases "rq_op req")
    (auto simp: nvme_setup_cmd_def nvme_setup_write_zeroes_def nvme_setup_discard_def nvme_clear_nvme_request_def
      nvme_cleanup_cmd_def Let_def split_beta split: if_splits option.splits special_page.splits)

lemma payload_op_upd [simp]:
  "payload_op (s\<lparr>s_busy := busy\<rparr>) = payload_op s" "payload_op (s\<lparr>s_rr := rr\<rparr>) = payload_op s"
  by (simp_all add: payload_op_def)

lemma cleanup_special: "rq_special rq = None \<Longrightarrow> nvme_cleanup_cmd busy rq = busy"
  by (simp add: nvme_cleanup_cmd_def)

lemma cleanup_cmd_fields [simp]:
  "s_rq (cleanup_cmd s) = s_rq s" "s_ns (cleanup_cmd s) = s_ns s"
  "rr_mr (s_rr (cleanup_cmd s)) = rr_mr (s_rr s)"
  "s_busy (cleanup_cmd s) = nvme_cleanup_cmd (s_busy s) (s_rq s)"
  "io_held (cleanup_cmd s) = (if rq_special (s_rq s) \<noteq> None
     then Option.bind (io_held s) (io_step Cleanup_payload) else io_held s)"
  by (simp_all add: cleanup_cmd_def Let_def)

lemma unmap_data_result:
  assumes "io_held s = Some (flight_res s)"
  shows "s_rq (nvme_rdma_unmap_data s) = s_rq s \<and> s_ns (nvme_rdma_unmap_data s) = s_ns s \<and>
    io_held (nvme_rdma_unmap_data s) = Some {Sqe_mapped} \<and>
    s_busy (nvme_rdma_unmap_data s) = nvme_cleanup_cmd (s_busy s) (s_rq s) \<and>
    (rr_mr (s_rr (nvme_rdma_unmap_data s)) \<noteq> None \<longrightarrow>
      nr_phys_segments (s_rq s) = 0 \<and> rr_mr (s_rr s) \<noteq> None)"
proof (cases "nr_phys_segments (s_rq s) = 0")
  case True
  then have "rq_special (s_rq s) = None" by (auto simp: nr_phys_segments_def split: if_splits)
  with True assms show ?thesis by (simp add: nvme_rdma_unmap_data_def flight_res_def cleanup_special)
next
  case False
  with assms show ?thesis
    by (auto simp: nvme_rdma_unmap_data_def flight_res_def Let_def drop_res_def insert_commute)
qed

lemma post_send_result:
  assumes "nvme_rdma_post_send e reg s = (ret, s')" and "io_held s = Some S" and "Sqe_mapped \<in> S"
    and "reg \<noteq> None \<longrightarrow> Mr_owned \<in> S"
  shows "ret = ie_post e \<and> same_rq s s' \<and> rr_mr (s_rr s') = rr_mr (s_rr s) \<and> io_held s' = Some S"
  using assms by (auto simp: nvme_rdma_post_send_def Let_def same_rq_def use_res_def)

lemma setup_cmd_result:
  assumes e: "setup_cmd e s = (ret, s')" and h: "io_held s = Some {Sqe_mapped}"
    and ok: "rq_special (s_rq s) \<noteq> None \<longrightarrow> payload_op s"
  shows "s_ns s' = s_ns s \<and> rr_mr (s_rr s') = rr_mr (s_rr s) \<and>
    (rq_special (s_rq s') \<noteq> None \<longrightarrow> payload_op s') \<and>
    (if ret = BLK_STS_OK
     then nvme_cleanup_cmd (s_busy s') (s_rq s') = s_busy s \<and>
       io_held s' = Some (if rq_special (s_rq s') \<noteq> None then {Sqe_mapped, Payload} else {Sqe_mapped})
     else s_busy s' = s_busy s \<and> io_held s' = Some {Sqe_mapped})"
proof -
  define ns where "ns = (case s_ns s of None \<Rightarrow> no_ns | Some n \<Rightarrow> n)"
  obtain busy' rq' cmd where c: "nvme_setup_cmd (ie_alloc_range e) ns (s_busy s) (s_rq s) = (ret, busy', rq', cmd)"
    using e unfolding setup_cmd_def Let_def ns_def[symmetric] by (auto split: prod.splits)
  have po: "payload_op s = (rq_op (s_rq s) = REQ_OP_DISCARD \<or>
      rq_op (s_rq s) = REQ_OP_WRITE_ZEROES \<and> n_deallocate_zeroes ns)"
    by (auto simp: payload_op_def ns_def no_ns_def split: option.splits)
  note r = setup_cmd_payload[OF c ok[unfolded po]]
  have po': "payload_op (s\<lparr>s_rq := rq'\<rparr>) = payload_op s"
    using r by (simp add: payload_op_def)
  have hx: "io_held (s\<lparr>s_rq := rq', s_busy := b, s_rr := (s_rr s)\<lparr>rr_cmd := x\<rparr>\<rparr>) = io_held s" for b x
    by (simp add: io_held_def)
  define s1 where "s1 = s\<lparr>s_rq := rq', s_busy := busy', s_rr := (s_rr s)\<lparr>rr_cmd := cmd\<rparr>\<rparr>"
  have s1: "s_rq s1 = rq'" "s_ns s1 = s_ns s" "s_busy s1 = busy'" "rr_mr (s_rr s1) = rr_mr (s_rr s)"
    "io_held s1 = Some {Sqe_mapped}" "payload_op s1 = payload_op s"
    using h hx po' by (simp_all add: s1_def)
  have "s' = (if ret = BLK_STS_OK \<and> rq_special rq' \<noteq> None then dcall Take_payload s1 else s1)"
    using e unfolding setup_cmd_def Let_def ns_def[symmetric] c prod.case by (auto simp: s1_def)
  moreover have "io_held (dcall Take_payload s1) = Some {Sqe_mapped, Payload}"
    by (simp add: s1 take_res_def insert_commute)
  ultimately show ?thesis
    using r s1 po by (cases "ret = BLK_STS_OK"; cases "rq_special rq' = None") simp_all
qed

lemma map_and_post_result:
  assumes e: "map_and_post e i r s = (err, s')" and mr: "rr_mr (s_rr s) = None"
    and h: "io_held s = Some (if rq_special (s_rq s) \<noteq> None then {Sqe_mapped, Payload} else {Sqe_mapped})"
  shows "s_rq s' = s_rq s \<and> s_ns s' = s_ns s \<and>
    (if err = 0
     then s_busy s' = s_busy s \<and> io_held s' = Some (flight_res s') \<and>
       (rr_mr (s_rr s') \<noteq> None \<longrightarrow> nr_phys_segments (s_rq s') \<noteq> 0)
     else s_busy s' = nvme_cleanup_cmd (s_busy s) (s_rq s) \<and> io_held s' = Some {Sqe_mapped} \<and>
       rr_mr (s_rr s') = None)"
proof -
  define S where "S = (if rq_special (s_rq s) \<noteq> None then {Sqe_mapped, Payload} else {Sqe_mapped})"
  define s0 where "s0 = s\<lparr>s_rr := (s_rr s)\<lparr>rr_start_time := ie_now e\<rparr>\<rparr>"
  have s0: "s_rq s0 = s_rq s" "s_ns s0 = s_ns s" "s_busy s0 = s_busy s" "rr_mr (s_rr s0) = None" "io_held s0 = Some S"
    using h mr by (simp_all add: s0_def S_def)
  obtain ret s1 where m: "nvme_rdma_map_data (ie_map e) i r s0 = (ret, s1)" by fastforce
  have Ssub: "S \<subseteq> {Sqe_mapped, Payload}" by (simp add: S_def)
  note d = map_data_result[OF m s0(4,5) Ssub]
  have neg: "ret = 0 \<or> ret < 0"
    using m by (auto simp: nvme_rdma_map_data_def nvme_rdma_set_sg_null_def map_sg_def nvme_rdma_map_sg_fr_def
        nvme_rdma_map_sg_inline_def nvme_rdma_map_sg_single_def Let_def split_beta split: if_splits option.splits)
  show ?thesis
  proof (cases "ret = 0")
    case False
    then have run: "err = ret" "s' = cleanup_cmd s1"
      using e m neg unfolding map_and_post_def Let_def s0_def[symmetric] by (auto split: if_splits)
    with d False s0 show ?thesis by (auto simp: same_rq_def S_def drop_res_def)
  next
    case True
    define reg where "reg = (if rr_mr (s_rr s1) \<noteq> None then rr_reg_wr (s_rr s1) else None)"
    have sp: "nr_phys_segments (s_rq s) = 0 \<Longrightarrow> rq_special (s_rq s) = None"
      by (auto simp: nr_phys_segments_def split: if_splits)
    have fl: "io_held s1 = Some (flight_res s1)" "s_rq s1 = s_rq s" "s_ns s1 = s_ns s" "s_busy s1 = s_busy s"
      "rr_mr (s_rr s1) \<noteq> None \<longrightarrow> nr_phys_segments (s_rq s1) \<noteq> 0"
      using d True s0 sp by (auto simp: same_rq_def flight_res_def S_def)
    obtain err1 s2 where p: "nvme_rdma_post_send e reg s1 = (err1, s2)" by fastforce
    have "Sqe_mapped \<in> flight_res s1" "reg \<noteq> None \<longrightarrow> Mr_owned \<in> flight_res s1"
      using fl(5) by (auto simp: flight_res_def reg_def split: if_splits)
    note q = post_send_result[OF p fl(1) this]
    have fl2: "flight_res s2 = flight_res s1" using q by (simp add: flight_res_def same_rq_def)
    have run: "(err, s') = (if err1 \<noteq> 0 then (err1, nvme_rdma_unmap_data s2) else (0, s2))"
      using e m True p unfolding map_and_post_def Let_def s0_def[symmetric] reg_def[symmetric]
      by (simp add: reg_def)
    have "io_held s2 = Some (flight_res s2)" using q fl2 by simp
    from unmap_data_result[OF this] show ?thesis
      using run q fl fl2 by (auto simp: same_rq_def split: if_splits)
  qed
qed


text \<open>What the block layer sees of \<open>nvme_rdma_queue_rq\<close>: in flight, or given back to it.\<close>

definition started :: "blk_status \<times> disposition option \<times> io_slot \<times> nvme_rdma_ctrl \<Rightarrow> bool" where
  "started x \<longleftrightarrow> fst x = BLK_STS_OK \<and> fst (snd x) = None"

lemma complete_rq_request:
  "nvme_complete_rq mx path_error dying ns c req = (d, req', c') \<Longrightarrow>
    rq_op req' = rq_op req \<and> rq_special req' = rq_special req"
  by (auto simp: nvme_complete_rq_def nvme_retry_req_def Let_def split: if_splits)

lemma slot_idle_rq:
  assumes "slot_idle b s" and "rq_op rq = rq_op (s_rq s)" and "rq_special rq = rq_special (s_rq s)"
  shows "slot_idle b (s\<lparr>s_rq := rq\<rparr>)"
  using assms by (simp add: slot_idle_def payload_op_def)

lemma queue_rq_result:
  assumes e: "nvme_rdma_queue_rq e i s r = (sts, d, s', r')" and idle: "slot_idle b s"
  shows "if sts = BLK_STS_OK \<and> d = None then slot_flying b s' \<and> r' = r else slot_idle b s'"
proof (cases "nvmf_check_ready (r_ctrl r) (s_rq s) (q_live (queue r i))")
  case False
  have keep: "slot_idle b (s\<lparr>s_rq := rq\<rparr>)" if "nvmf_fail_nonready_command (ie_max_retries e)
      (ie_path_error e) (ie_dying e) (s_ns s) (r_ctrl r) (s_rq s) = (x, Some (y, rq, z))" for x y rq z
    using that idle slot_idle_rq complete_rq_request
    by (fastforce simp: nvmf_fail_nonready_command_def Let_def split: if_splits)
  have none: "x = BLK_STS_RESOURCE" if "nvmf_fail_nonready_command (ie_max_retries e)
      (ie_path_error e) (ie_dying e) (s_ns s) (r_ctrl r) (s_rq s) = (x, None)" for x
    using that by (auto simp: nvmf_fail_nonready_command_def Let_def split: if_splits)
  show ?thesis
    using e False idle keep none by (auto simp: nvme_rdma_queue_rq_def split: prod.splits option.splits)
next
  case True
  define s1 where "s1 = dcall (Dma_map_sqe (ie_sqe_map e)) s"
  have s1: "s_rq s1 = s_rq s" "s_ns s1 = s_ns s" "s_busy s1 = b" "rr_mr (s_rr s1) = None"
      "rq_special (s_rq s) \<noteq> None \<longrightarrow> payload_op s1"
      "io_held s1 = Some (if ie_sqe_map e then {Sqe_mapped} else {})"
    using idle by (auto simp: s1_def slot_idle_def take_res_def)
  show ?thesis
  proof (cases "ie_sqe_map e")
    case False
    then show ?thesis
      using e True s1 unfolding nvme_rdma_queue_rq_def Let_def s1_def[symmetric] by (auto simp: slot_idle_def)
  next
    case sqe: True
    obtain ret s2 where c: "setup_cmd e s1 = (ret, s2)" by fastforce
    have h1: "io_held s1 = Some {Sqe_mapped}" and sp1: "rq_special (s_rq s1) \<noteq> None \<longrightarrow> payload_op s1"
      using s1 sqe by auto
    note r2 = setup_cmd_result[OF c h1 sp1]
    show ?thesis
    proof (cases "ret = BLK_STS_OK")
      case False
      then show ?thesis
        using e True sqe c r2 s1 unfolding nvme_rdma_queue_rq_def Let_def s1_def[symmetric]
        by (auto simp: slot_idle_def drop_res_def)
    next
      case ok: True
      obtain err s3 where m: "map_and_post e i r s2 = (err, s3)" by fastforce
      have "rr_mr (s_rr s2) = None"
        "io_held s2 = Some (if rq_special (s_rq s2) \<noteq> None then {Sqe_mapped, Payload} else {Sqe_mapped})"
        using r2 ok s1 by auto
      note r3 = map_and_post_result[OF m this]
      have run: "(sts, d, s', r') = (if err \<noteq> 0 then (issue_status err, None, dcall Dma_unmap_sqe s3, r)
          else (BLK_STS_OK, None, s3, r))"
        using e True sqe c m ok unfolding nvme_rdma_queue_rq_def Let_def s1_def[symmetric] by simp
      have bad: "issue_status err \<noteq> BLK_STS_OK" by (simp add: issue_status_def)
      have po: "payload_op s3 = payload_op s2" "payload_op (dcall Dma_unmap_sqe s3) = payload_op s2"
        using r3 by (simp_all add: payload_op_def)
      show ?thesis
        using run r2 r3 ok s1 bad po
        by (cases "err = 0") (auto simp: slot_flying_def slot_idle_def drop_res_def)
    qed
  qed
qed

lemma complete_rq_result:
  assumes fly: "slot_flying b s"
    and e: "nvme_rdma_complete_rq mx path_error dying now m s r = (d, m', s', r')"
  shows "slot_idle b s'"
proof -
  define s1 where "s1 = dcall Dma_unmap_sqe (nvme_rdma_unmap_data s)"
  have h: "io_held s = Some (flight_res s)" using fly by (simp add: slot_flying_def)
  note u = unmap_data_result[OF h]
  have s1: "slot_idle b s1"
    using u fly by (auto simp: s1_def slot_idle_def slot_flying_def payload_op_def drop_res_def)
  obtain d1 rq c where k: "nvme_complete_rq mx path_error dying (s_ns s1) (r_ctrl r) (s_rq s1) = (d1, rq, c)"
    by (metis prod_cases3)
  have "s' = s1\<lparr>s_rq := rq\<rparr>"
    using e k unfolding nvme_rdma_complete_rq_def Let_def s1_def[symmetric] by (simp add: split_beta)
  with complete_rq_request[OF k] show ?thesis using slot_idle_rq[OF s1] by simp
qed

section \<open>The contract with the block layer\<close>

text \<open>
  One use of a tag: a new request (or the requeued one), the answers while it is issued, the controller
  as it is then, and the status and result it is completed with.
\<close>

record tag_use =
  tu_new :: "(request \<times> nvme_ns option) option"
  tu_env :: issue_env
  tu_queue :: nat
  tu_ctrl :: nvme_rdma_ctrl
  tu_status :: u16
  tu_result :: u64
  tu_end_ctrl :: nvme_rdma_ctrl
  tu_end_now :: u64

definition tag_legal :: "tag_use \<Rightarrow> bool" where
  "tag_legal u \<longleftrightarrow> (case tu_new u of None \<Rightarrow> True | Some (rq, ns) \<Rightarrow> rq_special rq = None)"

definition tag_issue :: "tag_use \<Rightarrow> io_slot \<times> metrics \<Rightarrow> bool \<times> io_slot \<times> metrics" where
  "tag_issue u sm =
     (let (s, m) = sm;
          s = (case tu_new u of None \<Rightarrow> s | Some (rq, ns) \<Rightarrow> s\<lparr>s_rq := rq, s_ns := ns\<rparr>);
          (sts, d, s, r) = nvme_rdma_queue_rq (tu_env u) (tu_queue u) s (tu_ctrl u)
      in (sts = BLK_STS_OK \<and> d = None, s, m))"

definition tag_finish :: "tag_use \<Rightarrow> io_slot \<times> metrics \<Rightarrow> io_slot \<times> metrics" where
  "tag_finish u sm =
     (let (s, m) = sm;
          s = s\<lparr>s_rq := nvme_end_request (tu_status u) (tu_result u) (s_rq s)\<rparr>;
          e = tu_env u;
          (d, m, s, r) = nvme_rdma_complete_rq (ie_max_retries e) (ie_path_error e) (ie_dying e)
                           (tu_end_now u) m s (tu_end_ctrl u)
      in (s, m))"

lemma end_request_flying:
  "slot_flying b s \<Longrightarrow> slot_flying b (s\<lparr>s_rq := nvme_end_request st res (s_rq s)\<rparr>)"
  by (cases "rq_special (s_rq s)")
    (auto simp: slot_flying_def flight_res_def nvme_end_request_def nr_phys_segments_def payload_op_def
      nvme_cleanup_cmd_def)

interpretation tag: mq_driver tag_issue tag_finish tag_legal "\<lambda>sm. slot_idle b (fst sm)" "\<lambda>sm. slot_flying b (fst sm)"
  for b
proof unfold_locales
  fix u :: tag_use and sm :: "io_slot \<times> metrics"
  assume legal: "tag_legal u"
  obtain s m where sm: "sm = (s, m)" by fastforce
  show "slot_flying b (fst sm) \<Longrightarrow> slot_idle b (fst (tag_finish u sm))"
  proof -
    assume "slot_flying b (fst sm)"
    then have "slot_flying b (s\<lparr>s_rq := nvme_end_request (tu_status u) (tu_result u) (s_rq s)\<rparr>)"
      by (simp add: sm end_request_flying)
    then show ?thesis
      using complete_rq_result by (fastforce simp: tag_finish_def sm Let_def split: prod.splits)
  qed
  define s1 where "s1 = (case tu_new u of None \<Rightarrow> s | Some (rq, ns) \<Rightarrow> s\<lparr>s_rq := rq, s_ns := ns\<rparr>)"
  obtain sts d s2 r where q: "nvme_rdma_queue_rq (tu_env u) (tu_queue u) s1 (tu_ctrl u) = (sts, d, s2, r)"
    by (metis prod_cases4)
  have i: "tag_issue u sm = (sts = BLK_STS_OK \<and> d = None, s2, m)"
    by (simp add: tag_issue_def sm s1_def[symmetric] q)
  have idle: "slot_idle b (fst sm) \<Longrightarrow> slot_idle b s1"
    using legal by (auto simp: sm s1_def tag_legal_def slot_idle_def io_held_def split: option.splits prod.splits)
  show "slot_idle b (fst sm) \<Longrightarrow> fst (tag_issue u sm) \<Longrightarrow> slot_flying b (fst (snd (tag_issue u sm)))"
    using queue_rq_result[OF q idle] by (simp add: i)
  show "slot_idle b (fst sm) \<Longrightarrow> \<not> fst (tag_issue u sm) \<Longrightarrow> slot_idle b (fst (snd (tag_issue u sm)))"
    using queue_rq_result[OF q idle] by (simp add: i split: if_splits)
qed

section \<open>Properties\<close>

definition rq0 :: "req_op \<Rightarrow> nat \<Rightarrow> request" where
  "rq0 op segs =
     \<lparr>rq_op = op, rq_tag = 0, rq_pos = 8, rq_bytes = 4096, rq_bios = [(8, 4096)], rq_discard_segments = 1,
      rq_fua = False, rq_failfast_dev = False, rq_rahead = False, rq_mpath = False, rq_noretry = False,
      rq_integrity = False, rq_ref_tag = 0, rq_write_hint = 0, rq_passthrough = False,
      rq_phys_segments = segs, rq_payload_bytes = 4096, rq_dontprep = False, rq_special = None,
      rq_completed = False, nr_cmd = zero_command, nr_retries = 0, nr_usercmd = False, nr_status = 0,
      nr_result = 0\<rparr>"

definition rr0 :: rdma_request where
  "rr0 = \<lparr>rr_start_time = 0, rr_mr = None, rr_sqe_data = True, rr_cmd = zero_command, rr_result = 0,
     rr_status = 0, rr_ref = 0, rr_sge = replicate 5 (0, 0, 0), rr_num_sge = 0, rr_nents = 0,
     rr_reg_wr = None, rr_queue = 0, rr_calls = []\<rparr>"

definition ns0 :: nvme_ns where
  "ns0 = \<lparr>n_ns_id = 1, n_lba_shift = 12, n_ms = 0, n_pi_type = 0, n_nr_streams = 0,
     n_deallocate_zeroes = False, n_crdt = [0, 0, 0]\<rparr>"

definition slot0 :: "req_op \<Rightarrow> nat \<Rightarrow> io_slot" where
  "slot0 op segs = \<lparr>s_rq = rq0 op segs, s_ns = Some ns0, s_rr = rr0, s_busy = False\<rparr>"

definition mapenv0 :: map_env where
  "mapenv0 = \<lparr>me_sg_alloc = True, me_nents = 2, me_dma = [(0x1800, 2048), (0x8000, 2048)], me_mr = Some 0x100,
     me_map_mr = 2, me_inc_rkey = (\<lambda>k. k + 1), me_iova = 0x1800, me_mr_length = 4096,
     me_local_dma_lkey = 7, me_unsafe_global_rkey = 0\<rparr>"

definition issueenv0 :: issue_env where
  "issueenv0 = \<lparr>ie_max_retries = 5, ie_path_error = (\<lambda>_. False), ie_dying = False, ie_sqe_map = True,
     ie_alloc_range = True, ie_now = 100, ie_map = mapenv0, ie_post = 0, ie_sqe_dma = 0x2000\<rparr>"

text \<open>A live controller with one I/O queue, on a device that takes two inline segments.\<close>

definition rctrl_live :: nvme_rdma_ctrl where
  "rctrl_live = (rctrl0 2)
     \<lparr>r_ctrl := (nvme_init_ctrl opts0)\<lparr>c_state := NVME_CTRL_LIVE\<rparr>,
      r_queues := [queue0\<lparr>q_live := True, q_cmnd_capsule_len := 64, q_device := Some 1\<rparr>,
                   queue0\<lparr>q_live := True, q_cmnd_capsule_len := 4160, q_device := Some 1\<rparr>],
      r_use_inline_data := True,
      r_devs := [\<lparr>d_addr = 1, d_node_guid = 9, d_ref = 2, d_unsafe_rkey = False, d_num_inline_segments = 2\<rparr>]\<rparr>"

text \<open>C16. \<open>nvme_rdma_queue_rq\<close> on an idle tag takes all or nothing: when it reports the request started, the
  request holds its mapped capsule and, if it has data, the mapped scatter-gather table, the region it
  registered and the payload page of a discard; whatever step failed, when it gives the request back the
  tag holds nothing, owns no region, and the shared discard page is as it was.\<close>

theorem queue_rq_all_or_nothing:
  assumes "nvme_rdma_queue_rq e i s r = (sts, d, s', r')" and "slot_idle b s"
  shows "(if sts = BLK_STS_OK \<and> d = None
     then io_held s' = Some (flight_res s') \<and> nvme_cleanup_cmd (s_busy s') (s_rq s') = b \<and> r' = r
     else io_held s' = Some {} \<and> rr_mr (s_rr s') = None \<and> s_busy s' = b)"
  using queue_rq_result[OF assms]
  by (cases "sts = BLK_STS_OK \<and> d = None") (auto simp: slot_flying_def slot_idle_def)

text \<open>A tag never leaks: however often the block layer issues requests with it, new ones or requeued
  ones, whatever fails and in whatever state the controller is each time, the tag is idle again after
  each use, and the shared discard page as it was.\<close>

theorem tag_reuse_balanced:
  assumes "\<forall>u \<in> set us. tag_legal u" and "slot_idle b s"
  shows "slot_idle b (fst (mq_cycles tag_issue tag_finish us (s, m)))"
  using tag.cycles_idle[of us b "(s, m)"] assms by simp



lemmas slot_example_defs = slot0_def rq0_def rr0_def ns0_def mapenv0_def issueenv0_def rctrl_live_def rctrl0_def
  queue0_def nvme_init_ctrl_def slot_idle_def io_held_def

lemma example_fields [simp]:
  "s_rq (slot0 op segs) = rq0 op segs" "s_ns (slot0 op segs) = Some ns0" "s_rr (slot0 op segs) = rr0"
  "s_busy (slot0 op segs) = False" "rq_op (rq0 op segs) = op" "rq_special (rq0 op segs) = None"
  "rq_phys_segments (rq0 op segs) = segs" "rq_dontprep (rq0 op segs) = False"
  "n_ms ns0 = 0" "n_nr_streams ns0 = 0" "rr_mr rr0 = None"
  "ie_sqe_map issueenv0 = True" "ie_map issueenv0 = mapenv0" "ie_post issueenv0 = 0"
  "me_sg_alloc mapenv0 = True" "me_dma mapenv0 = [(0x1800, 2048), (0x8000, 2048)]" "me_mr mapenv0 = Some 0x100"
  "me_map_mr mapenv0 = 2" "c_state (r_ctrl rctrl_live) = NVME_CTRL_LIVE" "device_of 1 rctrl_live = dev_of (r_devs rctrl_live) 1"
  by (simp_all add: slot_example_defs device_of_def)

lemma setup_read0:
  assumes "s_rq s = rq0 REQ_OP_READ segs" and "s_ns s = Some ns0"
  shows "fst (setup_cmd e s) = BLK_STS_OK \<and> rq_op (s_rq (snd (setup_cmd e s))) = REQ_OP_READ \<and>
    rq_special (s_rq (snd (setup_cmd e s))) = None \<and>
    rq_phys_segments (s_rq (snd (setup_cmd e s))) = segs \<and> rr_mr (s_rr (snd (setup_cmd e s))) = rr_mr (s_rr s)"
  using assms
  by (simp add: setup_cmd_def nvme_setup_cmd_def nvme_clear_nvme_request_def nvme_setup_rw_def Let_def split_beta)

lemma map_read0:
  assumes "rq_op (s_rq s) = REQ_OP_READ" "rq_special (s_rq s) = None" "rq_phys_segments (s_rq s) = 2"
    and "ie_map e = mapenv0"
  shows "fst (map_and_post e i r s) = ie_post e"
  using assms
  by (simp add: map_and_post_def nvme_rdma_map_data_def nr_phys_segments_def map_sg_def use_inline_def
      rq_is_write_def nvme_rdma_map_sg_fr_def nvme_rdma_post_send_def Let_def split_beta)

lemma slot0_idle: "slot_idle False (slot0 op segs)"
  by (simp add: slot_example_defs)

theorem queue_rq_all_or_nothing_witness:
  "let (sts, d, s, r) = nvme_rdma_queue_rq (issueenv0\<lparr>ie_post := - ENOMEM\<rparr>) 1 (slot0 REQ_OP_READ 2) rctrl_live
   in sts = BLK_STS_RESOURCE \<and> io_held s = Some {}"
proof -
  let ?e = "issueenv0\<lparr>ie_post := - ENOMEM\<rparr>"
  obtain sts d s r where q: "nvme_rdma_queue_rq ?e 1 (slot0 REQ_OP_READ 2) rctrl_live = (sts, d, s, r)"
    by (metis prod_cases4)
  define s1 where "s1 = dcall (Dma_map_sqe True) (slot0 REQ_OP_READ 2)"
  have "s_rq s1 = rq0 REQ_OP_READ 2" "s_ns s1 = Some ns0" by (simp_all add: s1_def)
  note c = setup_read0[OF this, of ?e]
  with map_read0[of "snd (setup_cmd ?e s1)" ?e 1 rctrl_live]
  have m: "fst (map_and_post ?e 1 rctrl_live (snd (setup_cmd ?e s1))) = - ENOMEM" by simp
  have "sts = BLK_STS_RESOURCE"
    using q c m unfolding nvme_rdma_queue_rq_def Let_def
    by (simp add: nvmf_check_ready_def s1_def[symmetric] issue_status_def split_beta)
  with queue_rq_all_or_nothing[OF q slot0_idle] q show ?thesis by (simp add: Let_def)
qed

definition use0 :: tag_use where
  "use0 = \<lparr>tu_new = None, tu_env = issueenv0, tu_queue = 1, tu_ctrl = rctrl_live, tu_status = 0,
     tu_result = 0, tu_end_ctrl = rctrl_live, tu_end_now = 200\<rparr>"

theorem tag_reuse_balanced_witness:
  "slot_idle False (fst (mq_cycles tag_issue tag_finish [use0, use0] (slot0 REQ_OP_WRITE 2, metrics_init)))"
  by (rule tag_reuse_balanced) (simp_all add: use0_def tag_legal_def slot0_idle)

section \<open>Descriptors\<close>

lemma le24_value: "le_value (put_unaligned_le24 w) = unat w mod 2 ^ 24"
proof -
  have b: "unat (ucast (drop_bit n w) :: u8) = unat w div 2 ^ n mod 256" for n
    unfolding unsigned_ucast_eq unat_drop_bit_eq by (simp add: drop_bit_eq_div take_bit_eq_mod)
  have "le_value (put_unaligned_le24 w) =
      unat w mod 256 + 256 * (unat w div 2 ^ 8 mod 256 + 256 * (unat w div 2 ^ 16 mod 256))"
    using b [of 0] b [of 8] b [of 16] by (simp add: le_value_def put_unaligned_le24_def)
  also have "\<dots> = unat w mod 2 ^ 24"
  proof -
    have "unat w mod 2 ^ 24 = unat w mod (2 ^ 8 * 2 ^ 16)" by simp
    also have "\<dots> = 2 ^ 8 * (unat w div 2 ^ 8 mod 2 ^ 16) + unat w mod 2 ^ 8" by (rule mod_mult2_eq)
    also have "unat w div 2 ^ 8 mod 2 ^ 16 = unat w div 2 ^ 8 mod (2 ^ 8 * 2 ^ 8)" by simp
    also have "\<dots> = 2 ^ 8 * (unat w div 2 ^ 8 div 2 ^ 8 mod 2 ^ 8) + unat w div 2 ^ 8 mod 2 ^ 8"
      by (rule mod_mult2_eq)
    also have "unat w div 2 ^ 8 div 2 ^ 8 = unat w div 2 ^ 16" by (simp add: div_mult2_eq [symmetric])
    finally show ?thesis by simp
  qed
  finally show ?thesis .
qed

lemma inline_sges_result:
  assumes "inline_sges lkey i sgl sge len = (sge', len')" and "i + length sgl \<le> length sge"
  shows "length sge' = length sge \<and> len' = len + sum_list (map snd sgl) \<and>
    take i sge' = take i sge \<and>
    take (length sgl) (drop i sge') = map (\<lambda>(a, l). (a, l, lkey)) sgl"
  using assms
proof (induction sgl arbitrary: i sge len)
  case Nil
  then show ?case by simp
next
  case (Cons x sgl)
  obtain a l where x: "x = (a, l)" by fastforce
  from Cons.prems have run: "inline_sges lkey (Suc i) sgl (sge[i := (a, l, lkey)]) (len + l) = (sge', len')"
    and fit: "Suc i + length sgl \<le> length (sge[i := (a, l, lkey)])" by (simp_all add: x)
  note ih = Cons.IH[OF run fit]
  have "i < length sge'" using ih Cons.prems(2) by simp
  moreover have "take (Suc i) sge' = take i sge @ [(a, l, lkey)]"
    using ih Cons.prems(2) by (simp add: take_Suc_conv_app_nth)
  ultimately have "take i sge' = take i sge" and "sge' ! i = (a, l, lkey)"
    using Cons.prems(2) by (simp_all add: take_Suc_conv_app_nth)
  moreover have "drop i sge' = sge' ! i # drop (Suc i) sge'"
    using \<open>i < length sge'\<close> by (simp add: Cons_nth_drop_Suc)
  ultimately have "take i sge' = take i sge" "drop i sge' = (a, l, lkey) # drop (Suc i) sge'"
    by simp_all
  with ih show ?case by (simp add: x add.assoc)
qed

text \<open>
  What the driver relies on of \<open>ib_map_mr_sg\<close>: it maps the longest prefix of the segments that fits the region
  and says how many they are; the region then starts at the first segment's address and is as long as the
  segments it maps.
\<close>

definition map_mr_contract :: "map_env \<Rightarrow> bool" where
  "map_mr_contract e \<longleftrightarrow> me_map_mr e \<le> int (length (me_dma e)) \<and>
     (0 < me_map_mr e \<longrightarrow> me_iova e = fst (hd (me_dma e)) \<and>
        unat (me_mr_length e) = sum_list (map (\<lambda>x. unat (snd x)) (take (nat (me_map_mr e)) (me_dma e))))"

text \<open>What the capsule says about the data, for each of the four ways to send it.\<close>

definition describes :: "map_env \<Rightarrow> nat \<Rightarrow> nvme_rdma_ctrl \<Rightarrow> io_slot \<Rightarrow> bool" where
  "describes e i r s \<longleftrightarrow>
     (if nr_phys_segments (s_rq s) = 0
      then cm_dptr (rr_cmd (s_rr s)) = Ksgl 0 0 0 0x40 \<and> rr_num_sge (s_rr s) = 1 \<and> rr_mr (s_rr s) = None
      else
        (case rr_mr (s_rr s) of
           Some key \<Rightarrow>
             (\<exists>rkey. me_mr e = Some rkey \<and> key = me_inc_rkey e rkey) \<and>
             cm_dptr (rr_cmd (s_rr s)) = Ksgl (fst (hd (me_dma e)))
               (sum_list (map (\<lambda>x. unat (snd x)) (me_dma e)) mod 2 ^ 24) key 0x4f \<and>
             rr_reg_wr (s_rr s) = Some key \<and> rr_num_sge (s_rr s) = 1
         | None \<Rightarrow>
             (case cm_dptr (rr_cmd (s_rr s)) of
                Sgl off len ty \<Rightarrow>
                  i \<noteq> 0 \<and> rq_is_write (s_rq s) \<and> off = ucast (c_icdoff (r_ctrl r)) \<and> ty = 1 \<and>
                  len = sum_list (map snd (me_dma e)) \<and>
                  take (length (me_dma e)) (drop 1 (rr_sge (s_rr s))) =
                    map (\<lambda>(a, l). (a, l, me_local_dma_lkey e)) (me_dma e) \<and>
                  rr_num_sge (s_rr s) = 1 + length (me_dma e)
              | Ksgl addr len key ty \<Rightarrow>
                  me_dma e = [hd (me_dma e)] \<and> addr = fst (hd (me_dma e)) \<and>
                  len = unat (snd (hd (me_dma e))) mod 2 ^ 24 \<and> key = me_unsafe_global_rkey e \<and> ty = 0x40 \<and>
                  rr_num_sge (s_rr s) = 1
              | No_sgl \<Rightarrow> False)))"

lemma map_sg_describes:
  assumes m: "map_sg e i r s = (0, s')" and mr: "rr_mr (s_rr s) = None" and one: "rr_num_sge (s_rr s) = 1"
    and phys: "nr_phys_segments (s_rq s) \<noteq> 0" and dma: "me_dma e \<noteq> []"
    and room: "length (rr_sge (s_rr s)) = 5" and seg: "inline_segments i r \<le> NVME_RDMA_MAX_INLINE_SEGMENTS"
    and mapped: "map_mr_contract e"
  shows "describes e i r s' \<and> length (rr_sge (s_rr s')) = 5"
proof -
  consider (inl) "int (length (me_dma e)) \<le> inline_segments i r" "use_inline i r (s_rq s)"
    | (single) "length (me_dma e) = 1" "nvme_rdma_map_sg_single e s = (0, s')"
    | (fr) "nvme_rdma_map_sg_fr e s = (0, s')"
    using m by (auto simp: map_sg_def split: if_splits)
  then show ?thesis
  proof cases
    case inl
    then have "nvme_rdma_map_sg_inline e r s = (0, s')" using m by (simp add: map_sg_def)
    moreover obtain sge len where g: "inline_sges (me_local_dma_lkey e) 1 (me_dma e) (rr_sge (s_rr s)) 0 = (sge, len)"
      by fastforce
    moreover have "1 + length (me_dma e) \<le> length (rr_sge (s_rr s))" using inl(1) seg room by simp
    note r = inline_sges_result[OF g this]
    ultimately show ?thesis
      using r inl(2) mr one phys room
      by (auto simp: nvme_rdma_map_sg_inline_def describes_def set_dptr_def use_inline_def)
  next
    case single
    then show ?thesis
      using mr one phys room
      by (cases "me_dma e")
        (auto simp: nvme_rdma_map_sg_single_def describes_def set_dptr_def keyed_def le24_value)
  next
    case fr
    then obtain rkey where k: "me_mr e = Some rkey" "\<not> me_map_mr e < int (length (me_dma e))"
      "s' = set_dptr (keyed (me_iova e) (me_mr_length e) (me_inc_rkey e rkey)
          (push_bit 4 NVME_KEY_SGL_FMT_DATA_DESC OR NVME_SGL_FMT_INVALIDATE))
        ((dcall (Mr_get True) s)\<lparr>s_rr := (s_rr (dcall (Mr_get True) s))\<lparr>rr_mr := Some (me_inc_rkey e rkey),
           rr_reg_wr := Some (me_inc_rkey e rkey)\<rparr>\<rparr>)"
      by (auto simp: nvme_rdma_map_sg_fr_def Let_def split: option.splits if_splits)
    have n: "me_map_mr e = int (length (me_dma e))" using mapped k(2) by (simp add: map_mr_contract_def)
    then have "me_iova e = fst (hd (me_dma e))"
      "unat (me_mr_length e) = sum_list (map (\<lambda>x. unat (snd x)) (me_dma e))"
      using mapped dma by (simp_all add: map_mr_contract_def)
    then show ?thesis
      using one phys room k(1) unfolding k(3)
      by (simp add: describes_def set_dptr_def keyed_def le24_value dcall_def)
  qed
qed

text \<open>C17. A mapped request describes all of its data to the controller: no data is a null keyed descriptor;
  a write sent in the capsule lists every segment, in order, after the command, at the controller's
  offset and with their total length; a single segment is given by the device's global key, and
  everything else by the region registered for it, which starts at the first segment and is as long as all
  of them, and whose registration, under the key in the descriptor, is the one sent ahead of the command.
  Keyed lengths are the true ones modulo 2^24, the inline length is modulo 2^32. The element array is never
  overrun. The request owns no region before, its array has the five elements it is made with, and the device
  takes at most four inline segments, as its set-up sees to; a region is taken to hold the segments
  \<open>ib_map_mr_sg\<close> says it mapped (\<open>map_mr_contract\<close>).\<close>

theorem mapped_data_described:
  assumes "nvme_rdma_map_data e i r s = (0, s')" and "rr_mr (s_rr s) = None"
    and "length (rr_sge (s_rr s)) = 5" and "inline_segments i r \<le> NVME_RDMA_MAX_INLINE_SEGMENTS"
    and "map_mr_contract e"
  shows "describes e i r s' \<and> length (rr_sge (s_rr s')) = 5"
proof (cases "nr_phys_segments (s_rq s) = 0")
  case True
  with assms show ?thesis
    by (auto simp: nvme_rdma_map_data_def nvme_rdma_set_sg_null_def describes_def set_dptr_def keyed_def
        le24_value Let_def)
next
  case False
  define s2 where "s2 = dcall (Dma_map_sg (length (me_dma e))) ((dcall (Sg_alloc True)
    (s\<lparr>s_rr := (s_rr s)\<lparr>rr_num_sge := 1, rr_ref := 2,
       rr_cmd := (rr_cmd (s_rr s))\<lparr>cm_flags := cm_flags (rr_cmd (s_rr s)) OR NVME_CMD_SGL_METABUF\<rparr>\<rparr>\<rparr>))
    \<lparr>s_rr := (s_rr (dcall (Sg_alloc True)
    (s\<lparr>s_rr := (s_rr s)\<lparr>rr_num_sge := 1, rr_ref := 2,
       rr_cmd := (rr_cmd (s_rr s))\<lparr>cm_flags := cm_flags (rr_cmd (s_rr s)) OR NVME_CMD_SGL_METABUF\<rparr>\<rparr>\<rparr>)))
       \<lparr>rr_nents := me_nents e\<rparr>\<rparr>)"
  have ok: "me_sg_alloc e" "me_dma e \<noteq> []" "map_sg e i r s2 = (0, s')"
    using assms(1) False unfolding nvme_rdma_map_data_def Let_def
    by (auto simp: s2_def split: if_splits prod.splits)
  have s2: "rr_mr (s_rr s2) = None" "rr_num_sge (s_rr s2) = 1" "nr_phys_segments (s_rq s2) \<noteq> 0"
    "length (rr_sge (s_rr s2)) = 5"
    using assms(2,3) False by (simp_all add: s2_def)
  from map_sg_describes[OF ok(3) s2(1,2,3) ok(2) s2(4) assms(4,5)] show ?thesis .
qed

text \<open>
  The region covers what the pool was made for, so the 24-bit length is exact: the pool's regions have
  \<open>max_fr_pages + 1\<close> pages of 4 KiB.
\<close>

lemma max_fr_pages_le: "unat (nvme_rdma_get_max_fr_pages n) \<le> 256"
  by (simp add: nvme_rdma_get_max_fr_pages_def min_def word_le_nat_alt)

text \<open>The 24-bit length of a keyed descriptor is exact for every region of a queue's pool: a pool's
  regions cover at most \<open>nvme_rdma_get_max_fr_pages\<close> plus one pages of 4 KiB, far below 16 MiB.\<close>

lemma keyed_length_exact:
  assumes "unat len \<le> (unat (nvme_rdma_get_max_fr_pages n) + 1) * 4096"
  shows "keyed addr len key ty = Ksgl addr (unat len) key ty"
proof -
  have "unat len \<le> 257 * 4096" using assms max_fr_pages_le[of n] by simp
  then show ?thesis by (simp add: keyed_def le24_value)
qed


theorem mapped_data_described_witness:
  "describes mapenv0 1 rctrl_live (snd (nvme_rdma_map_data mapenv0 1 rctrl_live (slot0 REQ_OP_READ 2)))"
proof -
  have "fst (nvme_rdma_map_data mapenv0 1 rctrl_live (slot0 REQ_OP_READ 2)) = 0"
    by (simp add: nvme_rdma_map_data_def nr_phys_segments_def map_sg_def use_inline_def rq_is_write_def
        nvme_rdma_map_sg_fr_def Let_def split_beta)
  then have m: "nvme_rdma_map_data mapenv0 1 rctrl_live (slot0 REQ_OP_READ 2) =
      (0, snd (nvme_rdma_map_data mapenv0 1 rctrl_live (slot0 REQ_OP_READ 2)))"
    by (metis prod.collapse)
  have "length (rr_sge rr0) = 5" "inline_segments 1 rctrl_live \<le> 4"
    by (simp_all add: rr0_def inline_segments_def device_of_def rctrl_live_def queue0_def dev_of_def)
  moreover have "map_mr_contract mapenv0" by (simp add: map_mr_contract_def mapenv0_def)
  ultimately show ?thesis using mapped_data_described[OF m] by simp
qed

section \<open>Data in the capsule\<close>

text \<open>A write sent inside its capsule fits the capsule the controller announced, as long as the capsule is
  at least a command long; a controller that announces a shorter one (an \<open>ioccsz\<close> below 4, which no code
  rejects) makes the room for data wrap around, and every write whatever its size passes the test.\<close>

theorem inline_fits_capsule:
  assumes "q_cmnd_capsule_len (queue r i) < 2 ^ 32"
  shows "(if SIZEOF_NVME_COMMAND \<le> q_cmnd_capsule_len (queue r i)
     then use_inline i r rq \<longrightarrow> SIZEOF_NVME_COMMAND + unat (payload_bytes rq) \<le> q_cmnd_capsule_len (queue r i)
     else use_inline i r rq = (rq_is_write rq \<and> i \<noteq> 0 \<and> r_use_inline_data r))"
proof -
  let ?n = "q_cmnd_capsule_len (queue r i)"
  have lt: "unat (payload_bytes rq) < 2 ^ 32" using unsigned_less[of "payload_bytes rq", where 'a = nat] by simp
  then have p: "unat (ucast (payload_bytes rq) :: u64) = unat (payload_bytes rq)"
    by (simp add: unsigned_ucast_eq take_bit_eq_mod)
  note p = p lt
  have n: "unat (of_nat ?n :: u64) = ?n" using assms by (simp add: unat_of_nat)
  show ?thesis
  proof (cases "64 \<le> ?n")
    case True
    then have "unat (nvme_rdma_inline_data_size (queue r i)) = ?n - 64"
      using n by (simp add: nvme_rdma_inline_data_size_def unat_sub word_le_nat_alt)
    with True p show ?thesis by (auto simp: use_inline_def word_le_nat_alt)
  next
    case False
    then have "unat (nvme_rdma_inline_data_size (queue r i)) = 2 ^ 64 - (64 - ?n)"
      using n by (simp add: nvme_rdma_inline_data_size_def unat_sub_if')
    with False p show ?thesis by (auto simp: use_inline_def word_le_nat_alt)
  qed
qed

theorem inline_fits_capsule_witness:
  "use_inline 1 rctrl_live (rq0 REQ_OP_WRITE 2) \<and> 64 + 4096 \<le> q_cmnd_capsule_len (queue rctrl_live 1)"
proof -
  have "use_inline 1 rctrl_live (rq0 REQ_OP_WRITE 2)"
    by (simp add: use_inline_def rq_is_write_def nvme_rdma_inline_data_size_def rctrl_live_def queue0_def
        payload_bytes_def rq0_def)
  with inline_fits_capsule[of rctrl_live 1 "rq0 REQ_OP_WRITE 2"] show ?thesis
    by (simp add: rctrl_live_def queue0_def payload_bytes_def rq0_def)
qed

end
