(* ===== verification/Fabric_Admin.thy ===== *)
theory Fabric_Admin
  imports Target_Disc Host_Ns Fabric_Connect Rdma_Data
begin

text \<open>
  Host and target together: the namespaces a scan of the host finds in a target, the identifiers it reads, the
  number of queues they agree on, and what of the target's identity the host then relies on.
\<close>

section \<open>The number of queues\<close>

text \<open>A set features command of the host, and what the target answers on the queue.\<close>

definition features_request :: "u32 \<Rightarrow> u32 \<Rightarrow> nvmet_req" where
  "features_request fid dword11 =
     \<lparr>r_cmd = \<lparr>tc_opcode = nvme_admin_set_features, tc_flags = NVME_CMD_SGL_METABUF, tc_command_id = 0, tc_nsid = 0,
        tc_cdw10 = fid, tc_cdw11 = dword11, tc_cdw12 = 0, tc_lpo = 0, tc_fctype = 0, tc_attrib = 0, tc_offset = 0,
        tc_value = 0, tc_recfmt = 0, tc_qid = 0, tc_sqsize = 0, tc_cattr = 0, tc_kato = 0\<rparr>,
      r_sg = [], r_data_len = 0, r_transfer_len = 0, r_ns = None, r_error_loc = NVMET_NO_ERROR_LOC,
      r_error_slba = 0, r_result = 0, r_status = 0, r_sq_head = 0\<rparr>"

definition features_submit :: "(nat \<Rightarrow> bool) \<Rightarrow> int \<Rightarrow> nat \<Rightarrow> target \<Rightarrow> features_env" where
  "features_submit alloc flush qa t fid dword11 =
     (let (status, res) = target_answer qa (nvmet_execute_set_features alloc flush qa (features_request fid dword11) t)
      in (status, ucast res))"

lemma on_queue_answer:
  assumes "tq_ctrl (t_queues t qa) = Some p" "ctrl_at t p = Some k" "r_status r = 0"
  shows "target_answer qa (on_queue qa (nvmet_req_complete 0 r) t) = (0, r_result r)"
  using assms
  by (simp add: on_queue_def target_answer_def nvmet_req_complete_def upd_tq_def upd_ctrl_at_def upd_subsys_def Let_def
      split_beta split: option.splits)

lemma ucast_up_down: "ucast (ucast (x :: u32) :: u64) = x"
  by (rule bit_word_eqI) (simp add: bit_unsigned_iff)

lemma num_queues_granted:
  assumes "0 < m"
  shows "unat (num_queues_result m AND 0xffff) + 1 = unat m" "unat (drop_bit 16 (num_queues_result m)) + 1 = unat m"
proof -
  obtain n where n: "unat m = Suc n" using assms by (cases "unat m") (auto simp: word_gt_0 unat_eq_0)
  have lt: "n < 65536" using n unsigned_less [of m, where 'a = nat] by simp
  have "(ucast m :: u32) = of_nat (unat m)" by simp
  then have w: "(ucast m :: u32) - 1 = of_nat n" using n by simp
  show "unat (num_queues_result m AND 0xffff) + 1 = unat m" "unat (drop_bit 16 (num_queues_result m)) + 1 = unat m"
    unfolding num_queues_result_def w using two_halves [OF lt] n by simp_all
qed

text \<open>C37. Host and target agree on the number of I/O queues: the host gets what it asked for, up to the limit of the
  target's subsystem, and no queue it then connects is above the limit the target checks.
\<close>

theorem queue_count_agreed:
  assumes conn: "tq_ctrl (t_queues t qa) = Some p" "ctrl_at t p = Some k" "t_subsys t (fst p) = Some y"
    and asked: "0 < want" "want \<le> 65536" and limit: "0 < y_max_qid y"
    and run: "nvme_set_queue_count (features_submit alloc flush qa t) want c = (ret, n, c')"
  shows "ret = 0 \<and> n = min want (unat (y_max_qid y)) \<and> 0 < n \<and> \<not> (\<exists>i\<le>n. y_max_qid y < of_nat i)"
proof -
  have fe: "features_submit alloc flush qa t NVME_FEAT_NUM_QUEUES q = (0, num_queues_result (y_max_qid y))" for q
  proof -
    let ?r = "features_request NVME_FEAT_NUM_QUEUES q"
    have "target_answer qa (nvmet_execute_set_features alloc flush qa ?r t) =
        target_answer qa (on_queue qa (nvmet_req_complete 0 (nvmet_set_result (num_queues_result (y_max_qid y)) ?r)) t)"
      by (simp add: nvmet_execute_set_features_def features_request_def conn Let_def)
    also have "\<dots> = (0, ucast (num_queues_result (y_max_qid y)))"
      by (simp add: on_queue_answer [OF conn(1,2)] nvmet_set_result_def features_request_def)
    finally show ?thesis by (simp add: features_submit_def ucast_up_down)
  qed
  have lt: "unat (y_max_qid y) < 65536" using unsigned_less [of "y_max_qid y", where 'a = nat] by simp
  have n: "ret = 0 \<and> n = min want (unat (y_max_qid y))"
    using set_queue_count_negotiates [OF asked, of "features_submit alloc flush qa t" c] run num_queues_granted [OF limit]
    by (auto simp: fe Let_def)
  have "\<not> y_max_qid y < of_nat i" if "i \<le> n" for i
    using that n lt by (simp add: word_less_nat_alt unat_of_nat)
  moreover have "0 < unat (y_max_qid y)" using limit by (simp add: word_less_nat_alt)
  ultimately show ?thesis using n asked by auto
qed


section \<open>The identifiers of a namespace\<close>

lemma copy_at:
  assumes "r_sg r = pre @ old" "length pre = off" "length data \<le> length old"
  shows "nvmet_copy_to_sgl off data r = (0, r\<lparr>r_sg := pre @ data @ drop (length data) old\<rparr>)"
  using assms by (simp add: nvmet_copy_to_sgl_def sg_write_def Let_def)

lemma copy_identifier_at:
  assumes "r_sg r = pre @ old" "length pre = off" "4 + length bs \<le> length old"
  shows "nvmet_copy_ns_identifier nidt bs off r =
    (0, off + 4 + length bs, r\<lparr>r_sg := (pre @ [nidt, of_nat (length bs), 0, 0] @ bs) @ drop (4 + length bs) old\<rparr>)"
proof -
  let ?h = "[nidt, of_nat (length bs), 0, 0]"
  have l: "length ?h = 4" by simp
  let ?r = "r\<lparr>r_sg := pre @ ?h @ drop 4 old\<rparr>"
  have 1: "nvmet_copy_to_sgl off ?h r = (0, ?r)"
    using copy_at [OF assms(1,2), of ?h] assms(3) unfolding l by simp
  have 2: "nvmet_copy_to_sgl (off + 4) bs ?r = (0, ?r\<lparr>r_sg := (pre @ ?h) @ bs @ drop (length bs) (drop 4 old)\<rparr>)"
    by (rule copy_at) (use assms in simp_all)
  show ?thesis
    unfolding nvmet_copy_ns_identifier_def 1 Let_def prod.case using 2 by (simp add: add.commute)
qed

text \<open>One descriptor of the page.\<close>

definition descriptor :: "u8 \<Rightarrow> u8 list \<Rightarrow> u8 list" where
  "descriptor nidt bs = (if list_ex (\<lambda>b. b \<noteq> 0) bs then [nidt, of_nat (length bs), 0, 0] @ bs else [])"

lemma descriptor_length: "length (descriptor nidt bs) \<le> 4 + length bs"
  by (simp add: descriptor_def)

lemma copy_identifiers_page:
  assumes "length (ns_uuid ns) = 16" "length (ns_nguid ns) = 16" "length (r_sg r) = NVME_IDENTIFY_DATA_SIZE"
  shows "\<exists>n. copy_identifiers ns r =
    (0, r\<lparr>r_sg := descriptor NVME_NIDT_UUID (ns_uuid ns) @ descriptor NVME_NIDT_NGUID (ns_nguid ns) @ replicate n 0\<rparr>) \<and> 4000 < n"
proof -
  let ?u = "descriptor NVME_NIDT_UUID (ns_uuid ns)" and ?n = "descriptor NVME_NIDT_NGUID (ns_nguid ns)"
  have ul: "length ?u \<le> 20" and nl: "length ?n \<le> 20" using assms(1,2) descriptor_length [of NVME_NIDT_UUID "ns_uuid ns"] descriptor_length [of NVME_NIDT_NGUID "ns_nguid ns"]
    by simp_all
  let ?r1 = "r\<lparr>r_sg := ?u @ drop (length ?u) (r_sg r)\<rparr>"
  have u: "(if list_ex (\<lambda>b. b \<noteq> 0) (ns_uuid ns) then nvmet_copy_ns_identifier NVME_NIDT_UUID (ns_uuid ns) 0 r else (0, 0, r)) =
      (0, length ?u, ?r1)"
    using copy_identifier_at [of r "[]" "r_sg r" 0 "ns_uuid ns" NVME_NIDT_UUID] assms by (simp add: descriptor_def)
  let ?r2 = "r\<lparr>r_sg := (?u @ ?n) @ drop (length ?u + length ?n) (r_sg r)\<rparr>"
  have n: "(if list_ex (\<lambda>b. b \<noteq> 0) (ns_nguid ns) then nvmet_copy_ns_identifier NVME_NIDT_NGUID (ns_nguid ns) (length ?u) ?r1
      else (0, length ?u, ?r1)) = (0, length ?u + length ?n, ?r2)"
    using copy_identifier_at [of ?r1 ?u "drop (length ?u) (r_sg r)" "length ?u" "ns_nguid ns" NVME_NIDT_NGUID] assms ul
    by (auto simp: descriptor_def add_ac)
  let ?k = "NVME_IDENTIFY_DATA_SIZE - (length ?u + length ?n)"
  have w: "sg_write (length ?u + length ?n) (replicate ?k 0) (r_sg ?r2) = (?k, (?u @ ?n) @ replicate ?k 0)"
    using assms(3) ul nl by (simp add: sg_write_def Let_def)
  have "copy_identifiers ns r = (0, ?r2\<lparr>r_sg := (?u @ ?n) @ replicate ?k 0\<rparr>)"
    unfolding copy_identifiers_def u prod.case Let_def n w by simp
  then show ?thesis using ul nl by (intro exI [of _ ?k]) simp
qed

lemma read_uuid: "length bs = 16 \<Longrightarrow> ns_descs_loop ([3, 16, 0, 0] @ bs @ rest) ids = ns_descs_loop rest (ids\<lparr>ni_uuid := bs\<rparr>)"
  by (subst ns_descs_loop.simps) (simp add: Let_def)

lemma read_nguid: "length bs = 16 \<Longrightarrow> ns_descs_loop ([2, 16, 0, 0] @ bs @ rest) ids = ns_descs_loop rest (ids\<lparr>ni_nguid := bs\<rparr>)"
  by (subst ns_descs_loop.simps) (simp add: Let_def)

lemma read_end: "ns_descs_loop (0 # 0 # rest) ids = Some ids"
  by (subst ns_descs_loop.simps) simp

lemma all_zero: "\<not> list_ex (\<lambda>b. b \<noteq> 0) bs \<Longrightarrow> bs = replicate (length bs) (0 :: u8)"
  by (induction bs) auto

text \<open>C36. The host reads the identifiers the target gave the namespace: it accepts the identify structure and the
  descriptor page of the target without reading past the page, and gets the namespace's UUID and NGUID, both, one or
  neither of them set.
\<close>

theorem identifiers_roundtrip:
  assumes "length (ns_uuid ns) = 16" "length (ns_nguid ns) = 16" "length (r_sg r) = NVME_IDENTIFY_DATA_SIZE"
    "NVME_VS_1_3_0 \<le> vs"
  shows "let (status, r') = copy_identifiers ns r
    in status = 0 \<and> nvme_report_ns_ids vs True (0, r_sg r') (replicate 8 0) (id_nguid (nvmet_identify_ns p ql ns)) =
      Some (0, \<lparr>ni_eui64 = replicate 8 0, ni_nguid = ns_nguid ns, ni_uuid = ns_uuid ns\<rparr>)"
proof -
  obtain n where n: "copy_identifiers ns r = (0, r\<lparr>r_sg := descriptor NVME_NIDT_UUID (ns_uuid ns) @
      descriptor NVME_NIDT_NGUID (ns_nguid ns) @ replicate n 0\<rparr>)" "4000 < n"
    using copy_identifiers_page [OF assms(1-3)] by blast
  have tail: "ns_descs_loop (replicate n 0) ids = Some ids" for ids
    using n(2) read_end by (cases n; cases "n - 1") auto
  have ng: "ns_descs_loop (descriptor NVME_NIDT_NGUID (ns_nguid ns) @ replicate n 0) (ids\<lparr>ni_nguid := ns_nguid ns\<rparr>) =
      Some (ids\<lparr>ni_nguid := ns_nguid ns\<rparr>)" for ids
    using assms(2) read_nguid [OF assms(2), of "replicate n 0"] tail by (simp add: descriptor_def)
  have page: "ns_descs_loop (descriptor NVME_NIDT_UUID (ns_uuid ns) @ descriptor NVME_NIDT_NGUID (ns_nguid ns) @ replicate n 0)
      \<lparr>ni_eui64 = e, ni_nguid = ns_nguid ns, ni_uuid = replicate 16 0\<rparr> =
      Some \<lparr>ni_eui64 = e, ni_nguid = ns_nguid ns, ni_uuid = ns_uuid ns\<rparr>" for e
  proof (cases "list_ex (\<lambda>b. b \<noteq> 0) (ns_uuid ns)")
    case True
    then show ?thesis
      using assms(1) read_uuid [OF assms(1), of "descriptor NVME_NIDT_NGUID (ns_nguid ns) @ replicate n 0"]
        ng [of "\<lparr>ni_eui64 = e, ni_nguid = ns_nguid ns, ni_uuid = ns_uuid ns\<rparr>"]
      by (simp add: descriptor_def [of NVME_NIDT_UUID])
  next
    case False
    then have "ns_uuid ns = replicate 16 0" using all_zero assms(1) by metis
    then show ?thesis
      using False ng [of "\<lparr>ni_eui64 = e, ni_nguid = ns_nguid ns, ni_uuid = ns_uuid ns\<rparr>"]
      by (simp add: descriptor_def [of NVME_NIDT_UUID])
  qed
  have vs: "NVME_VS_1_1_0 \<le> vs" "NVME_VS_1_2_0 \<le> vs" using assms(4) order.trans [rotated] by (force, force)
  have "id_nguid (nvmet_identify_ns p ql ns) = ns_nguid ns" by (simp add: nvmet_identify_ns_def Let_def)
  then show ?thesis
    using vs assms(4) page [of "replicate 8 0"]
    by (simp add: n(1) nvme_report_ns_ids_def nvme_identify_ns_descs_def zero_ids_def Let_def)
qed

section \<open>Data in the capsule\<close>

text \<open>C38. A host never sends a target more data in a capsule than the port takes: once it has accepted the identity of
  the target's controller and sized a queue's capsules by it, what it sends inline is at most the port's inline size.
\<close>

theorem inline_within_port:
  assumes ident: "nvme_init_identify ie c = (0, c')"
      "ide_identify ie = (0, id_ctrl.truncate (nvmet_identify_ctrl release ops p y k))"
    and port: "0 \<le> p_inline_data_size p" "p_inline_data_size p < 2 ^ 31"
    and q: "q_cmnd_capsule_len (queue r i) = unat (c_ioccsz c' * 16)" and inline: "use_inline i r rq"
  shows "int (unat (payload_bytes rq)) \<le> p_inline_data_size p"
proof -
  obtain n where n: "p_inline_data_size p = int n" "n < 2 ^ 31" using port by (metis nonneg_int_cases of_nat_less_numeral_power_cancel_iff)
  have u64: "unat (64 + of_int (p_inline_data_size p) :: u64) = 64 + n"
    using n by (simp add: unat_word_ariths unat_of_nat)
  have "unat ((64 + of_int (p_inline_data_size p) :: u64) div 16) = (64 + n) div 16"
    by (simp only: unat_div_distrib u64) simp
  then have "unat (ucast ((64 + of_int (p_inline_data_size p) :: u64) div 16) :: u32) = (64 + n) div 16"
    using n(2) by (simp add: unsigned_ucast_eq unsigned_take_bit_eq take_bit_nat_eq_self)
  then have io: "unat (c_ioccsz c') = (64 + n) div 16"
    using init_identify_checks [OF ident] by (simp add: id_ctrl.truncate_def nvmet_identify_ctrl_def)
  have len: "unat (c_ioccsz c' * 16) = (64 + n) div 16 * 16"
    using n(2) by (simp add: unat_word_ariths io)
  have "SIZEOF_NVME_COMMAND \<le> q_cmnd_capsule_len (queue r i)" "q_cmnd_capsule_len (queue r i) < 2 ^ 32"
      "q_cmnd_capsule_len (queue r i) \<le> 64 + n"
    using n(2) unfolding q len by simp_all
  then have "unat (payload_bytes rq) \<le> n" using inline_fits_capsule [of r i rq] inline by simp
  then show ?thesis by (simp only: n(1) of_nat_le_iff)
qed

section \<open>The scan finds the target's namespaces\<close>

text \<open>What \<open>list_sort\<close> promises of a list on which the comparison is an order.\<close>

definition sorts :: "(('a \<Rightarrow> 'a \<Rightarrow> int) \<Rightarrow> 'a list \<Rightarrow> 'a list) \<Rightarrow> ('a \<Rightarrow> 'a \<Rightarrow> int) \<Rightarrow> 'a list \<Rightarrow> bool" where
  "sorts list_sort cmp l \<longleftrightarrow> mset (list_sort cmp l) = mset l \<and> sorted_wrt (\<lambda>a b. cmp a b \<le> 0) (list_sort cmp l)"

lemma ns_cmp_int: "ns_cmp a b = signed_take_bit 31 (uint (hn_id a) - uint (hn_id b))"
  unfolding ns_cmp_def word_sub_wi signed_of_int by simp

lemma ns_cmp_small:
  assumes "hn_id a < 2 ^ 31" "hn_id b < 2 ^ 31"
  shows "ns_cmp a b = uint (hn_id a) - uint (hn_id b)"
proof -
  have "uint (hn_id a) < 2 ^ 31" "uint (hn_id b) < 2 ^ 31" using assms by (simp_all add: word_less_def)
  then have "- (2 ^ 31) \<le> uint (hn_id a) - uint (hn_id b)" "uint (hn_id a) - uint (hn_id b) < 2 ^ 31"
    using uint_ge_0 [of "hn_id a"] uint_ge_0 [of "hn_id b"] by linarith+
  then show ?thesis
    by (simp add: ns_cmp_int signed_take_bit_int_eq_self_iff)
qed

lemma sorted_small:
  assumes "sorts list_sort ns_cmp l" "\<forall>n \<in> set l. hn_id n < 2 ^ 31" "distinct (map hn_id l)"
  shows "sorted_wrt (<) (map hn_id (list_sort ns_cmp l)) \<and> set (list_sort ns_cmp l) = set l"
proof -
  let ?l = "list_sort ns_cmp l"
  have st: "set ?l = set l" using assms(1) by (metis sorts_def mset_eq_setD)
  have "mset (map hn_id ?l) = mset (map hn_id l)" using assms(1) by (simp add: sorts_def)
  then have d: "distinct (map hn_id ?l)" using assms(3) mset_eq_imp_distinct_iff by blast
  have "sorted_wrt (\<lambda>a b. hn_id a \<le> hn_id b) ?l"
  proof (rule sorted_wrt_mono_rel [where P = "\<lambda>a b. ns_cmp a b \<le> 0"])
    show "sorted_wrt (\<lambda>a b. ns_cmp a b \<le> 0) ?l" using assms(1) by (simp add: sorts_def)
    fix a b assume "a \<in> set ?l" "b \<in> set ?l" "ns_cmp a b \<le> 0"
    then show "hn_id a \<le> hn_id b" using assms(2) st by (simp add: ns_cmp_small word_le_def)
  qed
  then have "sorted (map hn_id ?l)" by (simp add: sorted_map)
  then show ?thesis using d st by (simp add: strict_sorted_iff)
qed

lemma max_nsid_bounds_length:
  assumes "subsys_ok y" "0 \<notin> active_nsids y"
  shows "length (y_namespaces y) \<le> unat (y_max_nsid y)"
proof (cases "y_namespaces y = []")
  case False
  let ?L = "map (nsid_at y) (y_namespaces y)"
  have srt: "sorted_wrt (<) ?L" and mx: "y_max_nsid y = last ?L"
    using assms(1) False by (auto simp: subsys_ok_def nvmet_max_nsid_def last_map)
  have act: "set ?L = active_nsids y" using assms(1) by (auto simp: active_nsids_def subsys_ok_def)
  have le: "x \<le> last ?L" if "x \<in> set ?L" for x
    using that srt sorted_wrt_append [of "(<)" "butlast ?L" "[last ?L]"] append_butlast_last_id [of ?L] False
    by (metis in_set_butlast_appendI last_in_set less_imp_le list.set_intros(1) map_is_Nil_conv order_refl
        rotate1.simps(2) set_ConsD set_rotate1)
  have nz: "0 < unat x" if "x \<in> active_nsids y" for x
    using that assms(2) by (metis gr0I unat_eq_zero)
  have "unat ` set ?L \<subseteq> {1..unat (last ?L)}"
  proof (rule image_subsetI)
    fix x assume x: "x \<in> set ?L"
    have "0 < unat x" using nz x act by blast
    moreover have "unat x \<le> unat (last ?L)" using le [OF x] by (simp only: word_le_nat_alt)
    ultimately show "unat x \<in> {1..unat (last ?L)}" unfolding atLeastAtMost_iff by linarith
  qed
  then have "card (unat ` set ?L) \<le> unat (last ?L)"
    using card_mono [OF finite_atLeastAtMost] by (metis card_atLeastAtMost diff_Suc_1)
  moreover have "card (unat ` set ?L) = length ?L"
  proof -
    have "card (unat ` set ?L) = card (set ?L)" by (intro card_image inj_onI) (simp only: word_unat_eq_iff)
    also have "\<dots> = length ?L" using srt by (intro distinct_card) (simp only: strict_sorted_iff)
    finally show ?thesis .
  qed
  ultimately show ?thesis by (simp add: mx)
qed simp

text \<open>C35. A scan of a live host makes its list of namespaces that of the target: the numbers of the namespaces the target
  has enabled, each once and in order, except those whose disk cannot be revalidated or set up. So the list is again as
  the next scan needs it. All of this where every number is below 2^31: the target accepts greater ones, and
  \<open>namespace_listed_twice\<close> shows what they do to the list. The host scans by namespace lists (version 1.1 or
  later, without the quirk against them), can allocate the buffer for them, and the kernel's sort sorts lists
  that the comparison orders; the target's namespaces do not change meanwhile.
\<close>

theorem scan_finds_namespaces:
  assumes y: "subsys_ok y" "\<forall>n \<in> active_nsids y. 0 < n \<and> n < 2 ^ 31"
    and l: "sorted_wrt (<) (map hn_id (nl_list s))" "\<forall>n \<in> set (nl_list s). 0 < hn_id n \<and> \<not> hn_dead n"
    and c: "c_state c = NVME_CTRL_LIVE" "c_tagset c" "NVME_VS_1_1_0 \<le> i_vs (c_ident c)"
      "i_quirks (c_ident c) AND NVME_QUIRK_IDENTIFY_CNS = 0"
    and e: "sc_alloc_list e" "\<forall>m. sc_list e m = (0, nslist_page y m)"
    and srt: "\<forall>l. (\<forall>n \<in> set l. hn_id n < 2 ^ 31) \<longrightarrow> sorts list_sort ns_cmp l"
  shows "\<exists>s'. nvme_scan_work list_sort e (0, id_nn (nvmet_identify_ctrl release ops p y k)) (c, s) =
        Some (c\<lparr>c_ns_changed := False\<rparr>, s') \<and>
      hn_id ` set (nl_list s') = {n \<in> active_nsids y. usable e (hn_id ` set (nl_list s)) n} \<and>
      sorted_wrt (<) (map hn_id (nl_list s')) \<and> (\<forall>n \<in> set (nl_list s'). 0 < hn_id n \<and> \<not> hn_dead n)"
proof -
  let ?L = "map (nsid_at y) (y_namespaces y)" and ?K = "hn_id ` set (nl_list s)"
  have act: "set ?L = active_nsids y" and sl: "sorted_wrt (<) ?L"
    using y(1) by (auto simp: active_nsids_def subsys_ok_def)
  have pg: "\<forall>m. sc_list e m = (0, ns_page ?L m)" using e(2) by (simp add: nslist_page_eq ns_page_def)
  have nn: "id_nn (nvmet_identify_ctrl release ops p y k) = y_max_nsid y" by (simp add: nvmet_identify_ctrl_def)
  have len: "length ?L \<le> unat (y_max_nsid y)" using max_nsid_bounds_length y by auto
  obtain s1 where s1: "nvme_scan_ns_list e (y_max_nsid y) s = (0, s1)" "scan_result e (set ?L) ?K (nl_list s1)"
    using scan_ns_list_result [OF pg sl _ len e(1) l(1)] y(2) l(2) act by fastforce
  then have ids: "hn_id ` set (nl_list s1) = {n \<in> active_nsids y. usable e ?K n}" "distinct (map hn_id (nl_list s1))"
      "\<forall>n \<in> set (nl_list s1). \<not> hn_dead n"
    unfolding scan_result_def act by auto
  then have small: "\<forall>n \<in> set (nl_list s1). 0 < hn_id n \<and> hn_id n < 2 ^ 31" using y(2) by blast
  have so: "sorted_wrt (<) (map hn_id (list_sort ns_cmp (nl_list s1)))" "set (list_sort ns_cmp (nl_list s1)) = set (nl_list s1)"
    using sorted_small [OF _ _ ids(2), of list_sort] srt small by auto
  let ?s = "s1\<lparr>nl_list := list_sort ns_cmp (nl_list s1)\<rparr>"
  have "nvme_scan_work list_sort e (0, id_nn (nvmet_identify_ctrl release ops p y k)) (c, s) = Some (c\<lparr>c_ns_changed := False\<rparr>, ?s)"
    unfolding nn nvme_scan_work_def Let_def prod.case s1(1) using c by simp
  then show ?thesis using ids so small by (intro exI [of _ ?s]) simp
qed

lemma mset_pair:
  assumes "mset l = {#a, b#}"
  shows "l = [a, b] \<or> l = [b, a]"
proof -
  have "length l = 2" using assms by (metis size_mset size_add_mset size_empty numeral_2_eq_2)
  then obtain x y where "l = [x, y]" by (auto simp: numeral_2_eq_2 length_Suc_conv)
  then show ?thesis using assms by (auto simp: add_eq_conv_ex)
qed

text \<open>C39. The comparison of the sort subtracts in 32 bits. Of two namespaces whose numbers are more than half the range
  apart the higher is sorted first, the lower one is not found any more, and revalidating it sets it up a second time.
\<close>

theorem namespace_listed_twice:
  assumes "2 ^ 31 < unat (hn_id nb) - unat (hn_id na)" and srt: "sorts list_sort ns_cmp [na, nb]"
    and "alloc_succeeds (sc_ns e (hn_id na))"
  shows "length (filter (\<lambda>m. hn_id m = hn_id na)
    (nl_list (nvme_validate_ns e (hn_id na) (s\<lparr>nl_list := list_sort ns_cmp [na, nb]\<rparr>)))) = 2"
proof -
  have lt: "hn_id na < hn_id nb" using assms(1) by (simp add: word_less_nat_alt)
  then have ne: "na \<noteq> nb" "hn_id nb \<noteq> hn_id na" by auto
  have "(2 :: nat) ^ 31 + unat (hn_id na) < unat (hn_id nb)" using assms(1) by (simp only: less_diff_conv)
  then have "int (2 ^ 31 + unat (hn_id na)) < int (unat (hn_id nb))" by (simp only: of_nat_less_iff)
  then have d: "uint (hn_id na) - uint (hn_id nb) < - (2 ^ 31)" by simp
  have lo: "- (2 ^ 32) < uint (hn_id na) - uint (hn_id nb)"
  proof -
    have "uint (hn_id nb) < 2 ^ 32" using uint_lt2p [of "hn_id nb"] by simp
    then show ?thesis using uint_ge_0 [of "hn_id na"] by linarith
  qed
  have "signed_take_bit 31 (uint (hn_id na) - uint (hn_id nb)) =
      signed_take_bit 31 (uint (hn_id na) - uint (hn_id nb) + 2 ^ 32)"
    by (simp add: signed_take_bit_eq_iff_take_bit_eq take_bit_eq_mod)
  also have "\<dots> = uint (hn_id na) - uint (hn_id nb) + 2 ^ 32"
    using d lo by (simp add: signed_take_bit_int_eq_self_iff)
  finally have "0 < ns_cmp na nb" using lo by (simp add: ns_cmp_int)
  then have "list_sort ns_cmp [na, nb] \<noteq> [na, nb]" using srt by (auto simp: sorts_def)
  moreover have "list_sort ns_cmp [na, nb] \<in> {[na, nb], [nb, na]}"
    using srt ne(1) by (auto simp: sorts_def dest!: mset_pair)
  ultimately have "list_sort ns_cmp [na, nb] = [nb, na]" by blast
  then show ?thesis using lt ne assms(3) by (simp add: nvme_validate_ns_def alloc_ns_list)
qed

section \<open>Examples\<close>

theorem queue_count_agreed_witness:
  "fst (snd (nvme_set_queue_count (features_submit (\<lambda>_. True) 0 0 connected_target) 300 example_host)) = 128"
proof -
  obtain y k where y: "t_subsys connected_target 5 = Some y" "y_ctrls y = [k]" "n_cntlid k = 1" "y_max_qid y = 128"
    using connected_state(2) by blast
  then have k: "ctrl_at connected_target (5, 1) = Some k" by (simp add: ctrl_at_def)
  obtain ret n c' where run: "nvme_set_queue_count (features_submit (\<lambda>_. True) 0 0 connected_target) 300 example_host = (ret, n, c')"
    by (cases "nvme_set_queue_count (features_submit (\<lambda>_. True) 0 0 connected_target) 300 example_host")
  show ?thesis using queue_count_agreed [OF connected_ctrl k _ _ _ _ run] y(1,4) by (simp add: run)
qed

definition uuid_ns :: nvmet_ns where
  "uuid_ns = (example_ns 1)\<lparr>ns_uuid := map of_nat [1..<17], ns_nguid := replicate 16 0\<rparr>"

definition page_request :: nvmet_req where
  "page_request = (features_request 0 0)\<lparr>r_sg := replicate NVME_IDENTIFY_DATA_SIZE 0\<rparr>"

theorem identifiers_roundtrip_witness:
  "nvme_report_ns_ids 0x10300 True (0, r_sg (snd (copy_identifiers uuid_ns page_request))) (replicate 8 0) (ns_nguid uuid_ns) =
     Some (0, \<lparr>ni_eui64 = replicate 8 0, ni_nguid = replicate 16 0, ni_uuid = map of_nat [1..<17]\<rparr>)"
proof -
  have f: "ns_uuid uuid_ns = map of_nat [1..<17]" "ns_nguid uuid_ns = replicate 16 0" by (simp_all add: uuid_ns_def)
  have g: "id_nguid (nvmet_identify_ns p ql ns) = ns_nguid ns" for p ql ns by (simp add: nvmet_identify_ns_def Let_def)
  have l: "length (r_sg page_request) = NVME_IDENTIFY_DATA_SIZE" by (simp add: page_request_def)
  from identifiers_roundtrip [of uuid_ns page_request "0x10300", OF _ _ l, where p = example_port and ql = undefined]
  show ?thesis unfolding f g by (simp add: split_beta Let_def f g)
qed

definition inline_port :: nvmet_port where
  "inline_port = example_port\<lparr>p_inline_data_size := 4096\<rparr>"

theorem inline_within_port_witness:
  "use_inline 1 rctrl_live (rq0 REQ_OP_WRITE 2) \<and>
   int (unat (payload_bytes (rq0 REQ_OP_WRITE 2))) \<le> p_inline_data_size inline_port"
proof -
  obtain y :: nvmet_subsys and k :: nvmet_ctrl where k: "n_cntlid k = 1" using connected_state(2) by blast
  define idc where "idc = id_ctrl.truncate (nvmet_identify_ctrl ''5.4.0'' \<lparr>fo_has_keyed_sgls = True, fo_msdbd = 1\<rparr> inline_port y k)"
  let ?e = "identenv0\<lparr>ide_identify := (0, idc)\<rparr>"
  let ?c = "(nvme_init_ctrl opts_min)\<lparr>c_cntlid := 1, c_cap := 0x7f, c_sqsize := 0xff\<rparr>"
  have run: "fst (nvme_init_identify ?e ?c) = 0"
    using k by (simp add: identify_example_defs idc_def id_ctrl.truncate_def nvmet_identify_ctrl_def Let_def
        nvme_get_effects_log_def)
  have u: "use_inline 1 rctrl_live (rq0 REQ_OP_WRITE 2)"
    by (simp add: use_inline_def rq_is_write_def nvme_rdma_inline_data_size_def rctrl_live_def queue0_def
        payload_bytes_def rq0_def)
  have run': "nvme_init_identify ?e ?c = (0, snd (nvme_init_identify ?e ?c))" using run by (metis prod.collapse)
  have id: "ide_identify ?e = (0, id_ctrl.truncate (nvmet_identify_ctrl ''5.4.0'' \<lparr>fo_has_keyed_sgls = True, fo_msdbd = 1\<rparr> inline_port y k))"
    by (simp add: idc_def)
  have io: "c_ioccsz (snd (nvme_init_identify ?e ?c)) = 260"
    using init_identify_checks [OF run' id] by (simp add: id_ctrl.truncate_def nvmet_identify_ctrl_def inline_port_def)
  have q: "q_cmnd_capsule_len (queue rctrl_live 1) = unat (c_ioccsz (snd (nvme_init_identify ?e ?c)) * 16)"
    unfolding io by (simp add: rctrl_live_def queue0_def)
  have p: "0 \<le> p_inline_data_size inline_port" "p_inline_data_size inline_port < 2 ^ 31" by (simp_all add: inline_port_def)
  show ?thesis using inline_within_port [OF run' id p q u] u by simp
qed

definition good_alloc :: alloc_ns_env where
  "good_alloc = \<lparr>an_zalloc = True, an_queue = 0, an_identify = (0, 8), an_head = 0, an_disk = True, an_nvm = 0, an_errno = id\<rparr>"

definition two_ns_scan :: scan_env where
  "two_ns_scan = \<lparr>sc_alloc_list = True, sc_list = (\<lambda>m. (0, nslist_page two_ns m)), sc_revalidate = (\<lambda>_. 0),
     sc_ns = (\<lambda>_. good_alloc)\<rparr>"

definition by_number :: "(host_ns \<Rightarrow> host_ns \<Rightarrow> int) \<Rightarrow> host_ns list \<Rightarrow> host_ns list" where
  "by_number cmp l = sort_key hn_id l"

lemma by_number_sorts: "\<forall>l. (\<forall>n \<in> set l. hn_id n < 2 ^ 31) \<longrightarrow> sorts by_number ns_cmp l"
proof (intro allI impI)
  fix l :: "host_ns list" assume small: "\<forall>n \<in> set l. hn_id n < 2 ^ 31"
  have "sorted_wrt (\<lambda>a b. hn_id a \<le> hn_id b) (sort_key hn_id l)"
    using sorted_sort_key [of hn_id l] by (simp only: sorted_map)
  then have "sorted_wrt (\<lambda>a b. ns_cmp a b \<le> 0) (sort_key hn_id l)"
    by (rule sorted_wrt_mono_rel [rotated]) (use small in \<open>simp add: ns_cmp_small word_le_def\<close>)
  then show "sorts by_number ns_cmp l" by (simp add: sorts_def by_number_def)
qed

theorem scan_finds_namespaces_witness:
  "\<exists>c s'. nvme_scan_work by_number two_ns_scan (0, 7) (c, \<lparr>nl_list = [], nl_calls = []\<rparr>) = Some (c\<lparr>c_ns_changed := False\<rparr>, s') \<and>
     hn_id ` set (nl_list s') = {3, 7}"
proof -
  let ?c = "example_host\<lparr>c_state := NVME_CTRL_LIVE, c_tagset := True\<rparr>"
  let ?c = "?c\<lparr>c_ident := (c_ident ?c)\<lparr>i_vs := 0x10300, i_quirks := 0\<rparr>\<rparr>"
  have act: "active_nsids two_ns = {3, 7}"
    using two_ns_ok by (auto simp: active_nsids_def subsys_ok_def two_ns_fields)
  obtain y :: nvmet_subsys and k :: nvmet_ctrl where k: "n_cntlid k = 1" using connected_state(2) by blast
  have nn: "id_nn (nvmet_identify_ctrl release ops p two_ns k) = 7" for release ops p by (simp add: nvmet_identify_ctrl_def two_ns_fields)
  have us: "usable two_ns_scan {} n" for n by (simp add: usable_def alloc_succeeds_def two_ns_scan_def good_alloc_def)
  obtain s' where s': "nvme_scan_work by_number two_ns_scan (0, id_nn (nvmet_identify_ctrl ''5.4.0'' \<lparr>fo_has_keyed_sgls = True, fo_msdbd = 1\<rparr> inline_port two_ns k)) (?c, \<lparr>nl_list = [], nl_calls = []\<rparr>) =
        Some (?c\<lparr>c_ns_changed := False\<rparr>, s')" "hn_id ` set (nl_list s') = {n \<in> active_nsids two_ns. usable two_ns_scan {} n}"
    using scan_finds_namespaces [OF two_ns_ok _ _ _ _ _ _ _ _ _ by_number_sorts, where e = two_ns_scan and c = ?c and s = "\<lparr>nl_list = [], nl_calls = []\<rparr>" and
        release = "''5.4.0''" and ops = "\<lparr>fo_has_keyed_sgls = True, fo_msdbd = 1\<rparr>" and p = inline_port and k = k]
    by (auto simp: act two_ns_scan_def)
  moreover have "{n \<in> {3, 7}. True} = {3, 7 :: u32}" by auto
  ultimately have "hn_id ` set (nl_list s') = {3, 7}" by (simp only: act us)
  with s'(1) [unfolded nn] show ?thesis by (intro exI conjI)
qed

theorem namespace_listed_twice_witness:
  "let a = \<lparr>hn_id = 1, hn_dead = False, hn_up = True\<rparr>; b = \<lparr>hn_id = 0xfffffffe, hn_dead = False, hn_up = True\<rparr>
   in sorts (\<lambda>_ _. [b, a]) ns_cmp [a, b] \<and>
     length (filter (\<lambda>m. hn_id m = 1) (nl_list (nvme_validate_ns two_ns_scan 1 \<lparr>nl_list = [b, a], nl_calls = []\<rparr>))) = 2"
proof -
  define a where "a = \<lparr>hn_id = 1, hn_dead = False, hn_up = True\<rparr>"
  define b where "b = \<lparr>hn_id = 0xfffffffe, hn_dead = False, hn_up = True\<rparr>"
  have ids: "hn_id a = 1" "hn_id b = 0xfffffffe" by (simp_all add: a_def b_def)
  have s: "sorts (\<lambda>_ _. [b, a]) ns_cmp [a, b]"
    by (simp add: sorts_def add_mset_commute) (simp add: ns_cmp_def ids)
  have "alloc_succeeds (sc_ns two_ns_scan (hn_id a))" by (simp add: two_ns_scan_def good_alloc_def alloc_succeeds_def)
  then show ?thesis
    using namespace_listed_twice [OF _ s, of two_ns_scan "\<lparr>nl_list = [], nl_calls = []\<rparr>"] s
    unfolding Let_def a_def [symmetric] b_def [symmetric] by (simp add: ids)
qed

text \<open>A page whose last descriptor begins at its end makes the host read past the page.\<close>

definition skipped :: "u8 list" where "skipped = [4, 255, 0, 0] @ replicate 255 0"

lemma skip_one: "ns_descs_loop (skipped @ rest) ids = ns_descs_loop rest ids"
  by (subst ns_descs_loop.simps) (simp add: skipped_def)

lemma descriptor_read_past_page: "\<exists>page. length page = NVME_IDENTIFY_DATA_SIZE \<and> ns_descs_loop page ids = None"
proof (intro exI conjI)
  let ?last = "[4, 205, 0, 0] @ replicate 205 0 @ [3, 16] :: u8 list"
  have last: "ns_descs_loop ?last ids = None"
    by (subst ns_descs_loop.simps, simp, subst ns_descs_loop.simps, simp)
  show "length (concat (replicate 15 skipped) @ ?last) = NVME_IDENTIFY_DATA_SIZE"
    by (simp add: length_concat skipped_def sum_list_replicate)
  have "ns_descs_loop (concat (replicate n skipped) @ rest) ids = ns_descs_loop rest ids" for n rest
    by (induction n) (simp_all add: skip_one)
  then show "ns_descs_loop (concat (replicate 15 skipped) @ ?last) ids = None" using last by metis
qed

end
