(* ===== verification/Rdma_Io_Queues.thy ===== *)
theory Rdma_Io_Queues
  imports Queue_Resources
begin

text \<open>
  The I/O queues of a controller (\<open>host/rdma.c\<close>): how many there are, how they are divided among
  default, read and poll queues, their allocation, start, stop and release as a set, and the map
  the block layer gets.
\<close>

record io_env =
  ie_num_comp_vectors :: nat
  ie_online_cpus :: nat
  ie_features :: features_env
  ie_queue :: "nat \<Rightarrow> queue_env"
  ie_connect :: "nat \<Rightarrow> int"   \<comment> \<open>what the fabrics connect command of a queue returns\<close>

section \<open>Operations\<close>

text \<open>\<open>for (i--; i >= 1; i--)\<close> from the error labels.\<close>

fun free_queues_down :: "nat \<Rightarrow> nvme_rdma_ctrl \<Rightarrow> nvme_rdma_ctrl" where
  "free_queues_down 0 r = r"
| "free_queues_down (Suc i) r = free_queues_down i (nvme_rdma_free_queue (Suc i) r)"

fun stop_queues_down :: "nat \<Rightarrow> nvme_rdma_ctrl \<Rightarrow> nvme_rdma_ctrl" where
  "stop_queues_down 0 r = r"
| "stop_queues_down (Suc i) r = stop_queues_down i (nvme_rdma_stop_queue (Suc i) r)"

text \<open>\<open>for (i = 1; i < queue_count; i++)\<close>.\<close>

abbreviation io_queue_ids :: "nvme_rdma_ctrl \<Rightarrow> nat list" where
  "io_queue_ids r \<equiv> [1..<c_queue_count (r_ctrl r)]"

definition nvme_rdma_free_io_queues :: "nvme_rdma_ctrl \<Rightarrow> nvme_rdma_ctrl" where
  "nvme_rdma_free_io_queues r = fold nvme_rdma_free_queue (io_queue_ids r) r"

definition nvme_rdma_stop_io_queues :: "nvme_rdma_ctrl \<Rightarrow> nvme_rdma_ctrl" where
  "nvme_rdma_stop_io_queues r = fold nvme_rdma_stop_queue (io_queue_ids r) r"

fun start_queues :: "(nat \<Rightarrow> int) \<Rightarrow> nat list \<Rightarrow> nvme_rdma_ctrl \<Rightarrow> int \<times> nvme_rdma_ctrl" where
  "start_queues connect [] r = (0, r)"
| "start_queues connect (i # js) r =
     (let (ret, r) = nvme_rdma_start_queue connect i r
      in if ret \<noteq> 0 then (ret, stop_queues_down (i - 1) r) else start_queues connect js r)"

definition nvme_rdma_start_io_queues :: "io_env \<Rightarrow> nvme_rdma_ctrl \<Rightarrow> int \<times> nvme_rdma_ctrl" where
  "nvme_rdma_start_io_queues e r = start_queues (ie_connect e) (io_queue_ids r) r"

fun alloc_queues :: "(nat \<Rightarrow> queue_env) \<Rightarrow> nat \<Rightarrow> nat list \<Rightarrow> nvme_rdma_ctrl \<Rightarrow> int \<times> nvme_rdma_ctrl" where
  "alloc_queues e qsize [] r = (0, r)"
| "alloc_queues e qsize (i # js) r =
     (let (ret, r) = nvme_rdma_alloc_queue (e i) i qsize r
      in if ret \<noteq> 0 then (ret, free_queues_down (i - 1) r) else alloc_queues e qsize js r)"

text \<open>
  The division of \<open>nr_io\<close> queues; the counts of kinds that get no queue in this call keep the value
  an earlier call left in them.
\<close>

definition set_io_queues :: "nat \<Rightarrow> nat \<Rightarrow> nat \<Rightarrow> nat \<Rightarrow> nvme_rdma_ctrl \<Rightarrow> nvme_rdma_ctrl" where
  "set_io_queues nr_read nr_default nr_poll nr_io r =
     (let opts = c_opts (r_ctrl r);
          (nr_io, r) =
            (if o_nr_write_queues opts \<noteq> 0 \<and> nr_read < nr_io
             then let r = r\<lparr>r_io_read := nr_read\<rparr>;
                      nr_io = nr_io - r_io_read r;
                      r = r\<lparr>r_io_default := min nr_default nr_io\<rparr>
                  in (nr_io - r_io_default r, r)
             else let r = r\<lparr>r_io_default := min nr_read nr_io\<rparr>
                  in (nr_io - r_io_default r, r))
      in if o_nr_poll_queues opts \<noteq> 0 \<and> nr_io \<noteq> 0 then r\<lparr>r_io_poll := min nr_poll nr_io\<rparr> else r)"

definition nr_read_queues :: "io_env \<Rightarrow> nvmf_ctrl_options \<Rightarrow> nat" where
  "nr_read_queues e opts = min (ie_num_comp_vectors e) (min (o_nr_io_queues opts) (ie_online_cpus e))"

definition nr_default_queues :: "io_env \<Rightarrow> nvmf_ctrl_options \<Rightarrow> nat" where
  "nr_default_queues e opts = min (ie_num_comp_vectors e) (min (o_nr_write_queues opts) (ie_online_cpus e))"

definition nr_poll_queues :: "io_env \<Rightarrow> nvmf_ctrl_options \<Rightarrow> nat" where
  "nr_poll_queues e opts = min (o_nr_poll_queues opts) (ie_online_cpus e)"

text \<open>The first half of \<open>nvme_rdma_alloc_io_queues\<close>: everything up to the allocation loop.\<close>

definition size_io_queues :: "io_env \<Rightarrow> nvme_rdma_ctrl \<Rightarrow> int \<times> nvme_rdma_ctrl" where
  "size_io_queues e r =
     (let opts = c_opts (r_ctrl r);
          nr_read = nr_read_queues e opts;
          nr_default = nr_default_queues e opts;
          nr_poll = nr_poll_queues e opts;
          (ret, nr_io, c) = nvme_set_queue_count (ie_features e) (nr_read + nr_default + nr_poll) (r_ctrl r)
      in if ret \<noteq> 0 then (ret, r\<lparr>r_ctrl := c\<rparr>)
      else
        let r = r\<lparr>r_ctrl := c\<lparr>c_queue_count := nr_io + 1\<rparr>\<rparr>
        in if c_queue_count (r_ctrl r) < 2 then (0, r)
           else (0, set_io_queues nr_read nr_default nr_poll nr_io r))"

definition nvme_rdma_alloc_io_queues :: "io_env \<Rightarrow> nvme_rdma_ctrl \<Rightarrow> int \<times> nvme_rdma_ctrl" where
  "nvme_rdma_alloc_io_queues e r =
     (let (ret, r) = size_io_queues e r
      in if ret \<noteq> 0 then (ret, r)
      else alloc_queues (ie_queue e) (unat (c_sqsize (r_ctrl r)) + 1) (io_queue_ids r) r)"

section \<open>The block layer's queue map\<close>

record queue_map =
  m_nr_queues :: nat
  m_queue_offset :: nat

text \<open>
  \<open>set->map\<close> for the default, read and poll kinds; the poll entry is only written when there are
  poll queues (the tag set was zeroed when it was allocated).
\<close>

definition nvme_rdma_map_queues ::
  "nvme_rdma_ctrl \<Rightarrow> queue_map \<times> queue_map \<times> queue_map \<Rightarrow> queue_map \<times> queue_map \<times> queue_map" where
  "nvme_rdma_map_queues r maps =
     (let opts = c_opts (r_ctrl r);
          (md, mr) =
            (if o_nr_write_queues opts \<noteq> 0 \<and> r_io_read r \<noteq> 0
             then (\<lparr>m_nr_queues = r_io_default r, m_queue_offset = 0\<rparr>,
                   \<lparr>m_nr_queues = r_io_read r, m_queue_offset = r_io_default r\<rparr>)
             else (\<lparr>m_nr_queues = r_io_default r, m_queue_offset = 0\<rparr>,
                   \<lparr>m_nr_queues = r_io_default r, m_queue_offset = 0\<rparr>));
          mp = (if o_nr_poll_queues opts \<noteq> 0 \<and> r_io_poll r \<noteq> 0
                then \<lparr>m_nr_queues = r_io_poll r, m_queue_offset = r_io_default r + r_io_read r\<rparr>
                else snd (snd maps))
      in (md, mr, mp))"

section \<open>Sets of queues\<close>

text \<open>
  \<open>queues_ok ext U L r\<close>: exactly the queues in \<open>U\<close> are set up, those in \<open>L\<close> are connected, all others
  hold nothing, and every device has one reference per queue that uses it on top of the \<open>ext\<close>
  references of other controllers.
\<close>

definition dev_users :: "nat set \<Rightarrow> nvme_rdma_ctrl \<Rightarrow> nat \<Rightarrow> nat" where
  "dev_users U r a = card {i \<in> U. q_device (queue r i) = Some a}"

definition queues_ok :: "(nat \<Rightarrow> nat) \<Rightarrow> nat set \<Rightarrow> nat set \<Rightarrow> nvme_rdma_ctrl \<Rightarrow> bool" where
  "queues_ok ext U L r \<longleftrightarrow>
     devs_ok (r_devs r) \<and> L \<subseteq> U \<and> U \<subseteq> {..<length (r_queues r)} \<and>
     (\<forall>i \<in> U. queue_up i r \<and> (q_live (queue r i) \<longleftrightarrow> i \<in> L)) \<and>
     (\<forall>i < length (r_queues r). i \<notin> U \<longrightarrow> queue_idle i r) \<and>
     (\<forall>a. refs (r_devs r) a = ext a + dev_users U r a)"

lemma queues_ok_up: "queues_ok ext U L r \<Longrightarrow> i \<in> U \<Longrightarrow> queue_up i r"
  by (simp add: queues_ok_def)

lemma queues_ok_length: "queues_ok ext U L r \<Longrightarrow> i \<in> U \<Longrightarrow> i < length (r_queues r)"
  by (auto simp: queues_ok_def)

lemma queues_ok_live: "queues_ok ext U L r \<Longrightarrow> i \<in> U \<Longrightarrow> q_live (queue r i) \<longleftrightarrow> i \<in> L"
  by (simp add: queues_ok_def)

lemma queues_ok_idle: "queues_ok ext U L r \<Longrightarrow> i < length (r_queues r) \<Longrightarrow> i \<notin> U \<Longrightarrow> queue_idle i r"
  by (simp add: queues_ok_def)

lemma queues_ok_devs: "queues_ok ext U L r \<Longrightarrow> devs_ok (r_devs r)"
  by (simp add: queues_ok_def)

lemma queues_ok_sub: "queues_ok ext U L r \<Longrightarrow> L \<subseteq> U \<and> finite U"
  by (auto simp: queues_ok_def intro: finite_subset)

lemma frame_up: "queue_frame k r r' \<Longrightarrow> i \<noteq> k \<Longrightarrow> queue_up i r' = queue_up i r"
  by (simp add: queue_frame_def queue_up_def)

lemma frame_idle: "queue_frame k r r' \<Longrightarrow> i \<noteq> k \<Longrightarrow> queue_idle i r' = queue_idle i r"
  by (simp add: queue_frame_def queue_idle_def)

lemma frame_queue: "queue_frame k r r' \<Longrightarrow> i \<noteq> k \<Longrightarrow> queue r' i = queue r i"
  by (simp add: queue_frame_def)

lemma dev_users_frame: "queue_frame k r r' \<Longrightarrow> k \<notin> U \<Longrightarrow> dev_users U r' a = dev_users U r a"
  unfolding dev_users_def by (rule arg_cong [where f = card]) (auto simp: queue_frame_def)

lemma dev_users_same:
  assumes "queue_frame k r r'" and "q_device (queue r' k) = q_device (queue r k)"
  shows "dev_users U r' a = dev_users U r a"
proof -
  have "q_device (queue r' i) = q_device (queue r i)" for i
    using assms by (cases "i = k") (simp_all add: frame_queue)
  then show ?thesis by (simp add: dev_users_def)
qed

lemma queues_okI:
  assumes "devs_ok (r_devs r)" and "L \<subseteq> U" and "U \<subseteq> {..<length (r_queues r)}"
    and "\<And>i. i \<in> U \<Longrightarrow> queue_up i r \<and> (q_live (queue r i) \<longleftrightarrow> i \<in> L)"
    and "\<And>i. i < length (r_queues r) \<Longrightarrow> i \<notin> U \<Longrightarrow> queue_idle i r"
    and "\<And>a. refs (r_devs r) a = ext a + dev_users U r a"
  shows "queues_ok ext U L r"
  using assms by (simp add: queues_ok_def)

lemma queues_ok_refs: "queues_ok ext U L r \<Longrightarrow> refs (r_devs r) a = ext a + dev_users U r a"
  by (simp add: queues_ok_def)

lemma queues_ok_ids: "queues_ok ext U L r \<Longrightarrow> U \<subseteq> {..<length (r_queues r)}"
  by (simp add: queues_ok_def)

text \<open>The queues other than the one a step works on.\<close>

lemma frame_others:
  assumes "queues_ok ext U L r" and "queue_frame k r r'"
  shows "i \<in> U \<Longrightarrow> i \<noteq> k \<Longrightarrow> queue_up i r' \<and> (q_live (queue r' i) \<longleftrightarrow> i \<in> L)"
    and "i < length (r_queues r') \<Longrightarrow> i \<notin> U \<Longrightarrow> i \<noteq> k \<Longrightarrow> queue_idle i r'"
  using assms queues_ok_idle [OF assms(1), of i]
  by (auto simp: queues_ok_def frame_up frame_queue frame_idle queue_frame_length)

lemma dev_users_insert:
  assumes "finite U" and "k \<notin> U"
  shows "dev_users (insert k U) r a = dev_users U r a + (if q_device (queue r k) = Some a then 1 else 0)"
proof -
  have "{i \<in> insert k U. q_device (queue r i) = Some a} =
      (if q_device (queue r k) = Some a then insert k {i \<in> U. q_device (queue r i) = Some a}
       else {i \<in> U. q_device (queue r i) = Some a})"
    by auto
  with assms show ?thesis by (simp add: dev_users_def)
qed

lemma dev_users_remove:
  assumes "finite U" and "k \<in> U"
  shows "dev_users U r a = dev_users (U - {k}) r a + (if q_device (queue r k) = Some a then 1 else 0)"
  using dev_users_insert [of "U - {k}" k r a] assms by (simp add: insert_absorb)

lemma alloc_queue_ok:
  assumes q: "queues_ok ext U L r" and k: "k \<notin> U" "k < length (r_queues r)"
    and e: "dev_env_ok (qe_dev e) (r_devs r)"
      "cm_events_ok e k (qe_events e) Cm_addr (snd (alloc_queue_resolve e k n r))"
    and c: "nvme_rdma_alloc_queue e k n r = (ret, r')"
  shows "queue_frame k r r' \<and> queues_ok ext (if ret = 0 then insert k U else U) L r'"
proof -
  note res = alloc_queue_result [OF k(2) queues_ok_idle [OF q k(2,1)] queues_ok_devs [OF q] e c]
  then have f: "queue_frame k r r'" by blast
  have len: "length (r_queues r') = length (r_queues r)" using f by (simp add: queue_frame_def)
  have fin: "finite U" "k \<notin> L" "L \<subseteq> U" using queues_ok_sub [OF q] k by auto
  note others = frame_others [OF q f]
  have "queues_ok ext (if ret = 0 then insert k U else U) L r'"
  proof (cases "ret = 0")
    case False
    with res have d: "r_devs r' = r_devs r" and idle: "queue_idle k r'" by auto
    have "queues_ok ext U L r'"
    proof (rule queues_okI)
      show "refs (r_devs r') a = ext a + dev_users U r' a" for a
        using queues_ok_refs [OF q] by (simp add: d dev_users_frame [OF f k(1)])
      show "queue_idle i r'" if "i < length (r_queues r')" "i \<notin> U" for i
        using others(2) [OF that] idle by blast
      show "queue_up i r' \<and> (q_live (queue r' i) \<longleftrightarrow> i \<in> L)" if "i \<in> U" for i
        using others(1) [OF that] that k(1) by blast
    qed (use queues_ok_devs [OF q] queues_ok_ids [OF q] fin d len in simp_all)
    with False show ?thesis by simp
  next
    case True
    with res obtain a where a: "q_device (queue r' k) = Some a" "queue_up k r'" "\<not> q_live (queue r' k)"
      "nvme_rdma_find_get_device (qe_dev e) (r_devs r) = (Some a, r_devs r')"
      by auto
    have "queues_ok ext (insert k U) L r'"
    proof (rule queues_okI)
      show "devs_ok (r_devs r')"
        using find_get_device_ok [OF queues_ok_devs [OF q] e(1)] a(4) by simp
      show "refs (r_devs r') b = ext b + dev_users (insert k U) r' b" for b
        using find_get_device_refs [OF queues_ok_devs [OF q] e(1) a(4), of b] queues_ok_refs [OF q] a(1)
        by (simp add: dev_users_insert [OF fin(1) k(1)] dev_users_frame [OF f k(1)])
      show "queue_idle i r'" if "i < length (r_queues r')" "i \<notin> insert k U" for i
        using others(2) [OF that(1)] that(2) by blast
      show "queue_up i r' \<and> (q_live (queue r' i) \<longleftrightarrow> i \<in> L)" if "i \<in> insert k U" for i
        using others(1) [of i] that a(2,3) fin(2) by blast
    qed (use queues_ok_ids [OF q] fin k len in auto)
    with True show ?thesis by simp
  qed
  with f show ?thesis by blast
qed

lemma free_queue_ok:
  assumes q: "queues_ok ext U L r" and k: "k < length (r_queues r)" "k \<notin> L"
  shows "queue_frame k r (nvme_rdma_free_queue k r) \<and> queues_ok ext (U - {k}) L (nvme_rdma_free_queue k r)"
proof (cases "k \<in> U")
  case False
  with queues_ok_idle [OF q k(1)] q show ?thesis
    by (simp add: queue_idle_def free_queue_idle)
next
  case True
  let ?r = "nvme_rdma_free_queue k r"
  from queues_ok_up [OF q True] obtain a where a: "q_device (queue r k) = Some a"
    by (auto simp: queue_up_def)
  note fr = free_queue_up [OF k(1) queues_ok_up [OF q True] a]
  then have f: "queue_frame k r ?r" by blast
  have len: "length (r_queues ?r) = length (r_queues r)" using f by (simp add: queue_frame_def)
  have fin: "finite U" "L \<subseteq> U" using queues_ok_sub [OF q] by auto
  have "queues_ok ext (U - {k}) L ?r"
  proof (rule queues_okI)
    show "devs_ok (r_devs ?r)" using fr dev_put_ok queues_ok_devs [OF q] by simp
    show "refs (r_devs ?r) b = ext b + dev_users (U - {k}) ?r b" for b
      using fr dev_put_refs [OF queues_ok_devs [OF q], of a b] queues_ok_refs [OF q, of b]
        dev_users_remove [OF fin(1) True, of r b] a
      by (auto simp: dev_users_frame [OF f])
    show "queue_up i ?r \<and> (q_live (queue ?r i) \<longleftrightarrow> i \<in> L)" if "i \<in> U - {k}" for i
      using frame_others(1) [OF q f, of i] that by blast
    have "queue_idle k ?r"
      using fr queues_ok_live [OF q True] k(2) by (simp add: queue_idle_def)
    then show "queue_idle i ?r" if "i < length (r_queues ?r)" "i \<notin> U - {k}" for i
      using frame_others(2) [OF q f that(1)] that(2) by (cases "i = k") auto
  qed (use queues_ok_ids [OF q] fin k len in auto)
  with f show ?thesis by blast
qed

text \<open>Operations that only move the LIVE bit of a queue that is set up.\<close>

lemma live_queue_ok:
  assumes q: "queues_ok ext U L r" and k: "k \<in> U" and f: "queue_frame k r r'"
    and up: "queue_up k r'" and d: "r_devs r' = r_devs r" "q_device (queue r' k) = q_device (queue r k)"
    and live: "q_live (queue r' k) \<longleftrightarrow> k \<in> L'" and L': "L' - {k} = L - {k}"
  shows "queues_ok ext U L' r'"
proof (rule queues_okI)
  have len: "length (r_queues r') = length (r_queues r)" using f by (simp add: queue_frame_def)
  show "L' \<subseteq> U" using queues_ok_sub [OF q] k L' by auto
  show "devs_ok (r_devs r')" "U \<subseteq> {..<length (r_queues r')}"
    using queues_ok_devs [OF q] queues_ok_ids [OF q] d len by simp_all
  show "refs (r_devs r') a = ext a + dev_users U r' a" for a
    using queues_ok_refs [OF q] by (simp add: d(1) dev_users_same [OF f d(2)])
  show "queue_up i r' \<and> (q_live (queue r' i) \<longleftrightarrow> i \<in> L')" if "i \<in> U" for i
    using frame_others(1) [OF q f that] up live L' by (cases "i = k") auto
  show "queue_idle i r'" if "i < length (r_queues r')" "i \<notin> U" for i
    using frame_others(2) [OF q f that] that(2) k by blast
qed

lemma stop_queue_ok:
  assumes q: "queues_ok ext U L r" and k: "k < length (r_queues r)"
  shows "queue_frame k r (nvme_rdma_stop_queue k r) \<and> queues_ok ext U (L - {k}) (nvme_rdma_stop_queue k r)"
proof (cases "k \<in> U")
  case True
  from stop_queue_up [OF k queues_ok_up [OF q True]] show ?thesis
    by (auto intro!: live_queue_ok [OF q True])
next
  case False
  with queues_ok_idle [OF q k] q show ?thesis
    by (auto simp: queue_idle_def stop_queue_not_live queues_ok_def)
qed

lemma start_queue_ok:
  assumes q: "queues_ok ext U L r" and k: "k \<in> U"
    and c: "nvme_rdma_start_queue connect k r = (ret, r')"
  shows "queue_frame k r r' \<and> ret = connect k \<and>
    queues_ok ext U (if ret = 0 then insert k L else L) r'"
proof -
  note st = start_queue_up [OF queues_ok_length [OF q k] queues_ok_up [OF q k] c]
  moreover have "queues_ok ext U (if ret = 0 then insert k L else L) r'"
    using st queues_ok_live [OF q k] by (intro live_queue_ok [OF q k]) auto
  ultimately show ?thesis by blast
qed

section \<open>Loops over the I/O queues\<close>

definition static_frame :: "nvme_rdma_ctrl \<Rightarrow> nvme_rdma_ctrl \<Rightarrow> bool" where
  "static_frame r r' \<longleftrightarrow>
     length (r_queues r') = length (r_queues r) \<and>
     r_io_default r' = r_io_default r \<and> r_io_read r' = r_io_read r \<and> r_io_poll r' = r_io_poll r \<and>
     r_device r' = r_device r \<and> r_async_sqe r' = r_async_sqe r \<and>
     c_opts (r_ctrl r') = c_opts (r_ctrl r) \<and> c_queue_count (r_ctrl r') = c_queue_count (r_ctrl r) \<and>
     c_sqsize (r_ctrl r') = c_sqsize (r_ctrl r) \<and> c_ioccsz (r_ctrl r') = c_ioccsz (r_ctrl r)"

lemma static_frame_refl [simp, intro]: "static_frame r r"
  by (simp add: static_frame_def)

lemma static_frame_trans: "static_frame r r' \<Longrightarrow> static_frame r' r'' \<Longrightarrow> static_frame r r''"
  by (simp add: static_frame_def)

lemma queue_frame_static: "queue_frame k r r' \<Longrightarrow> static_frame r r'"
  by (simp add: queue_frame_def static_frame_def)

lemma static_frame_length: "static_frame r r' \<Longrightarrow> length (r_queues r') = length (r_queues r)"
  by (simp add: static_frame_def)

lemma free_queues_fold_ok:
  assumes "queues_ok ext U L r" and "\<forall>k \<in> set ks. k < length (r_queues r) \<and> k \<notin> L"
  shows "static_frame r (fold nvme_rdma_free_queue ks r) \<and>
    queues_ok ext (U - set ks) L (fold nvme_rdma_free_queue ks r)"
  using assms
proof (induction ks arbitrary: r U)
  case Nil
  then show ?case by simp
next
  case (Cons k ks)
  let ?r = "nvme_rdma_free_queue k r"
  from free_queue_ok [OF Cons.prems(1)] Cons.prems(2)
  have k: "static_frame r ?r" "queues_ok ext (U - {k}) L ?r"
    by (auto intro: queue_frame_static)
  then have "\<forall>k \<in> set ks. k < length (r_queues ?r) \<and> k \<notin> L"
    using Cons.prems(2) by (simp add: static_frame_length)
  from Cons.IH [OF k(2) this] k(1) show ?case
    by (auto intro: static_frame_trans simp: Diff_insert [symmetric] Diff_insert2 [symmetric])
qed

lemma stop_queues_fold_ok:
  assumes "queues_ok ext U L r" and "\<forall>k \<in> set ks. k < length (r_queues r)"
  shows "static_frame r (fold nvme_rdma_stop_queue ks r) \<and>
    queues_ok ext U (L - set ks) (fold nvme_rdma_stop_queue ks r)"
  using assms
proof (induction ks arbitrary: r L)
  case Nil
  then show ?case by simp
next
  case (Cons k ks)
  let ?r = "nvme_rdma_stop_queue k r"
  from stop_queue_ok [OF Cons.prems(1)] Cons.prems(2)
  have k: "static_frame r ?r" "queues_ok ext U (L - {k}) ?r"
    by (auto intro: queue_frame_static)
  then have "\<forall>k \<in> set ks. k < length (r_queues ?r)"
    using Cons.prems(2) by (simp add: static_frame_length)
  from Cons.IH [OF k(2) this] k(1) show ?case
    by (auto intro: static_frame_trans simp: Diff_insert [symmetric] Diff_insert2 [symmetric])
qed

lemma free_queues_down_fold: "free_queues_down n r = fold nvme_rdma_free_queue (rev [1..<Suc n]) r"
  by (induction n arbitrary: r) simp_all

lemma stop_queues_down_fold: "stop_queues_down n r = fold nvme_rdma_stop_queue (rev [1..<Suc n]) r"
  by (induction n arbitrary: r) simp_all

lemma free_queues_down_ok:
  assumes "queues_ok ext U L r" and "n < length (r_queues r)" and "L \<inter> {1..<Suc n} = {}"
  shows "static_frame r (free_queues_down n r) \<and> queues_ok ext (U - {1..<Suc n}) L (free_queues_down n r)"
  using free_queues_fold_ok [OF assms(1), of "rev [1..<Suc n]"] assms(2,3)
  by (auto simp: free_queues_down_fold simp del: upt_Suc)

lemma stop_queues_down_ok:
  assumes "queues_ok ext U L r" and "n < length (r_queues r)"
  shows "static_frame r (stop_queues_down n r) \<and> queues_ok ext U (L - {1..<Suc n}) (stop_queues_down n r)"
  using stop_queues_fold_ok [OF assms(1), of "rev [1..<Suc n]"] assms(2)
  by (auto simp: stop_queues_down_fold simp del: upt_Suc)

text \<open>The answers the allocation loop meets are ones the kernel can give at that point.\<close>

fun alloc_env_ok :: "(nat \<Rightarrow> queue_env) \<Rightarrow> nat \<Rightarrow> nat list \<Rightarrow> nvme_rdma_ctrl \<Rightarrow> bool" where
  "alloc_env_ok e n [] r = True"
| "alloc_env_ok e n (i # js) r =
     (dev_env_ok (qe_dev (e i)) (r_devs r) \<and>
      cm_events_ok (e i) i (qe_events (e i)) Cm_addr (snd (alloc_queue_resolve (e i) i n r)) \<and>
      (let (ret, r) = nvme_rdma_alloc_queue (e i) i n r in ret = 0 \<longrightarrow> alloc_env_ok e n js r))"

lemma alloc_queues_ok:
  assumes "queues_ok ext U L r" and "1 \<le> i" and "m \<le> length (r_queues r)"
    and "U \<inter> {i..<m} = {}" and "L \<inter> {1..<m} = {}"
    and "alloc_env_ok e n [i..<m] r" and "alloc_queues e n [i..<m] r = (ret, r')"
  shows "static_frame r r' \<and>
    queues_ok ext (if ret = 0 then U \<union> {i..<m} else U - {1..<m}) L r'"
  using assms
proof (induction "m - i" arbitrary: i U r)
  case 0
  then show ?case by simp
next
  case (Suc d)
  then have im: "i < m" and js: "[i..<m] = i # [Suc i..<m]" by (simp_all add: upt_conv_Cons)
  obtain ret1 r1 where c1: "nvme_rdma_alloc_queue (e i) i n r = (ret1, r1)" by fastforce
  have i: "i \<notin> U" "i < length (r_queues r)" using Suc.prems im by auto
  from Suc.prems(6) have env: "dev_env_ok (qe_dev (e i)) (r_devs r)"
    "cm_events_ok (e i) i (qe_events (e i)) Cm_addr (snd (alloc_queue_resolve (e i) i n r))"
    "ret1 = 0 \<Longrightarrow> alloc_env_ok e n [Suc i..<m] r1"
    unfolding js by (auto simp: c1)
  from alloc_queue_ok [OF Suc.prems(1) i env(1,2) c1]
  have r1: "static_frame r r1" "queues_ok ext (if ret1 = 0 then insert i U else U) L r1"
    by (auto intro: queue_frame_static)
  note len = static_frame_length [OF r1(1)]
  show ?case
  proof (cases "ret1 = 0")
    case True
    with Suc.prems(7) have c2: "alloc_queues e n [Suc i..<m] r1 = (ret, r')"
      unfolding js by (simp add: c1)
    have "static_frame r1 r' \<and>
        queues_ok ext (if ret = 0 then insert i U \<union> {Suc i..<m} else insert i U - {1..<m}) L r'"
    proof (rule Suc.hyps(1))
      show "d = m - Suc i" using Suc.hyps(2) by simp
      show "queues_ok ext (insert i U) L r1" using r1 True by simp
    qed (use Suc.prems im len env(3) True c2 in auto)
    moreover have "insert i U \<union> {Suc i..<m} = U \<union> {i..<m}" "insert i U - {1..<m} = U - {1..<m}"
      using im Suc.prems(2) by auto
    ultimately show ?thesis using r1(1) by (auto intro: static_frame_trans)
  next
    case False
    with Suc.prems(7) have r': "ret \<noteq> 0" "r' = free_queues_down (i - 1) r1"
      unfolding js by (simp_all add: c1 split: if_splits)
    have e: "{1..<Suc (i - 1)} = {1..<i}" using Suc.prems(2) by simp
    have "L \<inter> {1..<i} = {}" using Suc.prems(5) im by auto
    with free_queues_down_ok [of ext U L r1 "i - 1"] r1 False len i
    have "static_frame r1 r' \<and> queues_ok ext (U - {1..<i}) L r'"
      unfolding r'(2) e by auto
    moreover have "U - {1..<i} = U - {1..<m}" using Suc.prems(2,4) im by auto
    ultimately show ?thesis using r'(1) r1(1) by (auto intro: static_frame_trans)
  qed
qed

lemma start_queues_ok:
  assumes "queues_ok ext U L r" and "1 \<le> i" and "{i..<m} \<subseteq> U" and "L \<inter> {i..<m} = {}"
    and "start_queues connect [i..<m] r = (ret, r')"
  shows "static_frame r r' \<and> (ret = 0 \<longleftrightarrow> (\<forall>k \<in> {i..<m}. connect k = 0)) \<and>
    queues_ok ext U (if ret = 0 then L \<union> {i..<m} else L - {1..<m}) r'"
  using assms
proof (induction "m - i" arbitrary: i L r)
  case 0
  then show ?case by simp
next
  case (Suc d)
  then have im: "i < m" and js: "[i..<m] = i # [Suc i..<m]" by (simp_all add: upt_conv_Cons)
  obtain ret1 r1 where c1: "nvme_rdma_start_queue connect i r = (ret1, r1)" by fastforce
  have i: "i \<in> U" using Suc.prems(3) im by auto
  from start_queue_ok [OF Suc.prems(1) i c1]
  have r1: "static_frame r r1" "ret1 = connect i" "queues_ok ext U (if ret1 = 0 then insert i L else L) r1"
    by (auto intro: queue_frame_static)
  have set: "{i..<m} = insert i {Suc i..<m}" using im by auto
  show ?case
  proof (cases "ret1 = 0")
    case True
    with Suc.prems(5) have c2: "start_queues connect [Suc i..<m] r1 = (ret, r')"
      unfolding js by (simp add: c1)
    have "static_frame r1 r' \<and> (ret = 0 \<longleftrightarrow> (\<forall>k \<in> {Suc i..<m}. connect k = 0)) \<and>
        queues_ok ext U (if ret = 0 then insert i L \<union> {Suc i..<m} else insert i L - {1..<m}) r'"
    proof (rule Suc.hyps(1))
      show "d = m - Suc i" using Suc.hyps(2) by simp
      show "queues_ok ext U (insert i L) r1" using r1 True by simp
    qed (use Suc.prems im c2 in auto)
    moreover have "insert i L \<union> {Suc i..<m} = L \<union> {i..<m}" "insert i L - {1..<m} = L - {1..<m}"
      using im Suc.prems(2) by auto
    ultimately show ?thesis using r1(1,2) True set by (auto intro: static_frame_trans)
  next
    case False
    with Suc.prems(5) have r': "ret = ret1" "r' = stop_queues_down (i - 1) r1"
      unfolding js by (simp_all add: c1 split: if_splits)
    have e: "{1..<Suc (i - 1)} = {1..<i}" using Suc.prems(2) by simp
    have "i - 1 < length (r_queues r1)"
      using queues_ok_length [OF Suc.prems(1) i] static_frame_length [OF r1(1)] by simp
    from stop_queues_down_ok [OF _ this] r1(3) False
    have "static_frame r1 r' \<and> queues_ok ext U (L - {1..<i}) r'"
      unfolding r'(2) e by auto
    moreover have "L - {1..<i} = L - {1..<m}" using Suc.prems(2,4) im by auto
    ultimately show ?thesis using r'(1) r1(1,2) False im by (auto intro: static_frame_trans)
  qed
qed

section \<open>The split and the map\<close>

lemma set_io_queues_fields [simp]:
  "r_queues (set_io_queues a b p n r) = r_queues r"
  "r_devs (set_io_queues a b p n r) = r_devs r"
  "r_ctrl (set_io_queues a b p n r) = r_ctrl r"
  "r_device (set_io_queues a b p n r) = r_device r"
  "r_async_sqe (set_io_queues a b p n r) = r_async_sqe r"
  by (simp_all add: set_io_queues_def Let_def)

lemma set_queue_count_fields:
  assumes "nvme_set_queue_count fe n c = (ret, m, c')"
  shows "m \<le> n" "c_opts c' = c_opts c" "c_sqsize c' = c_sqsize c" "c_ioccsz c' = c_ioccsz c"
    "c_state c' = c_state c" "c_tagset c' = c_tagset c" "calls_of i (c_trace c') = calls_of i (c_trace c)"
  using assms
  by (simp_all add: nvme_set_queue_count_def nvme_set_features_def Let_def call_def split: if_splits)
    auto

lemma size_io_queues_unfold:
  assumes "nvme_set_queue_count (ie_features e) (nr_read_queues e (c_opts (r_ctrl r)) +
      nr_default_queues e (c_opts (r_ctrl r)) + nr_poll_queues e (c_opts (r_ctrl r))) (r_ctrl r) = (ret, nr, c)"
  shows "size_io_queues e r = (ret, if ret \<noteq> 0 then r\<lparr>r_ctrl := c\<rparr>
      else if nr = 0 then r\<lparr>r_ctrl := c\<lparr>c_queue_count := 1\<rparr>\<rparr>
      else set_io_queues (nr_read_queues e (c_opts (r_ctrl r))) (nr_default_queues e (c_opts (r_ctrl r)))
        (nr_poll_queues e (c_opts (r_ctrl r))) nr (r\<lparr>r_ctrl := c\<lparr>c_queue_count := nr + 1\<rparr>\<rparr>))"
  using assms by (simp add: size_io_queues_def Let_def)

text \<open>
  \<open>split_ok\<close>: the three counts share out exactly the queues there are, and a kind nobody asked for
  gets none.
\<close>

definition split_ok :: "nvme_rdma_ctrl \<Rightarrow> bool" where
  "split_ok r \<longleftrightarrow> r_io_default r + r_io_read r + r_io_poll r + 1 = c_queue_count (r_ctrl r) \<and>
     r_io_poll r \<le> o_nr_poll_queues (c_opts (r_ctrl r)) \<and>
     (o_nr_write_queues (c_opts (r_ctrl r)) = 0 \<longrightarrow> r_io_read r = 0)"

lemma set_io_queues_split:
  assumes "r_io_read r = 0" and "r_io_poll r = 0"
    and "nr_io \<le> nr_read + nr_default + nr_poll"
    and "nr_default \<le> o_nr_write_queues (c_opts (r_ctrl r))"
    and "nr_poll \<le> o_nr_poll_queues (c_opts (r_ctrl r))"
    and "c_queue_count (r_ctrl r) = nr_io + 1"
  shows "split_ok (set_io_queues nr_read nr_default nr_poll nr_io r)"
proof (cases "o_nr_write_queues (c_opts (r_ctrl r)) \<noteq> 0 \<and> nr_read < nr_io")
  case True
  with assms show ?thesis
    by (auto simp: set_io_queues_def split_ok_def Let_def min_def)
next
  case False
  with assms show ?thesis
    by (auto simp: set_io_queues_def split_ok_def Let_def min_def)
qed

lemma size_io_queues_cases:
  obtains ret nr c where
    "nvme_set_queue_count (ie_features e) (nr_read_queues e (c_opts (r_ctrl r)) +
      nr_default_queues e (c_opts (r_ctrl r)) + nr_poll_queues e (c_opts (r_ctrl r))) (r_ctrl r) = (ret, nr, c)"
  by (metis prod_cases3)

lemma size_io_queues_fields:
  assumes "size_io_queues e r = (ret, r')"
  shows "r_queues r' = r_queues r" "r_devs r' = r_devs r" "c_opts (r_ctrl r') = c_opts (r_ctrl r)"
    "c_sqsize (r_ctrl r') = c_sqsize (r_ctrl r)" "c_ioccsz (r_ctrl r') = c_ioccsz (r_ctrl r)"
    "r_device r' = r_device r" "r_async_sqe r' = r_async_sqe r" "queue_calls i r' = queue_calls i r"
    "c_state (r_ctrl r') = c_state (r_ctrl r)" "c_tagset (r_ctrl r') = c_tagset (r_ctrl r)"
proof -
  obtain ret' nr c where s: "nvme_set_queue_count (ie_features e) (nr_read_queues e (c_opts (r_ctrl r)) +
      nr_default_queues e (c_opts (r_ctrl r)) + nr_poll_queues e (c_opts (r_ctrl r))) (r_ctrl r) = (ret', nr, c)"
    by (rule size_io_queues_cases)
  note f = set_queue_count_fields [OF s]
  from assms have r': "r' = snd (size_io_queues e r)" by simp
  show "r_queues r' = r_queues r" "r_devs r' = r_devs r" "c_opts (r_ctrl r') = c_opts (r_ctrl r)"
    "c_sqsize (r_ctrl r') = c_sqsize (r_ctrl r)" "c_ioccsz (r_ctrl r') = c_ioccsz (r_ctrl r)"
    "r_device r' = r_device r" "r_async_sqe r' = r_async_sqe r" "queue_calls i r' = queue_calls i r"
    "c_state (r_ctrl r') = c_state (r_ctrl r)" "c_tagset (r_ctrl r') = c_tagset (r_ctrl r)"
    unfolding r' size_io_queues_unfold [OF s] by (simp_all add: f queue_calls_def)
qed

lemma size_io_queues_count:
  assumes "size_io_queues e r = (0, r')"
  shows "1 \<le> c_queue_count (r_ctrl r') \<and> c_queue_count (r_ctrl r') \<le>
    o_nr_io_queues (c_opts (r_ctrl r)) + o_nr_write_queues (c_opts (r_ctrl r)) +
    o_nr_poll_queues (c_opts (r_ctrl r)) + 1"
proof -
  obtain ret' nr c where s: "nvme_set_queue_count (ie_features e) (nr_read_queues e (c_opts (r_ctrl r)) +
      nr_default_queues e (c_opts (r_ctrl r)) + nr_poll_queues e (c_opts (r_ctrl r))) (r_ctrl r) = (ret', nr, c)"
    by (rule size_io_queues_cases)
  have "nr \<le> o_nr_io_queues (c_opts (r_ctrl r)) + o_nr_write_queues (c_opts (r_ctrl r)) +
    o_nr_poll_queues (c_opts (r_ctrl r))"
    by (rule order_trans [OF set_queue_count_fields(1) [OF s]])
      (simp add: nr_read_queues_def nr_default_queues_def nr_poll_queues_def min_le_iff_disj add_mono)
  with assms show ?thesis
    unfolding size_io_queues_unfold [OF s] by auto
qed

lemma size_io_queues_split:
  assumes "size_io_queues e r = (0, r')" and "r_io_default r = 0" "r_io_read r = 0" "r_io_poll r = 0"
  shows "split_ok r'"
proof -
  obtain ret' nr c where s: "nvme_set_queue_count (ie_features e) (nr_read_queues e (c_opts (r_ctrl r)) +
      nr_default_queues e (c_opts (r_ctrl r)) + nr_poll_queues e (c_opts (r_ctrl r))) (r_ctrl r) = (ret', nr, c)"
    by (rule size_io_queues_cases)
  note f = set_queue_count_fields [OF s]
  show ?thesis
  proof (cases "nr = 0")
    case True
    with assms f show ?thesis unfolding size_io_queues_unfold [OF s] by (auto simp: split_ok_def)
  next
    case False
    with assms have "r' = set_io_queues (nr_read_queues e (c_opts (r_ctrl r))) (nr_default_queues e (c_opts (r_ctrl r)))
        (nr_poll_queues e (c_opts (r_ctrl r))) nr (r\<lparr>r_ctrl := c\<lparr>c_queue_count := nr + 1\<rparr>\<rparr>)"
      unfolding size_io_queues_unfold [OF s] by (auto split: if_splits)
    moreover have "split_ok \<dots>"
      by (rule set_io_queues_split) (use assms f in \<open>simp_all add: nr_default_queues_def nr_poll_queues_def\<close>)
    ultimately show ?thesis by simp
  qed
qed

lemma queues_ok_cong:
  assumes "r_queues r' = r_queues r" and "r_devs r' = r_devs r" and "\<And>i. held i r' = held i r"
  shows "queues_ok ext U L r' = queues_ok ext U L r"
  using assms by (simp add: queues_ok_def queue_up_def queue_idle_def dev_users_def)

lemma size_io_queues_ok:
  "size_io_queues e r = (ret, r') \<Longrightarrow> queues_ok ext U L r' = queues_ok ext U L r"
  by (rule queues_ok_cong) (simp_all add: size_io_queues_fields held_def)

text \<open>The answers met while the I/O queues are allocated are ones the kernel can give.\<close>

definition io_env_ok :: "io_env \<Rightarrow> nvme_rdma_ctrl \<Rightarrow> bool" where
  "io_env_ok e r \<longleftrightarrow> (let r = snd (size_io_queues e r)
     in alloc_env_ok (ie_queue e) (unat (c_sqsize (r_ctrl r)) + 1) (io_queue_ids r) r)"

text \<open>The queue array \<open>nvme_rdma_create_ctrl\<close> allocates.\<close>

definition queue_array_ok :: "nvme_rdma_ctrl \<Rightarrow> bool" where
  "queue_array_ok r \<longleftrightarrow> length (r_queues r) =
     o_nr_io_queues (c_opts (r_ctrl r)) + o_nr_write_queues (c_opts (r_ctrl r)) +
     o_nr_poll_queues (c_opts (r_ctrl r)) + 1"

lemma alloc_io_queues_result:
  assumes q: "queues_ok ext U L r" and U: "U \<subseteq> {0}" and arr: "queue_array_ok r" and env: "io_env_ok e r"
    and c: "nvme_rdma_alloc_io_queues e r = (ret, r')"
  shows "queues_ok ext (if ret = 0 then U \<union> {1..<c_queue_count (r_ctrl r')} else U) L r' \<and>
    length (r_queues r') = length (r_queues r) \<and> c_opts (r_ctrl r') = c_opts (r_ctrl r) \<and>
    (ret = 0 \<longrightarrow> 1 \<le> c_queue_count (r_ctrl r') \<and> c_queue_count (r_ctrl r') \<le> length (r_queues r))"
proof -
  obtain ret1 r1 where s: "size_io_queues e r = (ret1, r1)" by fastforce
  note f = size_io_queues_fields [OF s] and q1 = size_io_queues_ok [OF s, of ext U L]
  show ?thesis
  proof (cases "ret1 = 0")
    case False
    with c s q q1 f show ?thesis by (auto simp: nvme_rdma_alloc_io_queues_def)
  next
    case True
    let ?m = "c_queue_count (r_ctrl r1)"
    have m: "1 \<le> ?m" "?m \<le> length (r_queues r1)"
      using size_io_queues_count [of e r r1] s True arr f by (auto simp: queue_array_ok_def)
    have "static_frame r1 r' \<and> queues_ok ext (if ret = 0 then U \<union> {1..<?m} else U - {1..<?m}) L r'"
    proof (rule alloc_queues_ok)
      show "queues_ok ext U L r1" using q q1 by simp
      show "U \<inter> {1..<?m} = {}" using U by auto
      show "L \<inter> {1..<?m} = {}" using U queues_ok_sub [OF q] by fastforce
      show "alloc_env_ok (ie_queue e) (unat (c_sqsize (r_ctrl r1)) + 1) [1..<?m] r1"
        using env s by (simp add: io_env_ok_def Let_def)
      show "alloc_queues (ie_queue e) (unat (c_sqsize (r_ctrl r1)) + 1) [1..<?m] r1 = (ret, r')"
        using c s True by (simp add: nvme_rdma_alloc_io_queues_def)
    qed (use m in simp_all)
    moreover have "U - {1..<?m} = U" using U by auto
    ultimately show ?thesis using f m by (auto simp: static_frame_def)
  qed
qed

section \<open>Properties\<close>

text \<open>C3. Allocating the I/O queues is all or nothing: on success exactly the queues 1 to
  \<open>queue_count - 1\<close> are set up and \<open>queue_count\<close> fits the queue array; on any failure the queues and
  device references are what they were before the call.\<close>

theorem alloc_io_queues_all_or_nothing:
  assumes "queues_ok ext U L r" and "U \<subseteq> {0}" and "queue_array_ok r" and "io_env_ok e r"
  shows "let (ret, r') = nvme_rdma_alloc_io_queues e r
    in if ret = 0
       then queues_ok ext (U \<union> {1..<c_queue_count (r_ctrl r')}) L r' \<and>
         c_queue_count (r_ctrl r') \<le> length (r_queues r')
       else queues_ok ext U L r'"
proof (cases "nvme_rdma_alloc_io_queues e r")
  case (Pair ret r')
  from alloc_io_queues_result [OF assms Pair] show ?thesis unfolding Pair by auto
qed

definition ioenv0 :: io_env where
  "ioenv0 = \<lparr>ie_num_comp_vectors = 4, ie_online_cpus = 4, ie_features = (\<lambda>_ _. (0, 0)),
     ie_queue = (\<lambda>_. qenv0), ie_connect = (\<lambda>_. 0)\<rparr>"

lemma rctrl0_queues_ok: "queues_ok (\<lambda>_. 0) {} {} (rctrl0 n)"
  by (auto simp: queues_ok_def queue_idle_def rctrl0_def queue0_def held_def queue_calls_def
      nvme_init_ctrl_def devs_ok_def dev_users_def)

lemma rctrl0_array: "queue_array_ok (rctrl0 3)"
  by (simp add: queue_array_ok_def rctrl0_def nvme_init_ctrl_def opts0_def)

lemmas io_example_defs = example_defs ioenv0_def size_io_queues_def set_io_queues_def
  nvme_set_queue_count_def nvme_set_features_def nr_read_queues_def nr_default_queues_def
  nr_poll_queues_def nvme_rdma_alloc_io_queues_def dev_env_ok_def

lemma rctrl0_io_env: "io_env_ok ioenv0 (rctrl0 3)"
  by (simp add: io_env_ok_def io_example_defs numeral_3_eq_3)

lemma rctrl0_alloc_io: "fst (nvme_rdma_alloc_io_queues ioenv0 (rctrl0 3)) = 0"
  "c_queue_count (r_ctrl (snd (nvme_rdma_alloc_io_queues ioenv0 (rctrl0 3)))) = 2"
  by (simp_all add: io_example_defs numeral_3_eq_3)

theorem alloc_io_queues_all_or_nothing_witness:
  "queues_ok (\<lambda>_. 0) {1} {} (snd (nvme_rdma_alloc_io_queues ioenv0 (rctrl0 3)))"
proof -
  have "{1..<2 :: nat} = {1}" by auto
  with alloc_io_queues_all_or_nothing [OF rctrl0_queues_ok _ rctrl0_array rctrl0_io_env] rctrl0_alloc_io
  show ?thesis by (simp add: split_beta Let_def)
qed

definition in_map :: "queue_map \<Rightarrow> nat \<Rightarrow> bool" where
  "in_map m h \<longleftrightarrow> m_queue_offset m \<le> h \<and> h < m_queue_offset m + m_nr_queues m"

definition empty_map :: queue_map where
  "empty_map = \<lparr>m_nr_queues = 0, m_queue_offset = 0\<rparr>"

text \<open>C8. On a controller whose counts start at zero, the block layer's map is right: every hardware
  queue is in the default, read or poll map, no map reaches beyond the hardware queues, dedicated
  read and poll queues overlap no other kind, and a queue's completions are polled exactly when it
  is in the poll map.\<close>

theorem queue_map_tiles:
  assumes "size_io_queues e r = (0, r')"
    and "r_io_default r = 0" "r_io_read r = 0" "r_io_poll r = 0"
  shows "let hw = c_queue_count (r_ctrl r') - 1;
      (md, mr, mp) = nvme_rdma_map_queues r' (empty_map, empty_map, empty_map)
    in (\<forall>h. h < hw \<longleftrightarrow> in_map md h \<or> in_map mr h \<or> in_map mp h) \<and>
      (\<forall>h. in_map mp h \<longrightarrow> \<not> in_map md h \<and> \<not> in_map mr h) \<and>
      (mr = md \<or> (\<forall>h. \<not> (in_map mr h \<and> in_map md h))) \<and>
      (\<forall>h < hw. nvme_rdma_poll_queue (h + 1) r' \<longleftrightarrow> in_map mp h)"
proof -
  from size_io_queues_split [OF assms] have s: "split_ok r'" .
  then have "r_io_default r' + r_io_read r' + r_io_poll r' = c_queue_count (r_ctrl r') - 1"
    unfolding split_ok_def by linarith
  with s show ?thesis
    by (auto simp: nvme_rdma_map_queues_def in_map_def empty_map_def nvme_rdma_poll_queue_def split_ok_def
        Let_def)
qed

theorem queue_map_tiles_witness:
  "nvme_rdma_map_queues (snd (size_io_queues ioenv0 (rctrl0 3))) (empty_map, empty_map, empty_map) =
     (\<lparr>m_nr_queues = 1, m_queue_offset = 0\<rparr>, \<lparr>m_nr_queues = 1, m_queue_offset = 0\<rparr>, empty_map) \<and>
   \<not> nvme_rdma_poll_queue 1 (snd (size_io_queues ioenv0 (rctrl0 3)))"
proof -
  have r: "size_io_queues ioenv0 (rctrl0 3) = (0, snd (size_io_queues ioenv0 (rctrl0 3)))"
    "c_queue_count (r_ctrl (snd (size_io_queues ioenv0 (rctrl0 3)))) = 2"
    "r_io_default (rctrl0 3) = 0" "r_io_read (rctrl0 3) = 0" "r_io_poll (rctrl0 3) = 0"
    by (simp_all add: io_example_defs)
  have m: "nvme_rdma_map_queues (snd (size_io_queues ioenv0 (rctrl0 3))) (empty_map, empty_map, empty_map) =
     (\<lparr>m_nr_queues = 1, m_queue_offset = 0\<rparr>, \<lparr>m_nr_queues = 1, m_queue_offset = 0\<rparr>, empty_map)"
    by (simp add: nvme_rdma_map_queues_def io_example_defs)
  with queue_map_tiles [OF r(1,3-5)] r(2) show ?thesis
    by (simp add: Let_def in_map_def empty_map_def)
qed

text \<open>The counts are not reset when a controller reconnects. If it had dedicated read queues and
  now gets no more queues than it asked read queues for, all of them become default queues while
  the old read count stays, and the read map reaches beyond the hardware queues that exist.\<close>

theorem stale_read_queues_break_map:
  assumes "o_nr_write_queues (c_opts (r_ctrl r)) \<noteq> 0" and "0 < r_io_read r"
    and "size_io_queues e r = (0, r')" and "1 < c_queue_count (r_ctrl r')"
    and "c_queue_count (r_ctrl r') - 1 \<le> nr_read_queues e (c_opts (r_ctrl r))"
  shows "let hw = c_queue_count (r_ctrl r') - 1;
      (md, mr, mp) = nvme_rdma_map_queues r' maps
    in m_queue_offset mr + m_nr_queues mr = hw + r_io_read r"
proof -
  obtain ret nr c where s: "nvme_set_queue_count (ie_features e) (nr_read_queues e (c_opts (r_ctrl r)) +
      nr_default_queues e (c_opts (r_ctrl r)) + nr_poll_queues e (c_opts (r_ctrl r))) (r_ctrl r) = (ret, nr, c)"
    by (rule size_io_queues_cases)
  note f = set_queue_count_fields [OF s]
  have nr: "nr \<noteq> 0"
  proof
    assume "nr = 0"
    with assms(3,4) show False unfolding size_io_queues_unfold [OF s] by (auto split: if_splits)
  qed
  with assms have r': "r' = set_io_queues (nr_read_queues e (c_opts (r_ctrl r))) (nr_default_queues e (c_opts (r_ctrl r)))
      (nr_poll_queues e (c_opts (r_ctrl r))) nr (r\<lparr>r_ctrl := c\<lparr>c_queue_count := nr + 1\<rparr>\<rparr>)"
    unfolding size_io_queues_unfold [OF s] by (auto split: if_splits)
  then have qc: "c_queue_count (r_ctrl r') = nr + 1" by simp
  with assms(5) have le: "nr \<le> nr_read_queues e (c_opts (r_ctrl r))" by simp
  have "r_io_default r' = nr" "r_io_read r' = r_io_read r" "c_opts (r_ctrl r') = c_opts (r_ctrl r)"
    using le f by (simp_all add: r' set_io_queues_def Let_def min_def)
  with assms(1,2) qc show ?thesis
    by (simp add: nvme_rdma_map_queues_def Let_def)
qed

definition stale_rctrl :: nvme_rdma_ctrl where
  "stale_rctrl = (let r = rctrl0 9 in
     r\<lparr>r_io_default := 4, r_io_read := 4,
       r_ctrl := (r_ctrl r)\<lparr>c_opts := opts0\<lparr>o_nr_io_queues := 4, o_nr_write_queues := 4\<rparr>\<rparr>\<rparr>)"

theorem stale_read_queues_break_map_witness:
  "let (md, mr, mp) = nvme_rdma_map_queues
       (snd (size_io_queues (ioenv0\<lparr>ie_features := \<lambda>_ _. (0, 0x30003)\<rparr>) stale_rctrl)) (empty_map, empty_map, empty_map)
   in m_queue_offset mr + m_nr_queues mr = 8"
proof -
  let ?e = "ioenv0\<lparr>ie_features := \<lambda>_ _. (0, 0x30003)\<rparr>"
  have r: "o_nr_write_queues (c_opts (r_ctrl stale_rctrl)) \<noteq> 0" "0 < r_io_read stale_rctrl"
    "size_io_queues ?e stale_rctrl = (0, snd (size_io_queues ?e stale_rctrl))"
    "c_queue_count (r_ctrl (snd (size_io_queues ?e stale_rctrl))) = 5"
    "nr_read_queues ?e (c_opts (r_ctrl stale_rctrl)) = 4" "r_io_read stale_rctrl = 4"
    by (simp_all add: stale_rctrl_def io_example_defs)
  with stale_read_queues_break_map [OF r(1-3)] show ?thesis by simp
qed

end
