(* ===== verification/Fabrics_Options.thy ===== *)
theory Fabrics_Options
  imports Fabrics_Host
begin

text \<open>
  The option string of \<open>/dev/nvme-fabrics\<close> (\<open>nvmf_parse_options\<close>, \<open>nvmf_create_ctrl\<close>, \<open>nvmf_dev_write\<close> in
  \<open>host/fabrics.c\<close>): \<open>key=value\<close> fields separated by commas or newlines, defaults, ranges, and the life of
  the host reference and the options on every path.
\<close>

section \<open>The parser\<close>

abbreviation (input) NVMF_MIN_QUEUE_SIZE :: int where "NVMF_MIN_QUEUE_SIZE \<equiv> 16"
abbreviation (input) NVMF_MAX_QUEUE_SIZE :: int where "NVMF_MAX_QUEUE_SIZE \<equiv> 1024"
abbreviation (input) NVMF_DEF_QUEUE_SIZE :: nat where "NVMF_DEF_QUEUE_SIZE \<equiv> 128"
abbreviation (input) NVMF_DEF_RECONNECT_DELAY :: nat where "NVMF_DEF_RECONNECT_DELAY \<equiv> 10"
abbreviation (input) NVMF_DEF_CTRL_LOSS_TMO :: int where "NVMF_DEF_CTRL_LOSS_TMO \<equiv> 600"
abbreviation (input) NVME_DEFAULT_KATO :: nat where "NVME_DEFAULT_KATO \<equiv> 5"

text \<open>
  What the kernel's libraries answer while a string is parsed. \<open>pe_int s\<close> is the value of \<open>s\<close> when all
  of it is a number that fits an \<open>int\<close>; \<open>pe_strdup k\<close> whether duplicating the value of field \<open>k\<close>
  succeeds; \<open>pe_host_alloc k\<close> the address of a host allocated for field \<open>k\<close>.
\<close>

record parse_env =
  pe_kstrdup :: bool
  pe_strdup :: "nat \<Rightarrow> bool"
  pe_int :: "string \<Rightarrow> int option"
  pe_uuid_parse :: "string \<Rightarrow> u8 list option"
  pe_uuid_gen :: "u8 list"
  pe_host_alloc :: "nat \<Rightarrow> nat option"
  pe_garbage :: "u8 list"
  pe_cpus :: nat

datatype opt_kind = Takes_string | Takes_int | Is_flag

definition opt_tokens :: "(u32 \<times> string \<times> opt_kind) list" where
  "opt_tokens =
     [(NVMF_OPT_TRANSPORT, ''transport='', Takes_string),
      (NVMF_OPT_TRADDR, ''traddr='', Takes_string),
      (NVMF_OPT_TRSVCID, ''trsvcid='', Takes_string),
      (NVMF_OPT_NQN, ''nqn='', Takes_string),
      (NVMF_OPT_QUEUE_SIZE, ''queue_size='', Takes_int),
      (NVMF_OPT_NR_IO_QUEUES, ''nr_io_queues='', Takes_int),
      (NVMF_OPT_RECONNECT_DELAY, ''reconnect_delay='', Takes_int),
      (NVMF_OPT_CTRL_LOSS_TMO, ''ctrl_loss_tmo='', Takes_int),
      (NVMF_OPT_KATO, ''keep_alive_tmo='', Takes_int),
      (NVMF_OPT_HOSTNQN, ''hostnqn='', Takes_string),
      (NVMF_OPT_HOST_TRADDR, ''host_traddr='', Takes_string),
      (NVMF_OPT_HOST_ID, ''hostid='', Takes_string),
      (NVMF_OPT_DUP_CONNECT, ''duplicate_connect'', Is_flag),
      (NVMF_OPT_DISABLE_SQFLOW, ''disable_sqflow'', Is_flag),
      (NVMF_OPT_HDR_DIGEST, ''hdr_digest'', Is_flag),
      (NVMF_OPT_DATA_DIGEST, ''data_digest'', Is_flag),
      (NVMF_OPT_NR_WRITE_QUEUES, ''nr_write_queues='', Takes_int),
      (NVMF_OPT_NR_POLL_QUEUES, ''nr_poll_queues='', Takes_int),
      (NVMF_OPT_TOS, ''tos='', Takes_int)]"

text \<open>
  \<open>match_token\<close>: the first pattern the whole field matches, with the value after the key; \<open>%s\<close> and
  \<open>%d\<close> need at least one character. No match is \<open>NVMF_OPT_ERR\<close>, 0.
\<close>

fun match_token :: "parse_env \<Rightarrow> (u32 \<times> string \<times> opt_kind) list \<Rightarrow> string \<Rightarrow> u32 \<times> string" where
  "match_token e [] p = (0, [])"
| "match_token e ((tok, key, kind) # pats) p =
     (let arg = drop (length key) p;
          hit = (case kind of
                   Is_flag \<Rightarrow> p = key
                 | Takes_string \<Rightarrow> take (length key) p = key \<and> arg \<noteq> []
                 | Takes_int \<Rightarrow> take (length key) p = key \<and> pe_int e arg \<noteq> None)
      in if hit then (tok, arg) else match_token e pats p)"

text \<open>\<open>strsep (&o, ",\n")\<close>.\<close>

fun split_fields :: "string \<Rightarrow> string list" where
  "split_fields [] = [[]]"
| "split_fields (c # cs) =
     (if c = CHR '','' \<or> c = CHR 0x0A then [] # split_fields cs
      else case split_fields cs of [] \<Rightarrow> [[c]] | f # fs \<Rightarrow> (c # f) # fs)"

record parse_state =
  ps_opts :: nvmf_ctrl_options
  ps_loss_tmo :: int
  ps_hostid :: "u8 list"
  ps_hosts :: "nvmf_host list"

text \<open>Fields whose value is duplicated into an option.\<close>

definition string_field ::
  "parse_env \<Rightarrow> nat \<Rightarrow> (nvmf_ctrl_options \<Rightarrow> nvmf_ctrl_options) \<Rightarrow> parse_state \<Rightarrow> int \<times> parse_state" where
  "string_field e k upd st =
     (if \<not> pe_strdup e k then (- ENOMEM, st) else (0, st\<lparr>ps_opts := upd (ps_opts st)\<rparr>))"

text \<open>Fields that take a number: \<open>ok\<close> is the range check, \<open>upd\<close> what a valid value does.\<close>

definition int_field ::
  "parse_env \<Rightarrow> string \<Rightarrow> (int \<Rightarrow> bool) \<Rightarrow> (int \<Rightarrow> parse_state \<Rightarrow> parse_state) \<Rightarrow> parse_state \<Rightarrow> int \<times> parse_state" where
  "int_field e arg ok upd st =
     (case pe_int e arg of
        None \<Rightarrow> (- EINVAL, st)
      | Some token \<Rightarrow> if \<not> ok token then (- EINVAL, st) else (0, upd token st))"

definition parse_nqn :: "parse_env \<Rightarrow> nat \<Rightarrow> string \<Rightarrow> parse_state \<Rightarrow> int \<times> parse_state" where
  "parse_nqn e k arg st =
     (if \<not> pe_strdup e k then (- ENOMEM, st)
      else
        let st = st\<lparr>ps_opts := (ps_opts st)\<lparr>o_subsysnqn := Some arg\<rparr>\<rparr>
        in if NVMF_NQN_SIZE \<le> length arg then (- EINVAL, st)
           else (0, st\<lparr>ps_opts := (ps_opts st)\<lparr>o_discovery_nqn := (arg = NVME_DISC_SUBSYS_NAME)\<rparr>\<rparr>))"

definition parse_hostnqn :: "parse_env \<Rightarrow> nat \<Rightarrow> string \<Rightarrow> parse_state \<Rightarrow> int \<times> parse_state" where
  "parse_hostnqn e k arg st =
     (if o_host (ps_opts st) \<noteq> None then (- EADDRINUSE, st)
      else if \<not> pe_strdup e k then (- ENOMEM, st)
      else if NVMF_NQN_SIZE \<le> length arg then (- EINVAL, st)
      else
        let (host, hosts) = nvmf_host_add (pe_host_alloc e k) (pe_garbage e) arg
              (nvmf_host_put (o_host (ps_opts st)) (ps_hosts st));
            st = st\<lparr>ps_opts := (ps_opts st)\<lparr>o_host := host\<rparr>, ps_hosts := hosts\<rparr>
        in if host = None then (- ENOMEM, st) else (0, st))"

definition parse_hostid :: "parse_env \<Rightarrow> nat \<Rightarrow> string \<Rightarrow> parse_state \<Rightarrow> int \<times> parse_state" where
  "parse_hostid e k arg st =
     (if \<not> pe_strdup e k then (- ENOMEM, st)
      else case pe_uuid_parse e arg of
        None \<Rightarrow> (- EINVAL, st)
      | Some u \<Rightarrow> (0, st\<lparr>ps_hostid := u\<rparr>))"

abbreviation upd_opts :: "(nvmf_ctrl_options \<Rightarrow> nvmf_ctrl_options) \<Rightarrow> parse_state \<Rightarrow> parse_state" where
  "upd_opts f st \<equiv> st\<lparr>ps_opts := f (ps_opts st)\<rparr>"

text \<open>One field; \<open>k\<close> is its position, used to name the allocator's answers.\<close>

definition parse_field :: "parse_env \<Rightarrow> nat \<Rightarrow> string \<Rightarrow> parse_state \<Rightarrow> int \<times> parse_state" where
  "parse_field e k p st =
     (let (token, arg) = match_token e opt_tokens p;
          st = upd_opts (\<lambda>opts. opts\<lparr>o_mask := o_mask opts OR token\<rparr>) st
      in if token = NVMF_OPT_TRANSPORT then string_field e k (o_transport_update (\<lambda>_. Some arg)) st
         else if token = NVMF_OPT_NQN then parse_nqn e k arg st
         else if token = NVMF_OPT_TRADDR then string_field e k (o_traddr_update (\<lambda>_. Some arg)) st
         else if token = NVMF_OPT_TRSVCID then string_field e k (o_trsvcid_update (\<lambda>_. Some arg)) st
         else if token = NVMF_OPT_QUEUE_SIZE then
           int_field e arg (\<lambda>t. \<not> (t < NVMF_MIN_QUEUE_SIZE \<or> t > NVMF_MAX_QUEUE_SIZE))
             (\<lambda>t. upd_opts (o_queue_size_update (\<lambda>_. nat t))) st
         else if token = NVMF_OPT_NR_IO_QUEUES then
           int_field e arg (\<lambda>t. \<not> t \<le> 0)
             (\<lambda>t st. if o_discovery_nqn (ps_opts st) then st
                     else upd_opts (o_nr_io_queues_update (\<lambda>_. min (pe_cpus e) (nat t))) st) st
         else if token = NVMF_OPT_KATO then
           int_field e arg (\<lambda>t. \<not> t < 0) (\<lambda>t. upd_opts (o_kato_update (\<lambda>_. nat t))) st
         else if token = NVMF_OPT_CTRL_LOSS_TMO then
           int_field e arg (\<lambda>_. True) (\<lambda>t st. st\<lparr>ps_loss_tmo := t\<rparr>) st
         else if token = NVMF_OPT_HOSTNQN then parse_hostnqn e k arg st
         else if token = NVMF_OPT_RECONNECT_DELAY then
           int_field e arg (\<lambda>t. \<not> t \<le> 0) (\<lambda>t. upd_opts (o_reconnect_delay_update (\<lambda>_. nat t))) st
         else if token = NVMF_OPT_HOST_TRADDR then string_field e k (o_host_traddr_update (\<lambda>_. Some arg)) st
         else if token = NVMF_OPT_HOST_ID then parse_hostid e k arg st
         else if token = NVMF_OPT_DUP_CONNECT then (0, upd_opts (o_duplicate_connect_update (\<lambda>_. True)) st)
         else if token = NVMF_OPT_DISABLE_SQFLOW then (0, upd_opts (o_disable_sqflow_update (\<lambda>_. True)) st)
         else if token = NVMF_OPT_HDR_DIGEST then (0, upd_opts (o_hdr_digest_update (\<lambda>_. True)) st)
         else if token = NVMF_OPT_DATA_DIGEST then (0, upd_opts (o_data_digest_update (\<lambda>_. True)) st)
         else if token = NVMF_OPT_NR_WRITE_QUEUES then
           int_field e arg (\<lambda>t. \<not> t \<le> 0) (\<lambda>t. upd_opts (o_nr_write_queues_update (\<lambda>_. nat t))) st
         else if token = NVMF_OPT_NR_POLL_QUEUES then
           int_field e arg (\<lambda>t. \<not> t \<le> 0) (\<lambda>t. upd_opts (o_nr_poll_queues_update (\<lambda>_. nat t))) st
         else if token = NVMF_OPT_TOS then
           int_field e arg (\<lambda>t. \<not> t < 0) (\<lambda>t. upd_opts (o_tos_update (\<lambda>_. if t > 255 then 255 else t))) st
         else (- EINVAL, st))"

fun parse_fields :: "parse_env \<Rightarrow> nat \<Rightarrow> string list \<Rightarrow> parse_state \<Rightarrow> int \<times> parse_state" where
  "parse_fields e k [] st = (0, st)"
| "parse_fields e k (p # ps) st =
     (if p = [] then parse_fields e (k + 1) ps st
      else
        let (ret, st) = parse_field e k p st
        in if ret \<noteq> 0 then (ret, st) else parse_fields e (k + 1) ps st)"

definition DIV_ROUND_UP :: "nat \<Rightarrow> nat \<Rightarrow> nat" where
  "DIV_ROUND_UP n d = (n + d - 1) div d"

text \<open>The tail of the parser: discovery controllers, the reconnect budget, the host and its id.\<close>

definition finish_options :: "nat \<Rightarrow> parse_state \<Rightarrow> parse_state" where
  "finish_options default_host st =
     (let st = (if o_discovery_nqn (ps_opts st)
                then upd_opts (\<lambda>opts. opts\<lparr>o_nr_io_queues := 0, o_nr_write_queues := 0,
                       o_nr_poll_queues := 0, o_duplicate_connect := True\<rparr>) st
                else st);
          st = upd_opts (o_max_reconnects_update (\<lambda>_.
                 if ps_loss_tmo st < 0 then - 1
                 else int (DIV_ROUND_UP (nat (ps_loss_tmo st)) (o_reconnect_delay (ps_opts st))))) st;
          st = (if o_host (ps_opts st) = None
                then upd_opts (o_host_update (\<lambda>_. Some default_host))
                       (st\<lparr>ps_hosts := host_get default_host (ps_hosts st)\<rparr>)
                else st)
      in st\<lparr>ps_hosts := upd_host (the (o_host (ps_opts st))) (\<lambda>h. h\<lparr>h_id := ps_hostid st\<rparr>) (ps_hosts st)\<rparr>)"

definition default_options :: "nat \<Rightarrow> nvmf_ctrl_options \<Rightarrow> nvmf_ctrl_options" where
  "default_options cpus opts =
     opts\<lparr>o_queue_size := NVMF_DEF_QUEUE_SIZE, o_nr_io_queues := cpus,
          o_reconnect_delay := NVMF_DEF_RECONNECT_DELAY, o_kato := NVME_DEFAULT_KATO,
          o_duplicate_connect := False, o_hdr_digest := False, o_data_digest := False, o_tos := - 1\<rparr>"

definition nvmf_parse_options ::
  "parse_env \<Rightarrow> nvmf_ctrl_options \<Rightarrow> string \<Rightarrow> fabrics \<Rightarrow> int \<times> nvmf_ctrl_options \<times> fabrics" where
  "nvmf_parse_options e opts buf fab =
     (let opts = default_options (pe_cpus e) opts
      in if \<not> pe_kstrdup e then (- ENOMEM, opts, fab)
      else
        let st = \<lparr>ps_opts = opts, ps_loss_tmo = NVMF_DEF_CTRL_LOSS_TMO, ps_hostid = pe_uuid_gen e,
                  ps_hosts = f_hosts fab\<rparr>;
            (ret, st) = parse_fields e 0 (split_fields buf) st;
            st = (if ret = 0 then finish_options (f_default fab) st else st)
        in (ret, ps_opts st, fab\<lparr>f_hosts := ps_hosts st\<rparr>))"

section \<open>Creating a controller\<close>

definition nvmf_check_required_opts :: "nvmf_ctrl_options \<Rightarrow> u32 \<Rightarrow> int" where
  "nvmf_check_required_opts opts required =
     (if o_mask opts AND required \<noteq> required then - EINVAL else 0)"

definition nvmf_check_allowed_opts :: "nvmf_ctrl_options \<Rightarrow> u32 \<Rightarrow> int" where
  "nvmf_check_allowed_opts opts allowed =
     (if o_mask opts AND NOT allowed \<noteq> 0 then - EINVAL else 0)"

definition nvmf_free_options :: "nvmf_ctrl_options \<Rightarrow> fabrics \<Rightarrow> fabrics" where
  "nvmf_free_options opts fab = fab\<lparr>f_hosts := nvmf_host_put (o_host opts) (f_hosts fab)\<rparr>"

abbreviation (input) NVMF_REQUIRED_OPTS :: u32 where
  "NVMF_REQUIRED_OPTS \<equiv> NVMF_OPT_TRANSPORT OR NVMF_OPT_NQN"

abbreviation (input) NVMF_ALLOWED_OPTS :: u32 where
  "NVMF_ALLOWED_OPTS \<equiv>
     NVMF_OPT_QUEUE_SIZE OR NVMF_OPT_NR_IO_QUEUES OR NVMF_OPT_KATO OR NVMF_OPT_HOSTNQN OR
     NVMF_OPT_HOST_ID OR NVMF_OPT_DUP_CONNECT OR NVMF_OPT_DISABLE_SQFLOW"

definition zero_options :: nvmf_ctrl_options where
  "zero_options = \<lparr>o_mask = 0, o_transport = None, o_subsysnqn = None, o_traddr = None, o_trsvcid = None,
     o_host_traddr = None, o_queue_size = 0, o_nr_io_queues = 0, o_reconnect_delay = 0,
     o_discovery_nqn = False, o_duplicate_connect = False, o_kato = 0, o_host = None,
     o_max_reconnects = 0, o_disable_sqflow = False, o_hdr_digest = False, o_data_digest = False,
     o_nr_write_queues = 0, o_nr_poll_queues = 0, o_tos = 0\<rparr>"

text \<open>
  \<open>create\<close> is the transport's \<open>create_ctrl\<close>: 0 or an errno. The options belong to the controller on
  success and are released on every failure. The trailing component is the number of module
  references still held.
\<close>

definition nvmf_create_ctrl ::
  "bool \<Rightarrow> parse_env \<Rightarrow> nvmf_transport_ops list \<Rightarrow> (nvmf_ctrl_options \<Rightarrow> int) \<Rightarrow> string \<Rightarrow> fabrics \<Rightarrow>
   int \<times> nvmf_ctrl_options option \<times> fabrics \<times> int" where
  "nvmf_create_ctrl kzalloc e ts create buf fab =
     (if \<not> kzalloc then (- ENOMEM, None, fab, 0)
      else
        let (ret, opts, fab) = nvmf_parse_options e zero_options buf fab
        in if ret \<noteq> 0 then (ret, None, nvmf_free_options opts fab, 0)
      else
        let ret = nvmf_check_required_opts opts NVMF_REQUIRED_OPTS
        in if ret \<noteq> 0 then (ret, None, nvmf_free_options opts fab, 0)
      else
        let opts = opts\<lparr>o_mask := o_mask opts AND NOT NVMF_REQUIRED_OPTS\<rparr>
        in case nvmf_lookup_transport opts ts of
          None \<Rightarrow> (- EINVAL, None, nvmf_free_options opts fab, 0)
        | Some t \<Rightarrow>
            if \<not> t_module_get t then (- EBUSY, None, nvmf_free_options opts fab, 0)
            else
              let modules = 1;
                  ret = nvmf_check_required_opts opts (t_required_opts t)
              in if ret \<noteq> 0 then (ret, None, nvmf_free_options opts fab, modules - 1)
              else
                let ret = nvmf_check_allowed_opts opts
                            (NVMF_ALLOWED_OPTS OR t_allowed_opts t OR t_required_opts t)
                in if ret \<noteq> 0 then (ret, None, nvmf_free_options opts fab, modules - 1)
                else
                  let ret = create opts
                  in if ret \<noteq> 0 then (ret, None, nvmf_free_options opts fab, modules - 1)
                     else (0, Some opts, fab, modules - 1))"

text \<open>
  A write to the control device: the string is limited to a page, and one open file creates at most
  one controller (\<open>private\<close>).
\<close>

definition nvmf_dev_write ::
  "bool \<Rightarrow> (string \<Rightarrow> fabrics \<Rightarrow> int \<times> nvmf_ctrl_options option \<times> fabrics \<times> int) \<Rightarrow> string \<Rightarrow>
   nvmf_ctrl_options option \<Rightarrow> fabrics \<Rightarrow> int \<times> nvmf_ctrl_options option \<times> fabrics" where
  "nvmf_dev_write memdup create buf private fab =
     (if 4096 < length buf then (- ENOMEM, private, fab)
      else if \<not> memdup then (- ENOMEM, private, fab)
      else if private \<noteq> None then (- EINVAL, private, fab)
      else
        let (ret, c, fab, _) = create buf fab
        in if ret \<noteq> 0 then (ret, private, fab) else (int (length buf), c, fab))"

section \<open>Host references\<close>

definition hosts_ok :: "nvmf_host list \<Rightarrow> bool" where
  "hosts_ok hosts \<longleftrightarrow> distinct (map h_addr hosts) \<and> list_all (\<lambda>h. 1 \<le> h_ref h) hosts"

definition fresh_hosts :: "parse_env \<Rightarrow> nvmf_host list \<Rightarrow> bool" where
  "fresh_hosts e hosts \<longleftrightarrow> (\<forall>k a. pe_host_alloc e k = Some a \<longrightarrow> a \<notin> h_addr ` set hosts)"

definition host_refs :: "nvmf_host list \<Rightarrow> (nat \<times> nat \<times> string) list" where
  "host_refs hosts = map (\<lambda>h. (h_addr h, h_ref h, h_nqn h)) hosts"

lemma host_at_mem: "distinct (map h_addr hs) \<Longrightarrow> h \<in> set hs \<Longrightarrow> host_at (h_addr h) hs = Some h"
  by (induction hs) (auto simp: host_at_def)

lemma host_at_Some_D: "host_at a hs = Some h \<Longrightarrow> h \<in> set hs \<and> h_addr h = a"
  by (auto simp: host_at_def find_Some_iff)

lemma host_at_None: "a \<notin> h_addr ` set hs \<Longrightarrow> host_at a hs = None"
  by (auto simp: host_at_def find_None_iff)

lemma host_at_upd:
  assumes "\<And>h. h_addr (f h) = h_addr h"
  shows "host_at a (upd_host b f hs) = (if a = b then map_option f (host_at a hs) else host_at a hs)"
  using assms by (induction hs) (auto simp: host_at_def upd_host_def)

lemma host_at_append: "host_at a (hs @ hs') = (case host_at a hs of None \<Rightarrow> host_at a hs' | Some h \<Rightarrow> Some h)"
  by (induction hs) (auto simp: host_at_def)

lemma host_put_upd:
  assumes "\<And>h. h_addr (f h) = h_addr h" and "\<And>h. h_ref (f h) = h_ref h"
    and comm: "\<And>h n. f (h\<lparr>h_ref := n\<rparr>) = (f h)\<lparr>h_ref := n\<rparr>"
  shows "nvmf_host_put x (upd_host b f hs) = upd_host b f (nvmf_host_put x hs)"
proof (cases x)
  case (Some a)
  have f: "filter (\<lambda>h. h_addr h \<noteq> a) (upd_host b f hs) = upd_host b f (filter (\<lambda>h. h_addr h \<noteq> a) hs)"
    by (induction hs) (auto simp: upd_host_def assms)
  have d: "upd_host a (\<lambda>h. h\<lparr>h_ref := h_ref h - 1\<rparr>) (upd_host b f hs) =
           upd_host b f (upd_host a (\<lambda>h. h\<lparr>h_ref := h_ref h - 1\<rparr>) hs)"
    by (induction hs) (auto simp: upd_host_def assms)
  show ?thesis using f d
    by (cases "host_at a hs") (auto simp: Some nvmf_host_put_def host_at_upd assms)
qed (simp add: nvmf_host_put_def)

lemma host_put_get:
  assumes "hosts_ok hs" and "host_at a hs = Some h"
  shows "nvmf_host_put (Some a) (host_get a hs) = hs" and "hosts_ok (host_get a hs)"
proof -
  have "1 \<le> h_ref h" using assms host_at_Some_D[OF assms(2)] by (auto simp: hosts_ok_def list_all_iff)
  moreover have "host_at a (host_get a hs) = Some (h\<lparr>h_ref := h_ref h + 1\<rparr>)"
    by (simp add: host_get_def host_at_upd assms(2))
  moreover have "upd_host a (\<lambda>h. h\<lparr>h_ref := h_ref h - 1\<rparr>) (host_get a hs) = hs"
    by (induction hs) (auto simp: host_get_def upd_host_def)
  ultimately show "nvmf_host_put (Some a) (host_get a hs) = hs" by (simp add: nvmf_host_put_def)
  have "map h_addr (host_get a hs) = map h_addr hs" by (auto simp: host_get_def upd_host_def)
  moreover have "list_all (\<lambda>h. 1 \<le> h_ref h) (host_get a hs)"
    using assms(1) by (auto simp: hosts_ok_def list_all_iff host_get_def upd_host_def)
  ultimately show "hosts_ok (host_get a hs)"
    using assms(1) by (simp add: hosts_ok_def)
qed

lemma host_put_add:
  assumes "hosts_ok hs" and fresh: "\<forall>a. alloc = Some a \<longrightarrow> a \<notin> h_addr ` set hs"
    and add: "nvmf_host_add alloc g nqn hs = (x, hs')"
  shows "nvmf_host_put x hs' = hs" and "hosts_ok hs'" and "\<forall>a. x = Some a \<longrightarrow> host_at a hs' \<noteq> None"
proof -
  consider (found) h where "nvmf_host_find nqn hs = Some h"
    | (oom) "nvmf_host_find nqn hs = None" "alloc = None"
    | (added) a where "nvmf_host_find nqn hs = None" "alloc = Some a"
    by (metis not_None_eq)
  then have "nvmf_host_put x hs' = hs \<and> hosts_ok hs' \<and> (\<forall>a. x = Some a \<longrightarrow> host_at a hs' \<noteq> None)"
  proof cases
    case found
    then have "h \<in> set hs" by (auto simp: nvmf_host_find_def find_Some_iff)
    with assms(1) have at: "host_at (h_addr h) hs = Some h" by (simp add: hosts_ok_def host_at_mem)
    from found add have "x = Some (h_addr h)" "hs' = host_get (h_addr h) hs" by (auto simp: nvmf_host_add_def)
    then show ?thesis
      using host_put_get[OF assms(1) at] at by (simp add: host_get_def host_at_upd)
  next
    case oom with add assms(1) show ?thesis by (auto simp: nvmf_host_add_def nvmf_host_put_def)
  next
    case added
    with fresh have n: "a \<notin> h_addr ` set hs" by simp
    then have "filter (\<lambda>h. h_addr h \<noteq> a) hs = hs" by (auto simp: filter_id_conv)
    with added add n assms(1) show ?thesis
      by (auto simp: nvmf_host_add_def nvmf_host_put_def host_at_append host_at_None[OF n] hosts_ok_def)
        (auto simp: host_at_def)
  qed
  then show "nvmf_host_put x hs' = hs" "hosts_ok hs'" "\<forall>a. x = Some a \<longrightarrow> host_at a hs' \<noteq> None" by auto
qed

section \<open>What a field may change\<close>

lemmas field_defs = string_field_def int_field_def parse_nqn_def parse_hostid_def

definition valid_opts :: "nat \<Rightarrow> nvmf_ctrl_options \<Rightarrow> bool" where
  "valid_opts cpus opts \<longleftrightarrow>
     16 \<le> o_queue_size opts \<and> o_queue_size opts \<le> 1024 \<and> 1 \<le> o_reconnect_delay opts \<and>
     - 1 \<le> o_tos opts \<and> o_tos opts \<le> 255 \<and> o_nr_io_queues opts \<le> cpus \<and> (1 \<le> cpus \<longrightarrow> 1 \<le> o_nr_io_queues opts)"

text \<open>
  An invariant of the parser's state holds after a field if every kind of field keeps it: the mask,
  the strings, the numbers in their ranges, the flags, and the three fields with a handler of their own.
\<close>

lemma if_keeps: "P (snd a) \<Longrightarrow> P (snd b) \<Longrightarrow> P (snd (if c then a else b))"
  by simp

lemma string_field_keeps: "P st \<Longrightarrow> P (upd_opts upd st) \<Longrightarrow> P (snd (string_field e k upd st))"
  by (simp add: string_field_def)

lemma int_field_keeps:
  "P st \<Longrightarrow> (\<And>t. ok t \<Longrightarrow> P (upd t st)) \<Longrightarrow> P (snd (int_field e arg ok upd st))"
  by (simp add: int_field_def split: option.split)

lemma nqn_field_keeps:
  "(\<And>s d. P (upd_opts (\<lambda>opts. opts\<lparr>o_subsysnqn := s, o_discovery_nqn := d\<rparr>) st)) \<Longrightarrow>
   (\<And>s. P (upd_opts (\<lambda>opts. opts\<lparr>o_subsysnqn := s\<rparr>) st)) \<Longrightarrow> P st \<Longrightarrow> P (snd (parse_nqn e k arg st))"
  by (simp add: parse_nqn_def Let_def)

lemma hostid_field_keeps: "(\<And>u. P (st\<lparr>ps_hostid := u\<rparr>)) \<Longrightarrow> P st \<Longrightarrow> P (snd (parse_hostid e k arg st))"
  by (simp add: parse_hostid_def split: option.split)

lemma hostnqn_field_keeps:
  "(\<And>h hs. P ((upd_opts (\<lambda>opts. opts\<lparr>o_host := h\<rparr>) st)\<lparr>ps_hosts := hs\<rparr>)) \<Longrightarrow> P st \<Longrightarrow>
   P (snd (parse_hostnqn e k arg st))"
  by (simp add: parse_hostnqn_def Let_def split: prod.split)

lemma flag_keeps: "P st \<Longrightarrow> P (snd (r, st))"
  by simp

lemmas field_keeps = if_keeps string_field_keeps int_field_keeps nqn_field_keeps hostid_field_keeps
  hostnqn_field_keeps flag_keeps

lemma parse_field_valid:
  assumes "valid_opts (pe_cpus e) (ps_opts st)"
  shows "valid_opts (pe_cpus e) (ps_opts (snd (parse_field e k p st)))"
proof -
  obtain token arg where t: "match_token e opt_tokens p = (token, arg)" by (metis surj_pair)
  show ?thesis using assms unfolding parse_field_def t Let_def prod.case
    by (intro field_keeps[where P = "\<lambda>st. valid_opts (pe_cpus e) (ps_opts st)"])
      (auto simp: valid_opts_def)
qed

lemma parse_field_hosts:
  assumes "nvmf_host_put (o_host (ps_opts st)) (ps_hosts st) = hs"
    and "o_host (ps_opts st) = None \<longrightarrow> ps_hosts st = hs" and "hosts_ok (ps_hosts st)" and "hosts_ok hs"
    and "fresh_hosts e hs" and "\<forall>a. o_host (ps_opts st) = Some a \<longrightarrow> host_at a (ps_hosts st) \<noteq> None"
    and st': "snd (parse_field e k p st) = st'"
  shows "nvmf_host_put (o_host (ps_opts st')) (ps_hosts st') = hs \<and> hosts_ok (ps_hosts st') \<and>
    (o_host (ps_opts st') = None \<longrightarrow> ps_hosts st' = hs) \<and>
    (\<forall>a. o_host (ps_opts st') = Some a \<longrightarrow> host_at a (ps_hosts st') \<noteq> None)"
proof -
  obtain token arg where t: "match_token e opt_tokens p = (token, arg)" by (metis surj_pair)
  show ?thesis
  proof (cases "token = NVMF_OPT_HOSTNQN")
    case False
    then have "o_host (ps_opts st') = o_host (ps_opts st) \<and> ps_hosts st' = ps_hosts st"
      unfolding st'[symmetric] parse_field_def t
      by (simp add: field_defs Let_def split: if_split option.split)
    with assms show ?thesis by simp
  next
    case True
    define st1 where "st1 = st\<lparr>ps_opts := (ps_opts st)\<lparr>o_mask := o_mask (ps_opts st) OR token\<rparr>\<rparr>"
    have s: "st' = snd (parse_hostnqn e k arg st1)"
      unfolding st'[symmetric] parse_field_def t st1_def by (simp add: True Let_def)
    obtain x hs' where add: "nvmf_host_add (pe_host_alloc e k) (pe_garbage e) arg hs = (x, hs')" by (metis surj_pair)
    have "\<forall>a. pe_host_alloc e k = Some a \<longrightarrow> a \<notin> h_addr ` set hs" using assms(5) by (simp add: fresh_hosts_def)
    note put = host_put_add[OF assms(4) this add]
    have oom: "x = None \<longrightarrow> hs' = hs" using put(1) by (auto simp: nvmf_host_put_def)
    show ?thesis
    proof (cases "o_host (ps_opts st) = None \<and> pe_strdup e k \<and> length arg < NVMF_NQN_SIZE")
      case run: True
      then have "ps_hosts st = hs" using assms(2) by simp
      with run have "ps_hosts st' = hs' \<and> o_host (ps_opts st') = x"
        unfolding s parse_hostnqn_def st1_def by (simp add: add nvmf_host_put_def[of None] Let_def)
      with put oom show ?thesis by simp
    next
      case False
      then have "ps_hosts st' = ps_hosts st \<and> o_host (ps_opts st') = o_host (ps_opts st)"
        unfolding s parse_hostnqn_def st1_def by auto
      with assms show ?thesis by simp
    qed
  qed
qed

lemma parse_fields_valid:
  "valid_opts (pe_cpus e) (ps_opts st) \<Longrightarrow> valid_opts (pe_cpus e) (ps_opts (snd (parse_fields e k ps st)))"
proof (induction e k ps st rule: parse_fields.induct)
  case (2 e k p ps st)
  obtain ret st' where f: "parse_field e k p st = (ret, st')" by (metis surj_pair)
  from 2 f parse_field_valid[of e st k p] show ?case by auto
qed simp

lemma parse_fields_hosts:
  assumes "hosts_ok hs" and "fresh_hosts e hs"
  shows "nvmf_host_put (o_host (ps_opts st)) (ps_hosts st) = hs \<Longrightarrow>
    (o_host (ps_opts st) = None \<longrightarrow> ps_hosts st = hs) \<Longrightarrow> hosts_ok (ps_hosts st) \<Longrightarrow>
    \<forall>a. o_host (ps_opts st) = Some a \<longrightarrow> host_at a (ps_hosts st) \<noteq> None \<Longrightarrow>
    st' = snd (parse_fields e k ps st) \<Longrightarrow>
    nvmf_host_put (o_host (ps_opts st')) (ps_hosts st') = hs \<and> hosts_ok (ps_hosts st') \<and>
    (o_host (ps_opts st') = None \<longrightarrow> ps_hosts st' = hs) \<and>
    (\<forall>a. o_host (ps_opts st') = Some a \<longrightarrow> host_at a (ps_hosts st') \<noteq> None)"
proof (induction ps arbitrary: k st)
  case (Cons p ps)
  obtain ret st1 where f: "parse_field e k p st = (ret, st1)" by (metis surj_pair)
  then have "snd (parse_field e k p st) = st1" by simp
  note one = parse_field_hosts[OF Cons.prems(1,2,3) assms Cons.prems(4) this]
  consider "p = []" | "p \<noteq> []" "ret \<noteq> 0" | "p \<noteq> []" "ret = 0" by blast
  then show ?case
  proof cases
    case 1
    with Cons.prems(5) have "st' = snd (parse_fields e (k + 1) ps st)" by simp
    from Cons.IH[OF Cons.prems(1-4) this] show ?thesis .
  next
    case 2
    with Cons.prems(5) f have "st' = st1" by simp
    with one show ?thesis by simp
  next
    case 3
    with Cons.prems(5) f have "st' = snd (parse_fields e (k + 1) ps st1)" by simp
    from Cons.IH[OF _ _ _ _ this] one show ?thesis by blast
  qed
qed simp

text \<open>The tail of the parser takes a reference where there is none yet, and sets the host's id.\<close>

lemma finish_hosts:
  assumes "nvmf_host_put (o_host (ps_opts st)) (ps_hosts st) = hs" and "hosts_ok (ps_hosts st)"
    and "o_host (ps_opts st) = None \<longrightarrow> ps_hosts st = hs"
    and "\<forall>a. o_host (ps_opts st) = Some a \<longrightarrow> host_at a (ps_hosts st) \<noteq> None"
    and d: "host_at d hs \<noteq> None" and st': "finish_options d st = st'"
  shows "\<exists>a. o_host (ps_opts st') = Some a \<and>
    nvmf_host_put (Some a) (ps_hosts st') = upd_host a (\<lambda>h. h\<lparr>h_id := ps_hostid st\<rparr>) hs \<and>
    (\<exists>h. host_at a (ps_hosts st') = Some h \<and> h_id h = ps_hostid st)"
proof -
  have put: "nvmf_host_put x (upd_host a (\<lambda>h. h\<lparr>h_id := i\<rparr>) l) =
             upd_host a (\<lambda>h. h\<lparr>h_id := i\<rparr>) (nvmf_host_put x l)" for x a i l
    by (rule host_put_upd) simp_all
  show ?thesis
  proof (cases "o_host (ps_opts st)")
    case None
    with assms have l: "ps_hosts st = hs" "hosts_ok hs" by auto
    from d obtain h where h: "host_at d hs = Some h" by auto
    from st' None l(1) have s: "o_host (ps_opts st') = Some d"
      "ps_hosts st' = upd_host d (\<lambda>h. h\<lparr>h_id := ps_hostid st\<rparr>) (host_get d hs)"
      unfolding finish_options_def Let_def by auto
    show ?thesis
      using host_put_get(1)[OF l(2) h] h by (simp add: s put host_at_upd) (simp add: host_get_def host_at_upd)
  next
    case (Some a)
    from st' Some have s: "o_host (ps_opts st') = Some a"
      "ps_hosts st' = upd_host a (\<lambda>h. h\<lparr>h_id := ps_hostid st\<rparr>) (ps_hosts st)"
      unfolding finish_options_def Let_def by auto
    from assms(4) Some show ?thesis by (auto simp: s put host_at_upd assms(1)[unfolded Some])
  qed
qed

section \<open>The properties\<close>

lemma start_valid: "1 \<le> cpus \<Longrightarrow> valid_opts cpus (default_options cpus opts)"
  by (simp add: valid_opts_def default_options_def)

lemma finish_valid:
  assumes "valid_opts cpus (ps_opts st)" and "finish_options d st = st'"
  shows "16 \<le> o_queue_size (ps_opts st') \<and> o_queue_size (ps_opts st') \<le> 1024 \<and>
    1 \<le> o_reconnect_delay (ps_opts st') \<and> - 1 \<le> o_tos (ps_opts st') \<and> o_tos (ps_opts st') \<le> 255 \<and>
    o_nr_io_queues (ps_opts st') \<le> cpus \<and>
    (if o_discovery_nqn (ps_opts st')
     then o_nr_io_queues (ps_opts st') = 0 \<and> o_nr_write_queues (ps_opts st') = 0 \<and>
          o_nr_poll_queues (ps_opts st') = 0 \<and> o_duplicate_connect (ps_opts st')
     else 1 \<le> cpus \<longrightarrow> 1 \<le> o_nr_io_queues (ps_opts st')) \<and>
    (if ps_loss_tmo st < 0 then o_max_reconnects (ps_opts st') = - 1
     else o_max_reconnects (ps_opts st') =
          int (DIV_ROUND_UP (nat (ps_loss_tmo st)) (o_reconnect_delay (ps_opts st'))))"
proof -
  define m where "m = (if ps_loss_tmo st < 0 then - 1
    else int (DIV_ROUND_UP (nat (ps_loss_tmo st)) (o_reconnect_delay (ps_opts st))))"
  define h where "h = (if o_host (ps_opts st) = None then Some d else o_host (ps_opts st))"
  have "ps_opts st' = (if o_discovery_nqn (ps_opts st)
      then (ps_opts st)\<lparr>o_nr_io_queues := 0, o_nr_write_queues := 0, o_nr_poll_queues := 0,
             o_duplicate_connect := True, o_max_reconnects := m, o_host := h\<rparr>
      else (ps_opts st)\<lparr>o_max_reconnects := m, o_host := h\<rparr>)"
    unfolding assms(2)[symmetric] finish_options_def Let_def m_def h_def
    by (cases "o_discovery_nqn (ps_opts st)"; cases "o_host (ps_opts st) = None") simp_all
  then show ?thesis
    using assms(1) unfolding valid_opts_def m_def
    by (cases "o_discovery_nqn (ps_opts st)"; cases "ps_loss_tmo st < 0") simp_all
qed

lemma div_round_up_bounds:
  assumes "1 \<le> d"
  shows "n \<le> DIV_ROUND_UP n d * d" and "DIV_ROUND_UP n d * d < n + d"
proof -
  have m: "(n + d - 1) mod d < d" using assms by simp
  have "(n + d - 1) div d * d + (n + d - 1) mod d = n + d - 1" by simp
  then show "n \<le> DIV_ROUND_UP n d * d" "DIV_ROUND_UP n d * d < n + d"
    using m assms unfolding DIV_ROUND_UP_def by linarith+
qed

text \<open>The loss timeout the string asks for: the value of its last \<open>ctrl_loss_tmo\<close> field.\<close>

fun requested_loss_tmo :: "parse_env \<Rightarrow> string list \<Rightarrow> int \<Rightarrow> int" where
  "requested_loss_tmo e [] tmo = tmo"
| "requested_loss_tmo e (p # ps) tmo =
     (let (tok, arg) = match_token e opt_tokens p
      in requested_loss_tmo e ps (if p \<noteq> [] \<and> tok = NVMF_OPT_CTRL_LOSS_TMO then the (pe_int e arg) else tmo))"

lemma loss_field:
  assumes "parse_field e k p st = (0, st')" and "match_token e opt_tokens p = (token, arg)"
  shows "ps_loss_tmo st' = (if token = NVMF_OPT_CTRL_LOSS_TMO then the (pe_int e arg) else ps_loss_tmo st)"
proof (cases "token = NVMF_OPT_CTRL_LOSS_TMO")
  case True
  with assms show ?thesis
    unfolding parse_field_def assms(2) Let_def by (auto simp: int_field_def split: option.splits)
next
  case False
  define P where "P = (\<lambda>s::parse_state. ps_loss_tmo s = ps_loss_tmo st)"
  have "P (snd (parse_field e k p st))"
    using False unfolding parse_field_def assms(2) Let_def prod.case
    by (simp only: if_False) (intro field_keeps[where P = P], simp_all add: P_def)
  with False assms(1) show ?thesis by (simp add: P_def)
qed

lemma requested_loss_tmo_parsed:
  "parse_fields e k ps st = (0, st') \<Longrightarrow> ps_loss_tmo st' = requested_loss_tmo e ps (ps_loss_tmo st)"
proof (induction ps arbitrary: k st)
  case (Cons p ps)
  obtain token arg where t: "match_token e opt_tokens p = (token, arg)" by (metis surj_pair)
  obtain ret st1 where f: "parse_field e k p st = (ret, st1)" by (metis surj_pair)
  show ?case
  proof (cases "p = []")
    case False
    with Cons.prems f have r: "ret = 0" "parse_fields e (k + 1) ps st1 = (0, st')"
      by (auto split: if_splits)
    have l: "ps_loss_tmo st1 = (if token = NVMF_OPT_CTRL_LOSS_TMO then the (pe_int e arg) else ps_loss_tmo st)"
      using loss_field f r(1) t by blast
    show ?thesis by (simp only: Cons.IH[OF r(2)] l requested_loss_tmo.simps t prod.case Let_def False) simp
  qed (use Cons in \<open>simp add: t\<close>)
qed simp

text \<open>C12. A parse that succeeds yields options every later step relies on: the queue size is between 16 and
  1024, the reconnect delay at least one second, the type of service a byte or unset, a discovery
  controller has no I/O queues, any other has between one and the number of processors; and the
  reconnect budget covers the requested loss timeout without exceeding it by a whole delay, a negative
  timeout meaning no limit.
\<close>

theorem parse_options_valid:
  assumes "nvmf_parse_options e zero_options buf fab = (0, opts, fab')" and "1 \<le> pe_cpus e"
  shows "o_queue_size opts \<in> {16..1024} \<and> 1 \<le> o_reconnect_delay opts \<and> o_tos opts \<in> {-1..255} \<and>
    (if o_discovery_nqn opts
     then o_nr_io_queues opts + o_nr_write_queues opts + o_nr_poll_queues opts = 0 \<and> o_duplicate_connect opts
     else o_nr_io_queues opts \<in> {1..pe_cpus e}) \<and>
    (let tmo = requested_loss_tmo e (split_fields buf) 600;
         budget = o_max_reconnects opts * int (o_reconnect_delay opts)
     in if tmo < 0 then o_max_reconnects opts = - 1
        else tmo \<le> budget \<and> budget < tmo + int (o_reconnect_delay opts))"
proof -
  define st0 where "st0 = \<lparr>ps_opts = default_options (pe_cpus e) zero_options, ps_loss_tmo = NVMF_DEF_CTRL_LOSS_TMO,
    ps_hostid = pe_uuid_gen e, ps_hosts = f_hosts fab\<rparr>"
  obtain ret st where p: "parse_fields e 0 (split_fields buf) st0 = (ret, st)" by (metis surj_pair)
  from assms(1) p have r: "ret = 0" and o: "opts = ps_opts (finish_options (f_default fab) st)"
    unfolding nvmf_parse_options_def st0_def by (auto split: if_splits simp: Let_def)
  have "valid_opts (pe_cpus e) (ps_opts st0)" using start_valid assms(2) by (simp add: st0_def)
  from parse_fields_valid[OF this, of 0 "split_fields buf"] have v: "valid_opts (pe_cpus e) (ps_opts st)"
    by (simp add: p)
  note f = finish_valid[OF v HOL.refl, of "f_default fab", folded o]
  then have d: "1 \<le> o_reconnect_delay opts" by blast
  define tmo where "tmo = requested_loss_tmo e (split_fields buf) 600"
  have l: "ps_loss_tmo st = tmo"
    using requested_loss_tmo_parsed[OF p[unfolded r]] by (simp add: st0_def tmo_def)
  have "if tmo < 0 then o_max_reconnects opts = - 1
    else tmo \<le> o_max_reconnects opts * int (o_reconnect_delay opts) \<and>
         o_max_reconnects opts * int (o_reconnect_delay opts) < tmo + int (o_reconnect_delay opts)"
  proof (cases "tmo < 0")
    case False
    then obtain n where n: "tmo = int n" by (metis nonneg_int_cases not_less)
    with f l have "o_max_reconnects opts = int (DIV_ROUND_UP n (o_reconnect_delay opts))" by simp
    then have "o_max_reconnects opts * int (o_reconnect_delay opts) =
      int (DIV_ROUND_UP n (o_reconnect_delay opts) * o_reconnect_delay opts)" by simp
    with div_round_up_bounds[OF d, of n] n show ?thesis
      by (simp del: of_nat_mult)
  qed (use f l in simp)
  with f assms(2) show ?thesis unfolding tmo_def[symmetric] Let_def by (cases "o_discovery_nqn opts") simp_all
qed

definition parseenv0 :: parse_env where
  "parseenv0 = \<lparr>pe_kstrdup = True, pe_strdup = (\<lambda>_. True),
     pe_int = (\<lambda>s. if s = ''64'' then Some 64 else if s = ''300'' then Some 300 else None),
     pe_uuid_parse = (\<lambda>_. None), pe_uuid_gen = [7], pe_host_alloc = (\<lambda>_. Some 40), pe_garbage = [],
     pe_cpus = 8\<rparr>"

definition fabrics0 :: fabrics where
  "fabrics0 = \<lparr>f_hosts = [\<lparr>h_addr = 10, h_ref = 1, h_nqn = ''host'', h_id = [1]\<rparr>], f_default = 10\<rparr>"

lemmas parse_example_defs = parseenv0_def fabrics0_def nvmf_parse_options_def zero_options_def default_options_def
  parse_field_def opt_tokens_def field_defs finish_options_def parse_hostnqn_def DIV_ROUND_UP_def

definition connect_line :: string where
  "connect_line = ''transport=rdma,nqn=sub1,traddr=a,queue_size=64,ctrl_loss_tmo=300''"

definition connect_opts :: nvmf_ctrl_options where
  "connect_opts = (default_options 8 zero_options)\<lparr>o_mask := 0x817, o_transport := Some ''rdma'',
     o_subsysnqn := Some ''sub1'', o_traddr := Some ''a'', o_queue_size := 64, o_host := Some 10,
     o_max_reconnects := 30\<rparr>"

lemma connect_line_parses:
  "nvmf_parse_options parseenv0 zero_options connect_line fabrics0 =
     (0, connect_opts, fabrics0\<lparr>f_hosts := [\<lparr>h_addr = 10, h_ref = 2, h_nqn = ''host'', h_id = [7]\<rparr>]\<rparr>)"
  by (simp add: parse_example_defs connect_line_def connect_opts_def Let_def upd_host_def host_get_def)

lemma connect_line_tmo: "requested_loss_tmo parseenv0 (split_fields connect_line) 600 = 300"
  by (simp add: connect_line_def parseenv0_def opt_tokens_def)

theorem parse_options_valid_witness:
  "(let tmo = requested_loss_tmo parseenv0 (split_fields connect_line) 600;
        budget = o_max_reconnects connect_opts * int (o_reconnect_delay connect_opts)
    in if tmo < 0 then o_max_reconnects connect_opts = - 1
       else tmo \<le> budget \<and> budget < tmo + int (o_reconnect_delay connect_opts)) \<and>
   o_nr_io_queues connect_opts = 8"
  using parse_options_valid[OF connect_line_parses]
  by (simp add: parseenv0_def connect_opts_def default_options_def)

section \<open>The life of the host reference\<close>

lemma mask_field:
  assumes "match_token e opt_tokens p = (token, arg)"
  shows "o_mask (ps_opts (snd (parse_field e k p st))) = o_mask (ps_opts st) OR token"
    and "token \<noteq> NVMF_OPT_HOST_ID \<longrightarrow> ps_hostid (snd (parse_field e k p st)) = ps_hostid st"
proof -
  show "o_mask (ps_opts (snd (parse_field e k p st))) = o_mask (ps_opts st) OR token"
    unfolding parse_field_def assms Let_def prod.case
    by (intro field_keeps[where P = "\<lambda>s. o_mask (ps_opts s) = o_mask (ps_opts st) OR token"]) simp_all
  show "token \<noteq> NVMF_OPT_HOST_ID \<longrightarrow> ps_hostid (snd (parse_field e k p st)) = ps_hostid st"
    unfolding parse_field_def assms Let_def prod.case
    by (rule impI, simp only: if_False)
      (intro field_keeps[where P = "\<lambda>s. ps_hostid s = ps_hostid st"], simp_all)
qed

lemma hostid_kept:
  assumes "parse_fields e k ps st = (0, st')" and "o_mask (ps_opts st') AND NVMF_OPT_HOST_ID = 0"
  shows "ps_hostid st' = ps_hostid st \<and> o_mask (ps_opts st) AND NVMF_OPT_HOST_ID = 0"
  using assms
proof (induction ps arbitrary: k st)
  case (Cons p ps)
  obtain token arg where t: "match_token e opt_tokens p = (token, arg)" by (metis surj_pair)
  obtain ret st1 where f: "parse_field e k p st = (ret, st1)" by (metis surj_pair)
  show ?case
  proof (cases "p = []")
    case False
    with Cons.prems f have r: "parse_fields e (k + 1) ps st1 = (0, st')"
      by (auto split: if_splits)
    note m = Cons.IH[OF r Cons.prems(2)]
    with mask_field(1)[OF t, of k st] f
    have "(o_mask (ps_opts st) AND NVMF_OPT_HOST_ID) OR (token AND NVMF_OPT_HOST_ID) = 0"
      by (simp add: bit.conj_disj_distrib2)
    then have "o_mask (ps_opts st) AND NVMF_OPT_HOST_ID = 0" "token AND NVMF_OPT_HOST_ID = 0"
      by (simp_all add: or_eq_0_iff)
    with m mask_field(2)[OF t, of k st] f show ?thesis by auto
  qed (use Cons in simp)
qed simp

text \<open>The host references of a parse, whether it succeeds or not.\<close>

lemma parse_options_hosts:
  assumes "hosts_ok (f_hosts fab)" and "fresh_hosts e (f_hosts fab)" and "host_at (f_default fab) (f_hosts fab) \<noteq> None"
    and "nvmf_parse_options e zero_options buf fab = (ret, opts, fab')"
  shows "f_default fab' = f_default fab \<and>
    (\<exists>i. nvmf_host_put (o_host opts) (f_hosts fab') =
       (if ret = 0 then upd_host (the (o_host opts)) (\<lambda>h. h\<lparr>h_id := i\<rparr>) (f_hosts fab) else f_hosts fab) \<and>
      (ret = 0 \<longrightarrow> (\<exists>a h. o_host opts = Some a \<and> host_at a (f_hosts fab') = Some h \<and> h_id h = i) \<and>
        (o_mask opts AND NVMF_OPT_HOST_ID = 0 \<longrightarrow> i = pe_uuid_gen e)))"
proof (cases "pe_kstrdup e")
  case False
  with assms(4) show ?thesis
    by (auto simp: nvmf_parse_options_def Let_def nvmf_host_put_def default_options_def zero_options_def)
next
  case True
  define st0 where "st0 = \<lparr>ps_opts = default_options (pe_cpus e) zero_options, ps_loss_tmo = NVMF_DEF_CTRL_LOSS_TMO,
    ps_hostid = pe_uuid_gen e, ps_hosts = f_hosts fab\<rparr>"
  obtain r st where p: "parse_fields e 0 (split_fields buf) st0 = (r, st)" by (metis surj_pair)
  have h0: "o_host (ps_opts st0) = None" "ps_hosts st0 = f_hosts fab" "ps_hostid st0 = pe_uuid_gen e"
    by (simp_all add: st0_def default_options_def zero_options_def)
  have "st = snd (parse_fields e 0 (split_fields buf) st0)" by (simp add: p)
  from parse_fields_hosts[OF assms(1,2) _ _ _ _ this] h0 assms(1)
  have inv: "nvmf_host_put (o_host (ps_opts st)) (ps_hosts st) = f_hosts fab" "hosts_ok (ps_hosts st)"
    "o_host (ps_opts st) = None \<longrightarrow> ps_hosts st = f_hosts fab"
    "\<forall>a. o_host (ps_opts st) = Some a \<longrightarrow> host_at a (ps_hosts st) \<noteq> None"
    by (simp_all add: nvmf_host_put_def)
  define st' where "st' = (if r = 0 then finish_options (f_default fab) st else st)"
  from assms(4) True p have res: "ret = r" "opts = ps_opts st'" "fab' = fab\<lparr>f_hosts := ps_hosts st'\<rparr>"
    unfolding nvmf_parse_options_def st0_def st'_def by (auto simp: Let_def)
  show ?thesis
  proof (cases "r = 0")
    case False
    with inv show ?thesis by (simp add: res st'_def)
  next
    case r: True
    have mask: "o_mask (ps_opts st') = o_mask (ps_opts st)"
      by (simp add: st'_def r finish_options_def Let_def)
    from finish_hosts[OF inv(1,2,3,4) assms(3), of st'] r
    obtain a h where a: "o_host (ps_opts st') = Some a"
      "nvmf_host_put (Some a) (ps_hosts st') = upd_host a (\<lambda>h. h\<lparr>h_id := ps_hostid st\<rparr>) (f_hosts fab)"
      "host_at a (ps_hosts st') = Some h" "h_id h = ps_hostid st"
      unfolding st'_def by auto
    have "o_mask (ps_opts st') AND NVMF_OPT_HOST_ID = 0 \<longrightarrow> ps_hostid st = pe_uuid_gen e"
      using hostid_kept[OF p[unfolded r]] h0(3) mask by simp
    with a show ?thesis by (auto simp: res r)
  qed
qed

lemma host_refs_id: "host_refs (upd_host a (\<lambda>h. h\<lparr>h_id := i\<rparr>) hs) = host_refs hs"
  by (auto simp: host_refs_def upd_host_def)

lemma put_host_refs:
  "nvmf_host_put x hs' = upd_host a (\<lambda>h. h\<lparr>h_id := i\<rparr>) hs \<Longrightarrow> host_refs (nvmf_host_put x hs') = host_refs hs"
  by (simp add: host_refs_id)

text \<open>Creating a controller balances its references on every path: a failure, wherever it happens,
  leaves the hosts with exactly the names and reference counts they had, a success adds exactly one
  reference that freeing the controller's options gives back, and no transport module stays pinned.
\<close>

theorem create_ctrl_balances_references:
  assumes "hosts_ok (f_hosts fab)" and "fresh_hosts e (f_hosts fab)" and "host_at (f_default fab) (f_hosts fab) \<noteq> None"
    and c: "nvmf_create_ctrl kzalloc e ts create buf fab = (ret, c, fab', modules)"
  shows "modules = 0 \<and> f_default fab' = f_default fab \<and>
    (if ret \<noteq> 0 then c = None \<and> host_refs (f_hosts fab') = host_refs (f_hosts fab)
     else \<exists>opts a. c = Some opts \<and> o_host opts = Some a \<and>
            host_refs (f_hosts (nvmf_free_options opts fab')) = host_refs (f_hosts fab))"
proof (cases kzalloc)
  case False
  with c show ?thesis by (auto simp: nvmf_create_ctrl_def)
next
  case True
  obtain r opts fab1 where p: "nvmf_parse_options e zero_options buf fab = (r, opts, fab1)" by (metis prod_cases3)
  note h = parse_options_hosts[OF assms(1-3) p]
  then have refs: "host_refs (f_hosts (nvmf_free_options opts fab1)) = host_refs (f_hosts fab)"
    "f_default (nvmf_free_options opts fab1) = f_default fab"
    by (auto simp: nvmf_free_options_def host_refs_id split: if_splits)
  have m: "nvmf_free_options (o'\<lparr>o_mask := x\<rparr>) f = nvmf_free_options o' f" for o' x f
    by (simp add: nvmf_free_options_def)
  show ?thesis
    using c h refs True
    unfolding nvmf_create_ctrl_def
    by (auto simp: p m Let_def split: if_splits option.splits)
qed

definition rdma_ops0 :: nvmf_transport_ops where
  "rdma_ops0 = \<lparr>t_name = ''rdma'', t_required_opts = 0x4, t_allowed_opts = 0xE0E08, t_has_create = True,
     t_module_get = True\<rparr>"

lemma fabrics0_ok:
  "hosts_ok (f_hosts fabrics0)" "fresh_hosts parseenv0 (f_hosts fabrics0)"
  "host_at (f_default fabrics0) (f_hosts fabrics0) \<noteq> None"
  by (simp_all add: hosts_ok_def fresh_hosts_def fabrics0_def parseenv0_def host_at_def)

theorem create_ctrl_balances_references_witness:
  "\<exists>opts. nvmf_create_ctrl True parseenv0 [rdma_ops0] (\<lambda>_. 0) connect_line fabrics0 =
     (0, Some opts, fabrics0\<lparr>f_hosts := [\<lparr>h_addr = 10, h_ref = 2, h_nqn = ''host'', h_id = [7]\<rparr>]\<rparr>, 0) \<and>
     host_refs (f_hosts (nvmf_free_options opts
       (fabrics0\<lparr>f_hosts := [\<lparr>h_addr = 10, h_ref = 2, h_nqn = ''host'', h_id = [7]\<rparr>]\<rparr>))) = host_refs (f_hosts fabrics0)"
proof -
  have "nvmf_create_ctrl True parseenv0 [rdma_ops0] (\<lambda>_. 0) connect_line fabrics0 =
    (0, Some (connect_opts\<lparr>o_mask := 0x814\<rparr>),
     fabrics0\<lparr>f_hosts := [\<lparr>h_addr = 10, h_ref = 2, h_nqn = ''host'', h_id = [7]\<rparr>]\<rparr>, 0)"
    by (simp add: nvmf_create_ctrl_def connect_line_parses nvmf_check_required_opts_def
        nvmf_check_allowed_opts_def nvmf_lookup_transport_def rdma_ops0_def connect_opts_def Let_def)
  note run = this
  show ?thesis
    using create_ctrl_balances_references[OF fabrics0_ok run] run by auto
qed

text \<open>The host structure is shared, and every successful parse writes its id: a connect whose string has
  no \<open>hostid\<close> field replaces the id that a controller created earlier with the same host sends in its
  next connect command by the id generated for the new one.
\<close>

theorem parse_replaces_shared_host_id:
  assumes "hosts_ok (f_hosts fab)" and "fresh_hosts e (f_hosts fab)" and "host_at (f_default fab) (f_hosts fab) \<noteq> None"
    and "nvmf_parse_options e zero_options buf fab = (0, opts, fab')"
    and "o_mask opts AND NVMF_OPT_HOST_ID = 0" and "o_host old = o_host opts"
  shows "cd_hostid (make_connect_data (f_hosts fab') old cntlid) = pe_uuid_gen e"
  using parse_options_hosts[OF assms(1-4)] assms(5,6) by (auto simp: make_connect_data_def Let_def)

theorem parse_replaces_shared_host_id_witness:
  "cd_hostid (make_connect_data (f_hosts fabrics0) connect_opts 0xffff) = [1] \<and>
   cd_hostid (make_connect_data [\<lparr>h_addr = 10, h_ref = 2, h_nqn = ''host'', h_id = [7]\<rparr>] connect_opts 0xffff) = [7]"
  using parse_replaces_shared_host_id[OF fabrics0_ok connect_line_parses, where old = connect_opts and cntlid = "0xffff"]
  by (simp add: make_connect_data_def connect_opts_def parseenv0_def)
    (simp add: fabrics0_def host_at_def)

end
