(* ===== verification/Rdma_Ctrl.thy ===== *)
theory Rdma_Ctrl
  imports Rdma_Io_Queues Host_Identify Fabrics_Options
begin

text \<open>
  The life of an RDMA controller (\<open>host/rdma.c\<close>): tag sets, configuring and tearing down the admin and
  the I/O queues, setting a controller up, error recovery, reconnecting, reset, deletion, and the
  module's list of controllers.
\<close>

section \<open>The kernel's answers during one setup\<close>

record setup_env =
  se_admin :: queue_env
  se_io :: io_env
  se_async_kzalloc :: bool
  se_async_map :: bool
  se_admin_tagset :: int
  se_fabrics_q :: int
  se_admin_q :: int
  se_io_tagset :: int
  se_connect_q :: int
  se_connect_alloc :: bool
  se_submit :: submit_env
  se_hosts :: "nvmf_host list"
  se_regs :: reg_env
  se_identify :: identify_env
  se_others :: "nvme_ctrl \<Rightarrow> nvme_ctrl"
    \<comment> \<open>what other threads did to the controller while it was being set up\<close>

definition on_ctrl :: "(nvme_ctrl \<Rightarrow> nvme_ctrl) \<Rightarrow> nvme_rdma_ctrl \<Rightarrow> nvme_rdma_ctrl" where
  "on_ctrl f r = r\<lparr>r_ctrl := f (r_ctrl r)\<rparr>"

definition on_ctrl_ret :: "(nvme_ctrl \<Rightarrow> 'a \<times> nvme_ctrl) \<Rightarrow> nvme_rdma_ctrl \<Rightarrow> 'a \<times> nvme_rdma_ctrl" where
  "on_ctrl_ret f r = (fst (f (r_ctrl r)), r\<lparr>r_ctrl := snd (f (r_ctrl r))\<rparr>)"

section \<open>Tag sets\<close>

abbreviation (input) NVME_AQ_MQ_TAG_DEPTH :: nat where "NVME_AQ_MQ_TAG_DEPTH \<equiv> NVME_AQ_BLK_MQ_DEPTH - 1"
abbreviation (input) HCTX_MAX_TYPES :: nat where "HCTX_MAX_TYPES \<equiv> 3"

record tag_set =
  ts_queue_depth :: nat
  ts_reserved_tags :: nat
  ts_nr_hw_queues :: nat
  ts_nr_maps :: nat          \<comment> \<open>0: left for the block layer to default\<close>
  ts_no_sched :: bool
  ts_should_merge :: bool

definition tagset_params :: "bool \<Rightarrow> nvme_ctrl \<Rightarrow> tag_set" where
  "tagset_params admin c =
     (if admin
      then \<lparr>ts_queue_depth = NVME_AQ_MQ_TAG_DEPTH, ts_reserved_tags = 2, ts_nr_hw_queues = 1,
            ts_nr_maps = 0, ts_no_sched = True, ts_should_merge = False\<rparr>
      else \<lparr>ts_queue_depth = unat (c_sqsize c) + 1, ts_reserved_tags = 1,
            ts_nr_hw_queues = c_queue_count c - 1,
            ts_nr_maps = (if o_nr_poll_queues (c_opts c) \<noteq> 0 then HCTX_MAX_TYPES else 2),
            ts_no_sched = False, ts_should_merge = True\<rparr>)"

text \<open>
  \<open>ret\<close> is what \<open>blk_mq_alloc_tag_set\<close> returns. Callers store the result, an error pointer included, so
  the controller's tag set pointer is not \<open>NULL\<close> afterwards in either case.
\<close>

definition nvme_rdma_alloc_tagset :: "int \<Rightarrow> bool \<Rightarrow> nvme_rdma_ctrl \<Rightarrow> int \<times> nvme_rdma_ctrl" where
  "nvme_rdma_alloc_tagset ret admin r =
     (if ret \<noteq> 0 then (ret, r) else (0, emit (Alloc_tagset admin) r))"

text \<open>\<open>blk_mq_init_queue\<close>.\<close>

definition init_queue :: "int \<Rightarrow> blkq \<Rightarrow> nvme_rdma_ctrl \<Rightarrow> int \<times> nvme_rdma_ctrl" where
  "init_queue ret q r = (if ret \<noteq> 0 then (ret, r) else (0, emit (Init_queue q) r))"

section \<open>The admin queue\<close>

text \<open>The asynchronous event command's buffer, allocated like a ring element.\<close>

definition alloc_async_qe :: "setup_env \<Rightarrow> nvme_rdma_ctrl \<Rightarrow> int \<times> nvme_rdma_ctrl" where
  "alloc_async_qe e r =
     (if \<not> se_async_kzalloc e then (- ENOMEM, r\<lparr>r_async_sqe := False\<rparr>)
      else
        let r = emit Alloc_async_qe (r\<lparr>r_async_sqe := True\<rparr>)
        in if \<not> se_async_map e then (- ENOMEM, (emit Kfree_async_qe r)\<lparr>r_async_sqe := False\<rparr>)
           else (0, emit Map_async_qe r))"

definition free_async_qe :: "nvme_rdma_ctrl \<Rightarrow> nvme_rdma_ctrl" where
  "free_async_qe r =
     (if r_async_sqe r
      then (emit Kfree_async_qe (emit Unmap_async_qe r))\<lparr>r_async_sqe := False\<rparr> else r)"

definition nvme_rdma_destroy_admin_queue :: "bool \<Rightarrow> nvme_rdma_ctrl \<Rightarrow> nvme_rdma_ctrl" where
  "nvme_rdma_destroy_admin_queue remove r =
     (let r = (if remove then emit (Free_tagset True) (emit (Cleanup_queue Fabrics_q) (emit (Cleanup_queue Admin_q) r))
               else r);
          r = free_async_qe r
      in nvme_rdma_free_queue 0 r)"

text \<open>
  \<open>nvme_rdma_start_queue (ctrl, 0)\<close>: the connect command also tells the controller id.
\<close>

definition start_admin_queue :: "setup_env \<Rightarrow> nvme_rdma_ctrl \<Rightarrow> int \<times> nvme_rdma_ctrl" where
  "start_admin_queue e r =
     (let (ret, c) = nvmf_connect_admin_queue (se_connect_alloc e) (se_submit e) (se_hosts e) (r_ctrl r);
          (ret, r) = nvme_rdma_start_queue (\<lambda>_. ret) 0 r
      in (ret, on_ctrl (\<lambda>c'. c'\<lparr>c_cntlid := c_cntlid c\<rparr>) r))"

text \<open>The error labels of \<open>nvme_rdma_configure_admin_queue\<close>, each falling through to the next.\<close>

definition out_free_queue :: "nvme_rdma_ctrl \<Rightarrow> nvme_rdma_ctrl" where
  "out_free_queue r = nvme_rdma_free_queue 0 r"

definition out_free_async_qe :: "nvme_rdma_ctrl \<Rightarrow> nvme_rdma_ctrl" where
  "out_free_async_qe r = out_free_queue (free_async_qe r)"

definition out_free_tagset :: "bool \<Rightarrow> nvme_rdma_ctrl \<Rightarrow> nvme_rdma_ctrl" where
  "out_free_tagset new r = out_free_async_qe (if new then emit (Free_tagset True) r else r)"

definition out_cleanup_fabrics_q :: "bool \<Rightarrow> nvme_rdma_ctrl \<Rightarrow> nvme_rdma_ctrl" where
  "out_cleanup_fabrics_q new r = out_free_tagset new (if new then emit (Cleanup_queue Fabrics_q) r else r)"

definition out_cleanup_queue :: "bool \<Rightarrow> nvme_rdma_ctrl \<Rightarrow> nvme_rdma_ctrl" where
  "out_cleanup_queue new r = out_cleanup_fabrics_q new (if new then emit (Cleanup_queue Admin_q) r else r)"

definition out_stop_queue :: "bool \<Rightarrow> nvme_rdma_ctrl \<Rightarrow> nvme_rdma_ctrl" where
  "out_stop_queue new r = out_cleanup_queue new (nvme_rdma_stop_queue 0 r)"

text \<open>The tag set and the two block layer queues of a new controller.\<close>

definition create_admin_blk :: "setup_env \<Rightarrow> nvme_rdma_ctrl \<Rightarrow> int \<times> nvme_rdma_ctrl" where
  "create_admin_blk e r =
     (let (ret, r) = nvme_rdma_alloc_tagset (se_admin_tagset e) True r;
          r = on_ctrl (\<lambda>c. c\<lparr>c_admin_tagset := True\<rparr>) r
      in if ret \<noteq> 0 then (ret, out_free_async_qe r)
      else
        let (ret, r) = init_queue (se_fabrics_q e) Fabrics_q r
        in if ret \<noteq> 0 then (ret, out_free_tagset True r)
      else
        let (ret, r) = init_queue (se_admin_q e) Admin_q r
        in if ret \<noteq> 0 then (ret, out_cleanup_fabrics_q True r) else (0, r))"

definition nvme_rdma_configure_admin_queue :: "setup_env \<Rightarrow> bool \<Rightarrow> nvme_rdma_ctrl \<Rightarrow> int \<times> nvme_rdma_ctrl" where
  "nvme_rdma_configure_admin_queue e new r =
     (let (ret, r) = nvme_rdma_alloc_queue (se_admin e) 0 NVME_AQ_DEPTH r
      in if ret \<noteq> 0 then (ret, r)
      else
        let r = r\<lparr>r_device := q_device (queue r 0),
                  r_max_fr_pages := nvme_rdma_get_max_fr_pages (qe_max_fast_reg (se_admin e))\<rparr>;
            (ret, r) = alloc_async_qe e r
        in if ret \<noteq> 0 then (ret, out_free_queue r)
      else
        let (ret, r) = (if new then create_admin_blk e r else (0, r))
        in if ret \<noteq> 0 then (ret, r)
      else
        let (ret, r) = start_admin_queue e r
        in if ret \<noteq> 0 then (ret, out_cleanup_queue new r)
      else
        let (ret, r) = on_ctrl_ret (nvme_enable_ctrl (se_regs e)) r
        in if ret \<noteq> 0 then (ret, out_stop_queue new r)
      else
        let r = on_ctrl (\<lambda>c. c\<lparr>c_max_segments := unat (r_max_fr_pages r),
                               c_max_hw_sectors := unat (push_bit 3 (r_max_fr_pages r))\<rparr>) r;
            r = emit Unquiesce_admin r;
            (ret, r) = on_ctrl_ret (nvme_init_identify (se_identify e)) r
        in if ret \<noteq> 0 then (ret, out_stop_queue new r) else (0, r))"

section \<open>The I/O queues\<close>

definition nvme_rdma_destroy_io_queues :: "bool \<Rightarrow> nvme_rdma_ctrl \<Rightarrow> nvme_rdma_ctrl" where
  "nvme_rdma_destroy_io_queues remove r =
     (let r = (if remove then emit (Free_tagset False) (emit (Cleanup_queue Connect_q) r) else r)
      in nvme_rdma_free_io_queues r)"

definition nvme_rdma_configure_io_queues :: "setup_env \<Rightarrow> bool \<Rightarrow> nvme_rdma_ctrl \<Rightarrow> int \<times> nvme_rdma_ctrl" where
  "nvme_rdma_configure_io_queues e new r =
     (let (ret, r) = nvme_rdma_alloc_io_queues (se_io e) r
      in if ret \<noteq> 0 then (ret, r)
      else if new then
        let (ret, r) = nvme_rdma_alloc_tagset (se_io_tagset e) False r;
            r = on_ctrl (\<lambda>c. c\<lparr>c_tagset := True\<rparr>) r
        in if ret \<noteq> 0 then (ret, nvme_rdma_free_io_queues r)
        else
          let (ret, r) = init_queue (se_connect_q e) Connect_q r
          in if ret \<noteq> 0 then (ret, nvme_rdma_free_io_queues (emit (Free_tagset False) r))
          else
            let (ret, r) = nvme_rdma_start_io_queues (se_io e) r
            in if ret \<noteq> 0
               then (ret, nvme_rdma_free_io_queues
                       (emit (Free_tagset False) (emit (Cleanup_queue Connect_q) r)))
               else (0, r)
      else
        let r = emit (Update_nr_hw_queues (c_queue_count (r_ctrl r) - 1)) r;
            (ret, r) = nvme_rdma_start_io_queues (se_io e) r
        in if ret \<noteq> 0 then (ret, nvme_rdma_free_io_queues r) else (0, r))"

section \<open>Tearing down\<close>

definition cancel_busy :: "bool \<Rightarrow> bool \<Rightarrow> nvme_rdma_ctrl \<Rightarrow> nvme_rdma_ctrl" where
  "cancel_busy present admin r =
     (if present then emit (Wait_completed_requests admin) (emit (Cancel_busy_requests admin) r) else r)"

definition nvme_rdma_teardown_admin_queue :: "bool \<Rightarrow> nvme_rdma_ctrl \<Rightarrow> nvme_rdma_ctrl" where
  "nvme_rdma_teardown_admin_queue remove r =
     (let r = emit Quiesce_admin r;
          r = nvme_rdma_stop_queue 0 r;
          r = cancel_busy (c_admin_tagset (r_ctrl r)) True r;
          r = (if remove then emit Unquiesce_admin r else r)
      in nvme_rdma_destroy_admin_queue remove r)"

definition nvme_rdma_teardown_io_queues :: "bool \<Rightarrow> nvme_rdma_ctrl \<Rightarrow> nvme_rdma_ctrl" where
  "nvme_rdma_teardown_io_queues remove r =
     (if c_queue_count (r_ctrl r) > 1 then
        let r = emit Stop_queues r;
            r = nvme_rdma_stop_io_queues r;
            r = cancel_busy (c_tagset (r_ctrl r)) False r;
            r = (if remove then emit Start_queues r else r)
        in nvme_rdma_destroy_io_queues remove r
      else r)"

section \<open>Setting a controller up\<close>

abbreviation (input) SGLS_KEYED :: u32 where "SGLS_KEYED \<equiv> 0x4"
abbreviation (input) SGLS_OFFSET :: u32 where "SGLS_OFFSET \<equiv> 0x100000"

definition destroy_admin :: "bool \<Rightarrow> nvme_rdma_ctrl \<Rightarrow> nvme_rdma_ctrl" where
  "destroy_admin new r = nvme_rdma_destroy_admin_queue new (nvme_rdma_stop_queue 0 r)"

definition destroy_io :: "bool \<Rightarrow> nvme_rdma_ctrl \<Rightarrow> nvme_rdma_ctrl" where
  "destroy_io new r =
     destroy_admin new (if c_queue_count (r_ctrl r) > 1 then nvme_rdma_destroy_io_queues new r else r)"

text \<open>\<open>sqsize\<close> is limited to what the controller accepts in a queue.\<close>

definition clamp_sqsize :: "nvme_ctrl \<Rightarrow> nvme_ctrl" where
  "clamp_sqsize c =
     (if unat (c_sqsize c) + 1 > unat (c_maxcmd c) then c\<lparr>c_sqsize := c_maxcmd c - 1\<rparr> else c)"

definition prepare_io :: "nvme_rdma_ctrl \<Rightarrow> nvme_rdma_ctrl" where
  "prepare_io r =
     (let r = on_ctrl clamp_sqsize r
      in if c_sgls (r_ctrl r) AND SGLS_OFFSET \<noteq> 0 then r\<lparr>r_use_inline_data := True\<rparr> else r)"

text \<open>The last steps of a setup: the controller goes live, unless someone deleted it meanwhile.\<close>

definition go_live :: "setup_env \<Rightarrow> bool \<Rightarrow> nvme_rdma_ctrl \<Rightarrow> int \<times> nvme_rdma_ctrl" where
  "go_live e new r =
     (let (changed, r) = on_ctrl_ret (nvme_change_ctrl_state NVME_CTRL_LIVE) r
      in if \<not> changed then
           (- EINVAL,
            destroy_io new (if c_state (r_ctrl r) \<noteq> NVME_CTRL_DELETING then emit Warn_once r else r))
         else (0, on_ctrl (nvme_start_ctrl (ie_features (se_io e))) r))"

definition nvme_rdma_setup_ctrl :: "setup_env \<Rightarrow> bool \<Rightarrow> nvme_rdma_ctrl \<Rightarrow> int \<times> nvme_rdma_ctrl" where
  "nvme_rdma_setup_ctrl e new r =
     (let (ret, r) = nvme_rdma_configure_admin_queue e new r
      in if ret \<noteq> 0 then (ret, r)
      else if c_icdoff (r_ctrl r) \<noteq> 0 then (ret, destroy_admin new r)
      else if c_sgls (r_ctrl r) AND SGLS_KEYED = 0 then (ret, destroy_admin new r)
      else
        let r = prepare_io r;
            (ret, r) = (if c_queue_count (r_ctrl r) > 1 then nvme_rdma_configure_io_queues e new r else (0, r))
        in if ret \<noteq> 0 then (ret, destroy_admin new r)
      else
        go_live e new (on_ctrl (se_others e) r))"

section \<open>Reconnecting, error recovery, reset\<close>

text \<open>Delays are recorded in seconds.\<close>

definition nvme_rdma_reconnect_or_remove :: "nvme_rdma_ctrl \<Rightarrow> nvme_rdma_ctrl" where
  "nvme_rdma_reconnect_or_remove r =
     (let c = r_ctrl r
      in if c_state c \<noteq> NVME_CTRL_CONNECTING
         then (if c_state c = NVME_CTRL_NEW \<or> c_state c = NVME_CTRL_LIVE then emit Warn_once r else r)
         else if nvmf_should_reconnect c
         then on_ctrl (\<lambda>c. snd (queue_delayed_work Reconnect_work (o_reconnect_delay (c_opts c)) c)) r
         else on_ctrl (\<lambda>c. snd (nvme_delete_ctrl c)) r)"

definition nvme_rdma_reconnect_ctrl_work :: "setup_env \<Rightarrow> nvme_rdma_ctrl \<Rightarrow> nvme_rdma_ctrl" where
  "nvme_rdma_reconnect_ctrl_work e r =
     (let r = on_ctrl (\<lambda>c. c\<lparr>c_nr_reconnects := c_nr_reconnects c + 1\<rparr>) r;
          (ret, r) = nvme_rdma_setup_ctrl e False r
      in if ret \<noteq> 0 then nvme_rdma_reconnect_or_remove r
         else on_ctrl (\<lambda>c. c\<lparr>c_nr_reconnects := 0\<rparr>) r)"

definition nvme_rdma_error_recovery_work :: "nvme_rdma_ctrl \<Rightarrow> nvme_rdma_ctrl" where
  "nvme_rdma_error_recovery_work r =
     (let r = on_ctrl nvme_stop_keep_alive r;
          r = nvme_rdma_teardown_io_queues False r;
          r = emit Start_queues r;
          r = nvme_rdma_teardown_admin_queue False r;
          r = emit Unquiesce_admin r;
          (changed, r) = on_ctrl_ret (nvme_change_ctrl_state NVME_CTRL_CONNECTING) r
      in if \<not> changed then (if c_state (r_ctrl r) \<noteq> NVME_CTRL_DELETING then emit Warn_once r else r)
         else nvme_rdma_reconnect_or_remove r)"

definition nvme_rdma_wr_error :: "nvme_rdma_ctrl \<Rightarrow> nvme_rdma_ctrl" where
  "nvme_rdma_wr_error r = nvme_rdma_error_recovery r"

datatype eh_return = BLK_EH_DONE | BLK_EH_RESET_TIMER

text \<open>
  A request timed out. Before it tears the queues down the handler waits for a pending recovery work to
  finish: \<open>flushed\<close> is the controller as that work leaves it.
\<close>

definition nvme_rdma_timeout ::
  "(nvme_rdma_ctrl \<Rightarrow> nvme_rdma_ctrl) \<Rightarrow> nvme_rdma_ctrl \<Rightarrow> eh_return \<times> nvme_rdma_ctrl" where
  "nvme_rdma_timeout flush r =
     (if c_state (r_ctrl r) = NVME_CTRL_RESETTING then (BLK_EH_RESET_TIMER, r)
      else if c_state (r_ctrl r) \<noteq> NVME_CTRL_LIVE then
        let r = flush (emit (Flush_work Err_work) r);
            r = nvme_rdma_teardown_io_queues False r;
            r = nvme_rdma_teardown_admin_queue False r
        in (BLK_EH_DONE, r)
      else (BLK_EH_RESET_TIMER, nvme_rdma_error_recovery r))"

definition nvme_rdma_shutdown_ctrl :: "reg_env \<Rightarrow> bool \<Rightarrow> nvme_rdma_ctrl \<Rightarrow> nvme_rdma_ctrl" where
  "nvme_rdma_shutdown_ctrl e shutdown r =
     (let r = on_ctrl (cancel_work_sync Err_work) r;
          r = on_ctrl (cancel_work_sync Reconnect_work) r;
          r = nvme_rdma_teardown_io_queues shutdown r;
          r = emit Quiesce_admin r;
          (_, r) = on_ctrl_ret (if shutdown then nvme_shutdown_ctrl e else nvme_disable_ctrl e) r
      in nvme_rdma_teardown_admin_queue shutdown r)"

definition nvme_rdma_delete_ctrl :: "reg_env \<Rightarrow> nvme_rdma_ctrl \<Rightarrow> nvme_rdma_ctrl" where
  "nvme_rdma_delete_ctrl e r = nvme_rdma_shutdown_ctrl e True r"

definition nvme_rdma_reset_ctrl_work :: "reg_env \<Rightarrow> setup_env \<Rightarrow> nvme_rdma_ctrl \<Rightarrow> nvme_rdma_ctrl" where
  "nvme_rdma_reset_ctrl_work e se r =
     (let r = on_ctrl nvme_stop_ctrl r;
          r = nvme_rdma_shutdown_ctrl e False r;
          (changed, r) = on_ctrl_ret (nvme_change_ctrl_state NVME_CTRL_CONNECTING) r
      in if \<not> changed then emit Warn_once r
      else
        let (ret, r) = nvme_rdma_setup_ctrl se False r
        in if ret \<noteq> 0
           then nvme_rdma_reconnect_or_remove (on_ctrl (\<lambda>c. c\<lparr>c_nr_reconnects := c_nr_reconnects c + 1\<rparr>) r)
           else r)"

section \<open>What queue operations leave alone\<close>

fun is_blk :: "hcall \<Rightarrow> bool" where
  "is_blk (Q i k) = False"
| "is_blk k = material k"

definition blk_calls :: "nvme_rdma_ctrl \<Rightarrow> hcall list" where
  "blk_calls r = filter is_blk (c_trace (r_ctrl r))"

text \<open>
  Queue operations make no block layer call and change neither options nor reconnect count; the state
  only where a disconnect starts error recovery on a controller that was new or live. \<open>calm\<close> adds that
  the number of queues stays.
\<close>

definition mild :: "nvme_rdma_ctrl \<Rightarrow> nvme_rdma_ctrl \<Rightarrow> bool" where
  "mild r r' \<longleftrightarrow>
     blk_calls r' = blk_calls r \<and> c_nr_reconnects (r_ctrl r') = c_nr_reconnects (r_ctrl r) \<and>
     c_opts (r_ctrl r') = c_opts (r_ctrl r) \<and>
     c_icdoff (r_ctrl r') = c_icdoff (r_ctrl r) \<and> c_sgls (r_ctrl r') = c_sgls (r_ctrl r) \<and>
     c_tagset (r_ctrl r') = c_tagset (r_ctrl r) \<and> c_admin_tagset (r_ctrl r') = c_admin_tagset (r_ctrl r) \<and>
     (\<not> ctrl_transition (c_state (r_ctrl r)) NVME_CTRL_RESETTING \<longrightarrow>
        c_state (r_ctrl r') = c_state (r_ctrl r) \<and> c_pending (r_ctrl r') = c_pending (r_ctrl r))"

definition calm :: "nvme_rdma_ctrl \<Rightarrow> nvme_rdma_ctrl \<Rightarrow> bool" where
  "calm r r' \<longleftrightarrow> mild r r' \<and> c_queue_count (r_ctrl r') = c_queue_count (r_ctrl r)"

lemma mild_refl [simp, intro]: "mild r r"
  by (simp add: mild_def)

lemma mild_trans: "mild r r' \<Longrightarrow> mild r' r'' \<Longrightarrow> mild r r''"
  unfolding mild_def by metis

lemma calm_mild: "calm r r' \<Longrightarrow> mild r r'"
  by (simp add: calm_def)

lemma calm_count: "calm r r' \<Longrightarrow> c_queue_count (r_ctrl r') = c_queue_count (r_ctrl r)"
  by (simp add: calm_def)

lemma calm_refl [simp, intro]: "calm r r"
  by (simp add: calm_def)

lemma calm_upd [simp]:
  "calm r0 (upd_queue i f r) = calm r0 r"
  "calm r0 (r\<lparr>r_devs := ds\<rparr>) = calm r0 r"
  "calm r0 (dev_put_of i r) = calm r0 r"
  by (simp_all add: calm_def mild_def blk_calls_def dev_put_of_def upd_queue_def split: option.split)

lemma mild_upd [simp]:
  "mild r0 (r\<lparr>r_io_default := n\<rparr>) = mild r0 r"
  "mild r0 (r\<lparr>r_io_read := n\<rparr>) = mild r0 r"
  "mild r0 (r\<lparr>r_io_poll := n\<rparr>) = mild r0 r"
  by (simp_all add: mild_def blk_calls_def)

lemma calm_emit [simp]: "\<not> is_blk k \<Longrightarrow> calm r0 (emit k r) = calm r0 r"
  by (simp add: calm_def mild_def blk_calls_def emit_def call_def)

lemma calm_free_ring [simp]: "calm r0 (nvme_rdma_free_ring q n r) = calm r0 r"
proof -
  have "calm r0 (free_qes q i n r) = calm r0 r" for i
    by (induction n arbitrary: i r) (simp_all add: nvme_rdma_free_qe_def)
  then show ?thesis by (simp add: nvme_rdma_free_ring_def)
qed

lemma calm_alloc_ring [simp]: "calm r0 (snd (nvme_rdma_alloc_ring e q n r)) = calm r0 r"
proof -
  have "calm r0 (snd (alloc_qes e q i n r)) = calm r0 r" for i r
    by (induction n arbitrary: i r) (simp_all add: nvme_rdma_alloc_qe_def Let_def split_beta)
  then show ?thesis by (simp add: nvme_rdma_alloc_ring_def Let_def split_beta)
qed

lemma calm_destroy_ib [simp]: "calm r0 (nvme_rdma_destroy_queue_ib i r) = calm r0 r"
  by (simp add: nvme_rdma_destroy_queue_ib_def Let_def)

lemma calm_create_ib [simp]: "calm r0 (snd (nvme_rdma_create_queue_ib e i r)) = calm r0 r"
  by (simp add: nvme_rdma_create_queue_ib_def nvme_rdma_create_qp_def Let_def split_beta)

lemma calm_error_recovery: "calm r0 r \<Longrightarrow> calm r0 (nvme_rdma_error_recovery r)"
  by (simp add: calm_def mild_def nvme_rdma_error_recovery_def nvme_change_ctrl_state_def queue_work_def call_def
      blk_calls_def Let_def)

lemma calm_conn_established [simp]: "calm r0 (snd (nvme_rdma_conn_established e i r)) = calm r0 r"
proof -
  have "calm r0 (snd (post_recvs e i k n r)) = calm r0 r" for k n
    by (induction n arbitrary: k r) (simp_all add: nvme_rdma_post_recv_def Let_def split_beta)
  then show ?thesis by (simp add: nvme_rdma_conn_established_def)
qed

lemma calm_resolved [simp]:
  "calm r0 (snd (nvme_rdma_addr_resolved e i r)) = calm r0 r"
  "calm r0 (snd (nvme_rdma_route_resolved e i r)) = calm r0 r"
  by (simp_all add: nvme_rdma_addr_resolved_def nvme_rdma_route_resolved_def Let_def split_beta)

lemma calm_cm_handler: "calm r0 r \<Longrightarrow> calm r0 (nvme_rdma_cm_handler e i ev r)"
  by (cases ev) (simp_all add: nvme_rdma_cm_handler_def cm_event_action_def complete_cm_def set_cm_error_def
      calm_error_recovery Let_def split_beta)

lemma calm_alloc_queue: "calm r0 r \<Longrightarrow> calm r0 (snd (nvme_rdma_alloc_queue e i n r))"
proof -
  assume r: "calm r0 r"
  have res: "calm r0 (snd (alloc_queue_resolve e i n r))"
    using r by (simp add: alloc_queue_resolve_def set_cm_error_def Let_def)
  have fold: "calm r0 s \<Longrightarrow> calm r0 (fold (nvme_rdma_cm_handler e i) evs s)" for s evs
    by (induction evs arbitrary: s) (simp_all add: calm_cm_handler)
  have wait: "calm r0 (snd (nvme_rdma_wait_for_cm w i s)) = calm r0 s" for w s
    by (simp add: nvme_rdma_wait_for_cm_def Let_def)
  show ?thesis
    using res fold[OF res] by (simp add: nvme_rdma_alloc_queue_def wait Let_def split_beta)
qed

lemma calm_stop_free [simp]:
  "calm r0 (nvme_rdma_stop_queue i r) = calm r0 r"
  "calm r0 (nvme_rdma_free_queue i r) = calm r0 r"
  "calm r0 (snd (nvme_rdma_start_queue conn i r)) = calm r0 r"
  by (simp_all add: nvme_rdma_stop_queue_def do_stop_queue_def nvme_rdma_free_queue_def
      nvme_rdma_start_queue_def Let_def)

lemma calm_folds [simp]:
  "calm r0 (fold nvme_rdma_free_queue js r) = calm r0 r"
  "calm r0 (fold nvme_rdma_stop_queue js r) = calm r0 r"
  "calm r0 (free_queues_down n r) = calm r0 r"
  "calm r0 (stop_queues_down n r) = calm r0 r"
  "calm r0 (snd (start_queues conn js r)) = calm r0 r"
proof -
  show "calm r0 (fold nvme_rdma_free_queue js r) = calm r0 r" by (induction js arbitrary: r) simp_all
  show "calm r0 (fold nvme_rdma_stop_queue js r) = calm r0 r" by (induction js arbitrary: r) simp_all
  show "calm r0 (free_queues_down n r) = calm r0 r" by (induction n arbitrary: r) simp_all
  show s: "calm r0 (stop_queues_down n r) = calm r0 r" for n r by (induction n arbitrary: r) simp_all
  show "calm r0 (snd (start_queues conn js r)) = calm r0 r"
    by (induction js arbitrary: r) (simp_all add: s Let_def split_beta)
qed

lemma calm_alloc_queues: "calm r0 r \<Longrightarrow> calm r0 (snd (alloc_queues e n js r))"
  by (induction js arbitrary: r) (simp_all add: calm_alloc_queue Let_def split_beta)

lemma mild_size: "mild r (snd (size_io_queues e r))"
proof -
  have set: "mild r0 (set_io_queues a b p n s) = mild r0 s" for r0 a b p n s
    by (simp add: set_io_queues_def Let_def split: prod.split)
  have upd: "mild r (r\<lparr>r_ctrl := (call k (r_ctrl r))\<lparr>c_queue_count := n\<rparr>\<rparr>)"
    "mild r (r\<lparr>r_ctrl := call k (r_ctrl r)\<rparr>)" if "\<not> is_blk k" for k n
    using that by (simp_all add: mild_def blk_calls_def call_def)
  obtain ret nr c where s: "nvme_set_queue_count (ie_features e) (nr_read_queues e (c_opts (r_ctrl r)) +
      nr_default_queues e (c_opts (r_ctrl r)) + nr_poll_queues e (c_opts (r_ctrl r))) (r_ctrl r) = (ret, nr, c)"
    by (rule size_io_queues_cases)
  obtain q where "c = call (Set_features NVME_FEAT_NUM_QUEUES q) (r_ctrl r)"
    using s by (auto simp: nvme_set_queue_count_def nvme_set_features_def Let_def split: if_splits)
  with upd[of "Set_features NVME_FEAT_NUM_QUEUES q"] show ?thesis
    unfolding size_io_queues_unfold[OF s] by (auto simp: set)
qed

lemma calm_start_io [simp]: "calm r0 (snd (nvme_rdma_start_io_queues e r)) = calm r0 r"
  by (simp add: nvme_rdma_start_io_queues_def)

lemma calm_io_loops [simp]:
  "calm r0 (nvme_rdma_free_io_queues r) = calm r0 r"
  "calm r0 (nvme_rdma_stop_io_queues r) = calm r0 r"
  by (simp_all add: nvme_rdma_free_io_queues_def nvme_rdma_stop_io_queues_def)

lemma mild_alloc_io: "mild r (snd (nvme_rdma_alloc_io_queues e r))"
proof -
  obtain ret s where s: "size_io_queues e r = (ret, s)" by fastforce
  have "mild r s" using mild_size[of r e] s by simp
  moreover have "mild s (snd (alloc_queues q n js s))" for q n js
    by (intro calm_mild calm_alloc_queues) simp
  ultimately show ?thesis by (auto simp: nvme_rdma_alloc_io_queues_def s intro: mild_trans)
qed

end
