(* ===== verification/Ctrl_Resources.thy ===== *)
theory Ctrl_Resources
  imports Rdma_Ctrl
begin

text \<open>
  What a controller holds: its queues (\<open>Rdma_Io_Queues\<close>) and the block layer's tag sets, queues and the
  asynchronous event buffer, replayed from the calls made for them. One lemma per operation of
  \<open>Rdma_Ctrl\<close> says how it changes what is held; the properties follow for setup, teardown and recovery.
\<close>

section \<open>The block layer's objects\<close>

datatype bobj = Tags bool | Bq blkq | Async_buf | Async_map

definition take_obj :: "bobj \<Rightarrow> bool \<Rightarrow> bobj set \<Rightarrow> bobj set option" where
  "take_obj x allowed S = (if allowed \<and> x \<notin> S then Some (insert x S) else None)"

definition drop_obj :: "bobj \<Rightarrow> bool \<Rightarrow> bobj set \<Rightarrow> bobj set option" where
  "drop_obj x allowed S = (if allowed \<and> x \<in> S then Some (S - {x}) else None)"

text \<open>
  The contract of the block layer and allocator calls: a queue lives on a tag set, the connect queue on
  the I/O tag set and the others on the admin one, and nothing is released twice or before what uses it.
\<close>

fun blk_step :: "hcall \<Rightarrow> bobj set \<Rightarrow> bobj set option" where
  "blk_step (Alloc_tagset a) S = take_obj (Tags a) True S"
| "blk_step (Free_tagset a) S =
     drop_obj (Tags a) (if a then Bq Admin_q \<notin> S \<and> Bq Fabrics_q \<notin> S else Bq Connect_q \<notin> S) S"
| "blk_step (Init_queue q) S = take_obj (Bq q) (Tags (q \<noteq> Connect_q) \<in> S) S"
| "blk_step (Cleanup_queue q) S = drop_obj (Bq q) True S"
| "blk_step Alloc_async_qe S = take_obj Async_buf True S"
| "blk_step Map_async_qe S = take_obj Async_map (Async_buf \<in> S) S"
| "blk_step Unmap_async_qe S = drop_obj Async_map True S"
| "blk_step Kfree_async_qe S = drop_obj Async_buf (Async_map \<notin> S) S"
| "blk_step _ S = Some S"

fun blk_replay :: "hcall list \<Rightarrow> bobj set \<Rightarrow> bobj set option" where
  "blk_replay [] S = Some S"
| "blk_replay (k # ks) S = Option.bind (blk_step k S) (blk_replay ks)"

definition blk_held :: "nvme_rdma_ctrl \<Rightarrow> bobj set option" where
  "blk_held r = blk_replay (blk_calls r) {}"

lemma blk_replay_append: "blk_replay (xs @ ys) S = Option.bind (blk_replay xs S) (blk_replay ys)"
  by (induction xs arbitrary: S) (auto split: Option.bind_splits)

lemma blk_calls_emit: "blk_calls (emit k r) = blk_calls r @ (if is_blk k then [k] else [])"
  by (simp add: blk_calls_def emit_def call_def)

lemma blk_held_emit: "blk_held (emit k r) = (if is_blk k then Option.bind (blk_held r) (blk_step k) else blk_held r)"
proof -
  have one: "blk_replay [k] = blk_step k"
  proof
    show "blk_replay [k] S = blk_step k S" for S by (cases "blk_step k S") simp_all
  qed
  show ?thesis
    by (cases "blk_replay (blk_calls r) {}")
      (simp_all add: blk_held_def blk_calls_emit blk_replay_append one del: blk_replay.simps(2))
qed

lemma mild_blk_held: "mild r r' \<Longrightarrow> blk_held r' = blk_held r"
  by (simp add: mild_def blk_held_def)

lemma calm_blk_held: "calm r r' \<Longrightarrow> blk_held r' = blk_held r"
  by (intro mild_blk_held calm_mild)

lemma is_blk_material: "is_blk k \<Longrightarrow> material k"
  by (cases k) simp_all

lemma blk_calls_mtrace: "blk_calls r = filter is_blk (mtrace (r_ctrl r))"
  by (auto simp: blk_calls_def mtrace_def intro!: filter_cong dest: is_blk_material)

lemma calls_of_material: "calls_of i (filter material ks) = calls_of i ks"
proof (induction ks)
  case (Cons k ks)
  then show ?case by (cases k) simp_all
qed simp

lemma queue_calls_mtrace: "queue_calls i r = calls_of i (mtrace (r_ctrl r))"
  by (simp add: queue_calls_def mtrace_def calls_of_material)

section \<open>A controller's resources\<close>

definition async_objs :: "bobj set" where "async_objs = {Async_buf, Async_map}"
definition admin_objs :: "bobj set" where "admin_objs = {Tags True, Bq Fabrics_q, Bq Admin_q}"
definition io_objs :: "bobj set" where "io_objs = {Tags False, Bq Connect_q}"

lemmas objs_defs = async_objs_def admin_objs_def io_objs_def

text \<open>
  \<open>ctrl_ok ext U L B r\<close>: the queues in \<open>U\<close> are set up and those in \<open>L\<close> live, the block layer objects held
  are those in \<open>B\<close>, and the queue array is the one the controller was created with.
\<close>

definition ctrl_ok :: "(nat \<Rightarrow> nat) \<Rightarrow> nat set \<Rightarrow> nat set \<Rightarrow> bobj set \<Rightarrow> nvme_rdma_ctrl \<Rightarrow> bool" where
  "ctrl_ok ext U L B r \<longleftrightarrow>
     queues_ok ext U L r \<and> queue_array_ok r \<and>
     1 \<le> c_queue_count (r_ctrl r) \<and> c_queue_count (r_ctrl r) \<le> length (r_queues r) \<and>
     blk_held r = Some B \<and> B \<inter> async_objs = (if r_async_sqe r then async_objs else {})"

lemma ctrl_okD:
  assumes "ctrl_ok ext U L B r"
  shows "queues_ok ext U L r" "queue_array_ok r" "1 \<le> c_queue_count (r_ctrl r)"
    "c_queue_count (r_ctrl r) \<le> length (r_queues r)" "blk_held r = Some B"
    "B \<inter> async_objs = (if r_async_sqe r then async_objs else {})" "0 < length (r_queues r)"
  using assms by (auto simp: ctrl_ok_def)

text \<open>Changes of the controller that leave its resources alone.\<close>

lemma ctrl_ok_cong:
  assumes "r_queues r' = r_queues r" and "r_devs r' = r_devs r" and "r_async_sqe r' = r_async_sqe r"
    and "mtrace (r_ctrl r') = mtrace (r_ctrl r)" and "c_opts (r_ctrl r') = c_opts (r_ctrl r)"
    and "c_queue_count (r_ctrl r') = c_queue_count (r_ctrl r)"
  shows "ctrl_ok ext U L B r' = ctrl_ok ext U L B r"
proof -
  have "held i r' = held i r" for i
    using assms(4) by (simp add: held_def queue_calls_mtrace)
  then have "queues_ok ext U L r' = queues_ok ext U L r" by (intro queues_ok_cong assms(1,2))
  moreover have "blk_held r' = blk_held r" using assms(4) by (simp add: blk_held_def blk_calls_mtrace)
  ultimately show ?thesis using assms by (simp add: ctrl_ok_def queue_array_ok_def)
qed

lemma ctrl_ok_emit [simp]: "\<not> material k \<Longrightarrow> ctrl_ok ext U L B (emit k r) = ctrl_ok ext U L B r"
  by (rule ctrl_ok_cong) (simp_all add: emit_def mtrace_def call_def)

lemma ctrl_ok_on_ctrl:
  assumes "ctrl_frame (r_ctrl r) (f (r_ctrl r))"
  shows "ctrl_ok ext U L B (on_ctrl f r) = ctrl_ok ext U L B r"
  using assms by (intro ctrl_ok_cong) (simp_all add: on_ctrl_def ctrl_frame_def)

lemma ctrl_ok_on_ctrl_ret:
  assumes "ctrl_frame (r_ctrl r) (snd (f (r_ctrl r)))"
  shows "ctrl_ok ext U L B (snd (on_ctrl_ret f r)) = ctrl_ok ext U L B r"
  using assms by (intro ctrl_ok_cong) (simp_all add: on_ctrl_ret_def ctrl_frame_def)

lemma ctrl_ok_fields [simp]:
  "ctrl_ok ext U L B (r\<lparr>r_device := d\<rparr>) = ctrl_ok ext U L B r"
  "ctrl_ok ext U L B (r\<lparr>r_max_fr_pages := n\<rparr>) = ctrl_ok ext U L B r"
  "ctrl_ok ext U L B (r\<lparr>r_use_inline_data := b\<rparr>) = ctrl_ok ext U L B r"
  by (rule ctrl_ok_cong; simp)+

text \<open>One block layer call.\<close>

lemma ctrl_ok_blk:
  assumes "ctrl_ok ext U L B r" and "is_blk k" and "blk_step k B = Some B'"
    and "B' \<inter> async_objs = B \<inter> async_objs"
  shows "ctrl_ok ext U L B' (emit k r)"
proof -
  have "held i (emit k r) = held i r" for i
    using assms(2) by (intro held_emit) (cases k; simp add: ctrl_only_def)
  then have "queues_ok ext U L (emit k r) = queues_ok ext U L r"
    by (intro queues_ok_cong) simp_all
  with assms show ?thesis by (simp add: ctrl_ok_def queue_array_ok_def blk_held_emit)
qed

text \<open>One queue operation.\<close>

lemma ctrl_ok_queue:
  assumes "ctrl_ok ext U L B r" and "static_frame r r'" and "calm r r'" and "queues_ok ext U' L' r'"
  shows "ctrl_ok ext U' L' B r'"
  using assms by (simp add: ctrl_ok_def static_frame_def queue_array_ok_def calm_blk_held)

lemma free_queue_ctrl_ok:
  assumes "ctrl_ok ext U L B r" and "k < length (r_queues r)" and "k \<notin> L"
  shows "ctrl_ok ext (U - {k}) L B (nvme_rdma_free_queue k r)"
  using free_queue_ok[OF ctrl_okD(1)[OF assms(1)] assms(2,3)]
  by (auto intro!: ctrl_ok_queue[OF assms(1)] queue_frame_static)

lemma stop_queue_ctrl_ok:
  assumes "ctrl_ok ext U L B r" and "k < length (r_queues r)"
  shows "ctrl_ok ext U (L - {k}) B (nvme_rdma_stop_queue k r)"
  using stop_queue_ok[OF ctrl_okD(1)[OF assms(1)] assms(2)]
  by (auto intro!: ctrl_ok_queue[OF assms(1)] queue_frame_static)

lemma start_queue_ctrl_ok:
  assumes "ctrl_ok ext U L B r" and "k \<in> U" and "nvme_rdma_start_queue connect k r = (ret, r')"
  shows "ret = connect k \<and> ctrl_ok ext U (if ret = 0 then insert k L else L) B r'"
proof -
  have "calm r r'" using calm_stop_free(3)[of r connect k r] assms(3) by simp
  with start_queue_ok[OF ctrl_okD(1)[OF assms(1)] assms(2,3)] show ?thesis
    by (auto intro!: ctrl_ok_queue[OF assms(1)] queue_frame_static)
qed

lemma alloc_queue_ctrl_ok:
  assumes "ctrl_ok ext U L B r" and "k \<notin> U" and "k < length (r_queues r)"
    and "dev_env_ok (qe_dev e) (r_devs r)"
    and "cm_events_ok e k (qe_events e) Cm_addr (snd (alloc_queue_resolve e k n r))"
    and "nvme_rdma_alloc_queue e k n r = (ret, r')"
  shows "ctrl_ok ext (if ret = 0 then insert k U else U) L B r'"
proof -
  have "calm r r'" using calm_alloc_queue[of r r e k n] assms(6) by simp
  with alloc_queue_ok[OF ctrl_okD(1)[OF assms(1)] assms(2-6)] show ?thesis
    by (auto intro!: ctrl_ok_queue[OF assms(1)] queue_frame_static)
qed

lemma free_io_ctrl_ok:
  assumes "ctrl_ok ext U L B r" and "L \<subseteq> {0}"
  shows "ctrl_ok ext (U - {1..<c_queue_count (r_ctrl r)}) L B (nvme_rdma_free_io_queues r)"
proof -
  have "\<forall>k \<in> set (io_queue_ids r). k < length (r_queues r) \<and> k \<notin> L"
    using ctrl_okD(4)[OF assms(1)] assms(2) by auto
  from free_queues_fold_ok[OF ctrl_okD(1)[OF assms(1)] this] show ?thesis
    by (auto simp: nvme_rdma_free_io_queues_def intro!: ctrl_ok_queue[OF assms(1)])
qed

lemma stop_io_ctrl_ok:
  assumes "ctrl_ok ext U L B r"
  shows "ctrl_ok ext U (L - {1..<c_queue_count (r_ctrl r)}) B (nvme_rdma_stop_io_queues r)"
proof -
  have "\<forall>k \<in> set (io_queue_ids r). k < length (r_queues r)"
    using ctrl_okD(4)[OF assms(1)] by auto
  from stop_queues_fold_ok[OF ctrl_okD(1)[OF assms(1)] this] show ?thesis
    by (auto simp: nvme_rdma_stop_io_queues_def intro!: ctrl_ok_queue[OF assms(1)])
qed

lemma start_io_ctrl_ok:
  assumes "ctrl_ok ext U L B r" and "{1..<c_queue_count (r_ctrl r)} \<subseteq> U" and "L \<subseteq> {0}"
    and "nvme_rdma_start_io_queues e r = (ret, r')"
  shows "c_queue_count (r_ctrl r') = c_queue_count (r_ctrl r) \<and>
    ctrl_ok ext U (if ret = 0 then L \<union> {1..<c_queue_count (r_ctrl r)} else L) B r'"
proof -
  have L: "L \<inter> {1..<c_queue_count (r_ctrl r)} = {}" "L - {1..<c_queue_count (r_ctrl r)} = L"
    using assms(3) by auto
  have c: "calm r r'" using calm_start_io[of r e r] assms(4) by simp
  from start_queues_ok[OF ctrl_okD(1)[OF assms(1)] order.refl assms(2) L(1), of "ie_connect e" ret r'] assms(4)
  have "static_frame r r'" "queues_ok ext U (if ret = 0 then L \<union> {1..<c_queue_count (r_ctrl r)} else L) r'"
    unfolding nvme_rdma_start_io_queues_def L(2) by blast+
  with c show ?thesis by (auto intro!: ctrl_ok_queue[OF assms(1)] simp: static_frame_def)
qed

lemma alloc_io_static:
  assumes "ctrl_ok ext U L B r" and "U \<subseteq> {0}" and "io_env_ok e r"
    and "nvme_rdma_alloc_io_queues e r = (ret, r')"
  shows "r_async_sqe r' = r_async_sqe r \<and> 1 \<le> c_queue_count (r_ctrl r') \<and>
    c_queue_count (r_ctrl r') \<le> length (r_queues r)"
proof -
  obtain ret1 r1 where s: "size_io_queues e r = (ret1, r1)" by fastforce
  note f = size_io_queues_fields[OF s] and d = ctrl_okD[OF assms(1)]
  show ?thesis
  proof (cases "ret1 = 0")
    case False
    have "c_queue_count (r_ctrl r1) = c_queue_count (r_ctrl r)"
      using s False by (auto simp: size_io_queues_def nvme_set_queue_count_def nvme_set_features_def call_def
          Let_def split: if_splits)
    with assms(4) s False d f show ?thesis by (auto simp: nvme_rdma_alloc_io_queues_def)
  next
    case True
    let ?m = "c_queue_count (r_ctrl r1)"
    have m: "1 \<le> ?m" "?m \<le> length (r_queues r1)"
      using size_io_queues_count[of e r r1] s True d(2) f by (auto simp: queue_array_ok_def)
    have q1: "queues_ok ext U L r1" using size_io_queues_ok[OF s] d(1) by simp
    have c: "alloc_queues (ie_queue e) (unat (c_sqsize (r_ctrl r1)) + 1) [1..<?m] r1 = (ret, r')"
      using assms(4) s True by (simp add: nvme_rdma_alloc_io_queues_def)
    have env: "alloc_env_ok (ie_queue e) (unat (c_sqsize (r_ctrl r1)) + 1) [1..<?m] r1"
      using assms(3) s by (simp add: io_env_ok_def Let_def)
    have "L \<inter> {1..<?m} = {}" "U \<inter> {1..<?m} = {}"
      using assms(2) queues_ok_sub[OF d(1)] by fastforce+
    from alloc_queues_ok[OF q1 order.refl m(2) this(2,1) env c] f m show ?thesis
      by (auto simp: static_frame_def)
  qed
qed

lemma alloc_io_ctrl_ok:
  assumes "ctrl_ok ext U L B r" and "U \<subseteq> {0}" and "io_env_ok e r"
    and "nvme_rdma_alloc_io_queues e r = (ret, r')"
  shows "ctrl_ok ext (if ret = 0 then U \<union> {1..<c_queue_count (r_ctrl r')} else U) L B r'"
proof -
  note d = ctrl_okD[OF assms(1)]
  have "blk_held r' = blk_held r"
    using mild_alloc_io[of r e] assms(4) by (simp add: mild_blk_held)
  then show ?thesis
    using alloc_io_queues_result[OF d(1) assms(2) d(2) assms(3,4)] alloc_io_static[OF assms] d(2,5,6)
    by (simp add: ctrl_ok_def queue_array_ok_def)
qed

section \<open>Configuring and tearing down keep the books\<close>

lemma free_async_ok:
  assumes "ctrl_ok ext U L B r"
  shows "ctrl_ok ext U L (B - async_objs) (free_async_qe r)"
proof (cases "r_async_sqe r")
  case True
  with ctrl_okD(6)[OF assms] have B: "async_objs \<subseteq> B" by auto
  let ?r = "emit Kfree_async_qe (emit Unmap_async_qe r)"
  have "blk_held ?r = Some (B - async_objs)"
    using B ctrl_okD(5)[OF assms] by (auto simp: blk_held_emit drop_obj_def async_objs_def)
  moreover have "queues_ok ext U L ?r = queues_ok ext U L r"
    by (rule queues_ok_cong) (simp_all add: ctrl_only_def)
  moreover have "queues_ok ext U L (?r\<lparr>r_async_sqe := False\<rparr>) = queues_ok ext U L ?r"
    by (rule queues_ok_cong) (simp_all add: held_def queue_calls_def)
  ultimately show ?thesis
    using True assms by (simp add: free_async_qe_def ctrl_ok_def queue_array_ok_def blk_held_def blk_calls_def) blast
next
  case False
  with ctrl_okD(6)[OF assms] have "B - async_objs = B" by auto
  with assms False show ?thesis by (simp add: free_async_qe_def)
qed

lemma alloc_async_ok:
  assumes "ctrl_ok ext U L B r" and "B \<inter> async_objs = {}" and "alloc_async_qe e r = (ret, r')"
  shows "ctrl_ok ext U L (if ret = 0 then B \<union> async_objs else B) r'"
proof -
  have n: "\<not> r_async_sqe r" "Async_buf \<notin> B" "Async_map \<notin> B"
    using ctrl_okD(6)[OF assms(1)] assms(2) by (auto simp: async_objs_def split: if_splits)
  have q: "queues_ok ext U L (emit k s) = queues_ok ext U L s" if "is_blk k" for k s
    using that by (intro queues_ok_cong; (cases k)?) (simp_all add: ctrl_only_def)
  have h: "queues_ok ext U L (s\<lparr>r_async_sqe := b\<rparr>) = queues_ok ext U L s"
    "blk_held (s\<lparr>r_async_sqe := b\<rparr>) = blk_held s" for s b
    by (rule queues_ok_cong) (simp_all add: held_def queue_calls_def blk_held_def blk_calls_def)
  show ?thesis
    using assms(1,3) n
    by (auto simp: alloc_async_qe_def Let_def ctrl_ok_def queue_array_ok_def q h blk_held_emit take_obj_def
        drop_obj_def async_objs_def split: if_splits)
qed

lemma tagset_ok:
  assumes "ctrl_ok ext U L B r" and "Tags a \<notin> B" and "nvme_rdma_alloc_tagset ret0 a r = (ret, r')"
  shows "ctrl_ok ext U L (if ret = 0 then insert (Tags a) B else B) r'"
  using assms by (auto simp: nvme_rdma_alloc_tagset_def take_obj_def async_objs_def split: if_splits
      intro!: ctrl_ok_blk)

lemma init_queue_ok:
  assumes "ctrl_ok ext U L B r" and "Bq q \<notin> B" and "Tags (q \<noteq> Connect_q) \<in> B" and "init_queue ret0 q r = (ret, r')"
  shows "ctrl_ok ext U L (if ret = 0 then insert (Bq q) B else B) r'"
  using assms by (auto simp: init_queue_def take_obj_def async_objs_def split: if_splits intro!: ctrl_ok_blk)

lemma cleanup_ok:
  assumes "ctrl_ok ext U L B r" and "Bq q \<in> B"
  shows "ctrl_ok ext U L (B - {Bq q}) (emit (Cleanup_queue q) r)"
  using assms by (auto simp: drop_obj_def async_objs_def intro!: ctrl_ok_blk)

lemma free_tagset_ok:
  assumes "ctrl_ok ext U L B r" and "Tags a \<in> B"
    and "if a then Bq Admin_q \<notin> B \<and> Bq Fabrics_q \<notin> B else Bq Connect_q \<notin> B"
  shows "ctrl_ok ext U L (B - {Tags a}) (emit (Free_tagset a) r)"
  using assms by (auto simp: drop_obj_def async_objs_def intro!: ctrl_ok_blk)

lemma ctrl_ok_res:
  assumes "res_frame (r_ctrl r) c"
  shows "ctrl_ok ext U L B (r\<lparr>r_ctrl := c\<rparr>) = ctrl_ok ext U L B r"
  using assms by (intro ctrl_ok_cong) (simp_all add: res_frame_def)

lemma ctrl_ok_set [simp]:
  "ctrl_ok ext U L B (on_ctrl (\<lambda>c. c\<lparr>c_admin_tagset := b\<rparr>) r) = ctrl_ok ext U L B r"
  "ctrl_ok ext U L B (on_ctrl (\<lambda>c. c\<lparr>c_tagset := b\<rparr>) r) = ctrl_ok ext U L B r"
  "ctrl_ok ext U L B (on_ctrl (\<lambda>c. c\<lparr>c_cntlid := i\<rparr>) r) = ctrl_ok ext U L B r"
  "ctrl_ok ext U L B (on_ctrl (\<lambda>c. c\<lparr>c_nr_reconnects := z\<rparr>) r) = ctrl_ok ext U L B r"
  "ctrl_ok ext U L B (on_ctrl clamp_sqsize r) = ctrl_ok ext U L B r"
  "ctrl_ok ext U L B (on_ctrl (\<lambda>c. c\<lparr>c_max_segments := m, c_max_hw_sectors := h\<rparr>) r) = ctrl_ok ext U L B r"
  by (rule ctrl_ok_cong; simp add: on_ctrl_def mtrace_def clamp_sqsize_def)+

lemma ctrl_ok_subset:
  assumes "ctrl_ok ext U L B r"
  shows "L \<subseteq> U" and "U \<subseteq> {..<length (r_queues r)}"
  using queues_ok_sub[OF ctrl_okD(1)[OF assms]] queues_ok_ids[OF ctrl_okD(1)[OF assms]] by auto

section \<open>The admin queue\<close>

lemma out_free_queue_ok:
  "ctrl_ok ext {0} {} B r \<Longrightarrow> ctrl_ok ext {} {} B (out_free_queue r)"
  using free_queue_ctrl_ok[of ext "{0}" "{}" B r 0] ctrl_okD(7) by (fastforce simp: out_free_queue_def)

lemma out_free_async_ok:
  "ctrl_ok ext {0} {} B r \<Longrightarrow> ctrl_ok ext {} {} (B - async_objs) (out_free_async_qe r)"
  unfolding out_free_async_qe_def by (rule out_free_queue_ok) (rule free_async_ok)

lemma out_free_tagset_ok:
  assumes "ctrl_ok ext {0} {} B r"
    and "new \<Longrightarrow> Tags True \<in> B \<and> Bq Admin_q \<notin> B \<and> Bq Fabrics_q \<notin> B"
  shows "ctrl_ok ext {} {} (B - (if new then {Tags True} else {}) - async_objs) (out_free_tagset new r)"
  unfolding out_free_tagset_def
  by (rule out_free_async_ok) (use assms in \<open>auto intro: free_tagset_ok\<close>)

lemma out_cleanup_fabrics_ok:
  assumes "ctrl_ok ext {0} {} B r" and "new \<Longrightarrow> {Tags True, Bq Fabrics_q} \<subseteq> B \<and> Bq Admin_q \<notin> B"
  shows "ctrl_ok ext {} {} (B - (if new then {Tags True, Bq Fabrics_q} else {}) - async_objs)
    (out_cleanup_fabrics_q new r)"
proof -
  have "ctrl_ok ext {0} {} (B - (if new then {Bq Fabrics_q} else {}))
      (if new then emit (Cleanup_queue Fabrics_q) r else r)"
    using assms by (auto intro: cleanup_ok)
  from out_free_tagset_ok[OF this, of new] assms(2)
  have "ctrl_ok ext {} {} (B - (if new then {Bq Fabrics_q} else {}) - (if new then {Tags True} else {}) - async_objs)
    (out_cleanup_fabrics_q new r)"
    unfolding out_cleanup_fabrics_q_def by auto
  then show ?thesis by (cases new) (simp_all add: Diff_insert2[symmetric] insert_commute)
qed

lemma out_cleanup_ok:
  assumes "ctrl_ok ext {0} {} B r" and "new \<Longrightarrow> admin_objs \<subseteq> B"
  shows "ctrl_ok ext {} {} (B - (if new then admin_objs else {}) - async_objs) (out_cleanup_queue new r)"
proof -
  have "ctrl_ok ext {0} {} (B - (if new then {Bq Admin_q} else {}))
      (if new then emit (Cleanup_queue Admin_q) r else r)"
    using assms by (auto simp: admin_objs_def intro: cleanup_ok)
  from out_cleanup_fabrics_ok[OF this, of new] assms(2)
  have "ctrl_ok ext {} {} (B - (if new then {Bq Admin_q} else {}) -
      (if new then {Tags True, Bq Fabrics_q} else {}) - async_objs) (out_cleanup_queue new r)"
    unfolding out_cleanup_queue_def by (auto simp: admin_objs_def)
  moreover have "B - (if new then {Bq Admin_q} else {}) - (if new then {Tags True, Bq Fabrics_q} else {}) =
    B - (if new then admin_objs else {})"
    by (auto simp: admin_objs_def)
  ultimately show ?thesis by simp
qed

lemma out_stop_ok:
  assumes "ctrl_ok ext {0} L B r" and "new \<Longrightarrow> admin_objs \<subseteq> B"
  shows "ctrl_ok ext {} {} (B - (if new then admin_objs else {}) - async_objs) (out_stop_queue new r)"
proof -
  have "L - {0} = {}" using ctrl_ok_subset(1)[OF assms(1)] by auto
  with stop_queue_ctrl_ok[OF assms(1) ctrl_okD(7)[OF assms(1)]]
  have "ctrl_ok ext {0} {} B (nvme_rdma_stop_queue 0 r)" by (simp only:)
  from out_cleanup_ok[OF this assms(2)] show ?thesis by (simp add: out_stop_queue_def)
qed

lemma create_admin_blk_ok:
  assumes r: "ctrl_ok ext {0} {} B r" and B: "B \<inter> admin_objs = {}" "async_objs \<subseteq> B"
    and c: "create_admin_blk e r = (ret, r')"
  shows "if ret = 0 then ctrl_ok ext {0} {} (B \<union> admin_objs) r' else ctrl_ok ext {} {} (B - async_objs) r'"
proof -
  have n: "Tags True \<notin> B" "Bq Fabrics_q \<notin> B" "Bq Admin_q \<notin> B" using B by (auto simp: admin_objs_def)
  obtain r1 s1 where 1: "nvme_rdma_alloc_tagset (se_admin_tagset e) True r = (r1, s1)" by fastforce
  let ?s1 = "on_ctrl (\<lambda>c. c\<lparr>c_admin_tagset := True\<rparr>) s1"
  have ok1: "ctrl_ok ext {0} {} (if r1 = 0 then insert (Tags True) B else B) ?s1"
    using tagset_ok[OF r n(1) 1] by simp
  obtain r2 s2 where 2: "init_queue (se_fabrics_q e) Fabrics_q ?s1 = (r2, s2)" by fastforce
  obtain r3 s3 where 3: "init_queue (se_admin_q e) Admin_q s2 = (r3, s3)" by fastforce
  consider "r1 \<noteq> 0" | "r1 = 0" "r2 \<noteq> 0" | "r1 = 0" "r2 = 0" "r3 \<noteq> 0" | "r1 = 0" "r2 = 0" "r3 = 0" by blast
  then show ?thesis
  proof cases
    case a: 1
    with c 1 have "ret = r1" "r' = out_free_async_qe ?s1" by (simp_all add: create_admin_blk_def Let_def)
    with a out_free_async_ok[of ext B ?s1] ok1 show ?thesis by simp
  next
    case b: 2
    with ok1 init_queue_ok[OF _ _ _ 2, of ext "{0}" "{}" "insert (Tags True) B"] n
    have "ctrl_ok ext {0} {} (insert (Tags True) B) s2" by simp
    from out_free_tagset_ok[OF this, of True] n
    have "ctrl_ok ext {} {} (insert (Tags True) B - {Tags True} - async_objs) (out_free_tagset True s2)" by simp
    moreover have "insert (Tags True) B - {Tags True} = B" using n by auto
    ultimately have "ctrl_ok ext {} {} (B - async_objs) (out_free_tagset True s2)" by (simp only:)
    moreover have "ret = r2" "r' = out_free_tagset True s2"
      using c 1 2 b by (simp_all add: create_admin_blk_def Let_def)
    ultimately show ?thesis using b by simp
  next
    case d: 3
    with ok1 init_queue_ok[OF _ _ _ 2, of ext "{0}" "{}" "insert (Tags True) B"] n
    have "ctrl_ok ext {0} {} (insert (Bq Fabrics_q) (insert (Tags True) B)) s2" by simp
    with d init_queue_ok[OF this _ _ 3] n
    have "ctrl_ok ext {0} {} (insert (Bq Fabrics_q) (insert (Tags True) B)) s3" by simp
    from out_cleanup_fabrics_ok[OF this, of True] n
    have "ctrl_ok ext {} {} (insert (Bq Fabrics_q) (insert (Tags True) B) - {Tags True, Bq Fabrics_q} - async_objs)
      (out_cleanup_fabrics_q True s3)" by simp
    moreover have "insert (Bq Fabrics_q) (insert (Tags True) B) - {Tags True, Bq Fabrics_q} = B" using n by auto
    ultimately have "ctrl_ok ext {} {} (B - async_objs) (out_cleanup_fabrics_q True s3)" by (simp only:)
    moreover have "ret = r3" "r' = out_cleanup_fabrics_q True s3"
      using c 1 2 3 d by (simp_all add: create_admin_blk_def Let_def)
    ultimately show ?thesis using d by simp
  next
    case d: 4
    with ok1 init_queue_ok[OF _ _ _ 2, of ext "{0}" "{}" "insert (Tags True) B"] n
    have "ctrl_ok ext {0} {} (insert (Bq Fabrics_q) (insert (Tags True) B)) s2" by simp
    with d init_queue_ok[OF this _ _ 3] n
    have "ctrl_ok ext {0} {} (insert (Bq Admin_q) (insert (Bq Fabrics_q) (insert (Tags True) B))) s3" by simp
    moreover have "insert (Bq Admin_q) (insert (Bq Fabrics_q) (insert (Tags True) B)) = B \<union> admin_objs"
      by (auto simp: admin_objs_def)
    moreover have "ret = 0" "r' = s3"
      using c 1 2 3 d by (simp_all add: create_admin_blk_def Let_def)
    ultimately show ?thesis by simp
  qed
qed

lemma start_admin_ok:
  assumes "ctrl_ok ext {0} {} B r" and "start_admin_queue e r = (ret, r')"
  shows "ctrl_ok ext {0} (if ret = 0 then {0} else {}) B r'"
proof -
  obtain rc c where n: "nvmf_connect_admin_queue (se_connect_alloc e) (se_submit e) (se_hosts e) (r_ctrl r) = (rc, c)"
    by fastforce
  obtain r1 s1 where 1: "nvme_rdma_start_queue (\<lambda>_. rc) 0 r = (r1, s1)" by fastforce
  from start_queue_ctrl_ok[OF assms(1) _ 1] assms(2) show ?thesis
    by (auto simp: start_admin_queue_def n 1)
qed

definition admin_env_ok :: "setup_env \<Rightarrow> nvme_rdma_ctrl \<Rightarrow> bool" where
  "admin_env_ok e r \<longleftrightarrow> dev_env_ok (qe_dev (se_admin e)) (r_devs r) \<and>
     cm_events_ok (se_admin e) 0 (qe_events (se_admin e)) Cm_addr
       (snd (alloc_queue_resolve (se_admin e) 0 NVME_AQ_DEPTH r))"

lemma configure_admin_ok:
  assumes r: "ctrl_ok ext {} {} B r" and B: "B \<inter> async_objs = {}" "new \<Longrightarrow> B \<inter> admin_objs = {}"
    and env: "admin_env_ok e r" and c: "nvme_rdma_configure_admin_queue e new r = (ret, r')"
  shows "if ret = 0 then ctrl_ok ext {0} {0} (B \<union> async_objs \<union> (if new then admin_objs else {})) r'
    else ctrl_ok ext {} {} B r'"
proof -
  let ?A = "B \<union> async_objs" and ?N = "B \<union> async_objs \<union> (if new then admin_objs else {})"
  have disj: "async_objs \<inter> admin_objs = {}" by (auto simp: objs_defs)
  have bk: "?A - async_objs = B" "?N - (if new then admin_objs else {}) - async_objs = B"
    using B disj by auto
  obtain r1 s1 where 1: "nvme_rdma_alloc_queue (se_admin e) 0 NVME_AQ_DEPTH r = (r1, s1)" by fastforce
  let ?s1 = "s1\<lparr>r_device := q_device (queue s1 0),
                r_max_fr_pages := nvme_rdma_get_max_fr_pages (qe_max_fast_reg (se_admin e))\<rparr>"
  obtain r2 s2 where 2: "alloc_async_qe e ?s1 = (r2, s2)" by fastforce
  obtain r3 s3 where 3: "(if new then create_admin_blk e s2 else (0, s2)) = (r3, s3)" by fastforce
  obtain r4 s4 where 4: "start_admin_queue e s3 = (r4, s4)" by fastforce
  obtain r5 s5 where 5: "on_ctrl_ret (nvme_enable_ctrl (se_regs e)) s4 = (r5, s5)" by fastforce
  let ?s5 = "emit Unquiesce_admin (on_ctrl (\<lambda>c. c\<lparr>c_max_segments := unat (r_max_fr_pages s5),
      c_max_hw_sectors := unat (push_bit 3 (r_max_fr_pages s5))\<rparr>) s5)"
  obtain r6 s6 where 6: "on_ctrl_ret (nvme_init_identify (se_identify e)) ?s5 = (r6, s6)" by fastforce
  note defs = nvme_rdma_configure_admin_queue_def Let_def 1 2 3 4 5 6
  have ok1: "ctrl_ok ext (if r1 = 0 then {0} else {}) {} B ?s1"
    using alloc_queue_ctrl_ok[OF r _ ctrl_okD(7)[OF r] _ _ 1] env by (simp add: admin_env_ok_def)
  have ok2: "r1 = 0 \<Longrightarrow> ctrl_ok ext {0} {} (if r2 = 0 then ?A else B) s2"
    using alloc_async_ok[OF _ B(1) 2] ok1 by simp
  have ok3: "r1 = 0 \<Longrightarrow> r2 = 0 \<Longrightarrow> if r3 = 0 then ctrl_ok ext {0} {} ?N s3 else ctrl_ok ext {} {} B s3"
  proof (cases new)
    case True
    assume z: "r1 = 0" "r2 = 0"
    have "?A \<inter> admin_objs = {}" using B(2) True disj by auto
    from create_admin_blk_ok[OF _ this, of ext s2 e r3 s3] ok2 z 3 True
    have "if r3 = 0 then ctrl_ok ext {0} {} (?A \<union> admin_objs) s3 else ctrl_ok ext {} {} (?A - async_objs) s3"
      by simp
    then show ?thesis unfolding bk(1) using True by simp
  qed (use ok2 3 in simp)
  have ok4: "r1 = 0 \<Longrightarrow> r2 = 0 \<Longrightarrow> r3 = 0 \<Longrightarrow> ctrl_ok ext {0} (if r4 = 0 then {0} else {}) ?N s4"
    using ok3 start_admin_ok[OF _ 4] by simp
  have s5: "s5 = s4\<lparr>r_ctrl := snd (nvme_enable_ctrl (se_regs e) (r_ctrl s4))\<rparr>"
    using 5 by (simp add: on_ctrl_ret_def)
  have s6: "s6 = ?s5\<lparr>r_ctrl := snd (nvme_init_identify (se_identify e) (r_ctrl ?s5))\<rparr>"
    using 6 by (simp add: on_ctrl_ret_def)
  have ok5: "ctrl_ok ext {0} {0} ?N s5" if "r1 = 0" "r2 = 0" "r3 = 0" "r4 = 0"
    unfolding s5 using ok4 that by (subst ctrl_ok_res) simp_all
  have ok6: "ctrl_ok ext {0} {0} ?N s6" if "r1 = 0" "r2 = 0" "r3 = 0" "r4 = 0"
    unfolding s6 using ok5[OF that] by (subst ctrl_ok_res) simp_all
  have A: "new \<Longrightarrow> admin_objs \<subseteq> ?N" by auto
  consider "r1 \<noteq> 0" | "r1 = 0" "r2 \<noteq> 0" | "r1 = 0" "r2 = 0" "r3 \<noteq> 0"
    | "r1 = 0" "r2 = 0" "r3 = 0" "r4 \<noteq> 0" | "r1 = 0" "r2 = 0" "r3 = 0" "r4 = 0" "r5 \<noteq> 0"
    | "r1 = 0" "r2 = 0" "r3 = 0" "r4 = 0" "r5 = 0" "r6 \<noteq> 0"
    | "r1 = 0" "r2 = 0" "r3 = 0" "r4 = 0" "r5 = 0" "r6 = 0" by blast
  then show ?thesis
  proof cases
    case a: 1
    with c have "ret = r1" "r' = s1" by (simp_all add: defs)
    with a ok1 show ?thesis by simp
  next
    case b: 2
    with c have "ret = r2" "r' = out_free_queue s2" by (simp_all add: defs)
    with b ok2 out_free_queue_ok show ?thesis by simp
  next
    case d: 3
    with c have "ret = r3" "r' = s3" by (simp_all add: defs)
    with d ok3 show ?thesis by simp
  next
    case d: 4
    with c have "ret = r4" "r' = out_cleanup_queue new s4" by (simp_all add: defs)
    moreover have "ctrl_ok ext {} {} B (out_cleanup_queue new s4)"
      using out_cleanup_ok[of ext ?N s4 new] ok4 d A unfolding bk(2) by simp
    ultimately show ?thesis using d by simp
  next
    case d: 5
    with c have "ret = r5" "r' = out_stop_queue new s5" by (simp_all add: defs)
    moreover have "ctrl_ok ext {} {} B (out_stop_queue new s5)"
      using out_stop_ok[where new = new, OF ok5[OF d(1-4)] A] unfolding bk(2) by simp
    ultimately show ?thesis using d by simp
  next
    case d: 6
    with c have "ret = r6" "r' = out_stop_queue new s6" by (simp_all add: defs)
    moreover have "ctrl_ok ext {} {} B (out_stop_queue new s6)"
      using out_stop_ok[where new = new, OF ok6[OF d(1-4)] A] unfolding bk(2) by simp
    ultimately show ?thesis using d by simp
  next
    case d: 7
    with c have "ret = 0" "r' = s6" by (simp_all add: defs)
    with d ok6 show ?thesis by simp
  qed
qed

section \<open>The I/O queues\<close>

lemma io_free_all:
  assumes "ctrl_ok ext (U \<union> {1..<c_queue_count (r_ctrl r)}) L B r" and "U \<subseteq> {0}" and "L \<subseteq> {0}"
  shows "ctrl_ok ext U L B (nvme_rdma_free_io_queues r)"
proof -
  have "(U \<union> {1..<c_queue_count (r_ctrl r)}) - {1..<c_queue_count (r_ctrl r)} = U" using assms(2) by auto
  with free_io_ctrl_ok[OF assms(1,3)] show ?thesis by (simp only:)
qed

lemma configure_io_ok:
  assumes r: "ctrl_ok ext {0} {0} B r" and B: "new \<Longrightarrow> B \<inter> io_objs = {}"
    and env: "io_env_ok (se_io e) r" and c: "nvme_rdma_configure_io_queues e new r = (ret, r')"
  shows "if ret = 0
    then ctrl_ok ext {0..<c_queue_count (r_ctrl r')} {0..<c_queue_count (r_ctrl r')}
           (B \<union> (if new then io_objs else {})) r'
    else ctrl_ok ext {0} {0} B r'"
proof -
  obtain r1 s1 where 1: "nvme_rdma_alloc_io_queues (se_io e) r = (r1, s1)" by fastforce
  let ?n = "c_queue_count (r_ctrl s1)"
  have ok1: "ctrl_ok ext (if r1 = 0 then {0} \<union> {1..<?n} else {0}) {0} B s1"
    using alloc_io_ctrl_ok[OF r _ env 1] by simp
  have n: "1 \<le> ?n" using ctrl_okD(3)[OF ok1] .
  have all: "{0} \<union> {1..<?n} = {0..<?n}" using n by auto
  have start: "c_queue_count (r_ctrl s') = c_queue_count (r_ctrl s) \<and>
      ctrl_ok ext ({0} \<union> {1..<?n}) (if rr = 0 then {0..<?n} else {0}) B' s'"
    if "ctrl_ok ext ({0} \<union> {1..<?n}) {0} B' s" "c_queue_count (r_ctrl s) = ?n"
      "nvme_rdma_start_io_queues (se_io e) s = (rr, s')" for s rr s' B'
    using start_io_ctrl_ok[OF that(1) _ _ that(3)] that(2) all by (auto split: if_splits)
  show ?thesis
  proof (cases "r1 = 0")
    case False
    with c 1 ok1 show ?thesis by (simp add: nvme_rdma_configure_io_queues_def)
  next
    case r1: True
    show ?thesis
    proof (cases new)
      case False
      let ?s = "emit (Update_nr_hw_queues (?n - 1)) s1"
      obtain r2 s2 where 2: "nvme_rdma_start_io_queues (se_io e) ?s = (r2, s2)" by fastforce
      from start[OF _ _ 2, of B] ok1 r1 have st: "c_queue_count (r_ctrl s2) = ?n"
        "ctrl_ok ext ({0} \<union> {1..<?n}) (if r2 = 0 then {0..<?n} else {0}) B s2" by simp_all
      from c 1 2 r1 False have "ret = r2" "r' = (if r2 = 0 then s2 else nvme_rdma_free_io_queues s2)"
        by (auto simp: nvme_rdma_configure_io_queues_def Let_def split: if_splits)
      with st io_free_all[of ext "{0}" s2 "{0}" B] all False show ?thesis by (cases "r2 = 0") simp_all
    next
      case True
      with B have nB: "Tags False \<notin> B" "Bq Connect_q \<notin> B" by (auto simp: io_objs_def)
      obtain r2 s2 where 2: "nvme_rdma_alloc_tagset (se_io_tagset e) False s1 = (r2, s2)" by fastforce
      let ?s2 = "on_ctrl (\<lambda>c. c\<lparr>c_tagset := True\<rparr>) s2"
      have cnt2: "c_queue_count (r_ctrl ?s2) = ?n"
        using 2 by (auto simp: nvme_rdma_alloc_tagset_def on_ctrl_def split: if_splits)
      have ok2: "ctrl_ok ext ({0} \<union> {1..<?n}) {0} (if r2 = 0 then insert (Tags False) B else B) ?s2"
        using tagset_ok[OF _ nB(1) 2] ok1 r1 by simp
      obtain r3 s3 where 3: "init_queue (se_connect_q e) Connect_q ?s2 = (r3, s3)" by fastforce
      have cnt3: "c_queue_count (r_ctrl s3) = ?n"
        using 3 cnt2 by (auto simp: init_queue_def split: if_splits)
      have ok3: "ctrl_ok ext ({0} \<union> {1..<?n}) {0}
          (if r3 = 0 then insert (Bq Connect_q) (insert (Tags False) B) else insert (Tags False) B) s3" if "r2 = 0"
        using init_queue_ok[OF _ _ _ 3] ok2 that nB by simp
      obtain r4 s4 where 4: "nvme_rdma_start_io_queues (se_io e) s3 = (r4, s4)" by fastforce
      note defs = nvme_rdma_configure_io_queues_def Let_def 1 2 3 4 r1 True
      consider "r2 \<noteq> 0" | "r2 = 0" "r3 \<noteq> 0" | "r2 = 0" "r3 = 0" by blast
      then show ?thesis
      proof cases
        case a: 1
        with c have "ret = r2" "r' = nvme_rdma_free_io_queues ?s2" by (simp_all add: defs)
        with a ok2 io_free_all[of ext "{0}" ?s2 "{0}" B] cnt2 show ?thesis by simp
      next
        case b: 2
        with c have res: "ret = r3" "r' = nvme_rdma_free_io_queues (emit (Free_tagset False) s3)"
          by (simp_all add: defs)
        have "ctrl_ok ext ({0} \<union> {1..<?n}) {0} (insert (Tags False) B - {Tags False}) (emit (Free_tagset False) s3)"
          using free_tagset_ok[of ext "{0} \<union> {1..<?n}" "{0}" "insert (Tags False) B" s3 False] ok3 b nB by simp
        moreover have "insert (Tags False) B - {Tags False} = B" using nB by auto
        ultimately have "ctrl_ok ext ({0} \<union> {1..<?n}) {0} B (emit (Free_tagset False) s3)" by (simp only:)
        with res b io_free_all[of ext "{0}" "emit (Free_tagset False) s3" "{0}" B] cnt3 show ?thesis by simp
      next
        case d: 3
        let ?B = "insert (Bq Connect_q) (insert (Tags False) B)"
        have st: "c_queue_count (r_ctrl s4) = ?n"
          "ctrl_ok ext ({0} \<union> {1..<?n}) (if r4 = 0 then {0..<?n} else {0}) ?B s4"
          using start[OF _ cnt3 4, of ?B] ok3 d cnt3 by simp_all
        have B': "?B = B \<union> io_objs" by (auto simp: io_objs_def)
        show ?thesis
        proof (cases "r4 = 0")
          case r4: True
          with c d have "ret = 0" "r' = s4" by (simp_all add: defs)
          with st r4 all True show ?thesis by (simp add: B')
        next
          case False
          with c d have res: "ret = r4" "r' = nvme_rdma_free_io_queues
              (emit (Free_tagset False) (emit (Cleanup_queue Connect_q) s4))" by (simp_all add: defs)
          have 5: "ctrl_ok ext ({0} \<union> {1..<?n}) {0} (?B - {Bq Connect_q}) (emit (Cleanup_queue Connect_q) s4)"
            using cleanup_ok[of ext "{0} \<union> {1..<?n}" "{0}" ?B s4 Connect_q] st False by simp
          from free_tagset_ok[OF this, of False] nB
          have "ctrl_ok ext ({0} \<union> {1..<?n}) {0} (?B - {Bq Connect_q} - {Tags False})
              (emit (Free_tagset False) (emit (Cleanup_queue Connect_q) s4))" by simp
          moreover have "?B - {Bq Connect_q} - {Tags False} = B" using nB by auto
          ultimately have "ctrl_ok ext ({0} \<union> {1..<?n}) {0} B
              (emit (Free_tagset False) (emit (Cleanup_queue Connect_q) s4))" by (simp only:)
          with res False io_free_all[of ext "{0}" "emit (Free_tagset False) (emit (Cleanup_queue Connect_q) s4)" "{0}" B] st
          show ?thesis by simp
        qed
      qed
    qed
  qed
qed

section \<open>Tearing down\<close>

lemma destroy_admin_queue_ok:
  assumes r: "ctrl_ok ext U L B r" and L: "0 \<notin> L" and B: "remove \<Longrightarrow> admin_objs \<subseteq> B"
  shows "ctrl_ok ext (U - {0}) L (B - async_objs - (if remove then admin_objs else {}))
    (nvme_rdma_destroy_admin_queue remove r)"
proof -
  let ?r1 = "if remove then emit (Free_tagset True) (emit (Cleanup_queue Fabrics_q) (emit (Cleanup_queue Admin_q) r)) else r"
  have 1: "ctrl_ok ext U L (B - (if remove then admin_objs else {})) ?r1"
  proof (cases remove)
    case True
    with B have m: "Bq Admin_q \<in> B" "Bq Fabrics_q \<in> B" "Tags True \<in> B" by (auto simp: admin_objs_def)
    note a = cleanup_ok[OF r m(1)]
    have b: "ctrl_ok ext U L (B - {Bq Admin_q} - {Bq Fabrics_q})
        (emit (Cleanup_queue Fabrics_q) (emit (Cleanup_queue Admin_q) r))"
      by (rule cleanup_ok[OF a]) (use m in simp)
    have "ctrl_ok ext U L (B - {Bq Admin_q} - {Bq Fabrics_q} - {Tags True}) ?r1"
      using free_tagset_ok[OF b, of True] m True by simp
    moreover have "B - {Bq Admin_q} - {Bq Fabrics_q} - {Tags True} = B - (if remove then admin_objs else {})"
      using True by (auto simp: admin_objs_def)
    ultimately show ?thesis by (simp only:)
  qed (use r in simp)
  note 2 = free_async_ok[OF 1]
  have "ctrl_ok ext (U - {0}) L (B - (if remove then admin_objs else {}) - async_objs)
      (nvme_rdma_free_queue 0 (free_async_qe ?r1))"
    by (rule free_queue_ctrl_ok[OF 2 ctrl_okD(7)[OF 2] L])
  moreover have "B - (if remove then admin_objs else {}) - async_objs =
    B - async_objs - (if remove then admin_objs else {})" by auto
  ultimately show ?thesis by (simp only: nvme_rdma_destroy_admin_queue_def Let_def)
qed

lemma cancel_busy_ok [simp]: "ctrl_ok ext U L B (cancel_busy p a r) = ctrl_ok ext U L B r"
  by (simp add: cancel_busy_def)

lemma teardown_admin_ok:
  assumes r: "ctrl_ok ext U L B r" and B: "remove \<Longrightarrow> admin_objs \<subseteq> B"
  shows "ctrl_ok ext (U - {0}) (L - {0}) (B - async_objs - (if remove then admin_objs else {}))
    (nvme_rdma_teardown_admin_queue remove r)"
proof -
  let ?r = "nvme_rdma_stop_queue 0 (emit Quiesce_admin r)"
  have q: "ctrl_ok ext U L B (emit Quiesce_admin r)" using r by simp
  have "ctrl_ok ext U (L - {0}) B ?r"
    by (rule stop_queue_ctrl_ok[OF q ctrl_okD(7)[OF q]])
  then have "ctrl_ok ext U (L - {0}) B (if remove then emit Unquiesce_admin
      (cancel_busy (c_admin_tagset (r_ctrl ?r)) True ?r) else cancel_busy (c_admin_tagset (r_ctrl ?r)) True ?r)"
    by simp
  from destroy_admin_queue_ok[OF this _ B] show ?thesis
    by (simp add: nvme_rdma_teardown_admin_queue_def Let_def)
qed

lemma stop_io_count [simp]: "c_queue_count (r_ctrl (nvme_rdma_stop_io_queues r)) = c_queue_count (r_ctrl r)"
proof -
  have one: "c_queue_count (r_ctrl (nvme_rdma_stop_queue i r)) = c_queue_count (r_ctrl r)" for i r
    by (simp add: nvme_rdma_stop_queue_def do_stop_queue_def)
  have "c_queue_count (r_ctrl (fold nvme_rdma_stop_queue js r)) = c_queue_count (r_ctrl r)" for js
    by (induction js arbitrary: r) (simp_all add: one)
  then show ?thesis by (simp add: nvme_rdma_stop_io_queues_def)
qed

lemma cancel_busy_count [simp]: "c_queue_count (r_ctrl (cancel_busy p a r)) = c_queue_count (r_ctrl r)"
  by (simp add: cancel_busy_def)

lemma destroy_io_queues_ok:
  assumes r: "ctrl_ok ext U L B r" and L: "L \<subseteq> {0}" and B: "remove \<Longrightarrow> io_objs \<subseteq> B"
  shows "ctrl_ok ext (U - {1..<c_queue_count (r_ctrl r)}) L (B - (if remove then io_objs else {}))
    (nvme_rdma_destroy_io_queues remove r)"
proof -
  let ?r1 = "if remove then emit (Free_tagset False) (emit (Cleanup_queue Connect_q) r) else r"
  have "ctrl_ok ext U L (B - (if remove then io_objs else {})) ?r1"
  proof (cases remove)
    case True
    with B have m: "Bq Connect_q \<in> B" "Tags False \<in> B" by (auto simp: io_objs_def)
    note a = cleanup_ok[OF r m(1)]
    have "ctrl_ok ext U L (B - {Bq Connect_q} - {Tags False}) ?r1"
      using free_tagset_ok[OF a, of False] m True by simp
    moreover have "B - {Bq Connect_q} - {Tags False} = B - (if remove then io_objs else {})"
      using True by (auto simp: io_objs_def)
    ultimately show ?thesis by (simp only:)
  qed (use r in simp)
  from free_io_ctrl_ok[OF this L] show ?thesis
    by (cases remove) (simp_all add: nvme_rdma_destroy_io_queues_def)
qed

lemma teardown_io_ok:
  assumes r: "ctrl_ok ext U L B r" and L: "L \<subseteq> {0..<c_queue_count (r_ctrl r)}"
    and B: "remove \<Longrightarrow> c_queue_count (r_ctrl r) > 1 \<Longrightarrow> io_objs \<subseteq> B"
  shows "ctrl_ok ext (U - {1..<c_queue_count (r_ctrl r)}) (L - {1..<c_queue_count (r_ctrl r)})
    (B - (if remove \<and> c_queue_count (r_ctrl r) > 1 then io_objs else {}))
    (nvme_rdma_teardown_io_queues remove r)"
proof (cases "c_queue_count (r_ctrl r) > 1")
  case True
  let ?n = "c_queue_count (r_ctrl r)"
  let ?r1 = "nvme_rdma_stop_io_queues (emit Stop_queues r)"
  let ?r2 = "cancel_busy (c_tagset (r_ctrl ?r1)) False ?r1"
  let ?r3 = "if remove then emit Start_queues ?r2 else ?r2"
  have q: "ctrl_ok ext U L B (emit Stop_queues r)" using r by simp
  have "ctrl_ok ext U (L - {1..<?n}) B ?r1" using stop_io_ctrl_ok[OF q] by simp
  then have 3: "ctrl_ok ext U (L - {1..<?n}) B ?r3" by simp
  have n3: "c_queue_count (r_ctrl ?r3) = ?n" by simp
  have "L - {1..<?n} \<subseteq> {0}" using L by auto
  from destroy_io_queues_ok[OF 3 this, of remove] B True n3 show ?thesis
    by (simp add: nvme_rdma_teardown_io_queues_def Let_def)
next
  case False
  then have "{1..<c_queue_count (r_ctrl r)} = {}" by simp
  with r False show ?thesis by (simp add: nvme_rdma_teardown_io_queues_def)
qed

text \<open>
  Both halves with whatever harmless steps come between: all queues are idle, and of the block layer
  objects only those of a controller that is kept are left.
\<close>

lemma teardown_all_ok:
  assumes r: "ctrl_ok ext U L B r" and U: "U \<subseteq> {0..<c_queue_count (r_ctrl r)}"
    and B: "remove \<Longrightarrow> admin_objs \<subseteq> B \<and> (c_queue_count (r_ctrl r) > 1 \<longrightarrow> io_objs \<subseteq> B)"
    and mid: "\<And>V M C s. ctrl_ok ext V M C s \<Longrightarrow> ctrl_ok ext V M C (f s)"
  shows "ctrl_ok ext {} {} (B - async_objs - (if remove then admin_objs else {}) -
       (if remove \<and> c_queue_count (r_ctrl r) > 1 then io_objs else {}))
     (nvme_rdma_teardown_admin_queue remove (f (nvme_rdma_teardown_io_queues remove r)))"
proof -
  let ?n = "c_queue_count (r_ctrl r)" and ?I = "if remove \<and> c_queue_count (r_ctrl r) > 1 then io_objs else {}"
  have L: "L \<subseteq> {0..<?n}" using ctrl_ok_subset(1)[OF r] U by auto
  have 1: "ctrl_ok ext (U - {1..<?n}) (L - {1..<?n}) (B - ?I) (f (nvme_rdma_teardown_io_queues remove r))"
    by (rule mid, rule teardown_io_ok[OF r L]) (use B in auto)
  have A: "remove \<Longrightarrow> admin_objs \<subseteq> B - ?I" using B by (auto simp: objs_defs)
  have "U - {1..<?n} - {0} = {}" "L - {1..<?n} - {0} = {}" using U L by auto
  moreover have "B - ?I - async_objs - (if remove then admin_objs else {}) =
    B - async_objs - (if remove then admin_objs else {}) - ?I" by auto
  ultimately show ?thesis using teardown_admin_ok[OF 1, of remove, OF A] by (simp only:)
qed

section \<open>Setting up\<close>

definition setup_env_ok :: "setup_env \<Rightarrow> bool \<Rightarrow> nvme_rdma_ctrl \<Rightarrow> bool" where
  "setup_env_ok e new r \<longleftrightarrow> admin_env_ok e r \<and>
     (let (ret, r) = nvme_rdma_configure_admin_queue e new r
      in ret = 0 \<and> c_queue_count (r_ctrl r) > 1 \<longrightarrow> io_env_ok (se_io e) (prepare_io r))"

lemma prepare_io_ok [simp]: "ctrl_ok ext U L B (prepare_io r) = ctrl_ok ext U L B r"
  by (simp add: prepare_io_def Let_def)

lemma prepare_io_count [simp]: "c_queue_count (r_ctrl (prepare_io r)) = c_queue_count (r_ctrl r)"
  by (simp add: prepare_io_def Let_def on_ctrl_def clamp_sqsize_def)

lemma destroy_admin_ok:
  assumes "ctrl_ok ext {0} L B r" and "new \<Longrightarrow> admin_objs \<subseteq> B"
  shows "ctrl_ok ext {} {} (B - async_objs - (if new then admin_objs else {})) (destroy_admin new r)"
proof -
  have "L - {0} = {}" using ctrl_ok_subset(1)[OF assms(1)] by auto
  with stop_queue_ctrl_ok[OF assms(1) ctrl_okD(7)[OF assms(1)]]
  have "ctrl_ok ext {0} {} B (nvme_rdma_stop_queue 0 r)" by (simp only:)
  from destroy_admin_queue_ok[OF this _ assms(2)] show ?thesis by (simp add: destroy_admin_def)
qed

section \<open>The controller's state while it is set up\<close>

text \<open>
  Setting queues up changes neither the count of reconnects nor the options, and the state only where a
  disconnect starts error recovery on a controller that was new or live.
\<close>

definition steady :: "nvme_rdma_ctrl \<Rightarrow> nvme_rdma_ctrl \<Rightarrow> bool" where
  "steady r r' \<longleftrightarrow> c_opts (r_ctrl r') = c_opts (r_ctrl r) \<and>
     c_nr_reconnects (r_ctrl r') = c_nr_reconnects (r_ctrl r) \<and>
     (\<not> ctrl_transition (c_state (r_ctrl r)) NVME_CTRL_RESETTING \<longrightarrow>
        c_state (r_ctrl r') = c_state (r_ctrl r) \<and> c_pending (r_ctrl r') = c_pending (r_ctrl r))"

definition steady_count :: "nvme_rdma_ctrl \<Rightarrow> nvme_rdma_ctrl \<Rightarrow> bool" where
  "steady_count r r' \<longleftrightarrow> steady r r' \<and> c_queue_count (r_ctrl r') = c_queue_count (r_ctrl r)"

lemma steady_refl [simp, intro]: "steady r r"
  by (simp add: steady_def)

lemma steady_trans: "steady r r' \<Longrightarrow> steady r' r'' \<Longrightarrow> steady r r''"
  unfolding steady_def by metis

lemma steady_count_refl [simp, intro]: "steady_count r r"
  by (simp add: steady_count_def)

lemma steady_count_trans: "steady_count r r' \<Longrightarrow> steady_count r' r'' \<Longrightarrow> steady_count r r''"
  unfolding steady_count_def using steady_trans by metis

lemma steady_upd [simp]:
  "steady_count r0 (emit k r) = steady_count r0 r"
  "steady_count r0 (r\<lparr>r_async_sqe := b\<rparr>) = steady_count r0 r"
  "steady_count r0 (r\<lparr>r_device := d\<rparr>) = steady_count r0 r"
  "steady_count r0 (r\<lparr>r_max_fr_pages := n\<rparr>) = steady_count r0 r"
  "steady_count r0 (r\<lparr>r_use_inline_data := b\<rparr>) = steady_count r0 r"
  "steady_count r0 (on_ctrl (\<lambda>c. c\<lparr>c_admin_tagset := t\<rparr>) r) = steady_count r0 r"
  "steady_count r0 (on_ctrl (\<lambda>c. c\<lparr>c_tagset := t\<rparr>) r) = steady_count r0 r"
  "steady_count r0 (on_ctrl (\<lambda>c. c\<lparr>c_cntlid := i\<rparr>) r) = steady_count r0 r"
  "steady_count r0 (on_ctrl (\<lambda>c. c\<lparr>c_max_segments := m, c_max_hw_sectors := h\<rparr>) r) = steady_count r0 r"
  "steady_count r0 (on_ctrl clamp_sqsize r) = steady_count r0 r"
  by (simp_all add: steady_count_def steady_def emit_def call_def on_ctrl_def clamp_sqsize_def)

lemma steady_mild: "mild r r' \<Longrightarrow> steady r r'"
  by (simp add: steady_def mild_def)

lemma steady_calm: "calm r r' \<Longrightarrow> steady_count r r'"
  by (simp add: steady_count_def calm_def steady_mild)

lemma steady_queue [simp]:
  "steady_count r (nvme_rdma_free_queue i r)" "steady_count r (nvme_rdma_stop_queue i r)"
  "steady_count r (snd (nvme_rdma_start_queue cn i r))" "steady_count r (snd (nvme_rdma_alloc_queue e i n r))"
  "steady_count r (nvme_rdma_free_io_queues r)" "steady_count r (nvme_rdma_stop_io_queues r)"
  "steady_count r (snd (nvme_rdma_start_io_queues ie r))"
  by (intro steady_calm; simp add: calm_alloc_queue)+

text \<open>An operation after others.\<close>

lemma steady_op:
  assumes "\<And>s. steady_count s (f s)" and "steady_count r r'"
  shows "steady_count r (f r')"
  using assms steady_count_trans by blast

lemma steady_res: "res_frame (r_ctrl r) c \<Longrightarrow> steady_count r (r\<lparr>r_ctrl := c\<rparr>)"
  by (simp add: steady_count_def steady_def res_frame_def)

lemma steady_free_async [simp]: "steady_count r0 (free_async_qe r) = steady_count r0 r"
  by (simp add: free_async_qe_def)

lemma steady_outs:
  assumes "steady_count r0 r"
  shows "steady_count r0 (out_free_queue r)" "steady_count r0 (out_free_async_qe r)"
    "steady_count r0 (out_free_tagset new r)" "steady_count r0 (out_cleanup_fabrics_q new r)"
    "steady_count r0 (out_cleanup_queue new r)" "steady_count r0 (out_stop_queue new r)"
proof -
  have q: "steady_count r0 s \<Longrightarrow> steady_count r0 (out_free_queue s)" for s
    by (simp add: out_free_queue_def steady_op[of "nvme_rdma_free_queue 0"])
  have p: "steady_count r0 s \<Longrightarrow> steady_count r0 (nvme_rdma_stop_queue 0 s)" for s
    by (simp add: steady_op[of "nvme_rdma_stop_queue 0"])
  show "steady_count r0 (out_free_queue r)" "steady_count r0 (out_free_async_qe r)"
    "steady_count r0 (out_free_tagset new r)" "steady_count r0 (out_cleanup_fabrics_q new r)"
    "steady_count r0 (out_cleanup_queue new r)" "steady_count r0 (out_stop_queue new r)"
    using assms by (auto simp: out_free_async_qe_def out_free_tagset_def out_cleanup_fabrics_q_def
        out_cleanup_queue_def out_stop_queue_def intro!: q p)
qed

lemma steady_create_blk: "steady_count r (snd (create_admin_blk e r))"
  by (auto simp: create_admin_blk_def nvme_rdma_alloc_tagset_def init_queue_def Let_def
      intro!: steady_outs)

lemma steady_start_admin: "steady_count r (snd (start_admin_queue e r))"
  by (simp add: start_admin_queue_def split_beta)

lemma steady_enable: "steady_count r (snd (on_ctrl_ret (nvme_enable_ctrl re) r))"
  "steady_count r (snd (on_ctrl_ret (nvme_init_identify ide) r))"
  by (simp_all add: on_ctrl_ret_def steady_res)

lemma steady_async: "steady_count r (snd (alloc_async_qe e r))"
  by (auto simp: alloc_async_qe_def Let_def intro: steady_calm)

lemma steady_configure_admin: "steady_count r (snd (nvme_rdma_configure_admin_queue e new r))"
proof -
  obtain r1 s1 where 1: "nvme_rdma_alloc_queue (se_admin e) 0 NVME_AQ_DEPTH r = (r1, s1)" by fastforce
  let ?s1 = "s1\<lparr>r_device := q_device (queue s1 0),
                r_max_fr_pages := nvme_rdma_get_max_fr_pages (qe_max_fast_reg (se_admin e))\<rparr>"
  obtain r2 s2 where 2: "alloc_async_qe e ?s1 = (r2, s2)" by fastforce
  obtain r3 s3 where 3: "(if new then create_admin_blk e s2 else (0, s2)) = (r3, s3)" by fastforce
  obtain r4 s4 where 4: "start_admin_queue e s3 = (r4, s4)" by fastforce
  obtain r5 s5 where 5: "on_ctrl_ret (nvme_enable_ctrl (se_regs e)) s4 = (r5, s5)" by fastforce
  let ?s5 = "emit Unquiesce_admin (on_ctrl (\<lambda>c. c\<lparr>c_max_segments := unat (r_max_fr_pages s5),
      c_max_hw_sectors := unat (push_bit 3 (r_max_fr_pages s5))\<rparr>) s5)"
  obtain r6 s6 where 6: "on_ctrl_ret (nvme_init_identify (se_identify e)) ?s5 = (r6, s6)" by fastforce
  have s1: "steady_count r s1" using steady_queue(4)[of r "se_admin e" 0 NVME_AQ_DEPTH] 1 by simp
  have s2: "steady_count r s2"
    using steady_async[of ?s1 e] 2 s1 by (auto intro: steady_count_trans[of r ?s1])
  have s3: "steady_count r s3"
    using steady_create_blk[of s2 e] 3 s2 by (auto intro: steady_count_trans split: if_splits)
  have s4: "steady_count r s4"
    using steady_start_admin[of s3 e] 4 s3 by (auto intro: steady_count_trans)
  have s5: "steady_count r s5"
    using steady_enable(1)[of s4 "se_regs e"] 5 s4 by (auto intro: steady_count_trans)
  then have s5': "steady_count r ?s5" by simp
  have "steady_count ?s5 s6" using steady_enable(2)[of ?s5 "se_identify e"] by (simp only: 6 snd_conv)
  with s5' have s6: "steady_count r s6" by (rule steady_count_trans)
  show ?thesis
    unfolding nvme_rdma_configure_admin_queue_def Let_def
    by (simp add: 1 2 3 4 5 6 s1 s2 s3 s6 steady_outs s4 s5)
qed

lemma steady_configure_io: "steady r (snd (nvme_rdma_configure_io_queues e new r))"
proof -
  obtain r1 s1 where 1: "nvme_rdma_alloc_io_queues (se_io e) r = (r1, s1)" by fastforce
  have s1: "steady r s1" using mild_alloc_io[of r "se_io e"] 1 by (simp add: steady_mild)
  have st: "steady r s \<Longrightarrow> steady r (emit k s)" "steady r s \<Longrightarrow> steady r (nvme_rdma_free_io_queues s)"
    "steady r s \<Longrightarrow> steady r (snd (nvme_rdma_start_io_queues ie s))"
    "steady r s \<Longrightarrow> steady r (on_ctrl (\<lambda>c. c\<lparr>c_tagset := t\<rparr>) s)" for s k ie t
    using steady_queue(5)[of s] steady_queue(7)[of s ie] steady_upd(1)[of s k s] steady_upd(7)[of s t s]
    by (auto simp: steady_count_def intro: steady_trans)
  show ?thesis
    using s1
    by (auto simp: nvme_rdma_configure_io_queues_def 1 nvme_rdma_alloc_tagset_def init_queue_def Let_def
        split_beta intro!: st)
qed

lemma steady_destroy:
  "steady_count r (nvme_rdma_destroy_admin_queue b r)" "steady_count r (nvme_rdma_destroy_io_queues b r)"
  "steady_count r (destroy_admin b r)" "steady_count r (destroy_io b r)"
proof -
  have a: "steady_count r (nvme_rdma_destroy_admin_queue b r)" for r
    by (simp add: nvme_rdma_destroy_admin_queue_def Let_def steady_op[of "nvme_rdma_free_queue 0"])
  have i: "steady_count r (nvme_rdma_destroy_io_queues b r)" for r
    by (simp add: nvme_rdma_destroy_io_queues_def Let_def steady_op[of nvme_rdma_free_io_queues])
  have d: "steady_count r (destroy_admin b r)" for r
    unfolding destroy_admin_def by (rule steady_op[OF a]) simp
  show "steady_count r (nvme_rdma_destroy_admin_queue b r)" "steady_count r (nvme_rdma_destroy_io_queues b r)"
    "steady_count r (destroy_admin b r)" by (fact a i d)+
  show "steady_count r (destroy_io b r)"
    unfolding destroy_io_def by (rule steady_op[OF d]) (simp add: i)
qed

section \<open>What a setup leaves\<close>

text \<open>What the controller said about its SGL support is not touched by the I/O queues.\<close>

definition same_sgl :: "nvme_rdma_ctrl \<Rightarrow> nvme_rdma_ctrl \<Rightarrow> bool" where
  "same_sgl r r' \<longleftrightarrow> c_icdoff (r_ctrl r') = c_icdoff (r_ctrl r) \<and> c_sgls (r_ctrl r') = c_sgls (r_ctrl r)"

lemma mild_same_sgl: "mild r r' \<Longrightarrow> same_sgl r r'"
  by (simp add: mild_def same_sgl_def)

lemma same_sgl_trans: "same_sgl r r' \<Longrightarrow> same_sgl r' r'' \<Longrightarrow> same_sgl r r''"
  by (simp add: same_sgl_def)

lemma configure_io_ident: "same_sgl r (snd (nvme_rdma_configure_io_queues e new r))"
proof -
  obtain r1 s1 where 1: "nvme_rdma_alloc_io_queues (se_io e) r = (r1, s1)" by fastforce
  have s1: "same_sgl r s1" using mild_alloc_io[of r "se_io e"] 1 by (simp add: mild_same_sgl)
  have st: "same_sgl r s \<Longrightarrow> same_sgl r (emit k s)" "same_sgl r s \<Longrightarrow> same_sgl r (nvme_rdma_free_io_queues s)"
    "same_sgl r s \<Longrightarrow> same_sgl r (snd (nvme_rdma_start_io_queues ie s))"
    "same_sgl r s \<Longrightarrow> same_sgl r (on_ctrl (\<lambda>c. c\<lparr>c_tagset := t\<rparr>) s)" for s k ie t
    using mild_same_sgl[OF calm_mild, of s "nvme_rdma_free_io_queues s"]
      mild_same_sgl[OF calm_mild, of s "snd (nvme_rdma_start_io_queues ie s)"]
    by (auto simp: same_sgl_def emit_def call_def on_ctrl_def)
  show ?thesis
    using s1
    by (auto simp: nvme_rdma_configure_io_queues_def 1 nvme_rdma_alloc_tagset_def init_queue_def Let_def
        split_beta intro!: st)
qed

text \<open>
  The outcomes of a setup: a controller the transport can use, fully set up just before it goes live; one
  it cannot use, taken down again under a success code; or a failure that leaves nothing.
\<close>

lemma setup_ctrl_result:
  assumes r: "ctrl_ok ext {} {} B r" and B: "B \<inter> async_objs = {}" "new \<Longrightarrow> B \<inter> admin_objs = {} \<and> B \<inter> io_objs = {}"
    and env: "setup_env_ok e new r" and c: "nvme_rdma_setup_ctrl e new r = (ret, r')"
  obtains (usable) s where "ctrl_ok ext {0..<c_queue_count (r_ctrl s)} {0..<c_queue_count (r_ctrl s)}
      (B \<union> async_objs \<union> (if new then admin_objs else {}) \<union>
        (if new \<and> c_queue_count (r_ctrl r) > 1 then io_objs else {})) s"
      "steady r s" "c_icdoff (r_ctrl s) = 0" "c_sgls (r_ctrl s) AND SGLS_KEYED \<noteq> 0"
      "(ret, r') = go_live e new (on_ctrl (se_others e) s)"
      "c_queue_count (r_ctrl r) \<le> 1 \<Longrightarrow> c_queue_count (r_ctrl s) = c_queue_count (r_ctrl r)"
  | (unusable) s where "ret = 0" "r' = destroy_admin new s" "ctrl_ok ext {} {} B r'" "steady r r'"
      "c_icdoff (r_ctrl s) \<noteq> 0 \<or> c_sgls (r_ctrl s) AND SGLS_KEYED = 0"
  | (failed) "ret \<noteq> 0" "ctrl_ok ext {} {} B r'" "steady r r'"
proof -
  let ?N = "B \<union> async_objs \<union> (if new then admin_objs else {})"
  have disj: "async_objs \<inter> admin_objs = {}" "async_objs \<inter> io_objs = {}" "admin_objs \<inter> io_objs = {}"
    by (auto simp: objs_defs)
  have bk: "?N - async_objs - (if new then admin_objs else {}) = B" using B disj by auto
  obtain r1 s1 where 1: "nvme_rdma_configure_admin_queue e new r = (r1, s1)" by fastforce
  have st1: "steady_count r s1" using steady_configure_admin[of r e new] 1 by simp
  have ok1: "if r1 = 0 then ctrl_ok ext {0} {0} ?N s1 else ctrl_ok ext {} {} B s1"
    by (rule configure_admin_ok[OF r B(1) _ _ 1]) (use B env in \<open>auto simp: setup_env_ok_def\<close>)
  have A: "new \<Longrightarrow> admin_objs \<subseteq> ?N" by auto
  have dest: "ctrl_ok ext {} {} B (destroy_admin new s)" if "ctrl_ok ext {0} {0} ?N s" for s
    using destroy_admin_ok[where new = new, OF that A] unfolding bk by simp
  have dst: "steady r (destroy_admin new s)" if "steady r s" for s
    using steady_destroy(3)[of s new] that by (auto simp: steady_count_def intro: steady_trans)
  let ?p = "prepare_io s1"
  have p: "steady_count r ?p" "c_icdoff (r_ctrl ?p) = c_icdoff (r_ctrl s1)" "c_sgls (r_ctrl ?p) = c_sgls (r_ctrl s1)"
    "c_queue_count (r_ctrl ?p) = c_queue_count (r_ctrl r)"
    using st1 by (simp_all add: prepare_io_def Let_def)
      (simp_all add: on_ctrl_def clamp_sqsize_def steady_count_def)
  note defs = nvme_rdma_setup_ctrl_def Let_def 1
  show thesis
  proof (cases "r1 = 0")
    case False
    with c ok1 st1 show thesis by (intro failed) (simp_all add: defs steady_count_def)
  next
    case r1: True
    with ok1 have ok1': "ctrl_ok ext {0} {0} ?N s1" by simp
    show thesis
    proof (cases "c_icdoff (r_ctrl s1) \<noteq> 0 \<or> c_sgls (r_ctrl s1) AND SGLS_KEYED = 0")
      case True
      with c r1 have "ret = 0" "r' = destroy_admin new s1" by (auto simp: defs split: if_splits)
      with True dest[OF ok1'] dst[of s1] st1 show thesis by (intro unusable) (simp_all add: steady_count_def)
    next
      case False
      obtain r2 s2 where 2: "(if c_queue_count (r_ctrl ?p) > 1 then nvme_rdma_configure_io_queues e new ?p
          else (0, ?p)) = (r2, s2)" by fastforce
      have okp: "ctrl_ok ext {0} {0} ?N ?p" using ok1' by simp
      have envp: "io_env_ok (se_io e) ?p" if "c_queue_count (r_ctrl r) > 1"
        using env r1 1 that p(4) by (simp add: setup_env_ok_def)
      have st2: "steady r s2"
        using steady_configure_io[of ?p e new] p(1) 2
        by (auto simp: steady_count_def intro: steady_trans split: if_splits)
      have N: "new \<Longrightarrow> ?N \<inter> io_objs = {}" using B disj by auto
      let ?M = "?N \<union> (if new \<and> c_queue_count (r_ctrl r) > 1 then io_objs else {})"
      have ok2: "if r2 = 0 then ctrl_ok ext {0..<c_queue_count (r_ctrl s2)} {0..<c_queue_count (r_ctrl s2)} ?M s2
          else ctrl_ok ext {0} {0} ?N s2"
      proof (cases "c_queue_count (r_ctrl r) > 1")
        case True
        then have "nvme_rdma_configure_io_queues e new ?p = (r2, s2)" using 2 p(4) by simp
        from configure_io_ok[OF okp N envp[OF True] this] True show ?thesis by simp
      next
        case False
        moreover have "{0..<c_queue_count (r_ctrl ?p)} = {0}" using ctrl_okD(3)[OF okp] False p(4) by auto
        moreover have "r2 = 0" "s2 = ?p" using 2 False p(4) by simp_all
        ultimately show ?thesis using okp by (simp only: if_True) simp
      qed
      have fin: "nvme_rdma_setup_ctrl e new r = (if r2 \<noteq> 0 then (r2, destroy_admin new s2)
          else go_live e new (on_ctrl (se_others e) s2))"
        using 2 False r1 by (cases "c_queue_count (r_ctrl ?p) > 1") (simp_all add: nvme_rdma_setup_ctrl_def Let_def 1 del: prepare_io_count)
      show thesis
      proof (cases "r2 = 0")
        case z: True
        have i: "c_icdoff (r_ctrl s2) = 0" "c_sgls (r_ctrl s2) AND SGLS_KEYED \<noteq> 0"
          using False p(2,3) configure_io_ident[of ?p e new] 2 by (auto simp: same_sgl_def split: if_splits)
        have n: "c_queue_count (r_ctrl s2) = c_queue_count (r_ctrl r)" if "c_queue_count (r_ctrl r) \<le> 1"
        proof -
          have "\<not> c_queue_count (r_ctrl ?p) > 1" using that p(4) by linarith
          then have "s2 = ?p" using 2 by (simp only: if_False prod.inject)
          then show ?thesis using p(4) by (simp only:)
        qed
        show thesis by (rule usable[of s2]) (use ok2 z st2 i fin c n in simp_all)
      next
        case nz: False
        with fin c have "ret = r2" "r' = destroy_admin new s2" by simp_all
        with nz ok2 dest[of s2] dst[OF st2] show thesis by (intro failed) simp_all
      qed
    qed
  qed
qed

end
