(* ===== verification/Ctrl_Arrivals.thy ===== *)
theory Ctrl_Arrivals
  imports Ctrl_Resources
begin

text \<open>
  Errors and requests that arrive while a controller is being set up, and what a deletion that overtakes the
  set-up leaves behind: every resource is given back, but the I/O queues keep their live flag.
\<close>

lemma destroy_admin_same_sgl: "same_sgl r (destroy_admin new r)"
proof -
  have q: "same_sgl s (nvme_rdma_free_queue i s)" "same_sgl s (nvme_rdma_stop_queue i s)" for i s
    by (intro mild_same_sgl calm_mild; simp)+
  have k: "same_sgl s (emit k s)" for k s by (simp add: same_sgl_def emit_def call_def)
  have a: "same_sgl s (free_async_qe s)" for s
    by (simp add: same_sgl_def free_async_qe_def emit_def call_def)
  have d: "same_sgl s (nvme_rdma_destroy_admin_queue new s)" for s
    unfolding nvme_rdma_destroy_admin_queue_def Let_def
    by (rule same_sgl_trans[OF _ q(1)], rule same_sgl_trans[OF _ a])
      (simp add: same_sgl_def emit_def call_def)
  show ?thesis unfolding destroy_admin_def by (rule same_sgl_trans[OF q(2) d])
qed

lemma on_ctrl_id [simp]: "on_ctrl (\<lambda>c. c) r = r" "on_ctrl id r = r"
  by (simp_all add: on_ctrl_def)

section \<open>Requests that arrive during a setup\<close>

text \<open>
  While a controller is being set up, errors and requests for a reset or a deletion may arrive. They act on
  the controller's state; only a deletion is possible while it is connecting.
\<close>

datatype arrival = Arr_error | Arr_reset | Arr_delete

fun arrive :: "arrival \<Rightarrow> nvme_ctrl \<Rightarrow> nvme_ctrl" where
  "arrive Arr_error c =
     (let (changed, c) = nvme_change_ctrl_state NVME_CTRL_RESETTING c
      in if \<not> changed then c else snd (queue_work Err_work c))"
| "arrive Arr_reset c = snd (nvme_reset_ctrl c)"
| "arrive Arr_delete c = snd (nvme_delete_ctrl c)"

definition arrived :: "arrival list \<Rightarrow> nvme_ctrl \<Rightarrow> nvme_ctrl" where
  "arrived qs = fold arrive qs"

lemma arrive_deleting:
  assumes "c_state c = NVME_CTRL_DELETING"
  shows "arrive q c = c"
  using assms
  by (cases q) (simp_all add: nvme_reset_ctrl_def nvme_delete_ctrl_def nvme_change_ctrl_state_def Let_def)

lemma arrived_deleting: "c_state c = NVME_CTRL_DELETING \<Longrightarrow> arrived qs c = c"
  by (induction qs) (simp_all add: arrived_def arrive_deleting)

lemma delete_connecting:
  assumes "c_state c = NVME_CTRL_CONNECTING"
  shows "c_state (snd (nvme_delete_ctrl c)) = NVME_CTRL_DELETING"
    "lworks (snd (nvme_delete_ctrl c)) = insert Delete_work (lworks c)"
    "ctrl_frame c (snd (nvme_delete_ctrl c))"
  using assms by (simp_all add: nvme_delete_ctrl_def Let_def split_beta)

lemma arrived_connecting:
  "c_state c = NVME_CTRL_CONNECTING \<Longrightarrow>
     arrived qs c = (if Arr_delete \<in> set qs then snd (nvme_delete_ctrl c) else c)"
proof (induction qs)
  case Nil
  then show ?case by (simp add: arrived_def)
next
  case (Cons q qs)
  have r: "arrived (q # qs) c = arrived qs (arrive q c)" by (simp add: arrived_def)
  show ?case
  proof (cases "q = Arr_delete")
    case True
    have "arrived qs (snd (nvme_delete_ctrl c)) = snd (nvme_delete_ctrl c)"
      by (rule arrived_deleting [OF delete_connecting(1) [OF Cons.prems]])
    then show ?thesis using True unfolding r by simp
  next
    case False
    then have "arrive q c = c"
      using Cons.prems by (cases q) (simp_all add: nvme_reset_ctrl_def nvme_change_ctrl_state_def Let_def)
    then show ?thesis using Cons False by (auto simp: r)
  qed
qed

section \<open>A deletion that overtakes a setup\<close>

text \<open>A controller's I/O queues with their live flags cleared.\<close>

definition io_flags_off :: "nvme_rdma_ctrl \<Rightarrow> nvme_rdma_ctrl" where
  "io_flags_off r = r\<lparr>r_queues := map (\<lambda>k. if k = 0 then r_queues r ! k else (r_queues r ! k)\<lparr>q_live := False\<rparr>)
     [0..<length (r_queues r)]\<rparr>"

lemma off_fields [simp]:
  "r_ctrl (io_flags_off r) = r_ctrl r" "r_devs (io_flags_off r) = r_devs r" "r_async_sqe (io_flags_off r) = r_async_sqe r"
  "length (r_queues (io_flags_off r)) = length (r_queues r)"
  by (simp_all add: io_flags_off_def)

lemma off_queue:
  assumes "k < length (r_queues r)"
  shows "queue (io_flags_off r) k = (if k = 0 then queue r k else (queue r k)\<lparr>q_live := False\<rparr>)"
  using assms by (cases "k = 0") (simp_all add: io_flags_off_def)

lemma off_emit: "io_flags_off (emit k r) = emit k (io_flags_off r)"
  by (simp add: io_flags_off_def emit_def)

lemma off_async: "io_flags_off (r\<lparr>r_async_sqe := b\<rparr>) = (io_flags_off r)\<lparr>r_async_sqe := b\<rparr>"
  by (simp add: io_flags_off_def)

lemma off_devs: "io_flags_off (r\<lparr>r_devs := d\<rparr>) = (io_flags_off r)\<lparr>r_devs := d\<rparr>"
  by (simp add: io_flags_off_def)

lemma off_upd:
  assumes i: "i < length (r_queues r)" and f: "\<forall>q. f (q\<lparr>q_live := False\<rparr>) = (f q)\<lparr>q_live := False\<rparr>"
  shows "io_flags_off (upd_queue i f r) = upd_queue i f (io_flags_off r)"
proof -
  have "r_queues (io_flags_off (upd_queue i f r)) = r_queues (upd_queue i f (io_flags_off r))"
  proof (rule nth_equalityI)
    fix k assume "k < length (r_queues (io_flags_off (upd_queue i f r)))"
    then have k: "k < length (r_queues r)" by (simp add: upd_queue_def)
    then show "r_queues (io_flags_off (upd_queue i f r)) ! k = r_queues (upd_queue i f (io_flags_off r)) ! k"
      using i f by (cases "k = i"; cases "k = 0") (simp_all add: off_queue upd_queue_def)
  qed (simp add: upd_queue_def)
  moreover have "upd_queue i f (io_flags_off r) =
      (io_flags_off (upd_queue i f r))\<lparr>r_queues := r_queues (upd_queue i f (io_flags_off r))\<rparr>"
    by (simp add: upd_queue_def io_flags_off_def)
  moreover have "(io_flags_off (upd_queue i f r))\<lparr>r_queues := r_queues (io_flags_off (upd_queue i f r))\<rparr> =
      io_flags_off (upd_queue i f r)" by simp
  ultimately show ?thesis by metis
qed


lemma off_free_queue:
  assumes "i < length (r_queues r)"
  shows "io_flags_off (nvme_rdma_free_queue i r) = nvme_rdma_free_queue i (io_flags_off r)"
proof -
  have len: "length (r_queues (upd_queue i f s)) = length (r_queues s)" for f s by (simp add: upd_queue_def)
  have em: "io_flags_off (emits i ks s) = emits i ks (io_flags_off s)" for ks s by (simp add: io_flags_off_def emits_def)
  have put: "io_flags_off (dev_put_of i s) = dev_put_of i (io_flags_off s)" if "i < length (r_queues s)" for s
    using that by (simp add: dev_put_of_def off_queue off_devs split: option.splits)
  have sz: "q_queue_size (queue (io_flags_off s) i) = q_queue_size (queue s i)"
      "q_tr_ready (queue (io_flags_off s) i) = q_tr_ready (queue s i)"
      "q_allocated (queue (io_flags_off s) i) = q_allocated (queue s i)" if "i < length (r_queues s)" for s
    using that by (simp_all add: off_queue)
  have ib: "io_flags_off (nvme_rdma_destroy_queue_ib i s) = nvme_rdma_destroy_queue_ib i (io_flags_off s)"
    if "i < length (r_queues s)" for s
  proof -
    have ks: "nvme_rdma_free_ring i n (emits i ks s) = emits i (ks @ free_calls 0 n @ [Kfree_ring]) s" for n ks s
      by (simp add: free_ring_emits)
    show ?thesis
      using that by (simp add: nvme_rdma_destroy_queue_ib_def Let_def qemit_emits free_ring_emits put len em off_upd sz)
  qed
  show ?thesis
    using assms by (simp add: nvme_rdma_free_queue_def Let_def qemit_emits em ib len off_upd sz)
qed

lemma free_queue_length: "length (r_queues (nvme_rdma_free_queue i r)) = length (r_queues r)"
  by (simp add: nvme_rdma_free_queue_def nvme_rdma_destroy_queue_ib_def Let_def qemit_emits free_ring_emits
      dev_put_of_def upd_queue_def split: option.splits)

lemma off_free_queues:
  "set js \<subseteq> {..<length (r_queues r)} \<Longrightarrow>
     io_flags_off (fold nvme_rdma_free_queue js r) = fold nvme_rdma_free_queue js (io_flags_off r) \<and>
     length (r_queues (fold nvme_rdma_free_queue js r)) = length (r_queues r)"
  by (induction js arbitrary: r) (simp_all add: off_free_queue free_queue_length)

lemma off_destroy_io:
  assumes "c_queue_count (r_ctrl r) \<le> length (r_queues r)" "0 < length (r_queues r)"
  shows "io_flags_off (destroy_io new r) = destroy_io new (io_flags_off r)"
proof -
  have fa: "io_flags_off (free_async_qe s) = free_async_qe (io_flags_off s)" for s
    by (simp add: free_async_qe_def off_emit off_async)
  have fal: "length (r_queues (free_async_qe s)) = length (r_queues s)" for s
    by (simp add: free_async_qe_def emit_def)
  have el: "length (r_queues (emit k s)) = length (r_queues s)" for k s by (simp add: emit_def)
  have ec: "c_queue_count (r_ctrl (emit k s)) = c_queue_count (r_ctrl s)" for k s by (simp add: emit_def call_def)
  have fio: "io_flags_off (nvme_rdma_free_io_queues s) = nvme_rdma_free_io_queues (io_flags_off s) \<and>
      length (r_queues (nvme_rdma_free_io_queues s)) = length (r_queues s)"
    if "c_queue_count (r_ctrl s) \<le> length (r_queues s)" for s
  proof -
    have "set (io_queue_ids s) \<subseteq> {..<length (r_queues s)}" using that by auto
    from off_free_queues [OF this] show ?thesis by (simp add: nvme_rdma_free_io_queues_def)
  qed
  have st: "io_flags_off (nvme_rdma_stop_queue 0 s) = nvme_rdma_stop_queue 0 (io_flags_off s)"
      "length (r_queues (nvme_rdma_stop_queue 0 s)) = length (r_queues s)" if "0 < length (r_queues s)" for s
    using that by (simp_all add: nvme_rdma_stop_queue_def do_stop_queue_def off_emit off_upd off_queue el)
  have ad: "io_flags_off (destroy_admin new s) = destroy_admin new (io_flags_off s)" if "0 < length (r_queues s)" for s
    using that by (simp add: destroy_admin_def nvme_rdma_destroy_admin_queue_def Let_def off_free_queue fa off_emit st fal el)
  have io: "io_flags_off (nvme_rdma_destroy_io_queues new s) = nvme_rdma_destroy_io_queues new (io_flags_off s) \<and>
      length (r_queues (nvme_rdma_destroy_io_queues new s)) = length (r_queues s)"
    if "c_queue_count (r_ctrl s) \<le> length (r_queues s)" for s
    using that fio by (simp add: nvme_rdma_destroy_io_queues_def Let_def off_emit el ec)
  show ?thesis using assms by (simp add: destroy_io_def ad io)
qed

text \<open>The flags of the I/O queues are not touched.\<close>

lemma free_queue_flag: "q_live (queue (nvme_rdma_free_queue i r) k) = q_live (queue r k)"
proof -
  have u: "q_live (queue (upd_queue i f s) k) = q_live (queue s k)" if "\<forall>q. q_live (f q) = q_live q" for f s
    using that by (cases "i = k"; cases "i < length (r_queues s)") (simp_all add: upd_queue_def not_less list_update_beyond)
  have "q_live (queue (nvme_rdma_destroy_queue_ib i s) k) = q_live (queue s k)" for s
    by (simp add: nvme_rdma_destroy_queue_ib_def Let_def qemit_emits free_ring_emits dev_put_of_def u split: option.splits)
  then show ?thesis by (simp add: nvme_rdma_free_queue_def Let_def qemit_emits u)
qed

lemma destroy_io_flag:
  assumes "0 < k"
  shows "q_live (queue (destroy_io new r) k) = q_live (queue r k)"
proof -
  have fo: "q_live (queue (fold nvme_rdma_free_queue js s) k) = q_live (queue s k)" for js s
    by (induction js arbitrary: s) (simp_all add: free_queue_flag)
  have st: "queue (nvme_rdma_stop_queue 0 s) k = queue s k" for s
    using assms by (simp add: nvme_rdma_stop_queue_def do_stop_queue_def upd_queue_def emit_def)
  have "q_live (queue (nvme_rdma_destroy_io_queues new s) k) = q_live (queue s k)" for s
    by (simp add: nvme_rdma_destroy_io_queues_def Let_def nvme_rdma_free_io_queues_def fo emit_def)
  moreover have "q_live (queue (destroy_admin new s) k) = q_live (queue s k)" for s
    by (simp add: destroy_admin_def nvme_rdma_destroy_admin_queue_def Let_def free_queue_flag free_async_qe_def emit_def st)
  ultimately show ?thesis by (simp add: destroy_io_def)
qed


section \<open>The outcome of a setup that requests interrupt\<close>

lemma off_held: "held k (io_flags_off r) = held k r"
  by (simp add: held_def queue_calls_def)

lemma off_up:
  assumes "ctrl_ok ext {0..<n} {0..<n} B r" "1 \<le> n"
  shows "ctrl_ok ext {0..<n} {0} B (io_flags_off r)"
proof -
  have q: "queues_ok ext {0..<n} {0..<n} r" by (rule ctrl_okD(1) [OF assms(1)])
  have len: "{0..<n} \<subseteq> {..<length (r_queues r)}" using q by (simp add: queues_ok_def)
  have k: "k < length (r_queues r)" if "k < n" for k using len that by auto
  have du: "dev_users {0..<n} (io_flags_off r) = dev_users {0..<n} r"
  proof
    fix a
    have "q_device (queue (io_flags_off r) i) = q_device (queue r i)" if "i < n" for i
      using k [OF that] by (simp add: off_queue)
    then have "{i \<in> {0..<n}. q_device (queue (io_flags_off r) i) = Some a} = {i \<in> {0..<n}. q_device (queue r i) = Some a}"
      by auto
    then show "dev_users {0..<n} (io_flags_off r) a = dev_users {0..<n} r a" by (simp only: dev_users_def)
  qed
  have "queues_ok ext {0..<n} {0} (io_flags_off r)"
    using q k assms(2) unfolding queues_ok_def du
    by (auto simp: off_queue queue_up_def queue_idle_def off_held)
  moreover have "blk_held (io_flags_off r) = blk_held r" "queue_array_ok (io_flags_off r) = queue_array_ok r"
    by (simp_all add: blk_held_def blk_calls_def queue_array_ok_def)
  ultimately show ?thesis using assms(1) by (simp add: ctrl_ok_def)
qed

lemma go_live_deleting:
  assumes "c_state (r_ctrl r) = NVME_CTRL_DELETING"
  shows "go_live e new r = (- EINVAL, destroy_io new r)"
proof -
  have "r\<lparr>r_ctrl := snd (nvme_change_ctrl_state NVME_CTRL_LIVE (r_ctrl r))\<rparr> = r"
    using assms by (simp add: nvme_change_ctrl_state_def)
  then show ?thesis using assms by (simp add: go_live_def on_ctrl_ret_def)
qed

text \<open>
  A set-up that made the I/O tag set and was granted no I/O queues does not give it back: \<open>m\<close> and \<open>n\<close> are the
  numbers of queues asked for and got.
\<close>

definition io_leftover :: "bool \<Rightarrow> nat \<Rightarrow> nat \<Rightarrow> bobj set" where
  "io_leftover new m n = (if new \<and> 1 < m \<and> n = 1 then io_objs else {})"

lemma destroy_io_deleting:
  assumes r: "ctrl_ok ext {0..<n} {0..<n} (B \<union> async_objs \<union> N) r" and n: "n = c_queue_count (r_ctrl r)" "1 < n \<Longrightarrow> 1 < m"
    and B: "B \<inter> async_objs = {}" "new \<Longrightarrow> B \<inter> admin_objs = {} \<and> B \<inter> io_objs = {}"
      "N = (if new then admin_objs else {}) \<union> (if new \<and> 1 < m then io_objs else {})"
  shows "ctrl_ok ext {} {} (B \<union> io_leftover new m n) (io_flags_off (destroy_io new r))"
    "k \<in> {1..<n} \<Longrightarrow> q_live (queue (destroy_io new r) k)"
    "n = 1 \<Longrightarrow> ctrl_ok ext {} {} (B \<union> io_leftover new m n) (destroy_io new r)"
proof -
  have len: "c_queue_count (r_ctrl r) \<le> length (r_queues r)" "0 < length (r_queues r)" "1 \<le> n"
    using ctrl_okD(3,4,7) [OF r] n by simp_all
  have disj: "async_objs \<inter> admin_objs = {}" "async_objs \<inter> io_objs = {}" "admin_objs \<inter> io_objs = {}"
    by (auto simp: objs_defs)
  let ?A = "if new then admin_objs else {}" and ?I = "if new \<and> 1 < m then io_objs else {}"
  have down: "ctrl_ok ext {} {} (B \<union> io_leftover new m n) (destroy_io new s)"
    if s: "ctrl_ok ext {0..<n} {0} (B \<union> async_objs \<union> N) s" "c_queue_count (r_ctrl s) = n" for s
  proof (cases "1 < n")
    case True
    let ?C = "B \<union> async_objs \<union> N - (if new then io_objs else {})"
    have "new \<Longrightarrow> io_objs \<subseteq> B \<union> async_objs \<union> N" using B(3) n(2) [OF True] by auto
    from destroy_io_queues_ok [where remove = new, OF s(1) _ this]
    have "ctrl_ok ext ({0..<n} - {1..<c_queue_count (r_ctrl s)}) {0} ?C (nvme_rdma_destroy_io_queues new s)" by simp
    moreover have "{0..<n} - {1..<c_queue_count (r_ctrl s)} = {0}" using True s(2) by auto
    ultimately have ok: "ctrl_ok ext {0} {0} ?C (nvme_rdma_destroy_io_queues new s)" by simp
    have "new \<Longrightarrow> admin_objs \<subseteq> ?C" using B(3) disj by auto
    from destroy_admin_ok [where new = new, OF ok this]
    have "ctrl_ok ext {} {} (?C - async_objs - ?A) (destroy_admin new (nvme_rdma_destroy_io_queues new s))" .
    moreover have "?C - async_objs - ?A = B \<union> io_leftover new m n"
      using B disj True unfolding io_leftover_def by (cases new) auto
    ultimately show ?thesis using True s(2) by (simp add: destroy_io_def)
  next
    case False
    then have n1: "n = 1" using len(3) by simp
    then have "{0..<n} = {0}" by auto
    then have ok: "ctrl_ok ext {0} {0} (B \<union> async_objs \<union> N) s" using s(1) by simp
    have "new \<Longrightarrow> admin_objs \<subseteq> B \<union> async_objs \<union> N" using B(3) by auto
    from destroy_admin_ok [where new = new, OF ok this]
    have "ctrl_ok ext {} {} (B \<union> async_objs \<union> N - async_objs - ?A) (destroy_admin new s)" .
    moreover have "B \<union> async_objs \<union> N - async_objs - ?A = B \<union> io_leftover new m n"
      using B disj n1 unfolding io_leftover_def by (cases new; cases "1 < m") auto
    ultimately show ?thesis using False s(2) by (simp add: destroy_io_def)
  qed
  show "ctrl_ok ext {} {} (B \<union> io_leftover new m n) (io_flags_off (destroy_io new r))"
    unfolding off_destroy_io [OF len(1,2)] by (rule down [OF off_up [OF r len(3)]]) (simp add: n)
  show "q_live (queue (destroy_io new r) k)" if "k \<in> {1..<n}"
    using that destroy_io_flag [of k new r] queues_ok_live [OF ctrl_okD(1) [OF r], of k] by simp
  show "ctrl_ok ext {} {} (B \<union> io_leftover new m n) (destroy_io new r)" if "n = 1"
  proof -
    have "{0..<n} = {0}" using that by auto
    then have "ctrl_ok ext {0..<n} {0} (B \<union> async_objs \<union> N) r" using r by (simp only:)
    then show ?thesis by (rule down) (rule n(1) [symmetric])
  qed
qed

lemma setup_ctrl_interrupted:
  assumes r: "ctrl_ok ext {} {} B r" and B: "B \<inter> async_objs = {}" "new \<Longrightarrow> B \<inter> admin_objs = {} \<and> B \<inter> io_objs = {}"
    and env: "setup_env_ok e new r" and c: "nvme_rdma_setup_ctrl e new r = (ret, r')"
    and st: "c_state (r_ctrl r) = NVME_CTRL_CONNECTING \<and> Arr_delete \<in> set qs \<or> c_state (r_ctrl r) = NVME_CTRL_DELETING"
    and arr: "se_others e = arrived qs"
  obtains (unusable) "ret = 0" "ctrl_ok ext {} {} B r'" "steady r r'"
      "c_icdoff (r_ctrl r') \<noteq> 0 \<or> c_sgls (r_ctrl r') AND SGLS_KEYED = 0"
  | (failed) "ret \<noteq> 0" "ctrl_ok ext {} {} B r'" "steady r r'"
  | (overtaken) "ret = - EINVAL" "c_state (r_ctrl r') = NVME_CTRL_DELETING"
      "lworks (r_ctrl r') = (if c_state (r_ctrl r) = NVME_CTRL_CONNECTING then insert Delete_work (lworks (r_ctrl r)) else lworks (r_ctrl r))"
      "ctrl_ok ext {} {} (B \<union> io_leftover new (c_queue_count (r_ctrl r)) (c_queue_count (r_ctrl r'))) (io_flags_off r')"
      "\<forall>k \<in> {1..<c_queue_count (r_ctrl r')}. q_live (queue r' k)"
      "c_queue_count (r_ctrl r') = 1 \<Longrightarrow>
         ctrl_ok ext {} {} (B \<union> io_leftover new (c_queue_count (r_ctrl r)) (c_queue_count (r_ctrl r'))) r'"
proof (rule setup_ctrl_result [OF r B(1) B(2) env c])
  fix s :: nvme_rdma_ctrl
  let ?m = "c_queue_count (r_ctrl r)" and ?n = "c_queue_count (r_ctrl s)"
  let ?N = "(if new then admin_objs else {}) \<union> (if new \<and> 1 < ?m then io_objs else {})"
  assume up: "ctrl_ok ext {0..<?n} {0..<?n} (B \<union> async_objs \<union> (if new then admin_objs else {}) \<union>
        (if new \<and> ?m > 1 then io_objs else {})) s"
    and sr: "steady r s" and go: "(ret, r') = go_live e new (on_ctrl (se_others e) s)"
    and n: "?m \<le> 1 \<Longrightarrow> ?n = ?m"
  have s: "c_state (r_ctrl s) = c_state (r_ctrl r)" "lworks (r_ctrl s) = lworks (r_ctrl r)"
    using sr st by (auto simp: steady_def lworks_def)
  let ?c = "arrived qs (r_ctrl s)"
  have "?c = (if c_state (r_ctrl r) = NVME_CTRL_CONNECTING then snd (nvme_delete_ctrl (r_ctrl s)) else r_ctrl s)"
    using st s(1) by (auto simp: arrived_connecting arrived_deleting)
  then have fr: "c_state ?c = NVME_CTRL_DELETING" "ctrl_frame (r_ctrl s) ?c"
      "lworks ?c = (if c_state (r_ctrl r) = NVME_CTRL_CONNECTING then insert Delete_work (lworks (r_ctrl r)) else lworks (r_ctrl r))"
    using st s delete_connecting [of "r_ctrl s"] by auto
  let ?s = "s\<lparr>r_ctrl := ?c\<rparr>"
  have q: "c_queue_count (r_ctrl ?s) = ?n" using fr(2) by (simp add: ctrl_frame_def)
  have ok: "ctrl_ok ext {0..<?n} {0..<?n} (B \<union> async_objs \<union> ?N) ?s"
  proof -
    have "ctrl_ok ext {0..<?n} {0..<?n} (B \<union> async_objs \<union> ?N) s" using up by (simp only: Un_assoc)
    then show ?thesis using fr(2) by (subst ctrl_ok_cong) (simp_all add: ctrl_frame_def)
  qed
  have g: "ret = - EINVAL" "r' = destroy_io new ?s"
    using go go_live_deleting [of ?s e new] fr(1) arr by (simp_all add: on_ctrl_def)
  have sc: "steady_count ?s r'" unfolding g(2) by (rule steady_destroy(4))
  then have r': "c_state (r_ctrl r') = NVME_CTRL_DELETING" "lworks (r_ctrl r') = lworks ?c" "c_queue_count (r_ctrl r') = ?n"
    using fr(1) q by (auto simp: steady_count_def steady_def lworks_def)
  have m: "1 < ?n \<Longrightarrow> 1 < ?m" using n by linarith
  note D = destroy_io_deleting [OF ok q [symmetric] m B(1) B(2) HOL.refl]
  note D' = D [folded g(2)]
  show thesis
  proof (rule overtaken [OF g(1) r'(1)])
    show "lworks (r_ctrl r') = (if c_state (r_ctrl r) = NVME_CTRL_CONNECTING then insert Delete_work (lworks (r_ctrl r))
        else lworks (r_ctrl r))" by (simp only: r'(2) fr(3))
    show "ctrl_ok ext {} {} (B \<union> io_leftover new ?m (c_queue_count (r_ctrl r'))) (io_flags_off r')"
      unfolding r'(3) by (rule D'(1))
    show "\<forall>k \<in> {1..<c_queue_count (r_ctrl r')}. q_live (queue r' k)"
      unfolding r'(3) by (intro ballI D'(2))
    show "ctrl_ok ext {} {} (B \<union> io_leftover new ?m (c_queue_count (r_ctrl r'))) r'"
      if "c_queue_count (r_ctrl r') = 1" using D'(3) that unfolding r'(3) by blast
  qed
next
  fix s
  assume a: "ret = 0" "r' = destroy_admin new s" "ctrl_ok ext {} {} B r'" "steady r r'"
    "c_icdoff (r_ctrl s) \<noteq> 0 \<or> c_sgls (r_ctrl s) AND SGLS_KEYED = 0"
  have "same_sgl s r'" using a(2) destroy_admin_same_sgl by simp
  with a show thesis by (intro unusable) (simp_all add: same_sgl_def)
qed (use failed in blast)

end
