(* ===== verification/Ctrl_Setup.thy ===== *)
theory Ctrl_Setup
  imports Ctrl_Arrivals
begin

text \<open>
  What setting a controller up leaves behind: the outcomes of \<open>nvme_rdma_setup_ctrl\<close>, and that it succeeds
  when each of its steps does.
\<close>

section \<open>The outcomes of a setup\<close>

text \<open>Going live from the connecting state always succeeds.\<close>

lemma go_live_connecting:
  assumes "c_state (r_ctrl r) = NVME_CTRL_CONNECTING"
  shows "fst (go_live e new r) = 0" "c_state (r_ctrl (snd (go_live e new r))) = NVME_CTRL_LIVE"
    "ctrl_ok ext U L B (snd (go_live e new r)) = ctrl_ok ext U L B r"
    "c_queue_count (r_ctrl (snd (go_live e new r))) = c_queue_count (r_ctrl r)"
    "c_opts (r_ctrl (snd (go_live e new r))) = c_opts (r_ctrl r)"
    "lworks (r_ctrl (snd (go_live e new r))) = lworks (r_ctrl r)"
    "same_sgl r (snd (go_live e new r))"
proof -
  let ?c = "nvme_start_ctrl (ie_features (se_io e)) (snd (nvme_change_ctrl_state NVME_CTRL_LIVE (r_ctrl r)))"
  have g: "go_live e new r = (0, r\<lparr>r_ctrl := ?c\<rparr>)"
    using assms by (simp add: go_live_def on_ctrl_ret_def on_ctrl_def Let_def)
  have f: "ctrl_frame (r_ctrl r) ?c" by simp
  show "fst (go_live e new r) = 0" "c_state (r_ctrl (snd (go_live e new r))) = NVME_CTRL_LIVE"
    "lworks (r_ctrl (snd (go_live e new r))) = lworks (r_ctrl r)"
    using assms by (simp_all add: g)
  show "c_queue_count (r_ctrl (snd (go_live e new r))) = c_queue_count (r_ctrl r)"
    "c_opts (r_ctrl (snd (go_live e new r))) = c_opts (r_ctrl r)"
    "same_sgl r (snd (go_live e new r))"
    using f by (simp_all add: g ctrl_frame_def same_sgl_def)
  show "ctrl_ok ext U L B (snd (go_live e new r)) = ctrl_ok ext U L B r"
    using f unfolding g by (intro ctrl_ok_cong) (simp_all add: ctrl_frame_def)
qed

text \<open>What a controller holds when it is up, and what of it the tear-down for a reconnect keeps.\<close>

definition blk_objs :: "bool \<Rightarrow> nvme_rdma_ctrl \<Rightarrow> bobj set" where
  "blk_objs new r =
     (if new then admin_objs else {}) \<union> (if new \<and> c_queue_count (r_ctrl r) > 1 then io_objs else {})"

lemma setup_ctrl_outcome:
  assumes r: "ctrl_ok ext {} {} B r" and B: "B \<inter> async_objs = {}" "new \<Longrightarrow> B \<inter> admin_objs = {} \<and> B \<inter> io_objs = {}"
    and env: "setup_env_ok e new r" and c: "nvme_rdma_setup_ctrl e new r = (ret, r')"
    and st: "c_state (r_ctrl r) = NVME_CTRL_CONNECTING" and alone: "\<forall>c. c_state c = NVME_CTRL_CONNECTING \<longrightarrow> se_others e c = c"
  obtains (live) "ret = 0" "c_state (r_ctrl r') = NVME_CTRL_LIVE"
      "ctrl_ok ext {0..<c_queue_count (r_ctrl r')} {0..<c_queue_count (r_ctrl r')} (B \<union> async_objs \<union> blk_objs new r) r'"
      "c_opts (r_ctrl r') = c_opts (r_ctrl r)" "lworks (r_ctrl r') = lworks (r_ctrl r)"
      "c_icdoff (r_ctrl r') = 0" "c_sgls (r_ctrl r') AND SGLS_KEYED \<noteq> 0"
  | (unusable) "ret = 0" "ctrl_ok ext {} {} B r'" "steady r r'"
      "c_icdoff (r_ctrl r') \<noteq> 0 \<or> c_sgls (r_ctrl r') AND SGLS_KEYED = 0"
  | (failed) "ret \<noteq> 0" "ctrl_ok ext {} {} B r'" "steady r r'"
proof (rule setup_ctrl_result[OF r B(1) B(2) env c])
  fix s
  assume usable: "ctrl_ok ext {0..<c_queue_count (r_ctrl s)} {0..<c_queue_count (r_ctrl s)}
      (B \<union> async_objs \<union> (if new then admin_objs else {}) \<union>
        (if new \<and> c_queue_count (r_ctrl r) > 1 then io_objs else {})) s"
    "steady r s" "c_icdoff (r_ctrl s) = 0" "c_sgls (r_ctrl s) AND SGLS_KEYED \<noteq> 0"
    "(ret, r') = go_live e new (on_ctrl (se_others e) s)"
    "c_queue_count (r_ctrl r) \<le> 1 \<Longrightarrow> c_queue_count (r_ctrl s) = c_queue_count (r_ctrl r)"
  have sst: "c_state (r_ctrl s) = NVME_CTRL_CONNECTING" "c_opts (r_ctrl s) = c_opts (r_ctrl r)"
    "lworks (r_ctrl s) = lworks (r_ctrl r)"
    using usable(2) st by (simp_all add: steady_def lworks_def)
  note g = go_live_connecting[OF sst(1), where e = e and new = new]
  have "on_ctrl (se_others e) s = s" using alone sst(1) by (simp add: on_ctrl_def)
  then have r': "(ret, r') = go_live e new s" using usable(5) by simp
  then have p: "ret = fst (go_live e new s)" "r' = snd (go_live e new s)" by (metis fst_conv, metis snd_conv)
  have "B \<union> async_objs \<union> (if new then admin_objs else {}) \<union>
      (if new \<and> 1 < c_queue_count (r_ctrl r) then io_objs else {}) = B \<union> async_objs \<union> blk_objs new r"
    by (auto simp: blk_objs_def)
  with usable(1) have ok: "ctrl_ok ext {0..<c_queue_count (r_ctrl s)} {0..<c_queue_count (r_ctrl s)}
      (B \<union> async_objs \<union> blk_objs new r) s" by (simp only:)
  show thesis by (rule live) (use g ok sst usable(3,4) in \<open>simp_all add: p same_sgl_def\<close>)
next
  fix s
  assume a: "ret = 0" "r' = destroy_admin new s" "ctrl_ok ext {} {} B r'" "steady r r'"
    "c_icdoff (r_ctrl s) \<noteq> 0 \<or> c_sgls (r_ctrl s) AND SGLS_KEYED = 0"
  have "same_sgl s r'" using a(2) destroy_admin_same_sgl by simp
  with a show thesis by (intro unusable) (simp_all add: same_sgl_def)
qed (use failed in blast)

section \<open>When everything succeeds\<close>

definition dev_good :: "queue_env \<Rightarrow> rdma_device list \<Rightarrow> bool" where
  "dev_good e ds \<longleftrightarrow> fst (nvme_rdma_find_get_device (qe_dev e) ds) \<noteq> None"

definition queue_good :: "queue_env \<Rightarrow> bool" where
  "queue_good e \<longleftrightarrow> qe_create_id e = 0 \<and> qe_resolve_addr e = 0 \<and> qe_alloc_cq e = 0 \<and> qe_create_qp e = 0 \<and>
     qe_kcalloc_ring e \<and> qe_kzalloc e = (\<lambda>_. True) \<and> qe_dma_map e = (\<lambda>_. True) \<and> qe_mr_pool_init e = 0 \<and>
     qe_resolve_route e = 0 \<and> qe_connect e = 0 \<and> qe_post_recv e = (\<lambda>_. 0) \<and>
     qe_events e = [ADDR_RESOLVED, ROUTE_RESOLVED, ESTABLISHED] \<and> 0 < qe_wait e"

lemma ring_good:
  assumes "queue_good e"
  shows "fst (alloc_qes e q i n r) = i + n" "r_queues (snd (alloc_qes e q i n r)) = r_queues r"
    "c_opts (r_ctrl (snd (alloc_qes e q i n r))) = c_opts (r_ctrl r)"
    "r_devs (snd (alloc_qes e q i n r)) = r_devs r"
  using assms by (induction n arbitrary: i r) (auto simp: queue_good_def nvme_rdma_alloc_qe_def Let_def)

lemma recvs_good:
  assumes "queue_good e"
  shows "fst (post_recvs e q i n r) = 0" "r_queues (snd (post_recvs e q i n r)) = r_queues r"
    "r_devs (snd (post_recvs e q i n r)) = r_devs r"
  using assms by (induction n arbitrary: i r) (auto simp: queue_good_def nvme_rdma_post_recv_def Let_def)

lemma resolve_good:
  assumes "queue_good e"
  shows "fst (alloc_queue_resolve e i n r) = 0" "r_devs (snd (alloc_queue_resolve e i n r)) = r_devs r"
    "length (r_queues (snd (alloc_queue_resolve e i n r))) = length (r_queues r)"
  using assms by (simp_all add: alloc_queue_resolve_def queue_good_def set_cm_error_def Let_def)

lemma addr_good:
  assumes "queue_good e" and "dev_good e (r_devs r)"
  shows "fst (nvme_rdma_addr_resolved e i r) = 0"
    "length (r_queues (snd (nvme_rdma_addr_resolved e i r))) = length (r_queues r)"
  using assms by (auto simp: nvme_rdma_addr_resolved_def nvme_rdma_create_queue_ib_def nvme_rdma_alloc_ring_def
      nvme_rdma_create_qp_def dev_good_def ring_good upd_queue_def queue_good_def Let_def split_beta)

lemma addr_good_devs:
  assumes "queue_good e" and "dev_good e (r_devs r)"
  shows "r_devs (snd (nvme_rdma_addr_resolved e i r)) = snd (nvme_rdma_find_get_device (qe_dev e) (r_devs r))"
  using assms by (auto simp: nvme_rdma_addr_resolved_def nvme_rdma_create_queue_ib_def nvme_rdma_alloc_ring_def
      nvme_rdma_create_qp_def dev_good_def ring_good upd_queue_def queue_good_def Let_def split_beta)

lemma route_good:
  assumes "queue_good e"
  shows "nvme_rdma_route_resolved e i r = (0, snd (nvme_rdma_route_resolved e i r))"
    "r_queues (snd (nvme_rdma_route_resolved e i r)) = r_queues r"
    "r_devs (snd (nvme_rdma_route_resolved e i r)) = r_devs r"
  using assms by (auto simp: nvme_rdma_route_resolved_def queue_good_def Let_def split_beta)

text \<open>The three events of a successful connection, run by the handler.\<close>

lemma alloc_queue_good:
  assumes e: "queue_good e" and d: "dev_good e (r_devs r)" and i: "i < length (r_queues r)"
  shows "fst (nvme_rdma_alloc_queue e i n r) = 0"
    "r_devs (snd (nvme_rdma_alloc_queue e i n r)) = snd (nvme_rdma_find_get_device (qe_dev e) (r_devs r))"
    "cm_events_ok e i (qe_events e) Cm_addr (snd (alloc_queue_resolve e i n r))"
proof -
  define r0 where "r0 = snd (alloc_queue_resolve e i n r)"
  have r0: "alloc_queue_resolve e i n r = (0, r0)" "r_devs r0 = r_devs r" "length (r_queues r0) = length (r_queues r)"
    using resolve_good[OF e, of i n r] by (simp_all add: r0_def prod_eq_iff)
  define r1 where "r1 = snd (nvme_rdma_addr_resolved e i (qemit i (Cm_event ADDR_RESOLVED) r0))"
  have d0: "dev_good e (r_devs (qemit i (Cm_event ADDR_RESOLVED) r0))" using d r0 by simp
  have r1: "nvme_rdma_addr_resolved e i (qemit i (Cm_event ADDR_RESOLVED) r0) = (0, r1)"
    "length (r_queues r1) = length (r_queues r)"
    "r_devs r1 = snd (nvme_rdma_find_get_device (qe_dev e) (r_devs r))"
    using addr_good[OF e d0, of i] addr_good_devs[OF e d0, of i] r0 by (simp_all add: r1_def prod_eq_iff)
  define r2 where "r2 = snd (nvme_rdma_route_resolved e i (qemit i (Cm_event ROUTE_RESOLVED) r1))"
  have r2: "nvme_rdma_route_resolved e i (qemit i (Cm_event ROUTE_RESOLVED) r1) = (0, r2)"
    "r_queues r2 = r_queues r1" "r_devs r2 = r_devs r1"
    using route_good[OF e, of i "qemit i (Cm_event ROUTE_RESOLVED) r1"] by (simp_all add: r2_def)
  define r3 where "r3 = snd (nvme_rdma_conn_established e i (qemit i (Cm_event ESTABLISHED) r2))"
  have r3: "nvme_rdma_conn_established e i (qemit i (Cm_event ESTABLISHED) r2) = (0, r3)"
    "r_queues r3 = r_queues r2" "r_devs r3 = r_devs r2"
    using recvs_good[OF e] by (simp_all add: r3_def nvme_rdma_conn_established_def prod_eq_iff)
  have f: "fold (nvme_rdma_cm_handler e i) (qe_events e) r0 = complete_cm i (set_cm_error i 0 r3)"
    using e r1 r2 r3 by (simp add: queue_good_def nvme_rdma_cm_handler_def cm_event_action_def)
  have i3: "i < length (r_queues r3)" using i r1 r2 r3 by simp
  show "cm_events_ok e i (qe_events e) Cm_addr (snd (alloc_queue_resolve e i n r))"
    using e r0 r1 r2 r3 by (simp add: queue_good_def nvme_rdma_cm_handler_def cm_event_action_def cm_step_def)
  let ?a = "nvme_rdma_alloc_queue e i n r"
  have "fst ?a = 0 \<and> r_devs (snd ?a) = r_devs r3"
    using e i3 unfolding nvme_rdma_alloc_queue_def r0(1) Let_def split_beta fst_conv snd_conv f
    by (simp add: nvme_rdma_wait_for_cm_def queue_good_def complete_cm_def set_cm_error_def Let_def)
  with r1 r2 r3 show "fst ?a = 0" "r_devs (snd ?a) = snd (nvme_rdma_find_get_device (qe_dev e) (r_devs r))"
    by simp_all
qed

text \<open>Configuring the admin queue succeeds when each of its steps does.\<close>

definition admin_good :: "setup_env \<Rightarrow> nvme_rdma_ctrl \<Rightarrow> bool" where
  "admin_good e r \<longleftrightarrow> queue_good (se_admin e) \<and> dev_good (se_admin e) (r_devs r) \<and> se_async_kzalloc e \<and>
     se_async_map e \<and> se_admin_tagset e = 0 \<and> se_fabrics_q e = 0 \<and> se_admin_q e = 0 \<and> se_connect_alloc e"

lemma configure_admin_good:
  assumes g: "admin_good e r" and i: "0 < length (r_queues r)"
    and submit: "\<And>cmd data. se_submit e cmd data = (0, v)"
    and enable: "\<And>c. fst (nvme_enable_ctrl (se_regs e) c) = 0"
    and ident: "\<And>c. c_cntlid c = ucast v \<Longrightarrow> c_opts c = c_opts (r_ctrl r) \<Longrightarrow> fst (nvme_init_identify (se_identify e) c) = 0"
  obtains s where "nvme_rdma_configure_admin_queue e new r = (0, s\<lparr>r_ctrl := snd (nvme_init_identify (se_identify e) (r_ctrl s))\<rparr>)"
    "c_cntlid (r_ctrl s) = ucast v" "c_opts (r_ctrl s) = c_opts (r_ctrl r)"
proof -
  obtain s1 where 1: "nvme_rdma_alloc_queue (se_admin e) 0 NVME_AQ_DEPTH r = (0, s1)"
    using alloc_queue_good(1)[of "se_admin e" r 0 NVME_AQ_DEPTH] g i unfolding admin_good_def by (metis prod.collapse)
  let ?s1 = "s1\<lparr>r_device := q_device (queue s1 0),
                r_max_fr_pages := nvme_rdma_get_max_fr_pages (qe_max_fast_reg (se_admin e))\<rparr>"
  obtain s2 where 2: "alloc_async_qe e ?s1 = (0, s2)"
    using g by (auto simp: alloc_async_qe_def admin_good_def Let_def)
  have "fst (if new then create_admin_blk e s2 else (0, s2)) = 0"
    using g by (simp add: create_admin_blk_def nvme_rdma_alloc_tagset_def init_queue_def admin_good_def Let_def)
  then obtain s3 where 3: "(if new then create_admin_blk e s2 else (0, s2)) = (0, s3)"
    by (metis prod.collapse)
  obtain s4 where 4: "start_admin_queue e s3 = (0, s4)" "c_cntlid (r_ctrl s4) = ucast v"
    using g submit by (auto simp: start_admin_queue_def nvmf_connect_admin_queue_def admin_good_def
        nvme_rdma_start_queue_def on_ctrl_def Let_def)
  obtain s5 where 5: "on_ctrl_ret (nvme_enable_ctrl (se_regs e)) s4 = (0, s5)"
    using enable[of "r_ctrl s4"] by (simp add: on_ctrl_ret_def)
  have c5: "c_cntlid (r_ctrl s5) = ucast v"
    using 5 4(2) res_frame_ops(6)[of "r_ctrl s4" "se_regs e" "r_ctrl s4"] by (auto simp: on_ctrl_ret_def res_frame_def)
  let ?s5 = "emit Unquiesce_admin (on_ctrl (\<lambda>c. c\<lparr>c_max_segments := unat (r_max_fr_pages s5),
      c_max_hw_sectors := unat (push_bit 3 (r_max_fr_pages s5))\<rparr>) s5)"
  have "steady_count r s1" using steady_queue(4)[of r "se_admin e" 0 NVME_AQ_DEPTH] 1 by simp
  then have "steady_count r s2"
    using steady_async[of ?s1 e] 2 by (auto intro: steady_count_trans[of r ?s1])
  then have "steady_count r s3"
    using steady_create_blk[of s2 e] 3 by (auto intro: steady_count_trans split: if_splits)
  then have "steady_count r s4" using steady_start_admin[of s3 e] 4 by (auto intro: steady_count_trans)
  then have "steady_count r s5" using steady_enable(1)[of s4 "se_regs e"] 5 by (auto intro: steady_count_trans)
  then have o5: "c_opts (r_ctrl s5) = c_opts (r_ctrl r)" by (simp add: steady_count_def steady_def)
  have c6: "c_cntlid (r_ctrl ?s5) = ucast v" "c_opts (r_ctrl ?s5) = c_opts (r_ctrl r)"
    using c5 o5 by (simp_all add: emit_def on_ctrl_def call_def)
  show thesis
  proof (rule that[OF _ c6])
    have "on_ctrl_ret (nvme_init_identify (se_identify e)) ?s5 =
        (0, ?s5\<lparr>r_ctrl := snd (nvme_init_identify (se_identify e) (r_ctrl ?s5))\<rparr>)"
      using ident[OF c6] by (simp add: on_ctrl_ret_def)
    then show "nvme_rdma_configure_admin_queue e new r =
        (0, ?s5\<lparr>r_ctrl := snd (nvme_init_identify (se_identify e) (r_ctrl ?s5))\<rparr>)"
      by (simp only: nvme_rdma_configure_admin_queue_def Let_def 1 2 3 4 5 prod.case if_False simp_thms)
  qed
qed

section \<open>Setting a controller up is all or nothing\<close>

text \<open>C4. Setting a controller up is all or nothing. Whatever the kernel, the fabric and the controller
  answer, and whatever errors, reset requests and deletion requests arrive before the controller is made live,
  a controller that reaches the live state holds exactly its queues, all live, the asynchronous event buffer,
  and on first set-up the tag sets and block layer queues; one that is still connecting holds exactly what it
  held before, and the set-up reports an error unless the transport cannot use the controller (in-capsule
  data at an offset, or no keyed SGLs). A controller that a deletion took over holds what it held before too,
  and the set-up fails, with two exceptions: its I/O queues keep their live flag although they are freed,
  and on first set-up an I/O tag set and connect queue made for I/O queues it was not granted stay behind.
  The requests act on the controller's state; timeouts of the set-up's own commands are not among them.
\<close>

theorem setup_ctrl_all_or_nothing:
  assumes "ctrl_ok ext {} {} B r" and "B \<inter> async_objs = {}" and "new \<Longrightarrow> B \<inter> (admin_objs \<union> io_objs) = {}"
    and "setup_env_ok e new r" and "c_state (r_ctrl r) = NVME_CTRL_CONNECTING" and "se_others e = arrived qs"
  shows "let (ret, r') = nvme_rdma_setup_ctrl e new r; m = c_queue_count (r_ctrl r); n = c_queue_count (r_ctrl r')
    in case c_state (r_ctrl r') of
        NVME_CTRL_LIVE \<Rightarrow> ret = 0 \<and> Arr_delete \<notin> set qs \<and>
          ctrl_ok ext {0..<n} {0..<n} (B \<union> async_objs \<union> blk_objs new r) r'
      | NVME_CTRL_CONNECTING \<Rightarrow> ctrl_ok ext {} {} B r' \<and>
          (ret \<noteq> 0 \<or> c_icdoff (r_ctrl r') \<noteq> 0 \<or> c_sgls (r_ctrl r') AND SGLS_KEYED = 0)
      | NVME_CTRL_DELETING \<Rightarrow> ret = - EINVAL \<and> Arr_delete \<in> set qs \<and>
          (\<forall>k \<in> {1..<n}. q_live (queue r' k)) \<and>
          ctrl_ok ext {} {} (B \<union> (if new \<and> 1 < m \<and> n = 1 then io_objs else {})) (io_flags_off r')
      | _ \<Rightarrow> False"
proof (cases "nvme_rdma_setup_ctrl e new r")
  case (Pair ret r')
  have B: "new \<Longrightarrow> B \<inter> admin_objs = {} \<and> B \<inter> io_objs = {}" using assms(3) by auto
  from assms(5) have st: "steady r r' \<Longrightarrow> c_state (r_ctrl r') = NVME_CTRL_CONNECTING"
    by (simp add: steady_def)
  show ?thesis
  proof (cases "Arr_delete \<in> set qs")
    case True
    with assms(5) have d: "c_state (r_ctrl r) = NVME_CTRL_CONNECTING \<and> Arr_delete \<in> set qs \<or>
        c_state (r_ctrl r) = NVME_CTRL_DELETING" by simp
    show ?thesis
      by (rule setup_ctrl_interrupted[OF assms(1,2) B assms(4) Pair d assms(6)])
        (use True in \<open>simp_all add: Pair Let_def st io_leftover_def\<close>)
  next
    case False
    then have a: "\<forall>c. c_state c = NVME_CTRL_CONNECTING \<longrightarrow> se_others e c = c" using assms(6) by (simp add: arrived_connecting)
    show ?thesis
      by (rule setup_ctrl_outcome[OF assms(1,2) B assms(4) Pair assms(5) a])
        (use False in \<open>simp_all add: Pair Let_def st\<close>)
  qed
qed

definition discctrl0 :: nvme_rdma_ctrl where
  "discctrl0 = on_ctrl (\<lambda>c. c\<lparr>c_queue_count := 1, c_state := NVME_CTRL_CONNECTING, c_sqsize := 127,
     c_opts := opts0\<lparr>o_nr_io_queues := 0, o_discovery_nqn := True\<rparr>\<rparr>) (rctrl0 1)"

definition setupenv0 :: setup_env where
  "setupenv0 = \<lparr>se_admin = qenv0, se_io = ioenv0, se_async_kzalloc = True, se_async_map = True,
     se_admin_tagset = 0, se_fabrics_q = 0, se_admin_q = 0, se_io_tagset = 0, se_connect_q = 0,
     se_connect_alloc = True, se_submit = (\<lambda>_ _. (0, 3)), se_hosts = [], se_regs = regenv0,
     se_identify = identenv0, se_others = (\<lambda>c. c)\<rparr>"

lemma discctrl0_fields:
  "c_opts (r_ctrl discctrl0) = opts0\<lparr>o_nr_io_queues := 0, o_discovery_nqn := True\<rparr>"
  "c_queue_count (r_ctrl discctrl0) = 1" "c_state (r_ctrl discctrl0) = NVME_CTRL_CONNECTING"
  "r_devs discctrl0 = []" "length (r_queues discctrl0) = 1"
  by (simp_all add: discctrl0_def on_ctrl_def rctrl0_def)

lemma discctrl0_ok: "ctrl_ok (\<lambda>_. 0) {} {} {} discctrl0"
proof -
  have "queues_ok (\<lambda>_. 0) {} {} discctrl0 = queues_ok (\<lambda>_. 0) {} {} (rctrl0 1)"
    by (intro queues_ok_cong) (simp_all add: discctrl0_def on_ctrl_def held_def queue_calls_def)
  then show ?thesis
    using rctrl0_queues_ok[of 1]
    by (simp add: ctrl_ok_def queue_array_ok_def)
      (simp add: discctrl0_def on_ctrl_def rctrl0_def blk_held_def blk_calls_def nvme_init_ctrl_def opts0_def)
qed

lemma regenv0_enable: "fst (nvme_enable_ctrl regenv0 c) = 0"
  by (simp add: nvme_enable_ctrl_def nvme_wait_ready_def regenv0_def poll_csts.simps ready_check_def
      msleep_jiffies_def Let_def split_beta)

lemma identenv0_good: "c_cntlid c = 3 \<Longrightarrow> fst (nvme_init_identify identenv0 c) = 0"
  by (simp add: identify_example_defs Let_def)

text \<open>Any fresh controller with only an admin queue behaves like this one.\<close>

definition admin_only :: "nvme_rdma_ctrl \<Rightarrow> bool" where
  "admin_only r \<longleftrightarrow> c_queue_count (r_ctrl r) = 1 \<and> c_state (r_ctrl r) = NVME_CTRL_CONNECTING \<and>
     r_devs r = [] \<and> length (r_queues r) = 1"

lemma admin_onlyD:
  assumes "admin_only r"
  shows "c_queue_count (r_ctrl r) = 1" "c_state (r_ctrl r) = NVME_CTRL_CONNECTING" "r_devs r = []"
    "length (r_queues r) = 1"
  using assms by (simp_all add: admin_only_def)

lemma discctrl0_admin_only: "admin_only discctrl0"
  by (simp add: admin_only_def discctrl0_fields)

lemma setupenv0_good: "admin_only r \<Longrightarrow> admin_good setupenv0 r"
  by (simp add: admin_good_def setupenv0_def queue_good_def dev_good_def qenv0_def admin_only_def
      nvme_rdma_find_get_device_def)

lemma identenv0_caps:
  assumes "c_cntlid c = 3"
  shows "c_icdoff (snd (nvme_init_identify identenv0 c)) = 0" "c_sgls (snd (nvme_init_identify identenv0 c)) = 0x100005"
    "c_queue_count (snd (nvme_init_identify identenv0 c)) = c_queue_count c"
  using assms by (simp_all add: identify_example_defs Let_def)

lemma setup_admin_only:
  assumes a: "admin_only r"
  shows "c_state (r_ctrl (snd (nvme_rdma_setup_ctrl setupenv0 True r))) = NVME_CTRL_LIVE"
proof -
  have sub: "se_submit setupenv0 cmd data = (0, 3)" "se_regs setupenv0 = regenv0" "se_identify setupenv0 = identenv0"
    "se_others setupenv0 = (\<lambda>c. c)" for cmd data
    by (simp_all add: setupenv0_def)
  obtain s where s: "nvme_rdma_configure_admin_queue setupenv0 True r =
      (0, s\<lparr>r_ctrl := snd (nvme_init_identify identenv0 (r_ctrl s))\<rparr>)" "c_cntlid (r_ctrl s) = 3"
    by (rule configure_admin_good[OF setupenv0_good[OF a], where v = 3 and new = True])
      (simp_all add: sub regenv0_enable identenv0_good admin_onlyD[OF a])
  let ?s = "s\<lparr>r_ctrl := snd (nvme_init_identify identenv0 (r_ctrl s))\<rparr>"
  have st: "steady_count r ?s" using steady_configure_admin[of r setupenv0 True] s(1) by simp
  then have q: "c_queue_count (r_ctrl (prepare_io ?s)) = 1" by (simp add: steady_count_def admin_onlyD[OF a])
  have "steady_count r (prepare_io ?s)" using st by (simp add: prepare_io_def Let_def)
  then have c: "c_state (r_ctrl (prepare_io ?s)) = NVME_CTRL_CONNECTING"
    by (simp add: steady_count_def steady_def admin_onlyD[OF a])
  have "nvme_rdma_setup_ctrl setupenv0 True r = go_live setupenv0 True (prepare_io ?s)"
    using identenv0_caps[OF s(2)] q by (simp add: nvme_rdma_setup_ctrl_def s(1) sub Let_def)
  with go_live_connecting(2)[OF c] show ?thesis by simp
qed

lemma setupenv0_ok:
  assumes a: "admin_only r"
  shows "setup_env_ok setupenv0 True r"
proof -
  have q: "queue_good qenv0" "dev_good qenv0 (r_devs r)"
    using setupenv0_good[OF a] by (simp_all add: admin_good_def setupenv0_def)
  have "cm_events_ok qenv0 0 (qe_events qenv0) Cm_addr (snd (alloc_queue_resolve qenv0 0 NVME_AQ_DEPTH r))"
    by (rule alloc_queue_good(3)[OF q]) (simp add: admin_onlyD[OF a])
  then have "admin_env_ok setupenv0 r"
    by (simp add: admin_env_ok_def setupenv0_def admin_onlyD[OF a] dev_env_ok_def) (simp add: qenv0_def)
  moreover have "c_queue_count (r_ctrl (snd (nvme_rdma_configure_admin_queue setupenv0 True r))) = 1"
    using steady_configure_admin[of r setupenv0 True] by (simp add: steady_count_def admin_onlyD[OF a])
  ultimately show ?thesis by (simp add: setup_env_ok_def split_beta)
qed

theorem setup_ctrl_all_or_nothing_witness:
  "ctrl_ok (\<lambda>_. 0) {0..<c_queue_count (r_ctrl (snd (nvme_rdma_setup_ctrl setupenv0 True discctrl0)))}
     {0..<c_queue_count (r_ctrl (snd (nvme_rdma_setup_ctrl setupenv0 True discctrl0)))}
     (async_objs \<union> admin_objs) (snd (nvme_rdma_setup_ctrl setupenv0 True discctrl0))"
proof -
  have b: "blk_objs True discctrl0 = admin_objs" by (simp add: blk_objs_def discctrl0_fields)
  have oth: "se_others setupenv0 = arrived []" by (simp add: setupenv0_def arrived_def fun_eq_iff)
  show ?thesis
    using setup_ctrl_all_or_nothing[OF discctrl0_ok _ _ setupenv0_ok[OF discctrl0_admin_only] discctrl0_fields(3) oth] setup_admin_only[OF discctrl0_admin_only] b
    by (simp add: split_beta Let_def)
qed

end
