(* ===== verification/Ctrl_Lifecycle.thy ===== *)
theory Ctrl_Lifecycle
  imports Ctrl_Setup
begin

text \<open>
  A controller's life after its creation, as a step relation over the works and requests that drive it,
  with the invariant that ties its state to what it holds and to the work that is pending.
\<close>

section \<open>Steps\<close>

text \<open>
  The works run one at a time, in any order the queueing of the works allows, and a timeout is handled
  between them. Errors, reset requests and deletion requests may arrive at any moment, also while a work sets
  the controller up: those that arrive then act before it would be made live (\<open>se_others\<close>).
\<close>

datatype life_event =
    Link_error
  | Request_timeout
  | Run_recovery
  | Run_reconnect setup_env
  | Reset_request
  | Run_reset reg_env setup_env
  | Delete_request

definition started :: "work \<Rightarrow> nvme_rdma_ctrl \<Rightarrow> nvme_rdma_ctrl" where
  "started w r = on_ctrl (work_started w) r"

text \<open>The recovery that a timeout waits for.\<close>

definition flush_recovery :: "nvme_rdma_ctrl \<Rightarrow> nvme_rdma_ctrl" where
  "flush_recovery r =
     (if Err_work \<in> c_pending (r_ctrl r) then nvme_rdma_error_recovery_work (started Err_work r) else r)"

fun life_do :: "life_event \<Rightarrow> nvme_rdma_ctrl \<Rightarrow> nvme_rdma_ctrl" where
  "life_do Link_error r = nvme_rdma_error_recovery r"
| "life_do Request_timeout r = snd (nvme_rdma_timeout flush_recovery r)"
| "life_do Run_recovery r = nvme_rdma_error_recovery_work (started Err_work r)"
| "life_do (Run_reconnect e) r = nvme_rdma_reconnect_ctrl_work e (started Reconnect_work r)"
| "life_do Reset_request r = on_ctrl (\<lambda>c. snd (nvme_reset_ctrl c)) r"
| "life_do (Run_reset re se) r = nvme_rdma_reset_ctrl_work re se (started Reset_work r)"
| "life_do Delete_request r = on_ctrl (\<lambda>c. snd (nvme_delete_ctrl c)) r"

text \<open>The controller a reset sets up again.\<close>

definition reset_down :: "reg_env \<Rightarrow> nvme_rdma_ctrl \<Rightarrow> nvme_rdma_ctrl" where
  "reset_down re r =
     snd (on_ctrl_ret (nvme_change_ctrl_state NVME_CTRL_CONNECTING)
       (nvme_rdma_shutdown_ctrl re False (on_ctrl nvme_stop_ctrl r)))"

definition attempt :: "nvme_rdma_ctrl \<Rightarrow> nvme_rdma_ctrl" where
  "attempt r = on_ctrl (\<lambda>c. c\<lparr>c_nr_reconnects := c_nr_reconnects c + 1\<rparr>) (started Reconnect_work r)"

fun life_enabled :: "life_event \<Rightarrow> nvme_rdma_ctrl \<Rightarrow> bool" where
  "life_enabled Run_recovery r = (Err_work \<in> c_pending (r_ctrl r))"
| "life_enabled (Run_reconnect e) r =
     (Reconnect_work \<in> c_pending (r_ctrl r) \<and> setup_env_ok e False (attempt r) \<and>
      (\<exists>qs. se_others e = arrived qs))"
| "life_enabled (Run_reset re se) r =
     (Reset_work \<in> c_pending (r_ctrl r) \<and>
      (c_state (r_ctrl (reset_down re (started Reset_work r))) = NVME_CTRL_CONNECTING \<longrightarrow>
         setup_env_ok se False (reset_down re (started Reset_work r)) \<and> (\<exists>qs. se_others se = arrived qs)))"
| "life_enabled _ r = True"

text \<open>A deletion that overtakes a set-up leaves I/O queues flagged live that are not allocated any more.\<close>

definition dangling :: "nvme_rdma_ctrl \<Rightarrow> bool" where
  "dangling r \<longleftrightarrow> (\<exists>k \<in> {1..<c_queue_count (r_ctrl r)}. q_live (queue r k) \<and> \<not> q_allocated (queue r k))"

text \<open>The controllers a life reaches, and whether a queue has been left dangling on the way.\<close>

inductive life_reach :: "nvme_rdma_ctrl \<Rightarrow> bool \<Rightarrow> nvme_rdma_ctrl \<Rightarrow> bool" for r0 where
  start: "life_reach r0 False r0"
| step: "life_reach r0 lost r \<Longrightarrow> life_enabled ev r \<Longrightarrow> life_reach r0 (lost \<or> dangling (life_do ev r)) (life_do ev r)"

section \<open>The invariant\<close>

definition ctrl_down :: "(nat \<Rightarrow> nat) \<Rightarrow> bobj set \<Rightarrow> nvme_rdma_ctrl \<Rightarrow> bool" where
  "ctrl_down ext D r \<longleftrightarrow> D \<inter> async_objs = {} \<and> ctrl_ok ext {} {} D r"

definition ctrl_up :: "(nat \<Rightarrow> nat) \<Rightarrow> bobj set \<Rightarrow> nvme_rdma_ctrl \<Rightarrow> bool" where
  "ctrl_up ext D r \<longleftrightarrow> D \<inter> async_objs = {} \<and>
     ctrl_ok ext {0..<c_queue_count (r_ctrl r)} {0..<c_queue_count (r_ctrl r)} (D \<union> async_objs) r"

definition usable :: "nvme_rdma_ctrl \<Rightarrow> bool" where
  "usable r \<longleftrightarrow> c_icdoff (r_ctrl r) = 0 \<and> c_sgls (r_ctrl r) AND SGLS_KEYED \<noteq> 0"

text \<open>
  Per state, what is held and which work is pending; a connecting controller that is not usable may have
  none.
\<close>

definition life_inv :: "(nat \<Rightarrow> nat) \<Rightarrow> bobj set \<Rightarrow> nvme_rdma_ctrl \<Rightarrow> bool" where
  "life_inv ext D r \<longleftrightarrow>
     (case c_state (r_ctrl r) of
        NVME_CTRL_LIVE \<Rightarrow> ctrl_up ext D r \<and> lworks (r_ctrl r) = {}
      | NVME_CTRL_RESETTING \<Rightarrow> ctrl_up ext D r \<and> (lworks (r_ctrl r) = {Err_work} \<or> lworks (r_ctrl r) = {Reset_work})
      | NVME_CTRL_CONNECTING \<Rightarrow>
          ctrl_down ext D r \<and>
          (lworks (r_ctrl r) = {Reconnect_work} \<or> lworks (r_ctrl r) = {} \<and> \<not> usable r)
      | NVME_CTRL_DELETING \<Rightarrow> (ctrl_up ext D r \<or> ctrl_down ext D r) \<and> Delete_work \<in> lworks (r_ctrl r)
      | _ \<Rightarrow> False)"

lemma lworks_mem: "w \<in> life_works \<Longrightarrow> w \<in> c_pending c \<longleftrightarrow> w \<in> lworks c"
  by (simp add: lworks_def)

lemma started_fields [simp]:
  "c_state (r_ctrl (started w r)) = c_state (r_ctrl r)" "c_opts (r_ctrl (started w r)) = c_opts (r_ctrl r)"
  "c_nr_reconnects (r_ctrl (started w r)) = c_nr_reconnects (r_ctrl r)"
  "c_queue_count (r_ctrl (started w r)) = c_queue_count (r_ctrl r)"
  "lworks (r_ctrl (started w r)) = lworks (r_ctrl r) - {w}"
  "usable (started w r) = usable r"
  by (auto simp: started_def on_ctrl_def work_started_def lworks_def usable_def)

lemma up_down_frame:
  assumes "ctrl_frame (r_ctrl r) c"
  shows "ctrl_up ext D (r\<lparr>r_ctrl := c\<rparr>) = ctrl_up ext D r" "ctrl_down ext D (r\<lparr>r_ctrl := c\<rparr>) = ctrl_down ext D r"
proof -
  have "ctrl_ok ext U L B (r\<lparr>r_ctrl := c\<rparr>) = ctrl_ok ext U L B r" for U L B
    using assms by (intro ctrl_ok_cong) (simp_all add: ctrl_frame_def)
  then show "ctrl_up ext D (r\<lparr>r_ctrl := c\<rparr>) = ctrl_up ext D r" "ctrl_down ext D (r\<lparr>r_ctrl := c\<rparr>) = ctrl_down ext D r"
    using assms by (simp_all add: ctrl_up_def ctrl_down_def ctrl_frame_def)
qed

lemma up_down_started [simp]:
  "ctrl_up ext D (started w r) = ctrl_up ext D r" "ctrl_down ext D (started w r) = ctrl_down ext D r"
  by (simp_all add: started_def on_ctrl_def work_started_def up_down_frame)

lemma up_down_on_ctrl:
  assumes "ctrl_frame (r_ctrl r) (f (r_ctrl r))"
  shows "ctrl_up ext D (on_ctrl f r) = ctrl_up ext D r" "ctrl_down ext D (on_ctrl f r) = ctrl_down ext D r"
  using up_down_frame[OF assms] by (simp_all add: on_ctrl_def)

lemma up_down_emit [simp]:
  "\<not> material k \<Longrightarrow> ctrl_up ext D (emit k r) = ctrl_up ext D r"
  "\<not> material k \<Longrightarrow> ctrl_down ext D (emit k r) = ctrl_down ext D r"
  by (simp_all add: ctrl_up_def ctrl_down_def)

lemma emit_life_fields [simp]:
  "c_state (r_ctrl (emit k r)) = c_state (r_ctrl r)" "lworks (r_ctrl (emit k r)) = lworks (r_ctrl r)"
  "usable (emit k r) = usable r" "c_nr_reconnects (r_ctrl (emit k r)) = c_nr_reconnects (r_ctrl r)"
  by (simp_all add: emit_def usable_def call_def lworks_def)

section \<open>Single steps\<close>

lemma recovery_cases:
  "nvme_rdma_error_recovery r =
     (if c_state (r_ctrl r) = NVME_CTRL_NEW \<or> c_state (r_ctrl r) = NVME_CTRL_LIVE
      then r\<lparr>r_ctrl := snd (queue_work Err_work (snd (nvme_change_ctrl_state NVME_CTRL_RESETTING (r_ctrl r))))\<rparr>
      else r)"
  by (cases "c_state (r_ctrl r)") (simp_all add: nvme_rdma_error_recovery_def nvme_change_ctrl_state_def Let_def)

lemma inv_link_error: "life_inv ext D r \<Longrightarrow> life_inv ext D (nvme_rdma_error_recovery r)"
  by (cases "c_state (r_ctrl r)") (simp_all add: recovery_cases life_inv_def up_down_frame)

lemma request_cases:
  "on_ctrl (\<lambda>c. snd (nvme_reset_ctrl c)) r =
     (if c_state (r_ctrl r) = NVME_CTRL_NEW \<or> c_state (r_ctrl r) = NVME_CTRL_LIVE
      then r\<lparr>r_ctrl := snd (queue_work Reset_work (snd (nvme_change_ctrl_state NVME_CTRL_RESETTING (r_ctrl r))))\<rparr>
      else r)"
  "on_ctrl (\<lambda>c. snd (nvme_delete_ctrl c)) r =
     (if c_state (r_ctrl r) \<in> {NVME_CTRL_LIVE, NVME_CTRL_RESETTING, NVME_CTRL_CONNECTING}
      then r\<lparr>r_ctrl := snd (queue_work Delete_work (snd (nvme_change_ctrl_state NVME_CTRL_DELETING (r_ctrl r))))\<rparr>
      else r)"
  by (cases "c_state (r_ctrl r)"; simp add: on_ctrl_def nvme_reset_ctrl_def nvme_delete_ctrl_def
      nvme_change_ctrl_state_def Let_def split_beta)+

lemma inv_reset_request: "life_inv ext D r \<Longrightarrow> life_inv ext D (on_ctrl (\<lambda>c. snd (nvme_reset_ctrl c)) r)"
  by (cases "c_state (r_ctrl r)") (simp_all add: request_cases life_inv_def up_down_frame)

lemma delete_result:
  assumes "c_state (r_ctrl r) \<in> {NVME_CTRL_LIVE, NVME_CTRL_RESETTING, NVME_CTRL_CONNECTING}"
    and "ctrl_up ext D r \<or> ctrl_down ext D r"
  shows "life_inv ext D (on_ctrl (\<lambda>c. snd (nvme_delete_ctrl c)) r)"
  unfolding request_cases using assms by (auto simp: life_inv_def up_down_frame)

lemma inv_delete_request: "life_inv ext D r \<Longrightarrow> life_inv ext D (on_ctrl (\<lambda>c. snd (nvme_delete_ctrl c)) r)"
  by (cases "c_state (r_ctrl r)")
    (use delete_result[of r ext D] in \<open>simp_all add: life_inv_def, auto simp: request_cases\<close>)

section \<open>Tearing down for a reconnect\<close>

lemma steady_teardown:
  "steady_count r (nvme_rdma_teardown_admin_queue b r)" "steady_count r (nvme_rdma_teardown_io_queues b r)"
proof -
  have p: "steady_count r0 (cancel_busy p a s) = steady_count r0 s" for r0 p a s by (simp add: cancel_busy_def)
  show "steady_count r (nvme_rdma_teardown_admin_queue b r)"
    unfolding nvme_rdma_teardown_admin_queue_def Let_def
    by (rule steady_op[OF steady_destroy(1)]) (simp add: p steady_op[of "nvme_rdma_stop_queue 0"])
  show "steady_count r (nvme_rdma_teardown_io_queues b r)"
    unfolding nvme_rdma_teardown_io_queues_def Let_def
    by (auto intro!: steady_op[OF steady_destroy(2)] simp: p steady_op[of nvme_rdma_stop_io_queues])
qed

lemma steady_state:
  assumes "steady_count r r'" and "c_state (r_ctrl r) \<in> {NVME_CTRL_RESETTING, NVME_CTRL_CONNECTING, NVME_CTRL_DELETING}"
  shows "c_state (r_ctrl r') = c_state (r_ctrl r) \<and> lworks (r_ctrl r') = lworks (r_ctrl r)"
  using assms by (auto simp: steady_count_def steady_def lworks_def)

lemma r_ctrl_on: "r_ctrl (on_ctrl f r) = f (r_ctrl r)"
  by (simp add: on_ctrl_def)

text \<open>Whatever harmless steps come between the two halves.\<close>

lemma teardown_down:
  assumes "ctrl_up ext D r \<or> ctrl_down ext D r"
    and mid: "\<And>V M C s. ctrl_ok ext V M C s \<Longrightarrow> ctrl_ok ext V M C (f s)"
  shows "ctrl_down ext D (nvme_rdma_teardown_admin_queue False (f (nvme_rdma_teardown_io_queues False r)))"
proof -
  from assms(1) obtain U L B where r: "ctrl_ok ext U L B r" "U \<subseteq> {0..<c_queue_count (r_ctrl r)}"
    and D: "D \<inter> async_objs = {}" "B - async_objs = D"
    by (auto simp: ctrl_up_def ctrl_down_def)
  have "ctrl_ok ext {} {} (B - async_objs - (if False then admin_objs else {}) -
       (if False \<and> c_queue_count (r_ctrl r) > 1 then io_objs else {}))
     (nvme_rdma_teardown_admin_queue False (f (nvme_rdma_teardown_io_queues False r)))"
    by (rule teardown_all_ok[OF r]) (use mid in simp_all)
  with D show ?thesis by (simp add: ctrl_down_def)
qed

lemma reconnect_or_remove_inv:
  assumes "c_state (r_ctrl r) = NVME_CTRL_CONNECTING" and "ctrl_down ext D r" and "lworks (r_ctrl r) \<subseteq> {Reconnect_work}"
  shows "life_inv ext D (nvme_rdma_reconnect_or_remove r)"
proof (cases "nvmf_should_reconnect (r_ctrl r)")
  case True
  with assms show ?thesis
    by (auto simp: nvme_rdma_reconnect_or_remove_def Let_def life_inv_def on_ctrl_def up_down_frame)
next
  case False
  with assms(1) have "nvme_rdma_reconnect_or_remove r = on_ctrl (\<lambda>c. snd (nvme_delete_ctrl c)) r"
    by (simp add: nvme_rdma_reconnect_or_remove_def)
  with assms delete_result[of r ext D] show ?thesis by simp
qed

lemma reconnect_or_remove_down:
  assumes "ctrl_down ext D r"
  shows "ctrl_down ext D (nvme_rdma_reconnect_or_remove r)"
  using assms
  by (auto simp: nvme_rdma_reconnect_or_remove_def Let_def on_ctrl_def up_down_frame)

text \<open>From the connecting state, down, to the end of the recovery; a controller being deleted stays so.\<close>

definition winding_down :: "(nat \<Rightarrow> nat) \<Rightarrow> bobj set \<Rightarrow> nvme_rdma_ctrl \<Rightarrow> bool" where
  "winding_down ext D r \<longleftrightarrow> (ctrl_up ext D r \<or> ctrl_down ext D r) \<and>
     (c_state (r_ctrl r) = NVME_CTRL_RESETTING \<and> lworks (r_ctrl r) = {} \<or>
      c_state (r_ctrl r) = NVME_CTRL_DELETING \<and> Delete_work \<in> lworks (r_ctrl r))"

lemma inv_recovery:
  assumes "winding_down ext D r"
  shows "life_inv ext D (nvme_rdma_error_recovery_work r) \<and>
    (c_state (r_ctrl r) = NVME_CTRL_DELETING \<longrightarrow> c_state (r_ctrl (nvme_rdma_error_recovery_work r)) = NVME_CTRL_DELETING) \<and>
    ctrl_down ext D (nvme_rdma_error_recovery_work r)"
proof -
  let ?r0 = "on_ctrl nvme_stop_keep_alive r"
  let ?r1 = "emit Unquiesce_admin (nvme_rdma_teardown_admin_queue False
      (emit Start_queues (nvme_rdma_teardown_io_queues False ?r0)))"
  have r0: "ctrl_up ext D ?r0 \<or> ctrl_down ext D ?r0" using assms by (simp add: winding_down_def up_down_on_ctrl)
  have d: "ctrl_down ext D ?r1"
    using teardown_down[OF r0, of "emit Start_queues"] by simp
  have st: "steady_count ?r0 ?r1"
    unfolding steady_upd(1) by (rule steady_op[OF steady_teardown(1)]) (simp add: steady_teardown(2))
  have s: "c_state (r_ctrl ?r1) = c_state (r_ctrl r)" "lworks (r_ctrl ?r1) = lworks (r_ctrl r)"
    using steady_state[OF st] assms by (auto simp: winding_down_def r_ctrl_on)
  let ?c = "snd (nvme_change_ctrl_state NVME_CTRL_CONNECTING (r_ctrl ?r1))"
  let ?r2 = "?r1\<lparr>r_ctrl := ?c\<rparr>"
  have d2: "ctrl_down ext D ?r2" using d by (subst up_down_frame) simp_all
  have run: "nvme_rdma_error_recovery_work r =
      (if \<not> ctrl_transition (c_state (r_ctrl ?r1)) NVME_CTRL_CONNECTING
       then (if c_state (r_ctrl ?r2) \<noteq> NVME_CTRL_DELETING then emit Warn_once ?r2 else ?r2)
       else nvme_rdma_reconnect_or_remove ?r2)"
    unfolding nvme_rdma_error_recovery_work_def Let_def on_ctrl_ret_def prod.case change_state_result(1) by (rule HOL.refl)
  from assms consider (reset) "c_state (r_ctrl r) = NVME_CTRL_RESETTING" "lworks (r_ctrl r) = {}"
    | (del) "c_state (r_ctrl r) = NVME_CTRL_DELETING" "Delete_work \<in> lworks (r_ctrl r)"
    by (auto simp: winding_down_def)
  then show ?thesis
  proof cases
    case reset
    then have "c_state (r_ctrl ?r1) = NVME_CTRL_RESETTING" "lworks (r_ctrl ?r1) = {}" using s by simp_all
    then have "c_state (r_ctrl ?r2) = NVME_CTRL_CONNECTING" "lworks (r_ctrl ?r2) \<subseteq> {Reconnect_work}"
      "ctrl_transition (c_state (r_ctrl ?r1)) NVME_CTRL_CONNECTING"
      unfolding nvme_rdma_ctrl.simps(1) by (simp_all del: emit_life_fields)
    with reconnect_or_remove_inv[OF _ d2] reconnect_or_remove_down[OF d2] reset show ?thesis unfolding run by simp
  next
    case del
    then have "c_state (r_ctrl ?r1) = NVME_CTRL_DELETING" "Delete_work \<in> lworks (r_ctrl ?r1)" using s by simp_all
    then have "c_state (r_ctrl ?r2) = NVME_CTRL_DELETING" "Delete_work \<in> lworks (r_ctrl ?r2)"
      "\<not> ctrl_transition (c_state (r_ctrl ?r1)) NVME_CTRL_CONNECTING"
      by (simp_all del: emit_life_fields)
    with d2 show ?thesis unfolding run by (simp add: life_inv_def)
  qed
qed

lemma same_sgl_teardown: "same_sgl r (nvme_rdma_teardown_admin_queue b (nvme_rdma_teardown_io_queues b r))"
proof -
  have q: "same_sgl s (nvme_rdma_free_queue i s)" "same_sgl s (nvme_rdma_stop_queue i s)"
    "same_sgl s (nvme_rdma_free_io_queues s)" "same_sgl s (nvme_rdma_stop_io_queues s)" for i s
    by (intro mild_same_sgl calm_mild; simp)+
  have k: "same_sgl r0 (emit k s) = same_sgl r0 s" "same_sgl r0 (cancel_busy p a s) = same_sgl r0 s"
    "same_sgl r0 (free_async_qe s) = same_sgl r0 s" for r0 k s p a
    by (simp_all add: same_sgl_def emit_def call_def cancel_busy_def free_async_qe_def)
  have r: "same_sgl s s" for s by (simp add: same_sgl_def)
  have io: "same_sgl s (nvme_rdma_teardown_io_queues b s)" for s
    unfolding nvme_rdma_teardown_io_queues_def nvme_rdma_destroy_io_queues_def Let_def
    by (auto intro!: same_sgl_trans[OF _ q(3)] same_sgl_trans[OF _ q(4)] simp: k r)
  have ad: "same_sgl s (nvme_rdma_teardown_admin_queue b s)" for s
    unfolding nvme_rdma_teardown_admin_queue_def nvme_rdma_destroy_admin_queue_def Let_def
    by (auto intro!: same_sgl_trans[OF _ q(1)] same_sgl_trans[OF _ q(2)] simp: k r)
  show ?thesis by (rule same_sgl_trans[OF io ad])
qed

lemma inv_started_err:
  assumes "life_inv ext D r" and "Err_work \<in> c_pending (r_ctrl r)"
  shows "winding_down ext D (started Err_work r)"
  using assms by (cases "c_state (r_ctrl r)") (auto simp: life_inv_def winding_down_def lworks_mem)

text \<open>The teardown of a timeout leaves a controller that is not live or resetting down, in its state.\<close>

lemma inv_timeout_teardown:
  assumes "life_inv ext D r" and "c_state (r_ctrl r) \<in> {NVME_CTRL_CONNECTING, NVME_CTRL_DELETING}"
  shows "life_inv ext D (nvme_rdma_teardown_admin_queue False (nvme_rdma_teardown_io_queues False r)) \<and>
    ctrl_down ext D (nvme_rdma_teardown_admin_queue False (nvme_rdma_teardown_io_queues False r))"
proof -
  let ?r = "nvme_rdma_teardown_admin_queue False (nvme_rdma_teardown_io_queues False r)"
  have "ctrl_up ext D r \<or> ctrl_down ext D r" using assms by (auto simp: life_inv_def)
  from teardown_down[OF this, of "\<lambda>s. s"] have d: "ctrl_down ext D ?r" by simp
  have "steady_count r ?r" by (rule steady_op[OF steady_teardown(1) steady_teardown(2)])
  with assms(2) have s: "c_state (r_ctrl ?r) = c_state (r_ctrl r)" "lworks (r_ctrl ?r) = lworks (r_ctrl r)"
    using steady_state[of r ?r] by auto
  have "usable ?r = usable r" using same_sgl_teardown[of r False] by (simp add: same_sgl_def usable_def)
  with assms d s show ?thesis by (auto simp: life_inv_def)
qed

lemma inv_timeout:
  assumes "life_inv ext D r"
  shows "life_inv ext D (snd (nvme_rdma_timeout flush_recovery r)) \<and>
    (c_state (r_ctrl (snd (nvme_rdma_timeout flush_recovery r))) = NVME_CTRL_DELETING \<longrightarrow>
      ctrl_down ext D (snd (nvme_rdma_timeout flush_recovery r)))"
proof (cases "c_state (r_ctrl r) \<in> {NVME_CTRL_CONNECTING, NVME_CTRL_DELETING}")
  case False
  with assms have "c_state (r_ctrl r) \<in> {NVME_CTRL_LIVE, NVME_CTRL_RESETTING}"
    by (cases "c_state (r_ctrl r)") (simp_all add: life_inv_def)
  with assms inv_link_error[OF assms] show ?thesis by (auto simp: nvme_rdma_timeout_def recovery_cases)
next
  case True
  let ?r = "emit (Flush_work Err_work) r"
  have i: "life_inv ext D ?r" using assms by (cases "c_state (r_ctrl r)") (simp_all add: life_inv_def)
  have f: "life_inv ext D (flush_recovery ?r) \<and>
      c_state (r_ctrl (flush_recovery ?r)) \<in> {NVME_CTRL_CONNECTING, NVME_CTRL_DELETING}"
  proof (cases "Err_work \<in> c_pending (r_ctrl ?r)")
    case pend: True
    have d: "c_state (r_ctrl ?r) = NVME_CTRL_DELETING"
      using i pend True by (auto simp: life_inv_def lworks_mem)
    from inv_recovery[OF inv_started_err[OF i pend]] d pend show ?thesis by (simp add: flush_recovery_def)
  qed (use i True in \<open>simp add: flush_recovery_def\<close>)
  have "snd (nvme_rdma_timeout flush_recovery r) =
      nvme_rdma_teardown_admin_queue False (nvme_rdma_teardown_io_queues False (flush_recovery ?r))"
    using True by (auto simp: nvme_rdma_timeout_def Let_def)
  with inv_timeout_teardown f show ?thesis by simp
qed

text \<open>One attempt to set the controller up again, from the connecting state with nothing pending.\<close>

lemma setup_again:
  assumes "ctrl_down ext D r" and "c_state (r_ctrl r) = NVME_CTRL_CONNECTING" and "lworks (r_ctrl r) = {}"
    and "setup_env_ok e False r" and "\<forall>c. c_state c = NVME_CTRL_CONNECTING \<longrightarrow> se_others e c = c" and "nvme_rdma_setup_ctrl e False r = (ret, r')"
  shows "if ret = 0 then life_inv ext D r' \<and> lworks (r_ctrl r') = {}
    else ctrl_down ext D r' \<and> c_state (r_ctrl r') = NVME_CTRL_CONNECTING \<and> lworks (r_ctrl r') = {} \<and> steady r r'"
proof -
  have D: "D \<inter> async_objs = {}" "ctrl_ok ext {} {} D r" using assms(1) by (simp_all add: ctrl_down_def)
  have B: "False \<Longrightarrow> D \<inter> admin_objs = {} \<and> D \<inter> io_objs = {}" by simp
  have st: "c_state (r_ctrl r') = NVME_CTRL_CONNECTING \<and> lworks (r_ctrl r') = {}" if "steady r r'"
    using that assms(2,3) by (simp add: steady_def lworks_def)
  have b: "blk_objs False r = {}" by (simp add: blk_objs_def)
  show ?thesis
    by (rule setup_ctrl_outcome[OF D(2,1) B assms(4,6,2,5)])
      (use D st assms(3) in \<open>simp_all add: life_inv_def ctrl_up_def ctrl_down_def usable_def b\<close>)
qed

lemma count_upd:
  "c_state (r_ctrl (on_ctrl (\<lambda>c. c\<lparr>c_nr_reconnects := n c\<rparr>) r)) = c_state (r_ctrl r)"
  "lworks (r_ctrl (on_ctrl (\<lambda>c. c\<lparr>c_nr_reconnects := n c\<rparr>) r)) = lworks (r_ctrl r)"
  "ctrl_up ext D (on_ctrl (\<lambda>c. c\<lparr>c_nr_reconnects := n c\<rparr>) r) = ctrl_up ext D r"
  "ctrl_down ext D (on_ctrl (\<lambda>c. c\<lparr>c_nr_reconnects := n c\<rparr>) r) = ctrl_down ext D r"
  "usable (on_ctrl (\<lambda>c. c\<lparr>c_nr_reconnects := n c\<rparr>) r) = usable r"
proof -
  have "ctrl_ok ext U L B (on_ctrl (\<lambda>c. c\<lparr>c_nr_reconnects := n c\<rparr>) r) = ctrl_ok ext U L B r" for U L B
    by (intro ctrl_ok_cong) (simp_all add: on_ctrl_def mtrace_def)
  then show "ctrl_up ext D (on_ctrl (\<lambda>c. c\<lparr>c_nr_reconnects := n c\<rparr>) r) = ctrl_up ext D r"
    "ctrl_down ext D (on_ctrl (\<lambda>c. c\<lparr>c_nr_reconnects := n c\<rparr>) r) = ctrl_down ext D r"
    by (simp_all add: ctrl_up_def ctrl_down_def on_ctrl_def)
qed (simp_all add: on_ctrl_def lworks_def usable_def)

lemma life_inv_count: "life_inv ext D (on_ctrl (\<lambda>c. c\<lparr>c_nr_reconnects := n c\<rparr>) r) = life_inv ext D r"
  by (cases "c_state (r_ctrl r)") (simp_all add: life_inv_def count_upd)

lemma inv_reconnect:
  assumes "life_inv ext D r" and "c_state (r_ctrl r) = NVME_CTRL_CONNECTING" "Reconnect_work \<in> c_pending (r_ctrl r)"
    and "setup_env_ok e False (attempt r)" "se_others e = (\<lambda>c. c)"
  shows "life_inv ext D (nvme_rdma_reconnect_ctrl_work e (started Reconnect_work r))"
proof -
  have c: "c_state (r_ctrl r) = NVME_CTRL_CONNECTING" "Reconnect_work \<in> lworks (r_ctrl r)"
    using assms(2,3) by (simp_all add: lworks_mem)
  with assms(1) have d: "ctrl_down ext D (attempt r)" "lworks (r_ctrl (attempt r)) = {}"
    "c_state (r_ctrl (attempt r)) = NVME_CTRL_CONNECTING"
    by (auto simp: life_inv_def attempt_def count_upd)
  obtain ret r' where s: "nvme_rdma_setup_ctrl e False (attempt r) = (ret, r')" by fastforce
  have run: "nvme_rdma_reconnect_ctrl_work e (started Reconnect_work r) =
      (if ret \<noteq> 0 then nvme_rdma_reconnect_or_remove r' else on_ctrl (\<lambda>c. c\<lparr>c_nr_reconnects := 0\<rparr>) r')"
    using s by (simp add: nvme_rdma_reconnect_ctrl_work_def attempt_def Let_def)
  have "\<forall>c. c_state c = NVME_CTRL_CONNECTING \<longrightarrow> se_others e c = c" using assms(5) by simp
  from setup_again[OF d(1,3,2) assms(4) this s] reconnect_or_remove_inv[of r' ext D] show ?thesis
    unfolding run by (auto simp: life_inv_count split: if_splits)
qed

lemma disable_res_frame:
  "res_frame c0 (snd (nvme_disable_ctrl e c)) = res_frame c0 c"
  "res_frame c0 (snd (nvme_shutdown_ctrl e c)) = res_frame c0 c"
  by (rule res_frame_ctrl; simp)+

lemma shutdown_steady:
  "steady_count (on_ctrl (cancel_work_sync Reconnect_work) (on_ctrl (cancel_work_sync Err_work) r))
     (nvme_rdma_shutdown_ctrl re False r)"
proof -
  let ?r = "on_ctrl (cancel_work_sync Reconnect_work) (on_ctrl (cancel_work_sync Err_work) r)"
  let ?f = "\<lambda>s. snd (on_ctrl_ret (nvme_disable_ctrl re) (emit Quiesce_admin s))"
  have run: "nvme_rdma_shutdown_ctrl re False r =
      nvme_rdma_teardown_admin_queue False (?f (nvme_rdma_teardown_io_queues False ?r))"
    by (simp add: nvme_rdma_shutdown_ctrl_def Let_def split_beta)
  have f: "steady_count s (?f s)" for s
  proof (rule steady_count_trans)
    show "steady_count s (emit Quiesce_admin s)" by simp
    show "steady_count (emit Quiesce_admin s) (?f s)"
      unfolding on_ctrl_ret_def snd_conv by (rule steady_res) (simp add: disable_res_frame)
  qed
  show ?thesis
    unfolding run by (rule steady_op[OF steady_teardown(1)], rule steady_op[OF f], rule steady_teardown(2))
qed

lemma shutdown_down:
  assumes "ctrl_up ext D r \<or> ctrl_down ext D r"
    and "c_state (r_ctrl r) \<in> {NVME_CTRL_RESETTING, NVME_CTRL_CONNECTING, NVME_CTRL_DELETING}"
  shows "ctrl_down ext D (nvme_rdma_shutdown_ctrl re False r) \<and>
    c_state (r_ctrl (nvme_rdma_shutdown_ctrl re False r)) = c_state (r_ctrl r) \<and>
    lworks (r_ctrl (nvme_rdma_shutdown_ctrl re False r)) = lworks (r_ctrl r) - {Err_work, Reconnect_work} \<and>
    c_queue_count (r_ctrl (nvme_rdma_shutdown_ctrl re False r)) = c_queue_count (r_ctrl r)"
proof -
  let ?r = "on_ctrl (cancel_work_sync Reconnect_work) (on_ctrl (cancel_work_sync Err_work) r)"
  let ?f = "\<lambda>s. snd (on_ctrl_ret (nvme_disable_ctrl re) (emit Quiesce_admin s))"
  have run: "nvme_rdma_shutdown_ctrl re False r =
      nvme_rdma_teardown_admin_queue False (?f (nvme_rdma_teardown_io_queues False ?r))"
    by (simp add: nvme_rdma_shutdown_ctrl_def Let_def split_beta)
  have ud: "ctrl_up ext D ?r \<or> ctrl_down ext D ?r"
    using assms(1) by (simp add: up_down_on_ctrl)
  have d: "ctrl_down ext D (nvme_rdma_shutdown_ctrl re False r)"
    unfolding run by (rule teardown_down[OF ud]) (simp add: ctrl_ok_on_ctrl_ret)
  have sc: "steady_count ?r (nvme_rdma_shutdown_ctrl re False r)" by (rule shutdown_steady)
  from sc have "c_state (r_ctrl (nvme_rdma_shutdown_ctrl re False r)) = c_state (r_ctrl ?r) \<and>
      lworks (r_ctrl (nvme_rdma_shutdown_ctrl re False r)) = lworks (r_ctrl ?r)"
    using assms(2) by (intro steady_state) (simp_all add: r_ctrl_on)
  moreover have "c_queue_count (r_ctrl (nvme_rdma_shutdown_ctrl re False r)) = c_queue_count (r_ctrl r)"
    using sc by (simp add: steady_count_def r_ctrl_on cancel_work_sync_def call_def)
  ultimately show ?thesis using d by (auto simp: r_ctrl_on)
qed

section \<open>Set-ups that a deletion may overtake\<close>

lemma dangling_frame:
  assumes "r_queues r' = r_queues r" and "c_queue_count (r_ctrl r') = c_queue_count (r_ctrl r)"
  shows "dangling r' = dangling r"
  using assms by (simp add: dangling_def)

lemma up_down_not_dangling:
  assumes "ctrl_up ext D r \<or> ctrl_down ext D r"
  shows "\<not> dangling r"
proof -
  have len: "c_queue_count (r_ctrl r) \<le> length (r_queues r)"
    using assms ctrl_okD(4) by (auto simp: ctrl_up_def ctrl_down_def)
  have "q_allocated (queue r k) \<or> \<not> q_live (queue r k)" if k: "k < c_queue_count (r_ctrl r)" for k
  proof (cases "ctrl_up ext D r")
    case True
    then have "queues_ok ext {0..<c_queue_count (r_ctrl r)} {0..<c_queue_count (r_ctrl r)} r"
      unfolding ctrl_up_def using ctrl_okD(1) by blast
    from queues_ok_up[OF this, of k] k show ?thesis by (simp add: queue_up_def)
  next
    case False
    then have "queues_ok ext {} {} r" using assms unfolding ctrl_down_def using ctrl_okD(1) by blast
    then have "queue_idle k r" using k len by (simp add: queues_ok_def)
    then show ?thesis by (simp add: queue_idle_def)
  qed
  then show ?thesis unfolding dangling_def by fastforce
qed

text \<open>A controller whose deletion is coming, whatever has become of it.\<close>

definition doomed :: "nvme_rdma_ctrl \<Rightarrow> bool" where
  "doomed r \<longleftrightarrow> c_state (r_ctrl r) = NVME_CTRL_DELETING \<and> Delete_work \<in> lworks (r_ctrl r)"

lemma doomed_steady: "steady r r' \<Longrightarrow> doomed r \<Longrightarrow> doomed r'"
  by (simp add: doomed_def steady_def lworks_def)

lemma doomed_count: "steady_count r r' \<Longrightarrow> doomed r \<Longrightarrow> doomed r'"
  unfolding steady_count_def using doomed_steady by blast

text \<open>What a set-up makes of a controller that is down, when a deletion may come first.\<close>

lemma setup_any:
  assumes down: "ctrl_down ext D r" and env: "setup_env_ok e False r" and arr: "se_others e = arrived qs"
    and st: "c_state (r_ctrl r) = NVME_CTRL_CONNECTING \<and> lworks (r_ctrl r) = {} \<or> doomed r"
    and s: "nvme_rdma_setup_ctrl e False r = (ret, r')"
  obtains (undisturbed) "if ret = 0 then life_inv ext D r' \<and> lworks (r_ctrl r') = {}
      else ctrl_down ext D r' \<and> c_state (r_ctrl r') = NVME_CTRL_CONNECTING \<and> lworks (r_ctrl r') = {}"
  | (overtaken) "doomed r'" "lworks (r_ctrl r') \<subseteq> insert Delete_work (lworks (r_ctrl r))"
      "ctrl_down ext D r' \<or> dangling r'"
proof (cases "c_state (r_ctrl r) = NVME_CTRL_CONNECTING \<and> Arr_delete \<notin> set qs")
  case True
  then have c: "c_state (r_ctrl r) = NVME_CTRL_CONNECTING" "lworks (r_ctrl r) = {}" using st by (auto simp: doomed_def)
  have "\<forall>c. c_state c = NVME_CTRL_CONNECTING \<longrightarrow> se_others e c = c" using True arr by (simp add: arrived_connecting)
  from undisturbed setup_again[OF down c env this s] show thesis by (auto split: if_splits)
next
  case False
  have D: "D \<inter> async_objs = {}" "ctrl_ok ext {} {} D r" using down by (simp_all add: ctrl_down_def)
  have B: "False \<Longrightarrow> D \<inter> admin_objs = {} \<and> D \<inter> io_objs = {}" by simp
  have st': "c_state (r_ctrl r) = NVME_CTRL_CONNECTING \<and> Arr_delete \<in> set qs \<or> c_state (r_ctrl r) = NVME_CTRL_DELETING"
    using st False by (auto simp: doomed_def)
  have same: thesis if ok: "ctrl_ok ext {} {} D r'" and sr: "steady r r'" and u: "ret = 0 \<Longrightarrow> \<not> usable r'"
  proof (cases "doomed r")
    case True
    have "lworks (r_ctrl r') = lworks (r_ctrl r)" using sr True by (simp add: steady_def doomed_def lworks_def)
    with doomed_steady[OF sr True] ok D(1) show thesis by (intro overtaken) (auto simp: ctrl_down_def)
  next
    case False
    then have "c_state (r_ctrl r') = NVME_CTRL_CONNECTING" "lworks (r_ctrl r') = {}"
      using st sr by (simp_all add: steady_def lworks_def)
    with ok D(1) u show thesis by (intro undisturbed) (simp add: life_inv_def ctrl_down_def)
  qed
  show thesis
  proof (rule setup_ctrl_interrupted[OF D(2,1) B env s st' arr])
    assume "ret = 0" "ctrl_ok ext {} {} D r'" "steady r r'"
      "c_icdoff (r_ctrl r') \<noteq> 0 \<or> c_sgls (r_ctrl r') AND SGLS_KEYED = 0"
    then show thesis by (intro same) (simp_all add: usable_def)
  next
    assume "ret \<noteq> 0" "ctrl_ok ext {} {} D r'" "steady r r'"
    then show thesis by (intro same) simp_all
  next
    let ?n = "c_queue_count (r_ctrl r')"
    assume del: "c_state (r_ctrl r') = NVME_CTRL_DELETING"
      and w: "lworks (r_ctrl r') = (if c_state (r_ctrl r) = NVME_CTRL_CONNECTING then insert Delete_work (lworks (r_ctrl r))
          else lworks (r_ctrl r))"
      and off: "ctrl_ok ext {} {} (D \<union> io_leftover False (c_queue_count (r_ctrl r)) ?n) (io_flags_off r')"
      and fl: "\<forall>k \<in> {1..<?n}. q_live (queue r' k)"
      and one: "?n = 1 \<Longrightarrow> ctrl_ok ext {} {} (D \<union> io_leftover False (c_queue_count (r_ctrl r)) ?n) r'"
    have lo: "io_leftover False (c_queue_count (r_ctrl r)) ?n = {}" by (simp add: io_leftover_def)
    have n: "1 \<le> ?n" "?n \<le> length (r_queues r')" using ctrl_okD(3,4)[OF off] by simp_all
    have "ctrl_down ext D r' \<or> dangling r'"
    proof (cases "?n = 1")
      case True
      from one[OF this] D(1) show ?thesis by (simp add: lo ctrl_down_def)
    next
      case False
      then have m: "1 \<in> {1..<?n}" "1 < length (r_queues r')" using n by simp_all
      have "queues_ok ext {} {} (io_flags_off r')" by (rule ctrl_okD(1)[OF off])
      then have "queue_idle 1 (io_flags_off r')" using m(2) by (simp add: queues_ok_def)
      then have "\<not> q_allocated (queue r' 1)" using m(2) by (simp add: queue_idle_def off_queue)
      with fl m(1) show ?thesis unfolding dangling_def by blast
    qed
    then show thesis using del w st by (intro overtaken) (auto simp: doomed_def)
  qed
qed

text \<open>How the reconnect and the reset work end: well, or with a queue left dangling.\<close>

definition life_ok :: "(nat \<Rightarrow> nat) \<Rightarrow> bobj set \<Rightarrow> nvme_rdma_ctrl \<Rightarrow> bool" where
  "life_ok ext D r \<longleftrightarrow> life_inv ext D r \<and> (doomed r \<and> Reconnect_work \<in> lworks (r_ctrl r) \<longrightarrow> ctrl_down ext D r)"

lemma life_ok_down: "life_inv ext D r \<Longrightarrow> (c_state (r_ctrl r) = NVME_CTRL_DELETING \<Longrightarrow> ctrl_down ext D r) \<Longrightarrow> life_ok ext D r"
  by (simp add: life_ok_def doomed_def)

lemma doomed_down: "doomed r \<Longrightarrow> ctrl_down ext D r \<Longrightarrow> life_ok ext D r"
  by (simp add: life_ok_def doomed_def life_inv_def)

lemma reconnect_or_remove_doomed: "doomed r \<Longrightarrow> nvme_rdma_reconnect_or_remove r = r"
  by (simp add: nvme_rdma_reconnect_or_remove_def doomed_def)

text \<open>The end of both works, after a set-up that returned \<open>ret\<close>.\<close>

definition setup_end :: "int \<Rightarrow> (int \<Rightarrow> int) \<Rightarrow> nvme_rdma_ctrl \<Rightarrow> nvme_rdma_ctrl" where
  "setup_end ret f r =
     (if ret \<noteq> 0 then nvme_rdma_reconnect_or_remove (on_ctrl (\<lambda>c. c\<lparr>c_nr_reconnects := f (c_nr_reconnects c)\<rparr>) r)
      else on_ctrl (\<lambda>c. c\<lparr>c_nr_reconnects := f (c_nr_reconnects c)\<rparr>) r)"

lemma setup_end_ok:
  assumes "ctrl_down ext D r" "setup_env_ok e False r" "\<exists>qs. se_others e = arrived qs"
    and "c_state (r_ctrl r) = NVME_CTRL_CONNECTING \<and> lworks (r_ctrl r) = {} \<or> doomed r"
    and s: "nvme_rdma_setup_ctrl e False r = (ret, r')"
  shows "life_ok ext D (setup_end ret f r') \<or> doomed (setup_end ret f r') \<and> dangling (setup_end ret f r')"
proof -
  let ?s = "on_ctrl (\<lambda>c. c\<lparr>c_nr_reconnects := f (c_nr_reconnects c)\<rparr>) r'"
  have dg: "dangling ?s = dangling r'" by (rule dangling_frame) (simp_all add: on_ctrl_def)
  have dm: "doomed ?s = doomed r'" by (simp add: doomed_def count_upd)
  obtain qs where qs: "se_others e = arrived qs" using assms(3) by blast
  show ?thesis
  proof (rule setup_any[OF assms(1,2) qs assms(4) s])
    assume u: "if ret = 0 then life_inv ext D r' \<and> lworks (r_ctrl r') = {}
      else ctrl_down ext D r' \<and> c_state (r_ctrl r') = NVME_CTRL_CONNECTING \<and> lworks (r_ctrl r') = {}"
    show ?thesis
    proof (cases "ret = 0")
      case True
      then have i: "life_inv ext D ?s" "lworks (r_ctrl ?s) = {}" using u by (simp_all add: life_inv_count count_upd)
      then have "\<not> doomed ?s" by (simp add: doomed_def)
      with i True show ?thesis by (simp add: setup_end_def life_ok_def)
    next
      case False
      then have d: "ctrl_down ext D ?s" "c_state (r_ctrl ?s) = NVME_CTRL_CONNECTING" "lworks (r_ctrl ?s) = {}"
        using u by (simp_all add: count_upd)
      have "life_ok ext D (nvme_rdma_reconnect_or_remove ?s)"
        by (rule life_ok_down[OF reconnect_or_remove_inv[OF d(2,1)] reconnect_or_remove_down[OF d(1)]]) (simp add: d(3))
      with False show ?thesis by (simp add: setup_end_def)
    qed
  next
    assume o: "doomed r'" "ctrl_down ext D r' \<or> dangling r'"
    have e: "setup_end ret f r' = ?s"
      using reconnect_or_remove_doomed[of ?s] o(1) dm by (simp add: setup_end_def)
    from o doomed_down[of ?s ext D] show ?thesis unfolding e dg dm by (auto simp: count_upd)
  qed
qed

lemma life_ok_reconnect:
  assumes i: "life_ok ext D r" and en: "life_enabled (Run_reconnect e) r"
  shows "life_ok ext D (life_do (Run_reconnect e) r) \<or>
    doomed (life_do (Run_reconnect e) r) \<and> dangling (life_do (Run_reconnect e) r)"
proof -
  have p: "Reconnect_work \<in> lworks (r_ctrl r)" using en by (simp add: lworks_mem)
  have st: "c_state (r_ctrl r) = NVME_CTRL_CONNECTING \<and> lworks (r_ctrl r) = {Reconnect_work} \<or> doomed r"
    "ctrl_down ext D r"
    using i p by (cases "c_state (r_ctrl r)"; auto simp: life_ok_def life_inv_def doomed_def)+
  have d: "ctrl_down ext D (attempt r)"
    "c_state (r_ctrl (attempt r)) = NVME_CTRL_CONNECTING \<and> lworks (r_ctrl (attempt r)) = {} \<or> doomed (attempt r)"
    using st by (auto simp: attempt_def count_upd doomed_def)
  obtain ret r' where s: "nvme_rdma_setup_ctrl e False (attempt r) = (ret, r')" by fastforce
  have "on_ctrl (\<lambda>c. c\<lparr>c_nr_reconnects := c_nr_reconnects c\<rparr>) r' = r'" by (simp add: on_ctrl_def)
  then have run: "life_do (Run_reconnect e) r =
      setup_end ret (if ret = 0 then (\<lambda>_. 0) else (\<lambda>n. n)) r'"
    using s by (simp add: nvme_rdma_reconnect_ctrl_work_def attempt_def setup_end_def Let_def)
  from setup_end_ok[OF d(1) _ _ d(2) s] en show ?thesis unfolding run by simp
qed

lemma life_ok_reset:
  assumes i: "life_ok ext D r" and en: "life_enabled (Run_reset re se) r"
  shows "life_ok ext D (life_do (Run_reset re se) r) \<or>
    doomed (life_do (Run_reset re se) r) \<and> dangling (life_do (Run_reset re se) r)"
proof -
  have p: "Reset_work \<in> lworks (r_ctrl r)" using en by (simp add: lworks_mem)
  let ?r = "on_ctrl nvme_stop_ctrl (started Reset_work r)"
  let ?s = "nvme_rdma_shutdown_ctrl re False ?r"
  let ?t = "?s\<lparr>r_ctrl := snd (nvme_change_ctrl_state NVME_CTRL_CONNECTING (r_ctrl ?s))\<rparr>"
  have st: "c_state (r_ctrl ?r) = c_state (r_ctrl r)" "lworks (r_ctrl ?r) = lworks (r_ctrl r) - {Reset_work}"
    by (simp_all add: r_ctrl_on)
  have w: "c_state (r_ctrl r) = NVME_CTRL_RESETTING \<and> lworks (r_ctrl r) = {Reset_work} \<or>
      c_state (r_ctrl r) = NVME_CTRL_DELETING \<and> Delete_work \<in> lworks (r_ctrl r)"
    "ctrl_up ext D r \<or> ctrl_down ext D r"
    using i p by (cases "c_state (r_ctrl r)"; auto simp: life_ok_def life_inv_def)+
  have ud: "ctrl_up ext D ?r \<or> ctrl_down ext D ?r" using w(2) by (simp add: up_down_on_ctrl)
  from shutdown_down[OF ud, of re] w(1) st
  have s: "ctrl_down ext D ?s" "c_state (r_ctrl ?s) = c_state (r_ctrl r)"
    "lworks (r_ctrl ?s) = lworks (r_ctrl r) - {Reset_work, Err_work, Reconnect_work}" by auto
  have t: "ctrl_down ext D ?t" using s(1) by (subst up_down_frame) simp_all
  have down: "reset_down re (started Reset_work r) = ?t" by (simp add: reset_down_def on_ctrl_ret_def)
  obtain ret r' where su: "nvme_rdma_setup_ctrl se False ?t = (ret, r')" by fastforce
  have same: "on_ctrl (\<lambda>c. c\<lparr>c_nr_reconnects := c_nr_reconnects c\<rparr>) r' = r'" by (simp add: on_ctrl_def)
  have run: "life_do (Run_reset re se) r =
      (if \<not> ctrl_transition (c_state (r_ctrl ?s)) NVME_CTRL_CONNECTING then emit Warn_once ?t
       else setup_end ret (if ret = 0 then (\<lambda>n. n) else (\<lambda>n. n + 1)) r')"
    unfolding life_do.simps nvme_rdma_reset_ctrl_work_def Let_def on_ctrl_ret_def prod.case change_state_result(1) su
    by (simp only: setup_end_def same if_True if_False simp_thms split: if_splits) simp
  from w(1) show ?thesis
  proof
    assume a: "c_state (r_ctrl r) = NVME_CTRL_RESETTING \<and> lworks (r_ctrl r) = {Reset_work}"
    then have tr: "ctrl_transition (c_state (r_ctrl ?s)) NVME_CTRL_CONNECTING"
      and tc: "c_state (r_ctrl ?t) = NVME_CTRL_CONNECTING \<and> lworks (r_ctrl ?t) = {} \<or> doomed ?t"
      using s by simp_all
    have "setup_env_ok se False ?t" "\<exists>qs. se_others se = arrived qs"
      using en tr unfolding life_enabled.simps down by (simp_all add: change_state_result)
    from setup_end_ok[OF t this tc su] tr show ?thesis unfolding run by simp
  next
    assume a: "c_state (r_ctrl r) = NVME_CTRL_DELETING \<and> Delete_work \<in> lworks (r_ctrl r)"
    then have "\<not> ctrl_transition (c_state (r_ctrl ?s)) NVME_CTRL_CONNECTING"
      and "doomed (emit Warn_once ?t)" using s by (simp_all add: doomed_def)
    with doomed_down[of "emit Warn_once ?t" ext D] t show ?thesis unfolding run by simp
  qed
qed

lemma life_step_ok:
  assumes i: "life_ok ext D r" and en: "life_enabled ev r"
  shows "life_ok ext D (life_do ev r) \<or> doomed (life_do ev r) \<and> dangling (life_do ev r)"
proof -
  have inv: "life_inv ext D r" using i by (simp add: life_ok_def)
  show ?thesis
  proof (cases ev)
    case Link_error
    with inv_link_error[OF inv] i show ?thesis by (auto simp: life_ok_def recovery_cases doomed_def)
  next
    case Request_timeout
    with inv_timeout[OF inv] show ?thesis by (simp add: life_ok_down)
  next
    case Run_recovery
    with en have "Err_work \<in> c_pending (r_ctrl r)" by simp
    with Run_recovery inv_recovery[OF inv_started_err[OF inv]] show ?thesis by (simp add: life_ok_down)
  next
    case (Run_reconnect e)
    with life_ok_reconnect[OF i] en show ?thesis by simp
  next
    case Reset_request
    with inv_reset_request[OF inv] i show ?thesis by (auto simp: life_ok_def request_cases doomed_def)
  next
    case (Run_reset re se)
    with life_ok_reset[OF i] en show ?thesis by simp
  next
    case Delete_request
    have "c_state (r_ctrl r) = NVME_CTRL_CONNECTING \<Longrightarrow> ctrl_down ext D r"
      "Reconnect_work \<in> lworks (r_ctrl r) \<Longrightarrow> c_state (r_ctrl r) \<in> {NVME_CTRL_CONNECTING, NVME_CTRL_DELETING}"
      using inv by (cases "c_state (r_ctrl r)"; auto simp: life_inv_def)+
    with Delete_request inv_delete_request[OF inv] i show ?thesis
      by (auto simp: life_ok_def request_cases doomed_def up_down_frame)
  qed
qed

section \<open>A coming deletion comes\<close>

lemma doomed_started: "doomed r \<Longrightarrow> w \<noteq> Delete_work \<Longrightarrow> doomed (started w r)"
  by (simp add: doomed_def)

lemma doomed_recovery:
  assumes "doomed r"
  shows "doomed (nvme_rdma_error_recovery_work r)"
proof -
  let ?r0 = "on_ctrl nvme_stop_keep_alive r"
  let ?r1 = "emit Unquiesce_admin (nvme_rdma_teardown_admin_queue False
      (emit Start_queues (nvme_rdma_teardown_io_queues False ?r0)))"
  have st: "steady_count ?r0 ?r1"
    unfolding steady_upd(1) by (rule steady_op[OF steady_teardown(1)]) (simp add: steady_teardown(2))
  have "doomed ?r0" using assms by (simp add: doomed_def r_ctrl_on)
  then have d: "doomed ?r1" by (rule doomed_count[OF st])
  then have "nvme_rdma_error_recovery_work r = ?r1"
    by (simp add: nvme_rdma_error_recovery_work_def Let_def on_ctrl_ret_def doomed_def nvme_change_ctrl_state_def)
  with d show ?thesis by simp
qed

lemma doomed_timeout:
  assumes "doomed r"
  shows "doomed (snd (nvme_rdma_timeout flush_recovery r))"
proof -
  have e: "doomed (emit (Flush_work Err_work) r)" using assms by (simp add: doomed_def)
  then have f: "doomed (flush_recovery (emit (Flush_work Err_work) r))"
    by (simp add: flush_recovery_def doomed_recovery doomed_started)
  have "steady_count s (nvme_rdma_teardown_admin_queue False (nvme_rdma_teardown_io_queues False s))" for s
    by (rule steady_op[OF steady_teardown(1) steady_teardown(2)])
  from doomed_count[OF this f] assms show ?thesis by (simp add: nvme_rdma_timeout_def doomed_def Let_def)
qed

lemma doomed_setup:
  assumes d: "doomed r" and arr: "se_others e = arrived qs"
  shows "doomed (snd (nvme_rdma_setup_ctrl e new r))"
proof -
  obtain ret1 s1 where 1: "nvme_rdma_configure_admin_queue e new r = (ret1, s1)" by fastforce
  have d1: "doomed s1" using doomed_count[OF steady_configure_admin d, of e new] 1 by simp
  have "steady_count s1 (prepare_io s1)" by (simp add: prepare_io_def Let_def)
  then have dp: "doomed (prepare_io s1)" using d1 by (rule doomed_count)
  obtain ret2 s2 where 2: "(if c_queue_count (r_ctrl (prepare_io s1)) > 1
      then nvme_rdma_configure_io_queues e new (prepare_io s1) else (0, prepare_io s1)) = (ret2, s2)" by fastforce
  have d2: "doomed s2"
    using doomed_steady[OF steady_configure_io dp, of e new] dp 2 by (auto split: if_splits)
  then have "on_ctrl (se_others e) s2 = s2" using arr by (simp add: on_ctrl_def arrived_deleting doomed_def)
  moreover have "go_live e new s2 = (- EINVAL, destroy_io new s2)" using d2 by (simp add: go_live_deleting doomed_def)
  ultimately have run: "nvme_rdma_setup_ctrl e new r =
      (if ret1 \<noteq> 0 then (ret1, s1)
       else if c_icdoff (r_ctrl s1) \<noteq> 0 \<or> c_sgls (r_ctrl s1) AND SGLS_KEYED = 0 then (ret1, destroy_admin new s1)
       else if ret2 \<noteq> 0 then (ret2, destroy_admin new s2) else (- EINVAL, destroy_io new s2))"
    unfolding nvme_rdma_setup_ctrl_def Let_def 1 prod.case 2 by simp
  show ?thesis unfolding run
    using d1 doomed_count[OF steady_destroy(3) d1, of new] doomed_count[OF steady_destroy(3) d2, of new]
      doomed_count[OF steady_destroy(4) d2, of new] by simp
qed

lemma doomed_upd: "doomed (on_ctrl (\<lambda>c. c\<lparr>c_nr_reconnects := n c\<rparr>) r) = doomed r"
  by (simp add: doomed_def count_upd)

lemma doomed_step:
  assumes d: "doomed r" and en: "life_enabled ev r"
  shows "doomed (life_do ev r)"
proof (cases ev)
  case Link_error
  with d show ?thesis by (simp add: recovery_cases doomed_def)
next
  case Request_timeout
  with doomed_timeout[OF d] show ?thesis by simp
next
  case Run_recovery
  with doomed_recovery[OF doomed_started[OF d]] show ?thesis by simp
next
  case (Run_reconnect e)
  obtain qs where qs: "se_others e = arrived qs" using en Run_reconnect by auto
  have "doomed (attempt r)" using doomed_started[OF d] by (simp add: attempt_def doomed_upd)
  from doomed_setup[OF this qs, of False] have s: "doomed (snd (nvme_rdma_setup_ctrl e False (attempt r)))" .
  then show ?thesis
    unfolding Run_reconnect life_do.simps nvme_rdma_reconnect_ctrl_work_def Let_def attempt_def split_beta
    by (simp add: reconnect_or_remove_doomed doomed_upd)
next
  case Reset_request
  with d show ?thesis by (simp add: request_cases doomed_def)
next
  case (Run_reset re se)
  let ?r = "on_ctrl nvme_stop_ctrl (started Reset_work r)"
  have "doomed (on_ctrl (cancel_work_sync Reconnect_work) (on_ctrl (cancel_work_sync Err_work) ?r))"
    using d by (simp add: doomed_def r_ctrl_on)
  from doomed_count[OF shutdown_steady this] have s: "doomed (nvme_rdma_shutdown_ctrl re False ?r)" .
  then show ?thesis
    unfolding Run_reset life_do.simps nvme_rdma_reset_ctrl_work_def Let_def on_ctrl_ret_def
    by (simp add: doomed_def nvme_change_ctrl_state_def)
next
  case Delete_request
  with d show ?thesis by (simp add: request_cases doomed_def)
qed

text \<open>The invariant: as long as no queue dangles everything is as the state says, and then a deletion comes.\<close>

lemma life_reach_ok:
  assumes "life_reach r0 lost r" and "life_inv ext D r0" "c_state (r_ctrl r0) \<noteq> NVME_CTRL_DELETING"
  shows "if lost then doomed r else life_ok ext D r"
  using assms(1)
proof (induction rule: life_reach.induct)
  case start
  with assms(2,3) show ?case by (simp add: life_ok_def doomed_def)
next
  case (step lost r ev)
  show ?case
  proof (cases lost)
    case True
    with step doomed_step show ?thesis by simp
  next
    case False
    then have "life_ok ext D r" using step.IH by simp
    from life_step_ok[OF this step.hyps(2)] show ?thesis
    proof
      assume ok: "life_ok ext D (life_do ev r)"
      then have "\<not> dangling (life_do ev r)"
      proof -
        have "ctrl_up ext D (life_do ev r) \<or> ctrl_down ext D (life_do ev r)"
          using ok by (cases "c_state (r_ctrl (life_do ev r))") (auto simp: life_ok_def life_inv_def)
        then show ?thesis by (rule up_down_not_dangling)
      qed
      with ok False show ?thesis by simp
    qed (use False in simp)
  qed
qed

section \<open>What holds over a controller's life\<close>


section \<open>Deletion\<close>

text \<open>The deletion work: \<open>nvme_do_delete_ctrl\<close> with this transport's operation.\<close>

definition run_delete :: "reg_env \<Rightarrow> setup_env \<Rightarrow> nvme_rdma_ctrl \<Rightarrow> nvme_rdma_ctrl" where
  "run_delete re se r =
     (let r = emit (Flush_work Reset_work) r;
          r = (if Reset_work \<in> c_pending (r_ctrl r) then nvme_rdma_reset_ctrl_work re se (started Reset_work r) else r);
          r = on_ctrl nvme_stop_ctrl r;
          r = emit Remove_namespaces r;
          r = nvme_rdma_delete_ctrl re r
      in emit Put_ctrl (emit Uninit_ctrl r))"

lemma deleting_reset:
  assumes "ctrl_up ext D r \<or> ctrl_down ext D r" and "c_state (r_ctrl r) = NVME_CTRL_DELETING"
  shows "ctrl_down ext D (nvme_rdma_reset_ctrl_work re se r)"
    "c_queue_count (r_ctrl (nvme_rdma_reset_ctrl_work re se r)) = c_queue_count (r_ctrl r)"
proof -
  let ?r = "on_ctrl nvme_stop_ctrl r"
  let ?s = "nvme_rdma_shutdown_ctrl re False ?r"
  let ?t = "?s\<lparr>r_ctrl := snd (nvme_change_ctrl_state NVME_CTRL_CONNECTING (r_ctrl ?s))\<rparr>"
  have f: "ctrl_frame (r_ctrl r) (nvme_stop_ctrl (r_ctrl r))" by simp
  have ud: "ctrl_up ext D ?r \<or> ctrl_down ext D ?r" using assms(1) by (simp add: up_down_on_ctrl)
  from shutdown_down[OF ud, of re] assms(2) f
  have s: "ctrl_down ext D ?s" "c_state (r_ctrl ?s) = NVME_CTRL_DELETING"
    "c_queue_count (r_ctrl ?s) = c_queue_count (r_ctrl r)"
    by (auto simp: r_ctrl_on ctrl_frame_def)
  have t: "ctrl_down ext D ?t" using s(1) by (subst up_down_frame) simp_all
  have "ctrl_frame (r_ctrl ?s) (r_ctrl ?t)" by simp
  then have c: "c_queue_count (r_ctrl ?t) = c_queue_count (r_ctrl r)" using s(3) by (simp only: ctrl_frame_def)
  have "nvme_rdma_reset_ctrl_work re se r = emit Warn_once ?t"
    using s(2) by (simp add: nvme_rdma_reset_ctrl_work_def Let_def on_ctrl_ret_def split_beta)
  with t c show "ctrl_down ext D (nvme_rdma_reset_ctrl_work re se r)"
    "c_queue_count (r_ctrl (nvme_rdma_reset_ctrl_work re se r)) = c_queue_count (r_ctrl r)" by simp_all
qed

lemma delete_ctrl_empty:
  assumes "ctrl_up ext D r \<or> ctrl_down ext D r" and "admin_objs \<subseteq> D"
    and "1 < c_queue_count (r_ctrl r) \<Longrightarrow> io_objs \<subseteq> D"
  shows "ctrl_ok ext {} {} (D - admin_objs - (if 1 < c_queue_count (r_ctrl r) then io_objs else {}))
    (nvme_rdma_delete_ctrl re r)"
proof -
  let ?r = "on_ctrl (cancel_work_sync Reconnect_work) (on_ctrl (cancel_work_sync Err_work) r)"
  let ?f = "\<lambda>s. snd (on_ctrl_ret (nvme_shutdown_ctrl re) (emit Quiesce_admin s))"
  have run: "nvme_rdma_delete_ctrl re r =
      nvme_rdma_teardown_admin_queue True (?f (nvme_rdma_teardown_io_queues True ?r))"
    by (simp add: nvme_rdma_delete_ctrl_def nvme_rdma_shutdown_ctrl_def Let_def split_beta)
  have n: "c_queue_count (r_ctrl ?r) = c_queue_count (r_ctrl r)"
    by (simp add: r_ctrl_on cancel_work_sync_def call_def)
  have "ctrl_up ext D ?r \<or> ctrl_down ext D ?r" using assms(1) by (simp add: up_down_on_ctrl)
  then obtain U L B where r: "ctrl_ok ext U L B ?r" "U \<subseteq> {0..<c_queue_count (r_ctrl ?r)}"
    and D: "D \<inter> async_objs = {}" "B - async_objs = D" "D \<subseteq> B"
    by (auto simp: ctrl_up_def ctrl_down_def)
  have "ctrl_ok ext {} {} (B - async_objs - (if True then admin_objs else {}) -
       (if True \<and> c_queue_count (r_ctrl ?r) > 1 then io_objs else {}))
     (nvme_rdma_teardown_admin_queue True (?f (nvme_rdma_teardown_io_queues True ?r)))"
    by (rule teardown_all_ok[OF r]) (use assms(2,3) D n in \<open>auto simp: ctrl_ok_on_ctrl_ret\<close>)
  then show ?thesis unfolding run n D(2) by simp
qed

text \<open>C6. Deletion releases everything, from whatever point of its life a controller that was live is in, also
  when the deletion arrives during a reconnect or a reset: afterwards no queue holds anything, every device
  reference the controller took is given back, and no tag set, block layer queue or event buffer is left.
  There are two exceptions. A controller whose set-up a deletion overtook after its I/O queues were up has
  those queues flagged live though they are freed (\<open>lost\<close>), and nothing is claimed of it. A controller that
  lost its I/O queues, when a reconnect was granted none (\<open>queue_count\<close> 1), leaves the connect queue and the
  I/O tag set made at its creation behind.
\<close>

theorem deletion_releases_everything:
  assumes "life_reach r0 lost r" and "\<not> lost"
    and "c_state (r_ctrl r0) = NVME_CTRL_LIVE" and "lworks (r_ctrl r0) = {}"
    and "ctrl_ok ext {0..<c_queue_count (r_ctrl r0)} {0..<c_queue_count (r_ctrl r0)}
           (async_objs \<union> admin_objs \<union> I) r0"
    and "c_state (r_ctrl r) = NVME_CTRL_DELETING"
    and "I = io_objs \<or> I = {} \<and> c_queue_count (r_ctrl r) = 1"
  shows "queues_ok ext {} {} (run_delete re se r) \<and>
    blk_held (run_delete re se r) = Some (if 1 < c_queue_count (r_ctrl r) then {} else I)"
proof -
  let ?D = "admin_objs \<union> I"
  have D: "?D \<inter> async_objs = {}" using assms(7) by (auto simp: objs_defs)
  have A: "async_objs \<union> admin_objs \<union> I = ?D \<union> async_objs" by auto
  have "life_inv ext ?D r0" using assms(3-5) D by (simp add: life_inv_def ctrl_up_def A)
  from life_reach_ok[OF assms(1) this] assms(2,3) have "life_inv ext ?D r" by (simp add: life_ok_def)
  with assms(6) have ud: "ctrl_up ext ?D r \<or> ctrl_down ext ?D r"
    by (simp add: life_inv_def)
  define s where "s = (if Reset_work \<in> c_pending (r_ctrl (emit (Flush_work Reset_work) r))
      then nvme_rdma_reset_ctrl_work re se (started Reset_work (emit (Flush_work Reset_work) r))
      else emit (Flush_work Reset_work) r)"
  have e: "c_queue_count (r_ctrl (emit k r)) = c_queue_count (r_ctrl r)" for k by (simp add: emit_def call_def)
  have s: "ctrl_up ext ?D s \<or> ctrl_down ext ?D s" "c_queue_count (r_ctrl s) = c_queue_count (r_ctrl r)"
    using deleting_reset[of ext ?D "started Reset_work (emit (Flush_work Reset_work) r)" re se] ud assms(6) e
    by (auto simp: s_def)
  define t where "t = emit Remove_namespaces (on_ctrl nvme_stop_ctrl s)"
  have "ctrl_frame (r_ctrl s) (nvme_stop_ctrl (r_ctrl s))" by simp
  then have "c_queue_count (nvme_stop_ctrl (r_ctrl s)) = c_queue_count (r_ctrl s)" by (simp only: ctrl_frame_def)
  then have t: "ctrl_up ext ?D t \<or> ctrl_down ext ?D t" "c_queue_count (r_ctrl t) = c_queue_count (r_ctrl r)"
    using s by (simp_all add: t_def up_down_on_ctrl e r_ctrl_on)
  have "ctrl_ok ext {} {} (?D - admin_objs - (if 1 < c_queue_count (r_ctrl t) then io_objs else {}))
      (nvme_rdma_delete_ctrl re t)"
    by (rule delete_ctrl_empty[OF t(1)]) (use assms(7) t(2) in auto)
  moreover have "?D - admin_objs - (if 1 < c_queue_count (r_ctrl t) then io_objs else {}) =
      (if 1 < c_queue_count (r_ctrl r) then {} else I)"
    unfolding t(2) using assms(7) by (auto simp: objs_defs)
  moreover have "run_delete re se r = emit Put_ctrl (emit Uninit_ctrl (nvme_rdma_delete_ctrl re t))"
    by (simp add: run_delete_def s_def t_def Let_def)
  ultimately have "ctrl_ok ext {} {} (if 1 < c_queue_count (r_ctrl r) then {} else I) (run_delete re se r)"
    by simp
  from ctrl_okD(1,5)[OF this] show ?thesis by simp
qed

text \<open>A discovery controller after its set-up.\<close>

definition livectrl0 :: nvme_rdma_ctrl where
  "livectrl0 = snd (nvme_rdma_setup_ctrl setupenv0 True discctrl0)"

lemma livectrl0_ok:
  "c_state (r_ctrl livectrl0) = NVME_CTRL_LIVE" "lworks (r_ctrl livectrl0) = {}" "c_queue_count (r_ctrl livectrl0) = 1"
  "ctrl_ok (\<lambda>_. 0) {0..<1} {0..<1} (admin_objs \<union> async_objs) livectrl0"
proof -
  show l: "c_state (r_ctrl livectrl0) = NVME_CTRL_LIVE" by (simp add: livectrl0_def setup_admin_only[OF discctrl0_admin_only])
  obtain ret where s: "nvme_rdma_setup_ctrl setupenv0 True discctrl0 = (ret, livectrl0)"
    by (metis livectrl0_def prod.collapse)
  have w: "lworks (r_ctrl discctrl0) = {}"
    by (simp add: discctrl0_def r_ctrl_on lworks_def rctrl0_def nvme_init_ctrl_def)
  have oth: "\<forall>c. c_state c = NVME_CTRL_CONNECTING \<longrightarrow> se_others setupenv0 c = c" by (simp add: setupenv0_def)
  have b: "{} \<union> async_objs \<union> blk_objs True discctrl0 = admin_objs \<union> async_objs"
    by (auto simp: blk_objs_def discctrl0_fields)
  have st: "steady discctrl0 livectrl0 \<Longrightarrow> False"
    using l by (simp add: steady_def discctrl0_fields)
  have up: "ctrl_ok (\<lambda>_. 0) {0..<c_queue_count (r_ctrl livectrl0)} {0..<c_queue_count (r_ctrl livectrl0)}
      (admin_objs \<union> async_objs) livectrl0 \<and> lworks (r_ctrl livectrl0) = {} \<and>
      c_opts (r_ctrl livectrl0) = c_opts (r_ctrl discctrl0)"
  proof (rule setup_ctrl_outcome[OF discctrl0_ok _ _ setupenv0_ok[OF discctrl0_admin_only] s discctrl0_fields(3) oth])
    assume a: "ctrl_ok (\<lambda>_. 0) {0..<c_queue_count (r_ctrl livectrl0)} {0..<c_queue_count (r_ctrl livectrl0)}
        ({} \<union> async_objs \<union> blk_objs True discctrl0) livectrl0"
      and f: "c_opts (r_ctrl livectrl0) = c_opts (r_ctrl discctrl0)" "lworks (r_ctrl livectrl0) = lworks (r_ctrl discctrl0)"
    show ?thesis using a unfolding b f w by simp
  qed (use st in simp_all)
  then show "lworks (r_ctrl livectrl0) = {}" by simp
  from up have "queue_array_ok livectrl0" "1 \<le> c_queue_count (r_ctrl livectrl0)"
    "c_queue_count (r_ctrl livectrl0) \<le> length (r_queues livectrl0)"
    using ctrl_okD[OF conjunct1[OF up]] by simp_all
  then show q: "c_queue_count (r_ctrl livectrl0) = 1"
    using up by (simp add: queue_array_ok_def discctrl0_fields opts0_def)
  from up show "ctrl_ok (\<lambda>_. 0) {0..<1} {0..<1} (admin_objs \<union> async_objs) livectrl0" by (simp add: q)
qed


theorem deletion_releases_everything_witness:
  "blk_held (run_delete regenv0 setupenv0 (life_do Delete_request livectrl0)) = Some {}"
proof -
  let ?r = "life_do Delete_request livectrl0"
  have run: "life_reach livectrl0 (False \<or> dangling ?r) ?r" by (rule life_reach.step[OF life_reach.start]) simp
  have A: "async_objs \<union> admin_objs \<union> {} = admin_objs \<union> async_objs" by auto
  have up: "ctrl_ok (\<lambda>_. 0) {0..<c_queue_count (r_ctrl livectrl0)} {0..<c_queue_count (r_ctrl livectrl0)}
      (async_objs \<union> admin_objs \<union> {}) livectrl0"
    unfolding A livectrl0_ok(3) by (rule livectrl0_ok(4))
  have "c_state (r_ctrl ?r) = NVME_CTRL_DELETING" "c_queue_count (r_ctrl ?r) = 1"
    using livectrl0_ok(1,3) by (simp_all add: request_cases queue_work_def call_def nvme_change_ctrl_state_def Let_def)
  moreover have "\<not> (False \<or> dangling ?r)" using calculation by (simp add: dangling_def)
  ultimately show ?thesis
    using deletion_releases_everything[OF run _ livectrl0_ok(1,2) up, of regenv0 setupenv0] by simp
qed

end
