(* ===== verification/Ctrl_Recovery.thy ===== *)
theory Ctrl_Recovery
  imports Ctrl_Lifecycle
begin

text \<open>
  How a recovery ends: within the budget of reconnect attempts, or, where the code lets a deletion overtake
  it or reports an unusable controller as a success, in a broken or stuck controller.
\<close>

section \<open>The reconnect budget\<close>

text \<open>The reconnect work, run while it is pending and the controller is connecting.\<close>

definition reconnecting :: "nvme_rdma_ctrl \<Rightarrow> bool" where
  "reconnecting r \<longleftrightarrow> c_state (r_ctrl r) = NVME_CTRL_CONNECTING \<and> Reconnect_work \<in> c_pending (r_ctrl r)"

fun reconnects :: "setup_env list \<Rightarrow> nvme_rdma_ctrl \<Rightarrow> nvme_rdma_ctrl" where
  "reconnects [] r = r"
| "reconnects (e # es) r =
     (if reconnecting r then reconnects es (nvme_rdma_reconnect_ctrl_work e (started Reconnect_work r)) else r)"

text \<open>The answers during each attempt are those the set-up relies on, and nothing interferes with it.\<close>

fun attempts_ok :: "setup_env list \<Rightarrow> nvme_rdma_ctrl \<Rightarrow> bool" where
  "attempts_ok [] r = True"
| "attempts_ok (e # es) r =
     (reconnecting r \<longrightarrow> setup_env_ok e False (attempt r) \<and> se_others e = (\<lambda>c. c) \<and>
        attempts_ok es (nvme_rdma_reconnect_ctrl_work e (started Reconnect_work r)))"

lemma reconnects_stop: "\<not> reconnecting r \<Longrightarrow> reconnects es r = r"
  by (cases es) simp_all

text \<open>An attempt ends the recovery, or uses up one attempt of the budget.\<close>

lemma reconnect_attempt:
  assumes inv: "life_inv ext D r" and rc: "reconnecting r" and env: "setup_env_ok e False (attempt r)"
    and alone: "se_others e = (\<lambda>c. c)"
  shows "life_inv ext D (nvme_rdma_reconnect_ctrl_work e (started Reconnect_work r)) \<and>
    (let r' = nvme_rdma_reconnect_ctrl_work e (started Reconnect_work r)
     in reconnecting r' \<longrightarrow> c_opts (r_ctrl r') = c_opts (r_ctrl r) \<and>
          c_nr_reconnects (r_ctrl r') = c_nr_reconnects (r_ctrl r) + 1 \<and>
          nvmf_should_reconnect (r_ctrl r')) \<and>
    c_state (r_ctrl (nvme_rdma_reconnect_ctrl_work e (started Reconnect_work r))) \<in>
      {NVME_CTRL_CONNECTING, NVME_CTRL_LIVE, NVME_CTRL_DELETING}"
proof -
  note en = rc[unfolded reconnecting_def] env alone
  have c: "c_state (r_ctrl r) = NVME_CTRL_CONNECTING" "Reconnect_work \<in> lworks (r_ctrl r)"
    using rc by (simp_all add: lworks_mem reconnecting_def)
  with inv have d: "ctrl_down ext D (attempt r)" "lworks (r_ctrl (attempt r)) = {}"
    "c_state (r_ctrl (attempt r)) = NVME_CTRL_CONNECTING"
    by (auto simp: life_inv_def attempt_def count_upd)
  have a: "c_opts (r_ctrl (attempt r)) = c_opts (r_ctrl r)"
    "c_nr_reconnects (r_ctrl (attempt r)) = c_nr_reconnects (r_ctrl r) + 1"
    by (simp_all add: attempt_def r_ctrl_on)
  obtain ret r' where s: "nvme_rdma_setup_ctrl e False (attempt r) = (ret, r')" by fastforce
  have run: "nvme_rdma_reconnect_ctrl_work e (started Reconnect_work r) =
      (if ret \<noteq> 0 then nvme_rdma_reconnect_or_remove r' else on_ctrl (\<lambda>c. c\<lparr>c_nr_reconnects := 0\<rparr>) r')"
    using s by (simp add: nvme_rdma_reconnect_ctrl_work_def attempt_def Let_def)
  have "\<forall>c. c_state c = NVME_CTRL_CONNECTING \<longrightarrow> se_others e c = c" using alone by simp
  note sa = setup_again[OF d(1,3,2) env this s]
  show ?thesis
  proof (cases "ret = 0")
    case True
    with sa have i: "life_inv ext D r'" "lworks (r_ctrl r') = {}" by simp_all
    then have "\<not> reconnecting (on_ctrl (\<lambda>c. c\<lparr>c_nr_reconnects := 0\<rparr>) r')"
      by (simp add: reconnecting_def lworks_mem count_upd)
    moreover have "c_state (r_ctrl r') \<in> {NVME_CTRL_CONNECTING, NVME_CTRL_LIVE}"
      using i by (cases "c_state (r_ctrl r')") (simp_all add: life_inv_def)
    then have "c_state (r_ctrl (on_ctrl (\<lambda>c. c\<lparr>c_nr_reconnects := 0\<rparr>) r')) \<in>
        {NVME_CTRL_CONNECTING, NVME_CTRL_LIVE, NVME_CTRL_DELETING}" by (auto simp: count_upd)
    ultimately show ?thesis using inv_reconnect[OF inv conjunct1[OF en(1)] conjunct2[OF en(1)] en(2,3)] True unfolding run by simp
  next
    case False
    with sa have f: "c_state (r_ctrl r') = NVME_CTRL_CONNECTING" "lworks (r_ctrl r') = {}" "steady (attempt r) r'"
      by simp_all
    then have ab: "c_opts (r_ctrl r') = c_opts (r_ctrl r)" "c_nr_reconnects (r_ctrl r') = c_nr_reconnects (r_ctrl r) + 1"
      using a by (simp_all add: steady_def)
    let ?w = "nvme_rdma_reconnect_or_remove r'"
    have "(reconnecting ?w \<longrightarrow> c_opts (r_ctrl ?w) = c_opts (r_ctrl r) \<and>
          c_nr_reconnects (r_ctrl ?w) = c_nr_reconnects (r_ctrl r) + 1 \<and> nvmf_should_reconnect (r_ctrl ?w)) \<and>
        c_state (r_ctrl ?w) \<in> {NVME_CTRL_CONNECTING, NVME_CTRL_DELETING}"
    proof (cases "nvmf_should_reconnect (r_ctrl r')")
      case True
      then have "?w = on_ctrl (\<lambda>c. snd (queue_delayed_work Reconnect_work (o_reconnect_delay (c_opts c)) c)) r'"
        using f(1) by (simp add: nvme_rdma_reconnect_or_remove_def)
      with True ab f(1) show ?thesis by (simp add: r_ctrl_on nvmf_should_reconnect_def queue_delayed_work_def call_def)
    next
      case False
      then have "?w = on_ctrl (\<lambda>c. snd (nvme_delete_ctrl c)) r'"
        using f(1) by (simp add: nvme_rdma_reconnect_or_remove_def)
      then show ?thesis using f(1) by (simp add: reconnecting_def request_cases)
    qed
    with inv_reconnect[OF inv conjunct1[OF en(1)] conjunct2[OF en(1)] en(2,3)] False show ?thesis unfolding run by (auto simp: Let_def)
  qed
qed

lemma not_reconnecting_end:
  assumes "life_inv ext D r" and "c_state (r_ctrl r) \<in> {NVME_CTRL_CONNECTING, NVME_CTRL_LIVE, NVME_CTRL_DELETING}"
    and "\<not> reconnecting r"
  shows "c_state (r_ctrl r) = NVME_CTRL_LIVE \<or> c_state (r_ctrl r) = NVME_CTRL_DELETING \<or>
    c_state (r_ctrl r) = NVME_CTRL_CONNECTING \<and> \<not> usable r"
  using assms by (auto simp: life_inv_def reconnecting_def lworks_mem)

text \<open>C7. A recovery comes to an end. With a limit on the attempts, once the reconnect work has run as often as
  the limit still allows, whatever each attempt met, the controller is live again or is being deleted, or is
  one the transport cannot use (which it reports as reconnected, and never tries again).
\<close>

theorem recovery_ends:
  assumes "life_inv ext D r" and "reconnecting r" and "o_max_reconnects (c_opts (r_ctrl r)) \<noteq> - 1"
    and "attempts_ok es r" and "es \<noteq> []"
    and "o_max_reconnects (c_opts (r_ctrl r)) - c_nr_reconnects (r_ctrl r) \<le> int (length es)"
  shows "let r' = reconnects es r
    in c_state (r_ctrl r') = NVME_CTRL_LIVE \<or> c_state (r_ctrl r') = NVME_CTRL_DELETING \<or>
       c_state (r_ctrl r') = NVME_CTRL_CONNECTING \<and> \<not> usable r'"
  using assms
proof (induction es arbitrary: r)
  case (Cons e es)
  let ?r = "nvme_rdma_reconnect_ctrl_work e (started Reconnect_work r)"
  have env: "setup_env_ok e False (attempt r)" "se_others e = (\<lambda>c. c)" "attempts_ok es ?r"
    using Cons.prems(2,4) by simp_all
  note step = reconnect_attempt[OF Cons.prems(1,2) env(1,2)]
  have run: "reconnects (e # es) r = reconnects es ?r" using Cons.prems(2) by simp
  show ?case
  proof (cases "reconnecting ?r")
    case True
    with step have s: "life_inv ext D ?r" "c_opts (r_ctrl ?r) = c_opts (r_ctrl r)"
      "c_nr_reconnects (r_ctrl ?r) = c_nr_reconnects (r_ctrl r) + 1" "nvmf_should_reconnect (r_ctrl ?r)"
      by (simp_all add: Let_def)
    with Cons.prems(3) have "c_nr_reconnects (r_ctrl r) + 1 < o_max_reconnects (c_opts (r_ctrl r))"
      by (simp add: nvmf_should_reconnect_def)
    with Cons.prems(6) have "es \<noteq> []" by auto
    with Cons.IH[OF s(1) True _ env(3)] Cons.prems(3,6) s(2,3) show ?thesis unfolding run by simp
  next
    case False
    with step not_reconnecting_end[of ext D ?r] show ?thesis
      unfolding run reconnects_stop[OF False] by (simp add: Let_def)
  qed
qed simp

text \<open>A controller with one attempt left, and answers that make the attempt fail at once.\<close>

definition lostctrl0 :: nvme_rdma_ctrl where
  "lostctrl0 = on_ctrl (\<lambda>c. (snd (queue_delayed_work Reconnect_work 10 c))
     \<lparr>c_opts := (c_opts c)\<lparr>o_max_reconnects := 1\<rparr>\<rparr>) discctrl0"

definition failenv0 :: setup_env where
  "failenv0 = setupenv0\<lparr>se_admin := qenv0\<lparr>qe_create_id := - ENOMEM, qe_events := []\<rparr>\<rparr>"

lemma lostctrl0_inv: "life_inv (\<lambda>_. 0) {} lostctrl0" "reconnecting lostctrl0"
  "o_max_reconnects (c_opts (r_ctrl lostctrl0)) = 1" "c_nr_reconnects (r_ctrl lostctrl0) = 0"
proof -
  have m: "mtrace (r_ctrl lostctrl0) = mtrace (r_ctrl discctrl0)"
    by (simp add: lostctrl0_def r_ctrl_on mtrace_def queue_delayed_work_def call_def)
  have "ctrl_ok (\<lambda>_. 0) {} {} {} lostctrl0"
  proof -
    have "held i lostctrl0 = held i discctrl0" for i using m by (simp add: held_def queue_calls_mtrace)
    then have "queues_ok (\<lambda>_. 0) {} {} lostctrl0 = queues_ok (\<lambda>_. 0) {} {} discctrl0"
      by (intro queues_ok_cong) (simp_all add: lostctrl0_def on_ctrl_def)
    moreover have "blk_held lostctrl0 = blk_held discctrl0" using m by (simp add: blk_held_def blk_calls_mtrace)
    moreover have "\<not> r_async_sqe discctrl0" by (simp add: discctrl0_def on_ctrl_def rctrl0_def)
    ultimately show ?thesis
      using discctrl0_ok by (simp add: ctrl_ok_def queue_array_ok_def)
        (simp add: lostctrl0_def on_ctrl_def queue_delayed_work_def call_def)
  qed
  moreover have "c_pending (r_ctrl discctrl0) = {}"
    by (simp add: discctrl0_def r_ctrl_on rctrl0_def nvme_init_ctrl_def)
  then have "lworks (r_ctrl lostctrl0) = {Reconnect_work}" "c_state (r_ctrl lostctrl0) = NVME_CTRL_CONNECTING"
    by (simp_all add: lostctrl0_def r_ctrl_on discctrl0_fields queue_delayed_work_def lworks_def call_def)
  ultimately show "life_inv (\<lambda>_. 0) {} lostctrl0" by (simp add: life_inv_def ctrl_down_def)
  show "reconnecting lostctrl0"
    by (simp add: reconnecting_def lostctrl0_def r_ctrl_on discctrl0_fields queue_delayed_work_def call_def)
  show "o_max_reconnects (c_opts (r_ctrl lostctrl0)) = 1" "c_nr_reconnects (r_ctrl lostctrl0) = 0"
    by (simp_all add: lostctrl0_def r_ctrl_on queue_delayed_work_def discctrl0_def rctrl0_def nvme_init_ctrl_def call_def)
qed

lemma failenv0_fails: "nvme_rdma_setup_ctrl failenv0 new r =
   (- ENOMEM, snd (alloc_queue_resolve (se_admin failenv0) 0 NVME_AQ_DEPTH r))"
  by (simp add: nvme_rdma_setup_ctrl_def nvme_rdma_configure_admin_queue_def nvme_rdma_alloc_queue_def
      alloc_queue_resolve_def failenv0_def setupenv0_def qenv0_def Let_def)

lemma failenv0_ok: "attempts_ok [failenv0] lostctrl0"
proof -
  have d: "r_devs (attempt lostctrl0) = []"
    by (simp add: attempt_def started_def lostctrl0_def on_ctrl_def discctrl0_def rctrl0_def)
  have "fst (nvme_rdma_configure_admin_queue failenv0 False s) \<noteq> 0" for s
    by (simp add: nvme_rdma_configure_admin_queue_def nvme_rdma_alloc_queue_def
      alloc_queue_resolve_def failenv0_def setupenv0_def qenv0_def Let_def)
  then have "setup_env_ok failenv0 False (attempt lostctrl0)"
    by (simp add: setup_env_ok_def admin_env_ok_def split_beta) (simp add: failenv0_def setupenv0_def qenv0_def dev_env_ok_def d)
  then show ?thesis by (simp add: failenv0_def setupenv0_def)
qed

theorem recovery_ends_witness:
  "c_state (r_ctrl (reconnects [failenv0] lostctrl0)) = NVME_CTRL_DELETING"
proof -
  let ?r = "attempt lostctrl0" and ?s = "snd (alloc_queue_resolve (se_admin failenv0) 0 NVME_AQ_DEPTH (attempt lostctrl0))"
  have r: "c_nr_reconnects (r_ctrl ?r) = 1" "o_max_reconnects (c_opts (r_ctrl ?r)) = 1"
    "c_state (r_ctrl ?r) = NVME_CTRL_CONNECTING"
    using lostctrl0_inv by (simp_all add: attempt_def r_ctrl_on count_upd) (simp add: reconnecting_def)
  have s: "r_ctrl ?s = call (Q 0 (Rdma_create_id (- ENOMEM))) (r_ctrl ?r)"
    by (simp add: alloc_queue_resolve_def failenv0_def setupenv0_def qenv0_def emit_def Let_def)
  have "reconnects [failenv0] lostctrl0 = nvme_rdma_reconnect_or_remove ?s"
    using lostctrl0_inv(2) failenv0_fails[of False ?r]
    by (simp add: nvme_rdma_reconnect_ctrl_work_def attempt_def Let_def)
  moreover have "nvme_rdma_reconnect_or_remove ?s = on_ctrl (\<lambda>c. snd (nvme_delete_ctrl c)) ?s"
    using r by (simp add: nvme_rdma_reconnect_or_remove_def nvmf_should_reconnect_def s) (simp add: call_def)
  ultimately have "c_state (r_ctrl (reconnects [failenv0] lostctrl0)) \<noteq> NVME_CTRL_CONNECTING \<and>
      c_state (r_ctrl (reconnects [failenv0] lostctrl0)) \<noteq> NVME_CTRL_LIVE"
    using r by (simp add: request_cases s)
  with recovery_ends[OF lostctrl0_inv(1,2) _ failenv0_ok] lostctrl0_inv(3,4) show ?thesis
    by (auto simp: Let_def)
qed

section \<open>A deletion that overtakes a reconnect\<close>

lemma free_queue_frame: "queue_frame i r (nvme_rdma_free_queue i r)"
proof -
  have d: "queue_frame i r (nvme_rdma_destroy_queue_ib i s) = queue_frame i r s" for s
    by (simp add: nvme_rdma_destroy_queue_ib_def free_ring_emits qemit_emits Let_def)
  show ?thesis by (simp add: nvme_rdma_free_queue_def d qemit_emits Let_def)
qed

lemma stop_queue_frame: "queue_frame i r (nvme_rdma_stop_queue i r)"
  by (simp add: nvme_rdma_stop_queue_def do_stop_queue_def qemit_emits)

text \<open>The other queues do not matter to a queue.\<close>

definition same_queue :: "nat \<Rightarrow> nvme_rdma_ctrl \<Rightarrow> nvme_rdma_ctrl \<Rightarrow> bool" where
  "same_queue k r r' \<longleftrightarrow> queue r' k = queue r k \<and> held k r' = held k r \<and> length (r_queues r') = length (r_queues r)"

lemma same_queue_trans: "same_queue k r r' \<Longrightarrow> same_queue k r' r'' \<Longrightarrow> same_queue k r r''"
  by (simp add: same_queue_def)

lemma queue_frame_same: "queue_frame i r r' \<Longrightarrow> i \<noteq> k \<Longrightarrow> same_queue k r r'"
  by (auto simp: same_queue_def queue_frame_def)

lemma fold_same_queue:
  assumes "\<And>i s. queue_frame i s (f i s)" and "k \<notin> set js"
  shows "same_queue k r (fold f js r)"
  using assms(2)
proof (induction js arbitrary: r)
  case (Cons j js)
  have "same_queue k r (f j r)" using assms(1) Cons.prems by (intro queue_frame_same) auto
  with Cons show ?case by (auto intro: same_queue_trans)
qed (simp add: same_queue_def)

lemma upt_split: "m \<le> k \<Longrightarrow> k < n \<Longrightarrow> [m..<n] = [m..<k] @ k # [Suc k..<n]"
  by (metis upt_add_eq_append le_Suc_ex less_imp_le_nat upt_conv_Cons le_trans)

lemma fold_at:
  assumes "\<And>i s. queue_frame i s (f i s)" and "m \<le> k" and "k < n"
  obtains s where "same_queue k r s" "same_queue k (f k s) (fold f [m..<n] r)"
proof -
  let ?s = "fold f [m..<k] r"
  have "fold f [m..<n] r = fold f [Suc k..<n] (f k ?s)" by (simp add: upt_split[OF assms(2,3)])
  with that[of ?s] fold_same_queue[of f k "[m..<k]" r] fold_same_queue[of f k "[Suc k..<n]" "f k ?s"] assms(1)
  show thesis by simp
qed

lemma same_queue_emit: "ctrl_only q \<Longrightarrow> same_queue k r (emit q r)"
  by (simp add: same_queue_def)

lemma destroy_admin_same_queue: "0 < k \<Longrightarrow> same_queue k r (destroy_admin False r)"
proof -
  assume k: "0 < k"
  have h: "held k (s\<lparr>r_async_sqe := b\<rparr>) = held k s" for s b by (simp add: held_def queue_calls_def)
  have a: "same_queue k s (free_async_qe s)" for s
    by (simp add: same_queue_def free_async_qe_def h ctrl_only_def)
  have f: "same_queue k s (nvme_rdma_free_queue 0 s)" "same_queue k s (nvme_rdma_stop_queue 0 s)" for s
    using k by (simp_all add: queue_frame_same[OF free_queue_frame[of 0]] queue_frame_same[OF stop_queue_frame[of 0]])
  show ?thesis
    using same_queue_trans[OF same_queue_trans[OF f(2) a] f(1)]
    by (simp add: destroy_admin_def nvme_rdma_destroy_admin_queue_def)
qed

text \<open>A deletion that overtakes a reconnect corrupts the controller: when a controller is deleted between
  the moment its reconnect work starts and the moment it would go live, the work destroys the I/O queues
  without stopping them. Their live flags stay set on queues that hold nothing any more, and the deletion,
  which stops the queues it believes live, disconnects and drains destroyed objects.
\<close>

theorem reconnect_overtaken_by_delete:
  assumes "ctrl_ok ext {0..<n} {0..<n} B r" and "n = c_queue_count (r_ctrl r)" and "0 < k" and "k < n"
    and "c_state (r_ctrl r) = NVME_CTRL_DELETING"
  shows "let (ret, r') = go_live e False r
    in ret = - EINVAL \<and> held k r' = Some {} \<and> q_live (queue r' k) \<and>
       held k (nvme_rdma_stop_io_queues (emit Stop_queues r')) = None"
proof -
  have nn: "1 < n" using assms(3,4) by simp
  let ?r = "r\<lparr>r_ctrl := snd (nvme_change_ctrl_state NVME_CTRL_LIVE (r_ctrl r))\<rparr>"
  have c: "snd (nvme_change_ctrl_state NVME_CTRL_LIVE (r_ctrl r)) = r_ctrl r"
    using assms(5) by (simp add: nvme_change_ctrl_state_def)
  then have rr: "?r = r" by simp
  let ?i = "nvme_rdma_free_io_queues r"
  have g: "go_live e False r = (- EINVAL, destroy_admin False ?i)"
    using assms(2,5) nn by (simp add: go_live_def on_ctrl_ret_def rr c destroy_io_def nvme_rdma_destroy_io_queues_def Let_def)
  have len: "k < length (r_queues r)" using ctrl_okD(4)[OF assms(1)] assms(2,4) by simp
  have up: "queue_up k r" "q_live (queue r k)"
    using ctrl_okD(1)[OF assms(1)] assms(3,4) queues_ok_up[of ext "{0..<n}" "{0..<n}" r k]
      queues_ok_live[of ext "{0..<n}" "{0..<n}" r k] by auto
  obtain s where s: "same_queue k r s" "same_queue k (nvme_rdma_free_queue k s) ?i"
    unfolding nvme_rdma_free_io_queues_def
    by (rule fold_at[of nvme_rdma_free_queue 1 k n r]) (use free_queue_frame assms(2-4) in auto)
  have "queue_up k s" using up(1) s(1) by (simp add: queue_up_def same_queue_def)
  moreover obtain a where "q_device (queue s k) = Some a" using calculation by (auto simp: queue_up_def)
  ultimately have f: "held k (nvme_rdma_free_queue k s) = Some {}" "q_live (queue (nvme_rdma_free_queue k s) k)"
    using free_queue_up[of k s a] s(1) up(2) len by (auto simp: same_queue_def)
  have d: "same_queue k (nvme_rdma_free_queue k s) (destroy_admin False ?i)"
    using same_queue_trans[OF s(2) destroy_admin_same_queue[OF assms(3)]] .
  let ?e = "emit Stop_queues (destroy_admin False ?i)"
  have q: "c_queue_count (r_ctrl ?e) = n"
    using steady_destroy(3)[of ?i False] steady_queue(5)[of r] assms(2)
    by (simp add: steady_count_def emit_def call_def)
  obtain t where t: "same_queue k ?e t" "same_queue k (nvme_rdma_stop_queue k t) (nvme_rdma_stop_io_queues ?e)"
    unfolding nvme_rdma_stop_io_queues_def q
    by (rule fold_at[of nvme_rdma_stop_queue 1 k n ?e]) (use stop_queue_frame assms(3,4) in auto)
  have "same_queue k (nvme_rdma_free_queue k s) t"
    using same_queue_trans[OF same_queue_trans[OF d same_queue_emit] t(1)] by (simp add: ctrl_only_def)
  then have "held k t = Some {}" "q_live (queue t k)" using f by (simp_all add: same_queue_def)
  then have "held k (nvme_rdma_stop_queue k t) = None"
    by (simp add: nvme_rdma_stop_queue_def do_stop_queue_def qemit_emits use_res_def)
  with t(2) f d show ?thesis unfolding g by (simp add: same_queue_def)
qed

section \<open>A controller the transport cannot use\<close>

text \<open>Cleaning up block layer queues that are not there is a fault no later call repairs.\<close>

lemma teardown_admin_gone:
  assumes "blk_held r = None \<or> blk_held r = Some {}"
  shows "blk_held (nvme_rdma_teardown_admin_queue True r) = None"
proof -
  have q: "blk_held (nvme_rdma_stop_queue 0 s) = blk_held s" "blk_held (nvme_rdma_free_queue 0 s) = blk_held s" for s
    by (rule calm_blk_held; simp)+
  have a: "blk_held (s\<lparr>r_async_sqe := b\<rparr>) = blk_held s" for s b by (simp add: blk_held_def blk_calls_def)
  let ?r = "emit Unquiesce_admin (cancel_busy (c_admin_tagset (r_ctrl (nvme_rdma_stop_queue 0 (emit Quiesce_admin r))))
      True (nvme_rdma_stop_queue 0 (emit Quiesce_admin r)))"
  have "blk_held ?r = blk_held r" by (simp add: blk_held_emit cancel_busy_def q)
  with assms have "blk_held (emit (Cleanup_queue Admin_q) ?r) = None"
    by (auto simp: blk_held_emit drop_obj_def)
  then have "blk_held (free_async_qe (emit (Free_tagset True) (emit (Cleanup_queue Fabrics_q) (emit (Cleanup_queue Admin_q) ?r)))) = None"
    by (simp add: free_async_qe_def a blk_held_emit)
  then show ?thesis
    by (simp add: nvme_rdma_teardown_admin_queue_def nvme_rdma_destroy_admin_queue_def q Let_def)
qed

lemma teardown_io_gone:
  assumes "blk_held r = Some {}"
  shows "blk_held (nvme_rdma_teardown_io_queues True r) = None \<or> blk_held (nvme_rdma_teardown_io_queues True r) = Some {}"
proof (cases "c_queue_count (r_ctrl r) > 1")
  case True
  have q: "blk_held (nvme_rdma_stop_io_queues s) = blk_held s" "blk_held (nvme_rdma_free_io_queues s) = blk_held s" for s
    by (rule calm_blk_held; simp)+
  let ?r = "emit Start_queues (cancel_busy (c_tagset (r_ctrl (nvme_rdma_stop_io_queues (emit Stop_queues r)))) False
      (nvme_rdma_stop_io_queues (emit Stop_queues r)))"
  have "blk_held ?r = Some {}" using assms by (simp add: blk_held_emit cancel_busy_def q)
  then have "blk_held (emit (Free_tagset False) (emit (Cleanup_queue Connect_q) ?r)) = None"
    by (simp add: blk_held_emit drop_obj_def)
  with True show ?thesis
    by (simp add: nvme_rdma_teardown_io_queues_def nvme_rdma_destroy_io_queues_def q Let_def)
qed (use assms in \<open>simp add: nvme_rdma_teardown_io_queues_def\<close>)

text \<open>A controller with in-capsule data at an offset, or without keyed SGLs, is taken down again under a success code:
  its creation believes it connected. When it is deleted later, its tag sets and block layer queues are
  cleaned up a second time.
\<close>

theorem unusable_created_then_deleted:
  assumes "ctrl_ok ext {} {} {} r" and "setup_env_ok e True r"
    and "c_state (r_ctrl r) = NVME_CTRL_CONNECTING" and "se_others e = (\<lambda>c. c)"
    and "nvme_rdma_setup_ctrl e True r = (0, r')" and "\<not> usable r'"
  shows "c_state (r_ctrl r') = NVME_CTRL_CONNECTING \<and> blk_held r' = Some {} \<and>
    blk_held (nvme_rdma_delete_ctrl re r') = None"
proof -
  have down: "ctrl_ok ext {} {} {} r' \<and> c_state (r_ctrl r') = NVME_CTRL_CONNECTING"
    by (rule setup_ctrl_outcome[OF assms(1) _ _ assms(2,5,3)])
      (use assms(3,4,6) in \<open>simp_all add: usable_def steady_def\<close>)
  let ?r = "on_ctrl (cancel_work_sync Reconnect_work) (on_ctrl (cancel_work_sync Err_work) r')"
  let ?f = "\<lambda>s. snd (on_ctrl_ret (nvme_shutdown_ctrl re) (emit Quiesce_admin s))"
  have run: "nvme_rdma_delete_ctrl re r' =
      nvme_rdma_teardown_admin_queue True (?f (nvme_rdma_teardown_io_queues True ?r))"
    by (simp add: nvme_rdma_delete_ctrl_def nvme_rdma_shutdown_ctrl_def Let_def split_beta)
  have fr: "blk_held (s\<lparr>r_ctrl := c\<rparr>) = blk_held s" if "ctrl_frame (r_ctrl s) c" for s c
    using that by (simp add: blk_held_def blk_calls_mtrace ctrl_frame_def)
  have "blk_held ?r = Some {}"
    using ctrl_okD(5)[OF conjunct1[OF down]] by (simp add: on_ctrl_def fr)
  from teardown_io_gone[OF this]
  have "blk_held (?f (nvme_rdma_teardown_io_queues True ?r)) = None \<or>
      blk_held (?f (nvme_rdma_teardown_io_queues True ?r)) = Some {}"
    by (simp add: on_ctrl_ret_def fr blk_held_emit)
  from teardown_admin_gone[OF this] down ctrl_okD(5)[OF conjunct1[OF down]] show ?thesis unfolding run by simp
qed

section \<open>Concrete instances\<close>

definition nosglenv0 :: setup_env where
  "nosglenv0 = setupenv0\<lparr>se_identify := identenv0\<lparr>ide_identify := (0, idc0\<lparr>id_sgls := 0\<rparr>)\<rparr>\<rparr>"

lemma nosgl_good:
  assumes "c_cntlid c = 3"
  shows "fst (nvme_init_identify (se_identify nosglenv0) c) = 0"
    "c_sgls (snd (nvme_init_identify (se_identify nosglenv0) c)) = 0"
  using assms by (simp_all add: nosglenv0_def setupenv0_def identify_example_defs Let_def)

lemma nosgl_setup:
  "fst (nvme_rdma_setup_ctrl nosglenv0 True discctrl0) = 0 \<and>
   \<not> usable (snd (nvme_rdma_setup_ctrl nosglenv0 True discctrl0))"
proof -
  have sub: "se_submit nosglenv0 cmd data = (0, 3)" "se_regs nosglenv0 = regenv0" for cmd data
    by (simp_all add: setupenv0_def nosglenv0_def)
  have g: "admin_good nosglenv0 discctrl0"
    using setupenv0_good[OF discctrl0_admin_only] by (simp add: admin_good_def nosglenv0_def)
  obtain s where s: "nvme_rdma_configure_admin_queue nosglenv0 True discctrl0 =
      (0, s\<lparr>r_ctrl := snd (nvme_init_identify (se_identify nosglenv0) (r_ctrl s))\<rparr>)" "c_cntlid (r_ctrl s) = 3"
    by (rule configure_admin_good[OF g, where v = 3 and new = True])
      (simp_all add: sub regenv0_enable nosgl_good discctrl0_fields)
  let ?s = "s\<lparr>r_ctrl := snd (nvme_init_identify (se_identify nosglenv0) (r_ctrl s))\<rparr>"
  have "nvme_rdma_setup_ctrl nosglenv0 True discctrl0 = (0, destroy_admin True ?s)"
    using nosgl_good[OF s(2)] by (simp add: nvme_rdma_setup_ctrl_def s(1) Let_def)
  then show ?thesis
    using destroy_admin_same_sgl[of ?s True] nosgl_good(2)[OF s(2)] by (simp add: usable_def same_sgl_def)
qed

lemma nosgl_ok: "setup_env_ok nosglenv0 True discctrl0"
proof -
  have "admin_env_ok nosglenv0 discctrl0"
    using setupenv0_ok[OF discctrl0_admin_only] by (simp add: setup_env_ok_def admin_env_ok_def nosglenv0_def)
  moreover have "c_queue_count (r_ctrl (snd (nvme_rdma_configure_admin_queue nosglenv0 True discctrl0))) = 1"
    using steady_configure_admin[of discctrl0 nosglenv0 True] by (simp add: steady_count_def discctrl0_fields)
  ultimately show ?thesis by (simp add: setup_env_ok_def split_beta)
qed

theorem unusable_created_then_deleted_witness:
  "blk_held (nvme_rdma_delete_ctrl regenv0 (snd (nvme_rdma_setup_ctrl nosglenv0 True discctrl0))) = None"
proof -
  let ?r = "snd (nvme_rdma_setup_ctrl nosglenv0 True discctrl0)"
  have run: "nvme_rdma_setup_ctrl nosglenv0 True discctrl0 = (0, ?r)" using nosgl_setup by (metis prod.collapse)
  have "se_others nosglenv0 = (\<lambda>c. c)" by (simp add: nosglenv0_def setupenv0_def)
  with unusable_created_then_deleted[OF discctrl0_ok nosgl_ok discctrl0_fields(3) _ run, of regenv0] nosgl_setup
  show ?thesis by simp
qed

text \<open>A controller with one I/O queue, both queues live, on its way out.\<close>

definition qenv1 :: queue_env where
  "qenv1 = qenv0\<lparr>qe_dev := (qe_dev qenv0)\<lparr>de_kzalloc := None\<rparr>\<rparr>"

definition idlectrl0 :: nvme_rdma_ctrl where
  "idlectrl0 = on_ctrl (\<lambda>c. c\<lparr>c_queue_count := 2, c_state := NVME_CTRL_DELETING,
     c_opts := opts0\<lparr>o_nr_io_queues := 1\<rparr>\<rparr>) (rctrl0 2)"

definition bothup0 :: nvme_rdma_ctrl where
  "bothup0 = snd (nvme_rdma_alloc_queue qenv1 1 2 (snd (nvme_rdma_alloc_queue qenv0 0 NVME_AQ_DEPTH idlectrl0)))"

definition overtaken0 :: nvme_rdma_ctrl where
  "overtaken0 = snd (nvme_rdma_start_queue (\<lambda>_. 0) 1 (snd (nvme_rdma_start_queue (\<lambda>_. 0) 0 bothup0)))"

lemma idlectrl0_ok: "ctrl_ok (\<lambda>_. 0) {} {} {} idlectrl0"
proof -
  have "queues_ok (\<lambda>_. 0) {} {} idlectrl0 = queues_ok (\<lambda>_. 0) {} {} (rctrl0 2)"
    by (intro queues_ok_cong) (simp_all add: idlectrl0_def on_ctrl_def held_def queue_calls_def)
  then show ?thesis
    using rctrl0_queues_ok[of 2]
    by (simp add: ctrl_ok_def queue_array_ok_def)
      (simp add: idlectrl0_def on_ctrl_def rctrl0_def blk_held_def blk_calls_def nvme_init_ctrl_def opts0_def)
qed

lemma overtaken0_ok:
  "ctrl_ok (\<lambda>_. 0) {0..<2} {0..<2} {} overtaken0" "c_queue_count (r_ctrl overtaken0) = 2"
  "c_state (r_ctrl overtaken0) = NVME_CTRL_DELETING"
proof -
  let ?r1 = "snd (nvme_rdma_alloc_queue qenv0 0 NVME_AQ_DEPTH idlectrl0)"
  have g: "queue_good qenv0" "queue_good qenv1" by (simp_all add: queue_good_def qenv0_def qenv1_def)
  have d0: "r_devs idlectrl0 = []" "length (r_queues idlectrl0) = 2"
    by (simp_all add: idlectrl0_def on_ctrl_def rctrl0_def)
  have dg: "dev_good qenv0 (r_devs idlectrl0)" "dev_env_ok (qe_dev qenv0) (r_devs idlectrl0)"
    by (simp_all add: dev_good_def dev_env_ok_def d0 nvme_rdma_find_get_device_def) (simp_all add: qenv0_def)
  have a0: "nvme_rdma_alloc_queue qenv0 0 NVME_AQ_DEPTH idlectrl0 = (0, ?r1)"
    using alloc_queue_good(1)[OF g(1) dg(1)] d0 by (simp add: prod_eq_iff)
  have 1: "ctrl_ok (\<lambda>_. 0) {0} {} {} ?r1"
    using alloc_queue_ctrl_ok[OF idlectrl0_ok _ _ dg(2) alloc_queue_good(3)[OF g(1) dg(1)] a0] d0 by simp
  have dg1: "dev_good qenv1 (r_devs ?r1)" "dev_env_ok (qe_dev qenv1) (r_devs ?r1)"
    using alloc_queue_good(2)[OF g(1) dg(1), of 0 NVME_AQ_DEPTH] d0
    by (simp_all add: dev_good_def dev_env_ok_def nvme_rdma_find_get_device_def) (simp_all add: qenv0_def qenv1_def nvme_rdma_dev_get_def)
  have s1: "steady_count idlectrl0 ?r1" by simp
  then have "c_queue_count (r_ctrl ?r1) = 2"
    by (simp add: steady_count_def) (simp add: idlectrl0_def on_ctrl_def)
  then have l1: "1 < length (r_queues ?r1)" using ctrl_okD(4)[OF 1] by simp
  have a1: "nvme_rdma_alloc_queue qenv1 1 2 ?r1 = (0, bothup0)"
    using alloc_queue_good(1)[OF g(2) dg1(1) l1] by (simp add: prod_eq_iff bothup0_def)
  have 2: "ctrl_ok (\<lambda>_. 0) {0, 1} {} {} bothup0"
    using alloc_queue_ctrl_ok[OF 1 _ l1 dg1(2) alloc_queue_good(3)[OF g(2) dg1(1) l1] a1] by (simp add: insert_commute)
  let ?r3 = "snd (nvme_rdma_start_queue (\<lambda>_. 0) 0 bothup0)"
  have a3: "nvme_rdma_start_queue (\<lambda>_. 0) 0 bothup0 = (0, ?r3)" "nvme_rdma_start_queue (\<lambda>_. 0) 1 ?r3 = (0, overtaken0)"
    by (simp_all add: overtaken0_def nvme_rdma_start_queue_def Let_def)
  have 3: "ctrl_ok (\<lambda>_. 0) {0, 1} {0} {} ?r3" using start_queue_ctrl_ok[OF 2 _ a3(1)] by simp
  have "ctrl_ok (\<lambda>_. 0) {0, 1} {0, 1} {} overtaken0"
    using start_queue_ctrl_ok[OF 3 _ a3(2)] by (simp add: insert_commute)
  moreover have "{0, 1} = {0..<2 :: nat}" by auto
  ultimately show "ctrl_ok (\<lambda>_. 0) {0..<2} {0..<2} {} overtaken0" by simp
  have "steady_count idlectrl0 overtaken0"
    unfolding overtaken0_def bothup0_def
    by (rule steady_count_trans[OF _ steady_queue(3)], rule steady_count_trans[OF _ steady_queue(3)],
        rule steady_count_trans[OF _ steady_queue(4)], rule steady_queue(4))
  then show "c_queue_count (r_ctrl overtaken0) = 2" "c_state (r_ctrl overtaken0) = NVME_CTRL_DELETING"
    by (simp_all add: steady_count_def steady_def) (simp_all add: idlectrl0_def on_ctrl_def)
qed

theorem reconnect_overtaken_by_delete_witness:
  "held 1 (nvme_rdma_stop_io_queues (emit Stop_queues (snd (go_live setupenv0 False overtaken0)))) = None"
  using reconnect_overtaken_by_delete[OF overtaken0_ok(1) overtaken0_ok(2)[symmetric] _ _ overtaken0_ok(3), of 1 setupenv0]
  by (simp add: split_beta Let_def)

end
