(* ===== verification/Rdma_Completion.thy ===== *)
theory Rdma_Completion
  imports Rdma_Data Rdma_Ctrl
begin

text \<open>
  Completions on the RDMA transport (\<open>host/rdma.c\<close>): the send, receive, registration and invalidation
  completions of a request, the response that is matched with its tag, and the asynchronous event
  command. A request's reference count starts at two, one for the capsule sent and one for the answer;
  the step relation \<open>flight_step\<close> runs the handlers in every order the hardware may report them.
\<close>

section \<open>Completion handlers\<close>

text \<open>A work completion: success, and the rkey the peer invalidated with a \<open>SEND_WITH_INVALIDATE\<close>.\<close>

record ib_wc =
  wc_success :: bool
  wc_invalidate :: "u32 option"

record nvme_completion =
  cqe_command_id :: u16
  cqe_status :: u16
  cqe_result :: u64

abbreviation (input) REFCOUNT_SATURATED :: int where "REFCOUNT_SATURATED \<equiv> - 1073741824"

definition refcount_dec_and_test :: "int \<Rightarrow> bool \<times> int" where
  "refcount_dec_and_test ref =
     (if ref = 1 then (True, 0) else if ref \<le> 0 then (False, REFCOUNT_SATURATED) else (False, ref - 1))"

text \<open>Dropping a reference; the last one ends the request with the stored response.\<close>

definition put_ref :: "io_slot \<Rightarrow> io_slot" where
  "put_ref s =
     (let (last, ref) = refcount_dec_and_test (rr_ref (s_rr s));
          s = s\<lparr>s_rr := (s_rr s)\<lparr>rr_ref := ref\<rparr>\<rparr>
      in if last
         then dcall End_request
                (s\<lparr>s_rq := nvme_end_request (rr_status (s_rr s)) (rr_result (s_rr s)) (s_rq s)\<rparr>)
         else s)"

definition nvme_rdma_send_done :: "ib_wc \<Rightarrow> io_slot \<Rightarrow> nvme_rdma_ctrl \<Rightarrow> io_slot \<times> nvme_rdma_ctrl" where
  "nvme_rdma_send_done wc s r =
     (if \<not> wc_success wc then (s, nvme_rdma_wr_error r) else (put_ref s, r))"

definition nvme_rdma_memreg_done :: "ib_wc \<Rightarrow> nvme_rdma_ctrl \<Rightarrow> nvme_rdma_ctrl" where
  "nvme_rdma_memreg_done wc r = (if \<not> wc_success wc then nvme_rdma_wr_error r else r)"

definition nvme_rdma_inv_rkey_done :: "ib_wc \<Rightarrow> io_slot \<Rightarrow> nvme_rdma_ctrl \<Rightarrow> io_slot \<times> nvme_rdma_ctrl" where
  "nvme_rdma_inv_rkey_done wc s r =
     (if \<not> wc_success wc then (s, nvme_rdma_wr_error r) else (put_ref s, r))"

definition nvme_rdma_inv_rkey :: "int \<Rightarrow> u32 \<Rightarrow> io_slot \<Rightarrow> int \<times> io_slot" where
  "nvme_rdma_inv_rkey post rkey s = (post, dcall (Post_local_inv rkey post) s)"

text \<open>
  A response for a request that was found by its tag; \<open>post\<close> is the answer of \<open>ib_post_send\<close> to the local
  invalidation. \<open>None\<close> is a \<open>NULL\<close> dereference: the peer claims to have invalidated a region of a
  request that has none.
\<close>

definition handle_rsp ::
  "int \<Rightarrow> nvme_completion \<Rightarrow> ib_wc \<Rightarrow> io_slot \<Rightarrow> nvme_rdma_ctrl \<Rightarrow> (io_slot \<times> nvme_rdma_ctrl) option" where
  "handle_rsp post cqe wc s r =
     (let s = s\<lparr>s_rr := (s_rr s)\<lparr>rr_status := cqe_status cqe, rr_result := cqe_result cqe\<rparr>\<rparr>
      in case wc_invalidate wc of
           Some key \<Rightarrow>
             (case rr_mr (s_rr s) of
                None \<Rightarrow> None
              | Some rkey \<Rightarrow>
                  let r = (if key \<noteq> rkey then nvme_rdma_error_recovery r else r)
                  in Some (put_ref s, r))
         | None \<Rightarrow>
             (case rr_mr (s_rr s) of
                Some rkey \<Rightarrow>
                  let (ret, s) = nvme_rdma_inv_rkey post rkey s;
                      r = (if ret < 0 then nvme_rdma_error_recovery r else r)
                  in Some (s, r)
              | None \<Rightarrow> Some (put_ref s, r)))"

text \<open>The tags of a queue's tag set; a tag without a request, or out of range, is not found.\<close>

definition tag_to_rq :: "io_slot option list \<Rightarrow> u16 \<Rightarrow> io_slot option" where
  "tag_to_rq tags t = (if unat t < length tags then tags ! unat t else None)"

text \<open>Which tags of the controller a queue looks its responses up in: the admin set's, or a map of the I/O set's.\<close>

definition nvme_rdma_tagset :: "nat \<Rightarrow> bool \<times> nat" where
  "nvme_rdma_tagset queue_idx = (if queue_idx = 0 then (True, 0) else (False, queue_idx - 1))"

definition nvme_rdma_process_nvme_rsp ::
  "int \<Rightarrow> nvme_completion \<Rightarrow> ib_wc \<Rightarrow> io_slot option list \<Rightarrow> nvme_rdma_ctrl \<Rightarrow>
   (io_slot option list \<times> nvme_rdma_ctrl) option" where
  "nvme_rdma_process_nvme_rsp post cqe wc tags r =
     (case tag_to_rq tags (cqe_command_id cqe) of
        None \<Rightarrow> Some (tags, nvme_rdma_error_recovery r)
      | Some s \<Rightarrow>
          (case handle_rsp post cqe wc s r of
             None \<Rightarrow> None
           | Some (s, r) \<Rightarrow> Some (tags[unat (cqe_command_id cqe) := Some s], r)))"

text \<open>
  A receive completion on queue \<open>i\<close>, ring element \<open>k\<close>. Commands the admin tag set cannot hold are
  asynchronous events. The element is posted again in every case but an error.
\<close>

definition nvme_rdma_recv_done ::
  "queue_env \<Rightarrow> int \<Rightarrow> nat \<Rightarrow> nat \<Rightarrow> nvme_completion \<Rightarrow> ib_wc \<Rightarrow> io_slot option list \<Rightarrow> nvme_rdma_ctrl \<Rightarrow>
   (io_slot option list \<times> nvme_rdma_ctrl) option" where
  "nvme_rdma_recv_done qe post i k cqe wc tags r =
     (if \<not> wc_success wc then Some (tags, nvme_rdma_wr_error r)
      else
        let handled =
              (if i = 0 \<and> NVME_AQ_BLK_MQ_DEPTH \<le> unat (cqe_command_id cqe)
               then Some (tags, r\<lparr>r_ctrl := nvme_complete_async_event (cqe_status cqe)
                                              (ucast (cqe_result cqe)) (r_ctrl r)\<rparr>)
               else nvme_rdma_process_nvme_rsp post cqe wc tags r)
        in case handled of
             None \<Rightarrow> None
           | Some (tags, r) \<Rightarrow> Some (tags, snd (nvme_rdma_post_recv qe i k r)))"

section \<open>Asynchronous events\<close>

definition async_event_command :: nvme_command where
  "async_event_command =
     zero_command\<lparr>cm_opcode := nvme_admin_async_event, cm_command_id := of_nat NVME_AQ_BLK_MQ_DEPTH,
                  cm_flags := 0 OR NVME_CMD_SGL_METABUF,
                  cm_dptr := keyed 0 0 0 (push_bit 4 NVME_KEY_SGL_FMT_DATA_DESC)\<rparr>"

text \<open>The command sent, and the controller after it; a failed post only warns.\<close>

definition nvme_rdma_submit_async_event :: "int \<Rightarrow> nvme_rdma_ctrl \<Rightarrow> nvme_command \<times> nvme_rdma_ctrl" where
  "nvme_rdma_submit_async_event post r =
     (async_event_command, if post \<noteq> 0 then emit Warn_once r else r)"

definition nvme_rdma_async_done :: "ib_wc \<Rightarrow> nvme_rdma_ctrl \<Rightarrow> nvme_rdma_ctrl" where
  "nvme_rdma_async_done wc r = (if \<not> wc_success wc then nvme_rdma_wr_error r else r)"

section \<open>A request in flight\<close>

text \<open>
  What is outstanding for one request: the send's completion, the peer's response, the local
  invalidation's completion. \<open>f_valid\<close>: the peer may still access the registered memory; \<open>f_failed\<close>:
  some completion or post failed, or the peer invalidated a wrong key; \<open>f_cqe\<close>: the response.
\<close>

record flight =
  f_slot :: io_slot
  f_ctrl :: nvme_rdma_ctrl
  f_send :: bool
  f_rsp :: bool
  f_inv :: bool
  f_sent :: bool
  f_answered :: bool
  f_valid :: bool
  f_failed :: bool
  f_cqe :: "nvme_completion option"

definition flight_start :: "io_slot \<Rightarrow> nvme_rdma_ctrl \<Rightarrow> flight" where
  "flight_start s r =
     \<lparr>f_slot = s, f_ctrl = r, f_send = True, f_rsp = True, f_inv = False, f_sent = False,
      f_answered = False, f_valid = (rr_mr (s_rr s) \<noteq> None), f_failed = False, f_cqe = None\<rparr>"

text \<open>
  Each posted work request completes at most once and a command is answered at most once; nothing is
  assumed of the order, nor of which completions succeed, nor of the key a response names.
\<close>

inductive flight_step :: "flight \<Rightarrow> flight \<Rightarrow> bool" where
  send:
    "f_send f \<Longrightarrow> nvme_rdma_send_done wc (f_slot f) (f_ctrl f) = (s, r) \<Longrightarrow>
     flight_step f (f\<lparr>f_slot := s, f_ctrl := r, f_send := False, f_sent := wc_success wc,
       f_failed := f_failed f \<or> \<not> wc_success wc\<rparr>)"
| memreg:
    "nvme_rdma_memreg_done wc (f_ctrl f) = r \<Longrightarrow>
     flight_step f (f\<lparr>f_ctrl := r, f_failed := f_failed f \<or> \<not> wc_success wc\<rparr>)"
| recv_error:
    "f_rsp f \<Longrightarrow> flight_step f (f\<lparr>f_ctrl := nvme_rdma_wr_error (f_ctrl f), f_rsp := False, f_failed := True\<rparr>)"
| remote_invalidated:
    "f_rsp f \<Longrightarrow> wc_invalidate wc = Some key \<Longrightarrow>
     handle_rsp post cqe wc (f_slot f) (f_ctrl f) = Some (s, r) \<Longrightarrow>
     flight_step f (f\<lparr>f_slot := s, f_ctrl := r, f_rsp := False, f_answered := True, f_cqe := Some cqe,
       f_valid := f_valid f \<and> rr_mr (s_rr (f_slot f)) \<noteq> Some key,
       f_failed := f_failed f \<or> rr_mr (s_rr (f_slot f)) \<noteq> Some key\<rparr>)"
| response:
    "f_rsp f \<Longrightarrow> wc_invalidate wc = None \<Longrightarrow>
     handle_rsp post cqe wc (f_slot f) (f_ctrl f) = Some (s, r) \<Longrightarrow>
     flight_step f (f\<lparr>f_slot := s, f_ctrl := r, f_rsp := False, f_cqe := Some cqe,
       f_answered := (rr_mr (s_rr (f_slot f)) = None),
       f_inv := (rr_mr (s_rr (f_slot f)) \<noteq> None \<and> 0 \<le> post),
       f_failed := f_failed f \<or> rr_mr (s_rr (f_slot f)) \<noteq> None \<and> post < 0\<rparr>)"
| local_invalidated:
    "f_inv f \<Longrightarrow> nvme_rdma_inv_rkey_done wc (f_slot f) (f_ctrl f) = (s, r) \<Longrightarrow>
     flight_step f (f\<lparr>f_slot := s, f_ctrl := r, f_inv := False, f_answered := wc_success wc,
       f_valid := f_valid f \<and> \<not> wc_success wc, f_failed := f_failed f \<or> \<not> wc_success wc\<rparr>)"

inductive flight_reach :: "flight \<Rightarrow> flight \<Rightarrow> bool" for f0 :: flight where
  start: "flight_reach f0 f0"
| step: "flight_reach f0 f \<Longrightarrow> flight_step f f' \<Longrightarrow> flight_reach f0 f'"

definition ends :: "io_slot \<Rightarrow> nat" where
  "ends s = length (filter (\<lambda>k. k = End_request) (rr_calls (s_rr s)))"

lemma put_ref_fields [simp]:
  "rr_mr (s_rr (put_ref s)) = rr_mr (s_rr s)"
  "rr_status (s_rr (put_ref s)) = rr_status (s_rr s)"
  "rr_result (s_rr (put_ref s)) = rr_result (s_rr s)"
  by (simp_all add: put_ref_def Let_def split_beta)

lemma ends_dcall [simp]: "ends (dcall k s) = ends s + (if k = End_request then 1 else 0)"
  by (simp add: ends_def dcall_def)

lemma put_ref_two:
  assumes "rr_ref (s_rr s) = 2"
  shows "rr_ref (s_rr (put_ref s)) = 1 \<and> ends (put_ref s) = ends s"
  using assms by (simp add: put_ref_def refcount_dec_and_test_def ends_def)

lemma put_ref_one:
  assumes "rr_ref (s_rr s) = 1"
  shows "rr_ref (s_rr (put_ref s)) = 0 \<and> ends (put_ref s) = ends s + 1 \<and>
    nr_status (s_rq (put_ref s)) = drop_bit 1 (rr_status (s_rr s)) \<and>
    nr_result (s_rq (put_ref s)) = rr_result (s_rr s) \<and> rq_completed (s_rq (put_ref s))"
  using assms by (simp add: put_ref_def refcount_dec_and_test_def nvme_end_request_def) (simp add: ends_def)

lemma recovery_not_live: "c_state (r_ctrl (nvme_rdma_error_recovery r)) \<noteq> NVME_CTRL_LIVE"
  by (cases "c_state (r_ctrl r)")
    (simp_all add: nvme_rdma_error_recovery_def nvme_change_ctrl_state_def queue_work_def call_def Let_def)

section \<open>Invariant\<close>

text \<open>
  The count is the number of completions still owed; the request has been ended exactly when none is;
  the stored response is the one that came; memory the peer may still access after the answer, and a
  request nothing will end any more, both mean the controller has left \<open>LIVE\<close> for its recovery.
\<close>

definition owing :: "bool \<Rightarrow> bool \<Rightarrow> int" where
  "owing sent answered = (if sent then 0 else 1) + (if answered then 0 else 1)"

abbreviation owed :: "flight \<Rightarrow> int" where
  "owed f \<equiv> owing (f_sent f) (f_answered f)"

definition stored :: "nvme_completion option \<Rightarrow> io_slot \<Rightarrow> bool" where
  "stored c s \<longleftrightarrow> (case c of None \<Rightarrow> False
     | Some cqe \<Rightarrow> rr_status (s_rr s) = cqe_status cqe \<and> rr_result (s_rr s) = cqe_result cqe)"

lemma stored_simps [simp]:
  "stored None s = False"
  "stored (Some cqe) s = (rr_status (s_rr s) = cqe_status cqe \<and> rr_result (s_rr s) = cqe_result cqe)"
  "stored c (put_ref s) = stored c s"
  by (simp_all add: stored_def split: option.split)

lemma owing_simps [simp]:
  "owing True True = 0" "owing False True = 1" "owing True False = 1" "owing False False = 2"
  by (simp_all add: owing_def)

lemma owing_zero [simp]: "owing sent answered = 0 \<longleftrightarrow> sent \<and> answered"
  by (simp add: owing_def)

definition ended_as_stored :: "io_slot \<Rightarrow> bool" where
  "ended_as_stored s \<longleftrightarrow> nr_status (s_rq s) = drop_bit 1 (rr_status (s_rr s)) \<and>
     nr_result (s_rq s) = rr_result (s_rr s) \<and> rq_completed (s_rq s)"

definition flight_inv :: "nat \<Rightarrow> flight \<Rightarrow> bool" where
  "flight_inv n f \<longleftrightarrow>
     rr_ref (s_rr (f_slot f)) = owed f \<and>
     ends (f_slot f) = n + (if owed f = 0 then 1 else 0) \<and>
     (f_send f \<longrightarrow> \<not> f_sent f) \<and> (f_rsp f \<longrightarrow> \<not> f_answered f \<and> \<not> f_inv f) \<and>
     (f_inv f \<longrightarrow> \<not> f_answered f \<and> stored (f_cqe f) (f_slot f)) \<and> (f_answered f \<longrightarrow> stored (f_cqe f) (f_slot f)) \<and>
     (f_valid f \<longrightarrow> rr_mr (s_rr (f_slot f)) \<noteq> None) \<and>
     (f_answered f \<and> f_valid f \<longrightarrow> f_failed f) \<and>
     (\<not> f_send f \<and> \<not> f_sent f \<longrightarrow> f_failed f) \<and>
     (\<not> f_rsp f \<and> \<not> f_inv f \<and> \<not> f_answered f \<longrightarrow> f_failed f) \<and>
     (f_failed f \<longrightarrow> c_state (r_ctrl (f_ctrl f)) \<noteq> NVME_CTRL_LIVE) \<and>
     (owed f = 0 \<longrightarrow> ended_as_stored (f_slot f))"

lemma wr_error_not_live: "c_state (r_ctrl (nvme_rdma_wr_error r)) \<noteq> NVME_CTRL_LIVE"
  by (simp add: nvme_rdma_wr_error_def recovery_not_live)

lemma ended_put_ref: "rr_ref (s_rr s) = 1 \<Longrightarrow> ended_as_stored (put_ref s)"
  using put_ref_one[of s] by (simp add: ended_as_stored_def)

lemma put_ref_owed:
  assumes "rr_ref (s_rr s) = k" and "k = 1 \<or> k = 2"
  shows "rr_ref (s_rr (put_ref s)) = k - 1 \<and> ends (put_ref s) = ends s + (if k = 1 then 1 else 0)"
  using assms put_ref_one[of s] put_ref_two[of s] by auto

lemma owed_range: "owed f = 0 \<or> owed f = 1 \<or> owed f = 2"
  by (simp add: owing_def)

lemma ends_rsp [simp]:
  "ends (s\<lparr>s_rr := (s_rr s)\<lparr>rr_result := res, rr_status := st\<rparr>\<rparr>) = ends s"
  "ends (s\<lparr>s_rr := (s_rr s)\<lparr>rr_status := st, rr_result := res\<rparr>\<rparr>) = ends s"
  by (simp_all add: ends_def)

lemma inv_put:
  assumes "flight_inv n f" and "rr_ref (s_rr s) = owed f" and "ends s = ends (f_slot f)"
    and "owed f' = owed f - 1" and "f_slot f' = put_ref s" and "owed f > 0"
  shows "rr_ref (s_rr (f_slot f')) = owed f' \<and> ends (f_slot f') = n + (if owed f' = 0 then 1 else 0) \<and>
    (owed f' = 0 \<longrightarrow> ended_as_stored (f_slot f'))"
proof -
  have o: "owed f = 1 \<or> owed f = 2" using assms(6) owed_range[of f] by auto
  have "\<not> (f_sent f \<and> f_answered f)" using assms(6) by auto
  then have e: "ends (f_slot f) = n" using assms(1) by (simp add: flight_inv_def)
  from put_ref_owed[OF assms(2) o] show ?thesis
    using assms(3,4,5) e o ended_put_ref[of s] assms(2) by auto
qed

lemma inv_send:
  assumes inv: "flight_inv n f" and s: "f_send f" and h: "nvme_rdma_send_done wc (f_slot f) (f_ctrl f) = (s, r)"
  shows "flight_inv n (f\<lparr>f_slot := s, f_ctrl := r, f_send := False, f_sent := wc_success wc,
       f_failed := f_failed f \<or> \<not> wc_success wc\<rparr>)" (is "flight_inv n ?f")
proof (cases "wc_success wc")
  case True
  then have sr: "s = put_ref (f_slot f)" "r = f_ctrl f" using h by (simp_all add: nvme_rdma_send_done_def)
  have "\<not> f_sent f" using inv s by (simp add: flight_inv_def)
  then have o: "owed ?f = owed f - 1" "0 < owed f" using True by (simp_all add: owing_def)
  have ref: "rr_ref (s_rr (f_slot f)) = owed f" using inv by (simp add: flight_inv_def)
  from inv_put[OF inv ref _ o(1) _ o(2)] sr inv True show ?thesis
    by (simp add: flight_inv_def)
next
  case False
  then have sr: "s = f_slot f" "r = nvme_rdma_wr_error (f_ctrl f)" using h by (simp_all add: nvme_rdma_send_done_def)
  have "\<not> f_sent f" using inv s by (simp add: flight_inv_def)
  with inv False sr wr_error_not_live show ?thesis
    by (simp add: flight_inv_def)
qed

lemma inv_error:
  assumes "flight_inv n f" and "b \<longrightarrow> c_state (r_ctrl r) \<noteq> NVME_CTRL_LIVE" and "\<not> b \<longrightarrow> r = f_ctrl f"
  shows "flight_inv n (f\<lparr>f_ctrl := r, f_failed := f_failed f \<or> b\<rparr>)"
  using assms by (cases b) (auto simp: flight_inv_def)

lemma inv_recv_error:
  assumes "flight_inv n f"
  shows "flight_inv n (f\<lparr>f_ctrl := nvme_rdma_wr_error (f_ctrl f), f_rsp := False, f_failed := True\<rparr>)"
  using assms wr_error_not_live by (simp add: flight_inv_def)

lemma handle_rsp_remote:
  assumes "handle_rsp post cqe wc s r = Some (s', r')" and "wc_invalidate wc = Some key"
  obtains rkey where "rr_mr (s_rr s) = Some rkey"
    and "s' = put_ref (s\<lparr>s_rr := (s_rr s)\<lparr>rr_status := cqe_status cqe, rr_result := cqe_result cqe\<rparr>\<rparr>)"
    and "r' = (if key \<noteq> rkey then nvme_rdma_error_recovery r else r)"
  using assms by (auto simp: handle_rsp_def Let_def split: option.splits)

lemma inv_remote:
  assumes inv: "flight_inv n f" and s: "f_rsp f" and k: "wc_invalidate wc = Some key"
    and h: "handle_rsp post cqe wc (f_slot f) (f_ctrl f) = Some (s, r)"
  shows "flight_inv n (f\<lparr>f_slot := s, f_ctrl := r, f_rsp := False, f_answered := True, f_cqe := Some cqe,
       f_valid := f_valid f \<and> rr_mr (s_rr (f_slot f)) \<noteq> Some key,
       f_failed := f_failed f \<or> rr_mr (s_rr (f_slot f)) \<noteq> Some key\<rparr>)" (is "flight_inv n ?f")
proof -
  define s1 where "s1 = (f_slot f)\<lparr>s_rr := (s_rr (f_slot f))\<lparr>rr_status := cqe_status cqe, rr_result := cqe_result cqe\<rparr>\<rparr>"
  obtain rkey where rk: "rr_mr (s_rr (f_slot f)) = Some rkey" and s': "s = put_ref s1"
    and r': "r = (if key \<noteq> rkey then nvme_rdma_error_recovery (f_ctrl f) else f_ctrl f)"
    using handle_rsp_remote[OF h k] unfolding s1_def by metis
  have na: "\<not> f_answered f" using inv s by (simp add: flight_inv_def)
  then have o: "owed ?f = owed f - 1" "0 < owed f" by (simp_all add: owing_def)
  have s1: "rr_ref (s_rr s1) = owed f" "ends s1 = ends (f_slot f)" "rr_mr (s_rr s1) = Some rkey"
    "rr_status (s_rr s1) = cqe_status cqe" "rr_result (s_rr s1) = cqe_result cqe"
    using inv rk by (simp_all add: s1_def flight_inv_def)
  have "f_slot ?f = put_ref s1" by (simp add: s')
  from inv_put[OF inv s1(1,2) o(1) this o(2)] show ?thesis
    using inv rk r' s' s1 recovery_not_live na s
    by (simp add: flight_inv_def)
qed

lemma inv_response:
  assumes inv: "flight_inv n f" and s: "f_rsp f" and k: "wc_invalidate wc = None"
    and h: "handle_rsp post cqe wc (f_slot f) (f_ctrl f) = Some (s, r)"
  shows "flight_inv n (f\<lparr>f_slot := s, f_ctrl := r, f_rsp := False, f_cqe := Some cqe,
       f_answered := (rr_mr (s_rr (f_slot f)) = None),
       f_inv := (rr_mr (s_rr (f_slot f)) \<noteq> None \<and> 0 \<le> post),
       f_failed := f_failed f \<or> rr_mr (s_rr (f_slot f)) \<noteq> None \<and> post < 0\<rparr>)" (is "flight_inv n ?f")
proof -
  define s1 where "s1 = (f_slot f)\<lparr>s_rr := (s_rr (f_slot f))\<lparr>rr_status := cqe_status cqe, rr_result := cqe_result cqe\<rparr>\<rparr>"
  have na: "\<not> f_answered f" using inv s by (simp add: flight_inv_def)
  have s1: "rr_ref (s_rr s1) = owed f" "ends s1 = ends (f_slot f)" "rr_mr (s_rr s1) = rr_mr (s_rr (f_slot f))"
    "rr_status (s_rr s1) = cqe_status cqe" "rr_result (s_rr s1) = cqe_result cqe" "s_rq s1 = s_rq (f_slot f)"
    using inv by (simp_all add: s1_def flight_inv_def)
  show ?thesis
  proof (cases "rr_mr (s_rr (f_slot f))")
    case None
    then have sr: "s = put_ref s1" "r = f_ctrl f"
      using h k by (simp_all add: handle_rsp_def s1_def)
    have o: "owed ?f = owed f - 1" "0 < owed f" using na None by (simp_all add: owing_def)
    have "f_slot ?f = put_ref s1" by (simp add: sr)
    from inv_put[OF inv s1(1,2) o(1) this o(2)] show ?thesis
      using inv None sr s1 na by (simp add: flight_inv_def)
  next
    case (Some rkey)
    then have sr: "s = dcall (Post_local_inv rkey post) s1"
      "r = (if post < 0 then nvme_rdma_error_recovery (f_ctrl f) else f_ctrl f)"
      using h k by (simp_all add: handle_rsp_def s1_def nvme_rdma_inv_rkey_def)
    have o: "owed ?f = owed f" "owed f \<noteq> 0" using na Some by (simp_all add: owing_def)
    show ?thesis
      using inv Some sr s1 na o recovery_not_live by (auto simp: flight_inv_def)
  qed
qed

lemma inv_local:
  assumes inv: "flight_inv n f" and s: "f_inv f" and h: "nvme_rdma_inv_rkey_done wc (f_slot f) (f_ctrl f) = (s, r)"
  shows "flight_inv n (f\<lparr>f_slot := s, f_ctrl := r, f_inv := False, f_answered := wc_success wc,
       f_valid := f_valid f \<and> \<not> wc_success wc, f_failed := f_failed f \<or> \<not> wc_success wc\<rparr>)" (is "flight_inv n ?f")
proof (cases "wc_success wc")
  case True
  then have sr: "s = put_ref (f_slot f)" "r = f_ctrl f" using h by (simp_all add: nvme_rdma_inv_rkey_done_def)
  have "\<not> f_answered f" using inv s by (simp add: flight_inv_def)
  then have o: "owed ?f = owed f - 1" "0 < owed f" using True by (simp_all add: owing_def)
  have ref: "rr_ref (s_rr (f_slot f)) = owed f" using inv by (simp add: flight_inv_def)
  from inv_put[OF inv ref _ o(1) _ o(2)] sr inv True s show ?thesis
    by (simp add: flight_inv_def)
next
  case False
  then have sr: "s = f_slot f" "r = nvme_rdma_wr_error (f_ctrl f)" using h by (simp_all add: nvme_rdma_inv_rkey_done_def)
  have "\<not> f_answered f" using inv s by (simp add: flight_inv_def)
  with inv False sr wr_error_not_live show ?thesis
    by (simp add: flight_inv_def)
qed

lemma flight_step_inv: "flight_step f f' \<Longrightarrow> flight_inv n f \<Longrightarrow> flight_inv n f'"
proof (induction rule: flight_step.induct)
  case (memreg wc f r)
  then show ?case
    by (intro inv_error) (auto simp: nvme_rdma_memreg_done_def wr_error_not_live)
qed (blast intro: inv_send inv_recv_error inv_remote inv_response inv_local)+

lemma flight_reach_inv: "flight_reach f0 f \<Longrightarrow> flight_inv n f0 \<Longrightarrow> flight_inv n f"
  by (induction rule: flight_reach.induct) (auto intro: flight_step_inv)

lemma flight_start_inv:
  assumes "rr_ref (s_rr s) = 2"
  shows "flight_inv (ends s) (flight_start s r)"
  using assms by (simp add: flight_inv_def flight_start_def owing_def)


section \<open>Properties\<close>

text \<open>C15. Whatever the order in which a request's completions arrive and whichever of them fail, the request
  is ended at most once, with the status and result of the response, and only after both the send of the
  capsule and the answer have completed. By then the peer's access to the registered memory is gone, or
  the controller has left \<open>LIVE\<close> to recover. When nothing is outstanding any more, a request of a
  controller that is still live has been ended: no completion is lost.\<close>

theorem request_ends_once:
  assumes "flight_reach (flight_start s0 r0) f" and "rr_ref (s_rr s0) = 2"
  defines "s \<equiv> f_slot f"
  shows "(if f_sent f \<and> f_answered f
     then ends s = ends s0 + 1 \<and> stored (f_cqe f) s \<and> nr_status (s_rq s) = drop_bit 1 (rr_status (s_rr s)) \<and>
       nr_result (s_rq s) = rr_result (s_rr s) \<and>
       (f_valid f \<longrightarrow> c_state (r_ctrl (f_ctrl f)) \<noteq> NVME_CTRL_LIVE)
     else ends s = ends s0 \<and>
       (f_send f \<or> f_rsp f \<or> f_inv f \<or> c_state (r_ctrl (f_ctrl f)) \<noteq> NVME_CTRL_LIVE))"
proof -
  note inv = flight_reach_inv[OF assms(1) flight_start_inv[OF assms(2)]]
  show ?thesis
  proof (cases "f_sent f \<and> f_answered f")
    case True
    with inv show ?thesis by (simp add: flight_inv_def s_def ended_as_stored_def)
  next
    case False
    with inv show ?thesis unfolding flight_inv_def s_def by (auto split: if_splits)
  qed
qed


definition wc0 :: ib_wc where "wc0 = \<lparr>wc_success = True, wc_invalidate = None\<rparr>"

definition cqe0 :: nvme_completion where
  "cqe0 = \<lparr>cqe_command_id = 0, cqe_status = 0, cqe_result = 0\<rparr>"

definition flying0 :: "u32 option \<Rightarrow> io_slot" where
  "flying0 mr = (slot0 REQ_OP_READ 2)\<lparr>s_rr := rr0\<lparr>rr_mr := mr, rr_ref := 2\<rparr>\<rparr>"

lemma flying0_fields [simp]:
  "rr_ref (s_rr (flying0 mr)) = 2" "rr_mr (s_rr (flying0 mr)) = mr" "ends (flying0 mr) = 0"
  by (simp_all add: flying0_def ends_def rr0_def)

text \<open>
  From any start a request can get its completions: here the response overtakes the send's completion,
  and the local invalidation, where one is needed, completes last.
\<close>

lemma flight_run: "\<exists>f. flight_reach (flight_start s r) f \<and> f_sent f \<and> f_answered f"
proof -
  define f0 where "f0 = flight_start s r"
  have f0: "f_send f0" "f_rsp f0" "f_slot f0 = s" "f_ctrl f0 = r"
    by (simp_all add: f0_def flight_start_def)
  obtain s1 r1 where h1: "handle_rsp 0 cqe0 wc0 (f_slot f0) (f_ctrl f0) = Some (s1, r1)"
    by (cases "rr_mr (s_rr s)") (simp_all add: f0 handle_rsp_def wc0_def nvme_rdma_inv_rkey_def)
  define f1 where "f1 = f0\<lparr>f_slot := s1, f_ctrl := r1, f_rsp := False, f_cqe := Some cqe0,
       f_answered := (rr_mr (s_rr (f_slot f0)) = None),
       f_inv := (rr_mr (s_rr (f_slot f0)) \<noteq> None \<and> 0 \<le> (0 :: int)),
       f_failed := f_failed f0 \<or> rr_mr (s_rr (f_slot f0)) \<noteq> None \<and> (0 :: int) < 0\<rparr>"
  have t1: "flight_step f0 f1"
    unfolding f1_def by (rule flight_step.response[OF f0(2) _ h1]) (simp add: wc0_def)
  obtain s2 r2 where h2: "nvme_rdma_send_done wc0 (f_slot f1) (f_ctrl f1) = (s2, r2)" by fastforce
  define f2 where "f2 = f1\<lparr>f_slot := s2, f_ctrl := r2, f_send := False, f_sent := wc_success wc0,
       f_failed := f_failed f1 \<or> \<not> wc_success wc0\<rparr>"
  have t2: "flight_step f1 f2"
    unfolding f2_def by (rule flight_step.send[OF _ h2]) (simp add: f1_def f0)
  have r2: "flight_reach f0 f2" by (meson flight_reach.start flight_reach.step t1 t2)
  show ?thesis
  proof (cases "rr_mr (s_rr s) = None")
    case True
    then have "f_sent f2 \<and> f_answered f2" by (simp add: f2_def f1_def f0 wc0_def)
    with r2 show ?thesis unfolding f0_def by blast
  next
    case False
    obtain s3 r3 where h3: "nvme_rdma_inv_rkey_done wc0 (f_slot f2) (f_ctrl f2) = (s3, r3)" by fastforce
    define f3 where "f3 = f2\<lparr>f_slot := s3, f_ctrl := r3, f_inv := False, f_answered := wc_success wc0,
         f_valid := f_valid f2 \<and> \<not> wc_success wc0, f_failed := f_failed f2 \<or> \<not> wc_success wc0\<rparr>"
    have "flight_step f2 f3"
      unfolding f3_def by (rule flight_step.local_invalidated[OF _ h3]) (simp add: f2_def f1_def f0 False)
    with r2 have "flight_reach f0 f3" by (rule flight_reach.step)
    moreover have "f_sent f3 \<and> f_answered f3" by (simp add: f3_def f2_def wc0_def)
    ultimately show ?thesis unfolding f0_def by blast
  qed
qed

theorem request_ends_once_witness:
  "\<exists>f. flight_reach (flight_start (flying0 (Some 5)) rctrl_live) f \<and> ends (f_slot f) = 1"
proof -
  obtain f where r: "flight_reach (flight_start (flying0 (Some 5)) rctrl_live) f" and e: "f_sent f \<and> f_answered f"
    using flight_run by blast
  from request_ends_once[OF r flying0_fields(1)] e r show ?thesis by auto
qed

text \<open>A response that claims the peer invalidated a memory region is trusted to be for a request that has
  one: for a request without (an inline write, a command without data) the handler dereferences \<open>NULL\<close>;
  in every other case it returns. The peer chooses the tag and the flag.\<close>

theorem invalidate_without_region_faults:
  "nvme_rdma_recv_done qe post i k cqe wc tags r = None \<longleftrightarrow>
    wc_success wc \<and> \<not> (i = 0 \<and> NVME_AQ_BLK_MQ_DEPTH \<le> unat (cqe_command_id cqe)) \<and>
    wc_invalidate wc \<noteq> None \<and>
    (case tag_to_rq tags (cqe_command_id cqe) of None \<Rightarrow> False | Some s \<Rightarrow> rr_mr (s_rr s) = None)"
proof -
  have h: "handle_rsp post cqe wc s r = None \<longleftrightarrow> wc_invalidate wc \<noteq> None \<and> rr_mr (s_rr s) = None" for s
    by (auto simp: handle_rsp_def Let_def split_beta split: option.splits)
  have p: "nvme_rdma_process_nvme_rsp post cqe wc tags r = None \<longleftrightarrow> wc_invalidate wc \<noteq> None \<and>
      (case tag_to_rq tags (cqe_command_id cqe) of None \<Rightarrow> False | Some s \<Rightarrow> rr_mr (s_rr s) = None)"
  proof (cases "tag_to_rq tags (cqe_command_id cqe)")
    case (Some s)
    then show ?thesis using h[of s] by (cases "handle_rsp post cqe wc s r") (auto simp: nvme_rdma_process_nvme_rsp_def)
  qed (simp add: nvme_rdma_process_nvme_rsp_def)
  show ?thesis
    unfolding nvme_rdma_recv_done_def Let_def p[symmetric] by (auto split: option.splits)
qed

section \<open>From issue to completion\<close>

lemma put_ref_flying: "slot_flying b s \<Longrightarrow> slot_flying b (put_ref s)"
proof -
  assume f: "slot_flying b s"
  obtain last ref where d: "refcount_dec_and_test (rr_ref (s_rr s)) = (last, ref)" by fastforce
  define s1 where "s1 = s\<lparr>s_rr := (s_rr s)\<lparr>rr_ref := ref\<rparr>\<rparr>"
  have s1: "slot_flying b s1"
    using f by (simp add: s1_def slot_flying_def flight_res_def payload_op_def io_held_def)
  define s2 where "s2 = s1\<lparr>s_rq := nvme_end_request (rr_status (s_rr s1)) (rr_result (s_rr s1)) (s_rq s1)\<rparr>"
  have "slot_flying b s2" unfolding s2_def by (rule end_request_flying[OF s1])
  then have "slot_flying b (dcall End_request s2)"
    by (simp add: slot_flying_def flight_res_def)
  with s1 show ?thesis by (simp add: put_ref_def d s1_def[symmetric] s2_def[symmetric])
qed

lemma stored_rsp_flying:
  "slot_flying b s \<Longrightarrow> slot_flying b (s\<lparr>s_rr := (s_rr s)\<lparr>rr_status := st, rr_result := res\<rparr>\<rparr>)"
  by (simp add: slot_flying_def flight_res_def payload_op_def io_held_def)

lemma handle_rsp_flying:
  assumes f: "slot_flying b s" and h: "handle_rsp post cqe wc s r = Some (s', r')"
  shows "slot_flying b s'"
proof -
  define s1 where "s1 = s\<lparr>s_rr := (s_rr s)\<lparr>rr_status := cqe_status cqe, rr_result := cqe_result cqe\<rparr>\<rparr>"
  have s1: "slot_flying b s1" unfolding s1_def by (rule stored_rsp_flying[OF f])
  have inv: "slot_flying b (dcall (Post_local_inv k post) s1)" if "rr_mr (s_rr s1) = Some k" for k
    using s1 that by (auto simp: slot_flying_def flight_res_def use_res_def)
  show ?thesis
    using h s1 inv put_ref_flying[OF s1] unfolding handle_rsp_def Let_def s1_def[symmetric]
    by (auto simp: nvme_rdma_inv_rkey_def split: option.splits)
qed

lemma flight_step_flying: "flight_step f f' \<Longrightarrow> slot_flying b (f_slot f) \<Longrightarrow> slot_flying b (f_slot f')"
proof (induction rule: flight_step.induct)
  case (send f wc s r)
  then show ?case using put_ref_flying by (auto simp: nvme_rdma_send_done_def split: if_splits)
next
  case (local_invalidated f wc s r)
  then show ?case using put_ref_flying by (auto simp: nvme_rdma_inv_rkey_done_def split: if_splits)
qed (auto intro: handle_rsp_flying)

lemma flight_reach_flying: "flight_reach f0 f \<Longrightarrow> slot_flying b (f_slot f0) \<Longrightarrow> slot_flying b (f_slot f)"
  by (induction rule: flight_reach.induct) (auto intro: flight_step_flying)

lemma map_data_ref:
  assumes "nvme_rdma_map_data e i r s = (ret, s')"
  shows "rr_ref (s_rr s') = 2"
  using assms
  by (auto simp: nvme_rdma_map_data_def nvme_rdma_set_sg_null_def map_sg_def nvme_rdma_map_sg_fr_def
      nvme_rdma_map_sg_inline_def nvme_rdma_map_sg_single_def Let_def split_beta split: if_splits option.splits)

lemma queue_rq_ref:
  assumes "nvme_rdma_queue_rq e i s r = (BLK_STS_OK, None, s', r')"
  shows "rr_ref (s_rr s') = 2"
proof -
  have none: "nvmf_fail_nonready_command mx pe dy ns c rq \<noteq> (BLK_STS_OK, None)" for mx pe dy ns c rq
    by (simp add: nvmf_fail_nonready_command_def Let_def)
  have sts: "issue_status err \<noteq> BLK_STS_OK" for err by (simp add: issue_status_def)
  have post: "rr_ref (s_rr (snd (nvme_rdma_post_send e reg t))) = rr_ref (s_rr t)" for reg t
    by (simp add: nvme_rdma_post_send_def Let_def)
  have m: "rr_ref (s_rr t') = 2" if "map_and_post e i r t = (0, t')" for t t'
  proof -
    obtain ret t1 where d: "nvme_rdma_map_data (ie_map e) i r (t\<lparr>s_rr := (s_rr t)\<lparr>rr_start_time := ie_now e\<rparr>\<rparr>) = (ret, t1)"
      by fastforce
    from that d show ?thesis
      using map_data_ref[OF d] post
      by (auto simp: map_and_post_def Let_def split_beta split: if_splits)
  qed
  show ?thesis
  proof (cases "nvmf_check_ready (r_ctrl r) (s_rq s) (q_live (queue r i))")
    case False
    then show ?thesis using assms none
      by (auto simp: nvme_rdma_queue_rq_def split: prod.splits option.splits)
  next
    case True
    then show ?thesis using assms m sts
      by (auto simp: nvme_rdma_queue_rq_def Let_def split: prod.splits if_splits)
  qed
qed

text \<open>C14. A request's whole journey: issued on an idle tag, completed by its completions in any order, and
  finished, it has been ended exactly once and everything it took is back: capsule and data unmapped, the
  scatter-gather table freed, the region back in its pool, the payload page released. At no point of
  the journey is anything released twice, used after its release, or unmapped while still registered.\<close>

theorem request_journey:
  assumes "nvme_rdma_queue_rq e i s0 r0 = (BLK_STS_OK, None, s1, r0')" and "slot_idle b s0"
    and "flight_reach (flight_start s1 r0') f" and "f_sent f" and "f_answered f"
    and "nvme_rdma_complete_rq mx path_error dying now m (f_slot f) r = (d, m', s2, r')"
  shows "ends (f_slot f) = ends s1 + 1 \<and> slot_idle b s2"
proof -
  have fly: "slot_flying b s1" using queue_rq_result[OF assms(1,2)] by simp
  have "slot_flying b (f_slot f)"
    using flight_reach_flying[OF assms(3)] fly by (simp add: flight_start_def)
  then have "slot_idle b s2" using complete_rq_result assms(6) by blast
  moreover have "ends (f_slot f) = ends s1 + 1"
    using flight_reach_inv[OF assms(3) flight_start_inv[OF queue_rq_ref[OF assms(1)]]] assms(4,5)
    by (simp add: flight_inv_def)
  ultimately show ?thesis by simp
qed


lemma queue_read0:
  "\<exists>s1. nvme_rdma_queue_rq issueenv0 1 (slot0 REQ_OP_READ 2) rctrl_live = (BLK_STS_OK, None, s1, rctrl_live)"
proof -
  define s1 where "s1 = dcall (Dma_map_sqe True) (slot0 REQ_OP_READ 2)"
  have "s_rq s1 = rq0 REQ_OP_READ 2" "s_ns s1 = Some ns0" by (simp_all add: s1_def)
  note c = setup_read0[OF this, of issueenv0]
  with map_read0[of "snd (setup_cmd issueenv0 s1)" issueenv0 1 rctrl_live]
  have m: "fst (map_and_post issueenv0 1 rctrl_live (snd (setup_cmd issueenv0 s1))) = 0" by simp
  show ?thesis
    using c m unfolding nvme_rdma_queue_rq_def Let_def
    by (simp add: nvmf_check_ready_def s1_def[symmetric] split_beta)
qed

theorem request_journey_witness:
  "\<exists>s1 f d m' s2 r'. nvme_rdma_queue_rq issueenv0 1 (slot0 REQ_OP_READ 2) rctrl_live = (BLK_STS_OK, None, s1, rctrl_live) \<and>
    flight_reach (flight_start s1 rctrl_live) f \<and>
    nvme_rdma_complete_rq 5 (\<lambda>_. False) False 200 metrics_init (f_slot f) rctrl_live = (d, m', s2, r') \<and>
    ends (f_slot f) = ends s1 + 1 \<and> io_held s2 = Some {}"
proof -
  obtain s1 where q: "nvme_rdma_queue_rq issueenv0 1 (slot0 REQ_OP_READ 2) rctrl_live = (BLK_STS_OK, None, s1, rctrl_live)"
    using queue_read0 by blast
  obtain f where r: "flight_reach (flight_start s1 rctrl_live) f" and e: "f_sent f" "f_answered f"
    using flight_run by blast
  obtain d m' s2 r' where k: "nvme_rdma_complete_rq 5 (\<lambda>_. False) False 200 metrics_init (f_slot f) rctrl_live = (d, m', s2, r')"
    by (metis prod_cases4)
  from request_journey[OF q slot0_idle r e k] show ?thesis
    using q r k by (auto simp: slot_idle_def)
qed

end
