(* ===== verification/Rdma_Module.thy ===== *)
theory Rdma_Module
  imports Ctrl_Recovery
begin

text \<open>
  The RDMA transport as a module (\<open>host/rdma.c\<close>): its list of controllers, the creation of a controller
  from the options of a connect request, the release of one, the removal of an RDMA device, and the
  registrations made when the module is loaded and undone when it is removed.
\<close>

section \<open>State\<close>

text \<open>The module's lists and registrations; the devices are shared by all controllers.\<close>

record rdma_module =
  rm_ctrls :: "nvme_rdma_ctrl list"      \<comment> \<open>\<open>nvme_rdma_ctrl_list\<close>\<close>
  rm_devs :: "rdma_device list"          \<comment> \<open>\<open>device_list\<close>\<close>
  rm_transports :: "nvmf_transport_ops list"
  rm_ib_client :: bool
  rm_kobj :: bool                        \<comment> \<open>\<open>rdma_metrics_kobj\<close> is not \<open>NULL\<close>\<close>
  rm_group :: bool                       \<comment> \<open>the sysfs attributes exist\<close>

record create_env =
  ce_kzalloc :: bool
  ce_kstrdup :: bool
  ce_traddr :: "string option \<Rightarrow> string option \<Rightarrow> int"   \<comment> \<open>\<open>inet_pton_with_scope\<close>\<close>
  ce_src :: "string option \<Rightarrow> int"
  ce_kcalloc :: bool
  ce_init_ctrl :: int
  ce_setup :: setup_env

abbreviation (input) NVME_RDMA_IP_PORT :: string where "NVME_RDMA_IP_PORT \<equiv> ''4420''"

section \<open>Creating a controller\<close>

definition nvme_rdma_existing_controller ::
  "nvmf_host list \<Rightarrow> nvmf_ctrl_options \<Rightarrow> nvme_rdma_ctrl list \<Rightarrow> bool" where
  "nvme_rdma_existing_controller hosts opts ctrls =
     list_ex (\<lambda>r. nvmf_ip_options_match hosts (r_ctrl r) opts) ctrls"

text \<open>The default service id; the options are the caller's, who keeps them when the creation fails.\<close>

definition default_trsvcid :: "bool \<Rightarrow> nvmf_ctrl_options \<Rightarrow> int \<times> nvmf_ctrl_options" where
  "default_trsvcid kstrdup opts =
     (if o_mask opts AND NVMF_OPT_TRSVCID \<noteq> 0 then (0, opts)
      else if \<not> kstrdup then (- ENOMEM, opts\<lparr>o_trsvcid := None\<rparr>)
      else (0, opts\<lparr>o_trsvcid := Some NVME_RDMA_IP_PORT, o_mask := o_mask opts OR NVMF_OPT_TRSVCID\<rparr>))"

definition zeroed_queue :: rdma_queue where
  "zeroed_queue = \<lparr>q_queue_size = 0, q_cmnd_capsule_len = 0, q_device = None, q_allocated = False,
     q_live = False, q_tr_ready = False, q_cm_error = 0, q_cm_done = 0\<rparr>"

text \<open>\<open>unsigned int\<close> arithmetic for the number of queues, cut to 16 bits for the queue depth.\<close>

definition ctrl_queue_count :: "nvmf_ctrl_options \<Rightarrow> u32" where
  "ctrl_queue_count opts =
     of_nat (o_nr_io_queues opts) + of_nat (o_nr_write_queues opts) + of_nat (o_nr_poll_queues opts) + 1"

definition new_ctrl :: "nvmf_ctrl_options \<Rightarrow> rdma_device list \<Rightarrow> nvme_rdma_ctrl" where
  "new_ctrl opts devs =
     (let count = unat (ctrl_queue_count opts)
      in \<lparr>r_ctrl = (nvme_init_ctrl opts)\<lparr>c_queue_count := count, c_sqsize := of_nat (o_queue_size opts) - 1,
                                            c_kato := o_kato opts\<rparr>,
          r_queues = replicate count zeroed_queue, r_io_default = 0, r_io_read = 0, r_io_poll = 0,
          r_device = None, r_max_fr_pages = 0, r_use_inline_data = False, r_async_sqe = False,
          r_devs = devs\<rparr>)"

text \<open>From the initialised controller on: setup, and on success the entry in the module's list.\<close>

definition connect_ctrl :: "setup_env \<Rightarrow> nvme_rdma_ctrl \<Rightarrow> rdma_module \<Rightarrow> int \<times> rdma_module" where
  "connect_ctrl e r m =
     (let (changed, r) = on_ctrl_ret (nvme_change_ctrl_state NVME_CTRL_CONNECTING) r;
          r = (if \<not> changed then emit Warn_once r else r);
          (ret, r) = nvme_rdma_setup_ctrl e True r
      in if ret \<noteq> 0
         then (if 0 < ret then - EIO else ret, m\<lparr>rm_devs := r_devs r\<rparr>)
         else (0, m\<lparr>rm_devs := r_devs r, rm_ctrls := rm_ctrls m @ [emit Get_ctrl r]\<rparr>))"

definition nvme_rdma_create_ctrl ::
  "create_env \<Rightarrow> nvmf_host list \<Rightarrow> nvmf_ctrl_options \<Rightarrow> rdma_module \<Rightarrow> int \<times> nvmf_ctrl_options \<times> rdma_module" where
  "nvme_rdma_create_ctrl e hosts opts m =
     (if \<not> ce_kzalloc e then (- ENOMEM, opts, m)
      else
        let (ret, opts) = default_trsvcid (ce_kstrdup e) opts
        in if ret \<noteq> 0 then (ret, opts, m)
      else
        let ret = ce_traddr e (o_traddr opts) (o_trsvcid opts)
        in if ret \<noteq> 0 then (ret, opts, m)
      else
        let ret = (if o_mask opts AND NVMF_OPT_HOST_TRADDR \<noteq> 0 then ce_src e (o_host_traddr opts) else 0)
        in if ret \<noteq> 0 then (ret, opts, m)
      else if \<not> o_duplicate_connect opts \<and> nvme_rdma_existing_controller hosts opts (rm_ctrls m)
        then (- EALREADY, opts, m)
      else if \<not> ce_kcalloc e then (- ENOMEM, opts, m)
      else if ce_init_ctrl e \<noteq> 0 then (ce_init_ctrl e, opts, m)
      else
        let (ret, m) = connect_ctrl (ce_setup e) (new_ctrl opts (rm_devs m)) m
        in (ret, opts, m))"

text \<open>
  The release of a controller: \<open>Some i\<close> is its place in the module's list, \<open>None\<close> a controller that never
  got there. Only a listed controller owns its options; the result tells whether they are freed.
\<close>

definition nvme_rdma_free_ctrl :: "nat option \<Rightarrow> rdma_module \<Rightarrow> bool \<times> rdma_module" where
  "nvme_rdma_free_ctrl listed m =
     (case listed of
        None \<Rightarrow> (False, m)
      | Some i \<Rightarrow> (True, m\<lparr>rm_ctrls := take i (rm_ctrls m) @ drop (i + 1) (rm_ctrls m)\<rparr>))"

section \<open>The transport, the device and the module\<close>

definition nvme_rdma_transport :: nvmf_transport_ops where
  "nvme_rdma_transport =
     \<lparr>t_name = ''rdma'', t_required_opts = NVMF_OPT_TRADDR,
      t_allowed_opts = NVMF_OPT_TRSVCID OR NVMF_OPT_RECONNECT_DELAY OR NVMF_OPT_HOST_TRADDR OR
        NVMF_OPT_CTRL_LOSS_TMO OR NVMF_OPT_NR_WRITE_QUEUES OR NVMF_OPT_NR_POLL_QUEUES OR NVMF_OPT_TOS,
      t_has_create = True, t_module_get = True\<rparr>"

text \<open>
  The removal of the RDMA device with the given GUID: a deletion is requested for every controller on it.
  \<open>None\<close> is the use of a device that was freed (or never set): \<open>ctrl->device\<close> is not reset when the
  controller's queues give their device references back.
\<close>

definition on_device :: "u64 \<Rightarrow> rdma_device list \<Rightarrow> nvme_rdma_ctrl \<Rightarrow> bool option" where
  "on_device guid devs r =
     map_option (\<lambda>d. d_node_guid d = guid) (Option.bind (r_device r) (dev_of devs))"

fun delete_on_device :: "u64 \<Rightarrow> rdma_device list \<Rightarrow> nvme_rdma_ctrl list \<Rightarrow> nvme_rdma_ctrl list option" where
  "delete_on_device guid devs [] = Some []"
| "delete_on_device guid devs (r # rs) =
     (case on_device guid devs r of
        None \<Rightarrow> None
      | Some b \<Rightarrow>
          map_option ((#) (if b then on_ctrl (\<lambda>c. snd (nvme_delete_ctrl c)) r else r))
            (delete_on_device guid devs rs))"

definition nvme_rdma_remove_one :: "u64 \<Rightarrow> rdma_module \<Rightarrow> rdma_module option" where
  "nvme_rdma_remove_one guid m =
     (if \<not> list_ex (\<lambda>d. d_node_guid d = guid) (rm_devs m) then Some m
      else map_option (\<lambda>rs. m\<lparr>rm_ctrls := rs\<rparr>) (delete_on_device guid (rm_devs m) (rm_ctrls m)))"

text \<open>\<open>client\<close> and \<open>sysfs\<close> are the answers of \<open>ib_register_client\<close> and \<open>sysfs_create_group\<close>.\<close>

definition err_unreg_client :: "rdma_module \<Rightarrow> rdma_module" where
  "err_unreg_client m = m\<lparr>rm_ib_client := False\<rparr>"

definition nvme_rdma_init_module :: "int \<Rightarrow> bool \<Rightarrow> int \<Rightarrow> rdma_module \<Rightarrow> int \<times> rdma_module" where
  "nvme_rdma_init_module client kobj sysfs m =
     (let ret = client
      in if ret \<noteq> 0 then (ret, m)
      else
        let m = m\<lparr>rm_ib_client := True\<rparr>;
            (ret, ts) = nvmf_register_transport nvme_rdma_transport (rm_transports m);
            m = m\<lparr>rm_transports := ts\<rparr>
        in if ret \<noteq> 0 then (ret, err_unreg_client m)
      else
        let m = m\<lparr>rm_kobj := kobj\<rparr>
        in if \<not> kobj then (ret, err_unreg_client m)
      else
        let ret = sysfs
        in if ret \<noteq> 0 then (ret, err_unreg_client m) else (0, m\<lparr>rm_group := True\<rparr>))"

text \<open>The removal of the module; the deletions it requests run before it returns (\<open>flush\<close>).\<close>

definition nvme_rdma_cleanup_module :: "(rdma_module \<Rightarrow> rdma_module) \<Rightarrow> rdma_module \<Rightarrow> rdma_module" where
  "nvme_rdma_cleanup_module flush m =
     (let m = (if rm_kobj m then m\<lparr>rm_group := False\<rparr> else m);
          m = m\<lparr>rm_transports := nvmf_unregister_transport nvme_rdma_transport (rm_transports m)\<rparr>;
          m = m\<lparr>rm_ib_client := False\<rparr>;
          m = m\<lparr>rm_ctrls := map (on_ctrl (\<lambda>c. snd (nvme_delete_ctrl c))) (rm_ctrls m)\<rparr>
      in flush m)"

section \<open>What a creation leaves\<close>

definition queue_sum :: "nvmf_ctrl_options \<Rightarrow> nat" where
  "queue_sum opts = o_nr_io_queues opts + o_nr_write_queues opts + o_nr_poll_queues opts + 1"

lemma ctrl_queue_count_exact:
  assumes "queue_sum opts < 2 ^ 32"
  shows "unat (ctrl_queue_count opts) = queue_sum opts"
proof -
  have "ctrl_queue_count opts = of_nat (queue_sum opts)"
    by (simp add: ctrl_queue_count_def queue_sum_def)
  with assms show ?thesis by (simp add: unat_of_nat)
qed

lemma new_ctrl_ok:
  assumes "devs_ok devs" and "queue_sum opts < 2 ^ 32"
  shows "ctrl_ok (refs devs) {} {} {} (new_ctrl opts devs)"
proof -
  note n = ctrl_queue_count_exact[OF assms(2)]
  have "queues_ok (refs devs) {} {} (new_ctrl opts devs)"
    using assms(1)
    by (auto simp: queues_ok_def queue_idle_def new_ctrl_def zeroed_queue_def held_def queue_calls_def
        nvme_init_ctrl_def dev_users_def Let_def)
  moreover have "blk_held (new_ctrl opts devs) = Some {}"
    by (simp add: new_ctrl_def blk_held_def blk_calls_def nvme_init_ctrl_def Let_def)
  ultimately show ?thesis
    using n by (simp add: ctrl_ok_def queue_array_ok_def)
      (simp add: new_ctrl_def nvme_init_ctrl_def queue_sum_def Let_def)
qed

definition connecting :: "nvmf_ctrl_options \<Rightarrow> rdma_device list \<Rightarrow> nvme_rdma_ctrl" where
  "connecting opts devs = snd (on_ctrl_ret (nvme_change_ctrl_state NVME_CTRL_CONNECTING) (new_ctrl opts devs))"

lemma connecting_ok:
  assumes "devs_ok devs" and "queue_sum opts < 2 ^ 32"
  shows "ctrl_ok (refs devs) {} {} {} (connecting opts devs)"
    "c_state (r_ctrl (connecting opts devs)) = NVME_CTRL_CONNECTING"
    "fst (on_ctrl_ret (nvme_change_ctrl_state NVME_CTRL_CONNECTING) (new_ctrl opts devs))"
  using new_ctrl_ok[OF assms]
  by (simp_all add: connecting_def ctrl_ok_on_ctrl_ret)
    (simp_all add: on_ctrl_ret_def new_ctrl_def nvme_init_ctrl_def Let_def)

lemma ctrl_ok_refs: "ctrl_ok ext {} {} B r \<Longrightarrow> refs (r_devs r) a = ext a"
  by (simp add: ctrl_ok_def queues_ok_def dev_users_def)

text \<open>The result of setting up a fresh controller, as its creation sees it.\<close>

lemma connect_ctrl_result:
  assumes d: "devs_ok (rm_devs m)" and n: "queue_sum opts < 2 ^ 32"
    and env: "setup_env_ok e True (connecting opts (rm_devs m))" "se_others e = arrived qs"
    and c: "connect_ctrl e (new_ctrl opts (rm_devs m)) m = (ret, m')"
  obtains (failed) "ret \<noteq> 0" "rm_ctrls m' = rm_ctrls m" "\<And>a. refs (rm_devs m') a = refs (rm_devs m) a"
  | (live) r where "ret = 0" "rm_ctrls m' = rm_ctrls m @ [r]" "c_state (r_ctrl r) = NVME_CTRL_LIVE"
      "ctrl_ok (refs (rm_devs m)) {0..<c_queue_count (r_ctrl r)} {0..<c_queue_count (r_ctrl r)}
         (async_objs \<union> blk_objs True (connecting opts (rm_devs m))) r" "rm_devs m' = r_devs r"
  | (unusable) r where "ret = 0" "rm_ctrls m' = rm_ctrls m @ [r]" "c_state (r_ctrl r) = NVME_CTRL_CONNECTING"
      "c_icdoff (r_ctrl r) \<noteq> 0 \<or> c_sgls (r_ctrl r) AND SGLS_KEYED = 0"
      "\<And>a. refs (rm_devs m') a = refs (rm_devs m) a"
proof -
  let ?r = "connecting opts (rm_devs m)"
  note ok = connecting_ok[OF d n]
  obtain ret1 s where s: "nvme_rdma_setup_ctrl e True ?r = (ret1, s)" by fastforce
  have run: "(ret, m') = (if ret1 \<noteq> 0
      then (if 0 < ret1 then - EIO else ret1, m\<lparr>rm_devs := r_devs s\<rparr>)
      else (0, m\<lparr>rm_devs := r_devs s, rm_ctrls := rm_ctrls m @ [emit Get_ctrl s]\<rparr>))"
  proof -
    have "on_ctrl_ret (nvme_change_ctrl_state NVME_CTRL_CONNECTING) (new_ctrl opts (rm_devs m)) = (True, ?r)"
      using ok(3) unfolding connecting_def by (metis prod.collapse)
    with c s show ?thesis by (simp add: connect_ctrl_def)
  qed
  have e: "c_state (r_ctrl (emit Get_ctrl s)) = c_state (r_ctrl s)" "r_devs (emit Get_ctrl s) = r_devs s"
    "c_icdoff (r_ctrl (emit Get_ctrl s)) = c_icdoff (r_ctrl s)" "c_sgls (r_ctrl (emit Get_ctrl s)) = c_sgls (r_ctrl s)"
    "c_queue_count (r_ctrl (emit Get_ctrl s)) = c_queue_count (r_ctrl s)"
    by (simp_all add: emit_def call_def)
  have bo': "ctrl_ok ext U L B (emit Get_ctrl s) = ctrl_ok ext U L B s" for ext U L B by simp
  have refs_back: "\<And>a. refs (r_devs t) a = refs (rm_devs m) a" if "ctrl_ok (refs (rm_devs m)) {} {} B t" for B t
    by (rule ctrl_ok_refs[OF that])
  have m1: "ret \<noteq> 0" "rm_ctrls m' = rm_ctrls m" "rm_devs m' = r_devs s" if "ret1 \<noteq> 0"
    using that run by (auto split: if_splits)
  have m0: "ret = 0" "rm_ctrls m' = rm_ctrls m @ [emit Get_ctrl s]" "rm_devs m' = r_devs s" if "ret1 = 0"
    using that run by simp_all
  have fail: thesis if "ret1 \<noteq> 0" "ctrl_ok (refs (rm_devs m)) {} {} B t" "r_devs t = r_devs s" for B t
  proof (rule failed[OF m1(1,2)[OF that(1)]])
    fix a
    have "refs (r_devs t) a = refs (rm_devs m) a" by (rule refs_back[OF that(2)])
    then show "refs (rm_devs m') a = refs (rm_devs m) a" by (simp only: that(3) m1(3)[OF that(1)])
  qed
  have unus: thesis if "ret1 = 0" "ctrl_ok (refs (rm_devs m)) {} {} {} s" "steady ?r s"
    "c_icdoff (r_ctrl s) \<noteq> 0 \<or> c_sgls (r_ctrl s) AND SGLS_KEYED = 0"
  proof (rule unusable[OF m0(1,2)[OF that(1)]])
    show "c_state (r_ctrl (emit Get_ctrl s)) = NVME_CTRL_CONNECTING" using that(3) ok(2) e by (simp add: steady_def)
    show "c_icdoff (r_ctrl (emit Get_ctrl s)) \<noteq> 0 \<or> c_sgls (r_ctrl (emit Get_ctrl s)) AND SGLS_KEYED = 0"
      using that(4) e by simp
    show "\<And>a. refs (rm_devs m') a = refs (rm_devs m) a" using m0(3)[OF that(1)] refs_back[OF that(2)] by simp
  qed
  have no: "True \<Longrightarrow> {} \<inter> admin_objs = {} \<and> {} \<inter> io_objs = {}" by simp
  show thesis
  proof (cases "Arr_delete \<in> set qs")
    case True
    then have d: "c_state (r_ctrl ?r) = NVME_CTRL_CONNECTING \<and> Arr_delete \<in> set qs \<or>
        c_state (r_ctrl ?r) = NVME_CTRL_DELETING" using ok(2) by simp
    show thesis
      by (rule setup_ctrl_interrupted[OF ok(1) Int_empty_left no env(1) s d env(2)])
        (use unus fail[OF _ _ off_fields(2)] fail[of "{}" s] in simp_all)
  next
    case False
    then have a: "\<forall>c. c_state c = NVME_CTRL_CONNECTING \<longrightarrow> se_others e c = c" using env(2) by (simp add: arrived_connecting)
    show thesis
    proof (rule setup_ctrl_outcome[OF ok(1) Int_empty_left no env(1) s ok(2) a])
      assume z: "ret1 = 0" "c_state (r_ctrl s) = NVME_CTRL_LIVE"
        "ctrl_ok (refs (rm_devs m)) {0..<c_queue_count (r_ctrl s)} {0..<c_queue_count (r_ctrl s)}
           ({} \<union> async_objs \<union> blk_objs True ?r) s"
      show thesis
        by (rule live[OF m0(1,2)[OF z(1)]]) (use z e bo' m0(3) in simp_all)
    qed (use unus fail[of "{}" s] in simp_all)
  qed
qed

text \<open>
  A device removal touches a freed device exactly when some controller in the list has lost its own: one
  that is waiting to reconnect, say, after it was the last user of another device.
\<close>

lemma delete_on_device_faults:
  "delete_on_device guid devs rs = None \<longleftrightarrow> (\<exists>r \<in> set rs. Option.bind (r_device r) (dev_of devs) = None)"
  by (induction rs) (auto simp: on_device_def split: option.split)

lemma remove_one_faults:
  "nvme_rdma_remove_one guid m = None \<longleftrightarrow>
    (\<exists>d \<in> set (rm_devs m). d_node_guid d = guid) \<and>
    (\<exists>r \<in> set (rm_ctrls m). Option.bind (r_device r) (dev_of (rm_devs m)) = None)"
  by (auto simp: nvme_rdma_remove_one_def delete_on_device_faults list_ex_iff)

section \<open>Properties\<close>

text \<open>C18. Creating a controller from valid options (their queues can be counted in 32 bits) ends in one of three ways, whatever errors, reset requests and
  deletion requests arrive while it is set up. On every failure, whatever step it is in, the module's list of
  controllers is the old one and every device has the references it had. On success exactly one controller
  is added at the end of the list, and it matches none that was there unless the user asked for a duplicate:
  normally it is live with all of its resources, but a controller the transport cannot use (in-capsule data
  at an offset, or no keyed SGLs) is reported as created too, and is listed without being live and without
  holding any device.\<close>

theorem create_ctrl_outcome:
  assumes "nvme_rdma_create_ctrl e hosts opts m = (ret, opts', m')"
    and "devs_ok (rm_devs m)" and "queue_sum opts < 2 ^ 32"
    and "setup_env_ok (ce_setup e) True (connecting opts' (rm_devs m))" and "se_others (ce_setup e) = arrived qs"
  shows "(if ret \<noteq> 0 then rm_ctrls m' = rm_ctrls m \<and> (\<forall>a. refs (rm_devs m') a = refs (rm_devs m) a)
     else \<exists>r. rm_ctrls m' = rm_ctrls m @ [r] \<and>
       (o_duplicate_connect opts \<or> \<not> nvme_rdma_existing_controller hosts opts' (rm_ctrls m)) \<and>
       (if c_state (r_ctrl r) = NVME_CTRL_LIVE
        then ctrl_ok (refs (rm_devs m)) {0..<c_queue_count (r_ctrl r)} {0..<c_queue_count (r_ctrl r)}
               (async_objs \<union> blk_objs True (connecting opts' (rm_devs m))) r
        else c_state (r_ctrl r) = NVME_CTRL_CONNECTING \<and>
          (c_icdoff (r_ctrl r) \<noteq> 0 \<or> c_sgls (r_ctrl r) AND SGLS_KEYED = 0) \<and>
          (\<forall>a. refs (rm_devs m') a = refs (rm_devs m) a)))"
proof -
  obtain dret dopts where dt: "default_trsvcid (ce_kstrdup e) opts = (dret, dopts)" by fastforce
  then have dup: "o_duplicate_connect dopts = o_duplicate_connect opts" "queue_sum dopts = queue_sum opts"
    by (auto simp: default_trsvcid_def queue_sum_def split: if_splits)
  consider (early) "ret \<noteq> 0" "m' = m"
    | (connect) "opts' = dopts" "connect_ctrl (ce_setup e) (new_ctrl dopts (rm_devs m)) m = (ret, m')"
        "o_duplicate_connect opts \<or> \<not> nvme_rdma_existing_controller hosts opts' (rm_ctrls m)"
  proof -
    obtain cret cm where cc: "connect_ctrl (ce_setup e) (new_ctrl dopts (rm_devs m)) m = (cret, cm)" by fastforce
    let ?src = "if o_mask dopts AND NVMF_OPT_HOST_TRADDR \<noteq> 0 then ce_src e (o_host_traddr dopts) else 0"
    let ?known = "\<not> o_duplicate_connect dopts \<and> nvme_rdma_existing_controller hosts dopts (rm_ctrls m)"
    have run: "(ret, opts', m') =
        (if \<not> ce_kzalloc e then (- ENOMEM, opts, m) else if dret \<noteq> 0 then (dret, dopts, m)
         else if ce_traddr e (o_traddr dopts) (o_trsvcid dopts) \<noteq> 0
           then (ce_traddr e (o_traddr dopts) (o_trsvcid dopts), dopts, m)
         else if ?src \<noteq> 0 then (?src, dopts, m) else if ?known then (- EALREADY, dopts, m)
         else if \<not> ce_kcalloc e then (- ENOMEM, dopts, m)
         else if ce_init_ctrl e \<noteq> 0 then (ce_init_ctrl e, dopts, m) else (cret, dopts, cm))"
      using assms(1) unfolding nvme_rdma_create_ctrl_def Let_def dt cc prod.case by (rule HOL.sym)
    show ?thesis
    proof (cases "\<not> ce_kzalloc e \<or> dret \<noteq> 0 \<or> ce_traddr e (o_traddr dopts) (o_trsvcid dopts) \<noteq> 0 \<or> ?src \<noteq> 0 \<or>
        ?known \<or> \<not> ce_kcalloc e \<or> ce_init_ctrl e \<noteq> 0")
      case True
      then have "ret \<noteq> 0" "m' = m" using run by (auto split: if_splits)
      then show ?thesis by (rule early)
    next
      case False
      then have "ret = cret" "opts' = dopts" "m' = cm" using run by (auto split: if_splits)
      with False cc dup(1) show ?thesis by (intro connect) auto
    qed
  qed
  then show ?thesis
  proof cases
    case early
    then show ?thesis by simp
  next
    case connect
    have n: "queue_sum dopts < 2 ^ 32" using assms(3) dup(2) by simp
    show ?thesis
      by (rule connect_ctrl_result[OF assms(2) n assms(4)[unfolded connect(1)] assms(5) connect(2)])
        (use connect in auto)
  qed
qed

text \<open>Loading the module registers everything or nothing, but for two paths: when the metrics directory
  cannot be created the load reports success with the RDMA client gone, and when its files cannot be
  created the load fails while the transport stays registered, so that a later connect request calls
  into a module that was unloaded.\<close>

theorem init_module_registrations:
  assumes "nvme_rdma_init_module client kobj sysfs m = (ret, m')" and "\<not> rm_ib_client m"
    and "nvme_rdma_transport \<notin> set (rm_transports m)"
  shows "(ret = 0 \<and> rm_ib_client m' \<and> nvme_rdma_transport \<in> set (rm_transports m') \<longleftrightarrow>
           client = 0 \<and> kobj \<and> sysfs = 0) \<and>
    (ret \<noteq> 0 \<and> nvme_rdma_transport \<notin> set (rm_transports m') \<longleftrightarrow> client \<noteq> 0) \<and>
    (ret = 0 \<and> \<not> rm_ib_client m' \<longleftrightarrow> client = 0 \<and> \<not> kobj) \<and>
    (ret \<noteq> 0 \<and> nvme_rdma_transport \<in> set (rm_transports m') \<longleftrightarrow> client = 0 \<and> kobj \<and> sysfs \<noteq> 0)"
  using assms
  by (auto simp: nvme_rdma_init_module_def nvmf_register_transport_def nvme_rdma_transport_def
      err_unreg_client_def Let_def split: if_splits)


text \<open>A discovery controller created by an empty module.\<close>

definition discopts0 :: nvmf_ctrl_options where
  "discopts0 = opts0\<lparr>o_nr_io_queues := 0, o_discovery_nqn := True, o_queue_size := 128\<rparr>"

definition createenv0 :: create_env where
  "createenv0 = \<lparr>ce_kzalloc = True, ce_kstrdup = True, ce_traddr = (\<lambda>_ _. 0), ce_src = (\<lambda>_. 0),
     ce_kcalloc = True, ce_init_ctrl = 0, ce_setup = setupenv0\<rparr>"

definition module0 :: rdma_module where
  "module0 = \<lparr>rm_ctrls = [], rm_devs = [], rm_transports = [], rm_ib_client = True, rm_kobj = True,
     rm_group = True\<rparr>"


lemma connecting_disc0: "admin_only (connecting (snd (default_trsvcid True discopts0)) [])"
  by (simp add: admin_only_def connecting_def on_ctrl_ret_def new_ctrl_def nvme_init_ctrl_def default_trsvcid_def
      discopts0_def opts0_def ctrl_queue_count_def nvme_change_ctrl_state_def call_def Let_def)

theorem create_ctrl_outcome_witness:
  "\<exists>r. rm_ctrls (snd (snd (nvme_rdma_create_ctrl createenv0 [] discopts0 module0))) = [r] \<and>
     c_state (r_ctrl r) = NVME_CTRL_LIVE \<and> 1 \<le> c_queue_count (r_ctrl r)"
proof -
  obtain opts where o: "snd (default_trsvcid True discopts0) = opts" by blast
  let ?c = "connect_ctrl setupenv0 (new_ctrl opts []) module0"
  have dt: "default_trsvcid True discopts0 = (0, opts)"
    using o by (auto simp: default_trsvcid_def discopts0_def opts0_def)
  have hm: "o_mask opts AND NVMF_OPT_HOST_TRADDR = 0" "queue_sum discopts0 < 2 ^ 32" "queue_sum opts < 2 ^ 32"
    using o by (auto simp: default_trsvcid_def discopts0_def opts0_def queue_sum_def)
  have run: "nvme_rdma_create_ctrl createenv0 [] discopts0 module0 = (fst ?c, opts, snd ?c)"
    by (simp add: nvme_rdma_create_ctrl_def createenv0_def dt hm(1) module0_def nvme_rdma_existing_controller_def
        Let_def split_beta)
  have env: "setup_env_ok (ce_setup createenv0) True (connecting opts (rm_devs module0))"
    "se_others (ce_setup createenv0) = arrived []" "devs_ok (rm_devs module0)"
    using setupenv0_ok[OF connecting_disc0[unfolded o]]
    by (simp_all add: createenv0_def module0_def) (simp_all add: setupenv0_def devs_ok_def arrived_def fun_eq_iff)
  have live: "c_state (r_ctrl (snd (nvme_rdma_setup_ctrl setupenv0 True (connecting opts [])))) = NVME_CTRL_LIVE"
    by (rule setup_admin_only[OF connecting_disc0[unfolded o]])
  obtain ret1 s where s: "nvme_rdma_setup_ctrl setupenv0 True (connecting opts []) = (ret1, s)" by fastforce
  have p: "on_ctrl_ret (nvme_change_ctrl_state NVME_CTRL_CONNECTING) (new_ctrl opts []) = (True, connecting opts [])"
    using connecting_ok(3)[of "[]" opts] hm(3) unfolding connecting_def by (simp add: devs_ok_def) (metis prod.collapse)
  have k: "ctrl_ok (refs []) {} {} {} (connecting opts [])" "c_state (r_ctrl (connecting opts [])) = NVME_CTRL_CONNECTING"
    using connecting_ok[of "[]" opts] hm(3) by (simp_all add: devs_ok_def)
  have se: "setup_env_ok setupenv0 True (connecting opts [])"
    "\<forall>c. c_state c = NVME_CTRL_CONNECTING \<longrightarrow> se_others setupenv0 c = c"
    using env(1) by (simp_all add: createenv0_def module0_def) (simp add: setupenv0_def)
  have ret: "ret1 = 0"
    by (rule setup_ctrl_outcome[OF k(1) Int_empty_left _ se(1) s k(2) se(2)])
      (use live s k(2) in \<open>simp_all add: steady_def\<close>)
  have c: "fst ?c = 0" "rm_ctrls (snd ?c) = [emit Get_ctrl s]"
    by (simp_all add: connect_ctrl_def p s ret module0_def)
  have lv: "c_state (r_ctrl (emit Get_ctrl s)) = NVME_CTRL_LIVE" using live s by (simp add: emit_def call_def)
  have rm: "rm_ctrls (snd (snd (nvme_rdma_create_ctrl createenv0 [] discopts0 module0))) = [emit Get_ctrl s]"
    unfolding run by (simp add: c)
  from create_ctrl_outcome[OF run env(3) hm(2) env(1,2)] c lv
  have "\<exists>r. [emit Get_ctrl s] = [r] \<and>
      ctrl_ok (refs (rm_devs module0)) {0..<c_queue_count (r_ctrl r)} {0..<c_queue_count (r_ctrl r)}
        (async_objs \<union> blk_objs True (connecting opts (rm_devs module0))) r"
    by (auto simp: module0_def split: if_splits)
  with rm lv show ?thesis using ctrl_okD(3) by fastforce
qed

theorem init_module_registrations_witness:
  "let (ret, m) = nvme_rdma_init_module 0 False 0 (module0\<lparr>rm_ib_client := False\<rparr>) in ret = 0 \<and> \<not> rm_ib_client m"
proof -
  obtain ret m where i: "nvme_rdma_init_module 0 False 0 (module0\<lparr>rm_ib_client := False\<rparr>) = (ret, m)" by fastforce
  from init_module_registrations[OF i] i show ?thesis by (simp add: module0_def)
qed

end
