(* ===== verification/Spec2Isabelle.thy ===== *)
theory Spec2Isabelle
  imports Fabric_Admin Rdma_Metrics Rdma_Io_Queues Fabrics_Options Host_Identify Host_Request Ctrl_Recovery Rdma_Completion Rdma_Module
begin

text \<open>
  NetCAS puts a network-aware cache in front of remote storage. The part of it that is a program of
  its own is the modified NVMe-over-Fabrics driver set under
  \<open>src/shell/nvme-of_setup/nvme-modified\<close>: the host driver with the project's performance monitor built
  into its RDMA transport, and the target that serves the remote device. This library models the host
  over RDMA and the transport-independent core of the target, and proves what makes them correct. File
  names below are relative to that directory.

  \<^bold>\<open>How the parts interact.\<close> A user writes an option string to a control device (\<open>host/fabrics.c\<close>); the
  fabrics library parses it and asks the RDMA transport (\<open>host/rdma.c\<close>) for a controller. The transport
  allocates an admin queue and I/O queues, each with its verbs resources and connection, drives the
  controller's registers and identification through the core (\<open>host/core.c\<close>), and registers the
  controller. From then on requests of the block layer are turned into commands, mapped, sent and
  completed; the monitor counts the completions. Errors, timeouts, resets and deletions are works that
  tear the controller down, reconnect it, or release it. On the other side a target
  (\<open>target/core.c\<close>, \<open>target/fabrics-cmd.c\<close>, \<open>target/admin-cmd.c\<close>) admits the host's queues to controllers
  of a subsystem, serves its registers and admin commands, carries reads and writes to a block device or
  a file, and reports changes of the subsystem's namespaces as asynchronous events and log pages.

  \<^bold>\<open>Theories and code.\<close>
  \<^item> \<open>Nvme_Prelude\<close>: integer types, errno values, generic lemmas, and two interfaces as locales: forward
    \<open>simulation\<close> of an abstract machine, and \<open>mq_driver\<close>, the contract of a driver with the block layer.
    \<open>Nvme_Spec\<close>: numbers the NVMe specifications fix.
  \<^item> \<open>Rdma_Metrics\<close> (\<open>host/rdma.c\<close>): the monitor, an abstract window machine it refines through
    \<open>simulation\<close>, the sysfs text.
  \<^item> \<open>Host_Ctrl\<close>, \<open>Host_Core\<close> (\<open>host/core.c\<close>, \<open>host/nvme.h\<close>): \<open>struct nvme_ctrl\<close>, its state machine, works
    and requests, register handshakes, features, events. \<open>Host_Identify\<close>: what initialisation reads and
    configures. \<open>Host_Request\<close>: commands, completion, retries. \<open>Host_Ns\<close>: the namespaces of a controller,
    their identifiers and the scan.
  \<^item> \<open>Rdma_Device\<close>, \<open>Rdma_Queue\<close>, \<open>Queue_Resources\<close>: devices and their references, the operations and
    event handlers of one queue, and the automaton of the kernel objects it holds. \<open>Rdma_Io_Queues\<close>: the
    set of I/O queues and the block layer's map.
  \<^item> \<open>Rdma_Ctrl\<close>: a controller's tag sets, queues, recovery, reset and deletion with every error label.
    \<open>Ctrl_Trace\<close>, \<open>Ctrl_Resources\<close>, \<open>Ctrl_Arrivals\<close>, \<open>Ctrl_Setup\<close>: what it holds, replayed from its trace, and
    that setting up is all or nothing, also when errors and requests arrive meanwhile. \<open>Ctrl_Lifecycle\<close>, \<open>Ctrl_Recovery\<close>: the works as a step relation, its
    invariant, how deletion and recovery end.
  \<^item> \<open>Rdma_Data\<close>, \<open>Rdma_Completion\<close>: a request's data, descriptors, issue and end, the completions in any
    order. \<open>Rdma_Data\<close> interprets \<open>mq_driver\<close>.
  \<^item> \<open>Rdma_Module\<close>: creating and removing controllers, loading the module. \<open>Fabrics_Host\<close>,
    \<open>Fabrics_Options\<close>: host identities, commands, options, controller creation.
  \<^item> \<open>Target_Ctrl\<close> (\<open>target/core.c\<close>, \<open>target/nvmet.h\<close>): requests and completions, the registers, which
    refine the specification's machine through \<open>simulation\<close>, the keep-alive timer. \<open>Target_Log\<close>: error
    log, asynchronous events, changed namespaces. \<open>Target_Ns\<close>: namespaces of a subsystem.
    \<open>Target_Subsys\<close>, \<open>Target_Connect\<close>: subsystems, controllers and queues with their references,
    admission. \<open>Target_Cmd\<close>: from a received command to what executes it. \<open>Target_Backend\<close>
    (\<open>target/io-cmd-bdev.c\<close>, \<open>target/io-cmd-file.c\<close>): reads, writes and discards on block devices and files.
    \<open>Target_Admin\<close>: features, identify, logs. \<open>Target_Disc\<close> (\<open>target/discovery.c\<close>): discovery.
  \<^item> \<open>Fabric_Connect\<close>, \<open>Fabric_Admin\<close>: host and target put together: the connect data on the wire and an
    admin connect from end to end; the namespaces a scan finds, the identifiers it reads, the number of queues
    and the inline data both sides keep to.

  \<^bold>\<open>State and operations.\<close> A C struct is a record with the fields the modelled code reads or writes; a
  function is a definition of the same name that takes the state and returns it updated, paired with the
  C return value (errno as \<open>int\<close>, statuses and registers as words of their width). Loops are structural
  recursion or functions with a measure. What the kernel, the adapter or the other side answers is an
  argument: an environment record with one field per question, quantified over in the theorems. Calls
  the driver makes into other subsystems are appended to a trace (\<open>call\<close>), so that theorems can say which
  were made and in what order; the automata of \<open>Queue_Resources\<close>, \<open>Ctrl_Resources\<close> and \<open>Rdma_Data\<close> replay
  these traces and fail on a call that the callee's contract forbids.

  \<^bold>\<open>What is shown.\<close> Safety of resources: allocation, set-up, issue and creation take everything or give
  everything back, for every answer; deletion releases everything, except where a finding shows a leak or
  queues left flagged live.
  Invariants: life cycle, state machine, tags. Termination: polling loops, retries, recovery. Function:
  negotiation, descriptors, power states, statistics, options. Errors: for each defect found, a theorem
  that exhibits it on the definitions.

  \<^bold>\<open>Bounds and fuel.\<close> No definition uses fuel. Polling loops are \<open>function\<close>s whose measure is the time
  left; the reconnect loop is bounded by \<open>o_max_reconnects\<close>; runs of works are arbitrary finite lists.

  \<^bold>\<open>Not modelled.\<close> \<open>host/pci.c\<close>, \<open>host/fc.c\<close>, \<open>host/tcp.c\<close>, \<open>host/lightnvm.c\<close> and the target's
  transports (\<open>target/rdma.c\<close>, \<open>target/tcp.c\<close>, \<open>target/fc.c\<close>, \<open>target/fcloop.c\<close>, \<open>target/loop.c\<close>), which NetCAS does
  not use or does not change; most of the target's configuration files (\<open>target/configfs.c\<close>); \<open>host/multipath.c\<close>, tracing and fault injection; user space
  passthrough and the character devices; the drafts \<open>host/rdma_throughput*.c\<close>; the unmodified copy
  under \<open>nvme/\<close>; scripts, benchmarks and results. Memory ordering and lock acquisition are not
  modelled: a handler is atomic between the points where it sleeps or releases its locks. The works of a
  host controller run one at a time; errors and requests that arrive during a set-up act before the
  controller would go live; a timeout is handled between works.
\<close>

end
